(* ===== verification/Prelude.thy ===== *)
theory Prelude
  imports Main "HOL-Library.Word" "HOL-Library.Monad_Syntax"
begin

unbundle bit_operations_syntax

text \<open>
  What every component shares: the machine types of the kernel (arm64, so \<open>unsigned long\<close> has
  64 bits), the signed readings of a word, the C macros and 64-bit helpers that are plain
  arithmetic (\<open>min\<close>, \<open>max\<close>, \<open>div_u64\<close> is the C operator \<open>/\<close>), the interface of the multiply
  and shift helper \<open>mul_u64_u32_shr\<close>, which lies outside the repository and is therefore a
  parameter of type \<open>mulfn\<close>, and the word lemmas the proofs share.
\<close>

named_theorems pelt_defs \<open>definitions of the load-tracking model\<close>
named_theorems unat_facts \<open>values of word operations that do not wrap\<close>

type_synonym u8 = "8 word"
type_synonym u32 = "32 word"
type_synonym u64 = "64 word"
type_synonym ulong = "64 word"
type_synonym s64 = "64 word"
type_synonym cpu = nat

section \<open>Word arithmetic without wrap-around\<close>

lemma unat_lt_u64 [simp]: "unat (w :: u64) < 18446744073709551616"
  using unsigned_less [of w] by simp

lemma unat_lt_u32 [simp]: "unat (w :: u32) < 4294967296"
  using unsigned_less [of w] by simp

lemma unat_plus_small: "unat (a :: 'a::len word) + unat b < 2 ^ LENGTH('a) \<Longrightarrow> unat (a + b) = unat a + unat b"
  by (simp add: unat_word_ariths)

lemma unat_times_small: "unat (a :: 'a::len word) * unat b < 2 ^ LENGTH('a) \<Longrightarrow> unat (a * b) = unat a * unat b"
  by (simp add: unat_word_ariths)

lemma unat_plus_le: "unat ((a :: 'a::len word) + b) \<le> unat a + unat b"
  by (simp add: unat_word_ariths)

lemma unat_times_le: "unat ((a :: 'a::len word) * b) \<le> unat a * unat b"
  by (simp add: unat_word_ariths)

lemma unat_plus_u64 [unat_facts]:
  "unat (a :: u64) + unat b < 18446744073709551616 \<Longrightarrow> unat (a + b) = unat a + unat b"
  by (simp add: unat_word_ariths)

lemma unat_times_u64 [unat_facts]:
  "unat (a :: u64) * unat b < 18446744073709551616 \<Longrightarrow> unat (a * b) = unat a * unat b"
  by (simp add: unat_word_ariths)

lemma unat_plus_u32 [unat_facts]:
  "unat (a :: u32) + unat b < 4294967296 \<Longrightarrow> unat (a + b) = unat a + unat b"
  by (simp add: unat_word_ariths)

lemma unat_minus_le: "b \<le> a \<Longrightarrow> unat ((a :: 'a::len word) - b) = unat a - unat b"
  by (simp add: unat_sub)

lemma unat_drop_bit_div [unat_facts]: "unat (drop_bit n w) = unat w div 2 ^ n"
  by (metis drop_bit_eq_div unat_drop_bit_eq)

lemma unat_ucast_up [simp]: "unat (ucast (w :: u32) :: u64) = unat w"
  
proof -
  have "unat w < 2 ^ 64" by (rule less_trans [OF unat_lt_u32]) simp
  then show ?thesis by (simp add: unsigned_ucast_eq take_bit_nat_eq_self)
qed


lemma unat_ucast_down: "unat (ucast (w :: u64) :: u32) = unat w mod 4294967296"
  by (simp add: unsigned_ucast_eq take_bit_eq_mod)

lemma unat_ucast_down_le: "unat (ucast (w :: u64) :: u32) \<le> unat w"
  by (simp add: unat_ucast_down)

lemma unat_ucast_down_small [unat_facts]:
  "unat (w :: u64) < 4294967296 \<Longrightarrow> unat (ucast w :: u32) = unat w"
  by (simp add: unat_ucast_down)

lemma of_nat_eq_unat: "n < 2 ^ LENGTH('a) \<Longrightarrow> unat (word_of_nat n :: 'a::len word) = n"
  by (simp add: unat_of_nat)

section \<open>Signed readings\<close>

text \<open>\<open>(s64)\<close> casts keep the bits; comparisons then use the two's complement reading.\<close>

definition s64_min :: "s64 \<Rightarrow> s64 \<Rightarrow> s64" where
  "s64_min a b = (if sint a < sint b then a else b)"

lemma sint_s64_min: "sint (s64_min a b) = min (sint a) (sint b)"
  by (simp add: s64_min_def min_def)

lemma sint_word_of_int_small:
  "- 9223372036854775808 \<le> k \<Longrightarrow> k < 9223372036854775808 \<Longrightarrow> sint (word_of_int k :: s64) = k"
  by (simp add: sint_sbintrunc' signed_take_bit_int_eq_self)

lemma sint_nonneg_uint:
  fixes x :: s64
  assumes "0 \<le> sint x"
  shows "sint x = uint x"
proof -
  have "uint x = uint (word_of_int (sint x) :: s64)" by simp
  also have "\<dots> = sint x mod 18446744073709551616" by (simp only: uint_word_of_int) simp
  finally show ?thesis using assms sint_lt [of x] by simp
qed

lemma sint_minus_uint:
  fixes a b :: s64
  assumes "- 9223372036854775808 \<le> sint a - uint b"
  shows "sint (a - b) = sint a - uint b"
proof -
  have "a - b = word_of_int (sint a - uint b)" by simp
  moreover have "sint a - uint b < 9223372036854775808"
    by (rule le_less_trans [of _ "sint a"]) (use sint_lt [of a] in simp_all)
  ultimately show ?thesis using assms sint_word_of_int_small by metis
qed

lemma sint_plus_uint:
  fixes a b :: s64
  assumes "sint a + uint b < 9223372036854775808"
  shows "sint (a + b) = sint a + uint b"
proof -
  have "a + b = word_of_int (sint a + uint b)" by simp
  moreover have "- 9223372036854775808 \<le> sint a + uint b"
    by (rule order_trans [of _ "sint a"]) (use sint_ge [of a] in simp_all)
  ultimately show ?thesis using assms sint_word_of_int_small by metis
qed

lemma sint_diff_small:
  fixes a b :: u64
  assumes "- 9223372036854775808 \<le> uint a - uint b" "uint a - uint b < 9223372036854775808"
  shows "sint (a - b) = uint a - uint b"
proof -
  have "sint (a - b) = signed_take_bit 63 (uint (a - b))"
    by (simp add: sint_uint)
  also have "uint (a - b) = take_bit 64 (uint a - uint b)"
    by (simp add: uint_word_ariths take_bit_eq_mod)
  also have "signed_take_bit 63 (take_bit 64 (uint a - uint b)) = signed_take_bit 63 (uint a - uint b)"
    by (simp add: signed_take_bit_take_bit)
  also have "\<dots> = uint a - uint b"
    using assms by (intro signed_take_bit_int_eq_self) auto
  finally show ?thesis .
qed

section \<open>The multiply-and-shift helper\<close>

text \<open>
  \<open>mul_u64_u32_shr(a, mul, shift)\<close> of the kernel's 64-bit math header is called but not part of
  the repository. Its documented result is \<open>(a * mul) >> shift\<close> computed in 128 bits; the shift is
  an \<open>unsigned int\<close>, and the code relies on that result for shifts below 64.
\<close>

type_synonym mulfn = "u64 \<Rightarrow> u32 \<Rightarrow> nat \<Rightarrow> u64"

definition mul_shr_ok :: "mulfn \<Rightarrow> bool" where
  "mul_shr_ok m \<longleftrightarrow> (\<forall>a b s. s < 64 \<longrightarrow> m a b s = word_of_nat (unat a * unat b div 2 ^ s))"

definition mul_shr_ref :: mulfn where
  "mul_shr_ref a b s = word_of_nat (unat a * unat b div 2 ^ s)"

lemma mul_shr_ok_ref [simp]: "mul_shr_ok mul_shr_ref"
  by (simp add: mul_shr_ok_def mul_shr_ref_def)

lemma mul_shr_okD: "mul_shr_ok m \<Longrightarrow> s < 64 \<Longrightarrow> m a b s = mul_shr_ref a b s"
  by (simp add: mul_shr_ok_def mul_shr_ref_def)

lemma mul_shr_32:
  assumes "mul_shr_ok m"
  shows "unat (m a b 32) = unat a * unat b div 4294967296"
proof -
  have "unat a * unat b \<le> unat a * 4294967296"
    using less_imp_le [OF unat_lt_u32 [of b]] by (intro mult_le_mono) auto
  then have "unat a * unat b div 4294967296 \<le> unat a"
    by (metis div_le_mono div_mult_self_is_m zero_less_numeral)
  then have "unat a * unat b div 4294967296 < 2 ^ LENGTH(64)"
    using unat_lt_u64 [of a] by (simp del: unat_lt_u64)
  then show ?thesis
    using assms by (simp add: mul_shr_okD mul_shr_ref_def of_nat_eq_unat)
qed

end
