(* ===== verification/Sched_Types.thy ===== *)
theory Sched_Types
  imports Prelude "HOL-Library.Tree"
begin

text \<open>
  The data of the fair scheduling class: \<open>struct load_weight\<close>, \<open>struct sched_avg\<close> and
  \<open>struct sched_entity\<close> (\<open>include/linux/sched.h\<close>), \<open>struct cfs_rq\<close>, \<open>struct task_group\<close>,
  \<open>struct cfs_bandwidth\<close> and \<open>struct rq\<close> (\<open>kernel/sched/sched.h\<close>), for a 64-bit SMP kernel with
  group scheduling, CFS bandwidth control and task weights. Pointers are identifiers into the stores
  of \<open>kstate\<close>, \<open>NULL\<close> is \<open>None\<close>. Locks, list links, statistics and fields no modelled function
  reads are left out.
\<close>

type_synonym se_id = nat
type_synonym cfs_id = nat
type_synonym tg_id = nat

record load_weight =
  weight :: ulong
  inv_weight :: u32

record sched_avg =
  last_update_time :: u64
  load_sum :: u64
  util_sum :: u32
  util_fast_sum :: u32
  period_contrib :: u32
  load_avg :: ulong
  util_avg :: ulong
  util_fast_avg :: ulong
  memory_cycle_ratio :: u32
  core_util_sum :: u32
  memory_util_sum :: u32
  core_util_fast_sum :: u32
  memory_util_fast_sum :: u32
  core_util_avg :: ulong
  memory_util_avg :: ulong
  core_util_fast_avg :: ulong
  memory_util_fast_avg :: ulong
  scaling_sum :: u32
  scaling_fast_sum :: u32
  scaling_avg :: ulong
  scaling_fast_avg :: ulong
  sa_weight :: u32

record sched_entity =
  se_load :: load_weight
  on_rq :: u32
  exec_start :: u64
  sum_exec_runtime :: u64
  vruntime :: u64
  prev_sum_exec_runtime :: u64
  depth :: int
  parent :: "se_id option"
  se_cfs_rq :: cfs_id
  my_q :: "cfs_id option"
  se_avg :: sched_avg

record cfs_rq =
  cfs_load :: load_weight
  nr_running :: u32
  h_nr_running :: u32
  exec_clock :: u64
  min_vruntime :: u64
  tasks_timeline :: "se_id tree"
  rb_leftmost :: "se_id option"
  curr :: "se_id option"
  next_buddy :: "se_id option"
  last_buddy :: "se_id option"
  skip_buddy :: "se_id option"
  cfs_avg :: sched_avg
  runnable_load_sum :: u64
  runnable_load_avg :: ulong
  tg_load_avg_contrib :: ulong
  propagate_avg :: ulong
  removed_load_avg :: ulong
  removed_util_avg :: ulong
  removed_util_fast_avg :: ulong
  removed_core_util_avg :: ulong
  removed_memory_util_avg :: ulong
  removed_core_util_fast_avg :: ulong
  removed_memory_util_fast_avg :: ulong
  removed_scaling_avg :: ulong
  removed_scaling_fast_avg :: ulong
  rq_cpu :: cpu
  on_list :: bool
  cfs_tg :: tg_id
  runtime_enabled :: bool
  cfs_runtime_expires :: u64
  runtime_remaining :: s64
  throttled_clock :: u64
  throttled_clock_task :: u64
  throttled_clock_task_time :: u64
  throttled :: bool
  throttle_count :: int
  h_load :: ulong
  last_h_load_update :: u64
  h_load_next :: "se_id option"

record cfs_bandwidth =
  period :: u64
  quota :: u64
  runtime :: u64
  runtime_expires :: u64
  idle :: bool
  period_active :: bool
  throttled_cfs_rq :: "cfs_id list"
  nr_periods :: int
  nr_throttled :: int
  throttled_time :: u64
  period_timer :: bool
  slack_timer :: bool

record task_group =
  tg_se :: "cpu \<Rightarrow> se_id option"
  tg_cfs_rq :: "cpu \<Rightarrow> cfs_id"
  shares :: ulong
  tg_load_avg :: ulong
  tg_parent :: "tg_id option"
  tg_bandwidth :: cfs_bandwidth

record rq =
  rq_load :: load_weight
  rq_cfs :: cfs_id
  clock :: u64
  clock_task :: u64
  cfs_tasks :: "se_id list"
  rt_avg :: u64
  age_stamp :: u64
  rq_nr_running :: u32
  rq_curr :: se_id
  rq_idle :: se_id
  leaf_cfs_rq_list :: "cfs_id list"
  tmp_alone_branch :: "cfs_id option"
  cpu_load :: "ulong list"
  misfit_task :: bool
  last_load_update_tick :: ulong
  nr_load_updates :: ulong
  rq_rd :: nat
  cpu_capacity :: ulong
  cpu_capacity_orig :: ulong

text \<open>A root domain, and the capacity that groups of cpus share, with the mask of the cpus that may balance.\<close>

record root_domain =
  overload :: bool
  overutilized :: bool
  max_cpu_capacity_val :: ulong
  max_cpu_capacity_cpu :: int
  max_cap_orig_cpu :: int
  min_cap_orig_cpu :: int

record sched_group_capacity =
  capacity :: ulong
  max_capacity :: ulong
  min_capacity :: ulong
  next_update :: ulong
  imbalance :: bool
  balance_mask :: "cpu set"

text \<open>
  What the fair class reads of a task, whose entity \<open>p->se\<close> has the task's number: its policy, whether
  its class is \<open>fair_sched_class\<close>, its place on a runqueue (0, queued 1, migrating 2), whether its state is
  \<open>TASK_WAKING\<close>, whether it waits for I/O, its priority, cpu and group, whether a cpu executes it, where it may
  run, and how often the task it wakes changes.
\<close>

datatype policy = SCHED_NORMAL | SCHED_FIFO | SCHED_RR | SCHED_BATCH | SCHED_IDLE | SCHED_DEADLINE

record task_struct =
  task_policy :: policy
  fair_class :: bool
  task_on_rq :: u32
  waking :: bool
  in_iowait :: bool
  prio :: int
  task_cpu :: cpu
  sched_task_group :: tg_id
  on_cpu :: bool
  cpus_allowed :: "cpu \<Rightarrow> bool"
  wakee_flips :: u32
  wakee_flip_decay_ts :: ulong
  last_wakee :: "se_id option"

text \<open>The tunables of the fair class, \<open>fair.c\<close> lines 195--285.\<close>

datatype sched_tunable_scaling = SCHED_TUNABLESCALING_NONE | SCHED_TUNABLESCALING_LOG | SCHED_TUNABLESCALING_LINEAR

record sched_sysctl =
  sysctl_sched_latency :: u32
  normalized_sysctl_sched_latency :: u32
  sysctl_sched_min_granularity :: u32
  normalized_sysctl_sched_min_granularity :: u32
  sysctl_sched_wakeup_granularity :: u32
  normalized_sysctl_sched_wakeup_granularity :: u32
  sysctl_sched_tunable_scaling :: sched_tunable_scaling
  sched_nr_latency :: u32
  sysctl_sched_cfs_bandwidth_slice :: u32
  sysctl_sched_initial_task_util :: u32
  sysctl_sched_child_runs_first :: u32
  sysctl_sched_migration_cost :: u32
  fair_time_avg :: u32
  fair_capacity_margin :: u32
  capacity_down_margin :: u32
  sysctl_sched_sync_hint_enable :: u32
  sysctl_sched_cstate_aware :: u32

text \<open>
  The per-cpu copies of the performance counters (\<open>prevcc\<close> and its four siblings of
  \<open>fair.c\<close>, one 32-bit value each).
\<close>

record pmu_prev =
  prevcc :: u32
  prevfs :: u32
  prevbs :: u32
  previn :: u32
  prevmb :: u32

text \<open>
  Assembly statements are the events of a trace: \<open>Msr r v\<close> writes system register \<open>r\<close>, \<open>Mrs r\<close>
  reads it, \<open>Isb\<close> is the barrier. Every cpu has its own registers and its own trace. What a read
  returns is decided by the hardware, a function of the cpu and its trace so far, and therefore a
  parameter.
\<close>

datatype sysreg = PMSELR_EL0 | PMXEVCNTR_EL0 | PMXEVTYPER_EL0 | PMUSERENR_EL0 | PMCNTENSET_EL0 | PMCR_EL0

datatype asm_event = Msr sysreg u64 | Mrs sysreg | Isb

type_synonym pmu_hw = "cpu \<Rightarrow> asm_event list \<Rightarrow> u64"

record kstate =
  se_at :: "se_id \<Rightarrow> sched_entity"
  cfs_at :: "cfs_id \<Rightarrow> cfs_rq"
  tg_at :: "tg_id \<Rightarrow> task_group"
  rq_at :: "cpu \<Rightarrow> rq"
  task_at :: "se_id \<Rightarrow> task_struct"
  pkshin_pemt_enabled :: bool
  pkshin_cycle_enabled :: bool
  exec_time :: "u64 list"
  exec_clear_time :: "u64 list"
  pmu_prev_of :: "cpu \<Rightarrow> pmu_prev"
  asm_trace :: "cpu \<Rightarrow> asm_event list"
  util_updates :: "(cpu \<times> u64 \<times> u32) list"
  sysctls :: sched_sysctl
  cfs_bandwidth_key :: nat
  resched_requests :: "cpu list"
  jiffies :: ulong
  rd_at :: "nat \<Rightarrow> root_domain"
  sg_capacity_at :: "nat \<Rightarrow> sched_group_capacity"

text \<open>
  What the fair class calls outside the repository: the 64-bit multiply, the architecture's
  frequency and capacity scales, the processor's counters, the red-black tree library, the scheduler
  features, the clocks, the cpus, the walk over a task group's descendants (a group before its children, and
  after them), and the state of a group's period timer.
\<close>

datatype sched_feature = ATTACH_AGE_LOAD | START_DEBIT | GENTLE_FAIR_SLEEPERS | NEXT_BUDDY | LAST_BUDDY | WAKEUP_PREEMPTION
  | LB_BIAS | LB_MIN | SIS_AVG_CPU | CACHE_HOT_BUDDY | CAPACITY_AWARE | ENERGY_AWARE

record kapi =
  mul_u64_u32_shr :: mulfn
  arch_scale_freq_capacity :: "cpu \<Rightarrow> u64"
  arch_scale_cpu_capacity :: "cpu \<Rightarrow> u64"
  pmu_read :: pmu_hw
  this_cpu :: cpu
  rb_insert_color :: "se_id tree \<Rightarrow> se_id tree"
  rb_erase :: "se_id \<Rightarrow> se_id tree \<Rightarrow> se_id tree"
  rb_next :: "se_id \<Rightarrow> se_id tree \<Rightarrow> se_id option"
  rb_last :: "se_id tree \<Rightarrow> se_id option"
  sched_feat :: "sched_feature \<Rightarrow> bool"
  sched_freq :: bool
  tick_nsecs :: u64
  sched_clock_cpu :: "cpu \<Rightarrow> u64"
  update_rq_clock :: "rq \<Rightarrow> rq"
  possible_cpus :: "cpu list"
  tg_preorder :: "tg_id \<Rightarrow> tg_id list"
  tg_postorder :: "tg_id \<Rightarrow> tg_id list"
  hrtimer_callback_running :: "tg_id \<Rightarrow> bool"
  hrtimer_expires_remaining :: "tg_id \<Rightarrow> u64"

text \<open>Writes through a pointer.\<close>

definition upd_se :: "se_id \<Rightarrow> (sched_entity \<Rightarrow> sched_entity) \<Rightarrow> kstate \<Rightarrow> kstate" where
  "upd_se i f s = s\<lparr>se_at := (se_at s)(i := f (se_at s i))\<rparr>"

definition upd_cfs :: "cfs_id \<Rightarrow> (cfs_rq \<Rightarrow> cfs_rq) \<Rightarrow> kstate \<Rightarrow> kstate" where
  "upd_cfs i f s = s\<lparr>cfs_at := (cfs_at s)(i := f (cfs_at s i))\<rparr>"

definition upd_tg :: "tg_id \<Rightarrow> (task_group \<Rightarrow> task_group) \<Rightarrow> kstate \<Rightarrow> kstate" where
  "upd_tg i f s = s\<lparr>tg_at := (tg_at s)(i := f (tg_at s i))\<rparr>"

definition upd_rq :: "cpu \<Rightarrow> (rq \<Rightarrow> rq) \<Rightarrow> kstate \<Rightarrow> kstate" where
  "upd_rq i f s = s\<lparr>rq_at := (rq_at s)(i := f (rq_at s i))\<rparr>"

definition root_domain_of :: "cpu \<Rightarrow> kstate \<Rightarrow> root_domain" where
  "root_domain_of u s = rd_at s (rq_rd (rq_at s u))"

definition upd_rd :: "cpu \<Rightarrow> (root_domain \<Rightarrow> root_domain) \<Rightarrow> kstate \<Rightarrow> kstate" where
  "upd_rd u f s = s\<lparr>rd_at := (rd_at s)(rq_rd (rq_at s u) := f (root_domain_of u s))\<rparr>"

lemmas upd_defs = upd_se_def upd_cfs_def upd_tg_def upd_rq_def

text \<open>\<open>entity_is_task(se)\<close>: an entity is a task if it does not own a runqueue.\<close>

definition entity_is_task :: "sched_entity \<Rightarrow> bool" where
  "entity_is_task se \<longleftrightarrow> my_q se = None"

abbreviation (input) SCHED_CAPACITY_SCALE :: "'a::numeral" where "SCHED_CAPACITY_SCALE \<equiv> 1024"

definition scale_load_down :: "ulong \<Rightarrow> ulong" where
  "scale_load_down w = drop_bit 10 w"

definition scale_load :: "ulong \<Rightarrow> ulong" where
  "scale_load w = push_bit 10 w"

definition NICE_0_LOAD :: ulong where
  "NICE_0_LOAD = push_bit 20 1"

section \<open>A blank kernel state\<close>

text \<open>
  Zeroed objects (as after \<open>kzalloc\<close> or in static storage), and an interface with full frequency and
  capacity: the starting points of concrete runs.
\<close>

definition zero_load :: load_weight where
  "zero_load = \<lparr>weight = 0, inv_weight = 0\<rparr>"

definition zero_avg :: sched_avg where
  "zero_avg = \<lparr>last_update_time = 0, load_sum = 0, util_sum = 0, util_fast_sum = 0, period_contrib = 0,
     load_avg = 0, util_avg = 0, util_fast_avg = 0, memory_cycle_ratio = 0, core_util_sum = 0,
     memory_util_sum = 0, core_util_fast_sum = 0, memory_util_fast_sum = 0, core_util_avg = 0,
     memory_util_avg = 0, core_util_fast_avg = 0, memory_util_fast_avg = 0, scaling_sum = 0,
     scaling_fast_sum = 0, scaling_avg = 0, scaling_fast_avg = 0, sa_weight = 0\<rparr>"

definition zero_se :: sched_entity where
  "zero_se = \<lparr>se_load = zero_load, on_rq = 0, exec_start = 0, sum_exec_runtime = 0, vruntime = 0,
     prev_sum_exec_runtime = 0, depth = 0, parent = None, se_cfs_rq = 0, my_q = None, se_avg = zero_avg\<rparr>"

definition zero_cfs :: cfs_rq where
  "zero_cfs = \<lparr>cfs_load = zero_load, nr_running = 0, h_nr_running = 0, exec_clock = 0, min_vruntime = 0,
     tasks_timeline = Leaf, rb_leftmost = None, curr = None, next_buddy = None, last_buddy = None,
     skip_buddy = None, cfs_avg = zero_avg, runnable_load_sum = 0, runnable_load_avg = 0,
     tg_load_avg_contrib = 0, propagate_avg = 0, removed_load_avg = 0, removed_util_avg = 0,
     removed_util_fast_avg = 0, removed_core_util_avg = 0, removed_memory_util_avg = 0,
     removed_core_util_fast_avg = 0, removed_memory_util_fast_avg = 0, removed_scaling_avg = 0,
     removed_scaling_fast_avg = 0, rq_cpu = 0, on_list = False, cfs_tg = 0, runtime_enabled = False,
     cfs_runtime_expires = 0, runtime_remaining = 0, throttled_clock = 0, throttled_clock_task = 0,
     throttled_clock_task_time = 0, throttled = False, throttle_count = 0, h_load = 0,
     last_h_load_update = 0, h_load_next = None\<rparr>"

definition zero_bandwidth :: cfs_bandwidth where
  "zero_bandwidth = \<lparr>period = 0, quota = 0, runtime = 0, runtime_expires = 0, idle = False,
     period_active = False, throttled_cfs_rq = [], nr_periods = 0, nr_throttled = 0, throttled_time = 0,
     period_timer = False, slack_timer = False\<rparr>"

definition zero_tg :: task_group where
  "zero_tg = \<lparr>tg_se = (\<lambda>_. None), tg_cfs_rq = (\<lambda>_. 0), shares = 0, tg_load_avg = 0, tg_parent = None,
     tg_bandwidth = zero_bandwidth\<rparr>"

definition zero_rq :: rq where
  "zero_rq = \<lparr>rq_load = zero_load, rq_cfs = 0, clock = 0, clock_task = 0, cfs_tasks = [], rt_avg = 0, age_stamp = 0,
     rq_nr_running = 0, rq_curr = 0, rq_idle = 0, leaf_cfs_rq_list = [], tmp_alone_branch = None, cpu_load = replicate 5 0,
     misfit_task = False, last_load_update_tick = 0, nr_load_updates = 0, rq_rd = 0, cpu_capacity = 1024, cpu_capacity_orig = 1024\<rparr>"

definition zero_rd :: root_domain where
  "zero_rd = \<lparr>overload = False, overutilized = False, max_cpu_capacity_val = 0, max_cpu_capacity_cpu = - 1,
     max_cap_orig_cpu = - 1, min_cap_orig_cpu = - 1\<rparr>"

definition zero_sgc :: sched_group_capacity where
  "zero_sgc = \<lparr>capacity = 1024, max_capacity = 1024, min_capacity = 1024, next_update = 0, imbalance = False, balance_mask = UNIV\<rparr>"

definition zero_task :: task_struct where
  "zero_task = \<lparr>task_policy = SCHED_NORMAL, fair_class = True, task_on_rq = 0, waking = False, in_iowait = False, prio = 120,
     task_cpu = 0, sched_task_group = 0, on_cpu = False, cpus_allowed = (\<lambda>_. True), wakee_flips = 0, wakee_flip_decay_ts = 0,
     last_wakee = None\<rparr>"

definition zero_prev :: pmu_prev where
  "zero_prev = \<lparr>prevcc = 0, prevfs = 0, prevbs = 0, previn = 0, prevmb = 0\<rparr>"

text \<open>The tunables have the values of their initialisers.\<close>

definition initial_sysctls :: sched_sysctl where
  "initial_sysctls = \<lparr>sysctl_sched_latency = 6000000, normalized_sysctl_sched_latency = 6000000,
     sysctl_sched_min_granularity = 750000, normalized_sysctl_sched_min_granularity = 750000,
     sysctl_sched_wakeup_granularity = 1000000, normalized_sysctl_sched_wakeup_granularity = 1000000,
     sysctl_sched_tunable_scaling = SCHED_TUNABLESCALING_LOG, sched_nr_latency = 8,
     sysctl_sched_cfs_bandwidth_slice = 5000, sysctl_sched_initial_task_util = 0, sysctl_sched_child_runs_first = 0,
     sysctl_sched_migration_cost = 500000, fair_time_avg = 1000, fair_capacity_margin = 1280,
     capacity_down_margin = 1706, sysctl_sched_sync_hint_enable = 0, sysctl_sched_cstate_aware = 1\<rparr>"

definition zero_state :: kstate where
  "zero_state = \<lparr>se_at = (\<lambda>_. zero_se), cfs_at = (\<lambda>_. zero_cfs), tg_at = (\<lambda>_. zero_tg), rq_at = (\<lambda>_. zero_rq), task_at = (\<lambda>_. zero_task),
     pkshin_pemt_enabled = False, pkshin_cycle_enabled = False, exec_time = replicate 8 0,
     exec_clear_time = replicate 8 0, pmu_prev_of = (\<lambda>_. zero_prev), asm_trace = (\<lambda>_. []), util_updates = [],
     sysctls = initial_sysctls, cfs_bandwidth_key = 0, resched_requests = [],
     jiffies = 0, rd_at = (\<lambda>_. zero_rd), sg_capacity_at = (\<lambda>_. zero_sgc)\<rparr>"

text \<open>The tree library in its simplest form, on the entities in order.\<close>

fun list_tree :: "'a list \<Rightarrow> 'a tree" where
  "list_tree [] = Leaf"
| "list_tree (x # xs) = Node Leaf x (list_tree xs)"

fun next_in :: "'a \<Rightarrow> 'a list \<Rightarrow> 'a option" where
  "next_in i [] = None"
| "next_in i (x # xs) = (if x = i then (case xs of [] \<Rightarrow> None | y # _ \<Rightarrow> Some y) else next_in i xs)"

definition last_in :: "'a list \<Rightarrow> 'a option" where
  "last_in xs = (if xs = [] then None else Some (last xs))"

definition plain_api :: kapi where
  "plain_api = \<lparr>mul_u64_u32_shr = mul_shr_ref, arch_scale_freq_capacity = (\<lambda>_. 1024),
     arch_scale_cpu_capacity = (\<lambda>_. 1024), pmu_read = (\<lambda>_ _. 0), this_cpu = 0,
     rb_insert_color = (\<lambda>t. t), rb_erase = (\<lambda>i t. list_tree (remove1 i (inorder t))),
     rb_next = (\<lambda>i t. next_in i (inorder t)), rb_last = (\<lambda>t. last_in (inorder t)),
     sched_feat = (\<lambda>_. True), sched_freq = False, tick_nsecs = 4000000, sched_clock_cpu = (\<lambda>_. 0),
     update_rq_clock = (\<lambda>q. q), possible_cpus = [0, 1], tg_preorder = (\<lambda>t. [t]), tg_postorder = (\<lambda>t. [t]),
     hrtimer_callback_running = (\<lambda>_. False), hrtimer_expires_remaining = (\<lambda>_. 0)\<rparr>"

lemmas zero_defs = zero_load_def zero_avg_def zero_se_def zero_cfs_def zero_bandwidth_def zero_tg_def
  zero_rq_def zero_rd_def zero_sgc_def zero_task_def zero_prev_def initial_sysctls_def zero_state_def plain_api_def

end
