(* ===== verification/Pmu.thy ===== *)
theory Pmu
  imports Sched_Types
begin

text \<open>
  The performance monitoring unit: the readers \<open>pkshin_pmu_update\<close> and \<open>pkshin_pmu_get\<close> of
  \<open>kernel/sched/fair.c\<close>, and the module \<open>pemt_module.c\<close> that programs the counters on every cpu.
\<close>

section \<open>Register accesses\<close>

definition asm_do :: "cpu \<Rightarrow> asm_event \<Rightarrow> kstate \<Rightarrow> kstate" where
  "asm_do c e s = s\<lparr>asm_trace := (asm_trace s)(c := asm_trace s c @ [e])\<rparr>"

definition asm_mrs :: "kapi \<Rightarrow> cpu \<Rightarrow> sysreg \<Rightarrow> kstate \<Rightarrow> u64 \<times> kstate" where
  "asm_mrs K c r s = (let s = asm_do c (Mrs r) s in (pmu_read K c (asm_trace s c), s))"

definition read_counter :: "kapi \<Rightarrow> cpu \<Rightarrow> u64 \<Rightarrow> kstate \<Rightarrow> u32 \<times> kstate" where
  "read_counter K c n s =
     (let s = asm_do c (Msr PMSELR_EL0 n) s;
          (v, s) = asm_mrs K c PMXEVCNTR_EL0 s
      in (ucast v, s))"

definition set_prev :: "cpu \<Rightarrow> pmu_prev \<Rightarrow> kstate \<Rightarrow> kstate" where
  "set_prev c p s = s\<lparr>pmu_prev_of := (pmu_prev_of s)(c := p)\<rparr>"

section \<open>Reading the counters (fair.c)\<close>

definition read_all_counters :: "kapi \<Rightarrow> cpu \<Rightarrow> kstate \<Rightarrow> pmu_prev \<times> kstate" where
  "read_all_counters K c s =
     (let (r_cc, s) = read_counter K c 1 s;
          (r_fs, s) = read_counter K c 2 s;
          (r_bs, s) = read_counter K c 3 s;
          (r_in, s) = read_counter K c 4 s;
          (r_mb, s) = read_counter K c 5 s
      in (\<lparr>prevcc = r_cc, prevfs = r_fs, prevbs = r_bs, previn = r_in, prevmb = r_mb\<rparr>, s))"

definition pkshin_pmu_update :: "kapi \<Rightarrow> kstate \<Rightarrow> kstate" where
  "pkshin_pmu_update K s =
     (let c = this_cpu K; (r, s) = read_all_counters K c s in set_prev c r s)"

text \<open>The increase of one 32-bit counter since its last reading; a zero reading counts as none.\<close>

definition counter_delta :: "u32 \<Rightarrow> u32 \<Rightarrow> u64" where
  "counter_delta now prev = (if prev \<noteq> 0 then ucast (now - prev) else 0)"

text \<open>Lines 161--176: the regression over stalls and mispredictions; dividing by zero is undefined.\<close>

definition memory_ratio :: "u64 \<Rightarrow> u64 \<Rightarrow> u64 \<Rightarrow> u64 \<Rightarrow> u64 \<Rightarrow> u32 option" where
  "memory_ratio cycles fstall bstall inst mispred =
     (if cycles = 0 \<or> inst = 0 then None
      else let temp1 = 1426 * bstall div cycles + 415 * fstall div cycles + 2395 * mispred div inst;
               temp2 = 213
           in Some (if temp1 > temp2
                    then let memory_cycle_ratio = (ucast (temp1 - temp2) :: u32)
                         in if memory_cycle_ratio > 1024 then 1024 else memory_cycle_ratio
                    else 0))"

definition pkshin_pmu_get :: "kapi \<Rightarrow> kstate \<Rightarrow> (u32 \<times> kstate) option" where
  "pkshin_pmu_get K s =
     (let c = this_cpu K;
          (r, s) = read_all_counters K c s;
          p = pmu_prev_of s c;
          cycles = counter_delta (prevcc r) (prevcc p);
          fstall = counter_delta (prevfs r) (prevfs p);
          bstall = counter_delta (prevbs r) (prevbs p);
          inst = counter_delta (previn r) (previn p);
          mispred = counter_delta (prevmb r) (prevmb p);
          s = set_prev c r s
      in do {
        ratio \<leftarrow> memory_ratio cycles fstall bstall inst mispred;
        Some (ratio, s)
      })"

section \<open>Programming the counters (pemt\_module.c)\<close>

definition disable_all_pmu :: "cpu \<Rightarrow> kstate \<Rightarrow> kstate" where
  "disable_all_pmu c s = set_prev c zero_prev s"

text \<open>\<open>(u64)(1 << 31)\<close> sign-extends the \<open>int\<close> constant, so the upper half of the written value is set.\<close>

definition init_pmu :: "kapi \<Rightarrow> cpu \<Rightarrow> kstate \<Rightarrow> kstate" where
  "init_pmu K c s =
     (let s = asm_do c (Msr PMUSERENR_EL0 (1 OR 8 OR 4)) s;
          s = asm_do c (Msr PMCNTENSET_EL0 (scast (push_bit 31 1 :: u32))) s;
          (v, s) = asm_mrs K c PMCR_EL0 s;
          val = (ucast v :: u32)
      in asm_do c (Msr PMCR_EL0 (ucast (val OR 1 OR 2))) s)"

definition enable_pmu :: "kapi \<Rightarrow> cpu \<Rightarrow> u32 \<Rightarrow> u32 \<Rightarrow> kstate \<Rightarrow> kstate" where
  "enable_pmu K c evtCount counterId s =
     (let evtCount = evtCount AND 0x3ff;
          s = asm_do c Isb s;
          s = asm_do c (Msr PMSELR_EL0 (ucast counterId)) s;
          s = asm_do c (Msr PMXEVTYPER_EL0 (ucast evtCount)) s;
          (v, s) = asm_mrs K c PMCNTENSET_EL0 s;
          r = (ucast v :: u32)
      in asm_do c (Msr PMCNTENSET_EL0 (ucast (r OR push_bit (unat counterId) 1))) s)"

definition enable_pmu_want :: "kapi \<Rightarrow> cpu \<Rightarrow> kstate \<Rightarrow> kstate" where
  "enable_pmu_want K c s =
     (let s = init_pmu K c s;
          s = enable_pmu K c 0x11 1 s;
          s = enable_pmu K c 0x23 2 s;
          s = enable_pmu K c 0x24 3 s;
          s = enable_pmu K c 0x08 4 s;
          s = enable_pmu K c 0x10 5 s
      in set_prev c zero_prev s)"

text \<open>\<open>on_each_cpu(f, NULL, 1)\<close> runs \<open>f\<close> once on every online cpu and waits; \<open>cpus\<close> is their order.\<close>

definition pemt_init :: "kapi \<Rightarrow> cpu list \<Rightarrow> kstate \<Rightarrow> int \<times> kstate" where
  "pemt_init K cpus s = (0, (fold (enable_pmu_want K) cpus s)\<lparr>pkshin_pemt_enabled := True\<rparr>)"

definition pemt_exit :: "cpu list \<Rightarrow> kstate \<Rightarrow> kstate" where
  "pemt_exit cpus s = fold disable_all_pmu cpus (s\<lparr>pkshin_pemt_enabled := False\<rparr>)"

section \<open>Properties\<close>

lemma unat_counter_delta:
  assumes "prev \<noteq> 0" "d < 4294967296" "now = prev + word_of_nat d"
  shows "unat (counter_delta now prev) = d"
  using assms by (simp add: counter_delta_def of_nat_eq_unat)

lemma counter_delta_lt: "unat (counter_delta now prev) < 4294967296"
  by (simp add: counter_delta_def)

lemma memory_ratio_le: "memory_ratio c f b i m = Some r \<Longrightarrow> unat r \<le> 1024"
  by (auto simp: memory_ratio_def Let_def word_less_nat_alt split: if_splits)

lemma memory_ratio_None: "memory_ratio c f b i m = None \<longleftrightarrow> c = 0 \<or> i = 0"
  by (simp add: memory_ratio_def Let_def)

lemma unat_scaled_quotient:
  assumes "unat (a :: u64) < 4294967296"
  shows "unat (1426 * a div b) = 1426 * unat a div unat b"
    and "unat (415 * a div b) = 415 * unat a div unat b"
    and "unat (2395 * a div b) = 2395 * unat a div unat b"
  using assms by (simp_all add: unat_div unat_times_u64)

lemma ratio_of_part: "a \<le> (b::nat) \<Longrightarrow> k * a div b \<le> k"
  by (cases "b = 0") (use div_le_mono [of "k * a" "k * b" b] in simp_all)

text \<open>With counters that count parts of the cycles and instructions, the ratio is the clamped regression.\<close>

definition ratio_spec :: "nat \<Rightarrow> nat \<Rightarrow> nat \<Rightarrow> nat \<Rightarrow> nat \<Rightarrow> nat" where
  "ratio_spec c f b i m = min 1024 (1426 * b div c + 415 * f div c + 2395 * m div i - 213)"

lemma memory_ratio_exact:
  assumes pos: "c \<noteq> 0" "i \<noteq> 0"
    and lt: "unat c < 4294967296" "unat i < 4294967296"
    and part: "f \<le> c" "b \<le> c" "m \<le> i"
  shows "memory_ratio c f b i m = Some (word_of_nat (ratio_spec (unat c) (unat f) (unat b) (unat i) (unat m)))"
proof -
  let ?x = "1426 * unat b div unat c" and ?y = "415 * unat f div unat c" and ?z = "2395 * unat m div unat i"
  have bounds: "?x \<le> 1426" "?y \<le> 415" "?z \<le> 2395"
    using part by (auto intro!: ratio_of_part simp: word_le_nat_alt)
  have small: "unat f < 4294967296" "unat b < 4294967296" "unat m < 4294967296"
    using lt part by (auto simp: word_le_nat_alt)
  have t: "unat (1426 * b div c + 415 * f div c + 2395 * m div i) = ?x + ?y + ?z" (is "unat ?t = _")
    using bounds small by (simp add: unat_plus_u64 unat_scaled_quotient)
  show ?thesis
  proof (cases "213 < ?x + ?y + ?z")
    case True
    then have gt: "213 < ?t" by (simp add: word_less_nat_alt t)
    have d: "unat (?t - 213) = ?x + ?y + ?z - 213"
      using gt by (simp add: unat_minus_le less_imp_le t)
    have u: "unat (ucast (?t - 213) :: u32) = ?x + ?y + ?z - 213"
      using bounds by (simp add: unat_ucast_down_small d)
    have r: "(if (1024 :: u32) < ucast (?t - 213) then 1024 else ucast (?t - 213) :: u32)
               = word_of_nat (ratio_spec (unat c) (unat f) (unat b) (unat i) (unat m))"
    proof -
      have "?x + ?y + ?z - 213 < 2 ^ LENGTH(32)" using bounds by simp
      then have "unat (word_of_nat (?x + ?y + ?z - 213) :: u32) = ?x + ?y + ?z - 213"
        by (rule of_nat_eq_unat)
      with u show ?thesis
        by (auto simp: word_unat_eq_iff word_less_nat_alt ratio_spec_def min_def)
    qed
    show ?thesis using pos gt r by (simp add: memory_ratio_def Let_def)
  next
    case False
    then have "\<not> 213 < ?t" by (simp add: word_less_nat_alt t)
    moreover have "ratio_spec (unat c) (unat f) (unat b) (unat i) (unat m) = 0"
      using False by (simp add: ratio_spec_def)
    ultimately show ?thesis using pos by (simp add: memory_ratio_def Let_def)
  qed
qed

text \<open>The hardware contract: a read of the event counter returns the counter selected just before it.\<close>

definition counters_read :: "kapi \<Rightarrow> cpu \<Rightarrow> (u64 \<Rightarrow> u32) \<Rightarrow> bool" where
  "counters_read K c cnt \<longleftrightarrow>
     (\<forall>tr n. ucast (pmu_read K c (tr @ [Msr PMSELR_EL0 n, Mrs PMXEVCNTR_EL0])) = cnt n)"

definition counter_values :: "(u64 \<Rightarrow> u32) \<Rightarrow> pmu_prev" where
  "counter_values cnt = \<lparr>prevcc = cnt 1, prevfs = cnt 2, prevbs = cnt 3, previn = cnt 4, prevmb = cnt 5\<rparr>"

definition read_trace :: "asm_event list" where
  "read_trace = concat (map (\<lambda>n. [Msr PMSELR_EL0 n, Mrs PMXEVCNTR_EL0]) [1, 2, 3, 4, 5])"

lemma read_counter_value:
  assumes "counters_read K c cnt"
  shows "read_counter K c n s =
           (cnt n, s\<lparr>asm_trace := (asm_trace s)(c := asm_trace s c @ [Msr PMSELR_EL0 n, Mrs PMXEVCNTR_EL0])\<rparr>)"
  using assms by (simp add: counters_read_def read_counter_def asm_mrs_def asm_do_def Let_def)

lemma read_all_counters_value:
  assumes "counters_read K c cnt"
  shows "read_all_counters K c s =
           (counter_values cnt, s\<lparr>asm_trace := (asm_trace s)(c := asm_trace s c @ read_trace)\<rparr>)"
  by (simp add: read_all_counters_def read_counter_value [OF assms] counter_values_def read_trace_def)

lemma pmu_get_values:
  assumes "counters_read K (this_cpu K) cnt"
  shows "pkshin_pmu_get K s =
     (let c = this_cpu K; p = pmu_prev_of s c; r = counter_values cnt in
      map_option (\<lambda>ratio. (ratio, set_prev c r (s\<lparr>asm_trace := (asm_trace s)(c := asm_trace s c @ read_trace)\<rparr>)))
        (memory_ratio (counter_delta (prevcc r) (prevcc p)) (counter_delta (prevfs r) (prevfs p))
           (counter_delta (prevbs r) (prevbs p)) (counter_delta (previn r) (previn p))
           (counter_delta (prevmb r) (prevmb p))))"
  by (simp add: pkshin_pmu_get_def read_all_counters_value [OF assms] Let_def map_conv_bind_option comp_def)

text \<open>A whole reading: the counters advanced by known amounts since the previous reading.\<close>

definition advanced :: "pmu_prev \<Rightarrow> (u64 \<Rightarrow> u32) \<Rightarrow> nat list \<Rightarrow> bool" where
  "advanced p cnt ds \<longleftrightarrow>
     length ds = 5 \<and> list_all (\<lambda>d. d < 4294967296) ds \<and>
     prevcc p \<noteq> 0 \<and> prevfs p \<noteq> 0 \<and> prevbs p \<noteq> 0 \<and> previn p \<noteq> 0 \<and> prevmb p \<noteq> 0 \<and>
     cnt 1 = prevcc p + word_of_nat (ds ! 0) \<and> cnt 2 = prevfs p + word_of_nat (ds ! 1) \<and>
     cnt 3 = prevbs p + word_of_nat (ds ! 2) \<and> cnt 4 = previn p + word_of_nat (ds ! 3) \<and>
     cnt 5 = prevmb p + word_of_nat (ds ! 4)"

lemma pmu_get_advanced:
  assumes hw: "counters_read K (this_cpu K) cnt"
    and adv: "advanced (pmu_prev_of s (this_cpu K)) cnt [cy, fs, bs, ins, mb]"
    and pos: "0 < cy" "0 < ins" and part: "fs \<le> cy" "bs \<le> cy" "mb \<le> ins"
  shows "\<exists>s'. pkshin_pmu_get K s = Some (word_of_nat (ratio_spec cy fs bs ins mb), s')
             \<and> pmu_prev_of s' (this_cpu K) = counter_values cnt"
proof -
  let ?p = "pmu_prev_of s (this_cpu K)" and ?r = "counter_values cnt"
  have d: "unat (counter_delta (prevcc ?r) (prevcc ?p)) = cy" "unat (counter_delta (prevfs ?r) (prevfs ?p)) = fs"
    "unat (counter_delta (prevbs ?r) (prevbs ?p)) = bs" "unat (counter_delta (previn ?r) (previn ?p)) = ins"
    "unat (counter_delta (prevmb ?r) (prevmb ?p)) = mb"
    using adv by (auto simp: advanced_def counter_values_def unat_counter_delta)
  have "memory_ratio (counter_delta (prevcc ?r) (prevcc ?p)) (counter_delta (prevfs ?r) (prevfs ?p))
          (counter_delta (prevbs ?r) (prevbs ?p)) (counter_delta (previn ?r) (previn ?p))
          (counter_delta (prevmb ?r) (prevmb ?p)) = Some (word_of_nat (ratio_spec cy fs bs ins mb))"
    using d pos part by (subst memory_ratio_exact) (auto simp: word_le_nat_alt counter_delta_lt dest: arg_cong [where f = unat])
  then show ?thesis
    by (simp add: pmu_get_values [OF hw] Let_def set_prev_def)
qed

lemma ucast_ucast_u32 [simp]: "ucast (ucast (w :: u32) :: u64) = w"
  by (simp add: word_unat_eq_iff unat_ucast_down)

lemma counter_delta_0: "counter_delta now prev = 0 \<longleftrightarrow> prev = 0 \<or> now = prev"
proof -
  have "ucast (now - prev) = (0 :: u64) \<longleftrightarrow> now - prev = 0"
    by (metis ucast_ucast_u32 unsigned_0)
  then show ?thesis by (simp add: counter_delta_def)
qed

lemma pmu_get_None:
  assumes "counters_read K (this_cpu K) cnt"
  shows "pkshin_pmu_get K s = None \<longleftrightarrow>
     (let p = pmu_prev_of s (this_cpu K) in
        prevcc p = 0 \<or> cnt 1 = prevcc p \<or> previn p = 0 \<or> cnt 4 = previn p)"
  by (auto simp: pmu_get_values [OF assms] Let_def memory_ratio_None counter_delta_0 counter_values_def)

text \<open>What the module leaves behind on a cpu: the event type written to each selected counter.\<close>

fun programmed :: "u64 \<Rightarrow> asm_event list \<Rightarrow> (u64 \<times> u64) list" where
  "programmed sel [] = []"
| "programmed sel (Msr PMSELR_EL0 n # es) = programmed n es"
| "programmed sel (Msr PMXEVTYPER_EL0 v # es) = (sel, v) # programmed sel es"
| "programmed sel (e # es) = programmed sel es"

definition new_events :: "cpu \<Rightarrow> kstate \<Rightarrow> kstate \<Rightarrow> asm_event list" where
  "new_events c s s' = drop (length (asm_trace s c)) (asm_trace s' c)"

lemma asm_do_simps [simp]:
  "asm_trace (asm_do c e s) d = (if d = c then asm_trace s c @ [e] else asm_trace s d)"
  "pmu_prev_of (asm_do c e s) = pmu_prev_of s"
  "pkshin_pemt_enabled (asm_do c e s) = pkshin_pemt_enabled s"
  by (simp_all add: asm_do_def)

lemma set_prev_simps [simp]:
  "asm_trace (set_prev c p s) = asm_trace s"
  "pmu_prev_of (set_prev c p s) d = (if d = c then p else pmu_prev_of s d)"
  by (simp_all add: set_prev_def)

lemmas pmu_program_defs = enable_pmu_want_def init_pmu_def enable_pmu_def asm_mrs_def Let_def

lemma enable_pmu_want_other:
  "d \<noteq> c \<Longrightarrow> asm_trace (enable_pmu_want K c s) d = asm_trace s d \<and> pmu_prev_of (enable_pmu_want K c s) d = pmu_prev_of s d"
  by (simp add: pmu_program_defs)

lemma enable_pmu_want_self:
  "\<exists>es. asm_trace (enable_pmu_want K c s) c = asm_trace s c @ es
      \<and> programmed 0 es = [(1, 0x11), (2, 0x23), (3, 0x24), (4, 0x08), (5, 0x10)]"
  "pmu_prev_of (enable_pmu_want K c s) c = zero_prev"
  by (simp_all add: pmu_program_defs)

lemma fold_enable_other:
  "c \<notin> set cpus \<Longrightarrow> asm_trace (fold (enable_pmu_want K) cpus s) c = asm_trace s c
      \<and> pmu_prev_of (fold (enable_pmu_want K) cpus s) c = pmu_prev_of s c"
  by (induction cpus arbitrary: s) (auto simp: enable_pmu_want_other)

lemma fold_enable_member:
  assumes "distinct cpus" "c \<in> set cpus"
  shows "\<exists>es. asm_trace (fold (enable_pmu_want K) cpus s) c = asm_trace s c @ es
      \<and> programmed 0 es = [(1, 0x11), (2, 0x23), (3, 0x24), (4, 0x08), (5, 0x10)]"
    and "pmu_prev_of (fold (enable_pmu_want K) cpus s) c = zero_prev"
proof -
  obtain xs ys where cpus: "cpus = xs @ c # ys" and c: "c \<notin> set xs" "c \<notin> set ys"
    using assms by (metis in_set_conv_decomp distinct.simps(2) distinct_append disjoint_insert(1) list.simps(15))
  show "\<exists>es. asm_trace (fold (enable_pmu_want K) cpus s) c = asm_trace s c @ es
      \<and> programmed 0 es = [(1, 0x11), (2, 0x23), (3, 0x24), (4, 0x08), (5, 0x10)]"
    using enable_pmu_want_self(1) [of K c "fold (enable_pmu_want K) xs s"] c
    by (simp add: cpus fold_enable_other)
  show "pmu_prev_of (fold (enable_pmu_want K) cpus s) c = zero_prev"
    using c by (simp add: cpus fold_enable_other enable_pmu_want_self(2))
qed

lemma fold_enable_new:
  assumes "distinct cpus" "c \<in> set cpus"
  shows "programmed 0 (drop (length (asm_trace s c)) (asm_trace (fold (enable_pmu_want K) cpus s) c))
           = [(1, 0x11), (2, 0x23), (3, 0x24), (4, 0x08), (5, 0x10)]"
proof -
  obtain es where "asm_trace (fold (enable_pmu_want K) cpus s) c = asm_trace s c @ es"
    and "programmed 0 es = [(1, 0x11), (2, 0x23), (3, 0x24), (4, 0x08), (5, 0x10)]"
    using fold_enable_member(1) [OF assms, of K s] by blast
  then show ?thesis by simp
qed

section \<open>Claims\<close>

text \<open>C26: One reading of the counters. If every counter advanced by less than \<open>2 ^ 32\<close> since the previous
  reading (the 32-bit registers may have wrapped), the stalls and mispredictions are parts of the
  cycles and instructions, and both of these advanced, then \<open>pkshin_pmu_get\<close> returns the regression over
  the true increases, clamped to \<open>0..1024\<close>, and remembers the new counter values.\<close>

theorem pmu_get_exact:
  assumes "counters_read K (this_cpu K) cnt"
    and "advanced (pmu_prev_of s (this_cpu K)) cnt [cy, fs, bs, ins, mb]"
    and "0 < cy" "0 < ins" "fs \<le> cy" "bs \<le> cy" "mb \<le> ins"
  shows "\<exists>s'. pkshin_pmu_get K s = Some (word_of_nat (ratio_spec cy fs bs ins mb), s')
             \<and> pmu_prev_of s' (this_cpu K) = counter_values cnt"
  using assms by (rule pmu_get_advanced)

definition wrapped_counters :: "u64 \<Rightarrow> u32" where
  "wrapped_counters n = (if n = 1 then 500 else if n = 2 then 201 else if n = 3 then 501 else if n = 4 then 401 else 2)"

definition wrapped_api :: kapi where
  "wrapped_api = plain_api\<lparr>pmu_read := (\<lambda>c tr. case rev tr of (Mrs PMXEVCNTR_EL0 # Msr PMSELR_EL0 n # es) \<Rightarrow> ucast (wrapped_counters n) | _ \<Rightarrow> 0)\<rparr>"

theorem pmu_get_exact_witness:
  "\<exists>s'. pkshin_pmu_get wrapped_api (zero_state\<lparr>pmu_prev_of := (\<lambda>_. \<lparr>prevcc = - 500, prevfs = 1, prevbs = 1, previn = 1, prevmb = 1\<rparr>)\<rparr>)
          = Some (588, s') \<and> pmu_prev_of s' (this_cpu wrapped_api) = counter_values wrapped_counters"
proof -
  have "counters_read wrapped_api (this_cpu wrapped_api) wrapped_counters"
    by (simp add: counters_read_def wrapped_api_def)
  from pmu_get_exact [OF this, of "zero_state\<lparr>pmu_prev_of := (\<lambda>_. \<lparr>prevcc = - 500, prevfs = 1, prevbs = 1, previn = 1, prevmb = 1\<rparr>)\<rparr>" 1000 200 500 400 1]
  show ?thesis by (simp add: advanced_def wrapped_counters_def ratio_spec_def)
qed

text \<open>C32: The reading is undefined (a division by zero) exactly when the cycle or the instruction counter
  has no previous reading or has not moved since.\<close>

theorem pmu_get_undefined_iff:
  assumes "counters_read K (this_cpu K) cnt"
  shows "pkshin_pmu_get K s = None \<longleftrightarrow>
     (let p = pmu_prev_of s (this_cpu K) in
        prevcc p = 0 \<or> cnt 1 = prevcc p \<or> previn p = 0 \<or> cnt 4 = previn p)"
  using assms by (rule pmu_get_None)

theorem pmu_get_undefined_iff_witness:
  "pkshin_pmu_get wrapped_api zero_state = None"
proof -
  have "counters_read wrapped_api (this_cpu wrapped_api) wrapped_counters"
    by (simp add: counters_read_def wrapped_api_def)
  from pmu_get_undefined_iff [OF this, of zero_state]
  show ?thesis by (simp add: zero_state_def zero_prev_def)
qed

text \<open>Loading the tracking module programs counters 1 to 5 of every online cpu with the events for
  cycles, frontend stalls, backend stalls, retired instructions and mispredictions, touches no other
  cpu, switches tracking on, and leaves the first reading on each of these cpus undefined.\<close>

theorem pemt_init_programs:
  assumes "distinct cpus"
  shows "pemt_init K cpus s = (0, s') \<Longrightarrow>
     pkshin_pemt_enabled s'
     \<and> (\<forall>c. c \<notin> set cpus \<longrightarrow> new_events c s s' = [] \<and> pmu_prev_of s' c = pmu_prev_of s c)
     \<and> (\<forall>c \<in> set cpus. programmed 0 (new_events c s s') = [(1, 0x11), (2, 0x23), (3, 0x24), (4, 0x08), (5, 0x10)])
     \<and> (\<forall>cnt. this_cpu K \<in> set cpus \<and> counters_read K (this_cpu K) cnt \<longrightarrow> pkshin_pmu_get K s' = None)"
  using fold_enable_new [OF assms, of _ s K] fold_enable_member(2) [OF assms, of _ K s] fold_enable_other [of _ cpus K s]
  by (auto simp: pemt_init_def new_events_def pmu_get_None Let_def zero_prev_def)

theorem pemt_init_programs_witness:
  "distinct [0, 1::nat] \<and> programmed 0 (new_events 1 zero_state (snd (pemt_init plain_api [0, 1] zero_state)))
     = [(1, 0x11), (2, 0x23), (3, 0x24), (4, 0x08), (5, 0x10)]"
  using pemt_init_programs [of "[0, 1]" plain_api zero_state "snd (pemt_init plain_api [0, 1] zero_state)"]
  by (simp add: pemt_init_def)

end
