(* ===== verification/Pelt_Series.thy ===== *)
theory Pelt_Series
  imports Prelude
begin

text \<open>
  The geometric series of per-entity load tracking (\<open>kernel/sched/fair.c\<close>): the precomputed
  tables, \<open>decay_load\<close> and \<open>__compute_runnable_contrib\<close> with half-life 32 periods, and the
  \<open>fast\<close> copies of both with half-life 3 periods.
\<close>

section \<open>Constants and tables\<close>

abbreviation (input) LOAD_AVG_PERIOD :: "'a::numeral" where "LOAD_AVG_PERIOD \<equiv> 32"
abbreviation (input) LOAD_AVG_MAX :: "'a::numeral" where "LOAD_AVG_MAX \<equiv> 47742"
abbreviation (input) LOAD_AVG_MAX_N :: "'a::numeral" where "LOAD_AVG_MAX_N \<equiv> 345"
abbreviation (input) LOAD_AVG_FAST_PERIOD :: "'a::numeral" where "LOAD_AVG_FAST_PERIOD \<equiv> 3"
abbreviation (input) LOAD_AVG_FAST_MAX :: "'a::numeral" where "LOAD_AVG_FAST_MAX \<equiv> 4959"
abbreviation (input) LOAD_AVG_FAST_MAX_N :: "'a::numeral" where "LOAD_AVG_FAST_MAX_N \<equiv> 31"

definition runnable_avg_yN_inv :: "u32 list" where
  "runnable_avg_yN_inv = [
    0xffffffff, 0xfa83b2da, 0xf5257d14, 0xefe4b99a, 0xeac0c6e6, 0xe5b906e6,
    0xe0ccdeeb, 0xdbfbb796, 0xd744fcc9, 0xd2a81d91, 0xce248c14, 0xc9b9bd85,
    0xc5672a10, 0xc12c4cc9, 0xbd08a39e, 0xb8fbaf46, 0xb504f333, 0xb123f581,
    0xad583ee9, 0xa9a15ab4, 0xa5fed6a9, 0xa2704302, 0x9ef5325f, 0x9b8d39b9,
    0x9837f050, 0x94f4efa8, 0x91c3d373, 0x8ea4398a, 0x8b95c1e3, 0x88980e80,
    0x85aac367, 0x82cd8698]"

definition runnable_avg_yN_sum :: "u32 list" where
  "runnable_avg_yN_sum = [
        0, 1002, 1982, 2941, 3880, 4798, 5697, 6576, 7437, 8279, 9103,
     9909,10698,11470,12226,12966,13690,14398,15091,15769,16433,17082,
    17718,18340,18949,19545,20128,20698,21256,21802,22336,22859,23371]"

definition runnable_avg_fast_yN_inv :: "u32 list" where
  "runnable_avg_fast_yN_inv = [0xffffffff, 0xcb2ff529, 0xa14517cb, 0x7fffffff]"

definition runnable_avg_fast_yN_sum :: "u32 list" where
  "runnable_avg_fast_yN_sum = [0, 812, 1457, 1969]"

definition accumulated_sum_N32 :: "u32 list" where
  "accumulated_sum_N32 = [
        0, 23371, 35056, 40899, 43820, 45281,
    46011, 46376, 46559, 46650, 46696, 46719]"

section \<open>The code\<close>

definition decay_load :: "mulfn \<Rightarrow> u64 \<Rightarrow> u64 \<Rightarrow> u64" where
  "decay_load m val n =
     (if n = 0 then val
      else if n > LOAD_AVG_PERIOD * 63 then 0
      else let local_n = (ucast n :: u32);
               (val, local_n) =
                 (if local_n \<ge> LOAD_AVG_PERIOD
                  then (drop_bit (unat (local_n div LOAD_AVG_PERIOD)) val, local_n mod LOAD_AVG_PERIOD)
                  else (val, local_n))
           in m val (runnable_avg_yN_inv ! unat local_n) 32)"

definition decay_fast_load :: "mulfn \<Rightarrow> u64 \<Rightarrow> u64 \<Rightarrow> u64" where
  "decay_fast_load m val n =
     (if n = 0 then val
      else if n > LOAD_AVG_FAST_PERIOD * 63 then 0
      else let local_n = (ucast n :: u32);
               (val, local_n) =
                 (if local_n \<ge> LOAD_AVG_FAST_PERIOD
                  then (drop_bit (unat (local_n div LOAD_AVG_FAST_PERIOD)) val, local_n mod LOAD_AVG_FAST_PERIOD)
                  else (val, local_n))
           in m val (runnable_avg_fast_yN_inv ! unat local_n) 32)"

definition compute_runnable_contrib :: "mulfn \<Rightarrow> u64 \<Rightarrow> u32" where
  "compute_runnable_contrib m n =
     (if n \<le> LOAD_AVG_PERIOD then runnable_avg_yN_sum ! unat n
      else if n \<ge> LOAD_AVG_MAX_N then LOAD_AVG_MAX
      else let contrib = accumulated_sum_N32 ! unat (n div LOAD_AVG_PERIOD);
               n = n mod LOAD_AVG_PERIOD;
               contrib = (ucast (decay_load m (ucast contrib) n) :: u32)
           in contrib + runnable_avg_yN_sum ! unat n)"

text \<open>The \<open>do ... while (n > LOAD_AVG_FAST_PERIOD)\<close> loop: its body, and the repetition after it.\<close>

definition contrib_fast_body :: "u32 \<Rightarrow> u64 \<Rightarrow> u32 \<times> u64" where
  "contrib_fast_body contrib n =
     (contrib div 2 + runnable_avg_fast_yN_sum ! LOAD_AVG_FAST_PERIOD, n - LOAD_AVG_FAST_PERIOD)"

function contrib_fast_loop :: "u32 \<times> u64 \<Rightarrow> u32 \<times> u64" where
  "contrib_fast_loop (contrib, n) =
     (if n > LOAD_AVG_FAST_PERIOD then contrib_fast_loop (contrib_fast_body contrib n)
      else (contrib, n))"
  by pat_completeness auto
termination
proof (relation "measure (\<lambda>(_, n). unat n)")
  fix contrib :: u32 and n :: u64
  assume "n > LOAD_AVG_FAST_PERIOD"
  then have "unat (n - 3) < unat n"
    by unat_arith
  then show "(contrib_fast_body contrib n, contrib, n) \<in> measure (\<lambda>(_, n). unat n)"
    by (simp add: contrib_fast_body_def)
qed simp

declare contrib_fast_loop.simps [simp del]

definition compute_runnable_contrib_fast :: "mulfn \<Rightarrow> u64 \<Rightarrow> u32" where
  "compute_runnable_contrib_fast m n =
     (if n \<le> LOAD_AVG_FAST_PERIOD then runnable_avg_fast_yN_sum ! unat n
      else if n \<ge> LOAD_AVG_FAST_MAX_N then LOAD_AVG_FAST_MAX
      else let (contrib, n) = contrib_fast_loop (contrib_fast_body 0 n);
               contrib = (ucast (decay_fast_load m (ucast contrib) n) :: u32)
           in contrib + runnable_avg_fast_yN_sum ! unat n)"

section \<open>The tables are what they claim\<close>

lemma yN_inv_length [simp]: "length runnable_avg_yN_inv = 32"
  by (simp add: runnable_avg_yN_inv_def)

lemma fast_yN_inv_length [simp]: "length runnable_avg_fast_yN_inv = 4"
  by (simp add: runnable_avg_fast_yN_inv_def)

section \<open>Decay on natural numbers\<close>

text \<open>The two decay functions compute the same formula over their own table and half-life.\<close>

definition decay_nat :: "u32 list \<Rightarrow> nat \<Rightarrow> nat \<Rightarrow> nat \<Rightarrow> nat" where
  "decay_nat tab p v n =
     (if n = 0 then v else if p * 63 < n then 0
      else (v div 2 ^ (n div p)) * unat (tab ! (n mod p)) div 4294967296)"

lemma decay_load_nat:
  assumes "mul_shr_ok m"
  shows "unat (decay_load m val n) = decay_nat runnable_avg_yN_inv 32 (unat val) (unat n)"
proof -
  have n0: "n = 0 \<longleftrightarrow> unat n = 0" by (simp add: unat_eq_0)
  have big: "n > 32 * 63 \<longleftrightarrow> 32 * 63 < unat n" by (simp add: word_less_nat_alt)
  have "unat n \<le> 2016 \<Longrightarrow> unat (ucast n :: u32) = unat n" by (simp add: unat_ucast_down)
  moreover have "unat n \<le> 2016 \<Longrightarrow> (32 \<le> (ucast n :: u32)) = (32 \<le> unat n)"
    by (simp add: word_le_nat_alt unat_ucast_down)
  ultimately show ?thesis
    using assms n0 big
    by (auto simp: decay_load_def decay_nat_def Let_def mul_shr_32 unat_drop_bit_div unat_div unat_mod)
qed

lemma decay_fast_load_nat:
  assumes "mul_shr_ok m"
  shows "unat (decay_fast_load m val n) = decay_nat runnable_avg_fast_yN_inv 3 (unat val) (unat n)"
proof -
  have n0: "n = 0 \<longleftrightarrow> unat n = 0" by (simp add: unat_eq_0)
  have big: "n > 3 * 63 \<longleftrightarrow> 3 * 63 < unat n" by (simp add: word_less_nat_alt)
  have "unat n \<le> 189 \<Longrightarrow> unat (ucast n :: u32) = unat n" by (simp add: unat_ucast_down)
  moreover have "unat n \<le> 189 \<Longrightarrow> (3 \<le> (ucast n :: u32)) = (3 \<le> unat n)"
    by (simp add: word_le_nat_alt unat_ucast_down)
  ultimately show ?thesis
    using assms n0 big
    by (auto simp: decay_fast_load_def decay_nat_def Let_def mul_shr_32 unat_drop_bit_div unat_div unat_mod)
qed

lemma decay_nat_mono: "v \<le> w \<Longrightarrow> decay_nat tab p v n \<le> decay_nat tab p w n"
  by (auto simp: decay_nat_def intro!: div_le_mono mult_le_mono)

lemma decay_nat_le: "decay_nat tab p v n \<le> v"
proof -
  have "(v div 2 ^ (n div p)) * unat (tab ! (n mod p)) div 4294967296 \<le> v div 2 ^ (n div p) * 4294967296 div 4294967296"
    using less_imp_le [OF unat_lt_u32] by (intro div_le_mono mult_le_mono) auto
  also have "\<dots> \<le> v" by simp
  finally show ?thesis by (simp add: decay_nat_def)
qed

definition contrib_nat :: "nat \<Rightarrow> nat" where
  "contrib_nat n =
     (if n \<le> 32 then unat (runnable_avg_yN_sum ! n)
      else if 345 \<le> n then 47742
      else decay_nat runnable_avg_yN_inv 32 (unat (accumulated_sum_N32 ! (n div 32))) (n mod 32)
           + unat (runnable_avg_yN_sum ! (n mod 32)))"

lemma yN_sum_le: "n \<le> 32 \<Longrightarrow> unat (runnable_avg_yN_sum ! n) \<le> 23371"
proof -
  have "list_all (\<lambda>w. unat w \<le> 23371) runnable_avg_yN_sum"
    by (simp add: runnable_avg_yN_sum_def)
  moreover assume "n \<le> 32"
  then have "n < length runnable_avg_yN_sum" by (simp add: runnable_avg_yN_sum_def)
  ultimately show ?thesis by (simp only: list_all_length)
qed

lemma accumulated_le: "n < 12 \<Longrightarrow> unat (accumulated_sum_N32 ! n) \<le> 46719"
proof -
  have "list_all (\<lambda>w. unat w \<le> 46719) accumulated_sum_N32"
    by (simp add: accumulated_sum_N32_def)
  moreover assume "n < 12"
  then have "n < length accumulated_sum_N32" by (simp add: accumulated_sum_N32_def)
  ultimately show ?thesis by (simp only: list_all_length)
qed

lemma compute_runnable_contrib_nat:
  assumes "mul_shr_ok m"
  shows "unat (compute_runnable_contrib m n) = contrib_nat (unat n)"
proof -
  consider "unat n \<le> 32" | "345 \<le> unat n" | "32 < unat n" "unat n < 345" by linarith
  then show ?thesis
  proof cases
    case 3
    let ?c = "accumulated_sum_N32 ! (unat n div 32)"
    have nlt: "unat n div 32 < 12" using 3 by simp
    have d: "decay_nat runnable_avg_yN_inv 32 (unat ?c) (unat n mod 32) \<le> 46719"
      using accumulated_le [OF nlt] decay_nat_le by (rule le_trans [rotated])
    have s: "unat (runnable_avg_yN_sum ! (unat n mod 32)) \<le> 23371"
      by (rule yN_sum_le) simp
    have "unat (ucast (decay_load m (ucast ?c) (n mod 32)) :: u32) = decay_nat runnable_avg_yN_inv 32 (unat ?c) (unat n mod 32)"
      using d by (subst unat_ucast_down_small) (simp_all add: decay_load_nat [OF assms] unat_mod)
    then show ?thesis
      using 3 d s
      by (simp add: compute_runnable_contrib_def contrib_nat_def Let_def word_le_nat_alt unat_div unat_mod unat_plus_u32)
  qed (auto simp: compute_runnable_contrib_def contrib_nat_def word_le_nat_alt)
qed

fun contrib_fast_nat_loop :: "nat \<Rightarrow> nat \<Rightarrow> nat \<times> nat" where
  "contrib_fast_nat_loop c n = (if 3 < n then contrib_fast_nat_loop (c div 2 + 1969) (n - 3) else (c, n))"

declare contrib_fast_nat_loop.simps [simp del]

definition contrib_fast_nat :: "nat \<Rightarrow> nat" where
  "contrib_fast_nat n =
     (if n \<le> 3 then unat (runnable_avg_fast_yN_sum ! n)
      else if 31 \<le> n then 4959
      else let (c, k) = contrib_fast_nat_loop 1969 (n - 3)
           in decay_nat runnable_avg_fast_yN_inv 3 c k + unat (runnable_avg_fast_yN_sum ! k))"

lemma contrib_fast_body_unat:
  assumes "unat c \<le> 3938" "3 < n"
  shows "unat (fst (contrib_fast_body c n)) = unat c div 2 + 1969"
    and "unat (snd (contrib_fast_body c n)) = unat n - 3"
proof -
  have "unat (c div 2 + 1969) = unat (c div 2) + unat (1969 :: u32)"
    by (rule unat_plus_u32) (use assms in \<open>simp add: unat_div\<close>)
  then show "unat (fst (contrib_fast_body c n)) = unat c div 2 + 1969"
    by (simp add: contrib_fast_body_def runnable_avg_fast_yN_sum_def unat_div)
  have "3 \<le> n" using assms(2) by (rule less_imp_le)
  then show "unat (snd (contrib_fast_body c n)) = unat n - 3"
    by (simp add: contrib_fast_body_def unat_minus_le)
qed

lemma contrib_fast_loop_nat:
  "unat c \<le> 3938 \<Longrightarrow> contrib_fast_loop (c, n) = (c', n') \<Longrightarrow>
     contrib_fast_nat_loop (unat c) (unat n) = (unat c', unat n') \<and> unat c' \<le> 3938 \<and> unat n' \<le> 3"
proof (induction "(c, n)" arbitrary: c n rule: contrib_fast_loop.induct)
  case (1 c n)
  show ?case
  proof (cases "3 < n")
    case True
    obtain c1 n1 where b: "contrib_fast_body c n = (c1, n1)" by fastforce
    have c1: "unat c1 = unat c div 2 + 1969" and n1: "unat n1 = unat n - 3"
      using contrib_fast_body_unat [OF "1.prems"(1) True] b by simp_all
    have "contrib_fast_loop (c1, n1) = (c', n')"
      using "1.prems"(2) True b by (simp add: contrib_fast_loop.simps [of c n])
    moreover have "unat c1 \<le> 3938" using c1 "1.prems"(1) by simp
    ultimately have "contrib_fast_nat_loop (unat c1) (unat n1) = (unat c', unat n') \<and> unat c' \<le> 3938 \<and> unat n' \<le> 3"
      using "1.hyps" [OF True, of c1 n1] b by simp
    then show ?thesis
      using True c1 n1 by (simp add: contrib_fast_nat_loop.simps [of "unat c" "unat n"] word_less_nat_alt)
  next
    case False
    then show ?thesis
      using "1.prems"
      by (auto simp: contrib_fast_loop.simps [of c n] word_less_nat_alt) (simp add: contrib_fast_nat_loop.simps)
  qed
qed

lemma fast_sum_le: "n \<le> 3 \<Longrightarrow> unat (runnable_avg_fast_yN_sum ! n) \<le> 1969"
proof -
  have "list_all (\<lambda>w. unat w \<le> 1969) runnable_avg_fast_yN_sum"
    by (simp add: runnable_avg_fast_yN_sum_def)
  moreover assume "n \<le> 3"
  then have "n < length runnable_avg_fast_yN_sum" by (simp add: runnable_avg_fast_yN_sum_def)
  ultimately show ?thesis by (simp only: list_all_length)
qed

lemma compute_runnable_contrib_fast_nat:
  assumes "mul_shr_ok m"
  shows "unat (compute_runnable_contrib_fast m n) = contrib_fast_nat (unat n)"
proof -
  consider "unat n \<le> 3" | "31 \<le> unat n" | "3 < unat n" "unat n < 31" by linarith
  then show ?thesis
  proof cases
    case 3
    then have n3: "3 < n" by (simp add: word_less_nat_alt)
    obtain c1 n1 where b: "contrib_fast_body 0 n = (c1, n1)" by fastforce
    have c1: "unat c1 = 1969" and n1: "unat n1 = unat n - 3"
      using contrib_fast_body_unat [of 0 n, OF _ n3] b by simp_all
    obtain c k where l: "contrib_fast_loop (c1, n1) = (c, k)" by fastforce
    have nl: "contrib_fast_nat_loop 1969 (unat n - 3) = (unat c, unat k)" and c: "unat c \<le> 3938" and k: "unat k \<le> 3"
      using contrib_fast_loop_nat [OF _ l] c1 n1 by auto
    have d: "decay_nat runnable_avg_fast_yN_inv 3 (unat c) (unat k) \<le> 3938"
      using c decay_nat_le by (rule le_trans [rotated])
    have s: "unat (runnable_avg_fast_yN_sum ! unat k) \<le> 1969"
      by (rule fast_sum_le [OF k])
    have "unat (ucast (decay_fast_load m (ucast c) k) :: u32) = decay_nat runnable_avg_fast_yN_inv 3 (unat c) (unat k)"
      using d by (subst unat_ucast_down_small) (simp_all add: decay_fast_load_nat [OF assms])
    then show ?thesis
      using 3 d s nl
      by (simp add: compute_runnable_contrib_fast_def contrib_fast_nat_def word_le_nat_alt b l unat_plus_u32)
  qed (auto simp: compute_runnable_contrib_fast_def contrib_fast_nat_def word_le_nat_alt)
qed

section \<open>The refill inequality, checked on every span of periods\<close>

definition refill_at :: "u32 list \<Rightarrow> nat \<Rightarrow> (nat \<Rightarrow> nat) \<Rightarrow> nat \<Rightarrow> nat \<Rightarrow> bool" where
  "refill_at tab h c A p \<longleftrightarrow> decay_nat tab h ((A + 1024) * 1024) (p + 1) + 1024 * c p \<le> A * 1024"

lemma refill_slow_345:
  assumes "p < 345"
  shows "refill_at runnable_avg_yN_inv 32 contrib_nat 46765 p"
proof -
  have "list_all (refill_at runnable_avg_yN_inv 32 contrib_nat 46765) [0..<345]"
    by (simp add: upt_rec [of 0] upt_rec [of "Suc 0"] numeral_2_eq_2 [symmetric] refill_at_def decay_nat_def contrib_nat_def runnable_avg_yN_inv_def runnable_avg_yN_sum_def accumulated_sum_N32_def)
  with assms show ?thesis by (simp add: list_all_iff del: upt_rec_numeral)
qed

lemma refill_fast_31:
  assumes "p < 31"
  shows "refill_at runnable_avg_fast_yN_inv 3 contrib_fast_nat 3940 p"
proof -
  have "list_all (refill_at runnable_avg_fast_yN_inv 3 contrib_fast_nat 3940) [0..<31]"
    by (simp add: upt_rec [of 0] upt_rec [of "Suc 0"] numeral_2_eq_2 [symmetric] refill_at_def decay_nat_def contrib_fast_nat_def contrib_fast_nat_loop.simps runnable_avg_fast_yN_inv_def runnable_avg_fast_yN_sum_def)
  with assms show ?thesis by (simp add: list_all_iff del: upt_rec_numeral)
qed

text \<open>Decay is subadditive up to its two roundings.\<close>

lemma div_add_le: "((a::nat) + b) div d \<le> a div d + b div d + 1"
proof (cases "d = 0")
  case False
  then have "a mod d < d" and "b mod d < d" by simp_all
  have "a + b < (a div d + b div d + 2) * d"
  proof -
    have "a + b = (a div d + b div d) * d + (a mod d + b mod d)"
      by (metis add.assoc add.left_commute add_mult_distrib div_mult_mod_eq)
    also have "\<dots> < (a div d + b div d) * d + 2 * d"
      using \<open>a mod d < d\<close> \<open>b mod d < d\<close> by linarith
    finally show ?thesis by (simp add: add_mult_distrib)
  qed
  then have "(a + b) div d < a div d + b div d + 2"
    by (rule less_mult_imp_div_less)
  then show ?thesis by simp
qed simp

lemma decay_nat_add:
  assumes "n \<noteq> 0"
  shows "decay_nat tab p (v + w) n
           \<le> decay_nat tab p v n + (w div 2 ^ (n div p) + 1) * unat (tab ! (n mod p)) div 4294967296 + 1"
proof -
  let ?d = "2 ^ (n div p)" and ?t = "unat (tab ! (n mod p))"
  have "(v + w) div ?d \<le> v div ?d + (w div ?d + 1)"
    using div_add_le [of v w ?d] by simp
  then have "(v + w) div ?d * ?t div 4294967296 \<le> (v div ?d + (w div ?d + 1)) * ?t div 4294967296"
    by (intro div_le_mono mult_le_mono) auto
  also have "\<dots> = (v div ?d * ?t + (w div ?d + 1) * ?t) div 4294967296"
    by (simp only: add_mult_distrib)
  also have "\<dots> \<le> v div ?d * ?t div 4294967296 + (w div ?d + 1) * ?t div 4294967296 + 1"
    by (rule div_add_le)
  finally show ?thesis using assms by (simp add: decay_nat_def)
qed

text \<open>The one-step factor of a table: an entry past the first, or a halving, loses enough.\<close>

lemma decay_nat_add_le:
  assumes n: "n \<noteq> 0" and p: "0 < p" "p \<le> length tab"
    and f: "\<And>k. 0 < k \<Longrightarrow> k < p \<Longrightarrow> unat (tab ! k) \<le> f"
    and w: "(w + 1) * f div 4294967296 + 1 \<le> w" "w div 2 + 2 \<le> w"
  shows "decay_nat tab p (v + w) n \<le> decay_nat tab p v n + w"
proof -
  have "(w div 2 ^ (n div p) + 1) * unat (tab ! (n mod p)) div 4294967296 + 1 \<le> w"
  proof (cases "n mod p = 0")
    case True
    with n have "p \<le> n" by (metis mod_less linorder_not_less)
    then have "0 < n div p" using p by (simp add: div_greater_zero_iff)
    then have "(2::nat) \<le> 2 ^ (n div p)" by (intro self_le_power) simp_all
    then have "w div 2 ^ (n div p) \<le> w div 2" by (rule div_le_mono2 [rotated]) simp
    then have "(w div 2 ^ (n div p) + 1) * unat (tab ! (n mod p)) \<le> (w div 2 + 1) * 4294967296"
      using less_imp_le [OF unat_lt_u32] by (intro mult_le_mono) auto
    then have "(w div 2 ^ (n div p) + 1) * unat (tab ! (n mod p)) div 4294967296 \<le> (w div 2 + 1) * 4294967296 div 4294967296"
      by (rule div_le_mono)
    then show ?thesis using w(2) by simp
  next
    case False
    then have "unat (tab ! (n mod p)) \<le> f" using p by (intro f) simp_all
    then have "(w div 2 ^ (n div p) + 1) * unat (tab ! (n mod p)) div 4294967296 \<le> (w + 1) * f div 4294967296"
      by (intro div_le_mono mult_le_mono add_le_mono div_le_dividend order_refl)
    then show ?thesis using w(1) by simp
  qed
  then show ?thesis using decay_nat_add [OF n, of tab p v w] by linarith
qed

lemma yN_inv_le: "0 < k \<Longrightarrow> k < 32 \<Longrightarrow> unat (runnable_avg_yN_inv ! k) \<le> 4202935002"
proof -
  have "list_all (\<lambda>w. unat w \<le> 4202935002) (tl runnable_avg_yN_inv)"
    by (simp add: runnable_avg_yN_inv_def)
  moreover assume "0 < k" "k < 32"
  then have "k - 1 < length (tl runnable_avg_yN_inv)" "runnable_avg_yN_inv ! k = tl runnable_avg_yN_inv ! (k - 1)"
    by (simp_all add: nth_tl)
  ultimately show ?thesis by (simp only: list_all_length)
qed

lemma fast_yN_inv_le: "0 < k \<Longrightarrow> k < 3 \<Longrightarrow> unat (runnable_avg_fast_yN_inv ! k) \<le> 3408917801"
  by (auto simp: runnable_avg_fast_yN_inv_def nth_Cons split: nat.splits)

lemma refill_slow_345_all:
  assumes "p < 345"
  shows "refill_at runnable_avg_yN_inv 32 contrib_nat 47770 p"
proof -
  have "decay_nat runnable_avg_yN_inv 32 (47789 * 1024 + 1005 * 1024) (p + 1)
          \<le> decay_nat runnable_avg_yN_inv 32 (47789 * 1024) (p + 1) + 1005 * 1024"
    by (rule decay_nat_add_le [where f = 4202935002]) (simp_all add: yN_inv_le)
  with refill_slow_345 [OF assms] show ?thesis by (simp add: refill_at_def)
qed

lemma decay_nat_deep:
  assumes "q \<le> n div p" "n \<noteq> 0"
  shows "decay_nat tab p v n \<le> v div 2 ^ q"
proof -
  have "v div 2 ^ (n div p) \<le> v div 2 ^ q"
    using assms(1) by (intro div_le_mono2) (simp_all add: power_increasing)
  then have "(v div 2 ^ (n div p)) * unat (tab ! (n mod p)) div 4294967296 \<le> v div 2 ^ q * 4294967296 div 4294967296"
    using less_imp_le [OF unat_lt_u32] by (intro div_le_mono mult_le_mono) auto
  then show ?thesis using assms(2) by (simp add: decay_nat_def)
qed

lemma refill_slow: "refill_at runnable_avg_yN_inv 32 contrib_nat 47770 p"
proof -
  consider "p < 345" | "p \<in> {345..350}" | "351 \<le> p" by fastforce
  then show ?thesis
  proof cases
    case 2
    then have "p = 345 \<or> p = 346 \<or> p = 347 \<or> p = 348 \<or> p = 349 \<or> p = 350" by auto
    then show ?thesis
      by (auto simp: refill_at_def decay_nat_def contrib_nat_def runnable_avg_yN_inv_def)
  next
    case 3
    then have "decay_nat runnable_avg_yN_inv 32 (48794 * 1024) (p + 1) \<le> (48794 * 1024) div 2 ^ 11"
      by (intro decay_nat_deep) auto
    with 3 show ?thesis by (simp add: refill_at_def contrib_nat_def)
  qed (rule refill_slow_345_all)
qed

lemma refill_fast: "refill_at runnable_avg_fast_yN_inv 3 contrib_fast_nat 4963 p"
proof -
  consider "p < 31" | "p = 31" | "32 \<le> p" by linarith
  then show ?thesis
  proof cases
    case 1
    have "decay_nat runnable_avg_fast_yN_inv 3 (4964 * 1024 + 1023 * 1024) (p + 1)
            \<le> decay_nat runnable_avg_fast_yN_inv 3 (4964 * 1024) (p + 1) + 1023 * 1024"
      by (rule decay_nat_add_le [where f = 3408917801]) (simp_all add: fast_yN_inv_le)
    with refill_fast_31 [OF 1] show ?thesis by (simp add: refill_at_def)
  next
    case 2
    then show ?thesis
      by (simp add: refill_at_def decay_nat_def contrib_fast_nat_def runnable_avg_fast_yN_inv_def)
  next
    case 3
    then have "decay_nat runnable_avg_fast_yN_inv 3 (5987 * 1024) (p + 1) \<le> (5987 * 1024) div 2 ^ 11"
      by (intro decay_nat_deep) auto
    with 3 show ?thesis by (simp add: refill_at_def contrib_fast_nat_def)
  qed
qed

end
