(* ===== verification/Pelt_Update.thy ===== *)
theory Pelt_Update
  imports Pelt_Series Pmu
begin

text \<open>
  \<open>__update_load_avg\<close> of \<open>kernel/sched/fair.c\<close>: the choice of the memory cycle ratio, the busy-time
  accounting, and the accrual of one update to the running sums, phase by phase as the function
  runs them. The \<open>cfs_rq\<close> argument is \<open>NULL\<close> for the signals of an entity and the runqueue itself for
  the signals of a runqueue, so the pair \<open>(sa, cfs_rq)\<close> is one reference \<open>avg_ref\<close>.
\<close>

section \<open>Arithmetic\<close>

definition cap_scale :: "u64 \<Rightarrow> u64 \<Rightarrow> u64" where
  "cap_scale v s = drop_bit 10 (v * s)"

text \<open>\<open>u32 += u64\<close>.\<close>

definition add32 :: "u32 \<Rightarrow> u64 \<Rightarrow> u32" where
  "add32 a x = ucast (ucast a + x)"

definition deboost_freq :: "u64 \<Rightarrow> u32 \<Rightarrow> u64" where
  "deboost_freq scale_freq w =
     (if w - 1 < 1023
      then let d = push_bit 10 scale_freq div ucast w in if d > SCHED_CAPACITY_SCALE then SCHED_CAPACITY_SCALE else d
      else scale_freq)"

text \<open>What stays fixed during one update.\<close>

record upd_ctx =
  scale_freq :: u64
  scale_cpu :: u64
  deboost :: u64
  load_weight_of :: ulong
  running :: bool
  pemt :: bool
  mem_ratio :: u32

text \<open>The signals an update writes: the averages, and for a runqueue its runnable load (sum, average).\<close>

type_synonym signals = "sched_avg \<times> (u64 \<times> ulong) option"

section \<open>The phases of an update\<close>

definition add_load :: "upd_ctx \<Rightarrow> u64 \<Rightarrow> signals \<Rightarrow> signals" where
  "add_load C scaled = (\<lambda>(sa, rl).
     if load_weight_of C \<noteq> 0
     then (sa\<lparr>load_sum := load_sum sa + load_weight_of C * scaled\<rparr>,
           map_option (\<lambda>(rs, ra). (rs + load_weight_of C * scaled, ra)) rl)
     else (sa, rl))"

definition acc_head :: "upd_ctx \<Rightarrow> u32 \<Rightarrow> signals \<Rightarrow> signals" where
  "acc_head C delta_w st =
     (let scaled_delta_w = (ucast (cap_scale (ucast delta_w) (scale_freq C)) :: u32);
          (sa, rl) = add_load C (ucast scaled_delta_w) st;
          util = ucast scaled_delta_w * scale_cpu C;
          scaling = drop_bit 10 (ucast (sa_weight sa) * cap_scale (ucast delta_w) (deboost C)) * scale_cpu C;
          core = drop_bit 10 (ucast scaled_delta_w * scale_cpu C * ucast (1024 - mem_ratio C));
          mem = drop_bit 10 (ucast delta_w * scale_cpu C * ucast (mem_ratio C));
          sa = (if running C
                then sa\<lparr>util_sum := add32 (util_sum sa) util, util_fast_sum := add32 (util_fast_sum sa) util,
                        scaling_sum := add32 (scaling_sum sa) scaling, scaling_fast_sum := add32 (scaling_fast_sum sa) scaling\<rparr>
                else sa);
          sa = (if running C \<and> pemt C
                then sa\<lparr>core_util_sum := add32 (core_util_sum sa) core, memory_util_sum := add32 (memory_util_sum sa) mem,
                        core_util_fast_sum := add32 (core_util_fast_sum sa) core, memory_util_fast_sum := add32 (memory_util_fast_sum sa) mem\<rparr>
                else sa)
      in (sa, rl))"

definition acc_decay :: "mulfn \<Rightarrow> upd_ctx \<Rightarrow> u64 \<Rightarrow> signals \<Rightarrow> signals" where
  "acc_decay m C periods = (\<lambda>(sa, rl).
     let slow = (\<lambda>v. ucast (decay_load m (ucast v) (periods + 1)) :: u32);
         fast = (\<lambda>v. ucast (decay_fast_load m (ucast v) (periods + 1)) :: u32);
         rl = map_option (\<lambda>(rs, ra). (decay_load m rs (periods + 1), ra)) rl;
         sa = sa\<lparr>load_sum := decay_load m (load_sum sa) (periods + 1),
                 util_sum := slow (util_sum sa), util_fast_sum := fast (util_fast_sum sa),
                 scaling_sum := slow (scaling_sum sa), scaling_fast_sum := fast (scaling_fast_sum sa)\<rparr>;
         sa = (if pemt C
               then sa\<lparr>core_util_sum := slow (core_util_sum sa), memory_util_sum := slow (memory_util_sum sa),
                       core_util_fast_sum := fast (core_util_fast_sum sa), memory_util_fast_sum := fast (memory_util_fast_sum sa)\<rparr>
               else sa)
     in (sa, rl))"

definition acc_contrib :: "mulfn \<Rightarrow> upd_ctx \<Rightarrow> u64 \<Rightarrow> signals \<Rightarrow> signals" where
  "acc_contrib m C periods st =
     (let contrib = compute_runnable_contrib m periods;
          scaled_contrib = (ucast (cap_scale (ucast contrib) (scale_freq C)) :: u32);
          (sa, rl) = add_load C (ucast scaled_contrib) st;
          contrib_fast = compute_runnable_contrib_fast m periods;
          scaled_contrib_fast = (ucast (cap_scale (ucast contrib_fast) (scale_freq C)) :: u32);
          scaling = drop_bit 10 (ucast (sa_weight sa) * cap_scale (ucast contrib) (deboost C)) * scale_cpu C;
          fast_sum = drop_bit 10 (ucast (sa_weight sa) * cap_scale (ucast contrib_fast) (deboost C)) * scale_cpu C;
          sa = (if running C
                then sa\<lparr>scaling_sum := add32 (scaling_sum sa) scaling, scaling_fast_sum := add32 (scaling_fast_sum sa) fast_sum,
                        util_sum := add32 (util_sum sa) (ucast scaled_contrib * scale_cpu C),
                        util_fast_sum := add32 (util_fast_sum sa) (ucast scaled_contrib_fast * scale_cpu C)\<rparr>
                else sa);
          sa = (if running C \<and> pemt C
                then sa\<lparr>core_util_sum := add32 (core_util_sum sa) (drop_bit 10 (ucast scaled_contrib * scale_cpu C * ucast (1024 - mem_ratio C))),
                        core_util_fast_sum := add32 (core_util_fast_sum sa) (drop_bit 10 (ucast scaled_contrib_fast * scale_cpu C * ucast (1024 - mem_ratio C))),
                        memory_util_sum := add32 (memory_util_sum sa) (drop_bit 10 (ucast contrib * scale_cpu C * ucast (mem_ratio C))),
                        memory_util_fast_sum := add32 (memory_util_fast_sum sa) (drop_bit 10 (ucast contrib_fast * scale_cpu C * ucast (mem_ratio C)))\<rparr>
                else sa)
      in (sa, rl))"

definition acc_tail :: "upd_ctx \<Rightarrow> u64 \<Rightarrow> signals \<Rightarrow> signals" where
  "acc_tail C delta st =
     (let scaled_delta = cap_scale delta (scale_freq C);
          (sa, rl) = add_load C scaled_delta st;
          scaled_contrib = scaled_delta * scale_cpu C;
          core = drop_bit 10 (scaled_contrib * ucast (1024 - mem_ratio C));
          mem = drop_bit 10 (delta * scale_cpu C * ucast (mem_ratio C));
          scaling = drop_bit 10 (ucast (sa_weight sa) * cap_scale delta (deboost C)) * scale_cpu C;
          sa = (if running C
                then sa\<lparr>util_sum := add32 (util_sum sa) scaled_contrib, util_fast_sum := add32 (util_fast_sum sa) scaled_contrib\<rparr>
                else sa);
          sa = (if running C \<and> pemt C
                then sa\<lparr>core_util_sum := add32 (core_util_sum sa) core, memory_util_sum := add32 (memory_util_sum sa) mem,
                        core_util_fast_sum := add32 (core_util_fast_sum sa) core, memory_util_fast_sum := add32 (memory_util_fast_sum sa) mem\<rparr>
                else sa);
          sa = (if running C
                then sa\<lparr>scaling_sum := add32 (scaling_sum sa) scaling, scaling_fast_sum := add32 (scaling_fast_sum sa) scaling\<rparr>
                else sa)
      in (sa\<lparr>period_contrib := add32 (period_contrib sa) delta\<rparr>, rl))"

definition acc_averages :: "upd_ctx \<Rightarrow> signals \<Rightarrow> signals" where
  "acc_averages C = (\<lambda>(sa, rl).
     let rl = map_option (\<lambda>(rs, ra). (rs, rs div LOAD_AVG_MAX)) rl;
         sa = sa\<lparr>load_avg := load_sum sa div LOAD_AVG_MAX,
                 util_avg := ucast (util_sum sa div LOAD_AVG_MAX),
                 util_fast_avg := ucast (util_fast_sum sa div LOAD_AVG_FAST_MAX)\<rparr>;
         sa = (if pemt C
               then sa\<lparr>core_util_avg := ucast (core_util_sum sa div LOAD_AVG_MAX),
                       memory_util_avg := ucast (memory_util_sum sa div LOAD_AVG_MAX),
                       core_util_fast_avg := ucast (core_util_fast_sum sa div LOAD_AVG_FAST_MAX),
                       memory_util_fast_avg := ucast (memory_util_fast_sum sa div LOAD_AVG_FAST_MAX)\<rparr>
               else sa);
         sa = (if ucast (scaling_sum sa) > scale_cpu C * LOAD_AVG_MAX
               then sa\<lparr>scaling_sum := ucast (scale_cpu C * LOAD_AVG_MAX)\<rparr> else sa);
         sa = (if ucast (scaling_fast_sum sa) > scale_cpu C * LOAD_AVG_FAST_MAX
               then sa\<lparr>scaling_fast_sum := ucast (scale_cpu C * LOAD_AVG_FAST_MAX)\<rparr> else sa);
         sa = sa\<lparr>scaling_avg := ucast (scaling_sum sa div LOAD_AVG_MAX),
                 scaling_fast_avg := ucast (scaling_fast_sum sa div LOAD_AVG_FAST_MAX)\<rparr>
     in (sa, rl))"

text \<open>The accrual of \<open>delta\<close> microseconds (lines 3271--3426); the flag says whether a period ended.\<close>

definition accumulate :: "mulfn \<Rightarrow> upd_ctx \<Rightarrow> u64 \<Rightarrow> signals \<Rightarrow> bool \<times> signals" where
  "accumulate m C delta = (\<lambda>(sa, rl).
     let delta_w = period_contrib sa in
     if delta + ucast delta_w \<ge> 1024
     then let sa = sa\<lparr>period_contrib := 0\<rparr>;
              delta_w = 1024 - delta_w;
              st = acc_head C delta_w (sa, rl);
              delta = delta - ucast delta_w;
              periods = delta div 1024;
              delta = delta mod 1024;
              st = acc_decay m C periods st;
              st = acc_contrib m C periods st;
              st = acc_tail C delta st
          in (True, acc_averages C st)
     else (False, acc_tail C delta (sa, rl)))"

section \<open>The whole update\<close>

datatype avg_ref = SeAvg se_id | CfsAvg cfs_id

fun get_avg :: "avg_ref \<Rightarrow> kstate \<Rightarrow> sched_avg" where
  "get_avg (SeAvg i) s = se_avg (se_at s i)"
| "get_avg (CfsAvg c) s = cfs_avg (cfs_at s c)"

fun upd_avg :: "avg_ref \<Rightarrow> (sched_avg \<Rightarrow> sched_avg) \<Rightarrow> kstate \<Rightarrow> kstate" where
  "upd_avg (SeAvg i) f s = upd_se i (\<lambda>se. se\<lparr>se_avg := f (se_avg se)\<rparr>) s"
| "upd_avg (CfsAvg c) f s = upd_cfs c (\<lambda>q. q\<lparr>cfs_avg := f (cfs_avg q)\<rparr>) s"

fun get_signals :: "avg_ref \<Rightarrow> kstate \<Rightarrow> signals" where
  "get_signals (SeAvg i) s = (se_avg (se_at s i), None)"
| "get_signals (CfsAvg c) s =
     (let q = cfs_at s c in (cfs_avg q, Some (runnable_load_sum q, runnable_load_avg q)))"

fun set_signals :: "avg_ref \<Rightarrow> signals \<Rightarrow> kstate \<Rightarrow> kstate" where
  "set_signals (SeAvg i) (sa, rl) s = upd_se i (\<lambda>se. se\<lparr>se_avg := sa\<rparr>) s"
| "set_signals (CfsAvg c) (sa, rl) s =
     upd_cfs c (\<lambda>q. case rl of None \<Rightarrow> q\<lparr>cfs_avg := sa\<rparr>
       | Some (rs, ra) \<Rightarrow> q\<lparr>cfs_avg := sa, runnable_load_sum := rs, runnable_load_avg := ra\<rparr>) s"

definition set_ratio :: "u32 \<Rightarrow> sched_avg \<Rightarrow> sched_avg" where
  "set_ratio r sa = sa\<lparr>memory_cycle_ratio := r\<rparr>"

text \<open>
  Lines 3193--3209: from a group entity, follow \<open>my_q->curr\<close> down to the running leaf. The \<open>while (1)\<close>
  loop returns only where the chain of current entities ends.
\<close>

partial_function (option) leaf_ratio :: "kstate \<Rightarrow> se_id \<Rightarrow> u32 option" where
  "leaf_ratio s i =
     (case my_q (se_at s i) of
        None \<Rightarrow> Some (memory_cycle_ratio (se_avg (se_at s i)))
      | Some g \<Rightarrow>
          (case curr (cfs_at s g) of
             None \<Rightarrow> Some (memory_cycle_ratio (cfs_avg (cfs_at s g)))
           | Some j \<Rightarrow> leaf_ratio s j))"

text \<open>Lines 3170--3232: which memory cycle ratio weighs this update, and where it is recorded.\<close>

definition choose_ratio :: "kapi \<Rightarrow> avg_ref \<Rightarrow> bool \<Rightarrow> kstate \<Rightarrow> (u32 \<times> kstate) option" where
  "choose_ratio K r act s =
     (if pkshin_pemt_enabled s \<and> act
      then (case r of
          SeAvg i \<Rightarrow>
            if entity_is_task (se_at s i)
            then do {
              (ratio, s) \<leftarrow> pkshin_pmu_get K s;
              let s = upd_avg (SeAvg i) (set_ratio ratio) s;
              Some (ratio, upd_avg (CfsAvg (se_cfs_rq (se_at s i))) (set_ratio ratio) s)
            }
            else do {
              ratio \<leftarrow> leaf_ratio s i;
              Some (ratio, upd_avg (SeAvg i) (set_ratio ratio) s)
            }
        | CfsAvg c \<Rightarrow>
            let ratio = (case curr (cfs_at s c) of
                  Some j \<Rightarrow> memory_cycle_ratio (se_avg (se_at s j))
                | None \<Rightarrow> memory_cycle_ratio (cfs_avg (cfs_at s c)))
            in Some (ratio, upd_avg (CfsAvg c) (set_ratio ratio) s))
      else Some (0, s))"

text \<open>Lines 3239--3256: busy time of the cpu, in arrays of 8 entries; a larger index is undefined.\<close>

definition account_busy :: "u64 \<Rightarrow> cpu \<Rightarrow> avg_ref \<Rightarrow> bool \<Rightarrow> u64 \<Rightarrow> kstate \<Rightarrow> kstate option" where
  "account_busy now cpu r act delta s =
     (case r of
        CfsAvg c \<Rightarrow> Some s
      | SeAvg i \<Rightarrow>
          if pkshin_cycle_enabled s \<and> entity_is_task (se_at s i) \<and> act
          then if cpu < length (exec_clear_time s) \<and> cpu < length (exec_time s)
               then let cleared = exec_clear_time s ! cpu;
                        d = (if last_update_time (get_avg r s) > cleared then delta
                             else drop_bit 10 (now - cleared))
                    in Some (s\<lparr>exec_time := (exec_time s)[cpu := exec_time s ! cpu + d]\<rparr>)
               else None
          else Some s)"

definition update_ctx :: "kapi \<Rightarrow> cpu \<Rightarrow> ulong \<Rightarrow> bool \<Rightarrow> bool \<Rightarrow> u32 \<Rightarrow> sched_avg \<Rightarrow> upd_ctx" where
  "update_ctx K cpu w act pe ratio sa =
     \<lparr>scale_freq = arch_scale_freq_capacity K cpu, scale_cpu = arch_scale_cpu_capacity K cpu,
      deboost = deboost_freq (arch_scale_freq_capacity K cpu) (sa_weight sa),
      load_weight_of = w, running = act, pemt = pe, mem_ratio = ratio\<rparr>"

definition raw_update_load_avg ::
    "kapi \<Rightarrow> u64 \<Rightarrow> cpu \<Rightarrow> avg_ref \<Rightarrow> ulong \<Rightarrow> bool \<Rightarrow> kstate \<Rightarrow> (bool \<times> kstate) option" where
  "raw_update_load_avg K now cpu r w act s =
     (let delta = now - last_update_time (get_avg r s) in
      if sint delta < 0 then Some (False, upd_avg r (\<lambda>sa. sa\<lparr>last_update_time := now\<rparr>) s)
      else let delta = drop_bit 10 delta in
      if delta = 0 then Some (False, s)
      else do {
        (ratio, s) \<leftarrow> choose_ratio K r act s;
        s \<leftarrow> account_busy now cpu r act delta s;
        let s = upd_avg r (\<lambda>sa. sa\<lparr>last_update_time := now\<rparr>) s;
        let C = update_ctx K cpu w act (pkshin_pemt_enabled s) ratio (get_avg r s);
        let (decayed, st) = accumulate (mul_u64_u32_shr K) C delta (get_signals r s);
        Some (decayed, set_signals r st s)
      })"

end
