(* ===== verification/Pelt_Bounds.thy ===== *)
theory Pelt_Bounds
  imports Pelt_Update
begin

text \<open>
  The bounds of the running sums. A geometric series is what the accrual needs to know of a decay
  function and its contribution table; the code has two of them (half-life 32 and 3 periods), and each
  serves twice: for updates of any length, and for updates that span fewer periods than the table's
  cut-off, where the bound is tighter.
\<close>

lemma add32_small: "unat v + unat x < 4294967296 \<Longrightarrow> unat (add32 v x) = unat v + unat x"
  by (simp add: add32_def unat_ucast_down unat_plus_u64)

lemma add32_bound:
  assumes "unat v \<le> a * 1024" "unat x \<le> b * 1024" "a + b \<le> 200000"
  shows "unat (add32 v x) = unat v + unat x" "unat (add32 v x) \<le> (a + b) * 1024"
proof -
  show e: "unat (add32 v x) = unat v + unat x"
    using assms by (intro add32_small) linarith
  show "unat (add32 v x) \<le> (a + b) * 1024"
    using assms by (simp add: e)
qed

text \<open>The bound of a sum \<open>x\<close> microseconds into the current period, over \<open>A\<close> for the past ones.\<close>

definition sum_cap :: "nat \<Rightarrow> nat \<Rightarrow> nat" where
  "sum_cap A x = (A + x) * 1024"

text \<open>The largest sum of a full period on top of \<open>A\<close> units of 1024.\<close>

definition top_sum :: "nat \<Rightarrow> u64" where
  "top_sum A = word_of_nat ((A + 1024) * 1024)"

lemma unat_top_sum: "A \<le> 100000 \<Longrightarrow> unat (top_sum A) = (A + 1024) * 1024"
  unfolding top_sum_def by (rule of_nat_eq_unat) simp

locale geometric_series =
  fixes decay :: "mulfn \<Rightarrow> u64 \<Rightarrow> u64 \<Rightarrow> u64"
    and contrib :: "mulfn \<Rightarrow> u64 \<Rightarrow> u32"
    and cap :: nat
    and span :: "nat \<Rightarrow> bool"
  assumes decay_mono: "mul_shr_ok m \<Longrightarrow> unat a \<le> unat b \<Longrightarrow> unat (decay m a n) \<le> unat (decay m b n)"
    and decay_le: "mul_shr_ok m \<Longrightarrow> unat (decay m a n) \<le> unat a"
    and refill: "mul_shr_ok m \<Longrightarrow> span (unat p) \<Longrightarrow> unat p < 9223372036854775808 \<Longrightarrow>
      unat (decay m (top_sum cap) (p + 1)) + 1024 * unat (contrib m p) \<le> cap * 1024"
    and cap_small: "cap \<le> 100000"
begin

lemma ucast_decay:
  assumes "mul_shr_ok m"
  shows "unat (ucast (decay m (ucast (v :: u32)) n) :: u32) = unat (decay m (ucast v) n)"
    and "unat (decay m (ucast (v :: u32)) n) \<le> unat v"
proof -
  show l: "unat (decay m (ucast v) n) \<le> unat v"
    using decay_le [OF assms, of "ucast v" n] by simp
  have "unat (decay m (ucast v) n) < 4294967296"
    by (rule le_less_trans [OF l]) (rule unat_lt_u32)
  then show "unat (ucast (decay m (ucast v) n) :: u32) = unat (decay m (ucast v) n)"
    by (rule unat_ucast_down_small)
qed

text \<open>One signal across a period boundary: head, decay, full periods, tail.\<close>

lemma signal_rollover:
  assumes m: "mul_shr_ok m" and pc: "pc \<le> 1024" and v: "unat v \<le> sum_cap cap pc"
    and h: "unat h \<le> (1024 - pc) * 1024" and c: "unat c \<le> 1024 * unat (contrib m p)"
    and t: "unat t \<le> d * 1024" and d: "d \<le> 1024"
    and p: "span (unat p)" "unat p < 9223372036854775808"
  shows "unat (add32 (add32 (ucast (decay m (ucast (add32 v h)) (p + 1))) c) t) \<le> sum_cap cap d"
proof -
  let ?v1 = "add32 v h" and ?top = "top_sum cap"
  have v1: "unat ?v1 \<le> (cap + 1024) * 1024"
  proof -
    have "unat ?v1 \<le> (cap + pc + (1024 - pc)) * 1024"
      by (rule add32_bound(2) [OF v [unfolded sum_cap_def] h]) (use cap_small pc in simp)
    then show ?thesis using pc by simp
  qed
  have top: "unat ?top = (cap + 1024) * 1024"
    by (rule unat_top_sum [OF cap_small])
  let ?v2 = "ucast (decay m (ucast ?v1) (p + 1)) :: u32"
  have "unat ?v2 \<le> unat (decay m ?top (p + 1))"
    unfolding ucast_decay(1) [OF m] by (rule decay_mono [OF m]) (use v1 in \<open>simp add: top\<close>)
  then have v2: "unat ?v2 + unat c \<le> cap * 1024"
    using refill [OF m p] c by linarith
  then have v3: "unat (add32 ?v2 c) \<le> cap * 1024"
    using cap_small by (subst add32_small) linarith+
  show ?thesis
    unfolding sum_cap_def by (rule add32_bound(2) [OF v3 t]) (use cap_small d in simp)
qed

lemma signal_within:
  assumes v: "unat v \<le> sum_cap cap pc" and t: "unat t \<le> d * 1024" and "pc + d \<le> 1024"
  shows "unat (add32 v t) \<le> sum_cap cap (pc + d)"
proof -
  have "unat (add32 v t) \<le> (cap + pc + d) * 1024"
    by (rule add32_bound(2) [OF v [unfolded sum_cap_def] t]) (use assms(3) cap_small in simp)
  then show ?thesis by (simp add: sum_cap_def add.assoc)
qed

text \<open>Two signals, one accruing at most what the other does, stay ordered.\<close>

lemma signal_rollover_mono:
  assumes m: "mul_shr_ok m" and pc: "pc \<le> 1024" and v: "unat v \<le> sum_cap cap pc"
    and h: "unat h \<le> (1024 - pc) * 1024" and c: "unat c \<le> 1024 * unat (contrib m p)"
    and t: "unat t \<le> d * 1024" and d: "d \<le> 1024"
    and p: "span (unat p)" "unat p < 9223372036854775808"
    and le: "unat w \<le> unat v" "unat h' \<le> unat h" "unat c' \<le> unat c" "unat t' \<le> unat t"
  shows "unat (add32 (add32 (ucast (decay m (ucast (add32 w h')) (p + 1))) c') t')
           \<le> unat (add32 (add32 (ucast (decay m (ucast (add32 v h)) (p + 1))) c) t)"
proof -
  let ?v1 = "add32 v h" and ?w1 = "add32 w h'"
  have sum1: "unat v + unat h \<le> (cap + 1024) * 1024"
  proof -
    have "unat v + unat h \<le> (cap + pc) * 1024 + (1024 - pc) * 1024" using v h unfolding sum_cap_def by linarith
    then show ?thesis using pc by (simp add: diff_mult_distrib)
  qed
  have v1: "unat ?v1 = unat v + unat h"
    by (rule add32_small, rule le_less_trans [OF sum1]) (use cap_small in simp)
  have w1: "unat ?w1 = unat w + unat h'"
    by (rule add32_small, rule le_less_trans [OF add_le_mono [OF le(1,2)]], rule le_less_trans [OF sum1]) (use cap_small in simp)
  let ?v2 = "ucast (decay m (ucast ?v1) (p + 1)) :: u32" and ?w2 = "ucast (decay m (ucast ?w1) (p + 1)) :: u32"
  have w2: "unat ?w2 \<le> unat ?v2"
    unfolding ucast_decay(1) [OF m] by (rule decay_mono [OF m]) (use v1 w1 le in simp)
  have top: "unat (top_sum cap) = (cap + 1024) * 1024"
    by (rule unat_top_sum [OF cap_small])
  have "unat ?v2 \<le> unat (decay m (top_sum cap) (p + 1))"
    unfolding ucast_decay(1) [OF m] by (rule decay_mono [OF m]) (use v1 sum1 top in simp)
  then have v2: "unat ?v2 + unat c \<le> cap * 1024"
    using refill [OF m p] c by linarith
  have v3: "unat (add32 ?v2 c) = unat ?v2 + unat c"
    by (rule add32_small) (use v2 cap_small in linarith)
  have w3: "unat (add32 ?w2 c') = unat ?w2 + unat c'"
    by (rule add32_small) (use v2 w2 le cap_small in linarith)
  have "unat (add32 (add32 ?v2 c) t) = unat (add32 ?v2 c) + unat t"
    by (rule add32_small) (use v2 v3 t d cap_small in linarith)
  moreover have "unat (add32 (add32 ?w2 c') t') = unat (add32 ?w2 c') + unat t'"
    by (rule add32_small) (use v2 w2 w3 le t d cap_small in linarith)
  ultimately show ?thesis using w2 le v3 w3 by linarith
qed

end

lemma unat_Suc_u64: "unat (p :: u64) < 9223372036854775808 \<Longrightarrow> unat (p + 1) = unat p + 1"
  by (simp add: unat_plus_u64)

lemma decay_load_mono: "mul_shr_ok m \<Longrightarrow> unat a \<le> unat b \<Longrightarrow> unat (decay_load m a n) \<le> unat (decay_load m b n)"
  for a b :: u64
  by (simp add: decay_load_nat decay_nat_mono)

lemma decay_load_le: "mul_shr_ok m \<Longrightarrow> unat (decay_load m a n) \<le> unat a"
  by (simp add: decay_load_nat decay_nat_le)

lemma decay_fast_load_mono: "mul_shr_ok m \<Longrightarrow> unat a \<le> unat b \<Longrightarrow> unat (decay_fast_load m a n) \<le> unat (decay_fast_load m b n)"
  for a b :: u64
  by (simp add: decay_fast_load_nat decay_nat_mono)

lemma decay_fast_load_le: "mul_shr_ok m \<Longrightarrow> unat (decay_fast_load m a n) \<le> unat a"
  by (simp add: decay_fast_load_nat decay_nat_le)

lemma refill_load:
  assumes "mul_shr_ok m" "unat p < 9223372036854775808" "A \<le> 100000" "refill_at runnable_avg_yN_inv 32 contrib_nat A (unat p)"
  shows "unat (decay_load m (top_sum A) (p + 1)) + 1024 * unat (compute_runnable_contrib m p) \<le> A * 1024"
  using assms by (simp add: refill_at_def decay_load_nat compute_runnable_contrib_nat unat_top_sum unat_Suc_u64)

lemma refill_fast_load:
  assumes "mul_shr_ok m" "unat p < 9223372036854775808" "A \<le> 100000" "refill_at runnable_avg_fast_yN_inv 3 contrib_fast_nat A (unat p)"
  shows "unat (decay_fast_load m (top_sum A) (p + 1)) + 1024 * unat (compute_runnable_contrib_fast m p) \<le> A * 1024"
  using assms by (simp add: refill_at_def decay_fast_load_nat compute_runnable_contrib_fast_nat unat_top_sum unat_Suc_u64)

interpretation slow: geometric_series decay_load compute_runnable_contrib 47770 "\<lambda>_. True"
  by unfold_locales (erule (1) decay_load_mono | erule decay_load_le | (rule refill_load, simp_all add: refill_slow) | simp)+

interpretation slow_tick: geometric_series decay_load compute_runnable_contrib 46765 "\<lambda>p. p < 345"
  by unfold_locales (erule (1) decay_load_mono | erule decay_load_le | (rule refill_load, simp_all add: refill_slow_345) | simp)+

interpretation fast: geometric_series decay_fast_load compute_runnable_contrib_fast 4963 "\<lambda>_. True"
  by unfold_locales (erule (1) decay_fast_load_mono | erule decay_fast_load_le | (rule refill_fast_load, simp_all add: refill_fast) | simp)+

interpretation fast_tick: geometric_series decay_fast_load compute_runnable_contrib_fast 3940 "\<lambda>p. p < 31"
  by unfold_locales (erule (1) decay_fast_load_mono | erule decay_fast_load_le | (rule refill_fast_load, simp_all add: refill_fast_31) | simp)+

section \<open>What one update adds to each signal\<close>

definition inc_util :: "upd_ctx \<Rightarrow> u64 \<Rightarrow> u64" where
  "inc_util C scaled = (if running C then scaled * scale_cpu C else 0)"

definition inc_core :: "upd_ctx \<Rightarrow> u64 \<Rightarrow> u64" where
  "inc_core C scaled = (if running C then drop_bit 10 (scaled * scale_cpu C * ucast (1024 - mem_ratio C)) else 0)"

definition inc_mem :: "upd_ctx \<Rightarrow> u64 \<Rightarrow> u64" where
  "inc_mem C d = (if running C then drop_bit 10 (d * scale_cpu C * ucast (mem_ratio C)) else 0)"

definition scaled32 :: "upd_ctx \<Rightarrow> u32 \<Rightarrow> u64" where
  "scaled32 C w = ucast (ucast (cap_scale (ucast w) (scale_freq C)) :: u32)"

lemma add32_0 [simp]: "add32 v 0 = v"
  by (simp add: add32_def)

lemma add_load_avg [simp]:
  "util_sum (fst (add_load C x st)) = util_sum (fst st)"
  "util_fast_sum (fst (add_load C x st)) = util_fast_sum (fst st)"
  "core_util_sum (fst (add_load C x st)) = core_util_sum (fst st)"
  "core_util_fast_sum (fst (add_load C x st)) = core_util_fast_sum (fst st)"
  "memory_util_sum (fst (add_load C x st)) = memory_util_sum (fst st)"
  "memory_util_fast_sum (fst (add_load C x st)) = memory_util_fast_sum (fst st)"
  "period_contrib (fst (add_load C x st)) = period_contrib (fst st)"
  by (cases st, simp add: add_load_def)+

lemmas inc_defs = inc_util_def inc_core_def inc_mem_def scaled32_def

lemma head_sums [simp]:
  "util_sum (fst (acc_head C w st)) = add32 (util_sum (fst st)) (inc_util C (scaled32 C w))"
  "util_fast_sum (fst (acc_head C w st)) = add32 (util_fast_sum (fst st)) (inc_util C (scaled32 C w))"
  "pemt C \<Longrightarrow> core_util_sum (fst (acc_head C w st)) = add32 (core_util_sum (fst st)) (inc_core C (scaled32 C w))"
  "pemt C \<Longrightarrow> core_util_fast_sum (fst (acc_head C w st)) = add32 (core_util_fast_sum (fst st)) (inc_core C (scaled32 C w))"
  "pemt C \<Longrightarrow> memory_util_sum (fst (acc_head C w st)) = add32 (memory_util_sum (fst st)) (inc_mem C (ucast w))"
  "pemt C \<Longrightarrow> memory_util_fast_sum (fst (acc_head C w st)) = add32 (memory_util_fast_sum (fst st)) (inc_mem C (ucast w))"
  "period_contrib (fst (acc_head C w st)) = period_contrib (fst st)"
  by (simp_all add: acc_head_def Let_def inc_defs case_prod_beta)

lemma decay_sums [simp]:
  "util_sum (fst (acc_decay m C p st)) = ucast (decay_load m (ucast (util_sum (fst st))) (p + 1))"
  "util_fast_sum (fst (acc_decay m C p st)) = ucast (decay_fast_load m (ucast (util_fast_sum (fst st))) (p + 1))"
  "pemt C \<Longrightarrow> core_util_sum (fst (acc_decay m C p st)) = ucast (decay_load m (ucast (core_util_sum (fst st))) (p + 1))"
  "pemt C \<Longrightarrow> core_util_fast_sum (fst (acc_decay m C p st)) = ucast (decay_fast_load m (ucast (core_util_fast_sum (fst st))) (p + 1))"
  "pemt C \<Longrightarrow> memory_util_sum (fst (acc_decay m C p st)) = ucast (decay_load m (ucast (memory_util_sum (fst st))) (p + 1))"
  "pemt C \<Longrightarrow> memory_util_fast_sum (fst (acc_decay m C p st)) = ucast (decay_fast_load m (ucast (memory_util_fast_sum (fst st))) (p + 1))"
  "period_contrib (fst (acc_decay m C p st)) = period_contrib (fst st)"
  by (cases st, simp add: acc_decay_def Let_def)+

lemma contrib_sums [simp]:
  "util_sum (fst (acc_contrib m C p st)) = add32 (util_sum (fst st)) (inc_util C (scaled32 C (compute_runnable_contrib m p)))"
  "util_fast_sum (fst (acc_contrib m C p st)) = add32 (util_fast_sum (fst st)) (inc_util C (scaled32 C (compute_runnable_contrib_fast m p)))"
  "pemt C \<Longrightarrow> core_util_sum (fst (acc_contrib m C p st)) = add32 (core_util_sum (fst st)) (inc_core C (scaled32 C (compute_runnable_contrib m p)))"
  "pemt C \<Longrightarrow> core_util_fast_sum (fst (acc_contrib m C p st)) = add32 (core_util_fast_sum (fst st)) (inc_core C (scaled32 C (compute_runnable_contrib_fast m p)))"
  "pemt C \<Longrightarrow> memory_util_sum (fst (acc_contrib m C p st)) = add32 (memory_util_sum (fst st)) (inc_mem C (ucast (compute_runnable_contrib m p)))"
  "pemt C \<Longrightarrow> memory_util_fast_sum (fst (acc_contrib m C p st)) = add32 (memory_util_fast_sum (fst st)) (inc_mem C (ucast (compute_runnable_contrib_fast m p)))"
  "period_contrib (fst (acc_contrib m C p st)) = period_contrib (fst st)"
  by (simp_all add: acc_contrib_def Let_def inc_defs case_prod_beta)

lemma tail_sums [simp]:
  "util_sum (fst (acc_tail C d st)) = add32 (util_sum (fst st)) (inc_util C (cap_scale d (scale_freq C)))"
  "util_fast_sum (fst (acc_tail C d st)) = add32 (util_fast_sum (fst st)) (inc_util C (cap_scale d (scale_freq C)))"
  "pemt C \<Longrightarrow> core_util_sum (fst (acc_tail C d st)) = add32 (core_util_sum (fst st)) (inc_core C (cap_scale d (scale_freq C)))"
  "pemt C \<Longrightarrow> core_util_fast_sum (fst (acc_tail C d st)) = add32 (core_util_fast_sum (fst st)) (inc_core C (cap_scale d (scale_freq C)))"
  "pemt C \<Longrightarrow> memory_util_sum (fst (acc_tail C d st)) = add32 (memory_util_sum (fst st)) (inc_mem C d)"
  "pemt C \<Longrightarrow> memory_util_fast_sum (fst (acc_tail C d st)) = add32 (memory_util_fast_sum (fst st)) (inc_mem C d)"
  "period_contrib (fst (acc_tail C d st)) = add32 (period_contrib (fst st)) d"
  by (simp_all add: acc_tail_def Let_def inc_defs case_prod_beta)

lemma averages_sums [simp]:
  "util_sum (fst (acc_averages C st)) = util_sum (fst st)"
  "util_fast_sum (fst (acc_averages C st)) = util_fast_sum (fst st)"
  "core_util_sum (fst (acc_averages C st)) = core_util_sum (fst st)"
  "core_util_fast_sum (fst (acc_averages C st)) = core_util_fast_sum (fst st)"
  "memory_util_sum (fst (acc_averages C st)) = memory_util_sum (fst st)"
  "memory_util_fast_sum (fst (acc_averages C st)) = memory_util_fast_sum (fst st)"
  "period_contrib (fst (acc_averages C st)) = period_contrib (fst st)"
  "util_avg (fst (acc_averages C st)) = ucast (util_sum (fst st) div LOAD_AVG_MAX)"
  "util_fast_avg (fst (acc_averages C st)) = ucast (util_fast_sum (fst st) div LOAD_AVG_FAST_MAX)"
  "pemt C \<Longrightarrow> core_util_avg (fst (acc_averages C st)) = ucast (core_util_sum (fst st) div LOAD_AVG_MAX)"
  "pemt C \<Longrightarrow> memory_util_avg (fst (acc_averages C st)) = ucast (memory_util_sum (fst st) div LOAD_AVG_MAX)"
  "pemt C \<Longrightarrow> core_util_fast_avg (fst (acc_averages C st)) = ucast (core_util_fast_sum (fst st) div LOAD_AVG_FAST_MAX)"
  "pemt C \<Longrightarrow> memory_util_fast_avg (fst (acc_averages C st)) = ucast (memory_util_fast_sum (fst st) div LOAD_AVG_FAST_MAX)"
  by (cases st, simp add: acc_averages_def Let_def)+

definition ctx_ok :: "upd_ctx \<Rightarrow> bool" where
  "ctx_ok C \<longleftrightarrow> unat (scale_freq C) \<le> 1024 \<and> unat (scale_cpu C) \<le> 1024 \<and> unat (mem_ratio C) \<le> 1024"

lemma scaled10_le:
  assumes "unat (y :: u64) \<le> 4503599627370496" "unat r \<le> 1024"
  shows "unat (drop_bit 10 (y * r)) \<le> unat y"
proof -
  have le: "unat y * unat r \<le> unat y * 1024"
    using assms(2) by (rule mult_le_mono2)
  then have "unat (y * r) = unat y * unat r"
    using assms(1) by (intro unat_times_u64) linarith
  then have "unat (drop_bit 10 (y * r)) \<le> unat y * 1024 div 1024"
    using div_le_mono [OF le, of 1024] by (simp add: unat_drop_bit_div)
  then show ?thesis by simp
qed

lemma cap_scale_le: "unat v \<le> 4503599627370496 \<Longrightarrow> unat s \<le> 1024 \<Longrightarrow> unat (cap_scale v s) \<le> unat v"
  unfolding cap_scale_def by (rule scaled10_le)

lemma scaled32_le:
  assumes "ctx_ok C"
  shows "unat (scaled32 C w) \<le> unat w"
proof -
  have "unat (cap_scale (ucast w) (scale_freq C)) \<le> unat w"
    using cap_scale_le [of "ucast w" "scale_freq C"] assms less_imp_le [OF unat_lt_u32 [of w]]
    by (simp add: ctx_ok_def)
  then show ?thesis
    unfolding scaled32_def unat_ucast_up by (rule le_trans [OF unat_ucast_down_le])
qed

lemma times_cpu:
  assumes "ctx_ok C" "unat x \<le> 4294967296"
  shows "unat (x * scale_cpu C) \<le> unat x * 1024" "unat (x * scale_cpu C) \<le> 4503599627370496"
proof -
  have le: "unat x * unat (scale_cpu C) \<le> unat x * 1024"
    using assms(1) by (intro mult_le_mono2) (simp add: ctx_ok_def)
  show a: "unat (x * scale_cpu C) \<le> unat x * 1024"
    by (rule le_trans [OF unat_times_le le])
  show "unat (x * scale_cpu C) \<le> 4503599627370496"
    using a assms(2) by linarith
qed

lemma inc_util_le:
  assumes "ctx_ok C" "unat x \<le> k" "k \<le> 4294967296"
  shows "unat (inc_util C x) \<le> k * 1024"
proof -
  have "unat (x * scale_cpu C) \<le> unat x * 1024"
    using assms by (intro times_cpu(1)) simp_all
  also have "\<dots> \<le> k * 1024" using assms(2) by simp
  finally show ?thesis by (simp add: inc_util_def)
qed

lemma inc_core_le:
  assumes "ctx_ok C" "unat x \<le> 4294967296"
  shows "unat (inc_core C x) \<le> unat (inc_util C x)"
proof -
  have "mem_ratio C \<le> 1024" using assms(1) by (simp add: ctx_ok_def word_le_nat_alt)
  then have r: "unat (1024 - mem_ratio C) \<le> 1024" by (simp add: unat_minus_le)
  then have "unat (drop_bit 10 (x * scale_cpu C * ucast (1024 - mem_ratio C))) \<le> unat (x * scale_cpu C)"
    using times_cpu(2) [OF assms] by (intro scaled10_le) simp_all
  then show ?thesis by (simp add: inc_core_def inc_util_def)
qed

lemma inc_mem_le:
  assumes "ctx_ok C" "unat d \<le> k" "k \<le> 4294967296"
  shows "unat (inc_mem C d) \<le> k * 1024"
proof -
  have d: "unat d \<le> 4294967296" using assms by simp
  have "unat (drop_bit 10 (d * scale_cpu C * ucast (mem_ratio C))) \<le> unat (d * scale_cpu C)"
    using times_cpu(2) [OF assms(1) d] assms(1) by (intro scaled10_le) (simp_all add: ctx_ok_def)
  also have "\<dots> \<le> unat d * 1024" by (rule times_cpu(1) [OF assms(1) d])
  also have "\<dots> \<le> k * 1024" using assms(2) by simp
  finally show ?thesis by (simp add: inc_mem_def)
qed

section \<open>The invariant of the sums\<close>

definition sums_bounded :: "nat \<Rightarrow> nat \<Rightarrow> sched_avg \<Rightarrow> bool" where
  "sums_bounded A F sa \<longleftrightarrow>
     unat (period_contrib sa) < 1024
     \<and> unat (util_sum sa) \<le> sum_cap A (unat (period_contrib sa))
     \<and> unat (util_fast_sum sa) \<le> sum_cap F (unat (period_contrib sa))"

definition pemt_sums_bounded :: "nat \<Rightarrow> nat \<Rightarrow> sched_avg \<Rightarrow> bool" where
  "pemt_sums_bounded A F sa \<longleftrightarrow>
     unat (core_util_sum sa) \<le> sum_cap A (unat (period_contrib sa))
     \<and> unat (memory_util_sum sa) \<le> sum_cap A (unat (period_contrib sa))
     \<and> unat (core_util_fast_sum sa) \<le> sum_cap F (unat (period_contrib sa))
     \<and> unat (memory_util_fast_sum sa) \<le> sum_cap F (unat (period_contrib sa))"

text \<open>The number of whole periods and the remainder of an update that crosses a boundary.\<close>

definition periods_of :: "u64 \<Rightarrow> u32 \<Rightarrow> u64" where
  "periods_of delta pc = (delta - ucast (1024 - pc)) div 1024"

definition remainder_of :: "u64 \<Rightarrow> u32 \<Rightarrow> u64" where
  "remainder_of delta pc = (delta - ucast (1024 - pc)) mod 1024"

lemma rollover_arith:
  assumes pc: "unat pc < 1024" and d: "unat delta < 18014398509481984" and ge: "delta + ucast pc \<ge> 1024"
  shows "unat (1024 - pc) = 1024 - unat pc"
    and "unat (periods_of delta pc) = (unat delta + unat pc - 1024) div 1024"
    and "unat (remainder_of delta pc) = (unat delta + unat pc) mod 1024"
    and "1024 \<le> unat delta + unat pc"
proof -
  show w: "unat (1024 - pc) = 1024 - unat pc"
    using pc by (simp add: unat_minus_le word_le_nat_alt)
  have "unat (delta + ucast pc) = unat delta + unat pc"
    using pc d by (simp add: unat_plus_u64)
  then show g: "1024 \<le> unat delta + unat pc"
    using ge by (simp add: word_le_nat_alt)
  have r: "unat (delta - ucast (1024 - pc)) = unat delta + unat pc - 1024"
    using g w pc by (subst unat_minus_le) (auto simp: word_le_nat_alt)
  show "unat (periods_of delta pc) = (unat delta + unat pc - 1024) div 1024"
    by (simp add: periods_of_def unat_div r)
  show "unat (remainder_of delta pc) = (unat delta + unat pc) mod 1024"
    using g by (simp add: remainder_of_def unat_mod r mod_if [of "unat delta + unat pc"])
qed

text \<open>The result of an update, in closed form: the phases composed.\<close>

lemma accumulate_cross:
  assumes "delta + ucast (period_contrib sa) \<ge> 1024"
  shows "accumulate m C delta (sa, rl) =
    (True, acc_averages C (acc_tail C (remainder_of delta (period_contrib sa))
       (acc_contrib m C (periods_of delta (period_contrib sa))
         (acc_decay m C (periods_of delta (period_contrib sa))
           (acc_head C (1024 - period_contrib sa) (sa\<lparr>period_contrib := 0\<rparr>, rl))))))"
  using assms by (simp add: accumulate_def Let_def periods_of_def remainder_of_def)

lemma accumulate_inside:
  assumes "\<not> delta + ucast (period_contrib sa) \<ge> 1024"
  shows "accumulate m C delta (sa, rl) = (False, acc_tail C delta (sa, rl))"
  using assms by (simp add: accumulate_def)

lemma inside_arith:
  assumes pc: "unat pc < 1024" and d: "unat delta < 18014398509481984" and "\<not> delta + ucast (pc :: u32) \<ge> 1024"
  shows "unat pc + unat delta < 1024" "unat (add32 pc delta) = unat pc + unat delta"
proof -
  have "unat (delta + ucast pc) = unat delta + unat pc"
    using pc d by (simp add: unat_plus_u64)
  then show "unat pc + unat delta < 1024"
    using assms(3) by (simp add: word_le_nat_alt)
  then show "unat (add32 pc delta) = unat pc + unat delta"
    by (intro add32_small) simp
qed

lemma accrual_increments:
  assumes C: "ctx_ok C" and pc: "unat pc < 1024" and d: "unat d < 1024"
  shows "unat (inc_util C (scaled32 C (1024 - pc))) \<le> (1024 - unat pc) * 1024"
    "unat (inc_core C (scaled32 C (1024 - pc))) \<le> (1024 - unat pc) * 1024"
    "unat (inc_mem C (ucast (1024 - pc))) \<le> (1024 - unat pc) * 1024"
    "unat (inc_util C (scaled32 C w)) \<le> 1024 * unat w"
    "unat (inc_core C (scaled32 C w)) \<le> 1024 * unat w"
    "unat (inc_mem C (ucast w)) \<le> 1024 * unat w"
    "unat (inc_util C (cap_scale d (scale_freq C))) \<le> unat d * 1024"
    "unat (inc_core C (cap_scale d (scale_freq C))) \<le> unat d * 1024"
    "unat (inc_mem C d) \<le> unat d * 1024"
proof -
  have w: "unat (1024 - pc) = 1024 - unat pc"
    using pc by (simp add: unat_minus_le word_le_nat_alt)
  have s: "unat (scaled32 C w) \<le> unat w" for w
    by (rule scaled32_le [OF C])
  have lt: "unat (w :: u32) \<le> 4294967296" for w
    using less_imp_le [OF unat_lt_u32] .
  have u: "unat (inc_util C (scaled32 C w)) \<le> unat w * 1024" for w
    by (rule inc_util_le [OF C s lt])
  have c: "unat (inc_core C (scaled32 C w)) \<le> unat w * 1024" for w
    by (rule le_trans [OF inc_core_le [OF C] u]) (rule le_trans [OF s lt])
  have e: "unat (inc_mem C (ucast w)) \<le> unat (w :: u32) * 1024" for w
    by (rule inc_mem_le [OF C _ lt]) simp
  show "unat (inc_util C (scaled32 C (1024 - pc))) \<le> (1024 - unat pc) * 1024"
    "unat (inc_core C (scaled32 C (1024 - pc))) \<le> (1024 - unat pc) * 1024"
    "unat (inc_mem C (ucast (1024 - pc))) \<le> (1024 - unat pc) * 1024"
    using u [of "1024 - pc"] c [of "1024 - pc"] e [of "1024 - pc"] by (simp_all add: w)
  show "unat (inc_util C (scaled32 C w)) \<le> 1024 * unat w"
    "unat (inc_core C (scaled32 C w)) \<le> 1024 * unat w"
    "unat (inc_mem C (ucast w)) \<le> 1024 * unat w"
    using u [of w] c [of w] e [of w] by simp_all
  have t: "unat (cap_scale d (scale_freq C)) \<le> unat d"
    using d C by (intro cap_scale_le) (simp_all add: ctx_ok_def)
  show "unat (inc_util C (cap_scale d (scale_freq C))) \<le> unat d * 1024"
    by (rule inc_util_le [OF C t]) (use d in simp)
  moreover have "unat (inc_core C (cap_scale d (scale_freq C))) \<le> unat (inc_util C (cap_scale d (scale_freq C)))"
    by (rule inc_core_le [OF C]) (use t d in simp)
  ultimately show "unat (inc_core C (cap_scale d (scale_freq C))) \<le> unat d * 1024"
    by simp
  show "unat (inc_mem C d) \<le> unat d * 1024"
    by (rule inc_mem_le [OF C]) (use d in simp_all)
qed

locale bounded_sums =
  slow: geometric_series decay_load compute_runnable_contrib A spanA +
  fast: geometric_series decay_fast_load compute_runnable_contrib_fast F spanF
  for A :: nat and spanA :: "nat \<Rightarrow> bool" and F :: nat and spanF :: "nat \<Rightarrow> bool"
begin

lemma cross_bounds:
  assumes m: "mul_shr_ok m" and C: "ctx_ok C" and pc: "unat (pc :: u32) < 1024" and d: "unat d < 1024"
    and p: "spanA (unat p)" "spanF (unat p)" "unat p < 9223372036854775808"
    and r: "r = fst (acc_tail C d (acc_contrib m C p (acc_decay m C p (acc_head C (1024 - pc) (sa, rl)))))"
  shows "unat (util_sum sa) \<le> sum_cap A (unat pc) \<Longrightarrow> unat (util_sum r) \<le> sum_cap A (unat d)"
    and "unat (util_fast_sum sa) \<le> sum_cap F (unat pc) \<Longrightarrow> unat (util_fast_sum r) \<le> sum_cap F (unat d)"
    and "pemt C \<Longrightarrow> unat (core_util_sum sa) \<le> sum_cap A (unat pc) \<Longrightarrow> unat (core_util_sum r) \<le> sum_cap A (unat d)"
    and "pemt C \<Longrightarrow> unat (core_util_fast_sum sa) \<le> sum_cap F (unat pc) \<Longrightarrow> unat (core_util_fast_sum r) \<le> sum_cap F (unat d)"
    and "pemt C \<Longrightarrow> unat (memory_util_sum sa) \<le> sum_cap A (unat pc) \<Longrightarrow> unat (memory_util_sum r) \<le> sum_cap A (unat d)"
    and "pemt C \<Longrightarrow> unat (memory_util_fast_sum sa) \<le> sum_cap F (unat pc) \<Longrightarrow> unat (memory_util_fast_sum r) \<le> sum_cap F (unat d)"
  unfolding r
  using accrual_increments [OF C pc d]
  by (simp_all add: m p pc d less_imp_le slow.signal_rollover [OF m less_imp_le [OF pc]] fast.signal_rollover [OF m less_imp_le [OF pc]])

lemma inside_bounds:
  assumes C: "ctx_ok C" and d: "pc + unat d < 1024"
  shows "unat (util_sum sa) \<le> sum_cap A pc \<Longrightarrow> unat (util_sum (fst (acc_tail C d (sa, rl)))) \<le> sum_cap A (pc + unat d)"
    and "unat (util_fast_sum sa) \<le> sum_cap F pc \<Longrightarrow> unat (util_fast_sum (fst (acc_tail C d (sa, rl)))) \<le> sum_cap F (pc + unat d)"
    and "pemt C \<Longrightarrow> unat (core_util_sum sa) \<le> sum_cap A pc \<Longrightarrow> unat (core_util_sum (fst (acc_tail C d (sa, rl)))) \<le> sum_cap A (pc + unat d)"
    and "pemt C \<Longrightarrow> unat (core_util_fast_sum sa) \<le> sum_cap F pc \<Longrightarrow> unat (core_util_fast_sum (fst (acc_tail C d (sa, rl)))) \<le> sum_cap F (pc + unat d)"
    and "pemt C \<Longrightarrow> unat (memory_util_sum sa) \<le> sum_cap A pc \<Longrightarrow> unat (memory_util_sum (fst (acc_tail C d (sa, rl)))) \<le> sum_cap A (pc + unat d)"
    and "pemt C \<Longrightarrow> unat (memory_util_fast_sum sa) \<le> sum_cap F pc \<Longrightarrow> unat (memory_util_fast_sum (fst (acc_tail C d (sa, rl)))) \<le> sum_cap F (pc + unat d)"
proof -
  have d': "unat d < 1024" "pc + unat d \<le> 1024" using d by simp_all
  note inc = accrual_increments(7-9) [OF C _ d'(1), of 0]
  show "unat (util_sum sa) \<le> sum_cap A pc \<Longrightarrow> unat (util_sum (fst (acc_tail C d (sa, rl)))) \<le> sum_cap A (pc + unat d)"
    "unat (util_fast_sum sa) \<le> sum_cap F pc \<Longrightarrow> unat (util_fast_sum (fst (acc_tail C d (sa, rl)))) \<le> sum_cap F (pc + unat d)"
    "pemt C \<Longrightarrow> unat (core_util_sum sa) \<le> sum_cap A pc \<Longrightarrow> unat (core_util_sum (fst (acc_tail C d (sa, rl)))) \<le> sum_cap A (pc + unat d)"
    "pemt C \<Longrightarrow> unat (core_util_fast_sum sa) \<le> sum_cap F pc \<Longrightarrow> unat (core_util_fast_sum (fst (acc_tail C d (sa, rl)))) \<le> sum_cap F (pc + unat d)"
    "pemt C \<Longrightarrow> unat (memory_util_sum sa) \<le> sum_cap A pc \<Longrightarrow> unat (memory_util_sum (fst (acc_tail C d (sa, rl)))) \<le> sum_cap A (pc + unat d)"
    "pemt C \<Longrightarrow> unat (memory_util_fast_sum sa) \<le> sum_cap F pc \<Longrightarrow> unat (memory_util_fast_sum (fst (acc_tail C d (sa, rl)))) \<le> sum_cap F (pc + unat d)"
    using inc d' by (simp_all add: slow.signal_within fast.signal_within)
qed

lemma accumulate_sums:
  assumes m: "mul_shr_ok m" and C: "ctx_ok C" and delta: "unat delta < 18014398509481984"
    and span: "spanA ((unat delta + unat (period_contrib sa) - 1024) div 1024)"
      "spanF ((unat delta + unat (period_contrib sa) - 1024) div 1024)"
    and inv: "sums_bounded A F sa"
  shows "sums_bounded A F (fst (snd (accumulate m C delta (sa, rl))))"
    and "pemt C \<Longrightarrow> pemt_sums_bounded A F sa \<Longrightarrow> pemt_sums_bounded A F (fst (snd (accumulate m C delta (sa, rl))))"
proof -
  let ?pc = "period_contrib sa"
  have pc: "unat ?pc < 1024" using inv by (simp add: sums_bounded_def)
  have "sums_bounded A F (fst (snd (accumulate m C delta (sa, rl)))) \<and>
    (pemt C \<longrightarrow> pemt_sums_bounded A F sa \<longrightarrow> pemt_sums_bounded A F (fst (snd (accumulate m C delta (sa, rl)))))"
  proof (cases "delta + ucast ?pc \<ge> 1024")
    case True
    note ar = rollover_arith [OF pc delta True]
    let ?p = "periods_of delta ?pc" and ?d = "remainder_of delta ?pc"
    have d: "unat ?d < 1024" by (simp add: ar)
    have p: "spanA (unat ?p)" "spanF (unat ?p)" "unat ?p < 9223372036854775808"
      using span pc delta by (simp_all add: ar)
    have z: "unat (add32 0 ?d) = unat ?d" by (subst add32_small) (use d in simp_all)
    note cr = cross_bounds [OF m C pc d p refl, of "sa\<lparr>period_contrib := 0\<rparr>" rl]
    show ?thesis
      using inv cr d z by (simp add: accumulate_cross [OF True] sums_bounded_def pemt_sums_bounded_def)
  next
    case False
    note ar = inside_arith [OF pc delta False]
    show ?thesis
      using inv ar inside_bounds [OF C ar(1), of sa rl]
      by (simp add: accumulate_inside [OF False] sums_bounded_def pemt_sums_bounded_def)
  qed
  then show "sums_bounded A F (fst (snd (accumulate m C delta (sa, rl))))"
    "pemt C \<Longrightarrow> pemt_sums_bounded A F sa \<Longrightarrow> pemt_sums_bounded A F (fst (snd (accumulate m C delta (sa, rl))))"
    by blast+
qed

end

interpretation any_gap: bounded_sums 47770 "\<lambda>_. True" 4963 "\<lambda>_. True" ..

interpretation short_gap: bounded_sums 46765 "\<lambda>p. p < 345" 3940 "\<lambda>p. p < 31" ..

text \<open>From the sums to the averages.\<close>

lemma unat_quot32:
  assumes "unat (v :: u32) \<le> b"
  shows "unat (ucast (v div 47742) :: u64) \<le> b div 47742" "unat (ucast (v div 4959) :: u64) \<le> b div 4959"
  using assms by (simp_all add: unat_div div_le_mono)

lemma accumulate_averages:
  assumes "accumulate m C delta (sa, rl) = (True, (sa', rl'))" and "sums_bounded A F sa'"
  shows "unat (util_avg sa') \<le> (A + 1023) * 1024 div 47742" "unat (util_fast_avg sa') \<le> (F + 1023) * 1024 div 4959"
    and "pemt C \<Longrightarrow> pemt_sums_bounded A F sa' \<Longrightarrow>
      unat (core_util_avg sa') \<le> (A + 1023) * 1024 div 47742 \<and> unat (memory_util_avg sa') \<le> (A + 1023) * 1024 div 47742
      \<and> unat (core_util_fast_avg sa') \<le> (F + 1023) * 1024 div 4959 \<and> unat (memory_util_fast_avg sa') \<le> (F + 1023) * 1024 div 4959"
proof -
  obtain st where st: "(sa', rl') = acc_averages C st"
    using assms(1) by (metis accumulate_cross accumulate_inside prod.inject)
  then have sa': "sa' = fst (acc_averages C st)" by (metis fst_conv)
  have le: "unat (v :: u32) \<le> sum_cap B (unat (period_contrib sa')) \<Longrightarrow> unat v \<le> (B + 1023) * 1024" for v B
    using assms(2) by (simp add: sum_cap_def sums_bounded_def)
  have u: "unat (util_sum (fst st)) \<le> (A + 1023) * 1024" "unat (util_fast_sum (fst st)) \<le> (F + 1023) * 1024"
    by (rule le, use assms(2) in \<open>simp add: sa' sums_bounded_def\<close>)+
  show "unat (util_avg sa') \<le> (A + 1023) * 1024 div 47742" "unat (util_fast_avg sa') \<le> (F + 1023) * 1024 div 4959"
    unfolding sa' averages_sums by (rule unat_quot32 [OF u(1)], rule unat_quot32 [OF u(2)])
  assume e: "pemt C" and b: "pemt_sums_bounded A F sa'"
  have c: "unat (core_util_sum (fst st)) \<le> (A + 1023) * 1024" "unat (memory_util_sum (fst st)) \<le> (A + 1023) * 1024"
    "unat (core_util_fast_sum (fst st)) \<le> (F + 1023) * 1024" "unat (memory_util_fast_sum (fst st)) \<le> (F + 1023) * 1024"
    by (rule le, use b in \<open>simp add: sa' pemt_sums_bounded_def\<close>)+
  show "unat (core_util_avg sa') \<le> (A + 1023) * 1024 div 47742 \<and> unat (memory_util_avg sa') \<le> (A + 1023) * 1024 div 47742
      \<and> unat (core_util_fast_avg sa') \<le> (F + 1023) * 1024 div 4959 \<and> unat (memory_util_fast_avg sa') \<le> (F + 1023) * 1024 div 4959"
    unfolding sa' averages_sums(10-13) [OF e]
    using unat_quot32(1) [OF c(1)] unat_quot32(1) [OF c(2)] unat_quot32(2) [OF c(3)] unat_quot32(2) [OF c(4)] by simp
qed

section \<open>Core share\<close>

text \<open>The core-bound part of the utilisation accrues at most what the utilisation does.\<close>

definition core_below_util :: "sched_avg \<Rightarrow> bool" where
  "core_below_util sa \<longleftrightarrow> unat (core_util_sum sa) \<le> unat (util_sum sa) \<and> unat (core_util_fast_sum sa) \<le> unat (util_fast_sum sa)"

lemma core_increments:
  assumes C: "ctx_ok C" and d: "unat d < 1024"
  shows "unat (inc_core C (scaled32 C w)) \<le> unat (inc_util C (scaled32 C w))"
    and "unat (inc_core C (cap_scale d (scale_freq C))) \<le> unat (inc_util C (cap_scale d (scale_freq C)))"
proof -
  have "unat (scaled32 C w) \<le> 4294967296"
    by (rule le_trans [OF scaled32_le [OF C]]) (rule less_imp_le [OF unat_lt_u32])
  then show "unat (inc_core C (scaled32 C w)) \<le> unat (inc_util C (scaled32 C w))"
    by (rule inc_core_le [OF C])
  have "unat (cap_scale d (scale_freq C)) \<le> unat d"
    using d C by (intro cap_scale_le) (simp_all add: ctx_ok_def)
  then show "unat (inc_core C (cap_scale d (scale_freq C))) \<le> unat (inc_util C (cap_scale d (scale_freq C)))"
    using d by (intro inc_core_le [OF C]) simp
qed

lemma accumulate_core_below_util:
  assumes m: "mul_shr_ok m" and C: "ctx_ok C" "pemt C" and delta: "unat delta < 18014398509481984"
    and inv: "sums_bounded 47770 4963 sa" and le: "core_below_util sa"
  shows "core_below_util (fst (snd (accumulate m C delta (sa, rl))))"
proof -
  let ?pc = "period_contrib sa"
  have pc: "unat ?pc < 1024" and sums: "unat (util_sum sa) \<le> sum_cap 47770 (unat ?pc)" "unat (util_fast_sum sa) \<le> sum_cap 4963 (unat ?pc)"
    using inv by (simp_all add: sums_bounded_def)
  show ?thesis
  proof (cases "delta + ucast ?pc \<ge> 1024")
    case True
    note ar = rollover_arith [OF pc delta True]
    let ?p = "periods_of delta ?pc" and ?d = "remainder_of delta ?pc"
    have d: "unat ?d < 1024" and p: "unat ?p < 9223372036854775808"
      using pc delta by (simp_all add: ar)
    note inc = accrual_increments [OF C(1) pc d] core_increments [OF C(1) d]
    show ?thesis
      using le C(2) sums inc p d less_imp_le [OF pc]
      by (simp add: accumulate_cross [OF True] core_below_util_def
          slow.signal_rollover_mono [OF m less_imp_le [OF pc]] fast.signal_rollover_mono [OF m less_imp_le [OF pc]])
  next
    case False
    note ar = inside_arith [OF pc delta False]
    have d: "unat delta < 1024" using ar by simp
    note inc = accrual_increments(7) [OF C(1) pc d] core_increments(2) [OF C(1) d]
    have "unat (util_sum sa) + unat (inc_util C (cap_scale delta (scale_freq C))) < 4294967296"
      "unat (util_fast_sum sa) + unat (inc_util C (cap_scale delta (scale_freq C))) < 4294967296"
      using sums inc d pc by (simp_all add: sum_cap_def)
    then show ?thesis
      using le C(2) inc by (simp add: accumulate_inside [OF False] core_below_util_def add32_small)
  qed
qed

end
