(* ===== verification/Pelt_State.thy ===== *)
theory Pelt_State
  imports Pelt_Bounds
begin

text \<open>
  The whole update on the kernel state: what it leaves alone, the invariant of the averages (with the
  memory cycle ratios), and the properties of the averages the governor reads.
\<close>

section \<open>Which fields an update writes\<close>

lemma get_avg_upd_avg: "get_avg r (upd_avg q f s) = (if r = q then f (get_avg r s) else get_avg r s)"
  by (cases r; cases q) (auto simp: upd_defs)

lemma set_signals_get: "get_avg r (set_signals r st s) = fst st"
  by (cases r; cases st; cases "snd st") (auto simp: upd_defs)

lemma set_signals_other: "q \<noteq> r \<Longrightarrow> get_avg q (set_signals r st s) = get_avg q s"
  by (cases r; cases q; cases st; cases "snd st") (auto simp: upd_defs)

lemma fst_get_signals [simp]: "fst (get_signals r s) = get_avg r s"
  by (cases r) (auto simp: Let_def)

lemma set_ratio_simps [simp]:
  "memory_cycle_ratio (set_ratio x sa) = x"
  "sums_bounded A F (set_ratio x sa) = sums_bounded A F sa"
  "pemt_sums_bounded A F (set_ratio x sa) = pemt_sums_bounded A F sa"
  "core_below_util (set_ratio x sa) = core_below_util sa"
  by (simp_all add: set_ratio_def sums_bounded_def pemt_sums_bounded_def core_below_util_def)

lemma update_time_simps [simp]:
  "memory_cycle_ratio (sa\<lparr>last_update_time := t\<rparr>) = memory_cycle_ratio sa"
  "sums_bounded A F (sa\<lparr>last_update_time := t\<rparr>) = sums_bounded A F sa"
  "pemt_sums_bounded A F (sa\<lparr>last_update_time := t\<rparr>) = pemt_sums_bounded A F sa"
  "core_below_util (sa\<lparr>last_update_time := t\<rparr>) = core_below_util sa"
  by (simp_all add: sums_bounded_def pemt_sums_bounded_def core_below_util_def)

lemma read_all_counters_frame:
  "se_at (snd (read_all_counters K c s)) = se_at s"
  "cfs_at (snd (read_all_counters K c s)) = cfs_at s"
  "pkshin_pemt_enabled (snd (read_all_counters K c s)) = pkshin_pemt_enabled s"
  by (simp_all add: read_all_counters_def read_counter_def asm_mrs_def asm_do_def Let_def)

lemma pmu_get_frame:
  assumes "pkshin_pmu_get K s = Some (x, s')"
  shows "se_at s' = se_at s" "cfs_at s' = cfs_at s" "pkshin_pemt_enabled s' = pkshin_pemt_enabled s" "unat x \<le> 1024"
proof -
  obtain r t where rt: "read_all_counters K (this_cpu K) s = (r, t)" by force
  note f = read_all_counters_frame [of K "this_cpu K" s, unfolded rt snd_conv]
  obtain rest where "memory_ratio (fst rest) (fst (snd rest)) (fst (snd (snd rest))) (fst (snd (snd (snd rest)))) (snd (snd (snd (snd rest)))) = Some x"
    and s': "s' = set_prev (this_cpu K) r t"
    using assms by (fastforce simp: pkshin_pmu_get_def rt Let_def split: bind_splits)
  then show "unat x \<le> 1024" by (auto dest: memory_ratio_le)
  show "se_at s' = se_at s" "cfs_at s' = cfs_at s" "pkshin_pemt_enabled s' = pkshin_pemt_enabled s"
    by (simp_all add: s' set_prev_def f)
qed

lemma get_avg_frame: "se_at s' = se_at s \<Longrightarrow> cfs_at s' = cfs_at s \<Longrightarrow> get_avg r s' = get_avg r s"
  by (cases r) simp_all

section \<open>Memory cycle ratios\<close>

definition ratios_ok :: "kstate \<Rightarrow> bool" where
  "ratios_ok s \<longleftrightarrow> (\<forall>r. unat (memory_cycle_ratio (get_avg r s)) \<le> 1024)"

lemmas [simp del] = upd_avg.simps

lemma ratios_okD: "ratios_ok s \<Longrightarrow> unat (memory_cycle_ratio (get_avg r s)) \<le> 1024"
  by (simp add: ratios_ok_def)

lemma ratios_ok_se: "ratios_ok s \<Longrightarrow> unat (memory_cycle_ratio (se_avg (se_at s i))) \<le> 1024"
  using ratios_okD [of s "SeAvg i"] by simp

lemma ratios_ok_cfs: "ratios_ok s \<Longrightarrow> unat (memory_cycle_ratio (cfs_avg (cfs_at s i))) \<le> 1024"
  using ratios_okD [of s "CfsAvg i"] by simp

lemma leaf_ratio_le:
  assumes "leaf_ratio s i = Some x" "ratios_ok s"
  shows "unat x \<le> 1024"
proof -
  have "ratios_ok s \<longrightarrow> unat x \<le> 1024"
  proof (rule leaf_ratio.raw_induct [OF _ assms(1)])
    fix f s i y
    assume "\<And>s i y. f s i = Some y \<Longrightarrow> ratios_ok s \<longrightarrow> unat (y :: u32) \<le> 1024"
      and "(case my_q (se_at s i) of None \<Rightarrow> Some (memory_cycle_ratio (se_avg (se_at s i)))
        | Some g \<Rightarrow> (case curr (cfs_at s g) of None \<Rightarrow> Some (memory_cycle_ratio (cfs_avg (cfs_at s g))) | Some j \<Rightarrow> f s j)) = Some y"
    then show "ratios_ok s \<longrightarrow> unat y \<le> 1024"
      by (auto split: option.splits dest: ratios_ok_se ratios_ok_cfs)
  qed
  then show ?thesis using assms(2) by blast
qed

text \<open>What the choice of the ratio changes: only ratios.\<close>

definition only_ratios :: "kstate \<Rightarrow> kstate \<Rightarrow> bool" where
  "only_ratios s s' \<longleftrightarrow> (\<forall>r. \<exists>x. get_avg r s' = set_ratio x (get_avg r s))"

lemma set_ratio_same: "set_ratio (memory_cycle_ratio sa) sa = sa"
  by (simp add: set_ratio_def)

lemma only_ratios_refl: "only_ratios s s"
  unfolding only_ratios_def by (metis set_ratio_same)

lemma set_ratio_twice: "set_ratio y (set_ratio x sa) = set_ratio y sa"
  by (simp add: set_ratio_def)

lemma only_ratios_upd: "only_ratios s s' \<Longrightarrow> only_ratios s (upd_avg q (set_ratio x) s')"
  unfolding only_ratios_def get_avg_upd_avg by (metis set_ratio_twice)

lemma ratios_ok_upd: "ratios_ok s \<Longrightarrow> unat x \<le> 1024 \<Longrightarrow> ratios_ok (upd_avg q (set_ratio x) s)"
  by (simp add: ratios_ok_def get_avg_upd_avg)

lemma pemt_upd_avg [simp]: "pkshin_pemt_enabled (upd_avg q f s) = pkshin_pemt_enabled s"
  by (cases q) (simp_all add: upd_avg.simps upd_defs)

lemma choose_ratio_props:
  assumes c: "choose_ratio K r act s = Some (x, s')" and ok: "ratios_ok s"
  shows "unat x \<le> 1024" "ratios_ok s'" "only_ratios s s'" "pkshin_pemt_enabled s' = pkshin_pemt_enabled s"
proof -
  have "unat x \<le> 1024 \<and> ratios_ok s' \<and> only_ratios s s' \<and> pkshin_pemt_enabled s' = pkshin_pemt_enabled s"
  proof (cases "pkshin_pemt_enabled s \<and> act")
    case False
    then show ?thesis using c ok by (auto simp: choose_ratio_def only_ratios_refl)
  next
    case on: True
    show ?thesis
    proof (cases r)
      case (CfsAvg q)
      show ?thesis
        using c ok on unfolding choose_ratio_def CfsAvg
        by (auto simp: Let_def ratios_ok_se ratios_ok_cfs split: option.splits intro!: ratios_ok_upd only_ratios_upd only_ratios_refl)
    next
      case (SeAvg i)
      show ?thesis
      proof (cases "entity_is_task (se_at s i)")
        case True
        obtain t where t: "pkshin_pmu_get K s = Some (x, t)"
          and s': "s' = upd_avg (CfsAvg (se_cfs_rq (se_at (upd_avg (SeAvg i) (set_ratio x) t) i))) (set_ratio x) (upd_avg (SeAvg i) (set_ratio x) t)"
          using c on True unfolding choose_ratio_def SeAvg by (auto simp: Let_def split: bind_splits)
        note f = pmu_get_frame [OF t]
        have g: "get_avg q t = get_avg q s" for q by (rule get_avg_frame [OF f(1,2)])
        have "ratios_ok t" "only_ratios s t"
          using ok only_ratios_refl [of s] by (simp_all add: ratios_ok_def only_ratios_def g)
        then show ?thesis using f(3,4) unfolding s' by (simp add: ratios_ok_upd only_ratios_upd)
      next
        case False
        obtain y where y: "leaf_ratio s i = Some y" and p: "x = y" "s' = upd_avg (SeAvg i) (set_ratio y) s"
          using c on False unfolding choose_ratio_def SeAvg by (auto split: bind_splits)
        show ?thesis
          using leaf_ratio_le [OF y ok] ok unfolding p by (simp add: ratios_ok_upd only_ratios_upd only_ratios_refl)
      qed
    qed
  qed
  then show "unat x \<le> 1024" "ratios_ok s'" "only_ratios s s'" "pkshin_pemt_enabled s' = pkshin_pemt_enabled s"
    by blast+
qed

lemma account_busy_frame:
  assumes "account_busy now cpu r act d s = Some s'"
  shows "se_at s' = se_at s" "cfs_at s' = cfs_at s" "pkshin_pemt_enabled s' = pkshin_pemt_enabled s"
  using assms by (auto simp: account_busy_def Let_def split: avg_ref.splits if_splits)


lemma upd_avg_frame [simp]:
  "exec_time (upd_avg q f s) = exec_time s" "exec_clear_time (upd_avg q f s) = exec_clear_time s"
  "pkshin_cycle_enabled (upd_avg q f s) = pkshin_cycle_enabled s"
  by (cases q; simp add: upd_avg.simps upd_defs)+

section \<open>One update, in closed form\<close>

definition scales_ok :: "kapi \<Rightarrow> bool" where
  "scales_ok K \<longleftrightarrow> (\<forall>c. unat (arch_scale_freq_capacity K c) \<le> 1024 \<and> unat (arch_scale_cpu_capacity K c) \<le> 1024)"

lemma ctx_ok_update: "scales_ok K \<Longrightarrow> unat x \<le> 1024 \<Longrightarrow> ctx_ok (update_ctx K c w act pe x sa)"
  by (simp add: ctx_ok_def update_ctx_def scales_ok_def)

lemma only_ratios_get: "only_ratios s s' \<Longrightarrow> \<exists>x. get_avg r s' = set_ratio x (get_avg r s)"
  by (simp add: only_ratios_def)

text \<open>The record an update starts its accrual from.\<close>

definition stamped :: "u64 \<Rightarrow> u32 \<Rightarrow> sched_avg \<Rightarrow> sched_avg" where
  "stamped now x sa = (set_ratio x sa)\<lparr>last_update_time := now\<rparr>"

lemma stamped_simps [simp]:
  "memory_cycle_ratio (stamped now x sa) = x" "period_contrib (stamped now x sa) = period_contrib sa"
  "sums_bounded A F (stamped now x sa) = sums_bounded A F sa"
  "pemt_sums_bounded A F (stamped now x sa) = pemt_sums_bounded A F sa"
  "core_below_util (stamped now x sa) = core_below_util sa"
  by (simp_all add: stamped_def) (simp add: set_ratio_def)

lemma get_signals_pair: "\<exists>rl. get_signals r s = (get_avg r s, rl)"
  by (cases r) (auto simp: Let_def)

lemma update_closed:
  assumes u: "raw_update_load_avg K now c r w act s = Some (dec, s')"
    and sc: "scales_ok K" and ok: "ratios_ok s"
  obtains (still) "dec = False" "\<forall>q. get_avg q s' = (if q = r \<and> sint (now - last_update_time (get_avg r s)) < 0
        then (get_avg q s)\<lparr>last_update_time := now\<rparr> else get_avg q s)"
    | (accrue) C x rl st s1 where
        "ctx_ok C" "pemt C = pkshin_pemt_enabled s" "unat x \<le> 1024"
        "accumulate (mul_u64_u32_shr K) C (drop_bit 10 (now - last_update_time (get_avg r s))) (stamped now x (get_avg r s), rl) = (dec, st)"
        "get_avg r s' = fst st" "only_ratios s s1" "ratios_ok s1" "\<forall>q. q \<noteq> r \<longrightarrow> get_avg q s' = get_avg q s1"
proof (cases "sint (now - last_update_time (get_avg r s)) < 0 \<or> drop_bit 10 (now - last_update_time (get_avg r s)) = 0")
  case True
  then show ?thesis
    using u by (intro still) (auto simp: raw_update_load_avg_def Let_def get_avg_upd_avg split: if_splits)
next
  case False
  let ?d = "drop_bit 10 (now - last_update_time (get_avg r s))"
  obtain x s1 s2 where c: "choose_ratio K r act s = Some (x, s1)" and a: "account_busy now c r act ?d s1 = Some s2"
    and res: "(case accumulate (mul_u64_u32_shr K)
        (update_ctx K c w act (pkshin_pemt_enabled s2) x (get_avg r (upd_avg r (\<lambda>sa. sa\<lparr>last_update_time := now\<rparr>) s2))) ?d
        (get_signals r (upd_avg r (\<lambda>sa. sa\<lparr>last_update_time := now\<rparr>) s2)) of
        (d, st) \<Rightarrow> Some (d, set_signals r st (upd_avg r (\<lambda>sa. sa\<lparr>last_update_time := now\<rparr>) s2))) = Some (dec, s')"
    using u False by (auto simp: raw_update_load_avg_def Let_def split: bind_splits)
  let ?t = "upd_avg r (\<lambda>sa. sa\<lparr>last_update_time := now\<rparr>) s2"
  note p = choose_ratio_props [OF c ok] and f = account_busy_frame [OF a]
  have g: "get_avg q s2 = get_avg q s1" for q by (rule get_avg_frame [OF f(1,2)])
  obtain y where y: "get_avg r s1 = set_ratio y (get_avg r s)" using only_ratios_get [OF p(3)] by blast
  have start: "get_avg r ?t = stamped now y (get_avg r s)"
    by (simp add: get_avg_upd_avg g y stamped_def)
  have y': "unat y \<le> 1024" using ratios_okD [OF p(2), of r] by (simp add: y)
  obtain rl where rl: "get_signals r ?t = (get_avg r ?t, rl)" using get_signals_pair by blast
  show ?thesis
  proof (rule accrue)
    show "ctx_ok (update_ctx K c w act (pkshin_pemt_enabled s2) x (get_avg r ?t))"
      by (rule ctx_ok_update [OF sc p(1)])
    show "pemt (update_ctx K c w act (pkshin_pemt_enabled s2) x (get_avg r ?t)) = pkshin_pemt_enabled s"
      by (simp add: update_ctx_def f p)
    show "accumulate (mul_u64_u32_shr K) (update_ctx K c w act (pkshin_pemt_enabled s2) x (get_avg r ?t)) ?d
        (stamped now y (get_avg r s), rl) = (dec, snd (accumulate (mul_u64_u32_shr K) (update_ctx K c w act (pkshin_pemt_enabled s2) x (get_avg r ?t)) ?d
        (stamped now y (get_avg r s), rl)))"
      using res by (simp add: rl start case_prod_beta prod_eq_iff)
    show "get_avg r s' = fst (snd (accumulate (mul_u64_u32_shr K) (update_ctx K c w act (pkshin_pemt_enabled s2) x (get_avg r ?t)) ?d
        (stamped now y (get_avg r s), rl)))"
      using res by (auto simp: rl start case_prod_beta set_signals_get)
    show "\<forall>q. q \<noteq> r \<longrightarrow> get_avg q s' = get_avg q s1"
      using res by (auto simp: case_prod_beta set_signals_other get_avg_upd_avg g)
  qed (use y' p in simp_all)
qed


lemma fst_add_load: "fst (add_load C x st) = (if load_weight_of C \<noteq> 0 then (fst st)\<lparr>load_sum := load_sum (fst st) + load_weight_of C * x\<rparr> else fst st)"
  by (cases st) (simp add: add_load_def)

lemma phase_ratio [simp]:
  "memory_cycle_ratio (fst (acc_head C w st)) = memory_cycle_ratio (fst st)"
  "memory_cycle_ratio (fst (acc_decay m C p st)) = memory_cycle_ratio (fst st)"
  "memory_cycle_ratio (fst (acc_contrib m C p st)) = memory_cycle_ratio (fst st)"
  "memory_cycle_ratio (fst (acc_tail C d st)) = memory_cycle_ratio (fst st)"
  "memory_cycle_ratio (fst (acc_averages C st)) = memory_cycle_ratio (fst st)"
  by (simp_all add: acc_head_def acc_decay_def acc_contrib_def acc_tail_def acc_averages_def
      Let_def case_prod_beta fst_add_load)

lemma accumulate_ratio: "memory_cycle_ratio (fst (snd (accumulate m C d (sa, rl)))) = memory_cycle_ratio sa"
  by (cases "d + ucast (period_contrib sa) \<ge> 1024") (simp_all add: accumulate_cross accumulate_inside)

lemma unat_delta_us: "unat (drop_bit 10 (d :: u64)) < 18014398509481984"
  unfolding unat_drop_bit_div using unat_lt_u64 [of d] by (simp add: less_mult_imp_div_less del: unat_lt_u64)

lemma update_ratios_ok:
  assumes "raw_update_load_avg K now c r w act s = Some (dec, s')" "scales_ok K" "ratios_ok s"
  shows "ratios_ok s'"
proof (rule update_closed [OF assms])
  assume "\<forall>q. get_avg q s' = (if q = r \<and> sint (now - last_update_time (get_avg r s)) < 0
        then (get_avg q s)\<lparr>last_update_time := now\<rparr> else get_avg q s)"
  then show ?thesis using assms(3) by (auto simp: ratios_ok_def)
next
  fix C x rl st s1
  assume a: "accumulate (mul_u64_u32_shr K) C (drop_bit 10 (now - last_update_time (get_avg r s))) (stamped now x (get_avg r s), rl) = (dec, st)"
    "get_avg r s' = fst st" "unat x \<le> 1024" "ratios_ok s1" "\<forall>q. q \<noteq> r \<longrightarrow> get_avg q s' = get_avg q s1"
  have "memory_cycle_ratio (fst st) = x"
    using accumulate_ratio [of "mul_u64_u32_shr K" C _ "stamped now x (get_avg r s)" rl, THEN trans] by (metis a(1) accumulate_ratio snd_conv stamped_simps(1))
  then show ?thesis using a by (metis ratios_ok_def)
qed

section \<open>The invariant of a signal\<close>

definition avg_bounded :: "bool \<Rightarrow> nat \<Rightarrow> nat \<Rightarrow> sched_avg \<Rightarrow> bool" where
  "avg_bounded pe A F sa \<longleftrightarrow> sums_bounded A F sa \<and> (pe \<longrightarrow> pemt_sums_bounded A F sa)"

text \<open>The averages of an update, against a bound for the slow and one for the fast signals.\<close>

definition averages_le :: "bool \<Rightarrow> nat \<Rightarrow> nat \<Rightarrow> sched_avg \<Rightarrow> bool" where
  "averages_le pe a f sa \<longleftrightarrow> unat (util_avg sa) \<le> a \<and> unat (util_fast_avg sa) \<le> f
     \<and> (pe \<longrightarrow> unat (core_util_avg sa) \<le> a \<and> unat (memory_util_avg sa) \<le> a
         \<and> unat (core_util_fast_avg sa) \<le> f \<and> unat (memory_util_fast_avg sa) \<le> f)"

lemma avg_bounded_time [simp]: "avg_bounded pe A F (sa\<lparr>last_update_time := t\<rparr>) = avg_bounded pe A F sa"
  by (simp add: avg_bounded_def)

lemma update_bounded:
  assumes u: "raw_update_load_avg K now c r w act s = Some (dec, s')"
    and K: "mul_shr_ok (mul_u64_u32_shr K)" "scales_ok K" and ok: "ratios_ok s"
    and step: "\<And>C sa rl. ctx_ok C \<Longrightarrow> sums_bounded A F sa \<Longrightarrow> period_contrib sa = period_contrib (get_avg r s) \<Longrightarrow>
        sums_bounded A F (fst (snd (accumulate (mul_u64_u32_shr K) C (drop_bit 10 (now - last_update_time (get_avg r s))) (sa, rl)))) \<and>
        (pemt C \<longrightarrow> pemt_sums_bounded A F sa \<longrightarrow>
          pemt_sums_bounded A F (fst (snd (accumulate (mul_u64_u32_shr K) C (drop_bit 10 (now - last_update_time (get_avg r s))) (sa, rl)))))"
    and b: "avg_bounded (pkshin_pemt_enabled s) A F (get_avg r s)"
  shows "avg_bounded (pkshin_pemt_enabled s) A F (get_avg r s')
    \<and> (dec \<longrightarrow> averages_le (pkshin_pemt_enabled s) ((A + 1023) * 1024 div 47742) ((F + 1023) * 1024 div 4959) (get_avg r s'))"
proof (rule update_closed [OF u K(2) ok])
  assume "dec = False" "\<forall>q. get_avg q s' = (if q = r \<and> sint (now - last_update_time (get_avg r s)) < 0
        then (get_avg q s)\<lparr>last_update_time := now\<rparr> else get_avg q s)"
  then show ?thesis using b by simp
next
  fix C x rl st s1
  assume C: "ctx_ok C" "pemt C = pkshin_pemt_enabled s"
    and a: "accumulate (mul_u64_u32_shr K) C (drop_bit 10 (now - last_update_time (get_avg r s))) (stamped now x (get_avg r s), rl) = (dec, st)"
    and g: "get_avg r s' = fst st"
  have inv: "sums_bounded A F (fst st)" "pkshin_pemt_enabled s \<Longrightarrow> pemt_sums_bounded A F (fst st)"
    using step [OF C(1), of "stamped now x (get_avg r s)" rl] b by (simp_all add: a C(2) avg_bounded_def)
  show ?thesis
  proof (cases dec)
    case False
    then show ?thesis using inv by (simp add: avg_bounded_def g)
  next
    case True
    have acc: "accumulate (mul_u64_u32_shr K) C (drop_bit 10 (now - last_update_time (get_avg r s)))
        (stamped now x (get_avg r s), rl) = (True, fst st, snd st)" using a True by simp
    show ?thesis
      unfolding averages_le_def avg_bounded_def g
      using accumulate_averages [OF acc inv(1)] inv by (simp add: C(2))
  qed
qed


lemma tail_averages:
  "util_avg (fst (acc_tail C d st)) = util_avg (fst st)" "util_fast_avg (fst (acc_tail C d st)) = util_fast_avg (fst st)"
  "core_util_avg (fst (acc_tail C d st)) = core_util_avg (fst st)" "memory_util_avg (fst (acc_tail C d st)) = memory_util_avg (fst st)"
  "core_util_fast_avg (fst (acc_tail C d st)) = core_util_fast_avg (fst st)"
  "memory_util_fast_avg (fst (acc_tail C d st)) = memory_util_fast_avg (fst st)"
  by (simp_all add: acc_tail_def Let_def case_prod_beta fst_add_load)

lemma averages_le_stamped [simp]: "averages_le pe a f (stamped now x sa) = averages_le pe a f sa"
  by (simp add: averages_le_def stamped_def set_ratio_def)

lemma averages_le_time [simp]: "averages_le pe a f (sa\<lparr>last_update_time := t\<rparr>) = averages_le pe a f sa"
  by (simp add: averages_le_def)

lemma accumulate_False:
  assumes "accumulate m C d (sa, rl) = (False, st)"
  shows "averages_le pe a f (fst st) = averages_le pe a f sa"
proof (cases "d + ucast (period_contrib sa) \<ge> 1024")
  case True
  then show ?thesis using assms by (simp add: accumulate_cross)
next
  case False
  then have "st = acc_tail C d (sa, rl)" using assms by (simp add: accumulate_inside)
  then show ?thesis by (simp add: averages_le_def tail_averages)
qed

lemma update_averages_kept:
  assumes "raw_update_load_avg K now c r w act s = Some (False, s')" "scales_ok K" "ratios_ok s"
  shows "averages_le pe a f (get_avg r s') = averages_le pe a f (get_avg r s)"
  by (rule update_closed [OF assms]) (auto simp: accumulate_False)

lemma set_signals_pemt [simp]: "pkshin_pemt_enabled (set_signals r st s) = pkshin_pemt_enabled s"
  by (cases r; cases st; cases "snd st") (auto simp: upd_defs)

lemma update_pemt:
  assumes "raw_update_load_avg K now c r w act s = Some (dec, s')" "ratios_ok s"
  shows "pkshin_pemt_enabled s' = pkshin_pemt_enabled s"
  using assms(1) by (auto simp: raw_update_load_avg_def Let_def case_prod_beta split: if_splits bind_splits
    dest!: choose_ratio_props(4) [OF _ assms(2)] account_busy_frame(3))

text \<open>Everything the governor relies on, for one signal.\<close>

definition avg_inv :: "bool \<Rightarrow> nat \<Rightarrow> nat \<Rightarrow> sched_avg \<Rightarrow> bool" where
  "avg_inv pe A F sa \<longleftrightarrow> avg_bounded pe A F sa
     \<and> averages_le pe ((A + 1023) * 1024 div 47742) ((F + 1023) * 1024 div 4959) sa"

lemma update_inv_any:
  assumes u: "raw_update_load_avg K now c r w act s = Some (dec, s')"
    and K: "mul_shr_ok (mul_u64_u32_shr K)" "scales_ok K" and ok: "ratios_ok s"
    and b: "avg_inv (pkshin_pemt_enabled s) 47770 4963 (get_avg r s)"
  shows "avg_inv (pkshin_pemt_enabled s') 47770 4963 (get_avg r s')"
proof -
  note st = any_gap.accumulate_sums [OF K(1) _ unat_delta_us TrueI TrueI]
  have "avg_bounded (pkshin_pemt_enabled s) 47770 4963 (get_avg r s')
    \<and> (dec \<longrightarrow> averages_le (pkshin_pemt_enabled s) ((47770 + 1023) * 1024 div 47742) ((4963 + 1023) * 1024 div 4959) (get_avg r s'))"
    by (rule update_bounded [OF u K ok]) (use st b in \<open>simp_all add: avg_inv_def\<close>)
  then show ?thesis
    using b update_averages_kept [OF _ K(2) ok, of now c r w act s'] u
    by (cases dec) (auto simp: avg_inv_def update_pemt [OF u ok])
qed

definition gap_us :: "u64 \<Rightarrow> sched_avg \<Rightarrow> nat" where
  "gap_us now sa = unat (drop_bit 10 (now - last_update_time sa))"

lemma update_inv_short:
  assumes u: "raw_update_load_avg K now c r w act s = Some (dec, s')"
    and K: "mul_shr_ok (mul_u64_u32_shr K)" "scales_ok K" and ok: "ratios_ok s"
    and gap: "gap_us now (get_avg r s) < 31744"
    and b: "avg_inv (pkshin_pemt_enabled s) 46765 3940 (get_avg r s)"
  shows "avg_inv (pkshin_pemt_enabled s') 46765 3940 (get_avg r s')"
proof -
  have pc: "unat (period_contrib (get_avg r s)) < 1024"
    using b by (simp add: avg_inv_def avg_bounded_def sums_bounded_def)
  have p: "(gap_us now (get_avg r s) + unat (period_contrib (get_avg r s)) - 1024) div 1024 < 31"
    using gap pc by linarith
  note st = short_gap.accumulate_sums [OF K(1) _ unat_delta_us]
  have "avg_bounded (pkshin_pemt_enabled s) 46765 3940 (get_avg r s')
    \<and> (dec \<longrightarrow> averages_le (pkshin_pemt_enabled s) ((46765 + 1023) * 1024 div 47742) ((3940 + 1023) * 1024 div 4959) (get_avg r s'))"
    by (rule update_bounded [OF u K ok]) (use st p b in \<open>simp_all add: avg_inv_def gap_us_def\<close>)
  then show ?thesis
    using b update_averages_kept [OF _ K(2) ok, of now c r w act s'] u
    by (cases dec) (auto simp: avg_inv_def update_pemt [OF u ok])
qed

text \<open>A signal's history: updates at given times, cpus, weights and running flags.\<close>

type_synonym update_arg = "u64 \<times> cpu \<times> ulong \<times> bool"

fun updates :: "kapi \<Rightarrow> avg_ref \<Rightarrow> update_arg list \<Rightarrow> kstate \<Rightarrow> kstate option" where
  "updates K r [] s = Some s"
| "updates K r ((now, c, w, act) # us) s = do { (d, s) \<leftarrow> raw_update_load_avg K now c r w act s; updates K r us s }"

lemma updates_inv:
  assumes "updates K r us s = Some s'" and K: "mul_shr_ok (mul_u64_u32_shr K)" "scales_ok K"
    and "ratios_ok s" "avg_inv (pkshin_pemt_enabled s) 47770 4963 (get_avg r s)"
  shows "ratios_ok s' \<and> avg_inv (pkshin_pemt_enabled s') 47770 4963 (get_avg r s')"
  using assms(1,4,5)
proof (induction us arbitrary: s)
  case (Cons u us)
  obtain now c w act where u: "u = (now, c, w, act)" by (cases u)
  obtain d t where t: "raw_update_load_avg K now c r w act s = Some (d, t)" and rest: "updates K r us t = Some s'"
    using Cons(2) unfolding u by (auto split: bind_splits)
  show ?case
    using Cons(1) [OF rest] update_ratios_ok [OF t K(2) Cons(3)] update_inv_any [OF t K Cons(3,4)] by simp
qed simp

section \<open>Termination of the walk to the leaf\<close>

text \<open>A rank that falls from a group entity to the current entity of its runqueue.\<close>

definition curr_ranked :: "(se_id \<Rightarrow> nat) \<Rightarrow> kstate \<Rightarrow> bool" where
  "curr_ranked rank s \<longleftrightarrow> (\<forall>i g j. my_q (se_at s i) = Some g \<longrightarrow> curr (cfs_at s g) = Some j \<longrightarrow> rank j < rank i)"

lemma leaf_ratio_defined: "curr_ranked rank s \<Longrightarrow> leaf_ratio s i \<noteq> None"
proof (induction i rule: measure_induct_rule [of rank])
  case (less i)
  then show ?case
    by (subst leaf_ratio.simps) (auto split: option.splits simp: curr_ranked_def)
qed

text \<open>The leaf: follow the current entities down.\<close>

inductive leads_to :: "kstate \<Rightarrow> se_id \<Rightarrow> se_id \<Rightarrow> bool" for s where
  here: "leads_to s i i"
| down: "my_q (se_at s i) = Some g \<Longrightarrow> curr (cfs_at s g) = Some j \<Longrightarrow> leads_to s j k \<Longrightarrow> leads_to s i k"

text \<open>
  Where the walk ends: at a task, whose own ratio it yields, or at a group whose runqueue runs nothing,
  with the ratio recorded in the runqueue.
\<close>

definition leaf_at :: "kstate \<Rightarrow> se_id \<Rightarrow> u32 \<Rightarrow> bool" where
  "leaf_at s k ratio \<longleftrightarrow> (case my_q (se_at s k) of
       None \<Rightarrow> ratio = memory_cycle_ratio (se_avg (se_at s k))
     | Some g \<Rightarrow> curr (cfs_at s g) = None \<and> ratio = memory_cycle_ratio (cfs_avg (cfs_at s g)))"

lemma leaf_ratio_at: "leads_to s i k \<Longrightarrow> leaf_at s k ratio \<Longrightarrow> leaf_ratio s i = Some ratio"
proof (induction rule: leads_to.induct)
  case (here i)
  then show ?case by (subst leaf_ratio.simps) (auto simp: leaf_at_def split: option.splits)
next
  case (down i g j k)
  then show ?case by (subst leaf_ratio.simps) simp
qed

lemma leaf_reached: "curr_ranked rank s \<Longrightarrow> \<exists>k ratio. leads_to s i k \<and> leaf_at s k ratio"
proof (induction i rule: measure_induct_rule [of rank])
  case (less i)
  show ?case
  proof (cases "\<exists>g j. my_q (se_at s i) = Some g \<and> curr (cfs_at s g) = Some j")
    case True
    then obtain g j where gj: "my_q (se_at s i) = Some g" "curr (cfs_at s g) = Some j" by blast
    then have "rank j < rank i" using less.prems by (simp add: curr_ranked_def)
    from less.IH [OF this less.prems] show ?thesis using leads_to.down [OF gj] by blast
  next
    case False
    then have "\<exists>ratio. leaf_at s i ratio" by (cases "my_q (se_at s i)") (auto simp: leaf_at_def)
    then show ?thesis using leads_to.here by blast
  qed
qed

lemma stamped_ctx: "update_ctx K c w act pe x (stamped now y sa) = update_ctx K c w act pe x sa"
  by (simp add: update_ctx_def stamped_def set_ratio_def)

lemma group_update:
  assumes g: "\<not> entity_is_task (se_at s i)" "pkshin_pemt_enabled s" "leaf_ratio s i = Some ratio"
    and d: "0 \<le> sint (now - last_update_time (get_avg (SeAvg i) s))" "drop_bit 10 (now - last_update_time (get_avg (SeAvg i) s)) \<noteq> 0"
    and a: "accumulate (mul_u64_u32_shr K) (update_ctx K c w True True ratio (get_avg (SeAvg i) s))
        (drop_bit 10 (now - last_update_time (get_avg (SeAvg i) s))) (stamped now ratio (get_avg (SeAvg i) s), None) = (dec, st)"
  shows "\<exists>s'. raw_update_load_avg K now c (SeAvg i) w True s = Some (dec, s') \<and> get_avg (SeAvg i) s' = fst st
    \<and> (\<forall>q. q \<noteq> SeAvg i \<longrightarrow> get_avg q s' = get_avg q s)"
proof -
  define s1 where "s1 = upd_avg (SeAvg i) (set_ratio ratio) s"
  define s2 where "s2 = upd_avg (SeAvg i) (\<lambda>sa. sa\<lparr>last_update_time := now\<rparr>) s1"
  have ch: "choose_ratio K (SeAvg i) True s = Some (ratio, s1)"
    using g by (simp add: choose_ratio_def s1_def)
  have busy: "account_busy now c (SeAvg i) True d s1 = Some s1" for d
  proof -
    have "\<not> entity_is_task (se_at s1 i)"
      using g(1) by (simp add: s1_def entity_is_task_def upd_avg.simps upd_defs)
    then show ?thesis by (simp add: account_busy_def)
  qed
  have av: "get_avg (SeAvg i) s2 = stamped now ratio (get_avg (SeAvg i) s)"
    by (simp add: s2_def s1_def get_avg_upd_avg stamped_def del: get_avg.simps)
  have sg: "get_signals (SeAvg i) s2 = (stamped now ratio (get_avg (SeAvg i) s), None)"
    using av by simp
  have pe: "pkshin_pemt_enabled s1" using g(2) by (simp add: s1_def)
  have "raw_update_load_avg K now c (SeAvg i) w True s = Some (dec, set_signals (SeAvg i) st s2)"
    using d a by (simp add: raw_update_load_avg_def Let_def ch busy sg av pe stamped_ctx
        del: get_avg.simps get_signals.simps flip: s2_def)
  moreover have "get_avg q (set_signals (SeAvg i) st s2) = get_avg q s" if "q \<noteq> SeAvg i" for q
    using that by (simp add: set_signals_other s2_def s1_def get_avg_upd_avg)
  ultimately show ?thesis by (intro exI conjI) (auto simp: set_signals_get simp del: get_avg.simps)
qed

text \<open>An update fails only where the code has no defined behaviour.\<close>

lemma update_defined_no_pmu:
  assumes "curr_ranked rank s" and "\<not> pkshin_pemt_enabled s \<or> \<not> act \<or> (\<forall>i. r = SeAvg i \<longrightarrow> \<not> entity_is_task (se_at s i))"
    and "c < length (exec_time s)" "c < length (exec_clear_time s)"
  shows "raw_update_load_avg K now c r w act s \<noteq> None"
proof -
  obtain f where leaf: "leaf_ratio s i = Some (f i)" for i
    using that [of "\<lambda>i. the (leaf_ratio s i)"] leaf_ratio_defined [OF assms(1)] by simp
  have ch: "\<exists>x s1. choose_ratio K r act s = Some (x, s1) \<and> exec_time s1 = exec_time s \<and> exec_clear_time s1 = exec_clear_time s"
    using assms(2) by (cases r; subst choose_ratio_def) (auto simp: Let_def leaf split: option.splits)
  show ?thesis
  proof (cases "sint (now - last_update_time (get_avg r s)) < 0 \<or> drop_bit 10 (now - last_update_time (get_avg r s)) = 0")
    case True
    then show ?thesis by (auto simp: raw_update_load_avg_def Let_def)
  next
    case False
    obtain x s1 where s1: "choose_ratio K r act s = Some (x, s1)" "exec_time s1 = exec_time s" "exec_clear_time s1 = exec_clear_time s"
      using ch by blast
    have "\<exists>s2. account_busy now c r act d s1 = Some s2" for d
      using assms(3,4) s1(2,3) by (cases r) (auto simp: account_busy_def Let_def)
    then show ?thesis
      using False s1(1) by (auto simp: raw_update_load_avg_def Let_def case_prod_beta split: bind_splits)
  qed
qed


lemma update_core_below:
  assumes u: "raw_update_load_avg K now c r w act s = Some (dec, s')"
    and K: "mul_shr_ok (mul_u64_u32_shr K)" "scales_ok K" and ok: "ratios_ok s" and pe: "pkshin_pemt_enabled s"
    and b: "sums_bounded 47770 4963 (get_avg r s)" and le: "core_below_util (get_avg r s)"
  shows "core_below_util (get_avg r s') \<and> (dec \<longrightarrow> core_util_avg (get_avg r s') \<le> util_avg (get_avg r s')
    \<and> core_util_fast_avg (get_avg r s') \<le> util_fast_avg (get_avg r s'))"
proof (rule update_closed [OF u K(2) ok])
  assume "dec = False" "\<forall>q. get_avg q s' = (if q = r \<and> sint (now - last_update_time (get_avg r s)) < 0
        then (get_avg q s)\<lparr>last_update_time := now\<rparr> else get_avg q s)"
  then show ?thesis using le by simp
next
  fix C x rl st s1
  assume C: "ctx_ok C" "pemt C = pkshin_pemt_enabled s"
    and a: "accumulate (mul_u64_u32_shr K) C (drop_bit 10 (now - last_update_time (get_avg r s))) (stamped now x (get_avg r s), rl) = (dec, st)"
    and g: "get_avg r s' = fst st"
  have "core_below_util (fst st)"
    using accumulate_core_below_util [where sa = "stamped now x (get_avg r s)" and rl = rl, OF K(1) C(1) _ unat_delta_us, of "now - last_update_time (get_avg r s)"] pe b le
    by (simp add: a C(2))
  moreover have "core_util_avg (fst st) \<le> util_avg (fst st) \<and> core_util_fast_avg (fst st) \<le> util_fast_avg (fst st)" if dec "core_below_util (fst st)"
  proof -
    obtain st' where st': "st = acc_averages C st'"
      using a \<open>dec\<close> by (metis accumulate_cross accumulate_inside prod.inject)
    have p: "pemt C" using C(2) pe by simp
    show ?thesis
      using \<open>core_below_util (fst st)\<close> unfolding st' averages_sums core_below_util_def
      by (simp add: acc_averages_def Let_def case_prod_beta p word_le_nat_alt unat_div div_le_mono)
  qed
  ultimately show ?thesis by (simp add: g)
qed


lemma update_sums:
  assumes u: "raw_update_load_avg K now c r w act s = Some (dec, s')"
    and K: "mul_shr_ok (mul_u64_u32_shr K)" "scales_ok K" and ok: "ratios_ok s"
    and b: "sums_bounded 47770 4963 (get_avg r s)"
  shows "sums_bounded 47770 4963 (get_avg r s')"
proof (rule update_closed [OF u K(2) ok])
  fix C x rl st s1
  assume "ctx_ok C" "get_avg r s' = fst st"
    and "accumulate (mul_u64_u32_shr K) C (drop_bit 10 (now - last_update_time (get_avg r s))) (stamped now x (get_avg r s), rl) = (dec, st)"
  then show ?thesis
    using any_gap.accumulate_sums(1) [OF K(1) _ unat_delta_us TrueI TrueI, of C "stamped now x (get_avg r s)" "now - last_update_time (get_avg r s)" rl] b
    by simp
qed (use b in simp)

text \<open>The averages of the core share lie below those of the utilisation, slow and fast.\<close>

definition core_avg_below :: "sched_avg \<Rightarrow> bool" where
  "core_avg_below sa \<longleftrightarrow> unat (core_util_avg sa) \<le> unat (util_avg sa) \<and> unat (core_util_fast_avg sa) \<le> unat (util_fast_avg sa)"

lemma core_avg_below_simps [simp]:
  "core_avg_below (sa\<lparr>last_update_time := t\<rparr>) = core_avg_below sa"
  "core_avg_below (stamped now x sa) = core_avg_below sa"
  by (simp_all add: core_avg_below_def stamped_def set_ratio_def)

lemma accumulate_kept:
  assumes "accumulate m C d (sa, rl) = (False, st)"
  shows "core_avg_below (fst st) = core_avg_below sa"
proof (cases "d + ucast (period_contrib sa) \<ge> 1024")
  case True
  then show ?thesis using assms by (simp add: accumulate_cross)
next
  case False
  then have "st = acc_tail C d (sa, rl)" using assms by (simp add: accumulate_inside)
  then show ?thesis by (simp add: core_avg_below_def tail_averages)
qed

lemma update_core_kept:
  assumes "raw_update_load_avg K now c r w act s = Some (False, s')" "scales_ok K" "ratios_ok s"
  shows "core_avg_below (get_avg r s') = core_avg_below (get_avg r s)"
  by (rule update_closed [OF assms]) (auto simp: accumulate_kept)

lemma updates_core_below:
  assumes "updates K r us s = Some s'" and K: "mul_shr_ok (mul_u64_u32_shr K)" "scales_ok K"
    and "ratios_ok s" "pkshin_pemt_enabled s" "sums_bounded 47770 4963 (get_avg r s)"
    and "core_below_util (get_avg r s)" "core_avg_below (get_avg r s)"
  shows "core_below_util (get_avg r s') \<and> core_avg_below (get_avg r s')"
  using assms(1,4-)
proof (induction us arbitrary: s)
  case (Cons u us)
  obtain now c w act where u: "u = (now, c, w, act)" by (cases u)
  obtain d t where t: "raw_update_load_avg K now c r w act s = Some (d, t)" and rest: "updates K r us t = Some s'"
    using Cons.prems(1) unfolding u by (auto split: bind_splits)
  have "core_below_util (get_avg r t) \<and> (d \<longrightarrow> core_avg_below (get_avg r t))"
    using update_core_below [OF t K Cons.prems(2-5)] by (simp add: core_avg_below_def word_le_nat_alt)
  moreover have "\<not> d \<Longrightarrow> core_avg_below (get_avg r t)"
    using update_core_kept [OF _ K(2) Cons.prems(2), of now c r w act t] t Cons.prems(6) by simp
  ultimately show ?case
    using update_ratios_ok [OF t K(2) Cons.prems(2)] update_pemt [OF t Cons.prems(2)] update_sums [OF t K Cons.prems(2,4)] Cons.prems(3)
    by (intro Cons.IH [OF rest]) auto
qed simp

section \<open>Concrete updates\<close>

text \<open>A task that runs without an update for 346 periods and 1023 microseconds, from a blank signal.\<close>

definition full_ctx :: upd_ctx where
  "full_ctx = \<lparr>scale_freq = 1024, scale_cpu = 1024, deboost = deboost_freq 1024 0, load_weight_of = 1024,
     running = True, pemt = False, mem_ratio = 0\<rparr>"

lemma long_gap_values:
  "periods_of 355327 0 = 345" "remainder_of 355327 0 = 1023"
  "compute_runnable_contrib mul_shr_ref 345 = 47742" "compute_runnable_contrib_fast mul_shr_ref 345 = 4959"
  "decay_load mul_shr_ref 1048576 346 = 583" "decay_fast_load mul_shr_ref 1048576 346 = 0"
  by (simp_all add: periods_of_def remainder_of_def compute_runnable_contrib_def compute_runnable_contrib_fast_def
      decay_load_def runnable_avg_yN_inv_def decay_fast_load_def runnable_avg_fast_yN_inv_def mul_shr_ref_def)

lemma long_gap_accumulate:
  assumes "period_contrib sa = 0" "util_sum sa = 0" "util_fast_sum sa = 0"
  shows "fst (accumulate mul_shr_ref full_ctx 355327 (sa, rl))"
    and "util_avg (fst (snd (accumulate mul_shr_ref full_ctx 355327 (sa, rl)))) = 1045"
    and "util_fast_avg (fst (snd (accumulate mul_shr_ref full_ctx 355327 (sa, rl)))) = 1235"
  by (simp_all add: assms accumulate_cross full_ctx_def long_gap_values scaled32_def cap_scale_def inc_util_def add32_def)

lemma blank_update:
  "raw_update_load_avg plain_api now 0 (SeAvg 0) 1024 True zero_state =
     (if sint now < 0 then Some (False, upd_avg (SeAvg 0) (\<lambda>sa. sa\<lparr>last_update_time := now\<rparr>) zero_state)
      else if drop_bit 10 now = 0 then Some (False, zero_state)
      else let r = accumulate mul_shr_ref full_ctx (drop_bit 10 now) (zero_avg\<lparr>last_update_time := now\<rparr>, None)
           in Some (fst r, set_signals (SeAvg 0) (snd r) (upd_avg (SeAvg 0) (\<lambda>sa. sa\<lparr>last_update_time := now\<rparr>) zero_state)))"
  by (simp add: raw_update_load_avg_def Let_def choose_ratio_def account_busy_def zero_state_def
      upd_avg.simps upd_defs update_ctx_def zero_se_def zero_avg_def plain_api_def full_ctx_def case_prod_beta)

lemma blank_long_gap:
  "\<exists>s. raw_update_load_avg plain_api 363854848 0 (SeAvg 0) 1024 True zero_state = Some (True, s)
     \<and> util_avg (get_avg (SeAvg 0) s) = 1045 \<and> util_fast_avg (get_avg (SeAvg 0) s) = 1235"
  unfolding blank_update
  using long_gap_accumulate [of "zero_avg\<lparr>last_update_time := 363854848\<rparr>" None]
  by (auto simp: zero_avg_def set_signals_get Let_def simp del: get_avg.simps)

lemma blank_ok:
  "mul_shr_ok (mul_u64_u32_shr plain_api)" "scales_ok plain_api" "ratios_ok zero_state"
  "avg_inv pe A F (get_avg r zero_state)"
proof -
  have z: "get_avg q zero_state = zero_avg" for q
    by (cases q) (simp_all add: zero_state_def zero_se_def zero_cfs_def)
  show "mul_shr_ok (mul_u64_u32_shr plain_api)" "scales_ok plain_api"
    by (simp_all add: plain_api_def scales_ok_def)
  show "ratios_ok zero_state" by (simp add: ratios_ok_def z) (simp add: zero_avg_def)
  show "avg_inv pe A F (get_avg r zero_state)"
    by (simp add: z avg_inv_def avg_bounded_def averages_le_def sums_bounded_def pemt_sums_bounded_def) (simp add: zero_avg_def)
qed

section \<open>Properties\<close>

text \<open>C3: Whatever updates a signal sees (any times, weights, cpus, running flags, gaps of any length),
  its utilisation average is at most \<open>1046\<close> (half-life 32) and at most \<open>1236\<close> (half-life 3), and while the
  memory tracking is enabled so are its core and memory averages, slow and fast. The 32-bit sums under these averages stay at most \<open>48793 * 1024\<close> (slow)
  and \<open>5986 * 1024\<close> (fast). The signal starts within the invariant, as a blank one does, and frequency and cpu scales are at most 1024.\<close>

theorem util_bounded_over_history:
  assumes "updates K r us s = Some s'"
    and "mul_shr_ok (mul_u64_u32_shr K)" "scales_ok K"
    and "ratios_ok s" "avg_inv (pkshin_pemt_enabled s) 47770 4963 (get_avg r s)"
  shows "unat (util_avg (get_avg r s')) \<le> 1046 \<and> unat (util_fast_avg (get_avg r s')) \<le> 1236
    \<and> unat (util_sum (get_avg r s')) \<le> 49964032 \<and> unat (util_fast_sum (get_avg r s')) \<le> 6129664
    \<and> (pkshin_pemt_enabled s' \<longrightarrow>
        unat (core_util_avg (get_avg r s')) \<le> 1046 \<and> unat (memory_util_avg (get_avg r s')) \<le> 1046
        \<and> unat (core_util_fast_avg (get_avg r s')) \<le> 1236 \<and> unat (memory_util_fast_avg (get_avg r s')) \<le> 1236
        \<and> unat (core_util_sum (get_avg r s')) \<le> 49964032 \<and> unat (memory_util_sum (get_avg r s')) \<le> 49964032
        \<and> unat (core_util_fast_sum (get_avg r s')) \<le> 6129664 \<and> unat (memory_util_fast_sum (get_avg r s')) \<le> 6129664)"
proof -
  have "avg_inv (pkshin_pemt_enabled s') 47770 4963 (get_avg r s')"
    using updates_inv [OF assms] by simp
  then show ?thesis
    by (auto simp: avg_inv_def averages_le_def avg_bounded_def sums_bounded_def pemt_sums_bounded_def sum_cap_def simp del: get_avg.simps)
qed

theorem util_bounded_over_history_witness:
  "\<exists>s'. updates plain_api (SeAvg 0) [(363854848, 0, 1024, True)] zero_state = Some s' \<and> unat (util_avg (get_avg (SeAvg 0) s')) \<le> 1046"
proof -
  obtain s' where s': "updates plain_api (SeAvg 0) [(363854848, 0, 1024, True)] zero_state = Some s'"
    using blank_long_gap by (auto simp del: get_avg.simps)
  then show ?thesis using util_bounded_over_history [OF s' blank_ok] by blast
qed

text \<open>As long as no update spans 31 periods or more, the averages stay within the capacity scale: at
  most 1024, as the documentation of \<open>sched_avg\<close> promises.\<close>

theorem util_within_capacity:
  assumes "raw_update_load_avg K now c r w act s = Some (dec, s')"
    and "mul_shr_ok (mul_u64_u32_shr K)" "scales_ok K" "ratios_ok s"
    and "gap_us now (get_avg r s) < 31744"
    and "avg_inv (pkshin_pemt_enabled s) 46765 3940 (get_avg r s)"
  shows "unat (util_avg (get_avg r s')) \<le> 1024 \<and> unat (util_fast_avg (get_avg r s')) \<le> 1024
    \<and> avg_inv (pkshin_pemt_enabled s') 46765 3940 (get_avg r s')"
  using update_inv_short [OF assms] by (simp add: avg_inv_def averages_le_def)

theorem util_within_capacity_witness:
  "\<exists>dec s'. raw_update_load_avg plain_api 30000000 0 (SeAvg 0) 1024 True zero_state = Some (dec, s')
     \<and> unat (util_avg (get_avg (SeAvg 0) s')) \<le> 1024"
proof -
  obtain dec s' where u: "raw_update_load_avg plain_api 30000000 0 (SeAvg 0) 1024 True zero_state = Some (dec, s')"
    by (simp add: blank_update Let_def)
  have "gap_us 30000000 (get_avg (SeAvg 0) zero_state) < 31744"
    by (simp add: gap_us_def zero_defs)
  then show ?thesis using u util_within_capacity [OF u blank_ok(1-3) _ blank_ok(4)] by blast
qed

text \<open>Beyond that the promise fails: a task that runs for 346 periods between two updates gets a
  \<open>util_avg\<close> of 1045 and a \<open>util_fast_avg\<close> of 1235, above \<open>SCHED_CAPACITY_SCALE\<close>, because
  \<open>LOAD_AVG_MAX\<close> already counts the period in progress.\<close>

theorem util_exceeds_capacity:
  "\<exists>s. raw_update_load_avg plain_api 363854848 0 (SeAvg 0) 1024 True zero_state = Some (True, s)
     \<and> util_avg (get_avg (SeAvg 0) s) > SCHED_CAPACITY_SCALE \<and> util_fast_avg (get_avg (SeAvg 0) s) > SCHED_CAPACITY_SCALE"
  using blank_long_gap by force

text \<open>C25: While the memory tracking is enabled, the core-bound share of a signal never exceeds its utilisation: through any
  history of updates the core sums stay at most the utilisation sums and the core averages at most
  the utilisation averages, slow and fast. Nothing is claimed of updates with the tracking off, which
  decay the utilisation and leave the core share as it is.\<close>

theorem core_share_below_util:
  assumes "updates K r us s = Some s'"
    and "mul_shr_ok (mul_u64_u32_shr K)" "scales_ok K" "ratios_ok s" "pkshin_pemt_enabled s"
    and "sums_bounded 47770 4963 (get_avg r s)" "core_below_util (get_avg r s)" "core_avg_below (get_avg r s)"
  shows "unat (core_util_sum (get_avg r s')) \<le> unat (util_sum (get_avg r s'))
    \<and> unat (core_util_fast_sum (get_avg r s')) \<le> unat (util_fast_sum (get_avg r s'))
    \<and> unat (core_util_avg (get_avg r s')) \<le> unat (util_avg (get_avg r s'))
    \<and> unat (core_util_fast_avg (get_avg r s')) \<le> unat (util_fast_avg (get_avg r s'))"
  using updates_core_below [OF assms] by (simp add: core_below_util_def core_avg_below_def)

definition pemt_state :: kstate where
  "pemt_state = zero_state\<lparr>pkshin_pemt_enabled := True, se_at := (\<lambda>_. zero_se\<lparr>my_q := Some 1\<rparr>)\<rparr>"

theorem core_share_below_util_witness:
  "\<exists>s'. updates plain_api (SeAvg 0) [(3000000, 0, 1024, True)] pemt_state = Some s'
     \<and> unat (core_util_avg (get_avg (SeAvg 0) s')) \<le> unat (util_avg (get_avg (SeAvg 0) s'))"
proof -
  have "raw_update_load_avg plain_api 3000000 0 (SeAvg 0) 1024 True pemt_state \<noteq> None"
    by (rule update_defined_no_pmu [of "\<lambda>_. 0"]) (simp_all add: curr_ranked_def pemt_state_def zero_defs entity_is_task_def)
  then obtain s' where u: "updates plain_api (SeAvg 0) [(3000000, 0, 1024, True)] pemt_state = Some s'"
    by auto
  have z: "get_avg q pemt_state = zero_avg" for q
    by (cases q) (simp_all add: pemt_state_def zero_state_def zero_se_def zero_cfs_def)
  have "ratios_ok pemt_state" by (simp add: ratios_ok_def z) (simp add: zero_avg_def)
  moreover have "sums_bounded 47770 4963 zero_avg" "core_below_util zero_avg" "core_avg_below zero_avg"
    by (simp_all add: sums_bounded_def core_below_util_def core_avg_below_def zero_avg_def)
  moreover have "pkshin_pemt_enabled pemt_state" by (simp add: pemt_state_def)
  ultimately show ?thesis
    using u core_share_below_util [OF u blank_ok(1,2)] by (auto simp: z simp del: get_avg.simps updates.simps)
qed

text \<open>C31: With the memory tracking enabled, an update of a running group entity returns and is weighed by the ratio of the leaf that
  runs below it, however deep: the chain of current entities ends, in a well-founded hierarchy, at one task or at one group
  that runs nothing, and the entity's new signal is the accrual of the elapsed time with exactly
  that leaf's memory cycle ratio, which the entity records; no other signal changes. The elapsed time is at least one microsecond
  (1024 nanoseconds), below which an update does nothing.\<close>

theorem group_update_defined:
  assumes "curr_ranked rank s" "\<not> entity_is_task (se_at s i)" "pkshin_pemt_enabled s"
    and "0 \<le> sint (now - last_update_time (get_avg (SeAvg i) s))" "drop_bit 10 (now - last_update_time (get_avg (SeAvg i) s)) \<noteq> 0"
  shows "(\<exists>k ratio. leads_to s i k \<and> leaf_at s k ratio)
    \<and> (\<forall>k ratio. leads_to s i k \<and> leaf_at s k ratio \<longrightarrow>
        (\<exists>dec st s'. raw_update_load_avg K now c (SeAvg i) w True s = Some (dec, s')
          \<and> accumulate (mul_u64_u32_shr K) (update_ctx K c w True True ratio (get_avg (SeAvg i) s))
              (drop_bit 10 (now - last_update_time (get_avg (SeAvg i) s))) (stamped now ratio (get_avg (SeAvg i) s), None) = (dec, st)
          \<and> get_avg (SeAvg i) s' = fst st \<and> memory_cycle_ratio (get_avg (SeAvg i) s') = ratio
          \<and> (\<forall>q. q \<noteq> SeAvg i \<longrightarrow> get_avg q s' = get_avg q s)))"
proof (intro conjI allI impI)
  show "\<exists>k ratio. leads_to s i k \<and> leaf_at s k ratio" by (rule leaf_reached [OF assms(1)])
  fix k ratio
  assume "leads_to s i k \<and> leaf_at s k ratio"
  then have leaf: "leaf_ratio s i = Some ratio" using leaf_ratio_at by blast
  obtain dec st where a: "accumulate (mul_u64_u32_shr K) (update_ctx K c w True True ratio (get_avg (SeAvg i) s))
      (drop_bit 10 (now - last_update_time (get_avg (SeAvg i) s))) (stamped now ratio (get_avg (SeAvg i) s), None) = (dec, st)"
    by (rule prod.exhaust)
  have "memory_cycle_ratio (fst st) = ratio"
    using accumulate_ratio [of _ _ _ "stamped now ratio (get_avg (SeAvg i) s)" None, unfolded stamped_simps] a by (metis snd_conv)
  with a show "\<exists>dec st s'. raw_update_load_avg K now c (SeAvg i) w True s = Some (dec, s')
          \<and> accumulate (mul_u64_u32_shr K) (update_ctx K c w True True ratio (get_avg (SeAvg i) s))
              (drop_bit 10 (now - last_update_time (get_avg (SeAvg i) s))) (stamped now ratio (get_avg (SeAvg i) s), None) = (dec, st)
          \<and> get_avg (SeAvg i) s' = fst st \<and> memory_cycle_ratio (get_avg (SeAvg i) s') = ratio
          \<and> (\<forall>q. q \<noteq> SeAvg i \<longrightarrow> get_avg q s' = get_avg q s)"
    using group_update [OF assms(2,3) leaf assms(4,5) a] by fastforce
qed

text \<open>Entity 0 owns runqueue 1, where task 2 runs with the ratio 300.\<close>

definition nested_state :: kstate where
  "nested_state = zero_state\<lparr>pkshin_pemt_enabled := True,
     se_at := (\<lambda>j. zero_se\<lparr>my_q := if j = 0 then Some 1 else None,
       se_avg := zero_avg\<lparr>memory_cycle_ratio := if j = 2 then 300 else 0\<rparr>\<rparr>),
     cfs_at := (\<lambda>_. zero_cfs\<lparr>curr := Some 2\<rparr>)\<rparr>"

theorem group_update_defined_witness:
  "\<exists>dec s'. raw_update_load_avg plain_api 3000000 0 (SeAvg 0) 1024 True nested_state = Some (dec, s')
     \<and> memory_cycle_ratio (get_avg (SeAvg 0) s') = 300"
proof -
  have "curr_ranked (\<lambda>j. if j = 0 then 1 else 0) nested_state" "\<not> entity_is_task (se_at nested_state 0)"
    "pkshin_pemt_enabled nested_state" "last_update_time (get_avg (SeAvg 0) nested_state) = 0"
    by (simp_all add: curr_ranked_def nested_state_def zero_se_def zero_cfs_def zero_avg_def entity_is_task_def)
  moreover have "leads_to nested_state 0 2"
    by (rule leads_to.down [of _ _ 1 2]) (simp_all add: nested_state_def zero_se_def zero_cfs_def leads_to.here)
  moreover have "leaf_at nested_state 2 300"
    by (simp add: leaf_at_def nested_state_def zero_se_def)
  ultimately show ?thesis
    using group_update_defined [of "\<lambda>j. if j = 0 then 1 else 0" nested_state 0 3000000 plain_api 0 1024]
    by (simp del: get_avg.simps split_paired_Ex) blast
qed

end
