(* ===== verification/Schedutil.thy ===== *)
theory Schedutil
  imports Sched_Types
begin

text \<open>
  The schedutil frequency governor with the memory-aware extension, \<open>kernel/sched/cpufreq_schedutil.c\<close>
  lines 40--625: rate limits, the choice of a frequency from the utilisation signals, the iowait boost,
  the per-policy and shared update hooks, and the hand-over to the kernel thread that calls the driver.
  A division by zero is undefined and yields \<open>None\<close>.
\<close>

type_synonym pol_id = nat
type_synonym sgp_id = nat
type_synonym tun_id = nat

section \<open>State\<close>

text \<open>The fields of \<open>struct cpufreq_policy\<close> the governor uses.\<close>

record cpufreq_policy =
  max_freq :: u32
  transition_latency :: u32
  cur_freq :: u32
  policy_cpus :: "cpu list"
  policy_is_shared :: bool
  fast_switch_enabled :: bool
  governor_data :: "sgp_id option"

text \<open>\<open>struct gov_attr_set\<close>: the policies that share the tunables and their count.\<close>

record gov_attr_set =
  policy_list :: "sgp_id list"
  usage_count :: nat

record sugov_tunables =
  attr_set :: gov_attr_set
  iowait_boost_max :: ulong
  up_rate_limit_us :: u32
  down_rate_limit_us :: u32
  capacity_margin :: u32

text \<open>
  Of the irq work, the kthread work and the thread, the model keeps whether each is pending or exists;
  queueing pending work again has no effect.
\<close>

record sugov_policy =
  sg_pol :: pol_id
  sg_tunables :: tun_id
  last_freq_update_time :: u64
  min_rate_limit_ns :: s64
  up_rate_delay_ns :: s64
  down_rate_delay_ns :: s64
  next_freq :: u32
  cached_raw_freq :: u32
  irq_pending :: bool
  work_pending :: bool
  sg_thread :: bool
  work_in_progress :: bool
  need_freq_update :: bool

record sugov_cpu =
  sg_policy :: sgp_id
  iowait_boost :: ulong
  last_update :: u64
  sg_util :: ulong
  sg_max :: ulong
  sg_flags :: u32
  saved_idle_calls :: ulong

datatype hook = UpdateSingle | UpdateShared

record gov_state =
  kern :: kstate
  policy_at :: "pol_id \<Rightarrow> cpufreq_policy"
  sgp_at :: "sgp_id \<Rightarrow> sugov_policy"
  tun_at :: "tun_id \<Rightarrow> sugov_tunables"
  sgc_at :: "cpu \<Rightarrow> sugov_cpu"
  hook_at :: "cpu \<Rightarrow> hook option"
  live_sgp :: "sgp_id list"
  live_tun :: "tun_id list"
  global_tunables :: "tun_id option"
  tunables_locked :: bool
  driver_calls :: "(pol_id \<times> u32) list"
  pkshin_util_track :: u32
  pkshin_core_util_track :: u32
  pkshin_memory_util_track :: u32
  pkshin_memory_track :: u32
  pkshin_track_enabled :: bool
  pkshin_freq_enabled :: bool
  pkshin_overhead_enabled :: bool
  pkshin_perf_enabled :: bool
  total_idle_time_sum :: u64
  total_busy_time_sum :: u64
  total_idle_cycle_sum :: u64
  total_busy_cycle_sum :: u64
  total_mSchedutil_time :: u64
  total_governor_time :: u64

text \<open>\<open>work_core\<close>: the one cpu whose load decides the frequency of a shared policy.\<close>

definition work_core :: cpu where
  "work_core = 3"

abbreviation (input) UINT_MAX :: u32 where "UINT_MAX \<equiv> 4294967295"
abbreviation (input) SCHED_CPUFREQ_DL :: u32 where "SCHED_CPUFREQ_DL \<equiv> 2"
abbreviation (input) SCHED_CPUFREQ_IOWAIT :: u32 where "SCHED_CPUFREQ_IOWAIT \<equiv> 4"

text \<open>
  What the governor calls outside the repository: the scales of the scheduler's interface, whether the
  architecture's signals are frequency invariant, the driver's resolution of a frequency, the ageing of
  the real-time average, the averaging period's setting and the length of a tick.
\<close>

record gapi =
  kern_api :: kapi
  arch_scale_freq_invariant :: bool
  cpufreq_driver_resolve_freq :: "cpufreq_policy \<Rightarrow> u32 \<Rightarrow> u32"
  cpufreq_driver_target :: "u32 \<Rightarrow> cpufreq_policy \<Rightarrow> cpufreq_policy"
  cpufreq_policy_apply_limits :: "cpufreq_policy \<Rightarrow> cpufreq_policy"
  sched_avg_update :: "rq \<Rightarrow> rq"
  sysctl_sched_time_avg :: u32
  tick_nsec :: int

definition upd_sgp :: "sgp_id \<Rightarrow> (sugov_policy \<Rightarrow> sugov_policy) \<Rightarrow> gov_state \<Rightarrow> gov_state" where
  "upd_sgp i f s = s\<lparr>sgp_at := (sgp_at s)(i := f (sgp_at s i))\<rparr>"

definition upd_pol :: "pol_id \<Rightarrow> (cpufreq_policy \<Rightarrow> cpufreq_policy) \<Rightarrow> gov_state \<Rightarrow> gov_state" where
  "upd_pol i f s = s\<lparr>policy_at := (policy_at s)(i := f (policy_at s i))\<rparr>"

definition upd_tun :: "tun_id \<Rightarrow> (sugov_tunables \<Rightarrow> sugov_tunables) \<Rightarrow> gov_state \<Rightarrow> gov_state" where
  "upd_tun i f s = s\<lparr>tun_at := (tun_at s)(i := f (tun_at s i))\<rparr>"

definition upd_sgc :: "cpu \<Rightarrow> (sugov_cpu \<Rightarrow> sugov_cpu) \<Rightarrow> gov_state \<Rightarrow> gov_state" where
  "upd_sgc i f s = s\<lparr>sgc_at := (sgc_at s)(i := f (sgc_at s i))\<rparr>"

definition upd_kern :: "(kstate \<Rightarrow> kstate) \<Rightarrow> gov_state \<Rightarrow> gov_state" where
  "upd_kern f s = s\<lparr>kern := f (kern s)\<rparr>"

lemmas gov_upd_defs = upd_sgp_def upd_pol_def upd_tun_def upd_sgc_def upd_kern_def

section \<open>Rate limits and commit\<close>

definition sugov_should_update_freq :: "sgp_id \<Rightarrow> u64 \<Rightarrow> gov_state \<Rightarrow> bool \<times> gov_state" where
  "sugov_should_update_freq p time s =
     (let sg = sgp_at s p in
      if work_in_progress sg then (False, s)
      else if need_freq_update sg
      then (True, upd_sgp p (\<lambda>sg. sg\<lparr>need_freq_update := False, next_freq := UINT_MAX\<rparr>) s)
      else (sint (time - last_freq_update_time sg) \<ge> sint (min_rate_limit_ns sg), s))"

definition sugov_up_down_rate_limit :: "sugov_policy \<Rightarrow> u64 \<Rightarrow> u32 \<Rightarrow> bool" where
  "sugov_up_down_rate_limit sg time next_f =
     (let delta_ns = time - last_freq_update_time sg in
      if next_f > next_freq sg \<and> sint delta_ns < sint (up_rate_delay_ns sg) then True
      else if next_f < next_freq sg \<and> sint delta_ns < sint (down_rate_delay_ns sg) then True
      else False)"

text \<open>\<open>cpufreq_driver_fast_switch\<close> is stubbed out by a macro and yields 0, which is \<open>CPUFREQ_ENTRY_INVALID\<close>
  (\<open>~0u\<close>) for no policy, so the fast path records 0 as the current frequency.\<close>

definition sugov_update_commit :: "sgp_id \<Rightarrow> u64 \<Rightarrow> u32 \<Rightarrow> gov_state \<Rightarrow> gov_state" where
  "sugov_update_commit p time next_f s =
     (let sg = sgp_at s p in
      if sugov_up_down_rate_limit sg time next_f then s
      else if next_freq sg = next_f then s
      else let s = upd_sgp p (\<lambda>sg. sg\<lparr>next_freq := next_f, last_freq_update_time := time\<rparr>) s in
        if fast_switch_enabled (policy_at s (sg_pol sg))
        then upd_pol (sg_pol sg) (\<lambda>pol. pol\<lparr>cur_freq := 0\<rparr>) s
        else upd_sgp p (\<lambda>sg. sg\<lparr>work_in_progress := True, irq_pending := True, last_freq_update_time := time\<rparr>) s)"

section \<open>From utilisation to frequency\<close>

definition cfs_avg_of :: "cpu \<Rightarrow> gov_state \<Rightarrow> sched_avg" where
  "cfs_avg_of cpu s = cfs_avg (cfs_at (kern s) (rq_cfs (rq_at (kern s) cpu)))"

text \<open>The denominator of the performance-aware margin: the core part and the frequency-scaled memory part.\<close>

definition scaled_util :: "sched_avg \<Rightarrow> u64 \<Rightarrow> u64" where
  "scaled_util sa scale_freq = core_util_avg sa + drop_bit 10 (memory_util_avg sa * scale_freq)"

definition get_next_freq :: "gapi \<Rightarrow> sgp_id \<Rightarrow> cpu \<Rightarrow> ulong \<Rightarrow> ulong \<Rightarrow> gov_state \<Rightarrow> (u32 \<times> gov_state) option" where
  "get_next_freq G p cpu util mx s =
     (let sg = sgp_at s p;
          policy = policy_at s (sg_pol sg);
          margin = capacity_margin (tun_at s (sg_tunables sg));
          freq = (if arch_scale_freq_invariant G then max_freq policy else cur_freq policy);
          tfreq = (ucast freq :: u64)
      in do {
        margin \<leftarrow>
          (if pkshin_perf_enabled s
           then let sa = cfs_avg_of cpu s;
                    scale_freq = arch_scale_freq_capacity (kern_api G) cpu;
                    d = scaled_util sa scale_freq
                in if d = 0 then None else Some (ucast (ucast (margin * 2) * core_util_avg sa div d) :: u32)
           else Some margin);
        if mx = 0 then None
        else let tfreq = (drop_bit 10 (tfreq * ucast margin) + tfreq) * util div mx;
                 freq = (ucast tfreq :: u32)
             in if freq = cached_raw_freq sg \<and> next_freq sg \<noteq> UINT_MAX then Some (next_freq sg, s)
                else Some (cpufreq_driver_resolve_freq G policy freq,
                           upd_sgp p (\<lambda>sg. sg\<lparr>cached_raw_freq := freq\<rparr>) s)
      })"

definition sched_avg_period :: "gapi \<Rightarrow> u64" where
  "sched_avg_period G = ucast (sysctl_sched_time_avg G) * 1000000 div 2"

text \<open>Lines 312--316: the real-time tasks' share of the capacity.\<close>

definition rt_share :: "gapi \<Rightarrow> rq \<Rightarrow> ulong \<Rightarrow> u64 \<Rightarrow> ulong option" where
  "rt_share G q max_cap time =
     (let delta = time - age_stamp q;
          delta = (if sint delta < 0 then 0 else delta);
          d = sched_avg_period G + delta
      in if d = 0 then None else Some (drop_bit 10 ((rt_avg q div d) * max_cap)))"

text \<open>Lines 337--364: the memory-aware utilisation.\<close>

definition pkshin_util :: "gapi \<Rightarrow> cpu \<Rightarrow> ulong \<Rightarrow> ulong \<Rightarrow> gov_state \<Rightarrow> ulong option" where
  "pkshin_util G cpu max_cap rt s =
     (let sa = cfs_avg_of cpu s;
          margin = (ucast (capacity_margin (tun_at s (sg_tunables (sgp_at s (sg_policy (sgc_at s cpu)))))) :: u64)
      in do {
        margin \<leftarrow>
          (if pkshin_perf_enabled s
           then let d = scaled_util sa (arch_scale_freq_capacity (kern_api G) cpu)
                in if d = 0 then None else Some (margin * 2 * core_util_avg sa div d)
           else Some margin);
        let temp = drop_bit 10 (memory_util_avg sa * margin) + memory_util_avg sa;
        Some (if max_cap > temp
              then let temp = max_cap - temp
                   in if temp > core_util_avg sa
                      then min (max_cap * core_util_avg sa div temp + rt) max_cap
                      else max_cap
              else max_cap)
      })"

text \<open>
  Without WALT \<open>use_pelt()\<close> is true, so what \<open>boosted_cpu_util\<close> returned is overwritten, and so is the
  weighted utilisation: the utilisation is the plain \<open>util_avg\<close>.
\<close>

definition sugov_get_util :: "gapi \<Rightarrow> cpu \<Rightarrow> u64 \<Rightarrow> gov_state \<Rightarrow> (ulong \<times> ulong \<times> gov_state) option" where
  "sugov_get_util G cpu time s =
     (let max_cap = arch_scale_cpu_capacity (kern_api G) cpu;
          s = upd_kern (upd_rq cpu (sched_avg_update G)) s
      in do {
        rt \<leftarrow> rt_share G (rq_at (kern s) cpu) max_cap time;
        let util = min (util_avg (cfs_avg_of cpu s) + rt) max_cap;
        if pkshin_pemt_enabled (kern s)
        then do {
          pk \<leftarrow> pkshin_util G cpu max_cap rt s;
          Some (if pkshin_freq_enabled s then pk else util, max_cap, s)
        }
        else Some (util, max_cap, s)
      })"

section \<open>The iowait boost\<close>

definition boost_max_of :: "cpu \<Rightarrow> gov_state \<Rightarrow> ulong" where
  "boost_max_of c s = iowait_boost_max (tun_at s (sg_tunables (sgp_at s (sg_policy (sgc_at s c)))))"

definition sugov_set_iowait_boost :: "gapi \<Rightarrow> cpu \<Rightarrow> u64 \<Rightarrow> u32 \<Rightarrow> gov_state \<Rightarrow> gov_state" where
  "sugov_set_iowait_boost G c time flags s =
     (if flags AND SCHED_CPUFREQ_IOWAIT \<noteq> 0
      then upd_sgc c (\<lambda>g. g\<lparr>iowait_boost := boost_max_of c s\<rparr>) s
      else if iowait_boost (sgc_at s c) \<noteq> 0
      then if sint (time - last_update (sgc_at s c)) > tick_nsec G
           then upd_sgc c (\<lambda>g. g\<lparr>iowait_boost := 0\<rparr>) s else s
      else s)"

definition sugov_iowait_boost :: "cpu \<Rightarrow> ulong \<times> ulong \<Rightarrow> gov_state \<Rightarrow> (ulong \<times> ulong) \<times> gov_state" where
  "sugov_iowait_boost c um s =
     (let (util, mx) = um;
          boost_util = iowait_boost (sgc_at s c);
          boost_max = boost_max_of c s
      in if boost_util = 0 then ((util, mx), s)
         else (if util * boost_max < mx * boost_util then (boost_util, boost_max) else (util, mx),
               upd_sgc c (\<lambda>g. g\<lparr>iowait_boost := drop_bit 1 (iowait_boost g)\<rparr>) s))"

section \<open>The update hooks\<close>

text \<open>\<open>idle_calls\<close> is what \<open>tick_nohz_get_idle_calls\<close> returns.\<close>

definition sugov_cpu_is_busy :: "ulong \<Rightarrow> cpu \<Rightarrow> gov_state \<Rightarrow> bool \<times> gov_state" where
  "sugov_cpu_is_busy idle_calls c s =
     (idle_calls = saved_idle_calls (sgc_at s c), upd_sgc c (\<lambda>g. g\<lparr>saved_idle_calls := idle_calls\<rparr>) s)"

definition sugov_update_single :: "gapi \<Rightarrow> ulong \<Rightarrow> cpu \<Rightarrow> u64 \<Rightarrow> u32 \<Rightarrow> gov_state \<Rightarrow> gov_state option" where
  "sugov_update_single G idle_calls c time flags s =
     (let p = sg_policy (sgc_at s c);
          s = sugov_set_iowait_boost G c time flags s;
          s = upd_sgc c (\<lambda>g. g\<lparr>last_update := time\<rparr>) s;
          (go, s) = sugov_should_update_freq p time s
      in if \<not> go then Some s
         else let (busy, s) = sugov_cpu_is_busy idle_calls c s in
           if flags AND SCHED_CPUFREQ_DL \<noteq> 0
           then Some (sugov_update_commit p time (max_freq (policy_at s (sg_pol (sgp_at s p)))) s)
           else do {
             (util, mx, s) \<leftarrow> sugov_get_util G (this_cpu (kern_api G)) time s;
             let ((util, mx), s) = sugov_iowait_boost c (util, mx) s;
             (next_f, s) \<leftarrow> get_next_freq G p (this_cpu (kern_api G)) util mx s;
             let next_f = (if busy \<and> next_f < next_freq (sgp_at s p) then next_freq (sgp_at s p) else next_f);
             Some (sugov_update_commit p time next_f s)
           })"

text \<open>Lines 518--524: the values the tracking module shows.\<close>

definition track_values :: "ulong \<Rightarrow> gov_state \<Rightarrow> gov_state" where
  "track_values util s =
     (if pkshin_track_enabled s
      then let sa = cfs_avg_of work_core s
           in s\<lparr>pkshin_util_track := ucast util, pkshin_core_util_track := ucast (core_util_avg sa),
               pkshin_memory_util_track := ucast (memory_util_avg sa), pkshin_memory_track := memory_cycle_ratio sa\<rparr>
      else s)"

text \<open>Lines 526--546: busy and idle time of the work core since the last clearing, in microseconds.\<close>

definition track_cycles :: "gapi \<Rightarrow> gov_state \<Rightarrow> gov_state option" where
  "track_cycles G s =
     (if pkshin_cycle_enabled (kern s)
      then let i = work_core; k = kern s in
        if i < length (exec_time k) \<and> i < length (exec_clear_time k)
        then let now = clock_task (rq_at k i);
                 interval = drop_bit 10 (now - exec_clear_time k ! i);
                 busy = exec_time k ! i
             in if interval \<noteq> 0
                then let scale_freq = arch_scale_freq_capacity (kern_api G) i;
                         s = (if interval > busy
                              then s\<lparr>total_idle_time_sum := total_idle_time_sum s + (interval - busy),
                                     total_idle_cycle_sum := total_idle_cycle_sum s + (interval - busy) * scale_freq\<rparr>
                              else s);
                         s = s\<lparr>total_busy_time_sum := total_busy_time_sum s + busy,
                               total_busy_cycle_sum := total_busy_cycle_sum s + busy * scale_freq\<rparr>
                     in Some (upd_kern (\<lambda>k. k\<lparr>exec_clear_time := (exec_clear_time k)[i := now],
                                              exec_time := (exec_time k)[i := 0]\<rparr>) s)
                else Some s
        else None
      else Some s)"

text \<open>The trace statement of line 516 divides by the policy's maximum frequency.\<close>

definition sugov_next_freq_shared :: "gapi \<Rightarrow> cpu \<Rightarrow> u64 \<Rightarrow> gov_state \<Rightarrow> (u32 \<times> gov_state) option" where
  "sugov_next_freq_shared G c time s =
     (let p = sg_policy (sgc_at s c);
          policy = policy_at s (sg_pol (sgp_at s p));
          j = work_core
      in if sg_flags (sgc_at s j) AND SCHED_CPUFREQ_DL \<noteq> 0 then Some (max_freq policy, s)
         else do {
           (j_util, j_max, s) \<leftarrow> sugov_get_util G j time s;
           let (util, mx, core) = (if j_util * 1 > j_max * 0 then (j_util, j_max, j) else (0, 1, 0));
           let ((util, mx), s) = sugov_iowait_boost j (util, mx) s;
           (next_f, s) \<leftarrow> get_next_freq G p core util mx s;
           if max_freq policy = 0 then None
           else do {
             s \<leftarrow> track_cycles G (track_values util s);
             Some (next_f, s)
           }
         })"

definition sugov_update_shared :: "gapi \<Rightarrow> cpu \<Rightarrow> u64 \<Rightarrow> u32 \<Rightarrow> gov_state \<Rightarrow> gov_state option" where
  "sugov_update_shared G c time flags s =
     (let p = sg_policy (sgc_at s c);
          s = upd_sgc c (\<lambda>g. g\<lparr>sg_flags := flags\<rparr>) s;
          s = sugov_set_iowait_boost G c time flags s;
          s = upd_sgc c (\<lambda>g. g\<lparr>last_update := time\<rparr>) s;
          (go, s) = sugov_should_update_freq p time s
      in if go
         then do {
           (next_f, s) \<leftarrow>
             (if flags AND SCHED_CPUFREQ_DL \<noteq> 0
              then Some (max_freq (policy_at s (sg_pol (sgp_at s p))), s)
              else sugov_next_freq_shared G c time s);
           Some (sugov_update_commit p time next_f s)
         }
         else Some s)"

section \<open>The kernel thread\<close>

definition sugov_irq_work :: "sgp_id \<Rightarrow> gov_state \<Rightarrow> gov_state" where
  "sugov_irq_work p s = upd_sgp p (\<lambda>sg. sg\<lparr>irq_pending := False, work_pending := True\<rparr>) s"

definition sugov_work :: "gapi \<Rightarrow> sgp_id \<Rightarrow> gov_state \<Rightarrow> gov_state" where
  "sugov_work G p s =
     (let s = upd_sgp p (\<lambda>sg. sg\<lparr>work_pending := False\<rparr>) s;
          sg = sgp_at s p;
          s = s\<lparr>driver_calls := driver_calls s @ [(sg_pol sg, next_freq sg)]\<rparr>;
          s = upd_pol (sg_pol sg) (cpufreq_driver_target G (next_freq sg)) s
      in upd_sgp p (\<lambda>sg. sg\<lparr>work_in_progress := False\<rparr>) s)"


section \<open>Limits\<close>

text \<open>Without governor data the pointer is \<open>NULL\<close>.\<close>

definition sugov_limits :: "gapi \<Rightarrow> pol_id \<Rightarrow> gov_state \<Rightarrow> gov_state option" where
  "sugov_limits G i s = do {
     p \<leftarrow> governor_data (policy_at s i);
     let s = (if fast_switch_enabled (policy_at s i) then s else upd_pol i (cpufreq_policy_apply_limits G) s);
     Some (upd_sgp p (\<lambda>sg. sg\<lparr>need_freq_update := True\<rparr>) s)
   }"

end
