(* ===== verification/Schedutil_Props.thy ===== *)
theory Schedutil_Props
  imports Schedutil
begin

text \<open>
  Properties of the governor: the memory-aware utilisation solves its model, the frequency formula does
  not overflow, decisions respect the rate limits, and a decision reaches the driver unchanged.
\<close>

lemma upd_same [simp]:
  "sgp_at (upd_sgp p f s) p = f (sgp_at s p)" "policy_at (upd_pol i g s) i = g (policy_at s i)"
  "tun_at (upd_tun t h s) t = h (tun_at s t)" "sgc_at (upd_sgc c k s) c = k (sgc_at s c)"
  by (simp_all add: gov_upd_defs)

lemma upd_frame [simp]:
  "policy_at (upd_sgp p f s) = policy_at s" "tun_at (upd_sgp p f s) = tun_at s" "sgc_at (upd_sgp p f s) = sgc_at s" "kern (upd_sgp p f s) = kern s"
  "sgp_at (upd_pol i g s) = sgp_at s" "tun_at (upd_pol i g s) = tun_at s" "sgc_at (upd_pol i g s) = sgc_at s" "kern (upd_pol i g s) = kern s"
  "sgp_at (upd_sgc c k s) = sgp_at s" "policy_at (upd_sgc c k s) = policy_at s" "tun_at (upd_sgc c k s) = tun_at s" "kern (upd_sgc c k s) = kern s"
  "sgp_at (upd_kern q s) = sgp_at s" "policy_at (upd_kern q s) = policy_at s" "tun_at (upd_kern q s) = tun_at s" "sgc_at (upd_kern q s) = sgc_at s"
  "sgp_at (upd_tun t h s) = sgp_at s" "policy_at (upd_tun t h s) = policy_at s" "sgc_at (upd_tun t h s) = sgc_at s" "kern (upd_tun t h s) = kern s"
  "kern (upd_kern q s) = q (kern s)"
  by (simp_all add: gov_upd_defs)

lemma driver_frame [simp]:
  "driver_calls (upd_sgp p f s) = driver_calls s" "driver_calls (upd_pol i g s) = driver_calls s"
  "driver_calls (upd_sgc c k s) = driver_calls s" "driver_calls (upd_kern q s) = driver_calls s"
  by (simp_all add: gov_upd_defs)

section \<open>The utilisation\<close>

lemma min_u64: "unat (min a b) = min (unat a) (unat (b :: u64))"
  by (simp add: min_def word_le_nat_alt)

lemma get_util_props:
  assumes "sugov_get_util G cpu time s = Some (util, mx, s')"
  shows "util \<le> mx" "mx = arch_scale_cpu_capacity (kern_api G) cpu"
    and "s' = upd_kern (upd_rq cpu (sched_avg_update G)) s"
proof -
  have "pkshin_util G cpu m r t = Some x \<Longrightarrow> x \<le> m" for m r t x
    by (auto simp: pkshin_util_def Let_def split: if_splits bind_splits)
  then show "util \<le> mx"
    using assms by (auto simp: sugov_get_util_def Let_def split: if_splits bind_splits)
  show "mx = arch_scale_cpu_capacity (kern_api G) cpu" "s' = upd_kern (upd_rq cpu (sched_avg_update G)) s"
    using assms by (auto simp: sugov_get_util_def Let_def split: if_splits bind_splits)
qed

lemma memory_time_exact:
  assumes "unat (mem :: u64) \<le> 1048576" "unat (margin :: u64) \<le> 8589934592"
  shows "unat (drop_bit 10 (mem * margin) + mem) = unat mem + unat mem * unat margin div 1024"
proof -
  have le: "unat mem * unat margin \<le> 1048576 * 8589934592"
    using assms by (intro mult_le_mono)
  then have e: "unat (drop_bit 10 (mem * margin)) = unat mem * unat margin div 1024"
    by (subst unat_drop_bit_div, subst unat_times_u64) simp_all
  moreover have "unat mem * unat margin div 1024 \<le> 8796093022208"
    using div_le_mono [OF le, of 1024] by simp
  ultimately show ?thesis
    using assms(1) by (subst unat_plus_u64) simp_all
qed

text \<open>The level at which the core part, stretched, and the memory time with its margin fill the cpu.\<close>

lemma level_iff:
  assumes "M < (cap::nat)"
  shows "x \<le> cap * core div (cap - M) \<longleftrightarrow> x * cap \<le> core * cap + x * M"
proof -
  have "x \<le> cap * core div (cap - M) \<longleftrightarrow> x * (cap - M) \<le> cap * core"
    using assms by (simp add: less_eq_div_iff_mult_less_eq)
  also have "\<dots> \<longleftrightarrow> x * cap - x * M \<le> core * cap"
    by (simp add: diff_mult_distrib2 mult.commute)
  also have "\<dots> \<longleftrightarrow> x * cap \<le> core * cap + x * M"
    by (simp add: le_diff_conv)
  finally show ?thesis .
qed

definition margin_of :: "cpu \<Rightarrow> gov_state \<Rightarrow> u32" where
  "margin_of cpu s = capacity_margin (tun_at s (sg_tunables (sgp_at s (sg_policy (sgc_at s cpu)))))"

text \<open>The work of the cpu at its current frequency, and the margin that applies: in performance mode the code
  scales it by the core part of that work.\<close>

definition scaled_work :: "gapi \<Rightarrow> cpu \<Rightarrow> gov_state \<Rightarrow> nat" where
  "scaled_work G cpu s = unat (core_util_avg (cfs_avg_of cpu s))
     + unat (memory_util_avg (cfs_avg_of cpu s)) * unat (arch_scale_freq_capacity (kern_api G) cpu) div 1024"

definition effective_margin :: "gapi \<Rightarrow> cpu \<Rightarrow> gov_state \<Rightarrow> nat" where
  "effective_margin G cpu s =
     (if pkshin_perf_enabled s
      then unat (margin_of cpu s) * 2 * unat (core_util_avg (cfs_avg_of cpu s)) div scaled_work G cpu s
      else unat (margin_of cpu s))"

definition memory_time :: "gapi \<Rightarrow> cpu \<Rightarrow> gov_state \<Rightarrow> nat" where
  "memory_time G cpu s =
     (let m = unat (memory_util_avg (cfs_avg_of cpu s)) in m + m * effective_margin G cpu s div 1024)"

lemma effective_margin_le: "effective_margin G cpu s \<le> 2 * unat (margin_of cpu s)"
proof -
  let ?c = "unat (core_util_avg (cfs_avg_of cpu s))" and ?m = "unat (margin_of cpu s)" and ?d = "scaled_work G cpu s"
  have "?m * 2 * ?c \<le> ?m * 2 * ?d" by (rule mult_le_mono2) (simp add: scaled_work_def)
  then have "?m * 2 * ?c div ?d \<le> ?m * 2 * ?d div ?d" by (rule div_le_mono)
  also have "\<dots> \<le> ?m * 2" by (cases "?d = 0") simp_all
  finally show ?thesis by (simp add: effective_margin_def mult.commute)
qed

lemma scaled_util_exact:
  assumes "unat (core_util_avg (cfs_avg_of cpu s)) \<le> 1048576" "unat (memory_util_avg (cfs_avg_of cpu s)) \<le> 1048576"
    and "unat (arch_scale_freq_capacity (kern_api G) cpu) \<le> 1024"
  shows "unat (scaled_util (cfs_avg_of cpu s) (arch_scale_freq_capacity (kern_api G) cpu)) = scaled_work G cpu s"
proof -
  let ?sa = "cfs_avg_of cpu s" and ?f = "arch_scale_freq_capacity (kern_api G) cpu"
  have le: "unat (memory_util_avg ?sa) * unat ?f \<le> 1048576 * 1024" using assms by (intro mult_le_mono)
  then have e: "unat (drop_bit 10 (memory_util_avg ?sa * ?f)) = unat (memory_util_avg ?sa) * unat ?f div 1024"
    by (subst unat_drop_bit_div, subst unat_times_u64) simp_all
  have "unat (memory_util_avg ?sa) * unat ?f div 1024 \<le> 1048576" using div_le_mono [OF le, of 1024] by simp
  then show ?thesis
    unfolding scaled_util_def scaled_work_def e [symmetric] using assms(1) e by (subst unat_plus_u64) simp_all
qed

lemma perf_margin_exact:
  assumes "unat (core_util_avg (cfs_avg_of cpu s)) \<le> 1048576" "unat (memory_util_avg (cfs_avg_of cpu s)) \<le> 1048576"
    and "unat (arch_scale_freq_capacity (kern_api G) cpu) \<le> 1024" "pkshin_perf_enabled s"
  shows "unat ((ucast (margin_of cpu s) :: u64) * 2 * core_util_avg (cfs_avg_of cpu s)
      div scaled_util (cfs_avg_of cpu s) (arch_scale_freq_capacity (kern_api G) cpu)) = effective_margin G cpu s"
proof -
  let ?c = "core_util_avg (cfs_avg_of cpu s)" and ?m = "ucast (margin_of cpu s) :: u64"
  have m: "unat (margin_of cpu s) < 4294967296" by (rule unat_lt_u32)
  have "unat (margin_of cpu s) * 2 < 18446744073709551616" using m by linarith
  then have m2: "unat (?m * 2) = unat (margin_of cpu s) * 2" by (subst unat_times_u64) simp_all
  have "unat (margin_of cpu s) * 2 \<le> 8589934592" using m by linarith
  from mult_le_mono [OF this assms(1)] have "unat (margin_of cpu s) * 2 * unat ?c \<le> 8589934592 * 1048576" .
  then have "unat (?m * 2 * ?c) = unat (margin_of cpu s) * 2 * unat ?c"
    using m2 by (subst unat_times_u64) simp_all
  then show ?thesis using assms(4) by (simp add: unat_div scaled_util_exact [OF assms(1-3)] effective_margin_def)
qed

text \<open>The division of the performance mode is the only undefined step.\<close>

lemma pkshin_util_value:
  assumes cap: "unat cap \<le> 1024" and rt: "unat rt \<le> 1048576"
    and core: "unat (core_util_avg (cfs_avg_of cpu s)) \<le> 1048576"
    and mem: "unat (memory_util_avg (cfs_avg_of cpu s)) \<le> 1048576"
    and fr: "unat (arch_scale_freq_capacity (kern_api G) cpu) \<le> 1024"
  shows "pkshin_util G cpu cap rt s = None \<longleftrightarrow> pkshin_perf_enabled s \<and> scaled_work G cpu s = 0"
    and "pkshin_util G cpu cap rt s = Some u \<Longrightarrow>
      unat u = (if unat cap > memory_time G cpu s + unat (core_util_avg (cfs_avg_of cpu s))
        then min (unat cap * unat (core_util_avg (cfs_avg_of cpu s)) div (unat cap - memory_time G cpu s) + unat rt) (unat cap)
        else unat cap)"
proof -
  let ?sa = "cfs_avg_of cpu s" and ?d = "scaled_util (cfs_avg_of cpu s) (arch_scale_freq_capacity (kern_api G) cpu)"
  define em where "em = (if pkshin_perf_enabled s then (ucast (margin_of cpu s) :: u64) * 2 * core_util_avg ?sa div ?d
    else ucast (margin_of cpu s))"
  let ?t = "drop_bit 10 (memory_util_avg ?sa * em) + memory_util_avg ?sa"
  have em: "unat em = effective_margin G cpu s"
    using perf_margin_exact [OF core mem fr] by (auto simp: em_def effective_margin_def)
  have d0: "?d = 0 \<longleftrightarrow> scaled_work G cpu s = 0"
    using scaled_util_exact [OF core mem fr] by (metis unat_eq_zero)
  have closed: "pkshin_util G cpu cap rt s = (if pkshin_perf_enabled s \<and> ?d = 0 then None else Some (if cap > ?t
      then if cap - ?t > core_util_avg ?sa then min (cap * core_util_avg ?sa div (cap - ?t) + rt) cap else cap else cap))"
    by (simp add: pkshin_util_def Let_def margin_of_def em_def)
  show "pkshin_util G cpu cap rt s = None \<longleftrightarrow> pkshin_perf_enabled s \<and> scaled_work G cpu s = 0"
    unfolding closed d0 by simp
  have "unat em \<le> 8589934592"
    unfolding em using effective_margin_le [of G cpu s] unat_lt_u32 [of "margin_of cpu s"] by linarith
  then have t: "unat ?t = memory_time G cpu s"
    using memory_time_exact [OF mem, of em] by (simp add: memory_time_def Let_def em)
  have d: "?t < cap \<Longrightarrow> unat (cap - ?t) = unat cap - memory_time G cpu s"
    by (simp add: unat_minus_le less_imp_le t)
  have le: "unat cap * unat (core_util_avg ?sa) \<le> 1073741824"
    using mult_le_mono [OF cap core] by simp
  then have p: "unat (cap * core_util_avg ?sa) = unat cap * unat (core_util_avg ?sa)"
    by (intro unat_times_u64) simp
  have le': "unat cap * unat (core_util_avg ?sa) div x \<le> 1073741824" for x
    using le div_le_dividend [of "unat cap * unat (core_util_avg ?sa)" x] by linarith
  have s: "unat (cap * core_util_avg ?sa div x + rt) = unat cap * unat (core_util_avg ?sa) div unat x + unat rt" for x
    using rt le' [of "unat x"] by (subst unat_plus_u64) (simp_all add: unat_div p)
  assume "pkshin_util G cpu cap rt s = Some u"
  then have "u = (if cap > ?t
      then if cap - ?t > core_util_avg ?sa then min (cap * core_util_avg ?sa div (cap - ?t) + rt) cap else cap else cap)"
    unfolding closed by (simp split: if_splits)
  moreover have "cap > ?t \<longleftrightarrow> unat cap > memory_time G cpu s"
    by (simp add: word_less_nat_alt t)
  ultimately show "unat u = (if unat cap > memory_time G cpu s + unat (core_util_avg (cfs_avg_of cpu s))
        then min (unat cap * unat (core_util_avg (cfs_avg_of cpu s)) div (unat cap - memory_time G cpu s) + unat rt) (unat cap)
        else unat cap)"
    by (auto simp: min_u64 s d word_less_nat_alt)
qed

section \<open>The frequency\<close>

lemma margin_le:
  assumes "unat (m :: u32) \<le> 1024"
  shows "unat (drop_bit 10 ((ucast (f :: u32) :: u64) * ucast m) + ucast f) = unat f + unat f * unat m div 1024"
    and "unat f + unat f * unat m div 1024 \<le> 2 * unat f"
proof -
  have le: "unat f * unat m \<le> unat f * 1024" using assms by (rule mult_le_mono2)
  have f: "unat f < 4294967296" by simp
  have "unat f * unat m < 18446744073709551616" using le f by linarith
  then have e: "unat (drop_bit 10 ((ucast f :: u64) * ucast m)) = unat f * unat m div 1024"
    by (subst unat_drop_bit_div, subst unat_times_u64) simp_all
  have q: "unat f * unat m div 1024 \<le> unat f" using div_le_mono [OF le, of 1024] by simp
  then show "unat f + unat f * unat m div 1024 \<le> 2 * unat f" by simp
  show "unat (drop_bit 10 ((ucast f :: u64) * ucast m) + ucast f) = unat f + unat f * unat m div 1024"
    using q f e by (subst unat_plus_u64) (simp_all del: unat_lt_u32)
qed

definition base_freq :: "gapi \<Rightarrow> sgp_id \<Rightarrow> gov_state \<Rightarrow> u32" where
  "base_freq G p s = (let pol = policy_at s (sg_pol (sgp_at s p)) in if arch_scale_freq_invariant G then max_freq pol else cur_freq pol)"

definition policy_margin :: "sgp_id \<Rightarrow> gov_state \<Rightarrow> u32" where
  "policy_margin p s = capacity_margin (tun_at s (sg_tunables (sgp_at s p)))"

definition raw_freq :: "nat \<Rightarrow> nat \<Rightarrow> nat \<Rightarrow> nat \<Rightarrow> nat" where
  "raw_freq f m util mx = (f + f * m div 1024) * util div mx"

lemma raw_freq_le: "util \<le> mx \<Longrightarrow> raw_freq f m util mx \<le> f + f * m div 1024"
  unfolding raw_freq_def
  using div_le_mono [OF mult_le_mono2, of util mx "f + f * m div 1024" mx] by (cases "mx = 0") simp_all

lemma get_next_freq_value:
  assumes np: "\<not> pkshin_perf_enabled s" and m: "unat (policy_margin p s) \<le> 1024" and f: "unat (base_freq G p s) < 2147483648"
    and u: "util \<le> mx" "mx \<noteq> 0" "unat mx \<le> 4294967295"
  shows "unat (ucast ((drop_bit 10 ((ucast (base_freq G p s) :: u64) * ucast (policy_margin p s)) + ucast (base_freq G p s)) * util div mx) :: u32)
      = raw_freq (unat (base_freq G p s)) (unat (policy_margin p s)) (unat util) (unat mx)"
    and "raw_freq (unat (base_freq G p s)) (unat (policy_margin p s)) (unat util) (unat mx) < 4294967296"
proof -
  let ?f = "base_freq G p s" and ?m = "policy_margin p s"
  note ml = margin_le [OF m, of ?f]
  have ul: "unat util \<le> unat mx" using u(1) by (simp add: word_le_nat_alt)
  have lt: "unat ?f + unat ?f * unat ?m div 1024 \<le> 4294967294" using ml(2) f by linarith
  show b: "raw_freq (unat ?f) (unat ?m) (unat util) (unat mx) < 4294967296"
    using raw_freq_le [OF ul, of "unat ?f" "unat ?m"] lt by linarith
  have "(unat ?f + unat ?f * unat ?m div 1024) * unat util \<le> 4294967294 * 4294967295"
    using lt ul u(3) by (intro mult_le_mono) linarith+
  then have "unat ((drop_bit 10 ((ucast ?f :: u64) * ucast ?m) + ucast ?f) * util div mx)
      = raw_freq (unat ?f) (unat ?m) (unat util) (unat mx)"
    unfolding unat_div raw_freq_def by (subst unat_times_u64) (simp_all add: ml(1))
  then show "unat (ucast ((drop_bit 10 ((ucast ?f :: u64) * ucast ?m) + ucast ?f) * util div mx) :: u32)
      = raw_freq (unat ?f) (unat ?m) (unat util) (unat mx)"
    using b by (subst unat_ucast_down_small) simp_all
qed

lemma get_next_freq_spec:
  assumes np: "\<not> pkshin_perf_enabled s" and m: "unat (policy_margin p s) \<le> 1024" and f: "unat (base_freq G p s) < 2147483648"
    and u: "util \<le> mx" "mx \<noteq> 0" "unat mx \<le> 4294967295"
    and r: "r = word_of_nat (raw_freq (unat (base_freq G p s)) (unat (policy_margin p s)) (unat util) (unat mx))"
  shows "get_next_freq G p cpu util mx s =
    (if r = cached_raw_freq (sgp_at s p) \<and> next_freq (sgp_at s p) \<noteq> UINT_MAX then Some (next_freq (sgp_at s p), s)
     else Some (cpufreq_driver_resolve_freq G (policy_at s (sg_pol (sgp_at s p))) r, upd_sgp p (\<lambda>sg. sg\<lparr>cached_raw_freq := r\<rparr>) s))"
proof -
  have "(ucast ((drop_bit 10 ((ucast (base_freq G p s) :: u64) * ucast (policy_margin p s)) + ucast (base_freq G p s)) * util div mx) :: u32) = r"
    using get_next_freq_value [OF assms(1-6)] by (simp add: r word_unat_eq_iff of_nat_eq_unat)
  then show ?thesis
    using np u(2) by (simp add: get_next_freq_def Let_def base_freq_def policy_margin_def)
qed


section \<open>One decision at a time\<close>

text \<open>A request is in flight from its commit to the end of the thread's work.\<close>

definition in_flight :: "sugov_policy \<Rightarrow> bool" where
  "in_flight sg \<longleftrightarrow> (work_in_progress sg \<longleftrightarrow> irq_pending sg \<or> work_pending sg) \<and> \<not> (irq_pending sg \<and> work_pending sg)"

lemma set_boost_frame [simp]:
  "sgp_at (sugov_set_iowait_boost G c t f s) = sgp_at s" "policy_at (sugov_set_iowait_boost G c t f s) = policy_at s"
  "tun_at (sugov_set_iowait_boost G c t f s) = tun_at s" "kern (sugov_set_iowait_boost G c t f s) = kern s"
  "driver_calls (sugov_set_iowait_boost G c t f s) = driver_calls s"
  by (simp_all add: sugov_set_iowait_boost_def)

lemma set_boost_policy [simp]: "sg_policy (sgc_at (sugov_set_iowait_boost G c t f s) d) = sg_policy (sgc_at s d)"
  by (simp add: sugov_set_iowait_boost_def upd_sgc_def)

lemma boost_frame [simp]:
  "sgp_at (snd (sugov_iowait_boost c um s)) = sgp_at s" "policy_at (snd (sugov_iowait_boost c um s)) = policy_at s"
  "tun_at (snd (sugov_iowait_boost c um s)) = tun_at s" "driver_calls (snd (sugov_iowait_boost c um s)) = driver_calls s"
  by (simp_all add: sugov_iowait_boost_def Let_def case_prod_beta)

lemma should_update_False:
  assumes "sugov_should_update_freq p t s = (False, s')"
  shows "s' = s"
  using assms by (auto simp: sugov_should_update_freq_def Let_def split: if_splits)

lemma should_update_True:
  assumes "sugov_should_update_freq p t s = (True, s')"
  shows "\<not> work_in_progress (sgp_at s p)"
    and "s' = s \<and> sint (t - last_freq_update_time (sgp_at s p)) \<ge> sint (min_rate_limit_ns (sgp_at s p))
      \<or> need_freq_update (sgp_at s p) \<and> s' = upd_sgp p (\<lambda>sg. sg\<lparr>need_freq_update := False, next_freq := UINT_MAX\<rparr>) s"
  using assms by (auto simp: sugov_should_update_freq_def Let_def split: if_splits)

text \<open>What choosing a frequency may change in the policy: the cached raw frequency.\<close>

definition same_but_cache :: "sugov_policy \<Rightarrow> sugov_policy \<Rightarrow> bool" where
  "same_but_cache a b \<longleftrightarrow> (\<exists>f. b = a\<lparr>cached_raw_freq := f\<rparr>)"

lemma same_but_cache_refl [simp]: "same_but_cache a a"
  unfolding same_but_cache_def by (rule exI [of _ "cached_raw_freq a"]) simp

lemma same_but_cacheD:
  assumes "same_but_cache a b"
  shows "next_freq b = next_freq a" "last_freq_update_time b = last_freq_update_time a"
    "up_rate_delay_ns b = up_rate_delay_ns a" "down_rate_delay_ns b = down_rate_delay_ns a"
    "min_rate_limit_ns b = min_rate_limit_ns a" "need_freq_update b = need_freq_update a"
    "work_in_progress b = work_in_progress a" "irq_pending b = irq_pending a" "work_pending b = work_pending a" "sg_pol b = sg_pol a"
    "sg_tunables b = sg_tunables a"
  using assms by (auto simp: same_but_cache_def)

lemma get_next_freq_state:
  assumes "get_next_freq G p cpu util mx s = Some (f, s')"
  shows "s' = s \<or> (\<exists>x. s' = upd_sgp p (\<lambda>sg. sg\<lparr>cached_raw_freq := x\<rparr>) s)"
proof -
  let ?R = "\<lambda>m freq. (if freq = cached_raw_freq (sgp_at s p) \<and> next_freq (sgp_at s p) \<noteq> UINT_MAX then Some (next_freq (sgp_at s p), s)
      else Some (cpufreq_driver_resolve_freq G (policy_at s (sg_pol (sgp_at s p))) freq, upd_sgp p (\<lambda>sg. sg\<lparr>cached_raw_freq := freq\<rparr>) s))"
  have "\<exists>m freq. ?R m freq = Some (f, s')"
    using assms unfolding get_next_freq_def Let_def bind_eq_Some_conv by (metis option.distinct(1))
  then show ?thesis by (metis option.inject prod.inject)
qed

lemma get_next_freq_frame:
  assumes "get_next_freq G p cpu util mx s = Some (f, s')"
  shows "same_but_cache (sgp_at s p) (sgp_at s' p)" "policy_at s' = policy_at s" "driver_calls s' = driver_calls s"
    "tun_at s' = tun_at s" "kern s' = kern s" "sgc_at s' = sgc_at s"
proof -
  have "same_but_cache a (a\<lparr>cached_raw_freq := x\<rparr>)" for a x unfolding same_but_cache_def by blast
  then show "same_but_cache (sgp_at s p) (sgp_at s' p)" "policy_at s' = policy_at s" "driver_calls s' = driver_calls s"
    "tun_at s' = tun_at s" "kern s' = kern s" "sgc_at s' = sgc_at s"
    using get_next_freq_state [OF assms] by auto
qed

lemma track_frame:
  assumes "track_cycles G (track_values u s) = Some s'"
  shows "sgp_at s' = sgp_at s" "policy_at s' = policy_at s" "driver_calls s' = driver_calls s" "tun_at s' = tun_at s" "sgc_at s' = sgc_at s"
  using assms by (auto simp: track_cycles_def track_values_def Let_def upd_kern_def split: if_splits)

lemma next_freq_shared_frame:
  assumes "sugov_next_freq_shared G c t s = Some (f, s')" "sg_policy (sgc_at s c) = p"
  shows "same_but_cache (sgp_at s p) (sgp_at s' p) \<and> policy_at s' = policy_at s \<and> driver_calls s' = driver_calls s"
proof (cases "sg_flags (sgc_at s work_core) AND SCHED_CPUFREQ_DL \<noteq> 0")
  case True
  then have "s' = s" using assms(1) by (auto simp: sugov_next_freq_shared_def Let_def)
  then show ?thesis by simp
next
  case False
  obtain u m s1 core u1 s3 u2 m2 u3 where 1: "sugov_get_util G work_core t s = Some (u, m, s1)"
    and 3: "get_next_freq G p core u2 m2 (snd (sugov_iowait_boost work_core u1 s1)) = Some (f, s3)"
    and 4: "track_cycles G (track_values u3 s3) = Some s'"
    using assms False unfolding sugov_next_freq_shared_def Let_def bind_eq_Some_conv case_prod_beta
    by (auto simp: bind_eq_Some_conv split: if_splits)
  show ?thesis
    using get_next_freq_frame(1-3) [OF 3] track_frame(1-3) [OF 4] by (simp add: get_util_props(3) [OF 1])
qed


definition commit_sg :: "u64 \<Rightarrow> u32 \<Rightarrow> sugov_policy \<Rightarrow> sugov_policy" where
  "commit_sg t f sg = sg\<lparr>next_freq := f, last_freq_update_time := t, work_in_progress := True, irq_pending := True\<rparr>"

lemma commit_outcome:
  assumes "\<not> fast_switch_enabled (policy_at s (sg_pol (sgp_at s p)))"
  shows "sgp_at (sugov_update_commit p t f s) p =
      (if sugov_up_down_rate_limit (sgp_at s p) t f \<or> next_freq (sgp_at s p) = f then sgp_at s p else commit_sg t f (sgp_at s p))"
    and "policy_at (sugov_update_commit p t f s) = policy_at s" "driver_calls (sugov_update_commit p t f s) = driver_calls s"
  using assms by (simp_all add: sugov_update_commit_def Let_def commit_sg_def)

text \<open>The policy a hook hands to the commit.\<close>

definition ready :: "u64 \<Rightarrow> sugov_policy \<Rightarrow> sugov_policy \<Rightarrow> bool" where
  "ready t sg sg1 \<longleftrightarrow>
     sint (t - last_freq_update_time sg) \<ge> sint (min_rate_limit_ns sg) \<and> same_but_cache sg sg1
     \<or> need_freq_update sg \<and> same_but_cache (sg\<lparr>need_freq_update := False, next_freq := UINT_MAX\<rparr>) sg1"

definition hook_result :: "u64 \<Rightarrow> sugov_policy \<Rightarrow> sugov_policy \<Rightarrow> bool" where
  "hook_result t sg sg' \<longleftrightarrow> sg' = sg \<or>
     \<not> work_in_progress sg \<and> (\<exists>sg1. ready t sg sg1 \<and>
       (sg' = sg1 \<or> (\<exists>f. \<not> sugov_up_down_rate_limit sg1 t f \<and> next_freq sg1 \<noteq> f \<and> sg' = commit_sg t f sg1)))"

text \<open>A run of an update hook of cpu \<open>c\<close>, which belongs to policy \<open>p\<close>.\<close>

definition hook_run :: "gapi \<Rightarrow> sgp_id \<Rightarrow> cpu \<Rightarrow> u64 \<Rightarrow> u32 \<Rightarrow> gov_state \<Rightarrow> gov_state \<Rightarrow> bool" where
  "hook_run G p c t f s s' \<longleftrightarrow> sg_policy (sgc_at s c) = p \<and>
     (sugov_update_shared G c t f s = Some s' \<or> (\<exists>ic. sugov_update_single G ic c t f s = Some s'))"

lemma ready_should_update:
  assumes "sugov_should_update_freq p t s = (True, s1)" "same_but_cache (sgp_at s1 p) sg"
  shows "ready t (sgp_at s p) sg" "\<not> work_in_progress (sgp_at s p)"
  using should_update_True [OF assms(1)] assms(2) by (auto simp: ready_def)

lemma should_update_policy:
  "sugov_should_update_freq p t s = (b, s1) \<Longrightarrow> policy_at s1 = policy_at s \<and> driver_calls s1 = driver_calls s \<and> sg_pol (sgp_at s1 p) = sg_pol (sgp_at s p) \<and> sgc_at s1 = sgc_at s"
  by (auto simp: sugov_should_update_freq_def Let_def split: if_splits)

lemma hook_result_commit:
  assumes u: "sugov_should_update_freq p t s = (True, s1)"
    and sc: "same_but_cache (sgp_at s1 p) (sgp_at s2 p)" and pol: "policy_at s2 = policy_at s1"
    and slow: "\<not> fast_switch_enabled (policy_at s (sg_pol (sgp_at s p)))"
  shows "hook_result t (sgp_at s p) (sgp_at (sugov_update_commit p t f s2) p)"
    and "policy_at (sugov_update_commit p t f s2) = policy_at s"
    and "driver_calls (sugov_update_commit p t f s2) = driver_calls s2"
proof -
  note pp = should_update_policy [OF u]
  have "\<not> fast_switch_enabled (policy_at s2 (sg_pol (sgp_at s2 p)))"
    using slow pp pol same_but_cacheD(10) [OF sc] by simp
  note c = commit_outcome [OF this, of t f]
  show "hook_result t (sgp_at s p) (sgp_at (sugov_update_commit p t f s2) p)"
    using ready_should_update [OF u sc] unfolding hook_result_def c(1) by (auto split: if_splits)
  show "policy_at (sugov_update_commit p t f s2) = policy_at s" "driver_calls (sugov_update_commit p t f s2) = driver_calls s2"
    using c(2,3) pol pp by simp_all
qed

lemma hook_shared:
  assumes run: "sugov_update_shared G c t f s = Some s'" and p: "sg_policy (sgc_at s c) = p"
    and slow: "\<not> fast_switch_enabled (policy_at s (sg_pol (sgp_at s p)))"
  shows "hook_result t (sgp_at s p) (sgp_at s' p) \<and> policy_at s' = policy_at s \<and> driver_calls s' = driver_calls s"
proof -
  define s0 where "s0 = upd_sgc c (\<lambda>g. g\<lparr>last_update := t\<rparr>) (sugov_set_iowait_boost G c t f (upd_sgc c (\<lambda>g. g\<lparr>sg_flags := f\<rparr>) s))"
  have eq: "sgp_at s0 = sgp_at s" "policy_at s0 = policy_at s" "driver_calls s0 = driver_calls s" "sg_policy (sgc_at s0 c) = p"
    using p by (simp_all add: s0_def)
  obtain go s1 where go: "sugov_should_update_freq p t s0 = (go, s1)" by force
  show ?thesis
  proof (cases go)
    case False
    then have "s' = s0"
      using run go should_update_False [of p t s0 s1] p by (simp add: sugov_update_shared_def Let_def s0_def)
    then show ?thesis by (simp add: eq hook_result_def)
  next
    case True
    note pp = should_update_policy [OF go]
    obtain nf s2 where nf: "(if f AND SCHED_CPUFREQ_DL \<noteq> 0 then Some (max_freq (policy_at s1 (sg_pol (sgp_at s1 p))), s1)
              else sugov_next_freq_shared G c t s1) = Some (nf, s2)" and s': "s' = sugov_update_commit p t nf s2"
      using run p go True by (auto simp: sugov_update_shared_def Let_def s0_def bind_eq_Some_conv)
    have "same_but_cache (sgp_at s1 p) (sgp_at s2 p) \<and> policy_at s2 = policy_at s1 \<and> driver_calls s2 = driver_calls s1"
      using nf next_freq_shared_frame [of G c t s1 nf s2 p] pp eq by (auto split: if_splits)
    then show ?thesis
      using hook_result_commit [of p t s0 s1 s2 nf] go True slow pp unfolding s' by (simp add: eq)
  qed
qed

lemma hook_single:
  assumes run: "sugov_update_single G ic c t f s = Some s'" and p: "sg_policy (sgc_at s c) = p"
    and slow: "\<not> fast_switch_enabled (policy_at s (sg_pol (sgp_at s p)))"
  shows "hook_result t (sgp_at s p) (sgp_at s' p) \<and> policy_at s' = policy_at s \<and> driver_calls s' = driver_calls s"
proof -
  define s0 where "s0 = upd_sgc c (\<lambda>g. g\<lparr>last_update := t\<rparr>) (sugov_set_iowait_boost G c t f s)"
  have eq: "sgp_at s0 = sgp_at s" "policy_at s0 = policy_at s" "driver_calls s0 = driver_calls s"
    by (simp_all add: s0_def)
  obtain go s1 where go: "sugov_should_update_freq p t s0 = (go, s1)" by force
  show ?thesis
  proof (cases go)
    case False
    then have "s' = s0"
      using run go should_update_False [of p t s0 s1] p by (simp add: sugov_update_single_def Let_def s0_def)
    then show ?thesis by (simp add: eq hook_result_def)
  next
    case True
    note pp = should_update_policy [OF go]
    define s2 where "s2 = snd (sugov_cpu_is_busy ic c s1)"
    have s2: "sgp_at s2 = sgp_at s1" "policy_at s2 = policy_at s1" "driver_calls s2 = driver_calls s1"
      by (simp_all add: s2_def sugov_cpu_is_busy_def)
    have "\<exists>nf s3. s' = sugov_update_commit p t nf s3 \<and> same_but_cache (sgp_at s1 p) (sgp_at s3 p)
        \<and> policy_at s3 = policy_at s1 \<and> driver_calls s3 = driver_calls s1"
    proof (cases "f AND SCHED_CPUFREQ_DL \<noteq> 0")
      case True
      then have "s' = sugov_update_commit p t (max_freq (policy_at s2 (sg_pol (sgp_at s2 p)))) s2"
        using run p go \<open>go\<close> by (simp add: sugov_update_single_def Let_def s0_def s2_def case_prod_beta)
      then show ?thesis using s2 by (metis same_but_cache_refl)
    next
      case dl: False
      obtain u m s3 u2 m2 f4 s4 nf where 1: "sugov_get_util G (this_cpu (kern_api G)) t s2 = Some (u, m, s3)"
        and 2: "get_next_freq G p (this_cpu (kern_api G)) u2 m2 (snd (sugov_iowait_boost c (u, m) s3)) = Some (f4, s4)"
        and 3: "s' = sugov_update_commit p t nf s4"
        using run p go True dl unfolding sugov_update_single_def Let_def
        by (auto simp: s0_def s2_def case_prod_beta bind_eq_Some_conv)
      show ?thesis
        using get_next_freq_frame(1-3) [OF 2] 3 s2 by (auto simp: get_util_props(3) [OF 1])
    qed
    then obtain nf s3 where s': "s' = sugov_update_commit p t nf s3"
      and fr: "same_but_cache (sgp_at s1 p) (sgp_at s3 p)" "policy_at s3 = policy_at s1" "driver_calls s3 = driver_calls s1" by blast
    have go': "sugov_should_update_freq p t s0 = (True, s1)" using go True by simp
    show ?thesis
      using hook_result_commit [OF go' fr(1,2), of nf] slow pp fr(3) unfolding s' by (simp add: eq)
  qed
qed

lemma hook_run_result:
  assumes "hook_run G p c t f s s'" "\<not> fast_switch_enabled (policy_at s (sg_pol (sgp_at s p)))"
  shows "hook_result t (sgp_at s p) (sgp_at s' p)" "policy_at s' = policy_at s" "driver_calls s' = driver_calls s"
  using assms hook_shared [of G c t f s s' p] hook_single [of G _ c t f s s' p] by (auto simp: hook_run_def)


section \<open>The governor as a transition system\<close>

text \<open>The driver changes frequencies, not whether fast switching is on.\<close>

definition driver_keeps_mode :: "gapi \<Rightarrow> bool" where
  "driver_keeps_mode G \<longleftrightarrow> (\<forall>f pol. fast_switch_enabled (cpufreq_driver_target G f pol) = fast_switch_enabled pol)
     \<and> (\<forall>pol. fast_switch_enabled (cpufreq_policy_apply_limits G pol) = fast_switch_enabled pol)"

inductive gov_step :: "gapi \<Rightarrow> sgp_id \<Rightarrow> gov_state \<Rightarrow> gov_state \<Rightarrow> bool" for G p where
  hook: "hook_run G p c t f s s' \<Longrightarrow> gov_step G p s s'"
| irq: "irq_pending (sgp_at s p) \<Longrightarrow> gov_step G p s (sugov_irq_work p s)"
| work: "work_pending (sgp_at s p) \<Longrightarrow> gov_step G p s (sugov_work G p s)"
| limits: "governor_data (policy_at s (sg_pol (sgp_at s p))) = Some p \<Longrightarrow>
    sugov_limits G (sg_pol (sgp_at s p)) s = Some s' \<Longrightarrow> gov_step G p s s'"

definition slow_idle :: "sgp_id \<Rightarrow> gov_state \<Rightarrow> bool" where
  "slow_idle p s \<longleftrightarrow> \<not> fast_switch_enabled (policy_at s (sg_pol (sgp_at s p)))
     \<and> \<not> work_in_progress (sgp_at s p) \<and> \<not> irq_pending (sgp_at s p) \<and> \<not> work_pending (sgp_at s p)"

definition gov_ok :: "sgp_id \<Rightarrow> gov_state \<Rightarrow> bool" where
  "gov_ok p s \<longleftrightarrow> \<not> fast_switch_enabled (policy_at s (sg_pol (sgp_at s p))) \<and> in_flight (sgp_at s p)"

lemma ready_cases:
  assumes "ready t sg sg1"
  shows "work_in_progress sg1 = work_in_progress sg" "irq_pending sg1 = irq_pending sg" "work_pending sg1 = work_pending sg"
    "sg_pol sg1 = sg_pol sg" "last_freq_update_time sg1 = last_freq_update_time sg"
    "up_rate_delay_ns sg1 = up_rate_delay_ns sg" "down_rate_delay_ns sg1 = down_rate_delay_ns sg"
    "next_freq sg1 = next_freq sg \<or> need_freq_update sg \<and> next_freq sg1 = UINT_MAX"
  using assms by (auto simp: ready_def dest: same_but_cacheD)

lemma hook_result_flight:
  assumes "hook_result t sg sg'" "in_flight sg"
  shows "in_flight sg'" "sg_pol sg' = sg_pol sg" "work_in_progress sg \<Longrightarrow> sg' = sg"
  using assms by (auto simp: hook_result_def in_flight_def commit_sg_def ready_cases)

lemma work_outcome:
  "sgp_at (sugov_work G p s) p = (sgp_at s p)\<lparr>work_pending := False, work_in_progress := False\<rparr>"
  "driver_calls (sugov_work G p s) = driver_calls s @ [(sg_pol (sgp_at s p), next_freq (sgp_at s p))]"
  "policy_at (sugov_work G p s) = (policy_at s)(sg_pol (sgp_at s p) := cpufreq_driver_target G (next_freq (sgp_at s p)) (policy_at s (sg_pol (sgp_at s p))))"
  by (simp_all add: sugov_work_def Let_def) (simp_all add: gov_upd_defs)

lemma irq_outcome:
  "sgp_at (sugov_irq_work p s) p = (sgp_at s p)\<lparr>irq_pending := False, work_pending := True\<rparr>"
  "driver_calls (sugov_irq_work p s) = driver_calls s" "policy_at (sugov_irq_work p s) = policy_at s"
  by (simp_all add: sugov_irq_work_def)

lemma limits_outcome:
  assumes "sugov_limits G i s = Some s'" "governor_data (policy_at s i) = Some p"
  shows "sgp_at s' p = (sgp_at s p)\<lparr>need_freq_update := True\<rparr>" "driver_calls s' = driver_calls s"
    "policy_at s' = (if fast_switch_enabled (policy_at s i) then policy_at s else (policy_at s)(i := cpufreq_policy_apply_limits G (policy_at s i)))"
  using assms by (auto simp: sugov_limits_def Let_def gov_upd_defs)

lemma gov_step_ok:
  assumes "gov_step G p s s'" "driver_keeps_mode G" "gov_ok p s"
  shows "gov_ok p s'"
  using assms
proof (induction rule: gov_step.induct)
  case (hook c t f s s')
  then have slow: "\<not> fast_switch_enabled (policy_at s (sg_pol (sgp_at s p)))" "in_flight (sgp_at s p)" by (simp_all add: gov_ok_def)
  show ?case
    using hook_run_result [OF hook(1) slow(1)] slow hook_result_flight [of t "sgp_at s p" "sgp_at s' p"] by (simp add: gov_ok_def)
next
  case (irq s)
  then show ?case by (simp add: gov_ok_def irq_outcome in_flight_def)
next
  case (work s)
  then show ?case by (simp add: gov_ok_def work_outcome in_flight_def driver_keeps_mode_def)
next
  case (limits s s')
  then show ?case using limits_outcome [OF limits(2,1)] by (simp add: gov_ok_def in_flight_def driver_keeps_mode_def)
qed

lemma gov_reach_ok:
  assumes "(gov_step G p)\<^sup>*\<^sup>* s s'" "driver_keeps_mode G" "gov_ok p s"
  shows "gov_ok p s'"
  using assms by (induction rule: rtranclp_induct) (auto intro: gov_step_ok)

lemma slow_idle_ok: "slow_idle p s \<Longrightarrow> gov_ok p s"
  by (simp add: slow_idle_def gov_ok_def in_flight_def)

text \<open>While a request is in flight its frequency stands, until the driver is called with it.\<close>

lemma in_flight_step:
  assumes "gov_step G p s s'" "gov_ok p s" "work_in_progress (sgp_at s p)"
  shows "next_freq (sgp_at s' p) = next_freq (sgp_at s p)
    \<and> (work_in_progress (sgp_at s' p) \<and> driver_calls s' = driver_calls s
      \<or> \<not> work_in_progress (sgp_at s' p) \<and> driver_calls s' = driver_calls s @ [(sg_pol (sgp_at s p), next_freq (sgp_at s p))])"
  using assms
proof (induction rule: gov_step.induct)
  case (hook c t f s s')
  then have slow: "\<not> fast_switch_enabled (policy_at s (sg_pol (sgp_at s p)))" "in_flight (sgp_at s p)" by (simp_all add: gov_ok_def)
  show ?case
    using hook_run_result [OF hook(1) slow(1)] hook_result_flight(3) [OF _ slow(2) hook(3), of t "sgp_at s' p"] hook(3) by simp
next
  case (irq s)
  then show ?case by (simp add: irq_outcome)
next
  case (work s)
  then show ?case by (simp add: work_outcome)
next
  case (limits s s')
  then show ?case using limits_outcome [OF limits(2,1)] by simp
qed

lemma in_flight_completes:
  assumes "gov_ok p s" "work_in_progress (sgp_at s p)"
  shows "\<exists>s'. (gov_step G p)\<^sup>*\<^sup>* s s' \<and> \<not> work_in_progress (sgp_at s' p)
    \<and> driver_calls s' = driver_calls s @ [(sg_pol (sgp_at s p), next_freq (sgp_at s p))]"
proof (cases "irq_pending (sgp_at s p)")
  case True
  have "gov_step G p s (sugov_irq_work p s)" by (rule irq [OF True])
  moreover have "gov_step G p (sugov_irq_work p s) (sugov_work G p (sugov_irq_work p s))"
    by (rule work) (simp add: irq_outcome)
  ultimately have "(gov_step G p)\<^sup>*\<^sup>* s (sugov_work G p (sugov_irq_work p s))" by (meson rtranclp.rtrancl_refl rtranclp.rtrancl_into_rtrancl)
  moreover have "\<not> work_in_progress (sgp_at (sugov_work G p (sugov_irq_work p s)) p)"
    "driver_calls (sugov_work G p (sugov_irq_work p s)) = driver_calls s @ [(sg_pol (sgp_at s p), next_freq (sgp_at s p))]"
    by (simp_all add: work_outcome irq_outcome)
  ultimately show ?thesis by blast
next
  case False
  then have "work_pending (sgp_at s p)" using assms by (simp add: gov_ok_def in_flight_def)
  then have "gov_step G p s (sugov_work G p s)" by (rule work)
  then have "(gov_step G p)\<^sup>*\<^sup>* s (sugov_work G p s)" by (rule r_into_rtranclp)
  then show ?thesis by (intro exI [of _ "sugov_work G p s"]) (simp add: work_outcome)
qed

section \<open>Lost requests and the boost\<close>

text \<open>After a change of limits \<open>next_freq\<close> is \<open>UINT_MAX\<close>; a busy cpu then keeps it.\<close>

lemma busy_drops_limits:
  assumes run: "sugov_update_single G (saved_idle_calls (sgc_at s c)) c t f s = Some s'" and p: "sg_policy (sgc_at s c) = p"
    and need: "need_freq_update (sgp_at s p)" "\<not> work_in_progress (sgp_at s p)" and ndl: "f AND SCHED_CPUFREQ_DL = 0"
  shows "next_freq (sgp_at s' p) = UINT_MAX \<and> \<not> need_freq_update (sgp_at s' p) \<and> \<not> work_in_progress (sgp_at s' p)
    \<and> irq_pending (sgp_at s' p) = irq_pending (sgp_at s p)"
proof -
  define s0 where "s0 = upd_sgc c (\<lambda>g. g\<lparr>last_update := t\<rparr>) (sugov_set_iowait_boost G c t f s)"
  define s1 where "s1 = upd_sgp p (\<lambda>sg. sg\<lparr>need_freq_update := False, next_freq := UINT_MAX\<rparr>) s0"
  define s2 where "s2 = snd (sugov_cpu_is_busy (saved_idle_calls (sgc_at s c)) c s1)"
  have eq: "sgp_at s0 = sgp_at s" by (simp add: s0_def)
  have ic: "saved_idle_calls (sgc_at s0 c) = saved_idle_calls (sgc_at s c)"
    by (simp add: s0_def sugov_set_iowait_boost_def)
  have go: "sugov_should_update_freq p t s0 = (True, s1)"
    using need by (simp add: sugov_should_update_freq_def Let_def eq s1_def)
  have busy: "fst (sugov_cpu_is_busy (saved_idle_calls (sgc_at s c)) c s1)"
    by (simp add: sugov_cpu_is_busy_def s1_def ic)
  have s2: "sgp_at s2 p = (sgp_at s p)\<lparr>need_freq_update := False, next_freq := UINT_MAX\<rparr>"
    by (simp add: s2_def sugov_cpu_is_busy_def s1_def eq)
  obtain u m s3 u2 m2 f4 s4 where 1: "sugov_get_util G (this_cpu (kern_api G)) t s2 = Some (u, m, s3)"
    and 2: "get_next_freq G p (this_cpu (kern_api G)) u2 m2 (snd (sugov_iowait_boost c (u, m) s3)) = Some (f4, s4)"
    and 3: "s' = sugov_update_commit p t (if f4 < next_freq (sgp_at s4 p) then next_freq (sgp_at s4 p) else f4) s4"
    using run p go ndl busy unfolding sugov_update_single_def Let_def
    by (auto simp: s0_def s2_def case_prod_beta bind_eq_Some_conv)
  have sc: "same_but_cache (sgp_at s2 p) (sgp_at s4 p)"
    using get_next_freq_frame(1) [OF 2] by (simp add: get_util_props(3) [OF 1])
  note d = same_but_cacheD [OF sc]
  have nf: "next_freq (sgp_at s4 p) = UINT_MAX" using d s2 by simp
  have "f4 \<le> UINT_MAX" using unat_lt_u32 [of f4] by (simp add: word_le_nat_alt del: unat_lt_u32)
  then have "(if f4 < next_freq (sgp_at s4 p) then next_freq (sgp_at s4 p) else f4) = UINT_MAX"
    using nf by (auto simp: not_less)
  then have "sgp_at s' p = sgp_at s4 p"
    unfolding 3 by (simp add: sugov_update_commit_def Let_def nf)
  then show ?thesis using d s2 need by simp
qed

text \<open>The boost halves with every decision.\<close>

fun boost_rounds :: "nat \<Rightarrow> cpu \<Rightarrow> ulong \<times> ulong \<Rightarrow> gov_state \<Rightarrow> gov_state" where
  "boost_rounds 0 c um s = s"
| "boost_rounds (Suc n) c um s = boost_rounds n c um (snd (sugov_iowait_boost c um s))"

lemma boost_halves: "iowait_boost (sgc_at (snd (sugov_iowait_boost c um s)) c) = drop_bit 1 (iowait_boost (sgc_at s c))"
  by (simp add: sugov_iowait_boost_def Let_def case_prod_beta)

lemma boost_rounds_value: "iowait_boost (sgc_at (boost_rounds n c um s) c) = drop_bit n (iowait_boost (sgc_at s c))"
  by (induction n arbitrary: s) (simp_all add: boost_halves)

lemma boost_gone: "64 \<le> n \<Longrightarrow> iowait_boost (sgc_at (boost_rounds n c um s) c) = 0"
  unfolding boost_rounds_value
  by (rule word_unat_eq_iff [THEN iffD2]) (use unat_lt_u64 [of "iowait_boost (sgc_at s c)"] in
    \<open>simp add: unat_drop_bit_div less_le_trans [OF unat_lt_u64] power_increasing [of 64 n "2::nat", simplified] del: unat_lt_u64\<close>)

text \<open>A pending boost whose maximum was set to zero makes the capacity zero.\<close>

lemma boost_zero_max:
  assumes "boost_max_of c s = 0" "iowait_boost (sgc_at s c) \<noteq> 0" "mx * iowait_boost (sgc_at s c) \<noteq> 0"
  shows "snd (fst (sugov_iowait_boost c (util, mx) s)) = 0"
  using assms by (auto simp: sugov_iowait_boost_def Let_def word_neq_0_conv)

lemma zero_capacity_undefined: "get_next_freq G p cpu util 0 s = None"
  by (simp add: get_next_freq_def Let_def split: bind_splits)


section \<open>Distance of decisions\<close>

lemma hook_result_rate:
  assumes h: "hook_result t sg sg'" and need: "\<not> need_freq_update sg" and ne: "next_freq sg' \<noteq> next_freq sg"
  shows "\<not> work_in_progress sg \<and> work_in_progress sg' \<and> irq_pending sg' \<and> last_freq_update_time sg' = t
    \<and> sint (min_rate_limit_ns sg) \<le> sint (t - last_freq_update_time sg)
    \<and> sint (if next_freq sg < next_freq sg' then up_rate_delay_ns sg else down_rate_delay_ns sg) \<le> sint (t - last_freq_update_time sg)"
proof -
  obtain sg1 where w: "\<not> work_in_progress sg" and r: "ready t sg sg1"
    and c: "sg' = sg1 \<or> (\<exists>f. \<not> sugov_up_down_rate_limit sg1 t f \<and> next_freq sg1 \<noteq> f \<and> sg' = commit_sg t f sg1)"
    using h ne by (auto simp: hook_result_def)
  note e = ready_cases [OF r]
  have m: "sint (min_rate_limit_ns sg) \<le> sint (t - last_freq_update_time sg)" and n: "next_freq sg1 = next_freq sg"
    using r need e(8) by (simp_all add: ready_def)
  obtain f where f: "\<not> sugov_up_down_rate_limit sg1 t f" "next_freq sg1 \<noteq> f" "sg' = commit_sg t f sg1"
    using c n ne by auto
  show ?thesis
  proof (cases "next_freq sg < f")
    case True
    then have "\<not> f < next_freq sg" by simp
    then have "sint (up_rate_delay_ns sg) \<le> sint (t - last_freq_update_time sg)"
      using f(1) True by (auto simp: sugov_up_down_rate_limit_def Let_def e n not_less split: if_splits)
    then show ?thesis using w m True by (simp add: f(3) commit_sg_def)
  next
    case False
    then have "f < next_freq sg" using f(2) n by simp
    then have "sint (down_rate_delay_ns sg) \<le> sint (t - last_freq_update_time sg)"
      using f(1) False by (auto simp: sugov_up_down_rate_limit_def Let_def e n not_less split: if_splits)
    then show ?thesis using w m False by (simp add: f(3) commit_sg_def)
  qed
qed

end
