(* ===== verification/Governor.thy ===== *)
theory Governor
  imports Schedutil_Props
begin

text \<open>
  The governor's properties: what it asks for, when it may ask, and that what it asks for arrives.
  The concrete runs use a policy of four cpus whose signals are blank unless stated.
\<close>

section \<open>Concrete states\<close>

definition demo_policy :: cpufreq_policy where
  "demo_policy = \<lparr>max_freq = 2265600, transition_latency = 0, cur_freq = 1190400, policy_cpus = [0, 1, 2, 3],
     policy_is_shared = True, fast_switch_enabled = False, governor_data = Some 0\<rparr>"

definition demo_tunables :: sugov_tunables where
  "demo_tunables = \<lparr>attr_set = \<lparr>policy_list = [0], usage_count = 1\<rparr>, iowait_boost_max = 2265600,
     up_rate_limit_us = 500, down_rate_limit_us = 2000, capacity_margin = 256\<rparr>"

definition demo_sgp :: sugov_policy where
  "demo_sgp = \<lparr>sg_pol = 0, sg_tunables = 0, last_freq_update_time = 0, min_rate_limit_ns = 500000,
     up_rate_delay_ns = 500000, down_rate_delay_ns = 2000000, next_freq = UINT_MAX, cached_raw_freq = 0,
     irq_pending = False, work_pending = False, sg_thread = True, work_in_progress = False, need_freq_update = False\<rparr>"

definition demo_sgc :: sugov_cpu where
  "demo_sgc = \<lparr>sg_policy = 0, iowait_boost = 0, last_update = 0, sg_util = 0, sg_max = 0, sg_flags = 0, saved_idle_calls = 0\<rparr>"

definition demo_gov :: gov_state where
  "demo_gov = \<lparr>kern = zero_state, policy_at = (\<lambda>_. demo_policy), sgp_at = (\<lambda>_. demo_sgp), tun_at = (\<lambda>_. demo_tunables),
     sgc_at = (\<lambda>_. demo_sgc), hook_at = (\<lambda>_. None), live_sgp = [0], live_tun = [0], global_tunables = Some 0,
     tunables_locked = False, driver_calls = [], pkshin_util_track = 0, pkshin_core_util_track = 0,
     pkshin_memory_util_track = 0, pkshin_memory_track = 0, pkshin_track_enabled = False, pkshin_freq_enabled = False,
     pkshin_overhead_enabled = False, pkshin_perf_enabled = False, total_idle_time_sum = 0, total_busy_time_sum = 0,
     total_idle_cycle_sum = 0, total_busy_cycle_sum = 0, total_mSchedutil_time = 0, total_governor_time = 0\<rparr>"

definition demo_gapi :: gapi where
  "demo_gapi = \<lparr>kern_api = plain_api, arch_scale_freq_invariant = True, cpufreq_driver_resolve_freq = (\<lambda>_ f. f),
     cpufreq_driver_target = (\<lambda>f pol. pol\<lparr>cur_freq := f\<rparr>), cpufreq_policy_apply_limits = (\<lambda>pol. pol),
     sched_avg_update = (\<lambda>q. q), sysctl_sched_time_avg = 1000, tick_nsec = 4000000\<rparr>"

lemmas demo_defs = demo_policy_def demo_tunables_def demo_sgp_def demo_sgc_def demo_gov_def demo_gapi_def

text \<open>A cpu whose last signals are a core share of 300 and a memory share of 200.\<close>

definition loaded_kern :: kstate where
  "loaded_kern = zero_state\<lparr>pkshin_pemt_enabled := True,
     cfs_at := (\<lambda>_. zero_cfs\<lparr>cfs_avg := zero_avg\<lparr>util_avg := 480, core_util_avg := 300, memory_util_avg := 200\<rparr>\<rparr>)\<rparr>"

definition loaded_gov :: gov_state where
  "loaded_gov = demo_gov\<lparr>kern := loaded_kern, pkshin_freq_enabled := True\<rparr>"

lemma loaded_values:
  "cfs_avg_of 3 loaded_gov = zero_avg\<lparr>util_avg := 480, core_util_avg := 300, memory_util_avg := 200\<rparr>"
  "margin_of 3 loaded_gov = 256" "\<not> pkshin_perf_enabled loaded_gov"
  by (simp_all add: cfs_avg_of_def margin_of_def loaded_gov_def loaded_kern_def demo_defs)

lemma loaded_memory_time: "memory_time demo_gapi 3 loaded_gov = 250"
  by (simp add: memory_time_def effective_margin_def loaded_values Let_def)

text \<open>In performance mode, at full frequency, the margin is \<open>256 * 2 * 300 / 500\<close>.\<close>

lemma perf_memory_time: "memory_time demo_gapi 3 (loaded_gov\<lparr>pkshin_perf_enabled := True\<rparr>) = 259"
  by (simp add: memory_time_def effective_margin_def scaled_work_def cfs_avg_of_def margin_of_def loaded_gov_def loaded_kern_def
      demo_defs plain_api_def Let_def)

lemma demo_values:
  "base_freq demo_gapi 0 demo_gov = 2265600" "policy_margin 0 demo_gov = 256" "\<not> pkshin_perf_enabled demo_gov"
  "cached_raw_freq (sgp_at demo_gov 0) = 0" "next_freq (sgp_at demo_gov 0) = UINT_MAX" "cpufreq_driver_resolve_freq demo_gapi pol f = f"
  by (simp_all add: base_freq_def policy_margin_def demo_defs)

section \<open>Properties\<close>

text \<open>C1: The memory-aware utilisation solves the model it is built on, with and without the performance mode. With \<open>M\<close> the memory time of the cpu
  plus its margin, the value is saturated when core and memory time fill the capacity; otherwise, before
  the real-time share is added, it is the largest level \<open>x\<close> at which the core work stretched by \<open>cap / x\<close>,
  together with \<open>M\<close>, still fills the cpu: \<open>x * cap \<le> core * cap + x * M\<close>. The margin is the one of the tunables, and in performance mode twice it times
  the core part of the work. There the code divides by the work at the current
  frequency without a check, and the computation is undefined exactly when that is zero, as on a cpu whose signals have decayed.
  Capacity and frequency scale are at most 1024, the averages and the real-time share at most \<open>2 ^ 20\<close>.\<close>

theorem memory_aware_util_solves_model:
  assumes "unat cap \<le> 1024" "unat rt \<le> 1048576"
    and "unat (core_util_avg (cfs_avg_of cpu s)) \<le> 1048576" "unat (memory_util_avg (cfs_avg_of cpu s)) \<le> 1048576"
    and "unat (arch_scale_freq_capacity (kern_api G) cpu) \<le> 1024"
  shows "(pkshin_util G cpu cap rt s = None \<longleftrightarrow> pkshin_perf_enabled s \<and> scaled_work G cpu s = 0)
    \<and> (\<forall>u. pkshin_util G cpu cap rt s = Some u \<longrightarrow>
        (let core = unat (core_util_avg (cfs_avg_of cpu s)); M = memory_time G cpu s in
          (unat cap \<le> M + core \<longrightarrow> u = cap) \<and>
          (M + core < unat cap \<longrightarrow> (\<exists>v. unat u = min (v + unat rt) (unat cap) \<and>
            (\<forall>x. x \<le> v \<longleftrightarrow> x * unat cap \<le> core * unat cap + x * M)))))"
proof (intro conjI [OF pkshin_util_value(1) [OF assms]] allI impI)
  fix u
  assume "pkshin_util G cpu cap rt s = Some u"
  note v = pkshin_util_value(2) [OF assms this]
  show "let core = unat (core_util_avg (cfs_avg_of cpu s)); M = memory_time G cpu s in
      (unat cap \<le> M + core \<longrightarrow> u = cap) \<and>
      (M + core < unat cap \<longrightarrow> (\<exists>v. unat u = min (v + unat rt) (unat cap) \<and>
        (\<forall>x. x \<le> v \<longleftrightarrow> x * unat cap \<le> core * unat cap + x * M)))"
    using level_iff by (auto simp: v Let_def word_unat_eq_iff)
qed

theorem memory_aware_util_solves_model_witness:
  "(\<exists>u. pkshin_util demo_gapi 3 1024 0 loaded_gov = Some u \<and>
    (\<exists>v. unat u = min (v + 0) 1024 \<and> (\<forall>x. x \<le> v \<longleftrightarrow> x * 1024 \<le> 300 * 1024 + x * 250)))
   \<and> (\<exists>u. pkshin_util demo_gapi 3 1024 0 (loaded_gov\<lparr>pkshin_perf_enabled := True\<rparr>) = Some u \<and>
    (\<exists>v. unat u = min (v + 0) 1024 \<and> (\<forall>x. x \<le> v \<longleftrightarrow> x * 1024 \<le> 300 * 1024 + x * 259)))"
proof -
  have "\<exists>u. pkshin_util demo_gapi 3 1024 0 g = Some u \<and>
      (\<exists>v. unat u = min (v + 0) 1024 \<and> (\<forall>x. x \<le> v \<longleftrightarrow> x * 1024 \<le> 300 * 1024 + x * memory_time demo_gapi 3 g))"
    if g: "cfs_avg_of 3 g = cfs_avg_of 3 loaded_gov" "memory_time demo_gapi 3 g < 724" for g
    using memory_aware_util_solves_model [of 1024 0 3 g demo_gapi] g
    by (cases "pkshin_util demo_gapi 3 1024 0 g")
      (auto simp: loaded_values Let_def scaled_work_def demo_gapi_def plain_api_def)
  from this [of loaded_gov] this [of "loaded_gov\<lparr>pkshin_perf_enabled := True\<rparr>"] show ?thesis
    by (simp add: loaded_memory_time perf_memory_time cfs_avg_of_def)
qed

text \<open>The frequency requested is \<open>(f + f * margin / 1024) * util / max\<close>, computed without overflow in 64
  bits and without truncation to 32 bits, when the margin is at most its sysfs maximum, \<open>f < UINT_MAX / 2\<close>
  and \<open>util \<le> max\<close>; an unchanged raw frequency returns the previous decision, any other one is resolved
  by the driver and remembered.\<close>

theorem next_freq_formula:
  assumes "\<not> pkshin_perf_enabled s" "unat (policy_margin p s) \<le> 1024" "unat (base_freq G p s) < 2147483648"
    and "util \<le> mx" "mx \<noteq> 0" "unat mx \<le> 4294967295"
  shows "\<exists>r. unat r = raw_freq (unat (base_freq G p s)) (unat (policy_margin p s)) (unat util) (unat mx)
    \<and> unat r \<le> unat (base_freq G p s) + unat (base_freq G p s) * unat (policy_margin p s) div 1024
    \<and> get_next_freq G p cpu util mx s =
      (if r = cached_raw_freq (sgp_at s p) \<and> next_freq (sgp_at s p) \<noteq> UINT_MAX then Some (next_freq (sgp_at s p), s)
       else Some (cpufreq_driver_resolve_freq G (policy_at s (sg_pol (sgp_at s p))) r, upd_sgp p (\<lambda>sg. sg\<lparr>cached_raw_freq := r\<rparr>) s))"
proof -
  let ?r = "word_of_nat (raw_freq (unat (base_freq G p s)) (unat (policy_margin p s)) (unat util) (unat mx)) :: u32"
  have "unat ?r = raw_freq (unat (base_freq G p s)) (unat (policy_margin p s)) (unat util) (unat mx)"
    using get_next_freq_value(2) [OF assms] by (simp add: of_nat_eq_unat)
  moreover have "unat util \<le> unat mx" using assms(4) by (simp add: word_le_nat_alt)
  ultimately show ?thesis
    using get_next_freq_spec [OF assms refl, of cpu] raw_freq_le [of "unat util" "unat mx"] by (intro exI [of _ ?r]) simp
qed

theorem next_freq_formula_witness:
  "\<exists>r. unat r = raw_freq 2265600 256 600 1024 \<and> get_next_freq demo_gapi 0 3 600 1024 demo_gov
     = Some (r, upd_sgp 0 (\<lambda>sg. sg\<lparr>cached_raw_freq := r\<rparr>) demo_gov)"
  using next_freq_formula [of demo_gov 0 demo_gapi 600 1024 3]
  by (auto simp: demo_values)

text \<open>The utilisation never exceeds the capacity handed out with it, whatever the tracking modules, the
  margin and the signals are.\<close>

theorem get_util_bounded:
  assumes "sugov_get_util G cpu time s = Some (util, mx, s')"
  shows "util \<le> mx \<and> mx = arch_scale_cpu_capacity (kern_api G) cpu \<and> s' = upd_kern (upd_rq cpu (sched_avg_update G)) s"
  using get_util_props [OF assms] by simp

theorem get_util_bounded_witness:
  "\<exists>u s'. sugov_get_util demo_gapi 3 5000000 loaded_gov = Some (u, 1024, s') \<and> u \<le> 1024"
proof -
  obtain u m s' where g: "sugov_get_util demo_gapi 3 5000000 loaded_gov = Some (u, m, s')"
    by (simp add: sugov_get_util_def rt_share_def sched_avg_period_def pkshin_util_def Let_def loaded_gov_def
        loaded_kern_def demo_defs zero_defs upd_kern_def upd_rq_def)
  show ?thesis using get_util_bounded [OF g] g by (auto simp: demo_gapi_def plain_api_def)
qed

text \<open>C2: A decision respects the rate limits. If an update hook changes \<open>next_freq\<close> and no limit change
  was pending, then no request was in flight, the new one is queued and stamped, and the time since the
  previous decision is at least the delay of the direction taken and the smaller of the two delays.\<close>

theorem rate_limits_respected:
  assumes "hook_run G p c t f s s'" "\<not> fast_switch_enabled (policy_at s (sg_pol (sgp_at s p)))"
    and "\<not> need_freq_update (sgp_at s p)" "next_freq (sgp_at s' p) \<noteq> next_freq (sgp_at s p)"
  shows "\<not> work_in_progress (sgp_at s p) \<and> work_in_progress (sgp_at s' p) \<and> irq_pending (sgp_at s' p)
    \<and> last_freq_update_time (sgp_at s' p) = t
    \<and> sint (min_rate_limit_ns (sgp_at s p)) \<le> sint (t - last_freq_update_time (sgp_at s p))
    \<and> sint (if next_freq (sgp_at s p) < next_freq (sgp_at s' p) then up_rate_delay_ns (sgp_at s p) else down_rate_delay_ns (sgp_at s p))
        \<le> sint (t - last_freq_update_time (sgp_at s p))"
  by (rule hook_result_rate [OF hook_run_result(1) [OF assms(1,2)] assms(3,4)])

definition second_decision :: gov_state where
  "second_decision = demo_gov\<lparr>sgp_at := (\<lambda>_. demo_sgp\<lparr>next_freq := 1000\<rparr>)\<rparr>"

lemma demo_hook:
  "hook_run demo_gapi 0 1 9000000 2 second_decision
     (upd_sgp 0 (commit_sg 9000000 2265600) (upd_sgc 1 (\<lambda>g. g\<lparr>last_update := 9000000, sg_flags := 2\<rparr>) second_decision))"
  by (simp add: hook_run_def sugov_update_shared_def Let_def sugov_set_iowait_boost_def sugov_should_update_freq_def
      sugov_update_commit_def sugov_up_down_rate_limit_def commit_sg_def second_decision_def demo_defs gov_upd_defs)

theorem rate_limits_respected_witness:
  "\<exists>s'. hook_run demo_gapi 0 1 9000000 2 second_decision s' \<and> last_freq_update_time (sgp_at s' 0) = 9000000"
  using rate_limits_respected [OF demo_hook] demo_hook
  by (auto simp: second_decision_def demo_defs commit_sg_def gov_upd_defs)

text \<open>C12: One request at a time, delivered unchanged. In every state reachable from an idle slow-switching
  policy, while a request is in flight no step (update hooks, changes of limits, the two halves of the
  hand-over) changes the frequency decided, and the step that ends it is the driver call with exactly that
  frequency.\<close>

theorem request_delivered_unchanged:
  assumes "slow_idle p s0" "driver_keeps_mode G" "(gov_step G p)\<^sup>*\<^sup>* s0 s"
    and "work_in_progress (sgp_at s p)" "gov_step G p s s'"
  shows "next_freq (sgp_at s' p) = next_freq (sgp_at s p)
    \<and> (work_in_progress (sgp_at s' p) \<and> driver_calls s' = driver_calls s
      \<or> \<not> work_in_progress (sgp_at s' p) \<and> driver_calls s' = driver_calls s @ [(sg_pol (sgp_at s p), next_freq (sgp_at s p))])"
  by (rule in_flight_step [OF assms(5) gov_reach_ok [OF assms(3,2) slow_idle_ok [OF assms(1)]] assms(4)])

definition decided :: gov_state where
  "decided = upd_sgp 0 (commit_sg 9000000 2265600) (upd_sgc 1 (\<lambda>g. g\<lparr>last_update := 9000000, sg_flags := 2\<rparr>) second_decision)"

lemma demo_reach: "slow_idle 0 second_decision" "driver_keeps_mode demo_gapi" "(gov_step demo_gapi 0)\<^sup>*\<^sup>* second_decision decided"
  "work_in_progress (sgp_at decided 0)" "irq_pending (sgp_at decided 0)"
proof -
  show "slow_idle 0 second_decision" "driver_keeps_mode demo_gapi"
    by (simp_all add: slow_idle_def driver_keeps_mode_def second_decision_def demo_defs)
  show "(gov_step demo_gapi 0)\<^sup>*\<^sup>* second_decision decided"
    using gov_step.hook [OF demo_hook] unfolding decided_def by (rule r_into_rtranclp)
  show "work_in_progress (sgp_at decided 0)" "irq_pending (sgp_at decided 0)"
    by (simp_all add: decided_def commit_sg_def)
qed

theorem request_delivered_unchanged_witness:
  "next_freq (sgp_at (sugov_irq_work 0 decided) 0) = 2265600"
  using request_delivered_unchanged [OF demo_reach(1-4) gov_step.irq [OF demo_reach(5)]]
  by (simp add: decided_def commit_sg_def)

text \<open>A request in flight can always be completed: the steps that end it are enabled, and they call the
  driver with the decided frequency and free the governor for the next decision.\<close>

theorem request_completes:
  assumes "slow_idle p s0" "driver_keeps_mode G" "(gov_step G p)\<^sup>*\<^sup>* s0 s" "work_in_progress (sgp_at s p)"
  shows "\<exists>s'. (gov_step G p)\<^sup>*\<^sup>* s s' \<and> \<not> work_in_progress (sgp_at s' p)
    \<and> driver_calls s' = driver_calls s @ [(sg_pol (sgp_at s p), next_freq (sgp_at s p))]"
  by (rule in_flight_completes [OF gov_reach_ok [OF assms(3,2) slow_idle_ok [OF assms(1)]] assms(4)])

theorem request_completes_witness:
  "\<exists>s'. (gov_step demo_gapi 0)\<^sup>*\<^sup>* decided s' \<and> \<not> work_in_progress (sgp_at s' 0)"
  using request_completes [OF demo_reach(1-4)] by blast




end
