(* ===== verification/Sysfs.thy ===== *)
theory Sysfs
  imports Governor
begin

text \<open>
  The files the governor shows under sysfs, \<open>cpufreq_schedutil.c\<close> lines 628--764, and the decimal
  numbers they are read and written in. \<open>sprintf\<close> is modelled for the formats the code uses;
  the parsers \<open>kstrtouint\<close> and \<open>kstrtoul\<close> of the kernel's library are parameters.
\<close>

section \<open>Decimal numbers\<close>

text \<open>\<open>sprintf\<close> with \<open>%u\<close> or \<open>%lu\<close>.\<close>

fun decimal :: "nat \<Rightarrow> string" where
  "decimal n = (if n < 10 then [char_of (48 + n)] else decimal (n div 10) @ [char_of (48 + n mod 10)])"

declare decimal.simps [simp del]

abbreviation (input) newline :: char where "newline \<equiv> CHR 0x0A"

text \<open>
  What the code relies on: the parser reads back a decimal number that fits, and accepts one newline
  after it. \<open>None\<close> is the error result.
\<close>

definition kstr_ok :: "(string \<Rightarrow> 'a::len word option) \<Rightarrow> bool" where
  "kstr_ok k \<longleftrightarrow> (\<forall>w. k (decimal (unat w)) = Some w \<and> k (decimal (unat w) @ [newline]) = Some w)"

text \<open>A parser that does so.\<close>

definition digit_of :: "char \<Rightarrow> nat option" where
  "digit_of c = (if 48 \<le> (of_char c :: nat) \<and> of_char c \<le> (57 :: nat) then Some (of_char c - 48) else None)"

fun read_digits :: "nat \<Rightarrow> string \<Rightarrow> nat option" where
  "read_digits acc [] = Some acc"
| "read_digits acc (c # cs) =
     (case digit_of c of Some d \<Rightarrow> read_digits (10 * acc + d) cs
      | None \<Rightarrow> if c = newline \<and> cs = [] then Some acc else None)"

definition parse_decimal :: "string \<Rightarrow> 'a::len word option" where
  "parse_decimal b =
     (case b of [] \<Rightarrow> None
      | c # _ \<Rightarrow> if digit_of c = None then None
          else (case read_digits 0 b of
             Some n \<Rightarrow> if n < 2 ^ LENGTH('a) then Some (word_of_nat n) else None
           | None \<Rightarrow> None))"

lemma digit_of_char [simp]: "d < 10 \<Longrightarrow> digit_of (char_of (48 + d)) = Some d"
  by (simp add: digit_of_def)

lemma digit_of_newline [simp]: "digit_of newline = None"
  by (simp add: digit_of_def)

fun weight10 :: "nat \<Rightarrow> nat" where
  "weight10 n = (if n < 10 then 10 else 10 * weight10 (n div 10))"

declare weight10.simps [simp del]

lemma read_decimal: "read_digits acc (decimal n @ cs) = read_digits (acc * weight10 n + n) cs"
proof (induction n arbitrary: acc cs rule: decimal.induct)
  case (1 n)
  show ?case
  proof (cases "n < 10")
    case True
    then show ?thesis by (subst decimal.simps, subst weight10.simps) (simp add: mult.commute)
  next
    case False
    have "read_digits acc (decimal n @ cs) = read_digits acc (decimal (n div 10) @ [char_of (48 + n mod 10)] @ cs)"
      using False by (subst decimal.simps) simp
    also have "\<dots> = read_digits (acc * weight10 (n div 10) + n div 10) ([char_of (48 + n mod 10)] @ cs)"
      using 1 False by blast
    also have "\<dots> = read_digits (acc * weight10 n + n) cs"
      using False by (subst (2) weight10.simps) (simp add: algebra_simps)
    finally show ?thesis .
  qed
qed

lemma decimal_head: "\<exists>c cs. decimal n = c # cs \<and> digit_of c \<noteq> None"
proof (induction n rule: decimal.induct)
  case (1 n)
  show ?case
  proof (cases "n < 10")
    case True
    then show ?thesis by (subst decimal.simps) simp
  next
    case False
    then obtain c cs where "decimal (n div 10) = c # cs" "digit_of c \<noteq> None" using 1 by blast
    then show ?thesis using False by (subst decimal.simps) simp
  qed
qed

lemma kstr_ok_parse [simp]: "kstr_ok (parse_decimal :: string \<Rightarrow> 'a::len word option)"
  unfolding kstr_ok_def
proof (intro allI conjI)
  fix w :: "'a word"
  obtain c cs where d: "decimal (unat w) = c # cs" "digit_of c \<noteq> None" using decimal_head by blast
  have r: "read_digits 0 (decimal (unat w)) = Some (unat w)" "read_digits 0 (decimal (unat w) @ [newline]) = Some (unat w)"
    using read_decimal [of 0 "unat w" "[]"] read_decimal [of 0 "unat w" "[newline]"] by simp_all
  show "parse_decimal (decimal (unat w)) = Some w" "parse_decimal (decimal (unat w) @ [newline]) = Some w"
    using r d unfolding parse_decimal_def by simp_all
qed

section \<open>The governor's attributes\<close>

abbreviation (input) EINVAL :: int where "EINVAL \<equiv> 22"
definition CAPACITY_MARGIN_MAX_VALUE :: u32 where "CAPACITY_MARGIN_MAX_VALUE = 1024"
abbreviation (input) NSEC_PER_USEC :: s64 where "NSEC_PER_USEC \<equiv> 1000"

definition update_min_rate_limit_us :: "sgp_id \<Rightarrow> gov_state \<Rightarrow> gov_state" where
  "update_min_rate_limit_us p s =
     upd_sgp p (\<lambda>sg. sg\<lparr>min_rate_limit_ns := s64_min (up_rate_delay_ns sg) (down_rate_delay_ns sg)\<rparr>) s"

definition up_rate_limit_us_show :: "tun_id \<Rightarrow> gov_state \<Rightarrow> string" where
  "up_rate_limit_us_show t s = decimal (unat (up_rate_limit_us (tun_at s t))) @ [newline]"

definition down_rate_limit_us_show :: "tun_id \<Rightarrow> gov_state \<Rightarrow> string" where
  "down_rate_limit_us_show t s = decimal (unat (down_rate_limit_us (tun_at s t))) @ [newline]"

definition up_rate_limit_us_store ::
  "(string \<Rightarrow> u32 option) \<Rightarrow> tun_id \<Rightarrow> string \<Rightarrow> nat \<Rightarrow> gov_state \<Rightarrow> int \<times> gov_state" where
  "up_rate_limit_us_store kstrtouint t buf count s =
     (case kstrtouint buf of
        None \<Rightarrow> (- EINVAL, s)
      | Some r \<Rightarrow>
          (let s = upd_tun t (\<lambda>u. u\<lparr>up_rate_limit_us := r\<rparr>) s
           in (int count,
               fold (\<lambda>p s. update_min_rate_limit_us p (upd_sgp p (\<lambda>sg. sg\<lparr>up_rate_delay_ns := ucast r * NSEC_PER_USEC\<rparr>) s))
                 (policy_list (attr_set (tun_at s t))) s)))"

definition iowait_boost_max_show :: "tun_id \<Rightarrow> gov_state \<Rightarrow> string" where
  "iowait_boost_max_show t s = decimal (unat (iowait_boost_max (tun_at s t))) @ [newline]"

definition iowait_boost_max_store ::
  "(string \<Rightarrow> u64 option) \<Rightarrow> tun_id \<Rightarrow> string \<Rightarrow> nat \<Rightarrow> gov_state \<Rightarrow> int \<times> gov_state" where
  "iowait_boost_max_store kstrtoul t buf count s =
     (case kstrtoul buf of
        None \<Rightarrow> (- EINVAL, s)
      | Some v \<Rightarrow> (int count, upd_tun t (\<lambda>u. u\<lparr>iowait_boost_max := v\<rparr>) s))"

definition capacity_margin_show :: "tun_id \<Rightarrow> gov_state \<Rightarrow> string" where
  "capacity_margin_show t s = decimal (unat (capacity_margin (tun_at s t))) @ [newline]"

definition capacity_margin_store ::
  "(string \<Rightarrow> u32 option) \<Rightarrow> tun_id \<Rightarrow> string \<Rightarrow> nat \<Rightarrow> gov_state \<Rightarrow> int \<times> gov_state" where
  "capacity_margin_store kstrtouint t buf count s =
     (case kstrtouint buf of
        None \<Rightarrow> (- EINVAL, s)
      | Some m \<Rightarrow>
          if m > CAPACITY_MARGIN_MAX_VALUE then (- EINVAL, s)
          else (int count, upd_tun t (\<lambda>u. u\<lparr>capacity_margin := m\<rparr>) s))"

definition down_rate_limit_us_store ::
  "(string \<Rightarrow> u32 option) \<Rightarrow> tun_id \<Rightarrow> string \<Rightarrow> nat \<Rightarrow> gov_state \<Rightarrow> int \<times> gov_state" where
  "down_rate_limit_us_store kstrtouint t buf count s =
     (case kstrtouint buf of
        None \<Rightarrow> (- EINVAL, s)
      | Some r \<Rightarrow>
          (let s = upd_tun t (\<lambda>u. u\<lparr>down_rate_limit_us := r\<rparr>) s
           in (int count,
               fold (\<lambda>p s. update_min_rate_limit_us p (upd_sgp p (\<lambda>sg. sg\<lparr>down_rate_delay_ns := ucast r * NSEC_PER_USEC\<rparr>) s))
                 (policy_list (attr_set (tun_at s t))) s)))"

section \<open>What a store leaves behind\<close>

lemma fold_upd_sgp:
  assumes "\<And>g. f (f g) = f g"
  shows "sgp_at (fold (\<lambda>p. upd_sgp p f) L s) q = (if q \<in> set L then f (sgp_at s q) else sgp_at s q)"
proof (induction L arbitrary: s)
  case (Cons p L)
  then show ?case using assms by (auto simp: gov_upd_defs)
qed simp

lemma fold_upd_sgp_frame [simp]:
  "policy_at (fold (\<lambda>p. upd_sgp p f) L s) = policy_at s" "tun_at (fold (\<lambda>p. upd_sgp p f) L s) = tun_at s"
  "sgc_at (fold (\<lambda>p. upd_sgp p f) L s) = sgc_at s" "kern (fold (\<lambda>p. upd_sgp p f) L s) = kern s"
  by (induction L arbitrary: s) simp_all

text \<open>What a store of a rate does to a policy.\<close>

definition set_up_rate :: "u32 \<Rightarrow> sugov_policy \<Rightarrow> sugov_policy" where
  "set_up_rate r sg = sg\<lparr>up_rate_delay_ns := ucast r * NSEC_PER_USEC,
     min_rate_limit_ns := s64_min (ucast r * NSEC_PER_USEC) (down_rate_delay_ns sg)\<rparr>"

definition set_down_rate :: "u32 \<Rightarrow> sugov_policy \<Rightarrow> sugov_policy" where
  "set_down_rate r sg = sg\<lparr>down_rate_delay_ns := ucast r * NSEC_PER_USEC,
     min_rate_limit_ns := s64_min (up_rate_delay_ns sg) (ucast r * NSEC_PER_USEC)\<rparr>"

lemma set_rate_idem: "set_up_rate r (set_up_rate r g) = set_up_rate r g" "set_down_rate r (set_down_rate r g) = set_down_rate r g"
  by (simp_all add: set_up_rate_def set_down_rate_def)

lemma rate_round:
  "update_min_rate_limit_us p (upd_sgp p (\<lambda>sg. sg\<lparr>up_rate_delay_ns := ucast r * NSEC_PER_USEC\<rparr>) s) = upd_sgp p (set_up_rate r) s"
  "update_min_rate_limit_us p (upd_sgp p (\<lambda>sg. sg\<lparr>down_rate_delay_ns := ucast r * NSEC_PER_USEC\<rparr>) s) = upd_sgp p (set_down_rate r) s"
  by (simp_all add: update_min_rate_limit_us_def set_up_rate_def set_down_rate_def gov_upd_defs)

lemma up_store_eq:
  "up_rate_limit_us_store k t b n s =
     (case k b of None \<Rightarrow> (- EINVAL, s)
      | Some r \<Rightarrow> (int n, fold (\<lambda>p. upd_sgp p (set_up_rate r)) (policy_list (attr_set (tun_at s t)))
                           (upd_tun t (\<lambda>u. u\<lparr>up_rate_limit_us := r\<rparr>) s)))"
  by (simp add: up_rate_limit_us_store_def rate_round Let_def split: option.splits)

lemma down_store_eq:
  "down_rate_limit_us_store k t b n s =
     (case k b of None \<Rightarrow> (- EINVAL, s)
      | Some r \<Rightarrow> (int n, fold (\<lambda>p. upd_sgp p (set_down_rate r)) (policy_list (attr_set (tun_at s t)))
                           (upd_tun t (\<lambda>u. u\<lparr>down_rate_limit_us := r\<rparr>) s)))"
  by (simp add: down_rate_limit_us_store_def rate_round Let_def split: option.splits)

lemma rate_value: "unat (ucast (r :: u32) * NSEC_PER_USEC) = 1000 * unat r"
  using unat_lt_u32 [of r] by (simp add: unat_times_u64 mult.commute del: unat_lt_u32)

text \<open>The smaller rate limit is the one a policy is gated by.\<close>

definition min_rate_ok :: "sugov_policy \<Rightarrow> bool" where
  "min_rate_ok sg \<longleftrightarrow> min_rate_limit_ns sg = s64_min (up_rate_delay_ns sg) (down_rate_delay_ns sg)"

lemma set_up_rate_fields:
  "up_rate_delay_ns (set_up_rate r g) = ucast r * NSEC_PER_USEC" "down_rate_delay_ns (set_up_rate r g) = down_rate_delay_ns g"
  by (simp_all add: set_up_rate_def)

lemma set_rate_min_ok: "min_rate_ok (set_up_rate r g)" "min_rate_ok (set_down_rate r g)"
  by (simp_all add: min_rate_ok_def set_up_rate_def set_down_rate_def)

text \<open>Writing a decimal number that fits to \<open>up_rate_limit_us\<close> takes effect for every policy that
  shares the tunables: the delay is that many microseconds in nanoseconds, without overflow, the gate is
  the smaller of the two delays, and reading the file returns the number. Policies that do not
  share the tunables keep their limits.\<close>

theorem up_rate_store_effect:
  fixes r :: u32
  assumes "kstr_ok kstrtouint"
    and "up_rate_limit_us_store kstrtouint t (decimal (unat r) @ [newline]) n s = (ret, s')"
  shows "ret = int n
    \<and> up_rate_limit_us_show t s' = decimal (unat r) @ [newline]
    \<and> down_rate_limit_us_show t s' = down_rate_limit_us_show t s
    \<and> (\<forall>p. if p \<in> set (policy_list (attr_set (tun_at s t)))
           then unat (up_rate_delay_ns (sgp_at s' p)) = 1000 * unat r
             \<and> down_rate_delay_ns (sgp_at s' p) = down_rate_delay_ns (sgp_at s p) \<and> min_rate_ok (sgp_at s' p)
           else sgp_at s' p = sgp_at s p)"
proof -
  have "kstrtouint (decimal (unat r) @ [newline]) = Some r" using assms(1) by (simp add: kstr_ok_def)
  then show ?thesis
    using assms(2) by (auto simp: up_store_eq up_rate_limit_us_show_def down_rate_limit_us_show_def fold_upd_sgp set_rate_idem set_rate_min_ok
      set_up_rate_fields rate_value)
qed

definition write_any :: "(string \<Rightarrow> u32 option) \<Rightarrow> tun_id \<Rightarrow> nat \<times> string \<Rightarrow> gov_state \<Rightarrow> gov_state" where
  "write_any k t = (\<lambda>(f, b) s. snd ((if f = 0 then up_rate_limit_us_store else if f = 1 then down_rate_limit_us_store
     else capacity_margin_store) k t b (length b) s))"

definition attrs_ok :: "tun_id \<Rightarrow> gov_state \<Rightarrow> bool" where
  "attrs_ok t s \<longleftrightarrow> capacity_margin (tun_at s t) \<le> 1024
     \<and> (\<forall>p \<in> set (policy_list (attr_set (tun_at s t))). min_rate_ok (sgp_at s p))"

lemma write_any_ok: "attrs_ok t s \<Longrightarrow> attrs_ok t (write_any k t w s)"
  by (cases w) (auto simp: write_any_def attrs_ok_def up_store_eq down_store_eq capacity_margin_store_def fold_upd_sgp
    set_rate_idem set_rate_min_ok CAPACITY_MARGIN_MAX_VALUE_def not_less split: option.splits if_splits)

text \<open>Any sequence of writes to the three limits keeps the gate the smaller of the delays, and keeps the
  capacity margin at most 1024 (a larger one is refused and changes nothing).\<close>

theorem writes_keep_limits:
  assumes "attrs_ok t s"
  shows "attrs_ok t (fold (write_any k t) ws s)"
  using assms by (induction ws arbitrary: s) (simp_all add: write_any_ok)

theorem writes_keep_limits_witness:
  "attrs_ok 0 (fold (write_any parse_decimal 0) [(2, decimal 2000), (0, decimal 3000)] demo_gov)"
  by (rule writes_keep_limits) (simp add: attrs_ok_def demo_defs min_rate_ok_def s64_min_def)

theorem up_rate_store_effect_witness:
  "\<exists>s'. up_rate_limit_us_store parse_decimal 0 (decimal (unat (3000 :: u32)) @ [newline]) 5 demo_gov = (5, s')
     \<and> up_rate_limit_us_show 0 s' = decimal (unat (3000 :: u32)) @ [newline]
     \<and> unat (up_rate_delay_ns (sgp_at s' 0)) = 3000000 \<and> min_rate_ok (sgp_at s' 0)"
proof -
  obtain ret s' where r: "up_rate_limit_us_store parse_decimal 0 (decimal (unat (3000 :: u32)) @ [newline]) 5 demo_gov = (ret, s')"
    by force
  have "0 \<in> set (policy_list (attr_set (tun_at demo_gov 0)))" by (simp add: demo_defs)
  then show ?thesis using r up_rate_store_effect [OF kstr_ok_parse r] by (auto dest: spec [of _ 0])
qed

text \<open>Writing 0 to \<open>iowait_boost_max\<close> is accepted, and while a boost is pending on a cpu the next
  decision for it divides by zero: applying the boost makes the capacity 0, for which the
  frequency formula is undefined.\<close>

theorem zero_boost_max_store:
  fixes mx :: ulong
  assumes "kstr_ok kstrtoul"
    and "t = sg_tunables (sgp_at s (sg_policy (sgc_at s c)))"
    and "iowait_boost_max_store kstrtoul t (decimal 0) 1 s = (ret, s')"
    and "mx * iowait_boost (sgc_at s c) \<noteq> 0"
  shows "ret = 1 \<and> (\<exists>u s''. sugov_iowait_boost c (util, mx) s' = ((u, 0), s'') \<and> get_next_freq G p cpu u 0 s'' = None)"
proof -
  have "kstrtoul (decimal (unat (0 :: u64))) = Some 0" using assms(1) unfolding kstr_ok_def by blast
  then have r: "ret = 1" and s': "s' = upd_tun t (\<lambda>u. u\<lparr>iowait_boost_max := 0\<rparr>) s"
    using assms(3) by (simp_all add: iowait_boost_max_store_def)
  have "boost_max_of c s' = 0" "sgc_at s' = sgc_at s"
    by (simp_all add: s' boost_max_of_def assms(2))
  moreover have "iowait_boost (sgc_at s c) \<noteq> 0" using assms(4) by auto
  ultimately have "snd (fst (sugov_iowait_boost c (util, mx) s')) = 0"
    using assms(4) by (intro boost_zero_max) simp_all
  then show ?thesis using r by (cases "sugov_iowait_boost c (util, mx) s'") (auto simp: zero_capacity_undefined)
qed

theorem zero_boost_max_store_witness:
  "\<exists>ret u s''. ret = 1 \<and> sugov_iowait_boost 0 (5, 1024)
       (snd (iowait_boost_max_store parse_decimal 0 (decimal 0) 1 (upd_sgc 0 (\<lambda>g. g\<lparr>iowait_boost := 8\<rparr>) demo_gov))) = ((u, 0), s'')
     \<and> get_next_freq demo_gapi 0 0 u 0 s'' = None"
proof -
  let ?s = "upd_sgc 0 (\<lambda>g. g\<lparr>iowait_boost := 8\<rparr>) demo_gov"
  obtain ret s' where r: "iowait_boost_max_store parse_decimal 0 (decimal 0) 1 ?s = (ret, s')" by force
  have "ret = 1 \<and> (\<exists>u s''. sugov_iowait_boost 0 (5, 1024) s' = ((u, 0), s'') \<and> get_next_freq demo_gapi 0 0 u 0 s'' = None)"
    by (rule zero_boost_max_store [OF kstr_ok_parse _ r]) (simp_all add: demo_defs)
  then show ?thesis using r by auto
qed

end
