(* ===== verification/Lifecycle.thy ===== *)
theory Lifecycle
  imports Sysfs
begin

text \<open>
  The governor's life on a policy, \<open>cpufreq_schedutil.c\<close> lines 766--1046: allocation and release of
  the policy's and the tunables' objects, the kernel thread, \<open>sugov_init\<close>, \<open>sugov_exit\<close>, \<open>sugov_start\<close>
  and \<open>sugov_stop\<close>, with every error path. The cpufreq core calls them in order; the step relation
  \<open>life\<close> says which order, and its invariant says that no object leaks, is freed twice or is used after
  it was freed.

  Objects are live from allocation to \<open>kfree\<close>. Freeing an object that is not live, following a \<open>NULL\<close>
  pointer, taking a mutex that is held and releasing one that is not held yield \<open>None\<close>.
\<close>

section \<open>The surroundings\<close>

text \<open>
  What one call meets: the results of the allocator, of the thread's creation and scheduling class and of
  the registration under sysfs, whether every policy has its own tunables, the driver's fast switch, and
  the counted sets of attributes (\<open>gov_attr_set_init\<close>, \<open>_get\<close>, \<open>_put\<close>), all of which lie outside the
  repository.
\<close>

record gov_env =
  env_api :: gapi
  have_governor_per_policy :: bool
  cpufreq_enable_fast_switch :: "cpufreq_policy \<Rightarrow> cpufreq_policy"
  cpufreq_disable_fast_switch :: "cpufreq_policy \<Rightarrow> cpufreq_policy"
  kzalloc_sgp :: "sgp_id list \<Rightarrow> sgp_id option"
  kzalloc_tun :: "tun_id list \<Rightarrow> tun_id option"
  kthread_create_err :: int
  sched_setscheduler_ret :: int
  kobject_add_ret :: int
  gov_attr_set_init :: "sgp_id \<Rightarrow> gov_attr_set"
  gov_attr_set_get :: "gov_attr_set \<Rightarrow> sgp_id \<Rightarrow> gov_attr_set"
  gov_attr_set_put :: "gov_attr_set \<Rightarrow> sgp_id \<Rightarrow> nat \<times> gov_attr_set"

text \<open>Their documented behaviour: a fresh object or none; switching modes touches nothing the governor
  keeps; a set starts with one user, counts its users and lists their policies.\<close>

definition same_mode :: "cpufreq_policy \<Rightarrow> cpufreq_policy \<Rightarrow> bool" where
  "same_mode q q' \<longleftrightarrow> governor_data q' = governor_data q \<and> policy_cpus q' = policy_cpus q
     \<and> fast_switch_enabled q' = fast_switch_enabled q"

definition env_ok :: "gov_env \<Rightarrow> bool" where
  "env_ok E \<longleftrightarrow>
     (\<forall>l p. kzalloc_sgp E l = Some p \<longrightarrow> p \<notin> set l) \<and> (\<forall>l t. kzalloc_tun E l = Some t \<longrightarrow> t \<notin> set l)
     \<and> (\<forall>q. governor_data (cpufreq_enable_fast_switch E q) = governor_data q
            \<and> policy_cpus (cpufreq_enable_fast_switch E q) = policy_cpus q
            \<and> governor_data (cpufreq_disable_fast_switch E q) = governor_data q
            \<and> policy_cpus (cpufreq_disable_fast_switch E q) = policy_cpus q)
     \<and> (\<forall>p. gov_attr_set_init E p = \<lparr>policy_list = [p], usage_count = 1\<rparr>)
     \<and> (\<forall>a p. gov_attr_set_get E a p = \<lparr>policy_list = p # policy_list a, usage_count = Suc (usage_count a)\<rparr>)
     \<and> (\<forall>a p. gov_attr_set_put E a p =
            (usage_count a - 1, \<lparr>policy_list = remove1 p (policy_list a), usage_count = usage_count a - 1\<rparr>))
     \<and> (\<forall>f q. same_mode q (cpufreq_driver_target (env_api E) f q)) \<and> (\<forall>q. same_mode q (cpufreq_policy_apply_limits (env_api E) q))"

section \<open>Mutexes\<close>

definition lock_tunables :: "gov_state \<Rightarrow> gov_state option" where
  "lock_tunables s = (if tunables_locked s then None else Some (s\<lparr>tunables_locked := True\<rparr>))"

definition unlock_tunables :: "gov_state \<Rightarrow> gov_state option" where
  "unlock_tunables s = (if tunables_locked s then Some (s\<lparr>tunables_locked := False\<rparr>) else None)"

section \<open>Objects\<close>

definition zero_sgp :: sugov_policy where
  "zero_sgp = \<lparr>sg_pol = 0, sg_tunables = 0, last_freq_update_time = 0, min_rate_limit_ns = 0, up_rate_delay_ns = 0,
     down_rate_delay_ns = 0, next_freq = 0, cached_raw_freq = 0, irq_pending = False, work_pending = False,
     sg_thread = False, work_in_progress = False, need_freq_update = False\<rparr>"

definition sugov_policy_alloc :: "gov_env \<Rightarrow> pol_id \<Rightarrow> gov_state \<Rightarrow> sgp_id option \<times> gov_state" where
  "sugov_policy_alloc E i s =
     (case kzalloc_sgp E (live_sgp s) of
        None \<Rightarrow> (None, s)
      | Some p \<Rightarrow> (Some p, upd_sgp p (\<lambda>_. zero_sgp\<lparr>sg_pol := i\<rparr>) (s\<lparr>live_sgp := p # live_sgp s\<rparr>)))"

definition sugov_policy_free :: "sgp_id \<Rightarrow> gov_state \<Rightarrow> gov_state option" where
  "sugov_policy_free p s = (if p \<in> set (live_sgp s) then Some (s\<lparr>live_sgp := remove1 p (live_sgp s)\<rparr>) else None)"

definition zero_tunables :: sugov_tunables where
  "zero_tunables = \<lparr>attr_set = \<lparr>policy_list = [], usage_count = 0\<rparr>, iowait_boost_max = 0, up_rate_limit_us = 0,
     down_rate_limit_us = 0, capacity_margin = 0\<rparr>"

definition sugov_tunables_alloc :: "gov_env \<Rightarrow> sgp_id \<Rightarrow> gov_state \<Rightarrow> tun_id option \<times> gov_state" where
  "sugov_tunables_alloc E p s =
     (case kzalloc_tun E (live_tun s) of
        None \<Rightarrow> (None, s)
      | Some t \<Rightarrow>
          let s = upd_tun t (\<lambda>_. zero_tunables\<lparr>attr_set := gov_attr_set_init E p\<rparr>) (s\<lparr>live_tun := t # live_tun s\<rparr>)
          in (Some t, if have_governor_per_policy E then s else s\<lparr>global_tunables := Some t\<rparr>))"

definition sugov_tunables_free :: "gov_env \<Rightarrow> tun_id \<Rightarrow> gov_state \<Rightarrow> gov_state option" where
  "sugov_tunables_free E t s =
     (let s = (if have_governor_per_policy E then s else s\<lparr>global_tunables := None\<rparr>)
      in if t \<in> set (live_tun s) then Some (s\<lparr>live_tun := remove1 t (live_tun s)\<rparr>) else None)"

section \<open>The kernel thread\<close>

text \<open>The thread exists (\<open>sg_thread\<close>) from its creation to \<open>kthread_stop\<close>; a thread whose scheduling
  class could not be set is stopped at once. The result is 0 or the error.\<close>

definition sugov_kthread_create :: "gov_env \<Rightarrow> sgp_id \<Rightarrow> gov_state \<Rightarrow> int \<times> gov_state" where
  "sugov_kthread_create E p s =
     (let policy = policy_at s (sg_pol (sgp_at s p)) in
      if fast_switch_enabled policy then (0, s)
      else let s = upd_sgp p (\<lambda>sg. sg\<lparr>work_pending := False\<rparr>) s in
        if kthread_create_err E \<noteq> 0 then (kthread_create_err E, s)
        else if sched_setscheduler_ret E \<noteq> 0 then (sched_setscheduler_ret E, s)
        else (0, upd_sgp p (\<lambda>sg. sg\<lparr>sg_thread := True, irq_pending := False\<rparr>) s))"

text \<open>\<open>kthread_flush_worker\<close> waits for queued work to run.\<close>

definition sugov_kthread_stop :: "gov_env \<Rightarrow> sgp_id \<Rightarrow> gov_state \<Rightarrow> gov_state option" where
  "sugov_kthread_stop E p s =
     (if fast_switch_enabled (policy_at s (sg_pol (sgp_at s p))) then Some s
      else let s = (if work_pending (sgp_at s p) then sugov_work (env_api E) p s else s)
        in if sg_thread (sgp_at s p) then Some (upd_sgp p (\<lambda>sg. sg\<lparr>sg_thread := False\<rparr>) s) else None)"

section \<open>Initialisation\<close>

abbreviation (input) EBUSY :: int where "EBUSY \<equiv> 16"
abbreviation (input) ENOMEM :: int where "ENOMEM \<equiv> 12"

abbreviation (input) LATENCY_MULTIPLIER :: u32 where "LATENCY_MULTIPLIER \<equiv> 1000"

text \<open>Lines 901--911. The limits derived from the transition latency are overwritten at once.\<close>

definition default_tunables :: "cpufreq_policy \<Rightarrow> sugov_tunables \<Rightarrow> sugov_tunables" where
  "default_tunables policy u =
     (let u = u\<lparr>up_rate_limit_us := LATENCY_MULTIPLIER, down_rate_limit_us := LATENCY_MULTIPLIER\<rparr>;
          lat = transition_latency policy div 1000;
          u = (if lat \<noteq> 0 then u\<lparr>up_rate_limit_us := up_rate_limit_us u * lat, down_rate_limit_us := down_rate_limit_us u * lat\<rparr>
               else u)
      in u\<lparr>up_rate_limit_us := 500, down_rate_limit_us := 2000, capacity_margin := 256\<rparr>)"

text \<open>The labels of the error path, from \<open>disable_fast_switch\<close> up; each falls through to the one before it
  here.\<close>

definition disable_fast_switch :: "gov_env \<Rightarrow> pol_id \<Rightarrow> int \<Rightarrow> gov_state \<Rightarrow> (int \<times> gov_state) option" where
  "disable_fast_switch E i ret s = Some (ret, upd_pol i (cpufreq_disable_fast_switch E) s)"

definition free_sg_policy :: "gov_env \<Rightarrow> pol_id \<Rightarrow> sgp_id \<Rightarrow> int \<Rightarrow> gov_state \<Rightarrow> (int \<times> gov_state) option" where
  "free_sg_policy E i p ret s = do {
     s \<leftarrow> unlock_tunables s;
     s \<leftarrow> sugov_policy_free p s;
     disable_fast_switch E i ret s
   }"

definition stop_kthread :: "gov_env \<Rightarrow> pol_id \<Rightarrow> sgp_id \<Rightarrow> int \<Rightarrow> gov_state \<Rightarrow> (int \<times> gov_state) option" where
  "stop_kthread E i p ret s = do { s \<leftarrow> sugov_kthread_stop E p s; free_sg_policy E i p ret s }"

definition fail_tunables :: "gov_env \<Rightarrow> pol_id \<Rightarrow> sgp_id \<Rightarrow> tun_id \<Rightarrow> int \<Rightarrow> gov_state \<Rightarrow> (int \<times> gov_state) option" where
  "fail_tunables E i p t ret s = do {
     let s = upd_pol i (\<lambda>q. q\<lparr>governor_data := None\<rparr>) s;
     s \<leftarrow> sugov_tunables_free E t s;
     stop_kthread E i p ret s
   }"

definition sugov_init :: "gov_env \<Rightarrow> pol_id \<Rightarrow> gov_state \<Rightarrow> (int \<times> gov_state) option" where
  "sugov_init E i s =
     (if governor_data (policy_at s i) \<noteq> None then Some (- EBUSY, s)
      else let s = upd_pol i (cpufreq_enable_fast_switch E) s in
        case sugov_policy_alloc E i s of
          (None, s) \<Rightarrow> disable_fast_switch E i (- ENOMEM) s
        | (Some p, s) \<Rightarrow>
            let (ret, s) = sugov_kthread_create E p s in
            if ret \<noteq> 0 then free_sg_policy E i p ret s
            else do {
              s \<leftarrow> lock_tunables s;
              case global_tunables s of
                Some t \<Rightarrow>
                  if have_governor_per_policy E then stop_kthread E i p (- EINVAL) s
                  else do {
                    let s = upd_pol i (\<lambda>q. q\<lparr>governor_data := Some p\<rparr>) s;
                    let s = upd_sgp p (\<lambda>sg. sg\<lparr>sg_tunables := t\<rparr>) s;
                    let s = upd_tun t (\<lambda>u. u\<lparr>attr_set := gov_attr_set_get E (attr_set u) p\<rparr>) s;
                    s \<leftarrow> unlock_tunables s;
                    Some (0, s)
                  }
              | None \<Rightarrow>
                  (case sugov_tunables_alloc E p s of
                     (None, s) \<Rightarrow> stop_kthread E i p (- ENOMEM) s
                   | (Some t, s) \<Rightarrow> do {
                       let s = upd_tun t (default_tunables (policy_at s i)) s;
                       let s = upd_pol i (\<lambda>q. q\<lparr>governor_data := Some p\<rparr>) s;
                       let s = upd_sgp p (\<lambda>sg. sg\<lparr>sg_tunables := t\<rparr>) s;
                       if kobject_add_ret E \<noteq> 0 then fail_tunables E i p t (kobject_add_ret E) s
                       else do { s \<leftarrow> unlock_tunables s; Some (0, s) }
                     })
            })"

section \<open>Exit, start and stop\<close>

definition sugov_exit :: "gov_env \<Rightarrow> pol_id \<Rightarrow> gov_state \<Rightarrow> gov_state option" where
  "sugov_exit E i s = do {
     p \<leftarrow> governor_data (policy_at s i);
     let t = sg_tunables (sgp_at s p);
     s \<leftarrow> lock_tunables s;
     let (count, a) = gov_attr_set_put E (attr_set (tun_at s t)) p;
     let s = upd_tun t (\<lambda>u. u\<lparr>attr_set := a\<rparr>) s;
     let s = upd_pol i (\<lambda>q. q\<lparr>governor_data := None\<rparr>) s;
     s \<leftarrow> (if count = 0 then sugov_tunables_free E t s else Some s);
     s \<leftarrow> unlock_tunables s;
     s \<leftarrow> sugov_kthread_stop E p s;
     s \<leftarrow> sugov_policy_free p s;
     Some (upd_pol i (cpufreq_disable_fast_switch E) s)
   }"

definition zero_sgc :: sugov_cpu where
  "zero_sgc = \<lparr>sg_policy = 0, iowait_boost = 0, last_update = 0, sg_util = 0, sg_max = 0, sg_flags = 0, saved_idle_calls = 0\<rparr>"

text \<open>One round of the loop over the policy's cpus, lines 982--992.\<close>

definition start_cpu :: "sgp_id \<Rightarrow> bool \<Rightarrow> cpu \<Rightarrow> gov_state \<Rightarrow> gov_state" where
  "start_cpu p shared c s =
     (let s = upd_sgc c (\<lambda>_. zero_sgc\<lparr>sg_policy := p, sg_flags := SCHED_CPUFREQ_DL\<rparr>) s
      in s\<lparr>hook_at := (hook_at s)(c := Some (if shared then UpdateShared else UpdateSingle))\<rparr>)"

definition sugov_start :: "pol_id \<Rightarrow> gov_state \<Rightarrow> gov_state option" where
  "sugov_start i s = do {
     p \<leftarrow> governor_data (policy_at s i);
     let policy = policy_at s i;
     let t = sg_tunables (sgp_at s p);
     let s = upd_sgp p (\<lambda>sg. sg\<lparr>up_rate_delay_ns := ucast (up_rate_limit_us (tun_at s t)) * NSEC_PER_USEC,
                               down_rate_delay_ns := ucast (down_rate_limit_us (tun_at s t)) * NSEC_PER_USEC\<rparr>) s;
     let s = update_min_rate_limit_us p s;
     let s = upd_sgp p (\<lambda>sg. sg\<lparr>last_freq_update_time := 0, next_freq := UINT_MAX, work_in_progress := False,
                               need_freq_update := False\<rparr>) s;
     let s = upd_tun t (\<lambda>u. u\<lparr>iowait_boost_max := ucast (max_freq policy)\<rparr>) s;
     let s = upd_sgp p (\<lambda>sg. sg\<lparr>cached_raw_freq := 0\<rparr>) s;
     Some (fold (start_cpu p (policy_is_shared policy)) (policy_cpus policy) s)
   }"

definition remove_hook :: "cpu \<Rightarrow> gov_state \<Rightarrow> gov_state" where
  "remove_hook c s = s\<lparr>hook_at := (hook_at s)(c := None)\<rparr>"

text \<open>\<open>irq_work_sync\<close> waits for pending irq work to have run, \<open>kthread_cancel_work_sync\<close> drops pending work.\<close>

definition sugov_stop :: "pol_id \<Rightarrow> gov_state \<Rightarrow> gov_state option" where
  "sugov_stop i s = do {
     p \<leftarrow> governor_data (policy_at s i);
     let s = fold remove_hook (policy_cpus (policy_at s i)) s;
     Some (if fast_switch_enabled (policy_at s i) then s
       else let s = (if irq_pending (sgp_at s p) then sugov_irq_work p s else s)
         in upd_sgp p (\<lambda>sg. sg\<lparr>work_pending := False\<rparr>) s)
   }"

section \<open>The objects' invariant\<close>

text \<open>
  Outside a call the mutex is free; each policy with governor data has a live object of its own and each
  live object its policy; the users of each set of tunables are exactly the live objects that point to
  it, and there is at least one; the global set is the only one, or there is none; a hook is
  installed only for a cpu of a live object.
\<close>

definition objects_ok :: "gov_state \<Rightarrow> bool" where
  "objects_ok s \<longleftrightarrow> \<not> tunables_locked s \<and> distinct (live_sgp s) \<and> distinct (live_tun s)
     \<and> (\<forall>i p. governor_data (policy_at s i) = Some p \<longrightarrow> p \<in> set (live_sgp s) \<and> sg_pol (sgp_at s p) = i)
     \<and> (\<forall>p \<in> set (live_sgp s). governor_data (policy_at s (sg_pol (sgp_at s p))) = Some p
          \<and> sg_tunables (sgp_at s p) \<in> set (live_tun s)
          \<and> (fast_switch_enabled (policy_at s (sg_pol (sgp_at s p))) \<or> sg_thread (sgp_at s p)))"

definition users_ok :: "gov_state \<Rightarrow> bool" where
  "users_ok s \<longleftrightarrow> (\<forall>t \<in> set (live_tun s). let a = attr_set (tun_at s t) in
     distinct (policy_list a) \<and> policy_list a \<noteq> [] \<and> usage_count a = length (policy_list a)
     \<and> set (policy_list a) = {p \<in> set (live_sgp s). sg_tunables (sgp_at s p) = t})"

definition global_ok :: "bool \<Rightarrow> gov_state \<Rightarrow> bool" where
  "global_ok per s \<longleftrightarrow> (if per then global_tunables s = None
     else live_tun s = (case global_tunables s of None \<Rightarrow> [] | Some t \<Rightarrow> [t]))"

definition hooks_ok :: "gov_state \<Rightarrow> bool" where
  "hooks_ok s \<longleftrightarrow> (\<forall>c. hook_at s c \<noteq> None \<longrightarrow> sg_policy (sgc_at s c) \<in> set (live_sgp s)
     \<and> c \<in> set (policy_cpus (policy_at s (sg_pol (sgp_at s (sg_policy (sgc_at s c)))))))"

definition life_ok :: "bool \<Rightarrow> gov_state \<Rightarrow> bool" where
  "life_ok per s \<longleftrightarrow> objects_ok s \<and> users_ok s \<and> global_ok per s \<and> hooks_ok s"

lemmas life_ok_defs = life_ok_def objects_ok_def users_ok_def global_ok_def hooks_ok_def Let_def

lemma env_okD:
  assumes "env_ok E"
  shows "kzalloc_sgp E l = Some p \<Longrightarrow> p \<notin> set l" "kzalloc_tun E m = Some t \<Longrightarrow> t \<notin> set m"
    "governor_data (cpufreq_enable_fast_switch E q) = governor_data q"
    "policy_cpus (cpufreq_enable_fast_switch E q) = policy_cpus q"
    "governor_data (cpufreq_disable_fast_switch E q) = governor_data q"
    "policy_cpus (cpufreq_disable_fast_switch E q) = policy_cpus q"
    "gov_attr_set_init E r = \<lparr>policy_list = [r], usage_count = 1\<rparr>"
    "gov_attr_set_get E a r = \<lparr>policy_list = r # policy_list a, usage_count = Suc (usage_count a)\<rparr>"
    "gov_attr_set_put E a r = (usage_count a - 1, \<lparr>policy_list = remove1 r (policy_list a), usage_count = usage_count a - 1\<rparr>)"
    "same_mode q (cpufreq_driver_target (env_api E) f q)" "same_mode q (cpufreq_policy_apply_limits (env_api E) q)"
  using assms by (simp_all add: env_ok_def)

section \<open>Initialisation, error paths included\<close>

text \<open>What a failed initialisation leaves: everything as it was, but for the objects it had allocated and
  freed again and the fast switch of its policy.\<close>

definition restored :: "gov_env \<Rightarrow> pol_id \<Rightarrow> gov_state \<Rightarrow> gov_state \<Rightarrow> bool" where
  "restored E i s s' \<longleftrightarrow> live_sgp s' = live_sgp s \<and> live_tun s' = live_tun s \<and> global_tunables s' = global_tunables s
     \<and> \<not> tunables_locked s' \<and> hook_at s' = hook_at s \<and> sgc_at s' = sgc_at s
     \<and> (\<forall>j. j \<noteq> i \<longrightarrow> policy_at s' j = policy_at s j)
     \<and> governor_data (policy_at s' i) = None \<and> policy_cpus (policy_at s' i) = policy_cpus (policy_at s i)
     \<and> (\<forall>p \<in> set (live_sgp s). sgp_at s' p = sgp_at s p) \<and> (\<forall>t \<in> set (live_tun s). tun_at s' t = tun_at s t)"

text \<open>What a successful one leaves: a new object for the policy, a user of the global set or of a set of
  its own.\<close>

definition attached :: "gov_env \<Rightarrow> pol_id \<Rightarrow> sgp_id \<Rightarrow> tun_id \<Rightarrow> gov_state \<Rightarrow> gov_state \<Rightarrow> bool" where
  "attached E i p t s s' \<longleftrightarrow> p \<notin> set (live_sgp s) \<and> live_sgp s' = p # live_sgp s \<and> \<not> tunables_locked s'
     \<and> hook_at s' = hook_at s \<and> sgc_at s' = sgc_at s
     \<and> (\<forall>j. j \<noteq> i \<longrightarrow> policy_at s' j = policy_at s j)
     \<and> governor_data (policy_at s' i) = Some p \<and> policy_cpus (policy_at s' i) = policy_cpus (policy_at s i)
     \<and> (\<forall>q. q \<noteq> p \<longrightarrow> sgp_at s' q = sgp_at s q) \<and> (\<forall>u. u \<noteq> t \<longrightarrow> tun_at s' u = tun_at s u)
     \<and> sg_pol (sgp_at s' p) = i \<and> sg_tunables (sgp_at s' p) = t
     \<and> (fast_switch_enabled (policy_at s' i) \<or> sg_thread (sgp_at s' p))"

definition joined :: "tun_id \<Rightarrow> sgp_id \<Rightarrow> gov_state \<Rightarrow> gov_state \<Rightarrow> bool" where
  "joined t p s s' \<longleftrightarrow> global_tunables s = Some t \<and> live_tun s' = live_tun s \<and> global_tunables s' = Some t
     \<and> attr_set (tun_at s' t) = \<lparr>policy_list = p # policy_list (attr_set (tun_at s t)), usage_count = Suc (usage_count (attr_set (tun_at s t)))\<rparr>"

definition founded :: "bool \<Rightarrow> tun_id \<Rightarrow> sgp_id \<Rightarrow> gov_state \<Rightarrow> gov_state \<Rightarrow> bool" where
  "founded per t p s s' \<longleftrightarrow> global_tunables s = None \<and> t \<notin> set (live_tun s) \<and> live_tun s' = t # live_tun s
     \<and> global_tunables s' = (if per then None else Some t)
     \<and> tun_at s' t = \<lparr>attr_set = \<lparr>policy_list = [p], usage_count = 1\<rparr>, iowait_boost_max = 0, up_rate_limit_us = 500,
         down_rate_limit_us = 2000, capacity_margin = 256\<rparr>"

lemma default_tunables_eq:
  "default_tunables q u = u\<lparr>up_rate_limit_us := 500, down_rate_limit_us := 2000, capacity_margin := 256\<rparr>"
  by (simp add: default_tunables_def Let_def)

definition kthread_fails :: "gov_env \<Rightarrow> pol_id \<Rightarrow> gov_state \<Rightarrow> bool" where
  "kthread_fails E i s \<longleftrightarrow> kzalloc_sgp E (live_sgp s) \<noteq> None \<and> governor_data (policy_at s i) = None
     \<and> \<not> fast_switch_enabled (cpufreq_enable_fast_switch E (policy_at s i))
     \<and> (kthread_create_err E \<noteq> 0 \<or> sched_setscheduler_ret E \<noteq> 0)"

definition init_outcome :: "gov_env \<Rightarrow> pol_id \<Rightarrow> gov_state \<Rightarrow> int \<Rightarrow> gov_state \<Rightarrow> bool" where
  "init_outcome E i s r s' \<longleftrightarrow>
     (if governor_data (policy_at s i) \<noteq> None then r = - EBUSY \<and> s' = s
      else if r \<noteq> 0 then restored E i s s'
      else \<exists>p t. attached E i p t s s' \<and> (joined t p s s' \<or> founded (have_governor_per_policy E) t p s s'))"

lemmas init_defs = sugov_init_def sugov_policy_alloc_def sugov_kthread_create_def lock_tunables_def unlock_tunables_def
  sugov_tunables_alloc_def sugov_tunables_free_def disable_fast_switch_def free_sg_policy_def stop_kthread_def fail_tunables_def
  sugov_kthread_stop_def sugov_policy_free_def zero_sgp_def zero_tunables_def default_tunables_eq

text \<open>The state after the thread was created: the new object, still without tunables.\<close>

definition with_sgp :: "gov_env \<Rightarrow> pol_id \<Rightarrow> sgp_id \<Rightarrow> gov_state \<Rightarrow> gov_state" where
  "with_sgp E i p s =
     (let s = upd_pol i (cpufreq_enable_fast_switch E) (s\<lparr>live_sgp := p # live_sgp s\<rparr>)
      in upd_sgp p (\<lambda>_. zero_sgp\<lparr>sg_pol := i, sg_thread := \<not> fast_switch_enabled (policy_at s i)\<rparr>) s)"

lemma init_to_thread:
  assumes "governor_data (policy_at s i) = None" "kzalloc_sgp E (live_sgp s) = Some p" "\<not> kthread_fails E i s" "\<not> tunables_locked s"
  shows "sugov_init E i s = (let s = (with_sgp E i p s)\<lparr>tunables_locked := True\<rparr> in
     case global_tunables s of
       Some t \<Rightarrow>
         if have_governor_per_policy E then stop_kthread E i p (- EINVAL) s
         else unlock_tunables (upd_tun t (\<lambda>u. u\<lparr>attr_set := gov_attr_set_get E (attr_set u) p\<rparr>)
                (upd_sgp p (\<lambda>sg. sg\<lparr>sg_tunables := t\<rparr>) (upd_pol i (\<lambda>q. q\<lparr>governor_data := Some p\<rparr>) s)))
              \<bind> (\<lambda>s. Some (0, s))
     | None \<Rightarrow>
         (case sugov_tunables_alloc E p s of
            (None, s) \<Rightarrow> stop_kthread E i p (- ENOMEM) s
          | (Some t, s) \<Rightarrow>
              let s = upd_sgp p (\<lambda>sg. sg\<lparr>sg_tunables := t\<rparr>) (upd_pol i (\<lambda>q. q\<lparr>governor_data := Some p\<rparr>)
                        (upd_tun t (default_tunables (policy_at s i)) s))
              in if kobject_add_ret E \<noteq> 0 then fail_tunables E i p t (kobject_add_ret E) s
                 else unlock_tunables s \<bind> (\<lambda>s. Some (0, s))))"
proof -
  have t: "sugov_kthread_create E p (upd_sgp p (\<lambda>_. zero_sgp\<lparr>sg_pol := i\<rparr>)
       ((upd_pol i (cpufreq_enable_fast_switch E) s)\<lparr>live_sgp := p # live_sgp s\<rparr>)) = (0, with_sgp E i p s)"
    using assms by (auto simp: sugov_kthread_create_def kthread_fails_def with_sgp_def zero_sgp_def gov_upd_defs Let_def)
  have a: "sugov_policy_alloc E i (upd_pol i (cpufreq_enable_fast_switch E) s)
      = (Some p, upd_sgp p (\<lambda>_. zero_sgp\<lparr>sg_pol := i\<rparr>) ((upd_pol i (cpufreq_enable_fast_switch E) s)\<lparr>live_sgp := p # live_sgp s\<rparr>))"
    using assms(2) by (simp add: sugov_policy_alloc_def gov_upd_defs)
  have l: "lock_tunables (with_sgp E i p s) = Some ((with_sgp E i p s)\<lparr>tunables_locked := True\<rparr>)"
    using assms(4) by (simp add: lock_tunables_def with_sgp_def gov_upd_defs)
  show ?thesis
    unfolding sugov_init_def using assms(1) by (cases "global_tunables (with_sgp E i p s)") (simp_all add: Let_def a t l split: prod.split option.split)
qed

lemma init_kthread_undefined:
  assumes "kthread_fails E i s" "\<not> tunables_locked s"
  shows "sugov_init E i s = None"
  using assms by (auto simp: kthread_fails_def init_defs gov_upd_defs Let_def)

lemma with_sgp_fields:
  "live_sgp (with_sgp E i p s) = p # live_sgp s" "live_tun (with_sgp E i p s) = live_tun s"
  "global_tunables (with_sgp E i p s) = global_tunables s" "hook_at (with_sgp E i p s) = hook_at s"
  "sgc_at (with_sgp E i p s) = sgc_at s" "tun_at (with_sgp E i p s) = tun_at s"
  "policy_at (with_sgp E i p s) = (policy_at s)(i := cpufreq_enable_fast_switch E (policy_at s i))"
  "sgp_at (with_sgp E i p s) = (sgp_at s)(p := zero_sgp\<lparr>sg_pol := i, sg_thread := \<not> fast_switch_enabled (cpufreq_enable_fast_switch E (policy_at s i))\<rparr>)"
  by (simp_all add: with_sgp_def gov_upd_defs Let_def)

lemma stop_kthread_outcome:
  assumes "tunables_locked s" "p \<in> set (live_sgp s)" "sg_pol (sgp_at s p) = i" "\<not> work_pending (sgp_at s p)"
    and "fast_switch_enabled (policy_at s i) \<or> sg_thread (sgp_at s p)"
  shows "\<exists>f. stop_kthread E i p r s = Some (r, upd_pol i (cpufreq_disable_fast_switch E)
      (upd_sgp p f (s\<lparr>tunables_locked := False, live_sgp := remove1 p (live_sgp s)\<rparr>)))"
proof (cases "fast_switch_enabled (policy_at s i)")
  case True
  show ?thesis using assms True
    by (intro exI [of _ id]) (simp add: stop_kthread_def sugov_kthread_stop_def free_sg_policy_def unlock_tunables_def sugov_policy_free_def
      disable_fast_switch_def gov_upd_defs)
next
  case False
  show ?thesis using assms False
    by (intro exI [of _ "\<lambda>sg. sg\<lparr>sg_thread := False\<rparr>"]) (simp add: stop_kthread_def sugov_kthread_stop_def free_sg_policy_def
      unlock_tunables_def sugov_policy_free_def disable_fast_switch_def gov_upd_defs)
qed

lemma sugov_init_outcome:
  assumes E: "env_ok E" and ok: "life_ok per s" and per: "per = have_governor_per_policy E" and k: "\<not> kthread_fails E i s"
  shows "\<exists>r s'. sugov_init E i s = Some (r, s') \<and> init_outcome E i s r s'"
proof -
  note e = env_okD [OF E]
  have lock: "\<not> tunables_locked s" using ok by (simp add: life_ok_defs)
  have "?thesis" if b: "governor_data (policy_at s i) \<noteq> None"
    using b by (auto simp: sugov_init_def init_outcome_def)
  moreover have "?thesis" if b: "governor_data (policy_at s i) = None" "kzalloc_sgp E (live_sgp s) = None"
    using b lock by (simp add: init_defs init_outcome_def restored_def gov_upd_defs e(3-6))
  moreover have "?thesis" if b: "governor_data (policy_at s i) = None" "kzalloc_sgp E (live_sgp s) = Some p" for p
  proof -
    note eq = init_to_thread [OF b k lock]
    have fresh: "p \<notin> set (live_sgp s)" using e(1) b(2) .
    have ne: "q \<in> set (live_sgp s) \<Longrightarrow> q \<noteq> p" for q using fresh by auto
    show ?thesis
    proof (cases "global_tunables s")
      case (Some t)
      then have "\<not> per" using ok by (auto simp: life_ok_defs)
      define s' where "s' = (upd_tun t (\<lambda>u. u\<lparr>attr_set := gov_attr_set_get E (attr_set u) p\<rparr>)
          (upd_sgp p (\<lambda>sg. sg\<lparr>sg_tunables := t\<rparr>) (upd_pol i (\<lambda>q. q\<lparr>governor_data := Some p\<rparr>) (with_sgp E i p s))))\<lparr>tunables_locked := False\<rparr>"
      have "sugov_init E i s = Some (0, s')"
        unfolding eq using Some \<open>\<not> per\<close> per by (simp add: Let_def with_sgp_fields unlock_tunables_def gov_upd_defs s'_def)
      moreover have "attached E i p t s s'" "joined t p s s'"
        unfolding attached_def joined_def s'_def using Some fresh by (simp_all add: with_sgp_fields gov_upd_defs e(3-8))
      ultimately show ?thesis using b(1) unfolding init_outcome_def by auto
    next
      case None
      define s1 where "s1 = (with_sgp E i p s)\<lparr>tunables_locked := True\<rparr>"
      have n1: "tunables_locked s1" "p \<in> set (live_sgp s1)" "sg_pol (sgp_at s1 p) = i" "\<not> work_pending (sgp_at s1 p)"
        "fast_switch_enabled (policy_at s1 i) \<or> sg_thread (sgp_at s1 p)" "global_tunables s1 = None" "live_tun s1 = live_tun s"
        by (simp_all add: s1_def with_sgp_fields zero_sgp_def None)
      show ?thesis
      proof (cases "kzalloc_tun E (live_tun s)")
        case nt: None
        obtain f where "sugov_init E i s = Some (- ENOMEM, upd_pol i (cpufreq_disable_fast_switch E)
            (upd_sgp p f (s1\<lparr>tunables_locked := False, live_sgp := remove1 p (live_sgp s1)\<rparr>)))"
          unfolding eq s1_def [symmetric] using stop_kthread_outcome [OF n1(1-5), of E "- ENOMEM"] n1 nt
          by (auto simp: sugov_tunables_alloc_def)
        then show ?thesis using b(1) fresh ne
          by (auto simp: init_outcome_def restored_def s1_def with_sgp_fields gov_upd_defs e(3-6))
      next
        case (Some t)
        have tn: "t \<notin> set (live_tun s)" using e(2) Some .
        obtain st where a: "sugov_tunables_alloc E p s1 = (Some t, st)"
          and st: "st = (let s = upd_tun t (\<lambda>_. zero_tunables\<lparr>attr_set := gov_attr_set_init E p\<rparr>) (s1\<lparr>live_tun := t # live_tun s1\<rparr>)
            in if have_governor_per_policy E then s else s\<lparr>global_tunables := Some t\<rparr>)"
          using Some n1(7) by (simp add: sugov_tunables_alloc_def Let_def)
        define s2 where "s2 = upd_sgp p (\<lambda>sg. sg\<lparr>sg_tunables := t\<rparr>) (upd_pol i (\<lambda>q. q\<lparr>governor_data := Some p\<rparr>)
            (upd_tun t (default_tunables (policy_at st i)) st))"
        have i: "sugov_init E i s = (if kobject_add_ret E \<noteq> 0 then fail_tunables E i p t (kobject_add_ret E) s2
            else unlock_tunables s2 \<bind> (\<lambda>s. Some (0, s)))"
          unfolding eq s1_def [symmetric] Let_def n1(6) option.case a prod.case s2_def by simp
        have f: "tunables_locked s2" "live_sgp s2 = p # live_sgp s" "live_tun s2 = t # live_tun s"
            "hook_at s2 = hook_at s" "sgc_at s2 = sgc_at s"
            "global_tunables s2 = (if have_governor_per_policy E then None else Some t)"
            "policy_at s2 = (policy_at s)(i := (cpufreq_enable_fast_switch E (policy_at s i))\<lparr>governor_data := Some p\<rparr>)"
            "sgp_at s2 = (sgp_at s)(p := zero_sgp\<lparr>sg_pol := i, sg_tunables := t,
               sg_thread := \<not> fast_switch_enabled (cpufreq_enable_fast_switch E (policy_at s i))\<rparr>)"
            "tun_at s2 = (tun_at s)(t := \<lparr>attr_set = \<lparr>policy_list = [p], usage_count = 1\<rparr>, iowait_boost_max = 0, up_rate_limit_us = 500,
               down_rate_limit_us = 2000, capacity_margin = 256\<rparr>)"
          unfolding s2_def st Let_def
          by (simp_all add: gov_upd_defs s1_def with_sgp_fields e(7) default_tunables_eq zero_tunables_def zero_sgp_def None)
        show ?thesis
        proof (cases "kobject_add_ret E = 0")
          case True
          have "sugov_init E i s = Some (0, s2\<lparr>tunables_locked := False\<rparr>)"
            unfolding i using True f by (simp add: unlock_tunables_def)
          moreover have "attached E i p t s (s2\<lparr>tunables_locked := False\<rparr>)"
              "founded (have_governor_per_policy E) t p s (s2\<lparr>tunables_locked := False\<rparr>)"
            unfolding attached_def founded_def using fresh tn None by (simp_all add: f zero_sgp_def e(3-6))
          ultimately show ?thesis using b(1) unfolding init_outcome_def by auto
        next
          case False
          define s3 where "s3 = (upd_pol i (\<lambda>q. q\<lparr>governor_data := None\<rparr>) s2)\<lparr>global_tunables := None, live_tun := live_tun s\<rparr>"
          have fr: "sugov_tunables_free E t (upd_pol i (\<lambda>q. q\<lparr>governor_data := None\<rparr>) s2) = Some s3"
            unfolding sugov_tunables_free_def s3_def using f(3,6) by (auto simp: gov_upd_defs)
          have h: "tunables_locked s3" "p \<in> set (live_sgp s3)" "sg_pol (sgp_at s3 p) = i" "\<not> work_pending (sgp_at s3 p)"
              "fast_switch_enabled (policy_at s3 i) \<or> sg_thread (sgp_at s3 p)"
            by (simp_all add: s3_def f zero_sgp_def gov_upd_defs)
          obtain g where "sugov_init E i s = Some (kobject_add_ret E, upd_pol i (cpufreq_disable_fast_switch E)
              (upd_sgp p g (s3\<lparr>tunables_locked := False, live_sgp := remove1 p (live_sgp s3)\<rparr>)))"
            unfolding i using False stop_kthread_outcome [OF h, of E "kobject_add_ret E"] by (auto simp: fail_tunables_def fr)
          then show ?thesis using b(1) False fresh tn ne
            by (auto simp: init_outcome_def restored_def s3_def f gov_upd_defs e(3-6) None)
        qed
      qed
    qed
  qed
  ultimately show ?thesis by (cases "governor_data (policy_at s i)"; cases "kzalloc_sgp E (live_sgp s)") blast+
qed

end
