(* ===== verification/Lifecycle_Props.thy ===== *)
theory Lifecycle_Props
  imports Lifecycle
begin

text \<open>
  The governor's objects over its whole life: the invariant \<open>life_ok\<close> is kept by initialisation (its
  error paths included), exit, start, stop, limits, writes to the attributes, the update hooks and the
  kernel thread; none of these calls is undefined but for one error path of the initialisation.
\<close>

section \<open>What the calls on a running policy leave alone\<close>

definition same_shape :: "gov_state \<Rightarrow> gov_state \<Rightarrow> bool" where
  "same_shape s s' \<longleftrightarrow> live_sgp s' = live_sgp s \<and> live_tun s' = live_tun s \<and> global_tunables s' = global_tunables s
     \<and> tunables_locked s' = tunables_locked s \<and> hook_at s' = hook_at s
     \<and> (\<forall>i. same_mode (policy_at s i) (policy_at s' i))
     \<and> (\<forall>p. sg_pol (sgp_at s' p) = sg_pol (sgp_at s p) \<and> sg_tunables (sgp_at s' p) = sg_tunables (sgp_at s p)
            \<and> sg_thread (sgp_at s' p) = sg_thread (sgp_at s p))
     \<and> (\<forall>t. attr_set (tun_at s' t) = attr_set (tun_at s t)) \<and> (\<forall>c. sg_policy (sgc_at s' c) = sg_policy (sgc_at s c))"

lemma same_mode_refl [simp]: "same_mode q q"
  by (simp add: same_mode_def)

lemma same_shape_refl [simp]: "same_shape s s"
  by (simp add: same_shape_def)

lemma same_shape_trans: "same_shape a b \<Longrightarrow> same_shape b c \<Longrightarrow> same_shape a c"
  by (simp add: same_shape_def same_mode_def)

lemma same_shape_upd [simp]:
  "(\<And>g. sg_pol (f g) = sg_pol g \<and> sg_tunables (f g) = sg_tunables g \<and> sg_thread (f g) = sg_thread g) \<Longrightarrow> same_shape s (upd_sgp p f s)"
  "(\<And>q. same_mode q (h q)) \<Longrightarrow> same_shape s (upd_pol i h s)"
  "(\<And>u. attr_set (k u) = attr_set u) \<Longrightarrow> same_shape s (upd_tun t k s)"
  "(\<And>g. sg_policy (m g) = sg_policy g) \<Longrightarrow> same_shape s (upd_sgc c m s)"
  "same_shape s (upd_kern n s)" "same_shape s (s\<lparr>driver_calls := d\<rparr>)"
  by (simp_all add: same_shape_def gov_upd_defs)

lemma same_shape_fold: "(\<And>x s. same_shape s (f x s)) \<Longrightarrow> same_shape s (fold f xs s)"
  by (induction xs arbitrary: s) (auto intro: same_shape_trans)

lemma life_ok_shape: "same_shape s s' \<Longrightarrow> life_ok per s' \<longleftrightarrow> life_ok per s"
  unfolding life_ok_defs same_shape_def same_mode_def by simp

lemma should_update_shape: "sugov_should_update_freq p t s = (b, s') \<Longrightarrow> same_shape s s'"
  by (auto simp: sugov_should_update_freq_def Let_def split: if_splits)

lemma set_boost_shape: "same_shape s (sugov_set_iowait_boost G c t f s)"
  by (simp add: sugov_set_iowait_boost_def Let_def)

lemma boost_shape: "same_shape s (snd (sugov_iowait_boost c um s))"
  by (simp add: sugov_iowait_boost_def Let_def case_prod_beta)

lemma get_util_shape: "sugov_get_util G cpu t s = Some (u, m, s') \<Longrightarrow> same_shape s s'"
  using get_util_props(3) [of G cpu t s u m s'] by simp

lemma next_freq_shape: "get_next_freq G p cpu u m s = Some (f, s') \<Longrightarrow> same_shape s s'"
  using get_next_freq_state [of G p cpu u m s f s'] by auto

lemma track_shape: "track_cycles G (track_values u s) = Some s' \<Longrightarrow> same_shape s s'"
  by (auto simp: track_cycles_def track_values_def same_shape_def Let_def upd_kern_def split: if_splits)

lemma commit_shape: "same_shape s (sugov_update_commit p t f s)"
  by (auto simp: sugov_update_commit_def Let_def same_mode_def same_shape_def gov_upd_defs)

lemma shared_shape:
  assumes "sugov_next_freq_shared G c t s = Some (f, s')"
  shows "same_shape s s'"
proof (cases "sg_flags (sgc_at s work_core) AND SCHED_CPUFREQ_DL \<noteq> 0")
  case True
  then show ?thesis using assms by (auto simp: sugov_next_freq_shared_def Let_def)
next
  case False
  obtain u m s1 core u1 s3 u2 m2 u3 where 1: "sugov_get_util G work_core t s = Some (u, m, s1)"
    and 3: "get_next_freq G (sg_policy (sgc_at s c)) core u2 m2 (snd (sugov_iowait_boost work_core u1 s1)) = Some (f, s3)"
    and 4: "track_cycles G (track_values u3 s3) = Some s'"
    using assms False unfolding sugov_next_freq_shared_def Let_def bind_eq_Some_conv case_prod_beta
    by (auto simp: bind_eq_Some_conv split: if_splits)
  show ?thesis
    using get_util_shape [OF 1] boost_shape next_freq_shape [OF 3] track_shape [OF 4] by (blast intro: same_shape_trans)
qed

lemma update_shared_shape:
  assumes "sugov_update_shared G c t f s = Some s'"
  shows "same_shape s s'"
proof -
  define p where "p = sg_policy (sgc_at s c)"
  define s0 where "s0 = upd_sgc c (\<lambda>g. g\<lparr>last_update := t\<rparr>) (sugov_set_iowait_boost G c t f (upd_sgc c (\<lambda>g. g\<lparr>sg_flags := f\<rparr>) s))"
  have 0: "same_shape s s0"
    unfolding s0_def by (rule same_shape_trans [OF same_shape_trans [OF same_shape_upd(4) set_boost_shape] same_shape_upd(4)]) simp_all
  obtain go s1 where go: "sugov_should_update_freq p t s0 = (go, s1)" by force
  note 1 = same_shape_trans [OF 0 should_update_shape [OF go]]
  show ?thesis
  proof (cases go)
    case False
    then have "s' = s1" using assms go by (simp add: sugov_update_shared_def Let_def s0_def p_def)
    then show ?thesis using 1 by simp
  next
    case True
    obtain nf s2 where nf: "(if f AND SCHED_CPUFREQ_DL \<noteq> 0 then Some (max_freq (policy_at s1 (sg_pol (sgp_at s1 p))), s1)
              else sugov_next_freq_shared G c t s1) = Some (nf, s2)" and s': "s' = sugov_update_commit p t nf s2"
      using assms go True unfolding p_def by (auto simp: sugov_update_shared_def Let_def s0_def bind_eq_Some_conv)
    have "same_shape s1 s2" using nf shared_shape by (auto split: if_splits)
    then show ?thesis unfolding s' using 1 commit_shape same_shape_trans by blast
  qed
qed

lemma update_single_shape:
  assumes "sugov_update_single G ic c t f s = Some s'"
  shows "same_shape s s'"
proof -
  define p where "p = sg_policy (sgc_at s c)"
  define s0 where "s0 = upd_sgc c (\<lambda>g. g\<lparr>last_update := t\<rparr>) (sugov_set_iowait_boost G c t f s)"
  have 0: "same_shape s s0"
    unfolding s0_def by (rule same_shape_trans [OF set_boost_shape same_shape_upd(4)]) simp
  obtain go s1 where go: "sugov_should_update_freq p t s0 = (go, s1)" by force
  define s2 where "s2 = snd (sugov_cpu_is_busy ic c s1)"
  have "same_shape s1 s2" by (simp add: s2_def sugov_cpu_is_busy_def)
  note 1 = same_shape_trans [OF 0 should_update_shape [OF go]] and 2 = same_shape_trans [OF 1 this]
  show ?thesis
  proof (cases go)
    case False
    then have "s' = s1" using assms go by (simp add: sugov_update_single_def Let_def s0_def p_def)
    then show ?thesis using 1 by simp
  next
    case True
    have "\<exists>nf s3. s' = sugov_update_commit p t nf s3 \<and> same_shape s2 s3"
    proof (cases "f AND SCHED_CPUFREQ_DL \<noteq> 0")
      case True
      then have "s' = sugov_update_commit p t (max_freq (policy_at s2 (sg_pol (sgp_at s2 p)))) s2"
        using assms go \<open>go\<close> by (simp add: sugov_update_single_def Let_def s0_def s2_def p_def case_prod_beta)
      then show ?thesis by (metis same_shape_refl)
    next
      case dl: False
      obtain u m s3 u2 m2 f4 s4 nf where 1: "sugov_get_util G (this_cpu (kern_api G)) t s2 = Some (u, m, s3)"
        and 2: "get_next_freq G p (this_cpu (kern_api G)) u2 m2 (snd (sugov_iowait_boost c (u, m) s3)) = Some (f4, s4)"
        and 3: "s' = sugov_update_commit p t nf s4"
        using assms go True dl unfolding sugov_update_single_def Let_def
        by (auto simp: s0_def s2_def p_def case_prod_beta bind_eq_Some_conv)
      show ?thesis
        using 3 get_util_shape [OF 1] boost_shape next_freq_shape [OF 2] by (blast intro: same_shape_trans)
    qed
    then show ?thesis using 2 commit_shape same_shape_trans by blast
  qed
qed

lemma irq_shape: "same_shape s (sugov_irq_work p s)"
  by (simp add: sugov_irq_work_def)

lemma work_shape: "env_ok E \<Longrightarrow> same_shape s (sugov_work (env_api E) p s)"
  by (auto simp: sugov_work_def Let_def same_shape_def gov_upd_defs env_ok_def)

lemma limits_shape: "env_ok E \<Longrightarrow> sugov_limits (env_api E) i s = Some s' \<Longrightarrow> same_shape s s'"
  by (cases "fast_switch_enabled (policy_at s i)") (auto simp: sugov_limits_def Let_def bind_eq_Some_conv same_shape_def gov_upd_defs env_okD same_mode_def env_okD(11) [unfolded same_mode_def] split: if_splits)

lemma write_shape:
  "same_shape s (snd (up_rate_limit_us_store k t b n s))" "same_shape s (snd (down_rate_limit_us_store k t b n s))"
  "same_shape s (snd (capacity_margin_store k t b n s))" "same_shape s (snd (iowait_boost_max_store l t b n s))"
  by (auto simp: up_store_eq down_store_eq capacity_margin_store_def iowait_boost_max_store_def set_up_rate_def set_down_rate_def
    split: option.splits intro!: same_shape_trans [OF same_shape_upd(3) same_shape_fold] same_shape_upd)

section \<open>Initialisation keeps the invariant\<close>

lemma objects_okD:
  assumes "objects_ok s"
  shows "governor_data (policy_at s i) = Some p \<Longrightarrow> p \<in> set (live_sgp s)" "governor_data (policy_at s i) = Some p \<Longrightarrow> sg_pol (sgp_at s p) = i"
    "p \<in> set (live_sgp s) \<Longrightarrow> governor_data (policy_at s (sg_pol (sgp_at s p))) = Some p"
    "p \<in> set (live_sgp s) \<Longrightarrow> sg_tunables (sgp_at s p) \<in> set (live_tun s)"
    "p \<in> set (live_sgp s) \<Longrightarrow> fast_switch_enabled (policy_at s (sg_pol (sgp_at s p))) \<or> sg_thread (sgp_at s p)"
    "\<not> tunables_locked s" "distinct (live_sgp s)" "distinct (live_tun s)"
  using assms by (auto simp: objects_ok_def)

lemma restored_life_ok:
  assumes ok: "life_ok per s" and g: "governor_data (policy_at s i) = None" and r: "restored E i s s'"
  shows "life_ok per s'"
proof -
  have o: "objects_ok s" and u: "users_ok s" and gl: "global_ok per s" and h: "hooks_ok s" using ok by (simp_all add: life_ok_def)
  note od = objects_okD [OF o]
  note R = r [unfolded restored_def]
  have ne: "p \<in> set (live_sgp s) \<Longrightarrow> sg_pol (sgp_at s p) \<noteq> i" for p using od(3) g by fastforce
  have pol: "p \<in> set (live_sgp s) \<Longrightarrow> policy_at s' (sg_pol (sgp_at s' p)) = policy_at s (sg_pol (sgp_at s p))" for p
    using R ne by simp
  have gd: "governor_data (policy_at s' j) = governor_data (policy_at s j)" for j using R g by (cases "j = i") simp_all
  have "objects_ok s'"
    unfolding objects_ok_def gd using R od pol by (auto simp: gd)
  moreover have "users_ok s'" using u R od(4) by (fastforce simp: users_ok_def Let_def)
  moreover have "global_ok per s'" using gl R by (simp add: global_ok_def)
  moreover have "hooks_ok s'" using h R pol by (auto simp: hooks_ok_def)
  ultimately show ?thesis by (simp add: life_ok_def)
qed

lemma attached_objects_hooks:
  assumes o: "objects_ok s" and h: "hooks_ok s" and g: "governor_data (policy_at s i) = None" and a: "attached E i p t s s'"
    and t: "set (live_tun s) \<subseteq> set (live_tun s')" "t \<in> set (live_tun s')" "distinct (live_tun s')"
  shows "objects_ok s'" "hooks_ok s'"
proof -
  note od = objects_okD [OF o]
  note A = a [unfolded attached_def]
  have ne: "q \<in> set (live_sgp s) \<Longrightarrow> q \<noteq> p \<and> sg_pol (sgp_at s q) \<noteq> i" for q using od(3) g A by fastforce
  have pol: "q \<in> set (live_sgp s) \<Longrightarrow> policy_at s' (sg_pol (sgp_at s' q)) = policy_at s (sg_pol (sgp_at s q))" for q
    using A ne by simp
  have gd: "governor_data (policy_at s' j) = (if j = i then Some p else governor_data (policy_at s j))" for j using A by simp
  have "q \<in> set (live_sgp s') \<Longrightarrow> governor_data (policy_at s' (sg_pol (sgp_at s' q))) = Some q
      \<and> sg_tunables (sgp_at s' q) \<in> set (live_tun s')
      \<and> (fast_switch_enabled (policy_at s' (sg_pol (sgp_at s' q))) \<or> sg_thread (sgp_at s' q))" for q
    using A od ne pol t by (cases "q = p") (auto simp: gd)
  moreover have "governor_data (policy_at s' j) = Some q \<Longrightarrow> q \<in> set (live_sgp s') \<and> sg_pol (sgp_at s' q) = j" for j q
    using A od ne by (auto simp: gd split: if_splits)
  ultimately show "objects_ok s'" unfolding objects_ok_def using A od t by auto
  show "hooks_ok s'" using h A pol by (auto simp: hooks_ok_def)
qed

lemma joined_life_ok:
  assumes ok: "life_ok per s" and g: "governor_data (policy_at s i) = None" and a: "attached E i p t s s'" and j: "joined t p s s'"
  shows "life_ok per s'"
proof -
  have o: "objects_ok s" and u: "users_ok s" and gl: "global_ok per s" and h: "hooks_ok s" using ok by (simp_all add: life_ok_def)
  note od = objects_okD [OF o]
  note A = a [unfolded attached_def] and J = j [unfolded joined_def]
  have tl: "live_tun s = [t]" using gl J by (auto simp: global_ok_def split: if_splits)
  have "users_ok s'"
    using u A J tl unfolding users_ok_def by (auto simp: Let_def)
  moreover have "global_ok per s'" using gl J tl by (auto simp: global_ok_def)
  moreover have "objects_ok s'" "hooks_ok s'" using attached_objects_hooks [OF o h g a] J tl by simp_all
  ultimately show ?thesis by (simp add: life_ok_def)
qed

lemma founded_life_ok:
  assumes ok: "life_ok per s" and g: "governor_data (policy_at s i) = None" and a: "attached E i p t s s'" and j: "founded per t p s s'"
  shows "life_ok per s'"
proof -
  have o: "objects_ok s" and u: "users_ok s" and gl: "global_ok per s" and h: "hooks_ok s" using ok by (simp_all add: life_ok_def)
  note od = objects_okD [OF o]
  note A = a [unfolded attached_def] and J = j [unfolded founded_def]
  have ne: "v \<in> set (live_tun s) \<Longrightarrow> v \<noteq> t" for v using J by auto
  have nt: "q \<in> set (live_sgp s) \<Longrightarrow> sg_tunables (sgp_at s q) \<noteq> t \<and> q \<noteq> p" for q using od(4) [of q] J A by auto
  have "let b = attr_set (tun_at s' v) in distinct (policy_list b) \<and> policy_list b \<noteq> [] \<and> usage_count b = length (policy_list b)
      \<and> set (policy_list b) = {q \<in> set (live_sgp s'). sg_tunables (sgp_at s' q) = v}" if v: "v \<in> set (live_tun s')" for v
  proof (cases "v = t")
    case True
    then show ?thesis using A J nt by (auto simp: Let_def)
  next
    case False
    then have "v \<in> set (live_tun s)" using v J by simp
    moreover have "tun_at s' v = tun_at s v" "{q \<in> set (live_sgp s'). sg_tunables (sgp_at s' q) = v} = {q \<in> set (live_sgp s). sg_tunables (sgp_at s q) = v}"
      using A False nt by auto
    ultimately show ?thesis using u by (simp add: users_ok_def)
  qed
  then have "users_ok s'" by (simp add: users_ok_def)
  moreover have "global_ok per s'" using gl J by (auto simp: global_ok_def split: if_splits)
  moreover have "objects_ok s'" "hooks_ok s'" using attached_objects_hooks [OF o h g a] J od(8) by auto
  ultimately show ?thesis by (simp add: life_ok_def)
qed

lemma init_life_ok:
  assumes "life_ok per s" "init_outcome E i s r s'" "per = have_governor_per_policy E"
  shows "life_ok per s'"
  using assms restored_life_ok [of per s i E s'] joined_life_ok [of per s i E _ _ s'] founded_life_ok [of per s i E _ _ s']
  by (auto simp: init_outcome_def split: if_splits)

section \<open>Exit\<close>

text \<open>What an exit leaves: the policy's object is gone, and its set of tunables lost one user or is gone
  as well.\<close>

definition detached :: "bool \<Rightarrow> pol_id \<Rightarrow> sgp_id \<Rightarrow> gov_state \<Rightarrow> gov_state \<Rightarrow> bool" where
  "detached per i p s s' \<longleftrightarrow> (let t = sg_tunables (sgp_at s p); a = attr_set (tun_at s t); last = (usage_count a = 1) in
     live_sgp s' = remove1 p (live_sgp s) \<and> live_tun s' = (if last then remove1 t (live_tun s) else live_tun s)
     \<and> global_tunables s' = (if last \<and> \<not> per then None else global_tunables s) \<and> \<not> tunables_locked s'
     \<and> hook_at s' = hook_at s \<and> (\<forall>c. sg_policy (sgc_at s' c) = sg_policy (sgc_at s c))
     \<and> (\<forall>j. j \<noteq> i \<longrightarrow> same_mode (policy_at s j) (policy_at s' j))
     \<and> governor_data (policy_at s' i) = None
     \<and> (\<forall>q. q \<noteq> p \<longrightarrow> sg_pol (sgp_at s' q) = sg_pol (sgp_at s q) \<and> sg_tunables (sgp_at s' q) = sg_tunables (sgp_at s q)
          \<and> sg_thread (sgp_at s' q) = sg_thread (sgp_at s q))
     \<and> (\<forall>u. attr_set (tun_at s' u) =
          (if u = t then \<lparr>policy_list = remove1 p (policy_list a), usage_count = usage_count a - 1\<rparr> else attr_set (tun_at s u))))"

lemma kthread_stop_outcome:
  assumes "env_ok E" "fast_switch_enabled (policy_at s (sg_pol (sgp_at s p))) \<or> sg_thread (sgp_at s p)"
  shows "\<exists>s1. sugov_kthread_stop E p s = Some s1 \<and> (s1 = s \<or> (\<exists>s0. same_shape s s0 \<and> s1 = upd_sgp p (\<lambda>sg. sg\<lparr>sg_thread := False\<rparr>) s0))"
proof -
  define s0 where "s0 = (if work_pending (sgp_at s p) then sugov_work (env_api E) p s else s)"
  have "same_shape s s0" unfolding s0_def using work_shape [OF assms(1)] by simp
  moreover from this have "sg_thread (sgp_at s0 p) = sg_thread (sgp_at s p)" by (simp add: same_shape_def)
  ultimately show ?thesis
    using assms(2) by (auto simp: sugov_kthread_stop_def s0_def [symmetric] Let_def)
qed

lemma exit_detached:
  assumes E: "env_ok E" and o: "objects_ok s" and per: "per = have_governor_per_policy E"
    and g: "governor_data (policy_at s i) = Some p"
    and n: "usage_count (attr_set (tun_at s (sg_tunables (sgp_at s p)))) \<noteq> 0"
  shows "\<exists>s'. sugov_exit E i s = Some s' \<and> detached per i p s s'"
proof -
  note e = env_okD [OF E] and od = objects_okD [OF o]
  define t where "t = sg_tunables (sgp_at s p)"
  define a where "a = attr_set (tun_at s t)"
  define s1 where "s1 = upd_pol i (\<lambda>q. q\<lparr>governor_data := None\<rparr>)
      (upd_tun t (\<lambda>u. u\<lparr>attr_set := \<lparr>policy_list = remove1 p (policy_list a), usage_count = usage_count a - 1\<rparr>\<rparr>) (s\<lparr>tunables_locked := True\<rparr>))"
  define s2 where "s2 = (if usage_count a = 1 then s1\<lparr>live_tun := remove1 t (live_tun s), global_tunables := (if per then global_tunables s else None)\<rparr> else s1)"
  have pl: "p \<in> set (live_sgp s)" and pi: "sg_pol (sgp_at s p) = i" and tl: "t \<in> set (live_tun s)"
    and thr: "fast_switch_enabled (policy_at s i) \<or> sg_thread (sgp_at s p)"
    using od(1,2,4,5) g unfolding t_def by blast+
  have cnt: "(if usage_count a - 1 = 0 then sugov_tunables_free E t s1 else Some s1) = Some s2"
    using n tl per by (auto simp: s2_def sugov_tunables_free_def s1_def gov_upd_defs a_def t_def Let_def)
  define s3 where "s3 = s2\<lparr>tunables_locked := False\<rparr>"
  have u: "unlock_tunables s2 = Some s3"
    by (simp add: unlock_tunables_def s2_def s1_def s3_def gov_upd_defs)
  have f3: "live_sgp s3 = live_sgp s" "live_tun s3 = (if usage_count a = 1 then remove1 t (live_tun s) else live_tun s)"
    "global_tunables s3 = (if usage_count a = 1 \<and> \<not> per then None else global_tunables s)" "\<not> tunables_locked s3" "hook_at s3 = hook_at s"
    "sgc_at s3 = sgc_at s" "sgp_at s3 = sgp_at s" "policy_at s3 = (policy_at s)(i := (policy_at s i)\<lparr>governor_data := None\<rparr>)"
    "tun_at s3 = (tun_at s)(t := (tun_at s t)\<lparr>attr_set := \<lparr>policy_list = remove1 p (policy_list a), usage_count = usage_count a - 1\<rparr>\<rparr>)"
    by (auto simp: s3_def s2_def s1_def gov_upd_defs)
  obtain s4 where k: "sugov_kthread_stop E p s3 = Some s4"
    and s4: "s4 = s3 \<or> (\<exists>s0. same_shape s3 s0 \<and> s4 = upd_sgp p (\<lambda>sg. sg\<lparr>sg_thread := False\<rparr>) s0)"
    using kthread_stop_outcome [OF E, of s3 p] thr by (auto simp: f3 pi)
  have f4: "live_sgp s4 = live_sgp s3" "live_tun s4 = live_tun s3" "global_tunables s4 = global_tunables s3"
    "tunables_locked s4 = tunables_locked s3" "hook_at s4 = hook_at s3" "\<forall>c. sg_policy (sgc_at s4 c) = sg_policy (sgc_at s3 c)"
    "\<forall>j. same_mode (policy_at s3 j) (policy_at s4 j)" "\<forall>u. attr_set (tun_at s4 u) = attr_set (tun_at s3 u)"
    "\<forall>q. q \<noteq> p \<longrightarrow> sg_pol (sgp_at s4 q) = sg_pol (sgp_at s3 q) \<and> sg_tunables (sgp_at s4 q) = sg_tunables (sgp_at s3 q)
          \<and> sg_thread (sgp_at s4 q) = sg_thread (sgp_at s3 q)"
    using s4 by (auto simp: same_shape_def upd_sgp_def)
  define s5 where "s5 = upd_pol i (cpufreq_disable_fast_switch E) (s4\<lparr>live_sgp := remove1 p (live_sgp s4)\<rparr>)"
  have "sugov_exit E i s = do {
      s \<leftarrow> (if usage_count a - 1 = 0 then sugov_tunables_free E t s1 else Some s1);
      s \<leftarrow> unlock_tunables s; s \<leftarrow> sugov_kthread_stop E p s; s \<leftarrow> sugov_policy_free p s;
      Some (upd_pol i (cpufreq_disable_fast_switch E) s) }"
    using od(6) by (simp add: sugov_exit_def g lock_tunables_def t_def a_def s1_def e(9) Let_def upd_tun_def)
  then have "sugov_exit E i s = Some s5"
    unfolding cnt using pl by (simp add: u k sugov_policy_free_def f4(1) f3(1) s5_def)
  moreover have "detached per i p s s5"
    using f4 unfolding detached_def Let_def t_def [symmetric] a_def [symmetric] s5_def
    by (auto simp: f3 upd_pol_def e(5) same_mode_def)
  ultimately show ?thesis by blast
qed

lemma detached_life_ok:
  assumes ok: "life_ok per s" and g: "governor_data (policy_at s i) = Some p" and d: "detached per i p s s'"
    and off: "\<forall>c \<in> set (policy_cpus (policy_at s i)). hook_at s c = None"
  shows "life_ok per s'"
proof -
  have o: "objects_ok s" and u: "users_ok s" and gl: "global_ok per s" and h: "hooks_ok s" using ok by (simp_all add: life_ok_def)
  note od = objects_okD [OF o]
  define t where "t = sg_tunables (sgp_at s p)"
  define a where "a = attr_set (tun_at s t)"
  have D: "live_sgp s' = remove1 p (live_sgp s)" "live_tun s' = (if usage_count a = 1 then remove1 t (live_tun s) else live_tun s)"
    "global_tunables s' = (if usage_count a = 1 \<and> \<not> per then None else global_tunables s)" "\<not> tunables_locked s'"
    "hook_at s' = hook_at s" "governor_data (policy_at s' i) = None"
    using d by (simp_all add: detached_def Let_def t_def a_def)
  have Dc: "sg_policy (sgc_at s' c) = sg_policy (sgc_at s c)" for c
    using d by (simp add: detached_def Let_def)
  have Dp: "j \<noteq> i \<Longrightarrow> same_mode (policy_at s j) (policy_at s' j)" for j
    using d by (simp add: detached_def Let_def)
  have Dq: "q \<noteq> p \<Longrightarrow> sg_pol (sgp_at s' q) = sg_pol (sgp_at s q) \<and> sg_tunables (sgp_at s' q) = sg_tunables (sgp_at s q)
          \<and> sg_thread (sgp_at s' q) = sg_thread (sgp_at s q)" for q
    using d by (simp add: detached_def Let_def)
  have Du: "attr_set (tun_at s' v) = (if v = t then \<lparr>policy_list = remove1 p (policy_list a), usage_count = usage_count a - 1\<rparr> else attr_set (tun_at s v))" for v
    using d by (simp add: detached_def Let_def t_def a_def)
  have pl: "p \<in> set (live_sgp s)" and pi: "sg_pol (sgp_at s p) = i" and tl: "t \<in> set (live_tun s)"
    using od(1,2) [OF g] od(4) [OF od(1) [OF g]] by (simp_all add: t_def)
  have ua: "distinct (policy_list a)" "usage_count a = length (policy_list a)" "set (policy_list a) = {q \<in> set (live_sgp s). sg_tunables (sgp_at s q) = t}"
    using bspec [OF u [unfolded users_ok_def Let_def] tl] unfolding a_def by simp_all
  have pin: "p \<in> set (policy_list a)" using ua(3) pl by (simp add: t_def)
  have last: "usage_count a = 1 \<longleftrightarrow> policy_list a = [p]"
    using pin ua(2) by (cases "policy_list a") auto
  have L: "set (live_sgp s') = set (live_sgp s) - {p}" using D(1) od(7) by simp
  have ne: "q \<in> set (live_sgp s') \<Longrightarrow> q \<noteq> p \<and> q \<in> set (live_sgp s) \<and> sg_pol (sgp_at s q) \<noteq> i" for q
    using L od(3) [of q] g by (metis DiffD1 DiffD2 insertI1 option.inject)
  have mode: "q \<in> set (live_sgp s') \<Longrightarrow> same_mode (policy_at s (sg_pol (sgp_at s q))) (policy_at s' (sg_pol (sgp_at s' q)))" for q
    using Dp [of "sg_pol (sgp_at s q)"] Dq [of q] ne [of q] by simp
  have tun: "q \<in> set (live_sgp s') \<Longrightarrow> sg_tunables (sgp_at s' q) \<in> set (live_tun s')" for q
  proof -
    assume q: "q \<in> set (live_sgp s')"
    have "sg_tunables (sgp_at s q) \<noteq> t" if "usage_count a = 1"
      using last that ua(3) ne [OF q] by auto
    then show "sg_tunables (sgp_at s' q) \<in> set (live_tun s')"
      using D(2) Dq [of q] ne [OF q] od(4) [of q] od(8) by auto
  qed
  have dt: "distinct (live_tun s')" "set (live_tun s') \<subseteq> set (live_tun s)"
    using D(2) od(8) set_remove1_subset [of t "live_tun s"] by auto
  have gd: "governor_data (policy_at s' j) = (if j = i then None else governor_data (policy_at s j))" for j
    using D(6) Dp [of j] by (simp add: same_mode_def)
  have "objects_ok s'"
    unfolding objects_ok_def
  proof (intro conjI allI impI ballI)
    show "\<not> tunables_locked s'" "distinct (live_tun s')" "distinct (live_sgp s')" using D(1,4) dt od(7) by simp_all
    show "q \<in> set (live_sgp s')" "sg_pol (sgp_at s' q) = j" if "governor_data (policy_at s' j) = Some q" for j q
    proof -
      have j: "j \<noteq> i" "governor_data (policy_at s j) = Some q" using that by (auto simp: gd split: if_splits)
      then have "q \<noteq> p" using od(2) [OF j(2)] od(2) [OF g] by auto
      then show "q \<in> set (live_sgp s')" "sg_pol (sgp_at s' q) = j" using od(1,2) [OF j(2)] L Dq [of q] by auto
    qed
    show "governor_data (policy_at s' (sg_pol (sgp_at s' q))) = Some q" "sg_tunables (sgp_at s' q) \<in> set (live_tun s')"
      "fast_switch_enabled (policy_at s' (sg_pol (sgp_at s' q))) \<or> sg_thread (sgp_at s' q)" if "q \<in> set (live_sgp s')" for q
      using mode [OF that] ne [OF that] od(3,5) [of q] tun [OF that] Dq [of q] by (simp_all add: same_mode_def)
  qed
  moreover have "users_ok s'"
    unfolding users_ok_def Let_def
  proof
    fix v assume v: "v \<in> set (live_tun s')"
    then have vl: "v \<in> set (live_tun s)" using dt by auto
    have users: "{q \<in> set (live_sgp s'). sg_tunables (sgp_at s' q) = v} = {q \<in> set (live_sgp s). sg_tunables (sgp_at s q) = v} - {p}"
      using Dq L by (intro set_eqI) auto
    have uv: "distinct (policy_list (attr_set (tun_at s v)))" "policy_list (attr_set (tun_at s v)) \<noteq> []"
      "usage_count (attr_set (tun_at s v)) = length (policy_list (attr_set (tun_at s v)))"
      "set (policy_list (attr_set (tun_at s v))) = {q \<in> set (live_sgp s). sg_tunables (sgp_at s q) = v}"
      using bspec [OF u [unfolded users_ok_def Let_def] vl] by simp_all
    show "distinct (policy_list (attr_set (tun_at s' v))) \<and> policy_list (attr_set (tun_at s' v)) \<noteq> [] \<and>
        usage_count (attr_set (tun_at s' v)) = length (policy_list (attr_set (tun_at s' v))) \<and>
        set (policy_list (attr_set (tun_at s' v))) = {q \<in> set (live_sgp s'). sg_tunables (sgp_at s' q) = v}"
    proof (cases "v = t")
      case True
      have "usage_count a \<noteq> 1" using v D(2) od(8) True by auto
      then have "1 < length (policy_list a)" using ua(2) length_pos_if_in_set [OF pin] by linarith
      then have "length (remove1 p (policy_list a)) \<noteq> 0" using pin by (simp add: length_remove1)
      then have "remove1 p (policy_list a) \<noteq> []" by fastforce
      then show ?thesis
        unfolding Du users using True ua pin by (auto simp: length_remove1)
    next
      case False
      moreover have "p \<notin> {q \<in> set (live_sgp s). sg_tunables (sgp_at s q) = v}" using False by (simp add: t_def)
      ultimately show ?thesis unfolding Du users using uv by simp
    qed
  qed
  moreover have "global_ok per s'"
    using gl D(2,3) tl by (auto simp: global_ok_def split: option.splits if_splits)
  moreover have "hooks_ok s'"
    unfolding hooks_ok_def
  proof (intro allI impI)
    fix c assume "hook_at s' c \<noteq> None"
    then have hk: "hook_at s c \<noteq> None" using D(5) by simp
    define q where "q = sg_policy (sgc_at s c)"
    have q: "q \<in> set (live_sgp s)" "c \<in> set (policy_cpus (policy_at s (sg_pol (sgp_at s q))))"
      using h hk by (auto simp: hooks_ok_def q_def)
    then have "q \<noteq> p" using off hk pi by auto
    then have "q \<in> set (live_sgp s')" using q L by simp
    then show "sg_policy (sgc_at s' c) \<in> set (live_sgp s') \<and> c \<in> set (policy_cpus (policy_at s' (sg_pol (sgp_at s' (sg_policy (sgc_at s' c))))))"
      using mode [of q] q by (simp add: same_mode_def q_def Dc)
  qed
  ultimately show ?thesis by (simp add: life_ok_def)
qed

lemma exit_life_ok:
  assumes E: "env_ok E" and ok: "life_ok per s" and per: "per = have_governor_per_policy E"
    and g: "governor_data (policy_at s i) = Some p" and off: "\<forall>c \<in> set (policy_cpus (policy_at s i)). hook_at s c = None"
  shows "\<exists>s'. sugov_exit E i s = Some s' \<and> life_ok per s' \<and> live_sgp s' = remove1 p (live_sgp s)"
proof -
  have o: "objects_ok s" and u: "users_ok s" using ok by (simp_all add: life_ok_def)
  have "sg_tunables (sgp_at s p) \<in> set (live_tun s)" using objects_okD(1,4) [OF o] g by blast
  then have "usage_count (attr_set (tun_at s (sg_tunables (sgp_at s p)))) \<noteq> 0"
    using bspec [OF u [unfolded users_ok_def Let_def]] by simp
  then obtain s' where s': "sugov_exit E i s = Some s'" "detached per i p s s'"
    using exit_detached [OF E o per g] by blast
  moreover have "live_sgp s' = remove1 p (live_sgp s)" using s'(2) by (simp add: detached_def Let_def)
  ultimately show ?thesis using detached_life_ok [OF ok g s'(2) off] by blast
qed

section \<open>Start and stop\<close>

lemma start_cpus:
  "hook_at (fold (start_cpu p sh) cs s) c = (if c \<in> set cs then Some (if sh then UpdateShared else UpdateSingle) else hook_at s c)"
  "sg_policy (sgc_at (fold (start_cpu p sh) cs s) c) = (if c \<in> set cs then p else sg_policy (sgc_at s c))"
  "live_sgp (fold (start_cpu p sh) cs s) = live_sgp s" "policy_at (fold (start_cpu p sh) cs s) = policy_at s"
  "sgp_at (fold (start_cpu p sh) cs s) = sgp_at s" "tun_at (fold (start_cpu p sh) cs s) = tun_at s"
  "live_tun (fold (start_cpu p sh) cs s) = live_tun s" "global_tunables (fold (start_cpu p sh) cs s) = global_tunables s"
  "tunables_locked (fold (start_cpu p sh) cs s) = tunables_locked s"
  by (induction cs arbitrary: s) (auto simp: start_cpu_def gov_upd_defs Let_def)

lemma start_life_ok:
  assumes ok: "life_ok per s" and g: "governor_data (policy_at s i) = Some p"
  shows "\<exists>s'. sugov_start i s = Some s' \<and> life_ok per s' \<and> min_rate_ok (sgp_at s' p)
    \<and> (\<forall>c \<in> set (policy_cpus (policy_at s i)). hook_at s' c \<noteq> None \<and> sg_policy (sgc_at s' c) = p)"
proof -
  have o: "objects_ok s" and h: "hooks_ok s" using ok by (simp_all add: life_ok_def)
  have p: "p \<in> set (live_sgp s)" "sg_pol (sgp_at s p) = i" using objects_okD(1,2) [OF o g] by simp_all
  define t where "t = sg_tunables (sgp_at s p)"
  define s1 where "s1 = upd_tun t (\<lambda>u. u\<lparr>iowait_boost_max := ucast (max_freq (policy_at s i))\<rparr>)
     (upd_sgp p (\<lambda>sg. sg\<lparr>last_freq_update_time := 0, next_freq := UINT_MAX, work_in_progress := False, need_freq_update := False\<rparr>)
       (update_min_rate_limit_us p
         (upd_sgp p (\<lambda>sg. sg\<lparr>up_rate_delay_ns := ucast (up_rate_limit_us (tun_at s t)) * NSEC_PER_USEC,
                           down_rate_delay_ns := ucast (down_rate_limit_us (tun_at s t)) * NSEC_PER_USEC\<rparr>) s)))"
  define s2 where "s2 = upd_sgp p (\<lambda>sg. sg\<lparr>cached_raw_freq := 0\<rparr>) s1"
  have sh: "same_shape s s2"
    by (simp add: s2_def s1_def same_shape_def gov_upd_defs update_min_rate_limit_us_def)
  have mn: "min_rate_ok (sgp_at s2 p)"
    by (simp add: s2_def s1_def gov_upd_defs update_min_rate_limit_us_def min_rate_ok_def)
  have ok2: "life_ok per s2" using ok life_ok_shape [OF sh] by simp
  let ?cs = "policy_cpus (policy_at s i)" and ?s' = "fold (start_cpu p (policy_is_shared (policy_at s i))) (policy_cpus (policy_at s i)) s2"
  have "sugov_start i s = Some ?s'"
    by (simp add: sugov_start_def g Let_def s2_def s1_def t_def)
  moreover have "hooks_ok ?s'"
    unfolding hooks_ok_def
  proof (intro allI impI)
    fix c assume hk: "hook_at ?s' c \<noteq> None"
    show "sg_policy (sgc_at ?s' c) \<in> set (live_sgp ?s') \<and>
       c \<in> set (policy_cpus (policy_at ?s' (sg_pol (sgp_at ?s' (sg_policy (sgc_at ?s' c))))))"
    proof (cases "c \<in> set ?cs")
      case True
      then show ?thesis using p sh by (simp add: start_cpus same_shape_def same_mode_def)
    next
      case False
      then have "hook_at s2 c \<noteq> None" using hk by (simp add: start_cpus)
      then show ?thesis using False ok2 by (simp add: start_cpus life_ok_def hooks_ok_def)
    qed
  qed
  moreover have "objects_ok ?s' \<and> users_ok ?s' \<and> global_ok per ?s'"
    using ok2 by (simp add: life_ok_def objects_ok_def users_ok_def global_ok_def start_cpus)
  ultimately show ?thesis using mn by (auto simp: life_ok_def start_cpus)
qed

lemma remove_hooks:
  "hook_at (fold remove_hook cs s) c = (if c \<in> set cs then None else hook_at s c)"
  "live_sgp (fold remove_hook cs s) = live_sgp s" "policy_at (fold remove_hook cs s) = policy_at s"
  "sgp_at (fold remove_hook cs s) = sgp_at s" "tun_at (fold remove_hook cs s) = tun_at s" "sgc_at (fold remove_hook cs s) = sgc_at s"
  "live_tun (fold remove_hook cs s) = live_tun s" "global_tunables (fold remove_hook cs s) = global_tunables s"
  "tunables_locked (fold remove_hook cs s) = tunables_locked s"
  by (induction cs arbitrary: s) (auto simp: remove_hook_def)

lemma stop_life_ok:
  assumes ok: "life_ok per s" and g: "governor_data (policy_at s i) = Some p"
  shows "\<exists>s'. sugov_stop i s = Some s' \<and> life_ok per s' \<and> (\<forall>c \<in> set (policy_cpus (policy_at s i)). hook_at s' c = None)
    \<and> (fast_switch_enabled (policy_at s i) \<or> \<not> work_pending (sgp_at s' p))"
proof -
  define s1 where "s1 = fold remove_hook (policy_cpus (policy_at s i)) s"
  have ok1: "life_ok per s1"
    using ok by (auto simp: life_ok_defs s1_def remove_hooks)
  define s2 where "s2 = (if fast_switch_enabled (policy_at s1 i) then s1
       else let s = (if irq_pending (sgp_at s1 p) then sugov_irq_work p s1 else s1)
         in upd_sgp p (\<lambda>sg. sg\<lparr>work_pending := False\<rparr>) s)"
  have sh: "same_shape s1 s2"
    unfolding s2_def by (simp add: Let_def same_shape_trans [OF irq_shape same_shape_upd(1)])
  have "sugov_stop i s = Some s2" by (simp add: sugov_stop_def g s1_def s2_def)
  moreover have "hook_at s2 c = None" if "c \<in> set (policy_cpus (policy_at s i))" for c
    using sh that by (simp add: same_shape_def s1_def remove_hooks)
  moreover have "fast_switch_enabled (policy_at s i) \<or> \<not> work_pending (sgp_at s2 p)"
    by (simp add: s2_def s1_def remove_hooks Let_def)
  ultimately show ?thesis using life_ok_shape [OF sh] ok1 by blast
qed

end
