(* ===== verification/Governor_Life.thy ===== *)
theory Governor_Life
  imports Lifecycle_Props
begin

text \<open>
  The governor's life as a transition system: what the cpufreq core, the files, the update hooks and the
  kernel thread do, in any order the core allows, and the properties of every reachable state.
\<close>

section \<open>Steps\<close>

text \<open>
  The core calls \<open>start\<close>, \<open>stop\<close>, \<open>limits\<close> and \<open>exit\<close> for a policy the governor is attached to, \<open>exit\<close>
  after the hooks of the policy's cpus were removed. A hook runs on a cpu it is installed for, irq
  work and thread work run when they are pending.
\<close>

inductive life :: "bool \<Rightarrow> gov_state \<Rightarrow> gov_state \<Rightarrow> bool" for per where
  init: "env_ok E \<Longrightarrow> have_governor_per_policy E = per \<Longrightarrow> sugov_init E i s = Some (r, s') \<Longrightarrow> life per s s'"
| exit: "env_ok E \<Longrightarrow> have_governor_per_policy E = per \<Longrightarrow> \<forall>c \<in> set (policy_cpus (policy_at s i)). hook_at s c = None \<Longrightarrow>
    sugov_exit E i s = Some s' \<Longrightarrow> life per s s'"
| start: "sugov_start i s = Some s' \<Longrightarrow> life per s s'"
| stop: "sugov_stop i s = Some s' \<Longrightarrow> life per s s'"
| limits: "env_ok E \<Longrightarrow> sugov_limits (env_api E) i s = Some s' \<Longrightarrow> life per s s'"
| write_up: "life per s (snd (up_rate_limit_us_store k t b n s))"
| write_down: "life per s (snd (down_rate_limit_us_store k t b n s))"
| write_margin: "life per s (snd (capacity_margin_store k t b n s))"
| write_boost: "life per s (snd (iowait_boost_max_store l t b n s))"
| hook_shared: "hook_at s c = Some UpdateShared \<Longrightarrow> sugov_update_shared G c t f s = Some s' \<Longrightarrow> life per s s'"
| hook_single: "hook_at s c = Some UpdateSingle \<Longrightarrow> sugov_update_single G ic c t f s = Some s' \<Longrightarrow> life per s s'"
| irq: "irq_pending (sgp_at s p) \<Longrightarrow> life per s (sugov_irq_work p s)"
| work: "env_ok E \<Longrightarrow> work_pending (sgp_at s p) \<Longrightarrow> life per s (sugov_work (env_api E) p s)"

lemma governor_data_defined:
  "sugov_exit E i s = Some s' \<Longrightarrow> \<exists>p. governor_data (policy_at s i) = Some p"
  "sugov_start i s = Some s' \<Longrightarrow> \<exists>p. governor_data (policy_at s i) = Some p"
  "sugov_stop i s = Some s' \<Longrightarrow> \<exists>p. governor_data (policy_at s i) = Some p"
  by (auto simp: sugov_exit_def sugov_start_def sugov_stop_def bind_eq_Some_conv)

lemma life_step_ok:
  assumes "life per s s'" "life_ok per s"
  shows "life_ok per s'"
  using assms
proof (cases rule: life.cases)
  case (init E i r)
  then have nk: "\<not> kthread_fails E i s"
    using init_kthread_undefined [of E i s] assms(2) by (auto simp: life_ok_def objects_ok_def)
  have "life_ok (have_governor_per_policy E) s" using assms(2) init(2) by simp
  from sugov_init_outcome [OF init(1) this refl nk] have "init_outcome E i s r s'" using init(3) by simp
  then show ?thesis by (rule init_life_ok [OF assms(2) _ init(2) [symmetric]])
next
  case (exit E i)
  then obtain p where g: "governor_data (policy_at s i) = Some p" using governor_data_defined(1) by blast
  show ?thesis using exit_life_ok [OF exit(1) assms(2) exit(2) [symmetric] g exit(3)] exit(4) by simp
next
  case (start i)
  then obtain p where g: "governor_data (policy_at s i) = Some p" using governor_data_defined(2) by blast
  show ?thesis using start_life_ok [OF assms(2) g] start by simp
next
  case (stop i)
  then obtain p where g: "governor_data (policy_at s i) = Some p" using governor_data_defined(3) by blast
  show ?thesis using stop_life_ok [OF assms(2) g] stop by simp
next
  case (limits E i)
  then show ?thesis using assms(2) life_ok_shape [OF limits_shape] by simp
next
  case (write_up k t b n)
  then show ?thesis using assms(2) life_ok_shape [OF write_shape(1)] by simp
next
  case (write_down k t b n)
  then show ?thesis using assms(2) life_ok_shape [OF write_shape(2)] by simp
next
  case (write_margin k t b n)
  then show ?thesis using assms(2) life_ok_shape [OF write_shape(3)] by simp
next
  case (write_boost l t b n)
  then show ?thesis using assms(2) life_ok_shape [OF write_shape(4)] by simp
next
  case (hook_shared c G t f)
  then show ?thesis using assms(2) life_ok_shape [OF update_shared_shape] by simp
next
  case (hook_single c G ic t f)
  then show ?thesis using assms(2) life_ok_shape [OF update_single_shape] by simp
next
  case (irq p)
  then show ?thesis using assms(2) life_ok_shape [OF irq_shape] by simp
next
  case (work E p)
  then show ?thesis using assms(2) life_ok_shape [OF work_shape] by simp
qed

lemma life_star_ok:
  assumes "(life per)\<^sup>*\<^sup>* s s'" "life_ok per s"
  shows "life_ok per s'"
  using assms by (induction rule: rtranclp_induct) (auto intro: life_step_ok)

text \<open>The state before any policy uses the governor.\<close>

definition unused :: "gov_state \<Rightarrow> bool" where
  "unused s \<longleftrightarrow> live_sgp s = [] \<and> live_tun s = [] \<and> global_tunables s = None \<and> \<not> tunables_locked s
     \<and> (\<forall>c. hook_at s c = None) \<and> (\<forall>i. governor_data (policy_at s i) = None)"

lemma unused_ok: "unused s \<Longrightarrow> life_ok per s"
  by (simp add: unused_def life_ok_defs)

text \<open>Without an attached policy nothing is left.\<close>

lemma life_ok_unused:
  assumes ok: "life_ok per s" and n: "\<forall>i. governor_data (policy_at s i) = None"
  shows "unused s"
proof -
  have o: "objects_ok s" and u: "users_ok s" and g: "global_ok per s" and h: "hooks_ok s" using ok by (simp_all add: life_ok_def)
  have sgp: "live_sgp s = []"
  proof (rule ccontr)
    assume "live_sgp s \<noteq> []"
    then obtain p where "p \<in> set (live_sgp s)" by (cases "live_sgp s") auto
    then show False using objects_okD(3) [OF o] n by fastforce
  qed
  have tun: "live_tun s = []"
  proof (rule ccontr)
    assume "live_tun s \<noteq> []"
    then obtain t where "t \<in> set (live_tun s)" by (cases "live_tun s") auto
    then show False using u sgp by (fastforce simp: users_ok_def Let_def)
  qed
  show ?thesis
    using n o g h sgp tun by (auto simp: unused_def objects_ok_def global_ok_def hooks_ok_def split: if_splits option.splits)
qed

section \<open>A concrete life\<close>

definition demo_env :: gov_env where
  "demo_env = \<lparr>env_api = demo_gapi, have_governor_per_policy = False, cpufreq_enable_fast_switch = (\<lambda>q. q),
     cpufreq_disable_fast_switch = (\<lambda>q. q), kzalloc_sgp = (\<lambda>l. Some (Suc (sum_list l))), kzalloc_tun = (\<lambda>l. Some (Suc (sum_list l))),
     kthread_create_err = 0, sched_setscheduler_ret = 0, kobject_add_ret = 0,
     gov_attr_set_init = (\<lambda>p. \<lparr>policy_list = [p], usage_count = 1\<rparr>),
     gov_attr_set_get = (\<lambda>a p. \<lparr>policy_list = p # policy_list a, usage_count = Suc (usage_count a)\<rparr>),
     gov_attr_set_put = (\<lambda>a p. (usage_count a - 1, \<lparr>policy_list = remove1 p (policy_list a), usage_count = usage_count a - 1\<rparr>))\<rparr>"

lemma fresh_sum: "Suc (sum_list l) \<notin> set (l :: nat list)"
  using member_le_sum_list [of "Suc (sum_list l)" l] by auto

lemma demo_env_ok [simp]: "env_ok demo_env"
  by (simp add: env_ok_def demo_env_def fresh_sum same_mode_def demo_gapi_def)

lemma demo_env_fails_ok: "env_ok (demo_env\<lparr>kthread_create_err := e\<rparr>)" "env_ok (demo_env\<lparr>kobject_add_ret := e\<rparr>)"
  by (simp_all add: env_ok_def demo_env_def fresh_sum same_mode_def demo_gapi_def)

text \<open>The kernel before the governor is chosen: a policy of four cpus without governor data.\<close>

definition idle_gov :: gov_state where
  "idle_gov = demo_gov\<lparr>policy_at := (\<lambda>_. demo_policy\<lparr>governor_data := None\<rparr>), live_sgp := [], live_tun := [], global_tunables := None\<rparr>"

lemma idle_unused [simp]: "unused idle_gov"
  by (simp add: unused_def idle_gov_def demo_gov_def)

lemma idle_no_fail: "\<not> kthread_fails demo_env i idle_gov"
  by (simp add: kthread_fails_def demo_env_def)

lemma idle_init: "\<exists>r s'. sugov_init demo_env 0 idle_gov = Some (r, s') \<and> init_outcome demo_env 0 idle_gov r s'"
  by (rule sugov_init_outcome [OF demo_env_ok unused_ok [OF idle_unused] _ idle_no_fail]) simp

section \<open>Which calls are defined\<close>

text \<open>The one path on which initialisation is undefined: when the policy switches frequencies slowly and
  its thread cannot be created or scheduled, the error path releases a mutex it never took. Every other
  initialisation completes.\<close>

theorem init_undefined_iff:
  assumes "env_ok E" "life_ok (have_governor_per_policy E) s"
  shows "sugov_init E i s = None \<longleftrightarrow> kthread_fails E i s"
proof -
  have "\<not> tunables_locked s" using assms(2) by (simp add: life_ok_def objects_ok_def)
  then show ?thesis
    using init_kthread_undefined [of E i s] sugov_init_outcome [OF assms refl, of i] by (cases "kthread_fails E i s") auto
qed

theorem init_undefined_iff_witness:
  "sugov_init (demo_env\<lparr>kthread_create_err := - ENOMEM\<rparr>) 0 idle_gov = None"
  using init_undefined_iff [OF demo_env_fails_ok(1) unused_ok [OF idle_unused], of "- ENOMEM" 0]
  by (simp add: kthread_fails_def demo_env_def idle_gov_def demo_policy_def)

text \<open>On an attached policy, start, stop and limits always complete, and exit does once the policy was
  stopped; start installs a hook on every cpu of the policy and leaves the gate the smaller of
  the two rate limits, stop removes the hooks and leaves no pending work behind.\<close>

theorem attached_calls_complete:
  assumes "env_ok E" "life_ok (have_governor_per_policy E) s" "governor_data (policy_at s i) = Some p"
  shows "(\<exists>s'. sugov_start i s = Some s' \<and> min_rate_ok (sgp_at s' p)
        \<and> (\<forall>c \<in> set (policy_cpus (policy_at s i)). hook_at s' c \<noteq> None \<and> sg_policy (sgc_at s' c) = p))
    \<and> (\<exists>s'. sugov_stop i s = Some s' \<and> (\<forall>c \<in> set (policy_cpus (policy_at s i)). hook_at s' c = None)
        \<and> (fast_switch_enabled (policy_at s i) \<or> \<not> work_pending (sgp_at s' p)))
    \<and> (\<exists>s'. sugov_limits (env_api E) i s = Some s' \<and> need_freq_update (sgp_at s' p))
    \<and> ((\<forall>c \<in> set (policy_cpus (policy_at s i)). hook_at s c = None) \<longrightarrow>
        (\<exists>s'. sugov_exit E i s = Some s' \<and> live_sgp s' = remove1 p (live_sgp s)))"
proof (intro conjI impI)
  show "\<exists>s'. sugov_limits (env_api E) i s = Some s' \<and> need_freq_update (sgp_at s' p)"
    using assms(3) by (simp add: sugov_limits_def Let_def)
qed (use start_life_ok [OF assms(2,3)] stop_life_ok [OF assms(2,3)] exit_life_ok [OF assms(1,2) refl assms(3)] in blast)+

theorem attached_calls_complete_witness:
  "\<exists>s s'. governor_data (policy_at s 0) \<noteq> None \<and> sugov_start 0 s = Some s' \<and> hook_at s' 3 \<noteq> None"
proof -
  obtain s where s: "sugov_init demo_env 0 idle_gov = Some (0, s)" "governor_data (policy_at s 0) = Some 1"
      "policy_cpus (policy_at s 0) = [0, 1, 2, 3]"
    by (simp add: init_defs idle_gov_def demo_env_def demo_gov_def demo_policy_def gov_upd_defs Let_def)
  have "life False idle_gov s"
    by (rule life.init [OF demo_env_ok _ s(1)]) (simp add: demo_env_def)
  then have "life_ok (have_governor_per_policy demo_env) s"
    using life_step_ok unused_ok [OF idle_unused] by (simp add: demo_env_def)
  from attached_calls_complete [OF demo_env_ok this s(2)] show ?thesis using s(2,3) by auto
qed

section \<open>Properties\<close>

text \<open>C13: From a kernel that does not use the governor, through any sequence of initialisations (failing
  ones included), starts, stops, exits, limit changes, writes to the attributes, hook runs and thread work,
  no policy object or tunables object is leaked, freed twice or still referenced after it was freed, the
  users of each set of tunables are exactly the attached policies, every installed hook belongs to a live
  object, and once no policy is attached any more everything is released. A double free, an unlock of a free mutex, a lock of a held
  one or the stop of a missing thread would make a call undefined; in every state reached start, stop and limits
  are defined on every attached policy, exit on every attached policy without hooks, and initialisation on every policy
  unless its thread cannot be created, where the code unlocks a mutex it does not hold. The allocators, the
  attribute sets and the core's switches behave as \<open>env_ok\<close> says.\<close>

theorem objects_sound:
  assumes "unused s" "(life per)\<^sup>*\<^sup>* s s'"
  shows "life_ok per s' \<and> ((\<forall>i. governor_data (policy_at s' i) = None) \<longrightarrow> unused s')
    \<and> (\<forall>E i. env_ok E \<and> have_governor_per_policy E = per \<longrightarrow>
        (sugov_init E i s' = None \<longleftrightarrow> kthread_fails E i s')
        \<and> (governor_data (policy_at s' i) \<noteq> None \<longrightarrow>
            sugov_start i s' \<noteq> None \<and> sugov_stop i s' \<noteq> None \<and> sugov_limits (env_api E) i s' \<noteq> None
            \<and> ((\<forall>c \<in> set (policy_cpus (policy_at s' i)). hook_at s' c = None) \<longrightarrow> sugov_exit E i s' \<noteq> None)))"
proof -
  have ok: "life_ok per s'" by (rule life_star_ok [OF assms(2) unused_ok [OF assms(1)]])
  have "sugov_init E i s' = None \<longleftrightarrow> kthread_fails E i s'" if "env_ok E" "have_governor_per_policy E = per" for E i
    using init_undefined_iff [of E s' i] that ok by simp
  moreover have "sugov_start i s' \<noteq> None \<and> sugov_stop i s' \<noteq> None \<and> sugov_limits (env_api E) i s' \<noteq> None
      \<and> ((\<forall>c \<in> set (policy_cpus (policy_at s' i)). hook_at s' c = None) \<longrightarrow> sugov_exit E i s' \<noteq> None)"
    if "env_ok E" "have_governor_per_policy E = per" "governor_data (policy_at s' i) \<noteq> None" for E i
    using attached_calls_complete [of E s' i] that ok by auto
  ultimately show ?thesis using ok life_ok_unused by blast
qed

theorem objects_sound_witness:
  "\<exists>r s1. sugov_init demo_env 0 idle_gov = Some (r, s1) \<and> (life False)\<^sup>*\<^sup>* idle_gov s1 \<and> life_ok False s1
     \<and> (governor_data (policy_at s1 0) \<noteq> None \<longrightarrow> sugov_start 0 s1 \<noteq> None)"
proof -
  obtain r s1 where i: "sugov_init demo_env 0 idle_gov = Some (r, s1)" using idle_init by blast
  have per: "have_governor_per_policy demo_env = False" by (simp add: demo_env_def)
  have "life False idle_gov s1" by (rule life.init [OF demo_env_ok per i])
  then have "(life False)\<^sup>*\<^sup>* idle_gov s1" by blast
  then show ?thesis using i objects_sound [OF idle_unused] demo_env_ok per by blast
qed

text \<open>C27: Initialisation is all or nothing wherever it is defined: with result 0 the policy has a new object, a thread if it needs
  one, and a place in the global tunables or a set of its own with the default values; with an error
  everything allocated on the way was released and no other policy, object or lock is changed. It is undefined on exactly one
  path: when the policy switches frequencies slowly and its thread cannot be created or scheduled, the error path
  unlocks the tunables' mutex, which it does not hold.\<close>

theorem init_all_or_nothing:
  assumes "env_ok E" "life_ok (have_governor_per_policy E) s"
  shows "(sugov_init E i s = None \<longleftrightarrow> kthread_fails E i s)
    \<and> (\<forall>r s'. sugov_init E i s = Some (r, s') \<longrightarrow>
        (r = 0 \<longrightarrow> (\<exists>p t. attached E i p t s s' \<and> (joined t p s s' \<or> founded (have_governor_per_policy E) t p s s')))
        \<and> (r \<noteq> 0 \<longrightarrow> governor_data (policy_at s i) \<noteq> None \<and> r = - EBUSY \<and> s' = s \<or> restored E i s s'))"
proof (intro conjI [OF init_undefined_iff [OF assms]] allI impI)
  fix r s'
  assume i: "sugov_init E i s = Some (r, s')"
  then have "\<not> kthread_fails E i s" using init_undefined_iff [OF assms, of i] by simp
  then have "init_outcome E i s r s'" using sugov_init_outcome [OF assms refl] i by force
  then show "(r = 0 \<longrightarrow> (\<exists>p t. attached E i p t s s' \<and> (joined t p s s' \<or> founded (have_governor_per_policy E) t p s s')))
        \<and> (r \<noteq> 0 \<longrightarrow> governor_data (policy_at s i) \<noteq> None \<and> r = - EBUSY \<and> s' = s \<or> restored E i s s')"
    by (auto simp: init_outcome_def split: if_splits)
qed

theorem init_all_or_nothing_witness:
  "(\<exists>s'. sugov_init (demo_env\<lparr>kobject_add_ret := - ENOMEM\<rparr>) 0 idle_gov = Some (- ENOMEM, s')
     \<and> restored (demo_env\<lparr>kobject_add_ret := - ENOMEM\<rparr>) 0 idle_gov s')
   \<and> sugov_init (demo_env\<lparr>kthread_create_err := - ENOMEM\<rparr>) 0 idle_gov = None"
proof
  let ?E = "demo_env\<lparr>kobject_add_ret := - ENOMEM\<rparr>"
  have ok: "life_ok per idle_gov" for per by (rule unused_ok [OF idle_unused])
  obtain s' where s': "sugov_init ?E 0 idle_gov = Some (- ENOMEM, s')"
    by (simp add: init_defs idle_gov_def demo_env_def demo_gov_def demo_policy_def gov_upd_defs Let_def)
  have "governor_data (policy_at idle_gov 0) = None" by (simp add: idle_gov_def demo_policy_def)
  then have "restored ?E 0 idle_gov s'"
    using s' init_all_or_nothing [OF demo_env_fails_ok(2) ok, of "- ENOMEM" 0] by auto
  then show "\<exists>s'. sugov_init ?E 0 idle_gov = Some (- ENOMEM, s') \<and> restored ?E 0 idle_gov s'" using s' by blast
  show "sugov_init (demo_env\<lparr>kthread_create_err := - ENOMEM\<rparr>) 0 idle_gov = None"
    using init_all_or_nothing [OF demo_env_fails_ok(1) ok, of "- ENOMEM" 0]
    by (simp add: kthread_fails_def demo_env_def idle_gov_def demo_policy_def)
qed

end
