(* ===== verification/Modules.thy ===== *)
theory Modules
  imports Sysfs
begin

text \<open>
  The loadable modules that switch the extensions on and off: \<open>ms_module.c\<close>, \<open>perf_module.c\<close>,
  \<open>cycle_module.c\<close>, \<open>overhead_module.c\<close> and \<open>track_module.c\<close>. The last three also show counters in a file
  under sysfs. (\<open>pemt_module.c\<close>, which programs the counters of the processor, is in theory \<open>Pmu\<close>.)
\<close>

section \<open>Objects under sysfs\<close>

text \<open>The governor's state with the names of the kernel objects and the files that exist.\<close>

record mod_state =
  mod_gov :: gov_state
  kobjects :: "string list"
  sysfs_files :: "string list"

text \<open>
  The common shape of the three initialisers: create the object, then the file; when the file cannot be
  created, remove it and put the object. \<open>kobj_ok\<close> and \<open>ret\<close> are the results of \<open>kobject_create_and_add\<close>
  and \<open>sysfs_create_file\<close>; the code does not check the first, and a file on a \<open>NULL\<close> object is
  undefined.
\<close>

definition module_file_init ::
  "string \<Rightarrow> string \<Rightarrow> (gov_state \<Rightarrow> gov_state) \<Rightarrow> bool \<Rightarrow> int \<Rightarrow> mod_state \<Rightarrow> (int \<times> mod_state) option" where
  "module_file_init kobj file enable kobj_ok ret s =
     (if \<not> kobj_ok then None
      else let s = s\<lparr>kobjects := kobj # kobjects s\<rparr> in
        if ret \<noteq> 0 then Some (- 1, s\<lparr>kobjects := remove1 kobj (kobjects s)\<rparr>)
        else Some (0, s\<lparr>sysfs_files := file # sysfs_files s, mod_gov := enable (mod_gov s)\<rparr>))"

definition module_file_exit :: "string \<Rightarrow> string \<Rightarrow> (gov_state \<Rightarrow> gov_state) \<Rightarrow> mod_state \<Rightarrow> mod_state" where
  "module_file_exit kobj file disable s =
     s\<lparr>sysfs_files := remove1 file (sysfs_files s), kobjects := remove1 kobj (kobjects s), mod_gov := disable (mod_gov s)\<rparr>"

text \<open>\<open>sprintf\<close> with four or two numbers.\<close>

definition decimals :: "nat list \<Rightarrow> string" where
  "decimals ns = concat (map (\<lambda>n. decimal n @ '' '') (butlast ns)) @ decimal (last ns) @ [newline]"

section \<open>The plain switches\<close>

definition ms_init :: "mod_state \<Rightarrow> int \<times> mod_state" where
  "ms_init s = (0, s\<lparr>mod_gov := (mod_gov s)\<lparr>pkshin_freq_enabled := True\<rparr>\<rparr>)"

definition ms_exit :: "mod_state \<Rightarrow> mod_state" where
  "ms_exit s = s\<lparr>mod_gov := (mod_gov s)\<lparr>pkshin_freq_enabled := False\<rparr>\<rparr>"

definition perf_init :: "mod_state \<Rightarrow> int \<times> mod_state" where
  "perf_init s = (0, s\<lparr>mod_gov := (mod_gov s)\<lparr>pkshin_perf_enabled := True\<rparr>\<rparr>)"

definition perf_exit :: "mod_state \<Rightarrow> mod_state" where
  "perf_exit s = s\<lparr>mod_gov := (mod_gov s)\<lparr>pkshin_perf_enabled := False\<rparr>\<rparr>"

section \<open>Cycle tracking\<close>

definition cycle_clear :: "gov_state \<Rightarrow> gov_state" where
  "cycle_clear g = g\<lparr>total_idle_time_sum := 0, total_busy_time_sum := 0, total_idle_cycle_sum := 0, total_busy_cycle_sum := 0\<rparr>"

definition cycle_show :: "mod_state \<Rightarrow> string \<times> mod_state" where
  "cycle_show s =
     (let g = mod_gov s in
      (decimals [unat (total_idle_time_sum g), unat (total_busy_time_sum g), unat (total_idle_cycle_sum g), unat (total_busy_cycle_sum g)],
       s\<lparr>mod_gov := cycle_clear g\<rparr>))"

definition cycle_store :: "nat \<Rightarrow> mod_state \<Rightarrow> nat \<times> mod_state" where
  "cycle_store count s = (count, s\<lparr>mod_gov := cycle_clear (mod_gov s)\<rparr>)"

definition cycle_init :: "bool \<Rightarrow> int \<Rightarrow> mod_state \<Rightarrow> (int \<times> mod_state) option" where
  "cycle_init = module_file_init ''pkshin'' ''cycle'' (upd_kern (\<lambda>k. k\<lparr>pkshin_cycle_enabled := True\<rparr>))"

definition cycle_exit :: "mod_state \<Rightarrow> mod_state" where
  "cycle_exit = module_file_exit ''pkshin'' ''cycle'' (upd_kern (\<lambda>k. k\<lparr>pkshin_cycle_enabled := False\<rparr>))"

section \<open>Overhead tracking\<close>

definition overhead_clear :: "gov_state \<Rightarrow> gov_state" where
  "overhead_clear g = g\<lparr>total_mSchedutil_time := 0, total_governor_time := 0\<rparr>"

definition overhead_show :: "mod_state \<Rightarrow> string \<times> mod_state" where
  "overhead_show s =
     (let g = mod_gov s in
      (decimals [unat (total_mSchedutil_time g), unat (total_governor_time g)], s\<lparr>mod_gov := overhead_clear g\<rparr>))"

definition overhead_store :: "nat \<Rightarrow> mod_state \<Rightarrow> nat \<times> mod_state" where
  "overhead_store count s = (count, s\<lparr>mod_gov := overhead_clear (mod_gov s)\<rparr>)"

definition overhead_init :: "bool \<Rightarrow> int \<Rightarrow> mod_state \<Rightarrow> (int \<times> mod_state) option" where
  "overhead_init = module_file_init ''pkshin2'' ''overhead'' (\<lambda>g. g\<lparr>pkshin_overhead_enabled := True\<rparr>)"

definition overhead_exit :: "mod_state \<Rightarrow> mod_state" where
  "overhead_exit = module_file_exit ''pkshin2'' ''overhead'' (\<lambda>g. g\<lparr>pkshin_overhead_enabled := False\<rparr>)"

section \<open>Tracking of the last decision\<close>

definition track_clear :: "gov_state \<Rightarrow> gov_state" where
  "track_clear g = g\<lparr>pkshin_util_track := 0, pkshin_core_util_track := 0, pkshin_memory_util_track := 0, pkshin_memory_track := 0\<rparr>"

text \<open>Reading does not clear these values.\<close>

definition track_show :: "mod_state \<Rightarrow> string \<times> mod_state" where
  "track_show s =
     (let g = mod_gov s in
      (decimals [unat (pkshin_util_track g), unat (pkshin_core_util_track g), unat (pkshin_memory_util_track g), unat (pkshin_memory_track g)], s))"

definition track_store :: "nat \<Rightarrow> mod_state \<Rightarrow> nat \<times> mod_state" where
  "track_store count s = (count, s\<lparr>mod_gov := track_clear (mod_gov s)\<rparr>)"

definition track_init :: "bool \<Rightarrow> int \<Rightarrow> mod_state \<Rightarrow> (int \<times> mod_state) option" where
  "track_init = module_file_init ''pkshin3'' ''track'' (\<lambda>g. g\<lparr>pkshin_track_enabled := True\<rparr>)"

definition track_exit :: "mod_state \<Rightarrow> mod_state" where
  "track_exit = module_file_exit ''pkshin3'' ''track'' (\<lambda>g. g\<lparr>pkshin_track_enabled := False\<rparr>)"

section \<open>The contract of a switch\<close>

text \<open>
  A module whose loading, when it succeeds, switches something on, when it fails changes nothing, and
  whose unloading undoes the loading.
\<close>

locale switch_module =
  fixes load :: "bool \<Rightarrow> int \<Rightarrow> 's \<Rightarrow> (int \<times> 's) option"
    and unload :: "'s \<Rightarrow> 's"
    and enabled :: "'s \<Rightarrow> bool"
  assumes load_enables: "load k r s = Some (0, s') \<Longrightarrow> enabled s'"
    and load_fails: "load k r s = Some (e, s') \<Longrightarrow> e \<noteq> 0 \<Longrightarrow> s' = s"
    and unload_load: "\<not> enabled s \<Longrightarrow> load k r s = Some (0, s') \<Longrightarrow> unload s' = s"

text \<open>A history of the module loader: it loads a module that is not loaded (with the given results of the
  surroundings) and unloads one that is.\<close>

fun module_run ::
  "(bool \<Rightarrow> int \<Rightarrow> 's \<Rightarrow> (int \<times> 's) option) \<Rightarrow> ('s \<Rightarrow> 's) \<Rightarrow> (bool \<times> int) list \<Rightarrow> bool \<times> 's \<Rightarrow> (bool \<times> 's) option" where
  "module_run load unload [] st = Some st"
| "module_run load unload ((k, r) # es) (loaded, s) =
     (if loaded then module_run load unload es (False, unload s)
      else (case load k r s of
              None \<Rightarrow> None
            | Some (e, s') \<Rightarrow> module_run load unload es (e = 0, s')))"

context switch_module
begin

lemma run_switch:
  assumes "module_run load unload es (l, s) = Some (l', s')" "\<not> enabled s0"
    and "if l then enabled s \<and> unload s = s0 else s = s0"
  shows "if l' then enabled s' \<and> unload s' = s0 else s' = s0"
  using assms(1,3)
proof (induction es arbitrary: l s)
  case (Cons e es)
  obtain k r where e: "e = (k, r)" by force
  show ?case
  proof (cases l)
    case True
    then show ?thesis using Cons.IH [of False s0] Cons.prems by (simp add: e)
  next
    case False
    then have "s = s0" using Cons.prems(2) by simp
    obtain x s1 where ld: "load k r s = Some (x, s1)" "module_run load unload es (x = 0, s1) = Some (l', s')"
      using Cons.prems(1) False by (auto simp: e split: option.splits)
    have "if x = 0 then enabled s1 \<and> unload s1 = s0 else s1 = s0"
      using ld(1) load_enables load_fails unload_load assms(2) \<open>s = s0\<close> by auto
    then show ?thesis using Cons.IH [OF ld(2)] by simp
  qed
qed simp

end

interpretation cycle: switch_module cycle_init cycle_exit "\<lambda>s. pkshin_cycle_enabled (kern (mod_gov s))"
  by unfold_locales (auto simp: cycle_init_def cycle_exit_def module_file_init_def module_file_exit_def upd_kern_def Let_def split: if_splits)

interpretation overhead: switch_module overhead_init overhead_exit "\<lambda>s. pkshin_overhead_enabled (mod_gov s)"
  by unfold_locales (auto simp: overhead_init_def overhead_exit_def module_file_init_def module_file_exit_def Let_def split: if_splits)

interpretation track: switch_module track_init track_exit "\<lambda>s. pkshin_track_enabled (mod_gov s)"
  by unfold_locales (auto simp: track_init_def track_exit_def module_file_init_def module_file_exit_def Let_def split: if_splits)

interpretation ms: switch_module "\<lambda>_ _ s. Some (ms_init s)" ms_exit "\<lambda>s. pkshin_freq_enabled (mod_gov s)"
  by unfold_locales (auto simp: ms_init_def ms_exit_def)

interpretation perf: switch_module "\<lambda>_ _ s. Some (perf_init s)" perf_exit "\<lambda>s. pkshin_perf_enabled (mod_gov s)"
  by unfold_locales (auto simp: perf_init_def perf_exit_def)

section \<open>Properties\<close>

definition follows_loader ::
  "(bool \<Rightarrow> int \<Rightarrow> mod_state \<Rightarrow> (int \<times> mod_state) option) \<Rightarrow> (mod_state \<Rightarrow> mod_state) \<Rightarrow> (mod_state \<Rightarrow> bool) \<Rightarrow>
    (bool \<times> int) list \<Rightarrow> mod_state \<Rightarrow> bool" where
  "follows_loader load unload enabled es s \<longleftrightarrow>
     (\<forall>l s'. module_run load unload es (False, s) = Some (l, s') \<longrightarrow> enabled s' = l \<and> (\<not> l \<longrightarrow> s' = s))"

lemma follows_by_run:
  assumes "\<And>l s'. module_run load unload es (False, s) = Some (l, s') \<Longrightarrow> if l then enabled s' \<and> unload s' = s else s' = s" "\<not> enabled s"
  shows "follows_loader load unload enabled es s"
  using assms by (fastforce simp: follows_loader_def split: if_splits)

text \<open>Through any history of loading, failing to load and unloading, each of the five switch modules is on
  exactly while it is loaded, and when it is not loaded the switch, the kernel objects and the files are
  as they were before the history.\<close>

theorem switches_follow_loader:
  assumes "\<not> pkshin_cycle_enabled (kern (mod_gov s))" "\<not> pkshin_overhead_enabled (mod_gov s)" "\<not> pkshin_track_enabled (mod_gov s)"
    "\<not> pkshin_freq_enabled (mod_gov s)" "\<not> pkshin_perf_enabled (mod_gov s)"
  shows "follows_loader cycle_init cycle_exit (\<lambda>s. pkshin_cycle_enabled (kern (mod_gov s))) es s
    \<and> follows_loader overhead_init overhead_exit (\<lambda>s. pkshin_overhead_enabled (mod_gov s)) es s
    \<and> follows_loader track_init track_exit (\<lambda>s. pkshin_track_enabled (mod_gov s)) es s
    \<and> follows_loader (\<lambda>_ _ s. Some (ms_init s)) ms_exit (\<lambda>s. pkshin_freq_enabled (mod_gov s)) es s
    \<and> follows_loader (\<lambda>_ _ s. Some (perf_init s)) perf_exit (\<lambda>s. pkshin_perf_enabled (mod_gov s)) es s"
  using cycle.run_switch [of es False s _ _ s] overhead.run_switch [of es False s _ _ s] track.run_switch [of es False s _ _ s]
    ms.run_switch [of es False s _ _ s] perf.run_switch [of es False s _ _ s] assms
  by (intro conjI follows_by_run) simp_all

theorem switches_follow_loader_witness:
  "follows_loader cycle_init cycle_exit (\<lambda>s. pkshin_cycle_enabled (kern (mod_gov s))) [(True, 0), (True, 0), (True, - 12)]
     \<lparr>mod_gov = demo_gov, kobjects = [], sysfs_files = []\<rparr>"
  using switches_follow_loader [of "\<lparr>mod_gov = demo_gov, kobjects = [], sysfs_files = []\<rparr>"]
  by (simp add: demo_gov_def zero_state_def)

text \<open>What one decision adds to the totals, in microseconds.\<close>

definition tracked_interval :: "gov_state \<Rightarrow> u64" where
  "tracked_interval s = drop_bit 10 (clock_task (rq_at (kern s) work_core) - exec_clear_time (kern s) ! work_core)"

definition tracked_busy :: "gov_state \<Rightarrow> u64" where
  "tracked_busy s = exec_time (kern s) ! work_core"

text \<open>Cycle tracking accounts for all of the time: a decision with a non-empty interval adds the busy time
  to the busy total and the rest of the interval to the idle total, so that together they grow by the
  interval (by the busy time where it exceeds the interval), weights both totals of cycles with the
  frequency scale, and starts the next interval; reading the totals resets them.\<close>

theorem cycle_accounting:
  assumes "pkshin_cycle_enabled (kern s)" "tracked_interval s \<noteq> 0"
    and "work_core < length (exec_time (kern s))" "work_core < length (exec_clear_time (kern s))"
  shows "\<exists>s'. track_cycles G s = Some s'
    \<and> total_busy_time_sum s' = total_busy_time_sum s + tracked_busy s
    \<and> total_idle_time_sum s' + total_busy_time_sum s'
        = total_idle_time_sum s + total_busy_time_sum s + max (tracked_interval s) (tracked_busy s)
    \<and> total_idle_cycle_sum s' + total_busy_cycle_sum s'
        = total_idle_cycle_sum s + total_busy_cycle_sum s
          + max (tracked_interval s) (tracked_busy s) * arch_scale_freq_capacity (kern_api G) work_core
    \<and> tracked_busy s' = 0 \<and> tracked_interval s' = 0
    \<and> (\<forall>m. mod_gov m = s' \<longrightarrow> total_busy_time_sum (mod_gov (snd (cycle_show m))) = 0
          \<and> total_idle_time_sum (mod_gov (snd (cycle_show m))) = 0)"
  using assms
  by (auto simp: track_cycles_def tracked_interval_def tracked_busy_def Let_def upd_kern_def cycle_show_def cycle_clear_def max_def
      not_less algebra_simps)

definition tracking_gov :: gov_state where
  "tracking_gov = demo_gov\<lparr>kern := zero_state\<lparr>pkshin_cycle_enabled := True, rq_at := (\<lambda>_. zero_rq\<lparr>clock_task := 4096000\<rparr>),
     exec_time := replicate 8 1500\<rparr>\<rparr>"

theorem cycle_accounting_witness:
  "\<exists>s'. track_cycles demo_gapi tracking_gov = Some s' \<and> total_idle_time_sum s' + total_busy_time_sum s' = 4000"
proof -
  have v: "tracked_interval tracking_gov = 4000" "tracked_busy tracking_gov = 1500"
    by (simp_all add: tracked_interval_def tracked_busy_def tracking_gov_def demo_gov_def zero_state_def zero_rq_def work_core_def)
  have e: "pkshin_cycle_enabled (kern tracking_gov)" "work_core < length (exec_time (kern tracking_gov))"
    "work_core < length (exec_clear_time (kern tracking_gov))" "total_idle_time_sum tracking_gov = 0" "total_busy_time_sum tracking_gov = 0"
    by (simp_all add: tracking_gov_def demo_gov_def zero_state_def work_core_def)
  show ?thesis using cycle_accounting [OF e(1) _ e(2,3), of demo_gapi] by (auto simp: v e(4,5) max_def)
qed

end
