(* ===== verification/Load_Weight.thy ===== *)
theory Load_Weight
  imports Pelt_State
begin

text \<open>
  Load weights and their cached inverses, scaled time deltas, scheduling periods and slices, and the
  scaling of the tunables: \<open>kernel/sched/fair.c\<close> lines 290--415 and 786--873.
\<close>

section \<open>Weights\<close>

definition update_load_add :: "ulong \<Rightarrow> load_weight \<Rightarrow> load_weight" where
  "update_load_add inc lw = lw\<lparr>weight := weight lw + inc, inv_weight := 0\<rparr>"

definition update_load_sub :: "ulong \<Rightarrow> load_weight \<Rightarrow> load_weight" where
  "update_load_sub dec lw = lw\<lparr>weight := weight lw - dec, inv_weight := 0\<rparr>"

definition update_load_set :: "ulong \<Rightarrow> load_weight \<Rightarrow> load_weight" where
  "update_load_set w lw = lw\<lparr>weight := w, inv_weight := 0\<rparr>"

abbreviation (input) WMULT_CONST :: "'a::numeral" where "WMULT_CONST \<equiv> 4294967295"

definition update_inv_weight :: "load_weight \<Rightarrow> load_weight" where
  "update_inv_weight lw =
     (if inv_weight lw \<noteq> 0 then lw
      else let w = scale_load_down (weight lw) in
        if w \<ge> WMULT_CONST then lw\<lparr>inv_weight := 1\<rparr>
        else if w = 0 then lw\<lparr>inv_weight := WMULT_CONST\<rparr>
        else lw\<lparr>inv_weight := ucast (WMULT_CONST div w)\<rparr>)"

text \<open>\<open>while (fact >> 32) { fact >>= 1; shift--; }\<close>.\<close>

function fit32 :: "u64 \<Rightarrow> int \<Rightarrow> u64 \<times> int" where
  "fit32 f shift = (if drop_bit 32 f \<noteq> 0 then fit32 (drop_bit 1 f) (shift - 1) else (f, shift))"
  by pat_completeness auto
termination
proof (relation "measure (\<lambda>(f, s). unat f)")
  fix f :: u64 and shift :: int
  assume "drop_bit 32 f \<noteq> 0"
  then have "f \<noteq> 0" by auto
  then have "0 < unat f" by (simp add: unat_gt_0)
  then show "((drop_bit 1 f, shift - 1), f, shift) \<in> measure (\<lambda>(f, s). unat f)"
    by (simp add: unat_drop_bit_div)
qed simp

declare fit32.simps [simp del]

text \<open>
  A negative shift would reach \<open>mul_u64_u32_shr\<close> as a huge unsigned number, a shift that is undefined.
  The cached inverse of the divisor is updated on the way.
\<close>

definition calc_delta :: "mulfn \<Rightarrow> u64 \<Rightarrow> ulong \<Rightarrow> load_weight \<Rightarrow> (u64 \<times> load_weight) option" where
  "calc_delta m delta_exec w lw =
     (let f = scale_load_down w;
          lw = update_inv_weight lw;
          (f, shift) = fit32 f 32;
          f = ucast (ucast f :: u32) * ucast (inv_weight lw);
          (f, shift) = fit32 f shift
      in if shift < 0 then None else Some (m delta_exec (ucast f) (nat shift), lw))"

definition calc_delta_fair :: "mulfn \<Rightarrow> u64 \<Rightarrow> load_weight \<Rightarrow> (u64 \<times> load_weight) option" where
  "calc_delta_fair m delta lw =
     (if weight lw \<noteq> NICE_0_LOAD then calc_delta m delta NICE_0_LOAD lw else Some (delta, lw))"

section \<open>Periods and slices\<close>

definition sched_period :: "sched_sysctl \<Rightarrow> ulong \<Rightarrow> u64" where
  "sched_period y nr =
     (if nr > ucast (sched_nr_latency y) then nr * ucast (sysctl_sched_min_granularity y)
      else ucast (sysctl_sched_latency y))"

text \<open>\<open>for_each_sched_entity\<close>, with as much fuel as the hierarchy is deep.\<close>

fun slice_up :: "nat \<Rightarrow> kapi \<Rightarrow> se_id option \<Rightarrow> u64 \<Rightarrow> kstate \<Rightarrow> (u64 \<times> kstate) option" where
  "slice_up _ K None slc s = Some (slc, s)"
| "slice_up 0 K (Some i) slc s = None"
| "slice_up (Suc n) K (Some i) slc s =
     (let se = se_at s i; c = se_cfs_rq se; w = weight (se_load se) in do {
        (slc, s) \<leftarrow>
          (if on_rq se = 0
           then do {
             (v, lw) \<leftarrow> calc_delta (mul_u64_u32_shr K) slc w (update_load_add w (cfs_load (cfs_at s c)));
             Some (v, s)
           }
           else do {
             (v, lw) \<leftarrow> calc_delta (mul_u64_u32_shr K) slc w (cfs_load (cfs_at s c));
             Some (v, upd_cfs c (\<lambda>q. q\<lparr>cfs_load := lw\<rparr>) s)
           });
        slice_up n K (parent se) slc s
      })"

definition sched_slice :: "nat \<Rightarrow> kapi \<Rightarrow> cfs_id \<Rightarrow> se_id \<Rightarrow> kstate \<Rightarrow> (u64 \<times> kstate) option" where
  "sched_slice n K c i s =
     slice_up n K (Some i)
       (sched_period (sysctls s) (ucast (nr_running (cfs_at s c) + (if on_rq (se_at s i) = 0 then 1 else 0)))) s"

definition sched_vslice :: "nat \<Rightarrow> kapi \<Rightarrow> cfs_id \<Rightarrow> se_id \<Rightarrow> kstate \<Rightarrow> (u64 \<times> kstate) option" where
  "sched_vslice n K c i s = do {
     (slc, s) \<leftarrow> sched_slice n K c i s;
     (v, lw) \<leftarrow> calc_delta_fair (mul_u64_u32_shr K) slc (se_load (se_at s i));
     Some (v, upd_se i (\<lambda>se. se\<lparr>se_load := lw\<rparr>) s)
   }"

section \<open>Tunables\<close>

text \<open>\<open>ilog2\<close> of the kernel: the position of the highest bit.\<close>

fun ilog2 :: "nat \<Rightarrow> nat" where
  "ilog2 n = (if n < 2 then 0 else Suc (ilog2 (n div 2)))"

declare ilog2.simps [simp del]

definition get_update_sysctl_factor :: "u32 \<Rightarrow> sched_sysctl \<Rightarrow> u32" where
  "get_update_sysctl_factor online y =
     (let cpus = min online 8 in
      case sysctl_sched_tunable_scaling y of
        SCHED_TUNABLESCALING_NONE \<Rightarrow> 1
      | SCHED_TUNABLESCALING_LINEAR \<Rightarrow> cpus
      | SCHED_TUNABLESCALING_LOG \<Rightarrow> 1 + word_of_nat (ilog2 (unat cpus)))"

definition update_sysctl :: "u32 \<Rightarrow> sched_sysctl \<Rightarrow> sched_sysctl" where
  "update_sysctl online y =
     (let factor = get_update_sysctl_factor online y in
      y\<lparr>sysctl_sched_min_granularity := factor * normalized_sysctl_sched_min_granularity y,
        sysctl_sched_latency := factor * normalized_sysctl_sched_latency y,
        sysctl_sched_wakeup_granularity := factor * normalized_sysctl_sched_wakeup_granularity y\<rparr>)"

definition sched_init_granularity :: "u32 \<Rightarrow> kstate \<Rightarrow> kstate" where
  "sched_init_granularity online s = s\<lparr>sysctls := update_sysctl online (sysctls s)\<rparr>"

text \<open>\<open>y\<close> is what \<open>proc_dointvec_minmax\<close> left, \<open>ret\<close> its result; dividing by zero is undefined.\<close>

definition sched_proc_update_handler :: "u32 \<Rightarrow> int \<Rightarrow> bool \<Rightarrow> sched_sysctl \<Rightarrow> (int \<times> sched_sysctl) option" where
  "sched_proc_update_handler online ret write y =
     (let factor = get_update_sysctl_factor online y in
      if ret \<noteq> 0 \<or> \<not> write then Some (ret, y)
      else let lat = sysctl_sched_latency y; gran = sysctl_sched_min_granularity y in
        if gran = 0 \<or> factor = 0 then None
        else Some (0, y\<lparr>sched_nr_latency := (lat + gran - 1) div gran,
               normalized_sysctl_sched_min_granularity := gran div factor,
               normalized_sysctl_sched_latency := lat div factor,
               normalized_sysctl_sched_wakeup_granularity := sysctl_sched_wakeup_granularity y div factor\<rparr>))"

section \<open>The cached inverse\<close>

definition inv_of :: "ulong \<Rightarrow> u32" where
  "inv_of w = (let w = scale_load_down w in
     if w \<ge> WMULT_CONST then 1 else if w = 0 then WMULT_CONST else ucast (WMULT_CONST div w))"

text \<open>The cache is empty or right.\<close>

definition inv_ok :: "load_weight \<Rightarrow> bool" where
  "inv_ok lw \<longleftrightarrow> inv_weight lw = 0 \<or> inv_weight lw = inv_of (weight lw)"

lemma inv_ok_updates [simp]:
  "inv_ok (update_load_add x lw)" "inv_ok (update_load_sub x lw)" "inv_ok (update_load_set x lw)"
  by (simp_all add: inv_ok_def update_load_add_def update_load_sub_def update_load_set_def)

lemma update_inv_weight_ok:
  assumes "inv_ok lw"
  shows "inv_weight (update_inv_weight lw) = inv_of (weight lw)" "weight (update_inv_weight lw) = weight lw"
    "inv_ok (update_inv_weight lw)"
  using assms by (auto simp: inv_ok_def update_inv_weight_def inv_of_def Let_def)

lemma calc_delta_weight:
  assumes "calc_delta m d w lw = Some (v, lw')" "inv_ok lw"
  shows "inv_ok lw'" "weight lw' = weight lw"
  using assms update_inv_weight_ok [OF assms(2)] by (auto simp: calc_delta_def Let_def case_prod_beta split: if_splits)

section \<open>The scaled delta\<close>

text \<open>Halving until the value fits keeps the value up to the bits shifted out.\<close>

lemma drop_32_zero: "drop_bit 32 (f :: u64) = 0 \<longleftrightarrow> unat f < 4294967296"
proof -
  have "drop_bit 32 f = 0 \<longleftrightarrow> unat (drop_bit 32 f) = 0" by (simp add: unsigned_eq_0_iff)
  also have "\<dots> \<longleftrightarrow> unat f < 4294967296" by (simp add: unat_drop_bit_div div_eq_0_iff)
  finally show ?thesis .
qed

lemma fit32_spec:
  "\<exists>k. fit32 f s = (drop_bit k f, s - int k) \<and> unat (drop_bit k f) < 4294967296 \<and> (\<forall>j. unat f < 2 ^ (32 + j) \<longrightarrow> k \<le> j)"
proof (induction f s rule: fit32.induct)
  case (1 f s)
  show ?case
  proof (cases "drop_bit 32 f = 0")
    case True
    then show ?thesis by (intro exI [of _ 0]) (simp add: fit32.simps drop_32_zero)
  next
    case False
    obtain k where k: "fit32 (drop_bit 1 f) (s - 1) = (drop_bit k (drop_bit 1 f), s - 1 - int k)"
      "unat (drop_bit k (drop_bit 1 f)) < 4294967296" and b: "\<And>j. unat (drop_bit 1 f) < 2 ^ (32 + j) \<Longrightarrow> k \<le> j"
      using 1 [OF False] by blast
    have big: "4294967296 \<le> unat f" using False by (simp add: drop_32_zero)
    have "Suc k \<le> j" if "unat f < 2 ^ (32 + j)" for j
    proof (cases j)
      case 0
      then show ?thesis using that big by simp
    next
      case (Suc i)
      then have "(2::nat) ^ (32 + j) = 2 ^ (32 + i) * 2" by (metis add_Suc_right power_Suc2)
      then have "unat f < 2 ^ (32 + i) * 2" using that by metis
      then have "unat (drop_bit 1 f) < 2 ^ (32 + i)" by (simp add: unat_drop_bit_div less_mult_imp_div_less)
      then show ?thesis using b Suc by simp
    qed
    then show ?thesis
      using k False by (intro exI [of _ "Suc k"]) (simp add: fit32.simps [of f s])
  qed
qed

text \<open>The result is at most \<open>delta * w / W\<close> for scaled weights \<open>w\<close> and \<open>W\<close>, and the shift stays valid.\<close>

lemma inv_of_bound:
  assumes "0 < unat (scale_load_down W)"
  shows "unat (inv_of W) * unat (scale_load_down W) \<le> 4294967295 \<or> 4294967295 \<le> unat (scale_load_down W) \<and> inv_of W = 1"
proof (cases "scale_load_down W \<ge> 4294967295")
  case True
  then show ?thesis by (simp add: inv_of_def word_le_nat_alt)
next
  case False
  let ?w = "unat (scale_load_down W)"
  have nz: "scale_load_down W \<noteq> 0" using assms by auto
  have "4294967295 div ?w < 4294967296" by (rule le_less_trans [OF div_le_dividend]) simp
  then have "unat (inv_of W) = 4294967295 div ?w"
    using False nz by (simp add: inv_of_def unat_ucast_down unat_div)
  then show ?thesis by (simp add: div_times_less_eq_dividend)
qed


lemma scale_chain:
  assumes "(b::nat) * x \<le> q * i" "q * y \<le> w"
  shows "b * x * y \<le> w * i"
proof -
  have "b * x * y \<le> q * i * y" by (rule mult_le_mono1 [OF assms(1)])
  also have "\<dots> = q * y * i" by (simp add: mult.assoc mult.commute)
  also have "\<dots> \<le> w * i" by (rule mult_le_mono1 [OF assms(2)])
  finally show ?thesis .
qed

lemma scale_bound:
  assumes "(b::nat) \<le> w * i" "i * W \<le> c"
  shows "b * W \<le> w * c"
proof -
  have "b * W \<le> w * i * W" by (rule mult_le_mono1 [OF assms(1)])
  also have "\<dots> = w * (i * W)" by (rule mult.assoc)
  also have "\<dots> \<le> w * c" by (rule mult_le_mono2 [OF assms(2)])
  finally show ?thesis .
qed

lemma calc_delta_bound:
  assumes m: "mul_shr_ok m" and lw: "inv_ok lw"
    and W: "0 < unat (scale_load_down (weight lw))" "unat (scale_load_down (weight lw)) < 4294967295"
    and w: "unat (scale_load_down w) < 4294967296 \<or> w \<le> weight lw"
    and fits: "unat d * unat (scale_load_down w) < 18446744073709551616 * unat (scale_load_down (weight lw))"
  shows "\<exists>v lw'. calc_delta m d w lw = Some (v, lw') \<and> inv_ok lw' \<and> weight lw' = weight lw
    \<and> unat v * unat (scale_load_down (weight lw)) \<le> unat d * unat (scale_load_down w)"
proof -
  let ?W = "unat (scale_load_down (weight lw))" and ?w = "unat (scale_load_down w)" and ?i = "inv_of (weight lw)"
  have iW: "unat ?i * ?W \<le> 4294967295" using inv_of_bound [OF W(1)] W(2) by auto
  obtain k1 where f1: "fit32 (scale_load_down w) 32 = (drop_bit k1 (scale_load_down w), 32 - int k1)"
    "unat (drop_bit k1 (scale_load_down w)) < 4294967296" "\<And>j. ?w < 2 ^ (32 + j) \<Longrightarrow> k1 \<le> j"
    using fit32_spec [of "scale_load_down w" 32] by blast
  define p where "p = (ucast (ucast (drop_bit k1 (scale_load_down w)) :: u32) :: u64) * ucast ?i"
  have p: "unat p = ?w div 2 ^ k1 * unat ?i"
  proof -
    have "?w div 2 ^ k1 * unat ?i < 4294967296 * 4294967296"
      using f1(2) unfolding unat_drop_bit_div by (intro mult_strict_mono) simp_all
    then show ?thesis
      unfolding p_def using f1(2) by (subst unat_times_u64) (simp_all add: unat_ucast_down unat_drop_bit_div)
  qed
  obtain k2 where f2: "fit32 p (32 - int k1) = (drop_bit k2 p, 32 - int k1 - int k2)"
    "unat (drop_bit k2 p) < 4294967296" "\<And>j. unat p < 2 ^ (32 + j) \<Longrightarrow> k2 \<le> j"
    using fit32_spec [of p "32 - int k1"] by blast
  have w54: "?w < 2 ^ (32 + 22)"
    unfolding scale_load_down_def unat_drop_bit_div using unat_lt_u64 [of w] by (simp add: less_mult_imp_div_less del: unat_lt_u64)
  have k: "k1 + k2 \<le> 32"
  proof (cases "?w < 4294967296")
    case True
    then have "k1 = 0" using f1(3) [of 0] by simp
    moreover have "k2 \<le> 32" using f2(3) [of 32] by simp
    ultimately show ?thesis by simp
  next
    case False
    then have "w \<le> weight lw" using w by simp
    then have le: "?w \<le> ?W"
      unfolding scale_load_down_def unat_drop_bit_div by (intro div_le_mono) (simp add: word_le_nat_alt)
    have "unat p \<le> ?W * unat ?i"
      unfolding p using le by (intro mult_le_mono1) (meson div_le_dividend le_trans)
    then have "unat p < 2 ^ (32 + 0)" using iW by (simp add: mult.commute)
    then have "k2 = 0" using f2(3) by blast
    moreover have "k1 \<le> 22" using f1(3) [OF w54] .
    ultimately show ?thesis by simp
  qed
  have eq: "calc_delta m d w lw = Some (m d (ucast (drop_bit k2 p)) (32 - k1 - k2), update_inv_weight lw)"
  proof -
    have n: "nat (32 - int k1 - int k2) = 32 - k1 - k2" using k by simp
    show ?thesis
      using k f2(1) unfolding calc_delta_def Let_def f1(1) case_prod_conv update_inv_weight_ok(1) [OF lw]
      by (simp add: p_def [symmetric] n)
  qed
  define b where "b = unat (drop_bit k2 p)"
  have b: "unat (ucast (drop_bit k2 p) :: u32) = b" using f2(2) by (simp add: b_def unat_ucast_down)
  have bW: "b * 2 ^ (k1 + k2) * ?W \<le> ?w * 4294967296"
  proof -
    have "b * 2 ^ k2 \<le> ?w div 2 ^ k1 * unat ?i"
      unfolding b_def unat_drop_bit_div p by (simp add: div_times_less_eq_dividend)
    then have "b * 2 ^ k2 * 2 ^ k1 \<le> ?w * unat ?i" by (rule scale_chain) (rule div_times_less_eq_dividend)
    then have "b * 2 ^ k2 * 2 ^ k1 * ?W \<le> ?w * 4294967296" by (rule scale_bound) (use iW in simp)
    then show ?thesis by (simp only: power_add mult.assoc mult.commute [of "2 ^ k1" "2 ^ k2"])
  qed
  define sh where "sh = 32 - k1 - k2"
  have pw: "(4294967296::nat) = 2 ^ sh * 2 ^ (k1 + k2)"
    using k by (simp add: sh_def power_add [symmetric])
  have "b * ?W * 2 ^ (k1 + k2) \<le> ?w * 2 ^ sh * 2 ^ (k1 + k2)"
    using bW unfolding pw by (simp add: mult.assoc mult.left_commute mult.commute)
  then have bw: "b * ?W \<le> ?w * 2 ^ sh" by simp
  define v where "v = unat d * b div 2 ^ sh"
  have "v * 2 ^ sh \<le> unat d * b" unfolding v_def by (rule div_times_less_eq_dividend)
  then have "v * 2 ^ sh * ?W \<le> unat d * (b * ?W)"
    using mult_le_mono1 [of "v * 2 ^ sh" "unat d * b" ?W] by (simp add: mult.assoc)
  also have "\<dots> \<le> unat d * (?w * 2 ^ sh)" using bw by simp
  finally have "v * ?W * 2 ^ sh \<le> unat d * ?w * 2 ^ sh" by (simp add: mult.assoc mult.left_commute mult.commute)
  then have vW: "v * ?W \<le> unat d * ?w" by simp
  then have "v * ?W < 18446744073709551616 * ?W" using fits by linarith
  then have "v < 18446744073709551616" by simp
  then have "unat (m d (ucast (drop_bit k2 p)) sh) = v"
    using mul_shr_okD [OF m, of sh] by (simp add: mul_shr_ref_def b v_def sh_def of_nat_eq_unat)
  then show ?thesis
    using vW update_inv_weight_ok(2,3) [OF lw] eq by (simp add: sh_def)
qed


section \<open>Properties\<close>

text \<open>C30: A scaled delta never overcharges. For a runqueue of scaled weight \<open>W\<close> below \<open>2 ^ 32 - 1\<close> and an entity whose
  scaled weight \<open>w\<close> fits 32 bits or is part of \<open>W\<close>, \<open>__calc_delta\<close> shifts by a valid amount and returns at
  most \<open>delta * w / W\<close>, and the cached inverse it leaves is that of the unchanged weight.\<close>

theorem calc_delta_never_overcharges:
  assumes "mul_shr_ok m" "inv_ok lw"
    and "0 < unat (scale_load_down (weight lw))" "unat (scale_load_down (weight lw)) < 4294967295"
    and "unat (scale_load_down w) < 4294967296 \<or> w \<le> weight lw"
    and "unat d * unat (scale_load_down w) < 18446744073709551616 * unat (scale_load_down (weight lw))"
  shows "\<exists>v lw'. calc_delta m d w lw = Some (v, lw') \<and> inv_ok lw' \<and> weight lw' = weight lw
    \<and> unat v * unat (scale_load_down (weight lw)) \<le> unat d * unat (scale_load_down w)"
  by (rule calc_delta_bound [OF assms])

theorem calc_delta_never_overcharges_witness:
  "\<exists>v lw'. calc_delta mul_shr_ref 6000000 1048576 \<lparr>weight = 3145728, inv_weight = 0\<rparr> = Some (v, lw')
     \<and> unat v * 3072 \<le> 6000000 * 1024"
  using calc_delta_never_overcharges [of mul_shr_ref "\<lparr>weight = 3145728, inv_weight = 0\<rparr>" 1048576 6000000]
  by (auto simp: inv_ok_def scale_load_down_def)

text \<open>The slices of a runqueue's entities.\<close>

definition slice_of :: "mulfn \<Rightarrow> u64 \<Rightarrow> load_weight \<Rightarrow> ulong \<Rightarrow> nat" where
  "slice_of m p lw w = unat (fst (the (calc_delta m p w lw)))"

lemma slice_of_bound:
  assumes "mul_shr_ok m" "inv_ok lw"
    and W: "0 < unat (scale_load_down (weight lw))" "unat (scale_load_down (weight lw)) < 4294967295" and w: "w \<le> weight lw"
  shows "slice_of m p lw w * unat (scale_load_down (weight lw)) \<le> unat p * unat (scale_load_down w)"
proof -
  have "unat (scale_load_down w) \<le> unat (scale_load_down (weight lw))"
    unfolding scale_load_down_def unat_drop_bit_div using w by (intro div_le_mono) (simp add: word_le_nat_alt)
  then have "unat p * unat (scale_load_down w) \<le> unat p * unat (scale_load_down (weight lw))" by (rule mult_le_mono2)
  also have "\<dots> < 18446744073709551616 * unat (scale_load_down (weight lw))"
    using W(1) by (intro mult_strict_right_mono) simp_all
  finally show ?thesis
    using calc_delta_bound [OF assms(1,2) W disjI2 [OF w], of p] by (auto simp: slice_of_def)
qed

text \<open>The slices fit the period. If the scaled weights of the queued entities add up to at most the scaled
  weight of their runqueue, the slices computed for them add up to at most the period.\<close>

theorem slices_fit_period:
  assumes "mul_shr_ok m" "inv_ok lw" "0 < unat (scale_load_down (weight lw))" "unat (scale_load_down (weight lw)) < 4294967295"
    and "list_all (\<lambda>w. w \<le> weight lw) ws"
    and "sum_list (map (\<lambda>w. unat (scale_load_down w)) ws) \<le> unat (scale_load_down (weight lw))"
  shows "sum_list (map (slice_of m p lw) ws) \<le> unat p"
proof -
  let ?W = "unat (scale_load_down (weight lw))"
  have "sum_list (map (slice_of m p lw) ws) * ?W \<le> unat p * sum_list (map (\<lambda>w. unat (scale_load_down w)) ws)"
    using assms(5)
  proof (induction ws)
    case (Cons w ws)
    then show ?case
      using slice_of_bound [OF assms(1-4), of w p] by (simp add: add_mult_distrib add_mult_distrib2 add_mono)
  qed simp
  also have "\<dots> \<le> unat p * ?W" using assms(6) by (rule mult_le_mono2)
  finally show ?thesis using assms(3) by simp
qed

theorem slices_fit_period_witness:
  "sum_list (map (slice_of mul_shr_ref 6000000 \<lparr>weight = 3145728, inv_weight = 0\<rparr>) [1048576, 2097152]) \<le> 6000000"
  using slices_fit_period [of mul_shr_ref "\<lparr>weight = 3145728, inv_weight = 0\<rparr>" "[1048576, 2097152]" 6000000]
  by (simp add: inv_ok_def scale_load_down_def)

end
