(* ===== verification/Load_Tracking.thy ===== *)
theory Load_Tracking
  imports Pelt_State "HOL-Library.Signed_Division"
begin

text \<open>
  How the signals of entities and runqueues follow each other, \<open>kernel/sched/fair.c\<close> lines 3436--4168 and
  the attachment of entities (11195--11248): attaching and detaching,
  removing without the lock, the propagation through group entities, and the load of a task group.

  A runqueue's signals other than the load come in pairs of an average and a 32-bit sum; \<open>signal\<close> names
  the pairs, in the order the code lists them, so that the blocks the code repeats for each of them are
  one definition folded over the list.
\<close>

section \<open>Clamped arithmetic\<close>

definition add_positive :: "ulong \<Rightarrow> s64 \<Rightarrow> ulong" where
  "add_positive var val = (let res = var + val in if sint val < 0 \<and> res > var then 0 else res)"

definition sub_positive :: "'a::len word \<Rightarrow> 'a word \<Rightarrow> 'a word" where
  "sub_positive var val = (let res = var - val in if res > var then 0 else res)"

text \<open>\<open>max_t(long, x, 0)\<close>.\<close>

definition max0 :: "s64 \<Rightarrow> u64" where
  "max0 x = (if sint x > 0 then x else 0)"

text \<open>Signed \<open>long\<close> division truncates towards zero; it overflows for \<open>LONG_MIN / -1\<close> only.\<close>

definition s64_div :: "s64 \<Rightarrow> s64 \<Rightarrow> s64 option" where
  "s64_div a b = (if b = 0 \<or> sint a = - 9223372036854775808 \<and> sint b = - 1 then None
     else Some (word_of_int (sint a sdiv sint b)))"

section \<open>Signals\<close>

datatype signal = Util | UtilFast | CoreUtil | MemoryUtil | CoreUtilFast | MemoryUtilFast | Scaling | ScalingFast

fun sig_avg :: "signal \<Rightarrow> sched_avg \<Rightarrow> ulong" where
  "sig_avg Util = util_avg"
| "sig_avg UtilFast = util_fast_avg"
| "sig_avg CoreUtil = core_util_avg"
| "sig_avg MemoryUtil = memory_util_avg"
| "sig_avg CoreUtilFast = core_util_fast_avg"
| "sig_avg MemoryUtilFast = memory_util_fast_avg"
| "sig_avg Scaling = scaling_avg"
| "sig_avg ScalingFast = scaling_fast_avg"

fun sig_sum :: "signal \<Rightarrow> sched_avg \<Rightarrow> u32" where
  "sig_sum Util = util_sum"
| "sig_sum UtilFast = util_fast_sum"
| "sig_sum CoreUtil = core_util_sum"
| "sig_sum MemoryUtil = memory_util_sum"
| "sig_sum CoreUtilFast = core_util_fast_sum"
| "sig_sum MemoryUtilFast = memory_util_fast_sum"
| "sig_sum Scaling = scaling_sum"
| "sig_sum ScalingFast = scaling_fast_sum"

fun set_sig :: "signal \<Rightarrow> ulong \<Rightarrow> u32 \<Rightarrow> sched_avg \<Rightarrow> sched_avg" where
  "set_sig Util a b sa = sa\<lparr>util_avg := a, util_sum := b\<rparr>"
| "set_sig UtilFast a b sa = sa\<lparr>util_fast_avg := a, util_fast_sum := b\<rparr>"
| "set_sig CoreUtil a b sa = sa\<lparr>core_util_avg := a, core_util_sum := b\<rparr>"
| "set_sig MemoryUtil a b sa = sa\<lparr>memory_util_avg := a, memory_util_sum := b\<rparr>"
| "set_sig CoreUtilFast a b sa = sa\<lparr>core_util_fast_avg := a, core_util_fast_sum := b\<rparr>"
| "set_sig MemoryUtilFast a b sa = sa\<lparr>memory_util_fast_avg := a, memory_util_fast_sum := b\<rparr>"
| "set_sig Scaling a b sa = sa\<lparr>scaling_avg := a, scaling_sum := b\<rparr>"
| "set_sig ScalingFast a b sa = sa\<lparr>scaling_fast_avg := a, scaling_fast_sum := b\<rparr>"

fun sig_max :: "signal \<Rightarrow> u64" where
  "sig_max Util = LOAD_AVG_MAX"
| "sig_max UtilFast = LOAD_AVG_FAST_MAX"
| "sig_max CoreUtil = LOAD_AVG_MAX"
| "sig_max MemoryUtil = LOAD_AVG_MAX"
| "sig_max CoreUtilFast = LOAD_AVG_FAST_MAX"
| "sig_max MemoryUtilFast = LOAD_AVG_FAST_MAX"
| "sig_max Scaling = LOAD_AVG_MAX"
| "sig_max ScalingFast = LOAD_AVG_FAST_MAX"

definition util_signals :: "signal list" where
  "util_signals = [Util, UtilFast]"

definition pemt_signals :: "kstate \<Rightarrow> signal list" where
  "pemt_signals s = (if pkshin_pemt_enabled s then [CoreUtil, MemoryUtil, CoreUtilFast, MemoryUtilFast] else [])"

definition scaling_signals :: "signal list" where
  "scaling_signals = [Scaling, ScalingFast]"

text \<open>What was removed from a runqueue without its lock and is still to be subtracted.\<close>

fun removed_of :: "signal \<Rightarrow> cfs_rq \<Rightarrow> ulong" where
  "removed_of Util = removed_util_avg"
| "removed_of UtilFast = removed_util_fast_avg"
| "removed_of CoreUtil = removed_core_util_avg"
| "removed_of MemoryUtil = removed_memory_util_avg"
| "removed_of CoreUtilFast = removed_core_util_fast_avg"
| "removed_of MemoryUtilFast = removed_memory_util_fast_avg"
| "removed_of Scaling = removed_scaling_avg"
| "removed_of ScalingFast = removed_scaling_fast_avg"

fun set_removed :: "signal \<Rightarrow> ulong \<Rightarrow> cfs_rq \<Rightarrow> cfs_rq" where
  "set_removed Util v q = q\<lparr>removed_util_avg := v\<rparr>"
| "set_removed UtilFast v q = q\<lparr>removed_util_fast_avg := v\<rparr>"
| "set_removed CoreUtil v q = q\<lparr>removed_core_util_avg := v\<rparr>"
| "set_removed MemoryUtil v q = q\<lparr>removed_memory_util_avg := v\<rparr>"
| "set_removed CoreUtilFast v q = q\<lparr>removed_core_util_fast_avg := v\<rparr>"
| "set_removed MemoryUtilFast v q = q\<lparr>removed_memory_util_fast_avg := v\<rparr>"
| "set_removed Scaling v q = q\<lparr>removed_scaling_avg := v\<rparr>"
| "set_removed ScalingFast v q = q\<lparr>removed_scaling_fast_avg := v\<rparr>"

section \<open>Clocks and frequency updates\<close>

definition cfs_rq_clock_task :: "cfs_id \<Rightarrow> kstate \<Rightarrow> u64" where
  "cfs_rq_clock_task c s =
     (let q = cfs_at s c in
      if throttle_count q \<noteq> 0 then throttled_clock_task q - throttled_clock_task_time q
      else clock_task (rq_at s (rq_cpu q)) - throttled_clock_task_time q)"

text \<open>\<open>cpufreq_update_util\<close> calls the governor's hook of the cpu; the model records the call.\<close>

definition cpufreq_update_util :: "cpu \<Rightarrow> u32 \<Rightarrow> kstate \<Rightarrow> kstate" where
  "cpufreq_update_util cpu flags s = s\<lparr>util_updates := util_updates s @ [(cpu, clock (rq_at s cpu), flags)]\<rparr>"

definition cfs_rq_util_change :: "cfs_id \<Rightarrow> kstate \<Rightarrow> kstate" where
  "cfs_rq_util_change c s =
     (if rq_cfs (rq_at s (rq_cpu (cfs_at s c))) = c then cpufreq_update_util (rq_cpu (cfs_at s c)) 0 s else s)"

section \<open>The load of a task group\<close>

definition root_task_group :: tg_id where
  "root_task_group = 0"

definition long_abs :: "s64 \<Rightarrow> u64" where
  "long_abs x = (if sint x < 0 then - x else x)"

definition update_tg_load_avg :: "cfs_id \<Rightarrow> bool \<Rightarrow> kstate \<Rightarrow> kstate" where
  "update_tg_load_avg c force s =
     (let q = cfs_at s c; delta = load_avg (cfs_avg q) - tg_load_avg_contrib q in
      if cfs_tg q = root_task_group then s
      else if force \<or> long_abs delta > tg_load_avg_contrib q div 64
      then let s = upd_tg (cfs_tg q) (\<lambda>t. t\<lparr>tg_load_avg := tg_load_avg t + delta\<rparr>) s
           in upd_cfs c (\<lambda>q. q\<lparr>tg_load_avg_contrib := load_avg (cfs_avg q)\<rparr>) s
      else s)"

section \<open>Migration of the clock\<close>

definition set_task_rq_fair :: "kapi \<Rightarrow> se_id \<Rightarrow> cfs_id option \<Rightarrow> cfs_id \<Rightarrow> kstate \<Rightarrow> kstate option" where
  "set_task_rq_fair K i prev nxt s =
     (if \<not> sched_feat K ATTACH_AGE_LOAD then Some s
      else if last_update_time (se_avg (se_at s i)) = 0 then Some s
      else case prev of None \<Rightarrow> Some s
        | Some p \<Rightarrow>
          let p_last = last_update_time (cfs_avg (cfs_at s p)); n_last = last_update_time (cfs_avg (cfs_at s nxt))
          in do {
            (d, s) \<leftarrow> raw_update_load_avg K p_last (rq_cpu (cfs_at s p)) (SeAvg i) 0 False s;
            Some (upd_avg (SeAvg i) (\<lambda>sa. sa\<lparr>last_update_time := n_last\<rparr>) s)
          })"

text \<open>
  The decayed copy of a task's signals. The copy lies in no entity: with cycle tracking on, the update
  would read the entity around it, which is undefined.
\<close>

definition task_decayed_load :: "kapi \<Rightarrow> se_id \<Rightarrow> bool \<Rightarrow> cpu \<Rightarrow> kstate \<Rightarrow> sched_avg option" where
  "task_decayed_load K i p_on_rq cpu s =
     (let avg = se_avg (se_at s i) in
      if p_on_rq then Some avg
      else let now = clock_task (rq_at s cpu); delta = now - last_update_time avg in
        if sint delta < 0 then Some (avg\<lparr>last_update_time := now\<rparr>)
        else if drop_bit 10 delta = 0 then Some avg
        else if pkshin_cycle_enabled s then None
        else let avg = avg\<lparr>last_update_time := now\<rparr>;
                 C = update_ctx K cpu 0 False (pkshin_pemt_enabled s) 0 avg
             in Some (fst (snd (accumulate (mul_u64_u32_shr K) C (drop_bit 10 delta) (avg, None)))))"

section \<open>Propagation through a group entity\<close>

text \<open>One block of \<open>update_tg_cfs_util\<close>: the group entity takes over its runqueue's signal and the parent
  runqueue the difference.\<close>

definition propagate_signal :: "cfs_id \<Rightarrow> se_id \<Rightarrow> cfs_id \<Rightarrow> signal \<Rightarrow> kstate \<Rightarrow> kstate" where
  "propagate_signal c i g x s =
     (let new = sig_avg x (cfs_avg (cfs_at s g)); delta = new - sig_avg x (se_avg (se_at s i)) in
      if delta = 0 then s
      else let s = upd_avg (SeAvg i) (set_sig x new (ucast (new * sig_max x))) s;
               v = add_positive (sig_avg x (cfs_avg (cfs_at s c))) delta
           in upd_avg (CfsAvg c) (set_sig x v (ucast (v * sig_max x))) s)"

definition update_tg_cfs_util :: "cfs_id \<Rightarrow> se_id \<Rightarrow> cfs_id \<Rightarrow> kstate \<Rightarrow> kstate" where
  "update_tg_cfs_util c i g s = fold (propagate_signal c i g) (util_signals @ pemt_signals s) s"

text \<open>The comparison of a \<open>long\<close> with an \<open>unsigned long\<close> is unsigned, and so is the product.\<close>

definition group_load :: "cfs_id \<Rightarrow> kstate \<Rightarrow> s64 option" where
  "group_load g s =
     (let q = cfs_at s g; load = load_avg (cfs_avg q); tg = tg_at s (cfs_tg q) in
      if load = 0 then Some load
      else let tg_load = tg_load_avg tg + 1 - tg_load_avg_contrib q + load
           in if tg_load > scale_load_down (shares tg) then s64_div (load * scale_load_down (shares tg)) tg_load
              else Some load)"

definition update_tg_cfs_load :: "cfs_id \<Rightarrow> se_id \<Rightarrow> cfs_id \<Rightarrow> kstate \<Rightarrow> kstate option" where
  "update_tg_cfs_load c i g s = do {
     load \<leftarrow> group_load g s;
     let delta = load - load_avg (se_avg (se_at s i));
     Some (if delta = 0 then s
       else let s = upd_avg (SeAvg i) (\<lambda>sa. sa\<lparr>load_avg := load, load_sum := load * LOAD_AVG_MAX\<rparr>) s;
                v = add_positive (load_avg (cfs_avg (cfs_at s c))) delta;
                s = upd_avg (CfsAvg c) (\<lambda>sa. sa\<lparr>load_avg := v, load_sum := v * LOAD_AVG_MAX\<rparr>) s
            in if on_rq (se_at s i) \<noteq> 0
               then upd_cfs c (\<lambda>q. let r = add_positive (runnable_load_avg q) delta
                      in q\<lparr>runnable_load_avg := r, runnable_load_sum := r * LOAD_AVG_MAX\<rparr>) s
               else s)
   }"

definition set_tg_cfs_propagate :: "cfs_id \<Rightarrow> kstate \<Rightarrow> kstate" where
  "set_tg_cfs_propagate c s = upd_cfs c (\<lambda>q. q\<lparr>propagate_avg := 1\<rparr>) s"

definition test_and_clear_tg_cfs_propagate :: "cfs_id \<Rightarrow> kstate \<Rightarrow> bool \<times> kstate" where
  "test_and_clear_tg_cfs_propagate g s =
     (if propagate_avg (cfs_at s g) = 0 then (False, s) else (True, upd_cfs g (\<lambda>q. q\<lparr>propagate_avg := 0\<rparr>) s))"

definition propagate_entity_load_avg :: "se_id \<Rightarrow> kstate \<Rightarrow> (bool \<times> kstate) option" where
  "propagate_entity_load_avg i s =
     (case my_q (se_at s i) of
        None \<Rightarrow> Some (False, s)
      | Some g \<Rightarrow>
          (case test_and_clear_tg_cfs_propagate g s of
             (False, s) \<Rightarrow> Some (False, s)
           | (True, s) \<Rightarrow>
               let c = se_cfs_rq (se_at s i);
                   s = set_tg_cfs_propagate c s;
                   s = update_tg_cfs_util c i g s
               in do { s \<leftarrow> update_tg_cfs_load c i g s; Some (True, s) }))"

section \<open>Updating a runqueue and an entity\<close>

text \<open>One block of lines 3830--3875: subtract what was removed.\<close>

definition subtract_removed :: "signal \<Rightarrow> cfs_rq \<Rightarrow> cfs_rq" where
  "subtract_removed x q =
     (let r = removed_of x q; sa = cfs_avg q in
      if r = 0 then q
      else (set_removed x 0 q)\<lparr>cfs_avg :=
        set_sig x (sub_positive (sig_avg x sa) r) (sub_positive (sig_sum x sa) (ucast (r * sig_max x))) sa\<rparr>)"

text \<open>The signals whose removal marks the runqueue for propagation.\<close>

fun propagates :: "signal \<Rightarrow> bool" where
  "propagates x \<longleftrightarrow> x \<in> {Util, CoreUtil, MemoryUtil}"

definition update_removed_util :: "signal \<Rightarrow> bool \<times> cfs_rq \<Rightarrow> bool \<times> cfs_rq" where
  "update_removed_util x = (\<lambda>(removed, q).
     if removed_of x q = 0 then (removed, q)
     else let q = subtract_removed x q in (True, if propagates x then q\<lparr>propagate_avg := 1\<rparr> else q))"

definition update_removed_load_avg :: "cfs_rq \<Rightarrow> bool \<times> cfs_rq" where
  "update_removed_load_avg q =
     (let r = removed_load_avg q; sa = cfs_avg q in
      if r = 0 then (False, q)
      else (True, q\<lparr>removed_load_avg := 0, propagate_avg := 1,
              cfs_avg := sa\<lparr>load_avg := sub_positive (load_avg sa) r, load_sum := sub_positive (load_sum sa) (r * LOAD_AVG_MAX)\<rparr>\<rparr>))"

text \<open>Lines 3877--3886: the scaling signals, and the weight of the current entity.\<close>

definition update_scaling :: "kstate \<Rightarrow> cfs_rq \<Rightarrow> cfs_rq" where
  "update_scaling s q =
     (let q = fold subtract_removed scaling_signals q;
          w = (case curr q of Some j \<Rightarrow> sa_weight (se_avg (se_at s j)) | None \<Rightarrow> 0)
      in q\<lparr>cfs_avg := (cfs_avg q)\<lparr>sa_weight := (if w \<noteq> 0 then w else 1024)\<rparr>\<rparr>)"

definition update_cfs_rq_load_avg :: "kapi \<Rightarrow> u64 \<Rightarrow> cfs_id \<Rightarrow> bool \<Rightarrow> kstate \<Rightarrow> (bool \<times> kstate) option" where
  "update_cfs_rq_load_avg K now c update_freq s =
     (let (removed_load, q) = update_removed_load_avg (cfs_at s c);
          (removed_util, q) = fold update_removed_util (util_signals @ pemt_signals s) (False, q);
          s = upd_cfs c (\<lambda>_. update_scaling s q) s
      in do {
        (decayed, s) \<leftarrow> raw_update_load_avg K now (rq_cpu (cfs_at s c)) (CfsAvg c)
          (scale_load_down (weight (cfs_load (cfs_at s c)))) (curr (cfs_at s c) \<noteq> None) s;
        let s = (if update_freq \<and> (decayed \<or> removed_util) then cfs_rq_util_change c s else s);
        Some (decayed \<or> removed_load, s)
      })"

text \<open>The flags of \<open>update_load_avg\<close>: update the group's load, skip ageing the entity.\<close>

definition update_load_avg :: "kapi \<Rightarrow> se_id \<Rightarrow> bool \<Rightarrow> bool \<Rightarrow> kstate \<Rightarrow> kstate option" where
  "update_load_avg K i update_tg skip_age s =
     (let c = se_cfs_rq (se_at s i);
          now = cfs_rq_clock_task c s;
          cpu = rq_cpu (cfs_at s c)
      in do {
        s \<leftarrow>
          (if last_update_time (se_avg (se_at s i)) \<noteq> 0 \<and> \<not> skip_age
           then do {
             (d, s) \<leftarrow> raw_update_load_avg K now cpu (SeAvg i)
               (ucast (on_rq (se_at s i)) * scale_load_down (weight (se_load (se_at s i))))
               (curr (cfs_at s c) = Some i) s;
             Some s
           }
           else Some s);
        (decayed, s) \<leftarrow> update_cfs_rq_load_avg K now c True s;
        (propagated, s) \<leftarrow> propagate_entity_load_avg i s;
        Some (if (decayed \<or> propagated) \<and> update_tg then update_tg_load_avg c False s else s)
      })"

section \<open>Attaching and detaching\<close>

definition attach_signal :: "sched_avg \<Rightarrow> signal \<Rightarrow> sched_avg \<Rightarrow> sched_avg" where
  "attach_signal se x sa = set_sig x (sig_avg x sa + sig_avg x se) (sig_sum x sa + sig_sum x se) sa"

definition detach_signal :: "sched_avg \<Rightarrow> signal \<Rightarrow> sched_avg \<Rightarrow> sched_avg" where
  "detach_signal se x sa = set_sig x (sub_positive (sig_avg x sa) (sig_avg x se)) (sub_positive (sig_sum x sa) (sig_sum x se)) sa"

definition attach_entity_load_avg :: "cfs_id \<Rightarrow> se_id \<Rightarrow> kstate \<Rightarrow> kstate" where
  "attach_entity_load_avg c i s =
     (let s = upd_avg (SeAvg i) (\<lambda>sa. sa\<lparr>last_update_time := last_update_time (cfs_avg (cfs_at s c))\<rparr>) s;
          se = se_avg (se_at s i);
          s = upd_avg (CfsAvg c) (\<lambda>sa. sa\<lparr>load_avg := load_avg sa + load_avg se, load_sum := load_sum sa + load_sum se\<rparr>) s;
          s = upd_avg (CfsAvg c) (fold (attach_signal se) (util_signals @ pemt_signals s @ scaling_signals)) s;
          s = set_tg_cfs_propagate c s
      in cfs_rq_util_change c s)"

definition detach_entity_load_avg :: "cfs_id \<Rightarrow> se_id \<Rightarrow> kstate \<Rightarrow> kstate" where
  "detach_entity_load_avg c i s =
     (let se = se_avg (se_at s i);
          s = upd_avg (CfsAvg c) (\<lambda>sa. sa\<lparr>load_avg := sub_positive (load_avg sa) (load_avg se),
                 load_sum := sub_positive (load_sum sa) (load_sum se)\<rparr>) s;
          s = upd_avg (CfsAvg c) (fold (detach_signal se) (util_signals @ pemt_signals s @ rev scaling_signals)) s;
          s = set_tg_cfs_propagate c s
      in cfs_rq_util_change c s)"

definition enqueue_entity_load_avg :: "cfs_id \<Rightarrow> se_id \<Rightarrow> kstate \<Rightarrow> kstate" where
  "enqueue_entity_load_avg c i s =
     (let sa = se_avg (se_at s i);
          s = upd_cfs c (\<lambda>q. q\<lparr>runnable_load_avg := runnable_load_avg q + load_avg sa,
                              runnable_load_sum := runnable_load_sum q + load_sum sa\<rparr>) s
      in if last_update_time sa = 0 then update_tg_load_avg c False (attach_entity_load_avg c i s) else s)"

definition dequeue_entity_load_avg :: "cfs_id \<Rightarrow> se_id \<Rightarrow> kstate \<Rightarrow> kstate" where
  "dequeue_entity_load_avg c i s =
     (let sa = se_avg (se_at s i)
      in upd_cfs c (\<lambda>q. q\<lparr>runnable_load_avg := max0 (runnable_load_avg q - load_avg sa),
                          runnable_load_sum := max0 (runnable_load_sum q - load_sum sa)\<rparr>) s)"

section \<open>Removal without the runqueue's lock\<close>

definition cfs_rq_last_update_time :: "cfs_rq \<Rightarrow> u64" where
  "cfs_rq_last_update_time q = last_update_time (cfs_avg q)"

definition sync_entity_load_avg :: "kapi \<Rightarrow> se_id \<Rightarrow> kstate \<Rightarrow> kstate option" where
  "sync_entity_load_avg K i s =
     (let q = cfs_at s (se_cfs_rq (se_at s i)) in do {
        (d, s) \<leftarrow> raw_update_load_avg K (cfs_rq_last_update_time q) (rq_cpu q) (SeAvg i) 0 False s;
        Some s
      })"

definition add_removed :: "sched_avg \<Rightarrow> signal \<Rightarrow> cfs_rq \<Rightarrow> cfs_rq" where
  "add_removed sa x q = set_removed x (removed_of x q + sig_avg x sa) q"

definition remove_entity_load_avg :: "kapi \<Rightarrow> se_id \<Rightarrow> kstate \<Rightarrow> kstate option" where
  "remove_entity_load_avg K i s =
     (let c = se_cfs_rq (se_at s i) in do {
        s \<leftarrow> sync_entity_load_avg K i s;
        let sa = se_avg (se_at s i);
        let s = upd_cfs c (\<lambda>q. q\<lparr>removed_load_avg := removed_load_avg q + load_avg sa\<rparr>) s;
        Some (upd_cfs c (fold (add_removed sa) (util_signals @ pemt_signals s @ scaling_signals)) s)
      })"

definition cfs_rq_runnable_load_avg :: "cfs_rq \<Rightarrow> ulong" where
  "cfs_rq_runnable_load_avg q = runnable_load_avg q"

definition cfs_rq_load_avg :: "cfs_rq \<Rightarrow> ulong" where
  "cfs_rq_load_avg q = load_avg (cfs_avg q)"

section \<open>Attaching an entity to its runqueue and up the hierarchy\<close>

definition cfs_bandwidth_used :: "kstate \<Rightarrow> bool" where
  "cfs_bandwidth_used s \<longleftrightarrow> cfs_bandwidth_key s > 0"

definition cfs_rq_throttled :: "cfs_rq \<Rightarrow> kstate \<Rightarrow> bool" where
  "cfs_rq_throttled q s \<longleftrightarrow> cfs_bandwidth_used s \<and> throttled q"

text \<open>\<open>for_each_sched_entity\<close>, with as much fuel as the hierarchy is deep.\<close>

fun propagate_up :: "nat \<Rightarrow> kapi \<Rightarrow> se_id option \<Rightarrow> kstate \<Rightarrow> kstate option" where
  "propagate_up _ K None s = Some s"
| "propagate_up 0 K (Some i) s = None"
| "propagate_up (Suc n) K (Some i) s =
     (if cfs_rq_throttled (cfs_at s (se_cfs_rq (se_at s i))) s then Some s
      else do { s \<leftarrow> update_load_avg K i True False s; propagate_up n K (parent (se_at s i)) s })"

definition propagate_entity_cfs_rq :: "nat \<Rightarrow> kapi \<Rightarrow> se_id \<Rightarrow> kstate \<Rightarrow> kstate option" where
  "propagate_entity_cfs_rq n K i s = propagate_up n K (parent (se_at s i)) s"

definition detach_entity_cfs_rq :: "nat \<Rightarrow> kapi \<Rightarrow> se_id \<Rightarrow> kstate \<Rightarrow> kstate option" where
  "detach_entity_cfs_rq n K i s =
     (let c = se_cfs_rq (se_at s i) in do {
        s \<leftarrow> update_load_avg K i False False s;
        let s = detach_entity_load_avg c i s;
        let s = update_tg_load_avg c False s;
        propagate_entity_cfs_rq n K i s
      })"

definition attach_entity_cfs_rq :: "nat \<Rightarrow> kapi \<Rightarrow> se_id \<Rightarrow> kstate \<Rightarrow> kstate option" where
  "attach_entity_cfs_rq n K i s =
     (let c = se_cfs_rq (se_at s i);
          s = upd_se i (\<lambda>se. se\<lparr>depth := (case parent se of Some j \<Rightarrow> depth (se_at s j) + 1 | None \<Rightarrow> 0)\<rparr>) s
      in do {
        s \<leftarrow> update_load_avg K i False (\<not> sched_feat K ATTACH_AGE_LOAD) s;
        let s = attach_entity_load_avg c i s;
        let s = update_tg_load_avg c False s;
        propagate_entity_cfs_rq n K i s
      })"

end
