(* ===== verification/Load_Tracking_Props.thy ===== *)
theory Load_Tracking_Props
  imports Load_Tracking
begin

text \<open>
  Properties of load tracking: attaching and detaching cancel, the load of a task group is the sum of its
  contributions, propagation conserves what the parent holds besides the group, and a group entity never
  weighs more than the group's shares.
\<close>

section \<open>Clamped arithmetic\<close>

lemma sub_positive_value: "unat (sub_positive a b) = unat a - unat (b :: 'a::len word)"
proof (cases "b \<le> a")
  case True
  have "unat a - unat b \<le> unat a" by simp
  then show ?thesis
    using True by (auto simp: sub_positive_def Let_def unat_minus_le word_less_nat_alt)
next
  case False
  have l: "unat b < 2 ^ LENGTH('a)" by (rule unsigned_less)
  have e: "unat (a - b) = unat a + 2 ^ LENGTH('a) - unat b"
    using False by (simp add: unat_sub_if_size word_size word_le_nat_alt)
  have "unat a < unat (a - b)" unfolding e using l by linarith
  then have "a < a - b" by (simp only: word_less_nat_alt)
  then show ?thesis using False by (simp add: sub_positive_def Let_def word_le_nat_alt)
qed

lemma sub_add_positive:
  assumes "unat (a :: 'a::len word) + unat b < 2 ^ LENGTH('a)"
  shows "sub_positive (a + b) b = a"
  using unat_plus_small [OF assms] by (simp add: word_unat_eq_iff sub_positive_value)

text \<open>\<open>add_positive\<close> adds, and yields zero instead of wrapping below it.\<close>

lemma add_positive_nonneg: "0 \<le> sint v \<Longrightarrow> add_positive a v = a + v"
  by (simp add: add_positive_def Let_def)

lemma add_positive_small: "sint v < 0 \<Longrightarrow> a + v \<le> a \<Longrightarrow> add_positive a v = a + v"
  by (auto simp: add_positive_def Let_def not_less)

section \<open>Attaching and detaching\<close>

definition signals_fit :: "signal list \<Rightarrow> sched_avg \<Rightarrow> sched_avg \<Rightarrow> bool" where
  "signals_fit xs sa se \<longleftrightarrow>
     list_all (\<lambda>x. unat (sig_avg x sa) + unat (sig_avg x se) < 18446744073709551616
       \<and> unat (sig_sum x sa) + unat (sig_sum x se) < 4294967296) xs"

lemma set_sig_get [simp]:
  "sig_avg x (set_sig y a b sa) = (if x = y then a else sig_avg x sa)"
  "sig_sum x (set_sig y a b sa) = (if x = y then b else sig_sum x sa)"
  by (cases x; cases y; simp)+

lemma set_sig_id [simp]: "set_sig x (sig_avg x sa) (sig_sum x sa) sa = sa"
  by (cases x) simp_all

lemma set_sig_twice [simp]: "set_sig x a b (set_sig x c d sa) = set_sig x a b sa"
  by (cases x) simp_all

lemma set_sig_commute: "x \<noteq> y \<Longrightarrow> set_sig x a b (set_sig y c d sa) = set_sig y c d (set_sig x a b sa)"
  by (cases x; cases y) simp_all

lemma detach_attach_signal:
  assumes "unat (sig_avg x sa) + unat (sig_avg x se) < 18446744073709551616" "unat (sig_sum x sa) + unat (sig_sum x se) < 4294967296"
  shows "detach_signal se x (attach_signal se x sa) = sa"
  using assms by (simp add: detach_signal_def attach_signal_def sub_add_positive)

lemma detach_commutes: "x \<noteq> y \<Longrightarrow> detach_signal se x (attach_signal se y sa) = attach_signal se y (detach_signal se x sa)"
  by (simp add: detach_signal_def attach_signal_def set_sig_commute [of x y])

lemma detach_past_attach:
  "x \<notin> set ys \<Longrightarrow> detach_signal se x (fold (attach_signal se) ys sa) = fold (attach_signal se) ys (detach_signal se x sa)"
  by (induction ys arbitrary: sa) (auto simp: detach_commutes)

lemma attach_keeps_fit:
  "x \<notin> set ys \<Longrightarrow> signals_fit ys (attach_signal se x sa) se = signals_fit ys sa se"
  by (induction ys) (auto simp: signals_fit_def attach_signal_def)

lemma detach_attach_fold:
  assumes "distinct xs" "signals_fit xs sa se"
  shows "fold (detach_signal se) xs (fold (attach_signal se) xs sa) = sa"
  using assms
proof (induction xs arbitrary: sa)
  case (Cons x xs)
  have "fold (detach_signal se) (x # xs) (fold (attach_signal se) (x # xs) sa)
      = fold (detach_signal se) xs (detach_signal se x (fold (attach_signal se) xs (attach_signal se x sa)))" by simp
  also have "\<dots> = fold (detach_signal se) xs (fold (attach_signal se) xs (detach_signal se x (attach_signal se x sa)))"
    using Cons.prems(1) by (simp add: detach_past_attach)
  also have "\<dots> = fold (detach_signal se) xs (fold (attach_signal se) xs sa)"
    using Cons.prems(2) by (simp add: detach_attach_signal signals_fit_def)
  also have "\<dots> = sa" using Cons by (simp add: signals_fit_def)
  finally show ?case .
qed simp

lemma detach_signal_commute: "detach_signal se x (detach_signal se y sa) = detach_signal se y (detach_signal se x sa)"
  by (cases "x = y") (simp_all add: detach_signal_def set_sig_commute [of x y])

lemma detach_rev: "fold (detach_signal se) (xs @ rev ys) sa = fold (detach_signal se) (xs @ ys) sa"
proof -
  have "fold (detach_signal se) (rev ys) = fold (detach_signal se) ys"
    by (rule fold_rev) (simp add: fun_eq_iff detach_signal_commute)
  then show ?thesis by simp
qed

lemma util_change_frame [simp]:
  "se_at (cfs_rq_util_change c s) = se_at s" "cfs_at (cfs_rq_util_change c s) = cfs_at s"
  "pkshin_pemt_enabled (cfs_rq_util_change c s) = pkshin_pemt_enabled s" "tg_at (cfs_rq_util_change c s) = tg_at s"
  by (simp_all add: cfs_rq_util_change_def cpufreq_update_util_def)

lemma get_avg_util_change [simp]: "get_avg r (cfs_rq_util_change c s) = get_avg r s"
  by (rule get_avg_frame) simp_all

lemma get_avg_propagate [simp]: "get_avg r (set_tg_cfs_propagate c s) = get_avg r s"
  by (cases r) (simp_all add: set_tg_cfs_propagate_def upd_cfs_def)

lemma pemt_propagate [simp]: "pkshin_pemt_enabled (set_tg_cfs_propagate c s) = pkshin_pemt_enabled s"
  by (simp add: set_tg_cfs_propagate_def upd_cfs_def)

lemma signals_after [simp]:
  "pemt_signals (upd_avg r f s) = pemt_signals s" "pemt_signals (cfs_rq_util_change c s) = pemt_signals s"
  "pemt_signals (set_tg_cfs_propagate c s) = pemt_signals s"
  by (simp_all add: pemt_signals_def)

lemma distinct_signals: "distinct (util_signals @ pemt_signals s @ scaling_signals)"
  by (simp add: util_signals_def pemt_signals_def scaling_signals_def)

lemma sig_last_update [simp]:
  "sig_avg x (sa\<lparr>last_update_time := t\<rparr>) = sig_avg x sa" "sig_sum x (sa\<lparr>last_update_time := t\<rparr>) = sig_sum x sa"
  "sig_avg x (sa\<lparr>load_avg := a\<rparr>) = sig_avg x sa" "sig_sum x (sa\<lparr>load_avg := a\<rparr>) = sig_sum x sa"
  "sig_avg x (sa\<lparr>load_sum := b\<rparr>) = sig_avg x sa" "sig_sum x (sa\<lparr>load_sum := b\<rparr>) = sig_sum x sa"
  by (cases x; simp)+

lemma attach_time [simp]: "attach_signal (se\<lparr>last_update_time := t\<rparr>) = attach_signal se"
  "detach_signal (se\<lparr>last_update_time := t\<rparr>) = detach_signal se"
  by (simp_all add: attach_signal_def detach_signal_def fun_eq_iff)

lemma set_sig_load:
  "set_sig x a b (sa\<lparr>load_avg := l\<rparr>) = (set_sig x a b sa)\<lparr>load_avg := l\<rparr>"
  "set_sig x a b (sa\<lparr>load_sum := m\<rparr>) = (set_sig x a b sa)\<lparr>load_sum := m\<rparr>"
  "load_avg (set_sig x a b sa) = load_avg sa" "load_sum (set_sig x a b sa) = load_sum sa"
  by (cases x; simp)+

lemma attach_load:
  "fold (attach_signal se) xs (sa\<lparr>load_avg := l, load_sum := m\<rparr>) = (fold (attach_signal se) xs sa)\<lparr>load_avg := l, load_sum := m\<rparr>"
  "load_avg (fold (attach_signal se) xs sa) = load_avg sa" "load_sum (fold (attach_signal se) xs sa) = load_sum sa"
  by (induction xs arbitrary: sa) (simp_all add: attach_signal_def set_sig_load)

lemma attach_avg:
  assumes "SeAvg i \<noteq> CfsAvg c"
  shows "get_avg (CfsAvg c) (attach_entity_load_avg c i s) =
      (fold (attach_signal (get_avg (SeAvg i) s)) (util_signals @ pemt_signals s @ scaling_signals) (get_avg (CfsAvg c) s))
        \<lparr>load_avg := load_avg (get_avg (CfsAvg c) s) + load_avg (get_avg (SeAvg i) s),
         load_sum := load_sum (get_avg (CfsAvg c) s) + load_sum (get_avg (SeAvg i) s)\<rparr>"
    and "get_avg (SeAvg i) (attach_entity_load_avg c i s) = (get_avg (SeAvg i) s)\<lparr>last_update_time := last_update_time (get_avg (CfsAvg c) s)\<rparr>"
    and "pemt_signals (attach_entity_load_avg c i s) = pemt_signals s"
proof -
  define s1 where "s1 = upd_avg (SeAvg i) (\<lambda>sa. sa\<lparr>last_update_time := last_update_time (cfs_avg (cfs_at s c))\<rparr>) s"
  have e: "attach_entity_load_avg c i s = cfs_rq_util_change c (set_tg_cfs_propagate c
      (upd_avg (CfsAvg c) (fold (attach_signal (get_avg (SeAvg i) s1)) (util_signals @ pemt_signals s @ scaling_signals))
      (upd_avg (CfsAvg c) (\<lambda>sa. sa\<lparr>load_avg := load_avg sa + load_avg (get_avg (SeAvg i) s1), load_sum := load_sum sa + load_sum (get_avg (SeAvg i) s1)\<rparr>) s1)))"
    by (simp add: attach_entity_load_avg_def Let_def s1_def)
  have s1: "get_avg (SeAvg i) s1 = (get_avg (SeAvg i) s)\<lparr>last_update_time := last_update_time (get_avg (CfsAvg c) s)\<rparr>"
    "get_avg (CfsAvg c) s1 = get_avg (CfsAvg c) s"
    by (simp_all add: s1_def get_avg_upd_avg del: get_avg.simps) simp
  show "get_avg (CfsAvg c) (attach_entity_load_avg c i s) =
      (fold (attach_signal (get_avg (SeAvg i) s)) (util_signals @ pemt_signals s @ scaling_signals) (get_avg (CfsAvg c) s))
        \<lparr>load_avg := load_avg (get_avg (CfsAvg c) s) + load_avg (get_avg (SeAvg i) s),
         load_sum := load_sum (get_avg (CfsAvg c) s) + load_sum (get_avg (SeAvg i) s)\<rparr>"
    unfolding e by (simp add: get_avg_upd_avg s1 attach_load del: get_avg.simps fold_append)
  show "get_avg (SeAvg i) (attach_entity_load_avg c i s) = (get_avg (SeAvg i) s)\<lparr>last_update_time := last_update_time (get_avg (CfsAvg c) s)\<rparr>"
    unfolding e by (simp add: get_avg_upd_avg s1 del: get_avg.simps)
  show "pemt_signals (attach_entity_load_avg c i s) = pemt_signals s"
    unfolding e by (simp add: s1_def)
qed

lemma detach_avg:
  "get_avg (CfsAvg c) (detach_entity_load_avg c i s) =
      fold (detach_signal (get_avg (SeAvg i) s)) (util_signals @ pemt_signals s @ scaling_signals)
        ((get_avg (CfsAvg c) s)\<lparr>load_avg := sub_positive (load_avg (get_avg (CfsAvg c) s)) (load_avg (get_avg (SeAvg i) s)),
           load_sum := sub_positive (load_sum (get_avg (CfsAvg c) s)) (load_sum (get_avg (SeAvg i) s))\<rparr>)"
  unfolding detach_entity_load_avg_def Let_def
  using detach_rev [of _ "util_signals @ pemt_signals s" scaling_signals]
  by (simp add: get_avg_upd_avg del: get_avg.simps(2) fold_append)

lemma attach_detach_avg:
  assumes fit: "signals_fit (util_signals @ pemt_signals s @ scaling_signals) (get_avg (CfsAvg c) s) (get_avg (SeAvg i) s)"
    and load: "unat (load_avg (get_avg (CfsAvg c) s)) + unat (load_avg (get_avg (SeAvg i) s)) < 18446744073709551616"
      "unat (load_sum (get_avg (CfsAvg c) s)) + unat (load_sum (get_avg (SeAvg i) s)) < 18446744073709551616"
  shows "get_avg (CfsAvg c) (detach_entity_load_avg c i (attach_entity_load_avg c i s)) = get_avg (CfsAvg c) s"
proof -
  have ne: "SeAvg i \<noteq> CfsAvg c" by simp
  let ?xs = "util_signals @ pemt_signals s @ scaling_signals" and ?q = "get_avg (CfsAvg c) s" and ?e = "get_avg (SeAvg i) s"
  have "get_avg (CfsAvg c) (detach_entity_load_avg c i (attach_entity_load_avg c i s)) =
      fold (detach_signal ?e) ?xs ((fold (attach_signal ?e) ?xs ?q)\<lparr>load_avg := load_avg ?q, load_sum := load_sum ?q\<rparr>)"
    unfolding detach_avg attach_avg [OF ne] using load by (simp add: sub_add_positive del: get_avg.simps fold_append)
  also have "(fold (attach_signal ?e) ?xs ?q)\<lparr>load_avg := load_avg ?q, load_sum := load_sum ?q\<rparr> = fold (attach_signal ?e) ?xs ?q"
    using attach_load(1) [where se = ?e and xs = ?xs and sa = ?q and l = "load_avg ?q" and m = "load_sum ?q"] by (simp del: get_avg.simps fold_append)
  also have "fold (detach_signal ?e) ?xs (fold (attach_signal ?e) ?xs ?q) = ?q"
    by (rule detach_attach_fold [OF distinct_signals fit])
  finally show ?thesis .
qed


section \<open>The load of a task group\<close>

text \<open>\<open>tg->load_avg\<close> is the sum of what its runqueues contributed.\<close>

definition tg_sum_ok :: "tg_id \<Rightarrow> cfs_id list \<Rightarrow> kstate \<Rightarrow> bool" where
  "tg_sum_ok t cs s \<longleftrightarrow> tg_load_avg (tg_at s t) = sum_list (map (\<lambda>c. tg_load_avg_contrib (cfs_at s c)) cs)"

lemma sum_list_update:
  assumes "distinct cs" "c \<in> set cs"
  shows "sum_list (map (\<lambda>x. if x = c then v else f x) cs) = sum_list (map f cs) + (v - (f c :: u64))"
  using assms
proof (induction cs)
  case (Cons x cs)
  show ?case
  proof (cases "x = c")
    case True
    then have e: "map (\<lambda>x. if x = c then v else f x) cs = map f cs" using Cons.prems(1) by auto
    show ?thesis unfolding list.map e using True by (simp del: map_eq_conv)
  next
    case False
    then show ?thesis using Cons by simp
  qed
qed simp

lemma update_tg_state:
  "update_tg_load_avg c force s = s \<or>
   update_tg_load_avg c force s = upd_cfs c (\<lambda>q. q\<lparr>tg_load_avg_contrib := load_avg (cfs_avg q)\<rparr>)
     (upd_tg (cfs_tg (cfs_at s c)) (\<lambda>t. t\<lparr>tg_load_avg := tg_load_avg t + (load_avg (cfs_avg (cfs_at s c)) - tg_load_avg_contrib (cfs_at s c))\<rparr>) s)"
  by (simp add: update_tg_load_avg_def Let_def)

lemma update_tg_sum:
  assumes "distinct cs" "\<And>d. d \<in> set cs \<longleftrightarrow> cfs_tg (cfs_at s d) = t" "tg_sum_ok t cs s"
  shows "tg_sum_ok t cs (update_tg_load_avg c force s)"
proof (cases "update_tg_load_avg c force s = s")
  case True
  then show ?thesis using assms(3) by simp
next
  case False
  let ?q = "cfs_at s c"
  note st = update_tg_state [of c force s]
  show ?thesis
  proof (cases "c \<in> set cs")
    case True
    then have "cfs_tg ?q = t" using assms(2) by simp
    moreover have "(\<lambda>d. tg_load_avg_contrib (if d = c then ?q\<lparr>tg_load_avg_contrib := load_avg (cfs_avg ?q)\<rparr> else cfs_at s d))
        = (\<lambda>d. if d = c then load_avg (cfs_avg ?q) else tg_load_avg_contrib (cfs_at s d))" by auto
    ultimately show ?thesis
      using st False assms(3) sum_list_update [OF assms(1) True, of "load_avg (cfs_avg ?q)" "\<lambda>d. tg_load_avg_contrib (cfs_at s d)"]
      by (auto simp: tg_sum_ok_def upd_defs algebra_simps)
  next
    case out: False
    then have "cfs_tg ?q \<noteq> t" using assms(2) by simp
    moreover have "(\<Sum>d\<leftarrow>cs. tg_load_avg_contrib (if d = c then r else cfs_at s d)) = (\<Sum>d\<leftarrow>cs. tg_load_avg_contrib (cfs_at s d))" for r
      using out by (intro arg_cong [where f = sum_list] map_cong) auto
    ultimately show ?thesis
      using st False assms(3) by (auto simp: tg_sum_ok_def upd_defs)
  qed
qed

lemma long_abs_0 [simp]: "long_abs 0 = 0"
  by (simp add: long_abs_def)

lemma update_tg_drift:
  assumes "cfs_tg (cfs_at s c) \<noteq> root_task_group"
  shows "long_abs (load_avg (cfs_avg (cfs_at (update_tg_load_avg c force s) c)) - tg_load_avg_contrib (cfs_at (update_tg_load_avg c force s) c))
    \<le> tg_load_avg_contrib (cfs_at (update_tg_load_avg c force s) c) div 64"
  using assms by (auto simp: update_tg_load_avg_def Let_def upd_defs)

lemma update_tg_force:
  assumes "cfs_tg (cfs_at s c) \<noteq> root_task_group"
  shows "tg_load_avg_contrib (cfs_at (update_tg_load_avg c True s) c) = load_avg (cfs_avg (cfs_at s c))"
  using assms by (simp add: update_tg_load_avg_def Let_def upd_defs)

section \<open>The load of a group entity\<close>

lemma sint_nat:
  assumes "unat (x :: u64) < 9223372036854775808"
  shows "sint x = int (unat x)"
proof -
  have e: "int (unat x) = uint x" by simp
  have "uint x < 9223372036854775808" using assms e by linarith
  moreover have "- 9223372036854775808 \<le> uint x" by (rule order_trans [of _ 0]) simp_all
  ultimately show ?thesis using sint_diff_small [of x 0] by simp
qed

lemma sdiv_nat: "int a sdiv int b = int (a div b)"
  by (cases "b = 0") (simp_all add: signed_divide_int_def zdiv_int sgn_if)

lemma share_le: "(a::nat) \<le> t \<Longrightarrow> a * b div t \<le> b"
  using div_le_mono [OF mult_le_mono1, of a t b t] by (cases "t = 0") simp_all

lemma s64_div_nonneg:
  assumes "unat a < 9223372036854775808" "unat b < 9223372036854775808" "b \<noteq> 0"
  shows "\<exists>r. s64_div a b = Some r \<and> unat r = unat a div unat b"
proof -
  have sa: "sint a = uint a" and sb: "sint b = uint b"
    using assms(1,2) by (simp_all add: sint_nat)
  have d: "uint a sdiv uint b = int (unat a div unat b)"
    by (metis sdiv_nat uint_nat)
  have "unat a div unat b < 2 ^ LENGTH(64)"
    by (rule le_less_trans [OF div_le_dividend]) simp
  then have "unat (word_of_int (int (unat a div unat b)) :: u64) = unat a div unat b"
    using of_nat_eq_unat [of "unat a div unat b", where 'a = 64] by simp
  moreover have "uint a \<noteq> - 9223372036854775808"
    using uint_ge_0 [of a] by linarith
  ultimately show ?thesis
    using assms(3) unfolding s64_div_def sa sb d by simp
qed

lemma group_load_bounded:
  assumes l: "load_avg (cfs_avg (cfs_at s g)) = load" "scale_load_down (shares (tg_at s (cfs_tg (cfs_at s g)))) = sh"
    and others: "tg_load_avg (tg_at s (cfs_tg (cfs_at s g))) - tg_load_avg_contrib (cfs_at s g) = ot"
    and small: "unat ot + unat load < 9223372036854775807" "unat load * unat sh < 9223372036854775808"
  shows "\<exists>r. group_load g s = Some r \<and> unat r \<le> unat load \<and> (load = 0 \<or> unat r \<le> unat sh)"
proof (cases "load = 0")
  case True
  then show ?thesis using l by (simp add: group_load_def Let_def)
next
  case False
  let ?T = "ot + 1 + load"
  have T: "unat ?T = unat ot + 1 + unat load"
    using small(1) by (simp add: unat_plus_u64)
  have eq: "tg_load_avg (tg_at s (cfs_tg (cfs_at s g))) + 1 - tg_load_avg_contrib (cfs_at s g) + load = ?T"
    using others by (simp add: algebra_simps)
  have gl: "group_load g s = (if ?T > sh then s64_div (load * sh) ?T else Some load)"
    unfolding group_load_def Let_def l eq using False by simp
  show ?thesis
  proof (cases "?T > sh")
    case False
    then have "unat load \<le> unat sh" using T by (simp add: word_less_nat_alt)
    then show ?thesis using gl False by simp
  next
    case True
    have p: "unat (load * sh) = unat load * unat sh" using small(2) by (simp add: unat_times_u64)
    have T0: "?T \<noteq> 0" using T by (metis add_is_0 one_neq_zero unsigned_0)
    have "unat (load * sh) < 9223372036854775808" "unat ?T < 9223372036854775808" using p small T by simp_all
    then obtain r where r: "s64_div (load * sh) ?T = Some r" "unat r = unat load * unat sh div unat ?T"
      using s64_div_nonneg [OF _ _ T0] p by metis
    have lT: "unat load \<le> unat ?T" "unat sh \<le> unat ?T" using T True by (simp_all add: word_less_nat_alt)
    have "unat r \<le> unat sh" unfolding r(2) by (rule share_le [OF lT(1)])
    moreover have "unat r \<le> unat load"
      unfolding r(2) mult.commute [of "unat load"] by (rule share_le [OF lT(2)])
    ultimately have "unat r \<le> unat sh" "unat r \<le> unat load" by simp_all
    then show ?thesis using gl True r(1) by simp
  qed
qed

section \<open>Propagation\<close>


text \<open>What a step on one signal leaves alone.\<close>

lemma propagate_signal_frame [simp]:
  "on_rq (se_at (propagate_signal c i g x s) j) = on_rq (se_at s j)"
  "runnable_load_avg (cfs_at (propagate_signal c i g x s) d) = runnable_load_avg (cfs_at s d)"
  "cfs_tg (cfs_at (propagate_signal c i g x s) d) = cfs_tg (cfs_at s d)"
  "tg_load_avg_contrib (cfs_at (propagate_signal c i g x s) d) = tg_load_avg_contrib (cfs_at s d)"
  "propagate_avg (cfs_at (propagate_signal c i g x s) d) = propagate_avg (cfs_at s d)"
  "tg_at (propagate_signal c i g x s) = tg_at s"
  by (simp_all add: propagate_signal_def Let_def upd_avg.simps upd_defs)










lemma propagate_signals_rest [simp]:
  "on_rq (se_at (fold (propagate_signal c i g) xs s) j) = on_rq (se_at s j)"
  "runnable_load_avg (cfs_at (fold (propagate_signal c i g) xs s) d) = runnable_load_avg (cfs_at s d)"
  "cfs_tg (cfs_at (fold (propagate_signal c i g) xs s) d) = cfs_tg (cfs_at s d)"
  "tg_load_avg_contrib (cfs_at (fold (propagate_signal c i g) xs s) d) = tg_load_avg_contrib (cfs_at s d)"
  "propagate_avg (cfs_at (fold (propagate_signal c i g) xs s) d) = propagate_avg (cfs_at s d)"
  "tg_at (fold (propagate_signal c i g) xs s) = tg_at s"
  by (induction xs arbitrary: s) simp_all







section \<open>Properties\<close>

text \<open>C28: Attaching an entity and detaching it again cancel: the runqueue has all its signals back (load,
  utilisation, core and memory shares, scaling), as long as adding them did not overflow, and with the
  tracking of the counters on or off in between alike.\<close>

theorem attach_detach_roundtrip:
  assumes "signals_fit (util_signals @ pemt_signals s @ scaling_signals) (get_avg (CfsAvg c) s) (get_avg (SeAvg i) s)"
    and "unat (load_avg (get_avg (CfsAvg c) s)) + unat (load_avg (get_avg (SeAvg i) s)) < 18446744073709551616"
    and "unat (load_sum (get_avg (CfsAvg c) s)) + unat (load_sum (get_avg (SeAvg i) s)) < 18446744073709551616"
  shows "get_avg (CfsAvg c) (detach_entity_load_avg c i (attach_entity_load_avg c i s)) = get_avg (CfsAvg c) s"
  by (rule attach_detach_avg [OF assms])

definition busy_state :: kstate where
  "busy_state = zero_state\<lparr>pkshin_pemt_enabled := True,
     se_at := (\<lambda>_. zero_se\<lparr>se_avg := zero_avg\<lparr>load_avg := 100, load_sum := 4774200, util_avg := 200, util_sum := 9548400, core_util_avg := 150\<rparr>\<rparr>),
     cfs_at := (\<lambda>_. zero_cfs\<lparr>cfs_avg := zero_avg\<lparr>load_avg := 900, load_sum := 42967800, util_avg := 700, util_sum := 33419400\<rparr>, cfs_tg := 1\<rparr>)\<rparr>"

theorem attach_detach_roundtrip_witness:
  "get_avg (CfsAvg 0) (detach_entity_load_avg 0 3 (attach_entity_load_avg 0 3 busy_state)) = get_avg (CfsAvg 0) busy_state"
proof (rule attach_detach_roundtrip)
  show "signals_fit (util_signals @ pemt_signals busy_state @ scaling_signals) (get_avg (CfsAvg 0) busy_state) (get_avg (SeAvg 3) busy_state)"
    by (simp add: signals_fit_def util_signals_def pemt_signals_def scaling_signals_def busy_state_def zero_se_def zero_cfs_def zero_avg_def)
qed (simp_all add: busy_state_def zero_se_def zero_cfs_def)

text \<open>C29: The load of a task group is the sum of the contributions of its runqueues, and stays so through every
  update of a runqueue's contribution, forced or not; after the update the runqueue's load differs from its
  contribution by at most a 64th of it, and not at all if forced.\<close>

theorem group_load_is_sum:
  assumes "distinct cs" "\<And>d. d \<in> set cs \<longleftrightarrow> cfs_tg (cfs_at s d) = t" "tg_sum_ok t cs s"
    and "cfs_tg (cfs_at s c) \<noteq> root_task_group"
  shows "tg_sum_ok t cs (update_tg_load_avg c force s)
    \<and> (let q = cfs_at (update_tg_load_avg c force s) c in
        long_abs (load_avg (cfs_avg q) - tg_load_avg_contrib q) \<le> tg_load_avg_contrib q div 64
        \<and> (force \<longrightarrow> tg_load_avg_contrib q = load_avg (cfs_avg (cfs_at s c))))"
  using update_tg_sum [OF assms(1-3), of c force] update_tg_drift [OF assms(4), of force] update_tg_force [OF assms(4)]
  by (auto simp: Let_def)

definition two_queues :: kstate where
  "two_queues = busy_state\<lparr>cfs_at := (\<lambda>d. zero_cfs\<lparr>cfs_avg := zero_avg\<lparr>load_avg := 900\<rparr>, cfs_tg := (if d = 1 \<or> d = 2 then 1 else 0)\<rparr>)\<rparr>"

theorem group_load_is_sum_witness:
  "tg_sum_ok 1 [1, 2] (update_tg_load_avg 2 False two_queues)"
proof -
  have "distinct [1, 2 :: nat]" "\<And>d. d \<in> set [1, 2] \<longleftrightarrow> cfs_tg (cfs_at two_queues d) = 1" "tg_sum_ok 1 [1, 2] two_queues"
    "cfs_tg (cfs_at two_queues 2) \<noteq> root_task_group"
    by (simp_all add: two_queues_def tg_sum_ok_def root_task_group_def busy_state_def zero_cfs_def zero_state_def zero_tg_def)
  from group_load_is_sum [OF this, of False] show ?thesis by simp
qed

text \<open>A group entity's load never exceeds the shares of its group, nor the load of its runqueue: whatever
  the other runqueues contributed, \<open>update_tg_cfs_load\<close> scales the load into the shares, and its signed division is
  defined.\<close>

theorem group_load_within_shares:
  assumes "load_avg (cfs_avg (cfs_at s g)) = load" "scale_load_down (shares (tg_at s (cfs_tg (cfs_at s g)))) = sh"
    and "tg_load_avg (tg_at s (cfs_tg (cfs_at s g))) - tg_load_avg_contrib (cfs_at s g) = others"
    and "unat others + unat load < 9223372036854775807" "unat load * unat sh < 9223372036854775808"
  shows "\<exists>r. group_load g s = Some r \<and> unat r \<le> unat load \<and> (load = 0 \<or> unat r \<le> unat sh)"
  by (rule group_load_bounded [OF assms])

definition shared_group :: kstate where
  "shared_group = two_queues\<lparr>tg_at := (\<lambda>_. zero_tg\<lparr>shares := 1048576, tg_load_avg := 3000\<rparr>)\<rparr>"

theorem group_load_within_shares_witness:
  "\<exists>r. group_load 1 shared_group = Some r \<and> unat r \<le> 900 \<and> unat r \<le> 1024"
  using group_load_within_shares [of shared_group 1 900 1024 3000]
  by (simp add: shared_group_def two_queues_def scale_load_down_def zero_cfs_def)




end
