(* ===== verification/Timeline.thy ===== *)
theory Timeline
  imports Load_Tracking "HOL-Library.Multiset"
begin

text \<open>
  The timeline of a runqueue, \<open>kernel/sched/fair.c\<close> lines 640--780: virtual times compared modulo
  \<open>2 ^ 64\<close>, the tree of the queued entities with its cached leftmost element, and the monotonic
  \<open>min_vruntime\<close>. Linking a node is the code's own search; rebalancing, erasing and the neighbours of a
  node belong to the red-black tree library and are parameters, with \<open>rb_ok\<close> as their documented
  behaviour on the sequence of nodes. Linking a node that is linked, or erasing one that is not, corrupts
  the tree and is undefined.
\<close>

section \<open>Virtual time\<close>

definition max_vruntime :: "u64 \<Rightarrow> u64 \<Rightarrow> u64" where
  "max_vruntime m v = (if sint (v - m) > 0 then v else m)"

text \<open>\<open>min_vruntime\<close>, whose name is that of a field.\<close>

definition min_of_vruntime :: "u64 \<Rightarrow> u64 \<Rightarrow> u64" where
  "min_of_vruntime m v = (if sint (v - m) < 0 then v else m)"

definition entity_before :: "sched_entity \<Rightarrow> sched_entity \<Rightarrow> bool" where
  "entity_before a b \<longleftrightarrow> sint (vruntime a - vruntime b) < 0"

definition update_min_vruntime :: "cfs_id \<Rightarrow> kstate \<Rightarrow> kstate" where
  "update_min_vruntime c s =
     (let q = cfs_at s c;
          cur = (case curr q of Some j \<Rightarrow> if on_rq (se_at s j) \<noteq> 0 then Some j else None | None \<Rightarrow> None);
          v = (case cur of Some j \<Rightarrow> vruntime (se_at s j) | None \<Rightarrow> min_vruntime q);
          v = (case rb_leftmost q of
                 None \<Rightarrow> v
               | Some l \<Rightarrow> (case cur of None \<Rightarrow> vruntime (se_at s l) | Some j \<Rightarrow> min_of_vruntime v (vruntime (se_at s l))))
      in upd_cfs c (\<lambda>q. q\<lparr>min_vruntime := max_vruntime (min_vruntime q) v\<rparr>) s)"

section \<open>The tree\<close>

text \<open>The search of \<open>__enqueue_entity\<close>, and whether it never turned right.\<close>

fun link_entity :: "(se_id \<Rightarrow> sched_entity) \<Rightarrow> se_id \<Rightarrow> se_id tree \<Rightarrow> se_id tree" where
  "link_entity E i Leaf = Node Leaf i Leaf"
| "link_entity E i (Node l x r) =
     (if entity_before (E i) (E x) then Node (link_entity E i l) x r else Node l x (link_entity E i r))"

fun link_leftmost :: "(se_id \<Rightarrow> sched_entity) \<Rightarrow> se_id \<Rightarrow> se_id tree \<Rightarrow> bool" where
  "link_leftmost E i Leaf \<longleftrightarrow> True"
| "link_leftmost E i (Node l x r) \<longleftrightarrow> entity_before (E i) (E x) \<and> link_leftmost E i l"

definition raw_enqueue_entity :: "kapi \<Rightarrow> cfs_id \<Rightarrow> se_id \<Rightarrow> kstate \<Rightarrow> kstate option" where
  "raw_enqueue_entity K c i s =
     (let t = tasks_timeline (cfs_at s c) in
      if i \<in> set_tree t then None
      else Some (upd_cfs c (\<lambda>q. q\<lparr>rb_leftmost := (if link_leftmost (se_at s) i t then Some i else rb_leftmost q),
                                  tasks_timeline := rb_insert_color K (link_entity (se_at s) i t)\<rparr>) s))"

definition raw_dequeue_entity :: "kapi \<Rightarrow> cfs_id \<Rightarrow> se_id \<Rightarrow> kstate \<Rightarrow> kstate option" where
  "raw_dequeue_entity K c i s =
     (let t = tasks_timeline (cfs_at s c) in
      if i \<notin> set_tree t then None
      else Some (upd_cfs c (\<lambda>q. q\<lparr>rb_leftmost := (if rb_leftmost q = Some i then rb_next K i t else rb_leftmost q),
                                  tasks_timeline := rb_erase K i t\<rparr>) s))"

definition pick_first_entity :: "cfs_rq \<Rightarrow> se_id option" where
  "pick_first_entity q = rb_leftmost q"

definition raw_pick_next_entity :: "kapi \<Rightarrow> cfs_rq \<Rightarrow> se_id \<Rightarrow> se_id option" where
  "raw_pick_next_entity K q i = rb_next K i (tasks_timeline q)"

definition pick_last_entity :: "kapi \<Rightarrow> cfs_rq \<Rightarrow> se_id option" where
  "pick_last_entity K q = rb_last K (tasks_timeline q)"

section \<open>The library's contract\<close>

definition rb_ok :: "kapi \<Rightarrow> bool" where
  "rb_ok K \<longleftrightarrow> (\<forall>t. inorder (rb_insert_color K t) = inorder t)
     \<and> (\<forall>i t. inorder (rb_erase K i t) = remove1 i (inorder t))
     \<and> (\<forall>i t. rb_next K i t = next_in i (inorder t)) \<and> (\<forall>t. rb_last K t = last_in (inorder t))"

lemma rb_okD:
  assumes "rb_ok K"
  shows "inorder (rb_insert_color K t) = inorder t" "inorder (rb_erase K i t) = remove1 i (inorder t)"
    "rb_next K i t = next_in i (inorder t)" "rb_last K t = last_in (inorder t)"
  using assms by (simp_all add: rb_ok_def)

lemma inorder_list_tree [simp]: "inorder (list_tree xs) = xs"
  by (induction xs) simp_all

lemma rb_ok_plain [simp]: "rb_ok plain_api"
  by (simp add: rb_ok_def plain_api_def)

section \<open>Comparing modulo \<open>2 ^ 64\<close>\<close>

text \<open>
  The comparison is an order as long as the virtual times lie within a window: \<open>vkey m v\<close> is the
  distance of \<open>v\<close> from a reference \<open>m\<close>.
\<close>

definition vkey :: "u64 \<Rightarrow> u64 \<Rightarrow> int" where
  "vkey m v = sint (v - m)"

definition near :: "u64 \<Rightarrow> u64 \<Rightarrow> bool" where
  "near m v \<longleftrightarrow> - 4611686018427387904 \<le> vkey m v \<and> vkey m v < 4611686018427387904"

lemma sint_sub_window:
  fixes x y :: "64 word"
  assumes "- 9223372036854775808 \<le> sint x - sint y" "sint x - sint y < 9223372036854775808"
  shows "sint (x - y) = sint x - sint y"
proof -
  have "sint (x - y) = signed_take_bit 63 (sint x - sint y)"
    by (simp add: sint_word_ariths)
  also have "\<dots> = sint x - sint y"
    using assms by (intro signed_take_bit_int_eq_self) simp_all
  finally show ?thesis .
qed

lemma near_diff:
  assumes "near m v" "near m w"
  shows "sint (v - w) = vkey m v - vkey m w"
proof -
  have "v - w = (v - m) - (w - m)" by simp
  then show ?thesis
    using assms sint_sub_window [of "v - m" "w - m"] by (simp add: near_def vkey_def)
qed

lemma before_iff_key:
  assumes "near m (vruntime a)" "near m (vruntime b)"
  shows "entity_before a b \<longleftrightarrow> vkey m (vruntime a) < vkey m (vruntime b)"
  using near_diff [OF assms] by (simp add: entity_before_def)

section \<open>The invariant\<close>

text \<open>
  In order, without duplicates, with the first element cached. \<open>E\<close> are the entities, \<open>m\<close> the reference.
\<close>

definition timeline_ok :: "u64 \<Rightarrow> (se_id \<Rightarrow> sched_entity) \<Rightarrow> se_id tree \<Rightarrow> se_id option \<Rightarrow> bool" where
  "timeline_ok m E t first \<longleftrightarrow> distinct (inorder t) \<and> sorted (map (\<lambda>i. vkey m (vruntime (E i))) (inorder t))
     \<and> (\<forall>i \<in> set_tree t. near m (vruntime (E i))) \<and> first = (case inorder t of [] \<Rightarrow> None | x # _ \<Rightarrow> Some x)"

text \<open>The specification of the search: after all entities that are not later.\<close>

fun insert_by :: "('a \<Rightarrow> int) \<Rightarrow> 'a \<Rightarrow> 'a list \<Rightarrow> 'a list" where
  "insert_by k i [] = [i]"
| "insert_by k i (x # xs) = (if k i < k x then i # x # xs else x # insert_by k i xs)"

lemma set_insert_by [simp]: "set (insert_by k i xs) = insert i (set xs)"
  by (induction xs) auto

lemma distinct_insert_by: "distinct xs \<Longrightarrow> i \<notin> set xs \<Longrightarrow> distinct (insert_by k i xs)"
  by (induction xs) auto

lemma sorted_insert_by: "sorted (map k xs) \<Longrightarrow> sorted (map k (insert_by k i xs))"
  by (induction xs) auto

lemma insert_by_append_less: "k i < k x \<Longrightarrow> insert_by k i (xs @ x # ys) = insert_by k i xs @ x # ys"
  by (induction xs) auto

lemma insert_by_append_ge: "\<forall>y \<in> set xs. k y \<le> k x \<Longrightarrow> \<not> k i < k x \<Longrightarrow> insert_by k i (xs @ x # ys) = xs @ x # insert_by k i ys"
  by (induction xs) auto

lemma hd_insert_by: "hd (insert_by k i xs) = (if xs = [] \<or> k i < k (hd xs) then i else hd xs)"
  by (cases xs) auto

lemma inorder_link:
  assumes "sorted (map (\<lambda>i. vkey m (vruntime (E i))) (inorder t))" "\<forall>x \<in> set_tree t. near m (vruntime (E x))" "near m (vruntime (E i))"
  shows "inorder (link_entity E i t) = insert_by (\<lambda>i. vkey m (vruntime (E i))) i (inorder t)"
  using assms(1,2)
proof (induction t)
  case (Node l x r)
  have b: "entity_before (E i) (E x) \<longleftrightarrow> vkey m (vruntime (E i)) < vkey m (vruntime (E x))"
    using Node.prems(2) assms(3) by (intro before_iff_key) auto
  have s: "sorted (map (\<lambda>i. vkey m (vruntime (E i))) (inorder l))" "sorted (map (\<lambda>i. vkey m (vruntime (E i))) (inorder r))"
    "\<forall>y \<in> set (inorder l). vkey m (vruntime (E y)) \<le> vkey m (vruntime (E x))"
    using Node.prems(1) by (auto simp: sorted_append)
  show ?case
    using Node.IH s Node.prems(2) insert_by_append_less [of "\<lambda>i. vkey m (vruntime (E i))" i x "inorder l" "inorder r"]
      insert_by_append_ge [of "inorder l" "\<lambda>i. vkey m (vruntime (E i))" x i "inorder r"] b by simp
qed simp

lemma link_leftmost_iff:
  assumes "sorted (map (\<lambda>i. vkey m (vruntime (E i))) (inorder t))" "\<forall>x \<in> set_tree t. near m (vruntime (E x))" "near m (vruntime (E i))"
  shows "link_leftmost E i t \<longleftrightarrow> (\<forall>x \<in> set_tree t. vkey m (vruntime (E i)) < vkey m (vruntime (E x)))"
  using assms(1,2)
proof (induction t)
  case (Node l x r)
  have b: "entity_before (E i) (E x) \<longleftrightarrow> vkey m (vruntime (E i)) < vkey m (vruntime (E x))"
    using Node.prems(2) assms(3) by (intro before_iff_key) auto
  have s: "sorted (map (\<lambda>i. vkey m (vruntime (E i))) (inorder l))" "\<forall>y \<in> set_tree r. vkey m (vruntime (E x)) \<le> vkey m (vruntime (E y))"
    using Node.prems(1) by (auto simp: sorted_append simp flip: set_inorder)
  show ?case using Node.IH(1) s Node.prems(2) b by (auto simp: ball_Un intro: less_le_trans)
qed simp

lemma timeline_enqueue:
  assumes K: "rb_ok K" and ok: "timeline_ok m E t f" and i: "i \<notin> set_tree t" "near m (vruntime (E i))"
  shows "timeline_ok m E (rb_insert_color K (link_entity E i t)) (if link_leftmost E i t then Some i else f)"
    and "inorder (rb_insert_color K (link_entity E i t)) = insert_by (\<lambda>i. vkey m (vruntime (E i))) i (inorder t)"
proof -
  let ?k = "\<lambda>i. vkey m (vruntime (E i))"
  have o: "distinct (inorder t)" "sorted (map ?k (inorder t))" "\<forall>x \<in> set_tree t. near m (vruntime (E x))"
    and f: "f = (case inorder t of [] \<Rightarrow> None | x # _ \<Rightarrow> Some x)"
    using ok by (simp_all add: timeline_ok_def)
  show in': "inorder (rb_insert_color K (link_entity E i t)) = insert_by ?k i (inorder t)"
    using inorder_link [OF o(2,3) i(2)] rb_okD(1) [OF K] by simp
  have st: "set_tree (rb_insert_color K (link_entity E i t)) = insert i (set_tree t)"
    using in' by (metis set_inorder set_insert_by)
  have "(if link_leftmost E i t then Some i else f) = (case insert_by ?k i (inorder t) of [] \<Rightarrow> None | x # _ \<Rightarrow> Some x)"
  proof (cases "inorder t")
    case Nil
    then have "t = Leaf" by (metis inorder.simps(2) append_is_Nil_conv list.distinct(1) tree.exhaust)
    then show ?thesis by simp
  next
    case (Cons x xs)
    have "link_leftmost E i t \<longleftrightarrow> ?k i < ?k x"
      unfolding link_leftmost_iff [OF o(2,3) i(2)] set_inorder [symmetric] using o(2) Cons by (auto intro: less_le_trans)
    then show ?thesis using Cons f by simp
  qed
  then show "timeline_ok m E (rb_insert_color K (link_entity E i t)) (if link_leftmost E i t then Some i else f)"
    using o(3) i(2) st sorted_insert_by [OF o(2), of i] distinct_insert_by [OF o(1), of i ?k] i(1)
    unfolding timeline_ok_def in' by auto
qed

lemma next_in_hd: "next_in x (x # xs) = (case xs of [] \<Rightarrow> None | y # _ \<Rightarrow> Some y)"
  by simp

lemma timeline_dequeue:
  assumes K: "rb_ok K" and ok: "timeline_ok m E t f"
  shows "timeline_ok m E (rb_erase K i t) (if f = Some i then rb_next K i t else f)"
proof -
  have o: "distinct (inorder t)" "sorted (map (\<lambda>i. vkey m (vruntime (E i))) (inorder t))" "\<forall>x \<in> set_tree t. near m (vruntime (E x))"
    and f: "f = (case inorder t of [] \<Rightarrow> None | x # _ \<Rightarrow> Some x)"
    using ok by (simp_all add: timeline_ok_def)
  have st: "set_tree (rb_erase K i t) \<subseteq> set_tree t"
    using rb_okD(2) [OF K, of i t] set_remove1_subset [of i "inorder t"] by (simp flip: set_inorder)
  have "(if f = Some i then rb_next K i t else f) = (case remove1 i (inorder t) of [] \<Rightarrow> None | x # _ \<Rightarrow> Some x)"
    unfolding f rb_okD(3) [OF K] by (cases "inorder t") (auto split: list.splits)
  then show ?thesis
    using o st rb_okD(2) [OF K, of i t] by (auto simp: timeline_ok_def distinct_remove1 sorted_map_remove1)
qed

section \<open>On the kernel state\<close>

text \<open>The invariant for a runqueue, relative to its \<open>min_vruntime\<close>.\<close>

definition queue_ok :: "cfs_id \<Rightarrow> kstate \<Rightarrow> bool" where
  "queue_ok c s \<longleftrightarrow> timeline_ok (min_vruntime (cfs_at s c)) (se_at s) (tasks_timeline (cfs_at s c)) (rb_leftmost (cfs_at s c))"

definition queued :: "cfs_id \<Rightarrow> kstate \<Rightarrow> se_id list" where
  "queued c s = inorder (tasks_timeline (cfs_at s c))"

definition late :: "cfs_id \<Rightarrow> kstate \<Rightarrow> se_id \<Rightarrow> int" where
  "late c s i = vkey (min_vruntime (cfs_at s c)) (vruntime (se_at s i))"

lemma raw_enqueue_ok:
  assumes "rb_ok K" "queue_ok c s" "i \<notin> set (queued c s)" "near (min_vruntime (cfs_at s c)) (vruntime (se_at s i))"
  shows "\<exists>s'. raw_enqueue_entity K c i s = Some s' \<and> queue_ok c s' \<and> queued c s' = insert_by (late c s) i (queued c s)"
  using assms timeline_enqueue [OF assms(1) assms(2) [unfolded queue_ok_def], of i]
  by (auto simp: raw_enqueue_entity_def queue_ok_def queued_def late_def [abs_def] upd_cfs_def Let_def)

lemma raw_dequeue_ok:
  assumes "rb_ok K" "queue_ok c s" "i \<in> set (queued c s)"
  shows "\<exists>s'. raw_dequeue_entity K c i s = Some s' \<and> queue_ok c s' \<and> queued c s' = remove1 i (queued c s)"
  using assms timeline_dequeue [OF assms(1) assms(2) [unfolded queue_ok_def], of i]
  by (auto simp: raw_dequeue_entity_def queue_ok_def queued_def upd_cfs_def Let_def rb_okD(2))

lemma first_is_earliest:
  assumes ok: "queue_ok c s" and f: "pick_first_entity (cfs_at s c) = Some f"
  shows "f \<in> set (queued c s)" "\<forall>i \<in> set (queued c s). \<not> entity_before (se_at s i) (se_at s f)"
proof -
  note o = ok [unfolded queue_ok_def timeline_ok_def]
  obtain xs where q: "inorder (tasks_timeline (cfs_at s c)) = f # xs"
    using o f by (cases "inorder (tasks_timeline (cfs_at s c))") (auto simp: pick_first_entity_def)
  then show "f \<in> set (queued c s)" by (simp add: queued_def)
  show "\<forall>i \<in> set (queued c s). \<not> entity_before (se_at s i) (se_at s f)"
  proof
    fix i assume i: "i \<in> set (queued c s)"
    have n: "near (min_vruntime (cfs_at s c)) (vruntime (se_at s i))" "near (min_vruntime (cfs_at s c)) (vruntime (se_at s f))"
      using o i q by (auto simp: queued_def simp flip: set_inorder)
    have "vkey (min_vruntime (cfs_at s c)) (vruntime (se_at s f)) \<le> vkey (min_vruntime (cfs_at s c)) (vruntime (se_at s i))"
      using o i q by (auto simp: queued_def)
    then show "\<not> entity_before (se_at s i) (se_at s f)" by (simp add: before_iff_key [OF n])
  qed
qed

lemma first_none_iff: "queue_ok c s \<Longrightarrow> pick_first_entity (cfs_at s c) = None \<longleftrightarrow> queued c s = []"
  by (auto simp: queue_ok_def timeline_ok_def pick_first_entity_def queued_def split: list.splits)

section \<open>The monotonic clock\<close>

definition running_entity :: "cfs_id \<Rightarrow> kstate \<Rightarrow> se_id option" where
  "running_entity c s = (case curr (cfs_at s c) of Some j \<Rightarrow> if on_rq (se_at s j) \<noteq> 0 then Some j else None | None \<Rightarrow> None)"

lemma vkey_max: "vkey m (max_vruntime m v) = max 0 (vkey m v)"
  by (auto simp: vkey_def max_vruntime_def)

lemma vkey_min: "near m v \<Longrightarrow> near m w \<Longrightarrow> vkey m (min_of_vruntime v w) = min (vkey m v) (vkey m w)"
  using near_diff [of m w v] by (auto simp: min_of_vruntime_def)

text \<open>Everyone whose time counts: the queued entities and the running one.\<close>

definition competitors :: "cfs_id \<Rightarrow> kstate \<Rightarrow> se_id set" where
  "competitors c s = set (queued c s) \<union> set_option (running_entity c s)"

lemma leftmost_late:
  assumes ok: "queue_ok c s"
  shows "rb_leftmost (cfs_at s c) = None \<longleftrightarrow> queued c s = []"
    "rb_leftmost (cfs_at s c) = Some l \<Longrightarrow> l \<in> set (queued c s) \<and> (\<forall>i \<in> set (queued c s). late c s l \<le> late c s i)"
proof -
  have o: "sorted (map (late c s) (queued c s))" and f: "rb_leftmost (cfs_at s c) = (case queued c s of [] \<Rightarrow> None | x # _ \<Rightarrow> Some x)"
    using ok by (simp_all add: queue_ok_def timeline_ok_def queued_def late_def [abs_def])
  show "rb_leftmost (cfs_at s c) = None \<longleftrightarrow> queued c s = []"
    "rb_leftmost (cfs_at s c) = Some l \<Longrightarrow> l \<in> set (queued c s) \<and> (\<forall>i \<in> set (queued c s). late c s l \<le> late c s i)"
    using o f by (cases "queued c s"; simp)+
qed

lemma update_min_vruntime_value:
  assumes ok: "queue_ok c s" and near: "\<forall>i \<in> competitors c s. near (min_vruntime (cfs_at s c)) (vruntime (se_at s i))"
  shows "vkey (min_vruntime (cfs_at s c)) (min_vruntime (cfs_at (update_min_vruntime c s) c))
    = (if competitors c s = {} then 0 else max 0 (Min (late c s ` competitors c s)))"
proof -
  let ?q = "cfs_at s c" and ?m = "min_vruntime (cfs_at s c)"
  have upd: "min_vruntime (cfs_at (update_min_vruntime c s) c) = max_vruntime ?m
      (case rb_leftmost ?q of
         None \<Rightarrow> (case running_entity c s of Some j \<Rightarrow> vruntime (se_at s j) | None \<Rightarrow> ?m)
       | Some l \<Rightarrow> (case running_entity c s of None \<Rightarrow> vruntime (se_at s l)
                   | Some j \<Rightarrow> min_of_vruntime (vruntime (se_at s j)) (vruntime (se_at s l))))"
    by (simp add: update_min_vruntime_def running_entity_def upd_cfs_def Let_def split: option.split)
  show ?thesis
  proof (cases "rb_leftmost ?q")
    case None
    then have q: "queued c s = []" using leftmost_late(1) [OF ok] by simp
    show ?thesis
    proof (cases "running_entity c s")
      case (Some j)
      then have "competitors c s = {j}" by (simp add: competitors_def q)
      then show ?thesis unfolding upd vkey_max by (simp add: None Some late_def)
    qed (simp add: upd vkey_max None q competitors_def, simp add: vkey_def)
  next
    case (Some l)
    have l: "l \<in> set (queued c s)" "\<forall>i \<in> set (queued c s). late c s l \<le> late c s i"
      using leftmost_late(2) [OF ok Some] by simp_all
    have fin: "finite (late c s ` set (queued c s))" by simp
    have Ml: "Min (late c s ` set (queued c s)) = late c s l" using l by (intro Min_eqI) auto
    show ?thesis
    proof (cases "running_entity c s")
      case None
      then have "competitors c s = set (queued c s)" by (simp add: competitors_def)
      then show ?thesis unfolding upd vkey_max using Ml l(1) by (auto simp: Some None late_def)
    next
      case r: (Some j)
      then have co: "competitors c s = insert j (set (queued c s))" by (auto simp: competitors_def)
      then have "Min (late c s ` competitors c s) = min (late c s j) (late c s l)"
        using Ml l(1) Min_insert [OF fin, of "late c s j"] co by fastforce
      moreover have "vkey ?m (min_of_vruntime (vruntime (se_at s j)) (vruntime (se_at s l))) = min (late c s j) (late c s l)"
        using vkey_min near co l(1) by (simp add: late_def)
      ultimately show ?thesis unfolding upd vkey_max using co by (simp add: Some r)
    qed
  qed
qed

section \<open>Queueing is stable sorting\<close>

lemma filter_insert_by:
  assumes "sorted (map k xs)"
  shows "filter (\<lambda>y. k y = v) (insert_by k i xs) = filter (\<lambda>y. k y = v) xs @ (if k i = v then [i] else [])"
  using assms
proof (induction xs)
  case (Cons x xs)
  have "k i < k x \<Longrightarrow> k i = v \<Longrightarrow> filter (\<lambda>y. k y = v) (x # xs) = []"
    using Cons.prems by (auto simp: filter_empty_conv)
  then show ?case using Cons by auto
qed simp

lemma mset_insert_by: "mset (insert_by k i xs) = add_mset i (mset xs)"
  by (induction xs) auto

lemma fold_insert_by:
  assumes "sorted (map k ys)"
  shows "sorted (map k (fold (insert_by k) xs ys)) \<and> mset (fold (insert_by k) xs ys) = mset xs + mset ys
    \<and> filter (\<lambda>y. k y = v) (fold (insert_by k) xs ys) = filter (\<lambda>y. k y = v) ys @ filter (\<lambda>y. k y = v) xs"
  using assms
  by (induction xs arbitrary: ys) (auto simp: sorted_insert_by filter_insert_by mset_insert_by)

lemma fold_insert_sort: "fold (insert_by k) xs [] = sort_key k xs"
proof (rule properties_for_sort_key [symmetric])
  note f = fold_insert_by [of k "[]" xs, simplified]
  show "mset (fold (insert_by k) xs []) = mset xs" "sorted (map k (fold (insert_by k) xs []))" using f by simp_all
  fix x assume "x \<in> set (fold (insert_by k) xs [])"
  have e: "(\<lambda>y. k x = k y) = (\<lambda>y. k y = k x)" by auto
  show "filter (\<lambda>y. k x = k y) (fold (insert_by k) xs []) = filter (\<lambda>y. k x = k y) xs" unfolding e using f by simp
qed

lemma raw_enqueue_frame:
  assumes "raw_enqueue_entity K c i s = Some s'"
  shows "se_at s' = se_at s" "min_vruntime (cfs_at s' c) = min_vruntime (cfs_at s c)"
  using assms by (auto simp: raw_enqueue_entity_def upd_cfs_def Let_def split: if_splits)

text \<open>Queueing one entity after the other.\<close>

fun enqueue_all :: "kapi \<Rightarrow> cfs_id \<Rightarrow> se_id list \<Rightarrow> kstate \<Rightarrow> kstate option" where
  "enqueue_all K c [] s = Some s"
| "enqueue_all K c (i # is) s = do { s \<leftarrow> raw_enqueue_entity K c i s; enqueue_all K c is s }"

lemma enqueue_all_ok:
  assumes "rb_ok K" "queue_ok c s" "distinct is" "set is \<inter> set (queued c s) = {}"
    and "\<forall>i \<in> set is. near (min_vruntime (cfs_at s c)) (vruntime (se_at s i))"
  shows "\<exists>s'. enqueue_all K c is s = Some s' \<and> queue_ok c s' \<and> queued c s' = fold (insert_by (late c s)) is (queued c s)"
  using assms(2-)
proof (induction "is" arbitrary: s)
  case (Cons i js)
  obtain s1 where s1: "raw_enqueue_entity K c i s = Some s1" "queue_ok c s1" "queued c s1 = insert_by (late c s) i (queued c s)"
    using raw_enqueue_ok [OF assms(1) Cons.prems(1), of i] Cons.prems(3,4) by auto
  note f = raw_enqueue_frame [OF s1(1)]
  have l: "late c s1 = late c s" by (simp add: late_def [abs_def] f)
  obtain s2 where "enqueue_all K c js s1 = Some s2" "queue_ok c s2" "queued c s2 = fold (insert_by (late c s1)) js (queued c s1)"
    using Cons.IH [OF s1(2)] Cons.prems(2-4) by (auto simp: s1(3) f)
  then show ?case using s1 l by auto
qed simp

section \<open>Properties\<close>

text \<open>C36: The timeline is a stable priority queue: queueing the entities one after the other in an empty tree
  orders them by virtual time, in order of arrival where it is equal (whatever the rebalancing does),
  the cached leftmost element is the first of them, and the comparison modulo \<open>2 ^ 64\<close> is exact as long
  as all virtual times are within \<open>2 ^ 62\<close> of \<open>min_vruntime\<close>.\<close>

theorem timeline_sorts:
  assumes "rb_ok K" "tasks_timeline (cfs_at s c) = Leaf" "rb_leftmost (cfs_at s c) = None" "distinct is"
    and "\<forall>i \<in> set is. near (min_vruntime (cfs_at s c)) (vruntime (se_at s i))"
  shows "\<exists>s'. enqueue_all K c is s = Some s' \<and> inorder (tasks_timeline (cfs_at s' c)) = sort_key (late c s) is
    \<and> pick_first_entity (cfs_at s' c) = (case sort_key (late c s) is of [] \<Rightarrow> None | i # _ \<Rightarrow> Some i)"
proof -
  have "queue_ok c s" "queued c s = []"
    using assms(2,3) by (simp_all add: queue_ok_def timeline_ok_def queued_def)
  then obtain s' where s': "enqueue_all K c is s = Some s'" "queue_ok c s'" "queued c s' = sort_key (late c s) is"
    using enqueue_all_ok [OF assms(1) _ assms(4), of c s] assms(5) by (auto simp: fold_insert_sort)
  then show ?thesis
    by (auto simp: queue_ok_def timeline_ok_def pick_first_entity_def queued_def)
qed

definition three_tasks :: kstate where
  "three_tasks = zero_state\<lparr>se_at := (\<lambda>i. zero_se\<lparr>vruntime := (if i = 1 then 30 else if i = 2 then - 10 else 30)\<rparr>)\<rparr>"

theorem timeline_sorts_witness:
  "\<exists>s'. enqueue_all plain_api 0 [1, 2, 3] three_tasks = Some s' \<and> inorder (tasks_timeline (cfs_at s' 0)) = [2, 1, 3]
     \<and> pick_first_entity (cfs_at s' 0) = Some 2"
proof -
  have z: "tasks_timeline (cfs_at three_tasks 0) = Leaf" "rb_leftmost (cfs_at three_tasks 0) = None" "min_vruntime (cfs_at three_tasks 0) = 0"
    by (simp_all add: three_tasks_def zero_state_def zero_cfs_def)
  have v: "vruntime (se_at three_tasks 1) = 30" "vruntime (se_at three_tasks 2) = - 10" "vruntime (se_at three_tasks 3) = 30"
    by (simp_all add: three_tasks_def zero_se_def)
  have l: "late 0 three_tasks 1 = 30" "late 0 three_tasks 2 = - 10" "late 0 three_tasks 3 = 30"
    by (simp_all add: late_def vkey_def z v del: One_nat_def)
  then have n: "\<forall>i \<in> set [1, 2, 3]. near (min_vruntime (cfs_at three_tasks 0)) (vruntime (se_at three_tasks i))"
    by (simp add: near_def late_def)
  have "sort_key (late 0 three_tasks) [1, 2, 3] = [2, 1, 3]" by (simp add: l del: One_nat_def)
  then show ?thesis
    using timeline_sorts [OF rb_ok_plain z(1,2) _ n] by simp
qed

text \<open>C37: Taking an entity out keeps the others in order and the cache right, also when the leftmost entity is
  taken; and the entity picked first is one that no queued entity should run before.\<close>

theorem timeline_dequeue_pick:
  assumes "rb_ok K" "queue_ok c s" "i \<in> set (queued c s)"
  shows "\<exists>s'. raw_dequeue_entity K c i s = Some s' \<and> queue_ok c s' \<and> queued c s' = remove1 i (queued c s)
    \<and> (\<forall>f. pick_first_entity (cfs_at s' c) = Some f \<longrightarrow>
          f \<in> set (queued c s') \<and> (\<forall>j \<in> set (queued c s'). \<not> entity_before (se_at s' j) (se_at s' f)))
    \<and> (pick_first_entity (cfs_at s' c) = None \<longleftrightarrow> queued c s = [i])"
proof -
  obtain s' where s': "raw_dequeue_entity K c i s = Some s'" "queue_ok c s'" "queued c s' = remove1 i (queued c s)"
    using raw_dequeue_ok [OF assms] by blast
  have "queued c s' = [] \<longleftrightarrow> queued c s = [i]"
    using assms(3) s'(3) by (cases "queued c s") (auto split: if_splits)
  then show ?thesis
    using s' first_is_earliest [OF s'(2)] first_none_iff [OF s'(2)] by (intro exI [of _ s']) simp
qed

theorem timeline_dequeue_pick_witness:
  "\<exists>s s'. queued 0 s = [2] \<and> raw_dequeue_entity plain_api 0 2 s = Some s' \<and> queued 0 s' = []"
proof -
  let ?s = "upd_cfs 0 (\<lambda>q. q\<lparr>tasks_timeline := Node Leaf 2 Leaf, rb_leftmost := Some 2\<rparr>) three_tasks"
  have q: "queued 0 ?s = [2]" by (simp add: queued_def upd_cfs_def)
  have ok: "queue_ok 0 ?s"
    by (simp add: queue_ok_def timeline_ok_def near_def vkey_def upd_cfs_def three_tasks_def zero_state_def zero_cfs_def zero_se_def)
  show ?thesis using timeline_dequeue_pick [OF rb_ok_plain ok, of 2] q by auto
qed

text \<open>\<open>min_vruntime\<close> follows the smallest virtual time among the queued and the running entities, and never
  goes back.\<close>

theorem min_vruntime_follows:
  assumes "queue_ok c s" "\<forall>i \<in> competitors c s. near (min_vruntime (cfs_at s c)) (vruntime (se_at s i))"
  shows "vkey (min_vruntime (cfs_at s c)) (min_vruntime (cfs_at (update_min_vruntime c s) c))
    = (if competitors c s = {} then 0 else max 0 (Min (late c s ` competitors c s)))"
  by (rule update_min_vruntime_value [OF assms])

theorem min_vruntime_follows_witness:
  "vkey 0 (min_vruntime (cfs_at (update_min_vruntime 0 (upd_cfs 0 (\<lambda>q. q\<lparr>tasks_timeline := Node Leaf 3 Leaf, rb_leftmost := Some 3\<rparr>) three_tasks)) 0)) = 30"
proof -
  let ?s = "upd_cfs 0 (\<lambda>q. q\<lparr>tasks_timeline := Node Leaf 3 Leaf, rb_leftmost := Some 3\<rparr>) three_tasks"
  have v: "min_vruntime (cfs_at ?s 0) = 0" "queued 0 ?s = [3]" "running_entity 0 ?s = None" "vruntime (se_at ?s 3) = 30"
    by (simp_all add: queued_def running_entity_def upd_cfs_def three_tasks_def zero_state_def zero_cfs_def)
  then have co: "competitors 0 ?s = {3}" "late 0 ?s 3 = 30" by (simp_all add: competitors_def late_def vkey_def)
  have ok: "queue_ok 0 ?s"
    by (simp add: queue_ok_def timeline_ok_def near_def vkey_def upd_cfs_def three_tasks_def zero_state_def zero_cfs_def zero_se_def)
  have "\<forall>i \<in> competitors 0 ?s. near (min_vruntime (cfs_at ?s 0)) (vruntime (se_at ?s i))"
    by (simp add: co v near_def vkey_def)
  from min_vruntime_follows [OF ok this] show ?thesis by (simp add: co v(1))
qed

end
