(* ===== verification/Leaf_List.thy ===== *)
theory Leaf_List
  imports Timeline
begin

text \<open>
  The list of a cpu's runqueues that have entities, \<open>kernel/sched/fair.c\<close> lines 457--525, on which the
  code relies to meet every runqueue before its parent, and the search of two entities for ancestors in
  one runqueue (lines 531--576).
\<close>

section \<open>The list\<close>

fun insert_before :: "'a \<Rightarrow> 'a \<Rightarrow> 'a list \<Rightarrow> 'a list" where
  "insert_before p x [] = [x]"
| "insert_before p x (y # ys) = (if y = p then x # y # ys else y # insert_before p x ys)"

fun insert_after :: "'a \<Rightarrow> 'a \<Rightarrow> 'a list \<Rightarrow> 'a list" where
  "insert_after p x [] = [x]"
| "insert_after p x (y # ys) = (if y = p then y # x # ys else y # insert_after p x ys)"

text \<open>The runqueue of the parent group on the same cpu.\<close>

definition parent_cfs :: "kstate \<Rightarrow> cfs_id \<Rightarrow> cfs_id option" where
  "parent_cfs s c = (case tg_parent (tg_at s (cfs_tg (cfs_at s c))) of
     None \<Rightarrow> None | Some g \<Rightarrow> Some (tg_cfs_rq (tg_at s g) (rq_cpu (cfs_at s c))))"

text \<open>
  \<open>tmp_alone_branch\<close> is \<open>None\<close> when it points to the head of the list. Linking next to an element that is
  not on the list is undefined.
\<close>

definition list_add_leaf_cfs_rq :: "cfs_id \<Rightarrow> kstate \<Rightarrow> kstate option" where
  "list_add_leaf_cfs_rq c s =
     (if on_list (cfs_at s c) then Some s
      else let cpu = rq_cpu (cfs_at s c); r = rq_at s cpu; L = leaf_cfs_rq_list r in do {
        (L, tmp) \<leftarrow>
          (case parent_cfs s c of
             Some p \<Rightarrow>
               if on_list (cfs_at s p)
               then (if p \<in> set L then Some (insert_before p c L, None) else None)
               else (case tmp_alone_branch r of
                       None \<Rightarrow> Some (c # L, Some c)
                     | Some b \<Rightarrow> if b \<in> set L then Some (insert_after b c L, Some c) else None)
           | None \<Rightarrow> Some (L @ [c], None));
        Some (upd_cfs c (\<lambda>q. q\<lparr>on_list := True\<rparr>)
          (upd_rq cpu (\<lambda>r. r\<lparr>leaf_cfs_rq_list := L, tmp_alone_branch := tmp\<rparr>) s))
      })"

definition list_del_leaf_cfs_rq :: "cfs_id \<Rightarrow> kstate \<Rightarrow> kstate" where
  "list_del_leaf_cfs_rq c s =
     (if on_list (cfs_at s c)
      then upd_cfs c (\<lambda>q. q\<lparr>on_list := False\<rparr>)
             (upd_rq (rq_cpu (cfs_at s c)) (\<lambda>r. r\<lparr>leaf_cfs_rq_list := remove1 c (leaf_cfs_rq_list r)\<rparr>) s)
      else s)"

section \<open>Siblings\<close>

definition is_same_group :: "sched_entity \<Rightarrow> sched_entity \<Rightarrow> cfs_id option" where
  "is_same_group a b = (if se_cfs_rq a = se_cfs_rq b then Some (se_cfs_rq a) else None)"

text \<open>The loops that equalise the depths; following a missing parent is undefined.\<close>

fun climb :: "nat \<Rightarrow> kstate \<Rightarrow> se_id \<Rightarrow> se_id option" where
  "climb 0 s i = Some i"
| "climb (Suc n) s i = (case parent (se_at s i) of None \<Rightarrow> None | Some j \<Rightarrow> climb n s j)"

text \<open>The last loop, with fuel.\<close>

fun climb_both :: "nat \<Rightarrow> kstate \<Rightarrow> se_id \<Rightarrow> se_id \<Rightarrow> (se_id \<times> se_id) option" where
  "climb_both n s i j =
     (if is_same_group (se_at s i) (se_at s j) \<noteq> None then Some (i, j)
      else (case n of
              0 \<Rightarrow> None
            | Suc m \<Rightarrow>
                (case (parent (se_at s i), parent (se_at s j)) of
                   (Some i', Some j') \<Rightarrow> climb_both m s i' j'
                 | _ \<Rightarrow> None)))"

declare climb_both.simps [simp del]

definition find_matching_se :: "nat \<Rightarrow> kstate \<Rightarrow> se_id \<Rightarrow> se_id \<Rightarrow> (se_id \<times> se_id) option" where
  "find_matching_se n s i j =
     (let di = depth (se_at s i); dj = depth (se_at s j) in do {
        i \<leftarrow> climb (nat (di - dj)) s i;
        j \<leftarrow> climb (nat (dj - di)) s j;
        climb_both n s i j
      })"

section \<open>The order of the list\<close>

text \<open>Every element's parent follows it.\<close>

fun closed_list :: "('a \<Rightarrow> 'a option) \<Rightarrow> 'a list \<Rightarrow> bool" where
  "closed_list P [] \<longleftrightarrow> True"
| "closed_list P (c # cs) \<longleftrightarrow> closed_list P cs \<and> (case P c of None \<Rightarrow> True | Some p \<Rightarrow> p \<in> set cs)"

text \<open>Each element's parent is the next one.\<close>

fun chain :: "('a \<Rightarrow> 'a option) \<Rightarrow> 'a list \<Rightarrow> bool" where
  "chain P (a # b # cs) \<longleftrightarrow> P a = Some b \<and> chain P (b # cs)"
| "chain P _ \<longleftrightarrow> True"

lemma closed_append: "closed_list P (xs @ ys) \<Longrightarrow> closed_list P ys"
  by (induction xs) auto

lemma closed_tail: "closed_list P xs \<Longrightarrow> closed_list P (xs @ [c]) \<longleftrightarrow> P c = None"
  by (induction xs) (auto split: option.splits)

lemma set_insert_before [simp]: "set (insert_before p x xs) = insert x (set xs)"
  by (induction xs) auto

lemma set_insert_after [simp]: "set (insert_after p x xs) = insert x (set xs)"
  by (induction xs) auto

lemma distinct_insert_before: "distinct xs \<Longrightarrow> x \<notin> set xs \<Longrightarrow> distinct (insert_before p x xs)"
  by (induction xs) auto

lemma insert_before_append: "p \<notin> set xs \<Longrightarrow> insert_before p x (xs @ ys) = xs @ insert_before p x ys"
  by (induction xs) auto

lemma insert_after_last: "distinct (xs @ ys) \<Longrightarrow> xs \<noteq> [] \<Longrightarrow> insert_after (last xs) x (xs @ ys) = xs @ x # ys"
proof (induction xs)
  case (Cons a xs)
  have "a \<noteq> last xs" if "xs \<noteq> []" using Cons.prems(1) last_in_set [OF that] by auto
  then show ?case using Cons by (cases xs) auto
qed simp

lemma closed_insert_before:
  assumes "closed_list P xs" "p \<in> set xs" "P c = Some p"
  shows "closed_list P (insert_before p c xs)"
  using assms by (induction xs) (auto split: option.splits)

lemma closed_chain:
  assumes "chain P (bs @ [b])" "closed_list P rest" "P b = Some c" "c \<in> set rest"
  shows "closed_list P (bs @ b # rest)"
  using assms(1)
proof (induction bs)
  case Nil
  then show ?case using assms by simp
next
  case (Cons a bs)
  then show ?case by (cases bs) auto
qed

lemma chain_snoc: "chain P (bs @ [b]) \<Longrightarrow> P b = Some c \<Longrightarrow> chain P (bs @ [b, c])"
proof (induction bs)
  case (Cons a bs)
  then show ?case by (cases bs) auto
qed simp

lemma chain_levels:
  assumes "chain P (bs @ [b])" "\<forall>x y. P x = Some y \<longrightarrow> lev y < (lev x :: nat)"
  shows "\<forall>x \<in> set (bs @ [b]). lev b \<le> lev x"
  using assms(1)
proof (induction bs)
  case (Cons a bs)
  obtain y where y: "P a = Some y" "y \<in> set (bs @ [b])" "chain P (bs @ [b])"
    using Cons.prems by (cases bs) auto
  have "lev b \<le> lev y" "lev y < lev a" using Cons.IH y assms(2) by blast+
  then show ?case using Cons.IH y(3) by auto
qed simp

section \<open>The invariant\<close>

text \<open>
  The list starts with the branch that is being added bottom-up and not yet connected, up to
  \<open>tmp_alone_branch\<close>; the rest is closed under parents, which come later. \<open>P\<close> is \<open>parent_cfs\<close>.
\<close>

definition leaf_list_ok :: "(cfs_id \<Rightarrow> cfs_id option) \<Rightarrow> cfs_id list \<Rightarrow> cfs_id list \<Rightarrow> cfs_id option \<Rightarrow> bool" where
  "leaf_list_ok P branch L tmp \<longleftrightarrow> distinct L \<and> (\<exists>rest. L = branch @ rest \<and> closed_list P rest) \<and> chain P branch
     \<and> tmp = last_in branch \<and> (branch \<noteq> [] \<longrightarrow> (\<exists>p. P (last branch) = Some p \<and> p \<notin> set L))"

definition leaf_ok :: "cpu \<Rightarrow> cfs_id list \<Rightarrow> kstate \<Rightarrow> bool" where
  "leaf_ok u branch s \<longleftrightarrow> leaf_list_ok (parent_cfs s) branch (leaf_cfs_rq_list (rq_at s u)) (tmp_alone_branch (rq_at s u))
     \<and> (\<forall>c. rq_cpu (cfs_at s c) = u \<longrightarrow> on_list (cfs_at s c) = (c \<in> set (leaf_cfs_rq_list (rq_at s u))))"

text \<open>The groups form a tree, and a group's runqueues of a cpu stay on that cpu.\<close>

definition groups_ok :: "(cfs_id \<Rightarrow> nat) \<Rightarrow> kstate \<Rightarrow> bool" where
  "groups_ok lev s \<longleftrightarrow> (\<forall>c p. parent_cfs s c = Some p \<longrightarrow> lev p < lev c \<and> rq_cpu (cfs_at s p) = rq_cpu (cfs_at s c))"

lemma branch_add:
  assumes ok: "leaf_list_ok P branch L tmp" and lev: "\<forall>x y. P x = Some y \<longrightarrow> lev y < (lev x :: nat)" and c: "c \<notin> set L"
    and up: "branch \<noteq> [] \<longrightarrow> P (last branch) = Some c"
  shows "P c = None \<Longrightarrow> leaf_list_ok P [] (L @ [c]) None"
    and "P c = Some p \<Longrightarrow> p \<in> set L \<Longrightarrow> leaf_list_ok P [] (insert_before p c L) None"
    and "P c = Some p \<Longrightarrow> p \<notin> set L \<Longrightarrow> branch = [] \<Longrightarrow> leaf_list_ok P [c] (c # L) (Some c)"
    and "P c = Some p \<Longrightarrow> p \<notin> set L \<Longrightarrow> branch \<noteq> [] \<Longrightarrow> leaf_list_ok P (branch @ [c]) (insert_after (last branch) c L) (Some c)"
proof -
  obtain rest where L: "L = branch @ rest" and cl: "closed_list P rest" and d: "distinct L" and ch: "chain P branch"
    using ok by (auto simp: leaf_list_ok_def)
  have join: "closed_list P (branch @ r)" if "closed_list P r" "c \<in> set r" for r
  proof (cases "branch = []")
    case False
    then obtain bs b where b: "branch = bs @ [b]" using rev_exhaust by blast
    then show ?thesis using closed_chain [of P bs b r c] ch up that by simp
  qed (use that in simp)
  show "leaf_list_ok P [] (L @ [c]) None" if n: "P c = None"
    using join [of "rest @ [c]"] closed_tail [OF cl] n d c by (simp add: leaf_list_ok_def last_in_def L)
  show "leaf_list_ok P [] (insert_before p c L) None" if p: "P c = Some p" "p \<in> set L"
  proof -
    have nb: "p \<notin> set branch"
    proof
      assume pb: "p \<in> set branch"
      then obtain bs b where b: "branch = bs @ [b]" using rev_exhaust [of branch] by force
      have "lev b \<le> lev p" using chain_levels [of P bs b lev] ch lev pb by (auto simp: b)
      moreover have "lev c < lev b" "lev p < lev c" using up lev p(1) by (simp_all add: b)
      ultimately show False by simp
    qed
    have i: "insert_before p c L = branch @ insert_before p c rest" unfolding L by (rule insert_before_append [OF nb])
    have "closed_list P (insert_before p c rest)" using closed_insert_before [OF cl _ p(1)] p(2) nb L by simp
    then show ?thesis using join [of "insert_before p c rest"] distinct_insert_before [OF d c, of p, unfolded i] by (simp add: leaf_list_ok_def last_in_def i)
  qed
  show "leaf_list_ok P [c] (c # L) (Some c)" if p: "P c = Some p" "p \<notin> set L" "branch = []"
  proof -
    have "p \<noteq> c" using lev p(1) by auto
    then show ?thesis using p d c cl L by (simp add: leaf_list_ok_def last_in_def)
  qed
  show "leaf_list_ok P (branch @ [c]) (insert_after (last branch) c L) (Some c)" if p: "P c = Some p" "p \<notin> set L" "branch \<noteq> []"
  proof -
    have pc: "p \<noteq> c" using lev p(1) by auto
    obtain bs b where b: "branch = bs @ [b]" using p(3) rev_exhaust by blast
    have i: "insert_after (last branch) c L = (branch @ [c]) @ rest"
      using insert_after_last [of branch rest c] d L p(3) by simp
    have "chain P (branch @ [c])" using chain_snoc [of P bs b c] ch up by (simp add: b)
    then show ?thesis unfolding leaf_list_ok_def i using d c cl p pc L by (auto simp: last_in_def)
  qed
qed

lemma leaf_add:
  assumes ok: "leaf_ok u branch s" and g: "groups_ok lev s" and u: "rq_cpu (cfs_at s c) = u" and off: "\<not> on_list (cfs_at s c)"
    and up: "branch \<noteq> [] \<longrightarrow> parent_cfs s (last branch) = Some c"
  shows "\<exists>s'. list_add_leaf_cfs_rq c s = Some s' \<and> parent_cfs s' = parent_cfs s \<and> groups_ok lev s'
    \<and> leaf_ok u (if (case parent_cfs s c of None \<Rightarrow> True | Some p \<Rightarrow> on_list (cfs_at s p)) then [] else branch @ [c]) s'
    \<and> set (leaf_cfs_rq_list (rq_at s' u)) = insert c (set (leaf_cfs_rq_list (rq_at s u)))"
proof -
  let ?P = "parent_cfs s" and ?L = "leaf_cfs_rq_list (rq_at s u)" and ?t = "tmp_alone_branch (rq_at s u)"
  have lo: "leaf_list_ok ?P branch ?L ?t" and on: "\<And>d. rq_cpu (cfs_at s d) = u \<Longrightarrow> on_list (cfs_at s d) = (d \<in> set ?L)"
    using ok by (simp_all add: leaf_ok_def)
  have lev: "\<forall>x y. ?P x = Some y \<longrightarrow> lev y < lev x" using g by (simp add: groups_ok_def)
  have c: "c \<notin> set ?L" using on [OF u] off by simp
  have po: "on_list (cfs_at s p) = (p \<in> set ?L)" if "?P c = Some p" for p
    using that g u on by (simp add: groups_ok_def)
  note add = branch_add [OF lo lev c up]
  have tmp: "?t = last_in branch" "branch \<noteq> [] \<Longrightarrow> last branch \<in> set ?L"
    using lo by (auto simp: leaf_list_ok_def)
  define upd where "upd L t = upd_cfs c (\<lambda>q. q\<lparr>on_list := True\<rparr>) (upd_rq u (\<lambda>r. r\<lparr>leaf_cfs_rq_list := L, tmp_alone_branch := t\<rparr>) s)" for L t
  have par: "parent_cfs (upd L t) = ?P" for L t
    by (rule ext) (simp add: parent_cfs_def upd_def upd_cfs_def upd_rq_def split: option.split)
  have cu: "rq_cpu (cfs_at (upd L t) d) = rq_cpu (cfs_at s d)" "on_list (cfs_at (upd L t) d) = (d = c \<or> on_list (cfs_at s d))"
    "leaf_cfs_rq_list (rq_at (upd L t) u) = L" "tmp_alone_branch (rq_at (upd L t) u) = t" for L t d
    by (simp_all add: upd_def upd_cfs_def upd_rq_def)
  have gr: "groups_ok lev (upd L t)" for L t
    using g unfolding groups_ok_def par cu .
  have lk: "leaf_ok u b (upd L t)" if "leaf_list_ok ?P b L t" "set L = insert c (set ?L)" for b L t
    unfolding leaf_ok_def par cu using that by (simp add: on)
  have eq: "list_add_leaf_cfs_rq c s = do {
      (L, t) \<leftarrow> (case ?P c of
             Some p \<Rightarrow>
               if on_list (cfs_at s p)
               then (if p \<in> set ?L then Some (insert_before p c ?L, None) else None)
               else (case ?t of None \<Rightarrow> Some (c # ?L, Some c)
                     | Some b \<Rightarrow> if b \<in> set ?L then Some (insert_after b c ?L, Some c) else None)
           | None \<Rightarrow> Some (?L @ [c], None));
      Some (upd L t) }"
    using off u by (simp add: list_add_leaf_cfs_rq_def upd_def Let_def)
  note fin = cu(3)
  show ?thesis
  proof (cases "?P c")
    case None
    then show ?thesis using eq lk [OF add(1)] par gr fin by simp
  next
    case (Some p)
    show ?thesis
    proof (cases "p \<in> set ?L")
      case True
      then show ?thesis using eq lk [OF add(2) [OF Some]] par gr fin po [OF Some] Some by simp
    next
      case False
      then show ?thesis
        using eq lk [OF add(3) [OF Some]] lk [OF add(4) [OF Some]] par gr fin po [OF Some] Some tmp
        by (cases "branch = []") (simp_all add: last_in_def)
    qed
  qed
qed

lemma closed_order:
  assumes "closed_list P xs" "distinct xs" "xs = ys @ c # zs" "P c = Some p"
  shows "p \<in> set zs \<and> p \<notin> set ys"
proof -
  have "closed_list P (c # zs)" using closed_append [of P ys "c # zs"] assms(1,3) by simp
  then show ?thesis using assms by auto
qed

section \<open>Matching ancestors\<close>

text \<open>The hierarchy of a cpu: depths count the parents, and the top entities are queued in one runqueue.\<close>

definition hierarchy_ok :: "cfs_id \<Rightarrow> kstate \<Rightarrow> bool" where
  "hierarchy_ok root s \<longleftrightarrow> (\<forall>i. 0 \<le> depth (se_at s i)
     \<and> (case parent (se_at s i) of
          None \<Rightarrow> depth (se_at s i) = 0 \<and> se_cfs_rq (se_at s i) = root
        | Some j \<Rightarrow> depth (se_at s i) = depth (se_at s j) + 1))"

lemma hierarchyD:
  assumes "hierarchy_ok root s"
  shows "0 \<le> depth (se_at s i)" "parent (se_at s i) = None \<Longrightarrow> depth (se_at s i) = 0 \<and> se_cfs_rq (se_at s i) = root"
    "parent (se_at s i) = Some j \<Longrightarrow> depth (se_at s i) = depth (se_at s j) + 1"
  using spec [OF assms [unfolded hierarchy_ok_def], of i] by simp_all

lemma hierarchy_parent:
  assumes "hierarchy_ok root s" "0 < depth (se_at s i)"
  shows "\<exists>j. parent (se_at s i) = Some j \<and> depth (se_at s j) = depth (se_at s i) - 1"
  using hierarchyD(2,3) [OF assms(1), of i] assms(2) by (cases "parent (se_at s i)") auto

lemma hierarchy_top:
  assumes "hierarchy_ok root s" "depth (se_at s i) = 0"
  shows "se_cfs_rq (se_at s i) = root"
proof (cases "parent (se_at s i)")
  case (Some j)
  then show ?thesis using hierarchyD(3) [OF assms(1) Some] hierarchyD(1) [OF assms(1), of j] assms(2) by simp
qed (use hierarchyD(2) [OF assms(1)] in simp)

lemma climb_depth:
  assumes "hierarchy_ok root s" "int n \<le> depth (se_at s i)"
  shows "\<exists>j. climb n s i = Some j \<and> depth (se_at s j) = depth (se_at s i) - int n"
  using assms(2)
proof (induction n arbitrary: i)
  case (Suc n)
  then obtain j where j: "parent (se_at s i) = Some j" "depth (se_at s j) = depth (se_at s i) - 1"
    using hierarchy_parent [OF assms(1), of i] by auto
  then show ?case using Suc.IH [of j] Suc.prems by auto
qed simp

lemma climb_both_matches:
  assumes ok: "hierarchy_ok root s" and d: "depth (se_at s i) = depth (se_at s j)" "depth (se_at s i) \<le> int n"
  shows "\<exists>a b k. climb_both n s i j = Some (a, b) \<and> climb k s i = Some a \<and> climb k s j = Some b
     \<and> se_cfs_rq (se_at s a) = se_cfs_rq (se_at s b)
     \<and> (\<forall>m < k. \<forall>x y. climb m s i = Some x \<longrightarrow> climb m s j = Some y \<longrightarrow> se_cfs_rq (se_at s x) \<noteq> se_cfs_rq (se_at s y))"
  using d
proof (induction n arbitrary: i j)
  case 0
  then have "depth (se_at s i) = 0" "depth (se_at s j) = 0" using hierarchyD(1) [OF ok, of i] by simp_all
  then have "se_cfs_rq (se_at s i) = se_cfs_rq (se_at s j)" using hierarchy_top [OF ok] by simp
  then show ?case
    by (subst climb_both.simps) (auto simp: is_same_group_def intro!: exI [of _ 0])
next
  case (Suc n)
  show ?case
  proof (cases "se_cfs_rq (se_at s i) = se_cfs_rq (se_at s j)")
    case True
    then show ?thesis
      by (subst climb_both.simps) (auto simp: is_same_group_def intro!: exI [of _ 0])
  next
    case False
    have "0 < depth (se_at s i)"
    proof (rule ccontr)
      assume "\<not> 0 < depth (se_at s i)"
      then have "depth (se_at s i) = 0" "depth (se_at s j) = 0" using hierarchyD(1) [OF ok, of i] Suc.prems(1) by simp_all
      then show False using False hierarchy_top [OF ok] by simp
    qed
    then obtain i' j' where p: "parent (se_at s i) = Some i'" "parent (se_at s j) = Some j'"
      and dd: "depth (se_at s i') = depth (se_at s j')" "depth (se_at s i') \<le> int n"
      using hierarchy_parent [OF ok, of i] hierarchy_parent [OF ok, of j] Suc.prems by auto
    obtain a b k where r: "climb_both n s i' j' = Some (a, b)" "climb k s i' = Some a" "climb k s j' = Some b"
      "se_cfs_rq (se_at s a) = se_cfs_rq (se_at s b)"
      "\<forall>m < k. \<forall>x y. climb m s i' = Some x \<longrightarrow> climb m s j' = Some y \<longrightarrow> se_cfs_rq (se_at s x) \<noteq> se_cfs_rq (se_at s y)"
      using Suc.IH [OF dd] by blast
    have "climb_both (Suc n) s i j = Some (a, b)"
      by (subst climb_both.simps) (simp add: is_same_group_def False p r(1))
    moreover have "se_cfs_rq (se_at s x) \<noteq> se_cfs_rq (se_at s y)"
      if "m < Suc k" "climb m s i = Some x" "climb m s j = Some y" for m x y
      using that r(5) False p by (cases m) auto
    ultimately show ?thesis using r p by (intro exI [of _ a] exI [of _ b] exI [of _ "Suc k"]) simp
  qed
qed

section \<open>Properties\<close>

text \<open>C38: Adding runqueues bottom-up keeps every runqueue before its parent: each addition of the next runqueue of
  a branch is defined and keeps the invariant, the branch is connected exactly when the parent is on the list
  already or there is none, and then every runqueue on the list is followed by its parent.\<close>

theorem leaf_list_bottom_up:
  assumes "leaf_ok u branch s" "groups_ok lev s" "rq_cpu (cfs_at s c) = u" "\<not> on_list (cfs_at s c)"
    and "branch \<noteq> [] \<longrightarrow> parent_cfs s (last branch) = Some c"
  shows "\<exists>s' branch'. list_add_leaf_cfs_rq c s = Some s' \<and> leaf_ok u branch' s'
    \<and> set (leaf_cfs_rq_list (rq_at s' u)) = insert c (set (leaf_cfs_rq_list (rq_at s u)))
    \<and> (branch' = [] \<longleftrightarrow> (case parent_cfs s c of None \<Rightarrow> True | Some p \<Rightarrow> on_list (cfs_at s p)))
    \<and> (branch' = [] \<longrightarrow> (\<forall>ys d zs p. leaf_cfs_rq_list (rq_at s' u) = ys @ d # zs \<longrightarrow> parent_cfs s' d = Some p \<longrightarrow>
          p \<in> set zs \<and> p \<notin> set ys))"
proof -
  let ?b = "if (case parent_cfs s c of None \<Rightarrow> True | Some p \<Rightarrow> on_list (cfs_at s p)) then [] else branch @ [c]"
  obtain s' where s': "list_add_leaf_cfs_rq c s = Some s'" "leaf_ok u ?b s'"
      "set (leaf_cfs_rq_list (rq_at s' u)) = insert c (set (leaf_cfs_rq_list (rq_at s u)))"
    using leaf_add [OF assms] by blast
  have "p \<in> set zs \<and> p \<notin> set ys"
    if "?b = []" "leaf_cfs_rq_list (rq_at s' u) = ys @ d # zs" "parent_cfs s' d = Some p" for ys d zs p
    using that s'(2) closed_order [of "parent_cfs s'" "leaf_cfs_rq_list (rq_at s' u)" ys d zs p]
    unfolding leaf_ok_def leaf_list_ok_def by auto
  then show ?thesis using s' by (intro exI [of _ s'] exI [of _ ?b]) simp
qed

definition two_groups :: kstate where
  "two_groups = zero_state\<lparr>cfs_at := (\<lambda>c. zero_cfs\<lparr>cfs_tg := (if c = 1 then 1 else 0)\<rparr>),
     tg_at := (\<lambda>g. if g = 1 then zero_tg\<lparr>tg_parent := Some 0\<rparr> else zero_tg)\<rparr>"

theorem leaf_list_bottom_up_witness:
  "\<exists>s1 branch. list_add_leaf_cfs_rq 1 two_groups = Some s1 \<and> leaf_ok 0 branch s1 \<and> branch \<noteq> []"
proof -
  have p: "parent_cfs two_groups = (\<lambda>c. if c = 1 then Some 0 else None)"
    by (rule ext) (simp add: parent_cfs_def two_groups_def zero_tg_def zero_cfs_def)
  have r: "rq_cpu (cfs_at two_groups c) = 0" "\<not> on_list (cfs_at two_groups c)" for c
    by (simp_all add: two_groups_def zero_cfs_def)
  have "leaf_ok 0 [] two_groups"
    by (simp add: leaf_ok_def leaf_list_ok_def r(2)) (simp add: two_groups_def zero_state_def zero_rq_def last_in_def)
  moreover have "groups_ok (\<lambda>c. c) two_groups" by (simp add: groups_ok_def p r)
  ultimately show ?thesis
    using leaf_list_bottom_up [of 0 "[]" two_groups "\<lambda>c. c" 1] p r by fastforce
qed

text \<open>The search for matching ancestors ends: when depths count the parents and the top entities share a
  runqueue, \<open>find_matching_se\<close> returns, with as much fuel as the entities are deep, an ancestor (or self)
  of each of the two entities, both queued in one runqueue.\<close>

theorem find_matching_se_ends:
  assumes "hierarchy_ok root s" "min (depth (se_at s i)) (depth (se_at s j)) \<le> int n"
  shows "\<exists>a b k l. find_matching_se n s i j = Some (a, b) \<and> climb k s i = Some a \<and> climb l s j = Some b
    \<and> is_same_group (se_at s a) (se_at s b) = Some (se_cfs_rq (se_at s a))"
proof -
  let ?di = "depth (se_at s i)" and ?dj = "depth (se_at s j)"
  have nn: "0 \<le> ?di" "0 \<le> ?dj" using hierarchyD(1) [OF assms(1)] by simp_all
  obtain i' where i': "climb (nat (?di - ?dj)) s i = Some i'" "depth (se_at s i') = min ?di ?dj"
  proof -
    have le: "int (nat (?di - ?dj)) \<le> ?di" and eq: "?di - int (nat (?di - ?dj)) = min ?di ?dj" using nn by arith+
    show ?thesis using climb_depth [OF assms(1) le] that unfolding eq by blast
  qed
  obtain j' where j': "climb (nat (?dj - ?di)) s j = Some j'" "depth (se_at s j') = min ?di ?dj"
  proof -
    have le: "int (nat (?dj - ?di)) \<le> ?dj" and eq: "?dj - int (nat (?dj - ?di)) = min ?di ?dj" using nn by arith+
    show ?thesis using climb_depth [OF assms(1) le] that unfolding eq by blast
  qed
  obtain a b k where r: "climb_both n s i' j' = Some (a, b)" "climb k s i' = Some a" "climb k s j' = Some b"
      "se_cfs_rq (se_at s a) = se_cfs_rq (se_at s b)"
    using climb_both_matches [OF assms(1), of i' j' n] i'(2) j'(2) assms(2) by auto
  have add: "climb m s x = Some y \<Longrightarrow> climb (m + k) s x = climb k s y" for m x y
    by (induction m arbitrary: x) (auto split: option.splits)
  show ?thesis
    using r i'(1) j'(1) add [OF i'(1)] add [OF j'(1)]
    by (intro exI [of _ a] exI [of _ b] exI [of _ "nat (?di - ?dj) + k"] exI [of _ "nat (?dj - ?di) + k"])
       (simp add: find_matching_se_def is_same_group_def Let_def)
qed

theorem find_matching_se_ends_witness:
  "\<exists>a b. find_matching_se 0 zero_state 4 5 = Some (a, b)"
proof -
  have "hierarchy_ok 0 zero_state" by (simp add: hierarchy_ok_def zero_state_def zero_se_def)
  from find_matching_se_ends [OF this, of 4 5 0] show ?thesis by (auto simp: zero_state_def zero_se_def)
qed

end
