(* ===== verification/Bandwidth.thy ===== *)
theory Bandwidth
  imports Leaf_List
begin

text \<open>
  The accounting of CFS bandwidth control, \<open>kernel/sched/fair.c\<close> lines 4679--4903, 5117--5195, 5254--5269
  and 5323--5375: the pool of a group, what its runqueues draw from it, use, let expire and give back.
  Throttling, which takes entities off their runqueues, is in theory \<open>Throttle\<close>. The spinlock of the pool
  is held over each of these operations.
\<close>

section \<open>The pool\<close>

definition RUNTIME_INF :: u64 where
  "RUNTIME_INF = - 1"

definition upd_bandwidth :: "tg_id \<Rightarrow> (cfs_bandwidth \<Rightarrow> cfs_bandwidth) \<Rightarrow> kstate \<Rightarrow> kstate" where
  "upd_bandwidth g f s = upd_tg g (\<lambda>t. t\<lparr>tg_bandwidth := f (tg_bandwidth t)\<rparr>) s"

definition bandwidth_of :: "tg_id \<Rightarrow> kstate \<Rightarrow> cfs_bandwidth" where
  "bandwidth_of g s = tg_bandwidth (tg_at s g)"

definition cfs_bandwidth_usage_inc :: "kstate \<Rightarrow> kstate" where
  "cfs_bandwidth_usage_inc s = s\<lparr>cfs_bandwidth_key := cfs_bandwidth_key s + 1\<rparr>"

definition cfs_bandwidth_usage_dec :: "kstate \<Rightarrow> kstate" where
  "cfs_bandwidth_usage_dec s = s\<lparr>cfs_bandwidth_key := cfs_bandwidth_key s - 1\<rparr>"

definition default_cfs_period :: u64 where
  "default_cfs_period = 100000000"

definition sched_cfs_bandwidth_slice :: "kstate \<Rightarrow> u64" where
  "sched_cfs_bandwidth_slice s = ucast (sysctl_sched_cfs_bandwidth_slice (sysctls s)) * 1000"

definition refill_cfs_bandwidth_runtime :: "kapi \<Rightarrow> tg_id \<Rightarrow> kstate \<Rightarrow> kstate" where
  "refill_cfs_bandwidth_runtime K g s =
     (if quota (bandwidth_of g s) = RUNTIME_INF then s
      else upd_bandwidth g (\<lambda>b. b\<lparr>runtime := quota b, runtime_expires := sched_clock_cpu K (this_cpu K) + period b\<rparr>) s)"

text \<open>Starting the timer: forwarding it past now and starting it are calls of the timer library.\<close>

definition start_cfs_bandwidth :: "tg_id \<Rightarrow> kstate \<Rightarrow> kstate" where
  "start_cfs_bandwidth g s =
     (if period_active (bandwidth_of g s) then s
      else upd_bandwidth g (\<lambda>b. b\<lparr>period_active := True, period_timer := True\<rparr>) s)"

section \<open>Drawing, using and expiring runtime\<close>

definition resched_curr :: "cpu \<Rightarrow> kstate \<Rightarrow> kstate" where
  "resched_curr u s = s\<lparr>resched_requests := resched_requests s @ [u]\<rparr>"

definition assign_cfs_rq_runtime :: "cfs_id \<Rightarrow> kstate \<Rightarrow> bool \<times> kstate" where
  "assign_cfs_rq_runtime c s =
     (let g = cfs_tg (cfs_at s c);
          min_amount = sched_cfs_bandwidth_slice s - runtime_remaining (cfs_at s c);
          (amount, s) =
            (if quota (bandwidth_of g s) = RUNTIME_INF then (min_amount, s)
             else let s = start_cfs_bandwidth g s; b = bandwidth_of g s in
               if runtime b > 0
               then let amount = min (runtime b) min_amount
                    in (amount, upd_bandwidth g (\<lambda>b. b\<lparr>runtime := runtime b - amount, idle := False\<rparr>) s)
               else (0, s));
          expires = runtime_expires (bandwidth_of g s);
          s = upd_cfs c (\<lambda>q. q\<lparr>runtime_remaining := runtime_remaining q + amount,
                cfs_runtime_expires := (if sint (expires - cfs_runtime_expires q) > 0 then expires else cfs_runtime_expires q)\<rparr>) s
      in (sint (runtime_remaining (cfs_at s c)) > 0, s))"

definition expire_cfs_rq_runtime :: "kapi \<Rightarrow> cfs_id \<Rightarrow> kstate \<Rightarrow> kstate" where
  "expire_cfs_rq_runtime K c s =
     (let q = cfs_at s c in
      if sint (clock (rq_at s (rq_cpu q)) - cfs_runtime_expires q) < 0 then s
      else if sint (runtime_remaining q) < 0 then s
      else if cfs_runtime_expires q \<noteq> runtime_expires (bandwidth_of (cfs_tg q) s)
      then upd_cfs c (\<lambda>q. q\<lparr>cfs_runtime_expires := cfs_runtime_expires q + tick_nsecs K\<rparr>) s
      else upd_cfs c (\<lambda>q. q\<lparr>runtime_remaining := 0\<rparr>) s)"

definition raw_account_cfs_rq_runtime :: "kapi \<Rightarrow> cfs_id \<Rightarrow> u64 \<Rightarrow> kstate \<Rightarrow> kstate" where
  "raw_account_cfs_rq_runtime K c delta_exec s =
     (let s = upd_cfs c (\<lambda>q. q\<lparr>runtime_remaining := runtime_remaining q - delta_exec\<rparr>) s;
          s = expire_cfs_rq_runtime K c s
      in if sint (runtime_remaining (cfs_at s c)) > 0 then s
         else let (got, s) = assign_cfs_rq_runtime c s
              in if \<not> got \<and> curr (cfs_at s c) \<noteq> None then resched_curr (rq_cpu (cfs_at s c)) s else s)"

definition account_cfs_rq_runtime :: "kapi \<Rightarrow> cfs_id \<Rightarrow> u64 \<Rightarrow> kstate \<Rightarrow> kstate" where
  "account_cfs_rq_runtime K c delta_exec s =
     (if \<not> cfs_bandwidth_used s \<or> \<not> runtime_enabled (cfs_at s c) then s
      else raw_account_cfs_rq_runtime K c delta_exec s)"

section \<open>Throttled hierarchies\<close>

definition throttled_hierarchy :: "cfs_id \<Rightarrow> kstate \<Rightarrow> bool" where
  "throttled_hierarchy c s \<longleftrightarrow> cfs_bandwidth_used s \<and> throttle_count (cfs_at s c) \<noteq> 0"

definition throttled_lb_pair :: "tg_id \<Rightarrow> cpu \<Rightarrow> cpu \<Rightarrow> kstate \<Rightarrow> bool" where
  "throttled_lb_pair g src dst s \<longleftrightarrow>
     throttled_hierarchy (tg_cfs_rq (tg_at s g) src) s \<or> throttled_hierarchy (tg_cfs_rq (tg_at s g) dst) s"

definition tg_unthrottle_up :: "cpu \<Rightarrow> tg_id \<Rightarrow> kstate \<Rightarrow> kstate" where
  "tg_unthrottle_up u g s =
     upd_cfs (tg_cfs_rq (tg_at s g) u)
       (\<lambda>q. let q = q\<lparr>throttle_count := throttle_count q - 1\<rparr>
            in if throttle_count q = 0
               then q\<lparr>throttled_clock_task_time := throttled_clock_task_time q + (clock_task (rq_at s u) - throttled_clock_task q)\<rparr>
               else q) s"

definition tg_throttle_down :: "cpu \<Rightarrow> tg_id \<Rightarrow> kstate \<Rightarrow> kstate" where
  "tg_throttle_down u g s =
     upd_cfs (tg_cfs_rq (tg_at s g) u)
       (\<lambda>q. let q = (if throttle_count q = 0 then q\<lparr>throttled_clock_task := clock_task (rq_at s u)\<rparr> else q)
            in q\<lparr>throttle_count := throttle_count q + 1\<rparr>) s"

definition sync_throttle :: "tg_id \<Rightarrow> cpu \<Rightarrow> kstate \<Rightarrow> kstate" where
  "sync_throttle g u s =
     (if \<not> cfs_bandwidth_used s then s
      else case tg_parent (tg_at s g) of
        None \<Rightarrow> s
      | Some p \<Rightarrow>
          upd_cfs (tg_cfs_rq (tg_at s g) u)
            (\<lambda>q. q\<lparr>throttle_count := throttle_count (cfs_at s (tg_cfs_rq (tg_at s p) u)),
                   throttled_clock_task := clock_task (rq_at s u)\<rparr>) s)"

section \<open>Giving runtime back\<close>

abbreviation (input) min_cfs_rq_runtime :: u64 where "min_cfs_rq_runtime \<equiv> 1000000"
abbreviation (input) min_bandwidth_expiration :: u64 where "min_bandwidth_expiration \<equiv> 2000000"
abbreviation (input) cfs_bandwidth_slack_period :: u64 where "cfs_bandwidth_slack_period \<equiv> 5000000"

definition runtime_refresh_within :: "kapi \<Rightarrow> tg_id \<Rightarrow> u64 \<Rightarrow> bool" where
  "runtime_refresh_within K g min_expire \<longleftrightarrow> hrtimer_callback_running K g \<or> hrtimer_expires_remaining K g < min_expire"

definition start_cfs_slack_bandwidth :: "kapi \<Rightarrow> tg_id \<Rightarrow> kstate \<Rightarrow> kstate" where
  "start_cfs_slack_bandwidth K g s =
     (if runtime_refresh_within K g (cfs_bandwidth_slack_period + min_bandwidth_expiration) then s
      else upd_bandwidth g (\<lambda>b. b\<lparr>slack_timer := True\<rparr>) s)"

definition raw_return_cfs_rq_runtime :: "kapi \<Rightarrow> cfs_id \<Rightarrow> kstate \<Rightarrow> kstate" where
  "raw_return_cfs_rq_runtime K c s =
     (let q = cfs_at s c; g = cfs_tg q;
          slack_runtime = runtime_remaining q - min_cfs_rq_runtime
      in if sint slack_runtime \<le> 0 then s
         else let s = (if quota (bandwidth_of g s) \<noteq> RUNTIME_INF \<and> cfs_runtime_expires q = runtime_expires (bandwidth_of g s)
                       then let s = upd_bandwidth g (\<lambda>b. b\<lparr>runtime := runtime b + slack_runtime\<rparr>) s
                            in if runtime (bandwidth_of g s) > sched_cfs_bandwidth_slice s \<and> throttled_cfs_rq (bandwidth_of g s) \<noteq> []
                               then start_cfs_slack_bandwidth K g s else s
                       else s)
              in upd_cfs c (\<lambda>q. q\<lparr>runtime_remaining := runtime_remaining q - slack_runtime\<rparr>) s)"

definition return_cfs_rq_runtime :: "kapi \<Rightarrow> cfs_id \<Rightarrow> kstate \<Rightarrow> kstate" where
  "return_cfs_rq_runtime K c s =
     (if \<not> cfs_bandwidth_used s then s
      else if \<not> runtime_enabled (cfs_at s c) \<or> nr_running (cfs_at s c) \<noteq> 0 then s
      else raw_return_cfs_rq_runtime K c s)"

section \<open>Initialisation\<close>

definition init_cfs_bandwidth :: "cfs_bandwidth \<Rightarrow> cfs_bandwidth" where
  "init_cfs_bandwidth b = b\<lparr>runtime := 0, quota := RUNTIME_INF, period := default_cfs_period, throttled_cfs_rq := [],
     period_timer := False, slack_timer := False\<rparr>"

definition init_cfs_rq_runtime :: "cfs_rq \<Rightarrow> cfs_rq" where
  "init_cfs_rq_runtime q = q\<lparr>runtime_enabled := False\<rparr>"

definition destroy_cfs_bandwidth :: "cfs_bandwidth \<Rightarrow> cfs_bandwidth" where
  "destroy_cfs_bandwidth b = b\<lparr>period_timer := False, slack_timer := False\<rparr>"

definition update_runtime_enabled :: "cpu \<Rightarrow> kstate \<Rightarrow> kstate" where
  "update_runtime_enabled u s =
     fold (\<lambda>c s. upd_cfs c (\<lambda>q. q\<lparr>runtime_enabled := (quota (bandwidth_of (cfs_tg q) s) \<noteq> RUNTIME_INF)\<rparr>) s)
       (leaf_cfs_rq_list (rq_at s u)) s"

end
