(* ===== verification/Bandwidth_Props.thy ===== *)
theory Bandwidth_Props
  imports Bandwidth
begin

text \<open>
  What bandwidth control promises about runtime and time: over any sequence of charges, returns and
  refills a group uses no more than its quotas, what it had left and what it ends up owing; a draw gives
  what the pool can give, and a runqueue left without runtime asks for a reschedule; and the clock of a
  throttled hierarchy stands still.
\<close>

section \<open>Signed words that stay in range\<close>

lemma uint_minus_sint:
  fixes a b :: s64
  assumes "0 \<le> uint a - sint b" "uint a - sint b < 18446744073709551616"
  shows "uint (a - b) = uint a - sint b"
proof -
  have "a - b = word_of_int (uint a - sint b)" by simp
  then have "uint (a - b) = (uint a - sint b) mod 18446744073709551616"
    by (simp only: uint_word_of_int) simp
  then show ?thesis using assms by simp
qed

lemma uint_of_positive:
  fixes a :: s64
  assumes "0 \<le> sint a"
  shows "uint a = sint a"
proof -
  have "uint a = uint (word_of_int (sint a) :: s64)" by simp
  also have "\<dots> = sint a mod 18446744073709551616" by (simp only: uint_word_of_int) simp
  also have "\<dots> = sint a" using assms sint_lt [of a] by simp
  finally show ?thesis .
qed

section \<open>One draw\<close>

abbreviation remaining :: "cfs_id \<Rightarrow> kstate \<Rightarrow> int" where
  "remaining c s \<equiv> sint (runtime_remaining (cfs_at s c))"

abbreviation pool :: "tg_id \<Rightarrow> kstate \<Rightarrow> int" where
  "pool g s \<equiv> uint (runtime (bandwidth_of g s))"

definition slice_of :: "kstate \<Rightarrow> int" where
  "slice_of s = uint (sysctl_sched_cfs_bandwidth_slice (sysctls s)) * 1000"

lemma uint_slice: "uint (sched_cfs_bandwidth_slice s) = slice_of s"
proof -
  have "unat (ucast (sysctl_sched_cfs_bandwidth_slice (sysctls s)) :: u64) * unat (1000 :: u64) < 18446744073709551616"
    using unat_lt_u32 [of "sysctl_sched_cfs_bandwidth_slice (sysctls s)"] by (simp del: unat_lt_u32)
  then have "unat (sched_cfs_bandwidth_slice s) = unat (sysctl_sched_cfs_bandwidth_slice (sysctls s)) * 1000"
    unfolding sched_cfs_bandwidth_slice_def by (subst unat_times_u64) auto
  then show ?thesis by (metis slice_of_def of_nat_mult of_nat_numeral uint_nat)
qed

lemma slice_bounds: "0 \<le> slice_of s" "slice_of s < 4398046511104"
  using uint_lt2p [of "sysctl_sched_cfs_bandwidth_slice (sysctls s)"] by (auto simp: slice_of_def)

text \<open>What every accounting operation leaves alone.\<close>

definition same_frame :: "tg_id \<Rightarrow> cfs_id set \<Rightarrow> kstate \<Rightarrow> kstate \<Rightarrow> bool" where
  "same_frame g C s s' \<longleftrightarrow> (\<forall>d. cfs_tg (cfs_at s' d) = cfs_tg (cfs_at s d) \<and> rq_cpu (cfs_at s' d) = rq_cpu (cfs_at s d)
       \<and> curr (cfs_at s' d) = curr (cfs_at s d) \<and> runtime_enabled (cfs_at s' d) = runtime_enabled (cfs_at s d)) \<and>
     (\<forall>d. d \<notin> C \<longrightarrow> cfs_at s' d = cfs_at s d) \<and> (\<forall>h. h \<noteq> g \<longrightarrow> tg_at s' h = tg_at s h) \<and>
     quota (bandwidth_of g s') = quota (bandwidth_of g s) \<and> sysctls s' = sysctls s \<and> cfs_bandwidth_key s' = cfs_bandwidth_key s"

lemma same_frame_trans: "same_frame g C s t \<Longrightarrow> same_frame g C t u \<Longrightarrow> same_frame g C s u"
  by (auto simp: same_frame_def)

lemma same_frame_refl [simp]: "same_frame g C s s"
  by (simp add: same_frame_def)

lemmas bw_defs = upd_bandwidth_def bandwidth_of_def upd_cfs_def upd_tg_def

lemma frame_cfs:
  assumes "\<And>q. cfs_tg (f q) = cfs_tg q" "\<And>q. rq_cpu (f q) = rq_cpu q" "\<And>q. curr (f q) = curr q"
    "\<And>q. runtime_enabled (f q) = runtime_enabled q"
  shows "same_frame g {c} s (upd_cfs c f s)"
  using assms by (simp add: same_frame_def bw_defs)

lemma frame_bandwidth: "(\<And>b. quota (f b) = quota b) \<Longrightarrow> same_frame g C s (upd_bandwidth g f s)"
  by (simp add: same_frame_def bw_defs)

lemma frame_start: "same_frame g C s (start_cfs_bandwidth g s)"
  by (simp add: start_cfs_bandwidth_def frame_bandwidth)

definition draw :: "cfs_id \<Rightarrow> kstate \<Rightarrow> u64 \<times> kstate" where
  "draw c s =
     (let g = cfs_tg (cfs_at s c); min_amount = sched_cfs_bandwidth_slice s - runtime_remaining (cfs_at s c) in
      if quota (bandwidth_of g s) = RUNTIME_INF then (min_amount, s)
      else let s = start_cfs_bandwidth g s; b = bandwidth_of g s in
        if runtime b > 0
        then let amount = min (runtime b) min_amount
             in (amount, upd_bandwidth g (\<lambda>b. b\<lparr>runtime := runtime b - amount, idle := False\<rparr>) s)
        else (0, s))"

lemma assign_draw:
  "assign_cfs_rq_runtime c s =
     (let (amount, t) = draw c s; expires = runtime_expires (bandwidth_of (cfs_tg (cfs_at s c)) t);
          t = upd_cfs c (\<lambda>q. q\<lparr>runtime_remaining := runtime_remaining q + amount,
                cfs_runtime_expires := (if sint (expires - cfs_runtime_expires q) > 0 then expires else cfs_runtime_expires q)\<rparr>) t
      in (remaining c t > 0, t))"
  by (simp only: assign_cfs_rq_runtime_def draw_def Let_def)

lemma draw_frame: "same_frame (cfs_tg (cfs_at s c)) {c} s (snd (draw c s))"
  by (auto simp: draw_def Let_def intro: frame_start same_frame_trans [OF frame_start frame_bandwidth])

lemma assign_frame:
  assumes "cfs_tg (cfs_at s c) = g"
  shows "same_frame g {c} s (snd (assign_cfs_rq_runtime c s))"
  unfolding assign_draw assms [symmetric]
  by (simp add: Let_def split_beta same_frame_trans [OF draw_frame frame_cfs])

lemma assign_words:
  assumes "cfs_tg (cfs_at s c) = g" "quota (bandwidth_of g s) \<noteq> RUNTIME_INF"
  defines "amount \<equiv> min (runtime (bandwidth_of g s)) (sched_cfs_bandwidth_slice s - runtime_remaining (cfs_at s c))"
  shows "runtime (bandwidth_of g (snd (assign_cfs_rq_runtime c s))) = runtime (bandwidth_of g s) - amount"
    and "runtime_remaining (cfs_at (snd (assign_cfs_rq_runtime c s)) c) = runtime_remaining (cfs_at s c) + amount"
    and "fst (assign_cfs_rq_runtime c s) \<longleftrightarrow> remaining c (snd (assign_cfs_rq_runtime c s)) > 0"
  using assms(1,2) unfolding amount_def
  by (simp_all add: assign_cfs_rq_runtime_def start_cfs_bandwidth_def bw_defs sched_cfs_bandwidth_slice_def Let_def
      min_def word_gt_0)


lemma assign_effect:
  assumes g: "cfs_tg (cfs_at s c) = g" "quota (bandwidth_of g s) \<noteq> RUNTIME_INF"
    and r: "remaining c s \<le> 0" "- 4611686018427387904 \<le> remaining c s"
  defines "s' \<equiv> snd (assign_cfs_rq_runtime c s)"
  shows "pool g s' = pool g s - min (pool g s) (slice_of s - remaining c s)"
    and "remaining c s' = remaining c s + min (pool g s) (slice_of s - remaining c s)"
proof -
  let ?a = "min (runtime (bandwidth_of g s)) (sched_cfs_bandwidth_slice s - runtime_remaining (cfs_at s c))"
  have want: "uint (sched_cfs_bandwidth_slice s - runtime_remaining (cfs_at s c)) = slice_of s - remaining c s"
    using r slice_bounds [of s] by (subst uint_minus_sint) (auto simp: uint_slice)
  have a: "uint ?a = min (pool g s) (slice_of s - remaining c s)"
    unfolding want [symmetric] by (simp add: min_def word_le_def)
  have "?a \<le> runtime (bandwidth_of g s)" by simp
  then show "pool g s' = pool g s - min (pool g s) (slice_of s - remaining c s)"
    unfolding s'_def assign_words(1) [OF g] a [symmetric] by (rule uint_minus_simple_alt [THEN iffD1])
  show "remaining c s' = remaining c s + min (pool g s) (slice_of s - remaining c s)"
    unfolding s'_def assign_words(2) [OF g] a [symmetric]
    by (rule sint_plus_uint) (use r slice_bounds [of s] a in \<open>simp add: min_def split: if_splits\<close>)
qed

section \<open>Charging, expiring, returning, refilling\<close>

text \<open>The runtime a group can still spend, and the same with debts counted as positive.\<close>

definition balance :: "tg_id \<Rightarrow> cfs_id set \<Rightarrow> kstate \<Rightarrow> int" where
  "balance g C s = pool g s + (\<Sum>c \<in> C. remaining c s)"

definition exposure :: "tg_id \<Rightarrow> cfs_id set \<Rightarrow> kstate \<Rightarrow> int" where
  "exposure g C s = pool g s + (\<Sum>c \<in> C. \<bar>remaining c s\<bar>)"

definition group_ok :: "u64 \<Rightarrow> tg_id \<Rightarrow> cfs_id set \<Rightarrow> kstate \<Rightarrow> bool" where
  "group_ok Q g C s \<longleftrightarrow> finite C \<and> (\<forall>c \<in> C. cfs_tg (cfs_at s c) = g \<and> runtime_enabled (cfs_at s c)) \<and>
     quota (bandwidth_of g s) = Q \<and> Q \<noteq> RUNTIME_INF \<and> cfs_bandwidth_used s"

lemma group_frame: "same_frame g D s s' \<Longrightarrow> group_ok Q g C s \<Longrightarrow> group_ok Q g C s'"
  by (auto simp: same_frame_def group_ok_def cfs_bandwidth_used_def)

text \<open>One runqueue changes: only its share of the sums does.\<close>

lemma sums_local:
  assumes "finite C" "c \<in> C" "same_frame g {c} s s'"
  shows "balance g C s' = balance g C s + (pool g s' + remaining c s') - (pool g s + remaining c s)"
    and "exposure g C s' = exposure g C s + (pool g s' + \<bar>remaining c s'\<bar>) - (pool g s + \<bar>remaining c s\<bar>)"
proof -
  have *: "(\<Sum>d \<in> C. f (cfs_at s' d)) = (\<Sum>d \<in> C. f (cfs_at s d)) + f (cfs_at s' c) - f (cfs_at s c)" for f :: "cfs_rq \<Rightarrow> int"
  proof -
    have "(\<Sum>d \<in> C - {c}. f (cfs_at s' d)) = (\<Sum>d \<in> C - {c}. f (cfs_at s d))"
      using assms(3) by (intro sum.cong) (auto simp: same_frame_def)
    then show ?thesis using assms(1,2) by (simp add: sum.remove [of C c])
  qed
  show "balance g C s' = balance g C s + (pool g s' + remaining c s') - (pool g s + remaining c s)"
    using * [of "\<lambda>q. sint (runtime_remaining q)"] by (simp add: balance_def)
  show "exposure g C s' = exposure g C s + (pool g s' + \<bar>remaining c s'\<bar>) - (pool g s + \<bar>remaining c s\<bar>)"
    using * [of "\<lambda>q. \<bar>sint (runtime_remaining q)\<bar>"] by (simp add: exposure_def)
qed

lemma exposure_bounds:
  assumes "finite C" "c \<in> C"
  shows "\<bar>remaining c s\<bar> + pool g s \<le> exposure g C s"
  using assms sum_nonneg [of "C - {c}" "\<lambda>d. \<bar>remaining d s\<bar>"]
  by (simp add: exposure_def sum.remove [of C c])

text \<open>The runqueue after \<open>delta_exec\<close> is docked, and after expiry.\<close>

lemma expire_frame: "same_frame g {c} s (expire_cfs_rq_runtime K c s)"
  by (simp add: expire_cfs_rq_runtime_def Let_def frame_cfs)

lemma expire_effect:
  shows "pool g (expire_cfs_rq_runtime K c s) = pool g s"
    and "remaining c (expire_cfs_rq_runtime K c s) = remaining c s \<or>
         0 \<le> remaining c s \<and> remaining c (expire_cfs_rq_runtime K c s) = 0"
  by (auto simp: expire_cfs_rq_runtime_def upd_cfs_def bandwidth_of_def Let_def)

lemma dock_effect:
  assumes "- 9223372036854775808 \<le> remaining c s - uint d"
  defines "s' \<equiv> upd_cfs c (\<lambda>q. q\<lparr>runtime_remaining := runtime_remaining q - d\<rparr>) s"
  shows "same_frame g {c} s s'" "pool g s' = pool g s" "remaining c s' = remaining c s - uint d"
  using sint_minus_uint [OF assms(1)] by (auto simp: s'_def same_frame_def upd_cfs_def bandwidth_of_def)

text \<open>A charge docks the runqueue, lets it expire, and draws if nothing is left.\<close>

definition docked :: "kapi \<Rightarrow> cfs_id \<Rightarrow> u64 \<Rightarrow> kstate \<Rightarrow> kstate" where
  "docked K c d s = expire_cfs_rq_runtime K c (upd_cfs c (\<lambda>q. q\<lparr>runtime_remaining := runtime_remaining q - d\<rparr>) s)"

lemma account_docked:
  assumes "group_ok Q g C s" "c \<in> C"
  shows "account_cfs_rq_runtime K c d s =
     (let u = docked K c d s; v = snd (assign_cfs_rq_runtime c u)
      in if remaining c u > 0 then u
         else if \<not> fst (assign_cfs_rq_runtime c u) \<and> curr (cfs_at v c) \<noteq> None then resched_curr (rq_cpu (cfs_at v c)) v else v)"
  using assms by (simp add: group_ok_def account_cfs_rq_runtime_def raw_account_cfs_rq_runtime_def docked_def Let_def split_beta)

lemma docked_effect:
  fixes K :: kapi
  assumes ok: "group_ok Q g C s" and c: "c \<in> C" and small: "exposure g C s + uint d \<le> 4611686018427387904"
  defines "u \<equiv> docked K c d s"
  shows "same_frame g {c} s u" "pool g u = pool g s" "remaining c u \<le> remaining c s - uint d"
    "\<bar>remaining c u\<bar> \<le> \<bar>remaining c s\<bar> + uint d" "- 4611686018427387904 \<le> remaining c u"
    "group_ok Q g C u"
proof -
  define t where "t = upd_cfs c (\<lambda>q. q\<lparr>runtime_remaining := runtime_remaining q - d\<rparr>) s"
  have bound: "\<bar>remaining c s\<bar> + pool g s + uint d \<le> 4611686018427387904"
    using exposure_bounds [of C c s g] ok c small by (simp add: group_ok_def)
  then have "- 9223372036854775808 \<le> remaining c s - uint d"
    using uint_nonnegative [of "runtime (bandwidth_of g s)"] by linarith
  note t = dock_effect(1) [OF this, of g, folded t_def] dock_effect(2) [OF this, of g, folded t_def] dock_effect(3) [OF this, folded t_def]
  have u: "u = expire_cfs_rq_runtime K c t" by (simp add: u_def docked_def t_def)
  show f: "same_frame g {c} s u" and "pool g u = pool g s" and 3: "remaining c u \<le> remaining c s - uint d"
    using t expire_frame [of g c t K] expire_effect(1) [of g K c t] expire_effect(2) [of K c t]
    by (auto simp: u intro: same_frame_trans)
  have "\<bar>remaining c u\<bar> \<le> \<bar>remaining c s - uint d\<bar>"
    using t expire_effect(2) [of K c t] by (auto simp: u)
  then show 4: "\<bar>remaining c u\<bar> \<le> \<bar>remaining c s\<bar> + uint d"
    using uint_nonnegative [of d] by linarith
  show "- 4611686018427387904 \<le> remaining c u"
    using 4 bound uint_nonnegative [of "runtime (bandwidth_of g s)"] by linarith
  show "group_ok Q g C u" by (rule group_frame [OF f ok])
qed

lemma resched_fields [simp]:
  "cfs_at (resched_curr k v) = cfs_at v" "bandwidth_of g (resched_curr k v) = bandwidth_of g v"
  "same_frame g C s (resched_curr k v) \<longleftrightarrow> same_frame g C s v"
  by (auto simp: resched_curr_def same_frame_def bandwidth_of_def)

lemma draw_effect:
  assumes "group_ok Q g C u" "c \<in> C" "\<not> remaining c u > 0" "- 4611686018427387904 \<le> remaining c u"
  defines "v \<equiv> snd (assign_cfs_rq_runtime c u)"
  shows "same_frame g {c} u v" "pool g v + remaining c v = pool g u + remaining c u"
    "pool g v + \<bar>remaining c v\<bar> \<le> pool g u + \<bar>remaining c u\<bar>"
    "remaining c v \<le> 0 \<Longrightarrow> slice_of u > 0 \<Longrightarrow> pool g v = 0"
proof -
  have tg: "cfs_tg (cfs_at u c) = g" "quota (bandwidth_of g u) \<noteq> RUNTIME_INF"
    using assms(1,2) by (auto simp: group_ok_def)
  note e = assign_effect [OF tg _ assms(4), folded v_def]
  show "same_frame g {c} u v"
    using assign_frame [OF tg(1)] by (simp add: v_def)
  show "pool g v + remaining c v = pool g u + remaining c u"
    using e assms(3) by simp
  show "pool g v + \<bar>remaining c v\<bar> \<le> pool g u + \<bar>remaining c u\<bar>"
    using e assms(3) slice_bounds [of u] uint_nonnegative [of "runtime (bandwidth_of g u)"] by linarith
  show "pool g v = 0" if "remaining c v \<le> 0" "slice_of u > 0"
    using e assms(3) that by linarith
qed

lemma account_effect:
  fixes K :: kapi
  assumes ok: "group_ok Q g C s" and c: "c \<in> C" and small: "exposure g C s + uint d \<le> 4611686018427387904"
  defines "s' \<equiv> account_cfs_rq_runtime K c d s"
  shows "same_frame g {c} s s'" "pool g s' + remaining c s' + uint d \<le> pool g s + remaining c s"
    "pool g s' + \<bar>remaining c s'\<bar> \<le> pool g s + \<bar>remaining c s\<bar> + uint d"
proof -
  define u where "u = docked K c d s"
  define v where "v = snd (assign_cfs_rq_runtime c u)"
  note u = docked_effect [OF ok c small, of K, folded u_def]
  note v = draw_effect [OF u(6) c _ u(5), folded v_def]
  have s': "s' = (if remaining c u > 0 then u
      else if \<not> fst (assign_cfs_rq_runtime c u) \<and> curr (cfs_at v c) \<noteq> None then resched_curr (rq_cpu (cfs_at v c)) v else v)"
    unfolding s'_def account_docked [OF ok c] Let_def u_def v_def ..
  show "same_frame g {c} s s'"
    unfolding s' using u(1) same_frame_trans [OF u(1) v(1)] by simp
  show "pool g s' + remaining c s' + uint d \<le> pool g s + remaining c s"
    unfolding s' using u(2,3) v(2) by simp
  show "pool g s' + \<bar>remaining c s'\<bar> \<le> pool g s + \<bar>remaining c s\<bar> + uint d"
    unfolding s' using u(2,4) v(3) by (cases "remaining c u > 0") (auto dest: order_trans)
qed

lemma return_effect:
  fixes K :: kapi
  assumes ok: "group_ok Q g C s" and c: "c \<in> C" and small: "exposure g C s \<le> 4611686018427387904"
  defines "s' \<equiv> return_cfs_rq_runtime K c s"
  shows "same_frame g {c} s s'" "pool g s' + remaining c s' \<le> pool g s + remaining c s"
    "pool g s' + \<bar>remaining c s'\<bar> \<le> pool g s + \<bar>remaining c s\<bar>"
proof -
  let ?slack = "runtime_remaining (cfs_at s c) - min_cfs_rq_runtime"
  have tg: "cfs_tg (cfs_at s c) = g"
    using ok c by (simp add: group_ok_def)
  have bound: "\<bar>remaining c s\<bar> + pool g s \<le> 4611686018427387904"
    using exposure_bounds [of C c s g] ok c small by (simp add: group_ok_def)
  have slack: "sint ?slack = remaining c s - 1000000"
  proof -
    have "\<bar>remaining c s\<bar> \<le> 4611686018427387904"
      using bound uint_nonnegative [of "runtime (bandwidth_of g s)"] by linarith
    then show ?thesis
      using sint_minus_uint [of "runtime_remaining (cfs_at s c)" 1000000] by (simp add: abs_le_iff)
  qed
  define t where "t = (if quota (bandwidth_of g s) \<noteq> RUNTIME_INF \<and> cfs_runtime_expires (cfs_at s c) = runtime_expires (bandwidth_of g s)
     then let s = upd_bandwidth g (\<lambda>b. b\<lparr>runtime := runtime b + ?slack\<rparr>) s
          in if runtime (bandwidth_of g s) > sched_cfs_bandwidth_slice s \<and> throttled_cfs_rq (bandwidth_of g s) \<noteq> []
             then start_cfs_slack_bandwidth K g s else s
     else s)"
  have frame: "same_frame g {c} s t" "cfs_at t = cfs_at s"
    by (auto simp: t_def Let_def start_cfs_slack_bandwidth_def bw_defs same_frame_def)
  have pool: "runtime (bandwidth_of g t) \<in> {runtime (bandwidth_of g s), runtime (bandwidth_of g s) + ?slack}"
    by (auto simp: t_def Let_def start_cfs_slack_bandwidth_def bw_defs)
  have s': "s' = s \<or> 0 < sint ?slack \<and> s' = upd_cfs c (\<lambda>q. q\<lparr>runtime_remaining := runtime_remaining q - ?slack\<rparr>) t"
    using tg by (auto simp: s'_def return_cfs_rq_runtime_def raw_return_cfs_rq_runtime_def t_def Let_def)
  have given: "pool g t \<le> pool g s + sint ?slack" "remaining c (upd_cfs c (\<lambda>q. q\<lparr>runtime_remaining := runtime_remaining q - ?slack\<rparr>) t) = 1000000"
    if "0 < sint ?slack"
  proof -
    have "uint ?slack = sint ?slack"
      using that by (intro uint_of_positive) simp
    then show "pool g t \<le> pool g s + sint ?slack"
      using pool that uint_add_le [of "runtime (bandwidth_of g s)" ?slack] by auto
    show "remaining c (upd_cfs c (\<lambda>q. q\<lparr>runtime_remaining := runtime_remaining q - ?slack\<rparr>) t) = 1000000"
      using frame by (simp add: upd_cfs_def)
  qed
  show "same_frame g {c} s s'"
    using s' frame(1) by (auto intro: same_frame_trans [OF _ frame_cfs])
  show "pool g s' + remaining c s' \<le> pool g s + remaining c s" "pool g s' + \<bar>remaining c s'\<bar> \<le> pool g s + \<bar>remaining c s\<bar>"
    using s' given slack by (auto simp: bandwidth_of_def upd_cfs_def)
qed

lemma refill_effect:
  fixes K :: kapi
  assumes ok: "group_ok Q g C s"
  defines "s' \<equiv> refill_cfs_bandwidth_runtime K g s"
  shows "same_frame g {} s s'" "pool g s' = uint Q" "cfs_at s' = cfs_at s"
  using ok by (auto simp: s'_def refill_cfs_bandwidth_runtime_def group_ok_def bw_defs same_frame_def)

section \<open>Budgets\<close>

text \<open>
  An account that pays costs out of a balance and receives grants. The exposure bounds what machine
  integers have to hold; as long as it stays within the limit, no operation spends what is not there.
\<close>

locale budget =
  fixes step :: "'op \<Rightarrow> 's \<Rightarrow> 's" and ok :: "'s \<Rightarrow> bool" and allowed :: "'op \<Rightarrow> bool"
    and bal :: "'s \<Rightarrow> int" and expo :: "'s \<Rightarrow> int" and cost :: "'op \<Rightarrow> int" and grant :: "'op \<Rightarrow> int" and limit :: int
  assumes step_ok: "ok s \<Longrightarrow> allowed x \<Longrightarrow> expo s + cost x + grant x \<le> limit \<Longrightarrow> ok (step x s)"
    and step_expo: "ok s \<Longrightarrow> allowed x \<Longrightarrow> expo s + cost x + grant x \<le> limit \<Longrightarrow> expo (step x s) \<le> expo s + cost x + grant x"
    and step_bal: "ok s \<Longrightarrow> allowed x \<Longrightarrow> expo s + cost x + grant x \<le> limit \<Longrightarrow> bal (step x s) + cost x \<le> bal s + grant x"
    and nonneg: "0 \<le> cost x" "0 \<le> grant x"
begin

definition spent :: "'op list \<Rightarrow> int" where "spent xs = (\<Sum>x \<leftarrow> xs. cost x)"

definition granted :: "'op list \<Rightarrow> int" where "granted xs = (\<Sum>x \<leftarrow> xs. grant x)"

lemma sums_nonneg: "0 \<le> spent xs" "0 \<le> granted xs"
  by (induction xs) (auto simp: spent_def granted_def nonneg)

theorem run:
  "ok s \<Longrightarrow> \<forall>x \<in> set xs. allowed x \<Longrightarrow> expo s + spent xs + granted xs \<le> limit \<Longrightarrow>
   ok (fold step xs s) \<and> bal (fold step xs s) + spent xs \<le> bal s + granted xs"
proof (induction xs arbitrary: s)
  case (Cons x xs)
  have room: "expo s + cost x + grant x \<le> limit"
    using Cons.prems(3) sums_nonneg [of xs] by (simp add: spent_def granted_def)
  have "ok (step x s)"
    using Cons.prems room by (auto intro: step_ok)
  moreover have "expo (step x s) + spent xs + granted xs \<le> limit"
    using Cons.prems step_expo [OF _ _ room] by (fastforce simp: spent_def granted_def)
  ultimately have "ok (fold step xs (step x s)) \<and> bal (fold step xs (step x s)) + spent xs \<le> bal (step x s) + granted xs"
    using Cons.IH Cons.prems(2) by simp
  moreover have "bal (step x s) + cost x \<le> bal s + grant x"
    using Cons.prems room by (auto intro: step_bal)
  ultimately show ?case by (simp add: spent_def granted_def)
qed (simp add: spent_def granted_def)

end

text \<open>What happens to a group: its runqueues use runtime and give it back, its period is refilled, clocks advance.\<close>

datatype bw_op = Charge cfs_id u64 | Give_Back cfs_id | Refill | Clock cpu u64

fun bw_step :: "kapi \<Rightarrow> tg_id \<Rightarrow> bw_op \<Rightarrow> kstate \<Rightarrow> kstate" where
  "bw_step K g (Charge c d) s = account_cfs_rq_runtime K c d s"
| "bw_step K g (Give_Back c) s = return_cfs_rq_runtime K c s"
| "bw_step K g Refill s = refill_cfs_bandwidth_runtime K g s"
| "bw_step K g (Clock u t) s = upd_rq u (\<lambda>q. q\<lparr>clock := t\<rparr>) s"

fun bw_cost :: "bw_op \<Rightarrow> int" where
  "bw_cost (Charge c d) = uint d"
| "bw_cost _ = 0"

fun bw_grant :: "u64 \<Rightarrow> bw_op \<Rightarrow> int" where
  "bw_grant Q Refill = uint Q"
| "bw_grant Q _ = 0"

fun bw_member :: "cfs_id set \<Rightarrow> bw_op \<Rightarrow> bool" where
  "bw_member C (Charge c d) \<longleftrightarrow> c \<in> C"
| "bw_member C (Give_Back c) \<longleftrightarrow> c \<in> C"
| "bw_member C _ \<longleftrightarrow> True"

lemma bw_step_effect:
  assumes ok: "group_ok Q g C s" and mem: "bw_member C x" and room: "exposure g C s + bw_cost x + bw_grant Q x \<le> 4611686018427387904"
  shows "group_ok Q g C (bw_step K g x s)" "exposure g C (bw_step K g x s) \<le> exposure g C s + bw_cost x + bw_grant Q x"
    "balance g C (bw_step K g x s) + bw_cost x \<le> balance g C s + bw_grant Q x"
proof -
  have fin: "finite C" using ok by (simp add: group_ok_def)
  have "group_ok Q g C (bw_step K g x s) \<and> exposure g C (bw_step K g x s) \<le> exposure g C s + bw_cost x + bw_grant Q x \<and>
    balance g C (bw_step K g x s) + bw_cost x \<le> balance g C s + bw_grant Q x"
  proof (cases x)
    case (Charge c d)
    then have c: "c \<in> C" "exposure g C s + uint d \<le> 4611686018427387904" using mem room by auto
    note e = account_effect [OF ok c, of K]
    show ?thesis
      using e(2,3) group_frame [OF e(1) ok] sums_local [OF fin c(1) e(1)] Charge by auto
  next
    case (Give_Back c)
    then have c: "c \<in> C" "exposure g C s \<le> 4611686018427387904" using mem room by auto
    note e = return_effect [OF ok c, of K]
    show ?thesis
      using e(2,3) group_frame [OF e(1) ok] sums_local [OF fin c(1) e(1)] Give_Back by auto
  next
    case Refill
    then show ?thesis
      using refill_effect [OF ok, of K] group_frame [OF _ ok] uint_nonnegative [of "runtime (bandwidth_of g s)"]
      by (auto simp: exposure_def balance_def)
  next
    case (Clock u t)
    then show ?thesis
      using ok by (simp add: group_ok_def exposure_def balance_def bandwidth_of_def upd_rq_def cfs_bandwidth_used_def)
  qed
  then show "group_ok Q g C (bw_step K g x s)" "exposure g C (bw_step K g x s) \<le> exposure g C s + bw_cost x + bw_grant Q x"
    "balance g C (bw_step K g x s) + bw_cost x \<le> balance g C s + bw_grant Q x" by auto
qed

interpretation group_budget: budget "bw_step K g" "group_ok Q g C" "bw_member C" "balance g C" "exposure g C" bw_cost "bw_grant Q" 4611686018427387904
  for K g Q C
proof unfold_locales
  show "0 \<le> bw_cost x" for x by (cases x) auto
  show "0 \<le> bw_grant Q x" for x by (cases x) auto
qed (rule bw_step_effect; assumption)+

section \<open>Properties\<close>

definition used :: "bw_op list \<Rightarrow> int" where
  "used xs = (\<Sum>x \<leftarrow> xs. bw_cost x)"

definition refills :: "bw_op list \<Rightarrow> int" where
  "refills xs = int (count_list xs Refill)"

definition owed :: "cfs_id set \<Rightarrow> kstate \<Rightarrow> int" where
  "owed C s = (\<Sum>c \<in> C. max 0 (- remaining c s))"

lemma spent_used: "group_budget.spent xs = used xs"
  by (simp add: group_budget.spent_def used_def)

lemma granted_refills: "group_budget.granted Q xs = uint Q * refills xs"
proof (induction xs)
  case (Cons x xs)
  then show ?case by (cases x) (auto simp: group_budget.granted_def refills_def algebra_simps)
qed (simp add: group_budget.granted_def refills_def)

lemma balance_owed: "- owed C s \<le> balance g C s"
proof -
  have "- owed C s \<le> (\<Sum>c \<in> C. remaining c s)"
    unfolding owed_def sum_negf [symmetric] by (rule sum_mono) simp
  then show ?thesis using uint_nonnegative [of "runtime (bandwidth_of g s)"] unfolding balance_def by linarith
qed

text \<open>C39: A group with bandwidth control keeps to its quota. Over any sequence in which its runqueues charge
  the time their tasks ran and give runtime back, its period timer refills the pool and clocks advance, the
  time used is at most what pool and runqueues held at the start, plus one quota per refill, plus what the
  runqueues owe at the end: \<open>assign_cfs_rq_runtime\<close>, expiry and returns move runtime or drop it, and never
  create any. The hypothesis keeps the amounts of the run below 2 to the 62 nanoseconds.\<close>

theorem quota_respected:
  assumes "group_ok Q g C s" "\<forall>x \<in> set xs. bw_member C x" "exposure g C s + used xs + uint Q * refills xs \<le> 4611686018427387904"
  shows "used xs \<le> balance g C s + uint Q * refills xs + owed C (fold (bw_step K g) xs s)"
  using group_budget.run [OF assms(1,2), of K] assms(3) balance_owed [of C "fold (bw_step K g) xs s" g]
  by (simp add: spent_used granted_refills)

definition limited_group :: kstate where
  "limited_group = zero_state\<lparr>cfs_bandwidth_key := 1,
     cfs_at := (\<lambda>_. zero_cfs\<lparr>runtime_enabled := True, cfs_tg := 1, curr := Some 7\<rparr>),
     tg_at := (\<lambda>_. zero_tg\<lparr>tg_bandwidth := zero_bandwidth\<lparr>quota := 20000000, period := 100000000\<rparr>\<rparr>)\<rparr>"

definition limited_run :: "bw_op list" where
  "limited_run = [Refill, Charge 0 3000000, Clock 0 5000000, Give_Back 0, Charge 1 7000000, Refill, Charge 1 2000000]"

theorem quota_respected_witness:
  "used limited_run = 12000000 \<and>
   used limited_run \<le> balance 1 {0, 1} limited_group + 20000000 * refills limited_run
     + owed {0, 1} (fold (bw_step plain_api 1) limited_run limited_group)"
proof -
  have ok: "group_ok 20000000 1 {0, 1} limited_group"
    by (simp add: group_ok_def limited_group_def bandwidth_of_def RUNTIME_INF_def zero_defs cfs_bandwidth_used_def)
  have run: "used limited_run = 12000000" "refills limited_run = 2" "\<forall>x \<in> set limited_run. bw_member {0, 1} x"
    by (simp_all add: limited_run_def used_def refills_def)
  have "exposure 1 {0, 1} limited_group = 0"
    by (simp add: exposure_def limited_group_def bandwidth_of_def zero_defs)
  then show ?thesis
    using quota_respected [OF ok run(3), of plain_api] run(1,2) by simp
qed

lemma requests_kept:
  "resched_requests (docked K c d s) = resched_requests s" "resched_requests (snd (assign_cfs_rq_runtime c s)) = resched_requests s"
  by (simp_all add: docked_def expire_cfs_rq_runtime_def assign_draw draw_def start_cfs_bandwidth_def bw_defs Let_def split_beta)

text \<open>Running out is noticed. When a charge leaves a runqueue of a limited group without runtime, the pool
  of the group is empty and, if an entity of the runqueue is running, the charge has asked for a reschedule
  of the runqueue's cpu, after which the runqueue is throttled.\<close>

theorem exhaustion_reported:
  assumes "group_ok Q g C s" "c \<in> C" "exposure g C s + uint d \<le> 4611686018427387904" "slice_of s > 0"
    and "remaining c (account_cfs_rq_runtime K c d s) \<le> 0"
  shows "pool g (account_cfs_rq_runtime K c d s) = 0 \<and>
    (curr (cfs_at s c) \<noteq> None \<longrightarrow>
     resched_requests (account_cfs_rq_runtime K c d s) = resched_requests s @ [rq_cpu (cfs_at s c)])"
proof -
  define u where "u = docked K c d s"
  define v where "v = snd (assign_cfs_rq_runtime c u)"
  note u = docked_effect [OF assms(1-3), of K, folded u_def]
  note v = draw_effect [OF u(6) assms(2) _ u(5), folded v_def]
  note s' = account_docked [OF assms(1,2), of K d, unfolded Let_def, folded u_def, folded v_def]
  have none: "\<not> remaining c u > 0" "remaining c v \<le> 0"
    using assms(5) unfolding s' by (auto split: if_splits)
  have slice: "slice_of u > 0"
    using assms(4) u(1) by (simp add: slice_of_def same_frame_def)
  have got: "\<not> fst (assign_cfs_rq_runtime c u)"
    using none(2) by (simp add: v_def assign_draw Let_def split_beta)
  have same: "curr (cfs_at v c) = curr (cfs_at s c)" "rq_cpu (cfs_at v c) = rq_cpu (cfs_at s c)"
    using same_frame_trans [OF u(1) v(1) [OF none(1)]] by (simp_all add: same_frame_def)
  show ?thesis
    unfolding s' using none got v(4) [OF none slice] same requests_kept
    by (auto simp: resched_curr_def u_def v_def bandwidth_of_def)
qed

definition drained_group :: kstate where
  "drained_group = limited_group\<lparr>tg_at := (\<lambda>_. zero_tg\<lparr>tg_bandwidth := zero_bandwidth\<lparr>quota := 20000000, runtime := 1000000\<rparr>\<rparr>)\<rparr>"

theorem exhaustion_reported_witness:
  "remaining 0 (account_cfs_rq_runtime plain_api 0 3000000 drained_group) = - 2000000 \<and>
   pool 1 (account_cfs_rq_runtime plain_api 0 3000000 drained_group) = 0 \<and>
   resched_requests (account_cfs_rq_runtime plain_api 0 3000000 drained_group) = [0]"
proof -
  have ok: "group_ok 20000000 1 {0} drained_group"
    by (simp add: group_ok_def drained_group_def limited_group_def bandwidth_of_def RUNTIME_INF_def zero_defs cfs_bandwidth_used_def)
  have e: "exposure 1 {0} drained_group + uint (3000000 :: u64) \<le> 4611686018427387904" "slice_of drained_group > 0"
    by (simp_all add: exposure_def slice_of_def drained_group_def limited_group_def bandwidth_of_def zero_defs)
  have r: "remaining 0 (account_cfs_rq_runtime plain_api 0 3000000 drained_group) = - 2000000"
    by (simp add: account_cfs_rq_runtime_def raw_account_cfs_rq_runtime_def cfs_bandwidth_used_def resched_curr_def expire_cfs_rq_runtime_def assign_draw draw_def start_cfs_bandwidth_def
        drained_group_def limited_group_def bw_defs RUNTIME_INF_def zero_defs Let_def sched_cfs_bandwidth_slice_def)
  show ?thesis
    using exhaustion_reported [OF ok _ e, of 0 plain_api] r by (simp add: drained_group_def limited_group_def zero_defs)
qed

section \<open>The clock of a throttled hierarchy\<close>

datatype clock_event = Throttled | Unthrottled | Passes u64

fun clock_step :: "cpu \<Rightarrow> tg_id \<Rightarrow> clock_event \<Rightarrow> kstate \<Rightarrow> kstate" where
  "clock_step u g Throttled s = tg_throttle_down u g s"
| "clock_step u g Unthrottled s = tg_unthrottle_up u g s"
| "clock_step u g (Passes d) s = upd_rq u (\<lambda>q. q\<lparr>clock_task := clock_task q + d\<rparr>) s"

text \<open>The time that passes while nothing on the way to the root is throttled, for \<open>n\<close> throttled levels at the start.\<close>

fun open_time :: "int \<Rightarrow> clock_event list \<Rightarrow> u64" where
  "open_time n [] = 0"
| "open_time n (Throttled # xs) = open_time (n + 1) xs"
| "open_time n (Unthrottled # xs) = open_time (n - 1) xs"
| "open_time n (Passes d # xs) = (if n = 0 then d else 0) + open_time n xs"

fun matched :: "int \<Rightarrow> clock_event list \<Rightarrow> bool" where
  "matched n [] \<longleftrightarrow> True"
| "matched n (Throttled # xs) \<longleftrightarrow> matched (n + 1) xs"
| "matched n (Unthrottled # xs) \<longleftrightarrow> n > 0 \<and> matched (n - 1) xs"
| "matched n (Passes d # xs) \<longleftrightarrow> matched n xs"

lemma clock_step_effect:
  fixes s :: kstate
  assumes "rq_cpu (cfs_at s c) = u" "tg_cfs_rq (tg_at s g) u = c" "throttle_count (cfs_at s c) = n" "matched n (x # xs)" "0 \<le> n"
  defines "s' \<equiv> clock_step u g x s"
  shows "rq_cpu (cfs_at s' c) = u" "tg_cfs_rq (tg_at s' g) u = c" "0 \<le> throttle_count (cfs_at s' c)"
    "matched (throttle_count (cfs_at s' c)) xs"
    "cfs_rq_clock_task c s' + open_time (throttle_count (cfs_at s' c)) xs = cfs_rq_clock_task c s + open_time n (x # xs)"
  using assms
  by (cases x; auto simp: s'_def tg_throttle_down_def tg_unthrottle_up_def upd_cfs_def upd_rq_def cfs_rq_clock_task_def Let_def)+

lemma clock_run:
  assumes "rq_cpu (cfs_at s c) = u" "tg_cfs_rq (tg_at s g) u = c" "matched (throttle_count (cfs_at s c)) xs" "0 \<le> throttle_count (cfs_at s c)"
  shows "cfs_rq_clock_task c (fold (clock_step u g) xs s) = cfs_rq_clock_task c s + open_time (throttle_count (cfs_at s c)) xs"
  using assms
proof (induction xs arbitrary: s)
  case (Cons x xs)
  note e = clock_step_effect [OF Cons.prems(1,2) refl Cons.prems(3,4)]
  show ?case using Cons.IH [OF e(1,2,4,3)] e(5) by simp
qed simp

text \<open>C40: A throttled hierarchy loses no time and gains none. Whatever sequence of throttling and
  unthrottling on the way from a group to the root a runqueue sees, nested or repeated, with any time in
  between, its clock \<open>cfs_rq_clock_task\<close> advances by exactly the time during which no level was throttled,
  modulo 2 to the 64.\<close>

theorem clock_skips_throttled_time:
  assumes "rq_cpu (cfs_at s (tg_cfs_rq (tg_at s g) u)) = u" "0 \<le> throttle_count (cfs_at s (tg_cfs_rq (tg_at s g) u))"
    and "matched (throttle_count (cfs_at s (tg_cfs_rq (tg_at s g) u))) xs"
  shows "cfs_rq_clock_task (tg_cfs_rq (tg_at s g) u) (fold (clock_step u g) xs s) =
    cfs_rq_clock_task (tg_cfs_rq (tg_at s g) u) s + open_time (throttle_count (cfs_at s (tg_cfs_rq (tg_at s g) u))) xs"
  using assms by (intro clock_run) auto

theorem clock_skips_throttled_time_witness:
  "cfs_rq_clock_task 0 (fold (clock_step 0 1) [Passes 5, Throttled, Passes 7, Throttled, Unthrottled, Passes 1, Unthrottled, Passes 2] zero_state) = 7"
  using clock_skips_throttled_time [of zero_state 1 0 "[Passes 5, Throttled, Passes 7, Throttled, Unthrottled, Passes 1, Unthrottled, Passes 2]"]
  by (simp add: zero_defs cfs_rq_clock_task_def)

end
