(* ===== verification/Entity.thy ===== *)
theory Entity
  imports Bandwidth Load_Weight
begin

text \<open>
  The entities of the fair class in \<open>kernel/sched/fair.c\<close>: the signals of a new entity (lines 893--1066),
  accounting of running time (1083--1116), weights of runqueues and shares of groups (2848--2956), placement,
  dequeueing, the tick and the choice of the next entity (4219--4667, 8010--8082). \<open>enqueue_entity\<close> and
  \<open>put_prev_entity\<close>, which may throttle, are in theory \<open>Throttle\<close>. Walks up the hierarchy take fuel; statistics
  and NUMA accounting are off.
\<close>

section \<open>The signals of a new entity\<close>

definition init_entity_runnable_average :: "kapi \<Rightarrow> se_id \<Rightarrow> kstate \<Rightarrow> kstate" where
  "init_entity_runnable_average K i s =
     (let se = se_at s i; initial = ucast (sysctl_sched_initial_task_util (sysctls s)) in
      upd_avg (SeAvg i)
        (\<lambda>sa. let l = (if entity_is_task se then scale_load_down (weight (se_load se)) else load_avg sa)
              in sa\<lparr>last_update_time := 0, period_contrib := 1023, load_avg := l, load_sum := l * LOAD_AVG_MAX,
                util_avg := (if sched_freq K then initial else 0), util_sum := 0, util_fast_avg := 0, util_fast_sum := 0,
                memory_cycle_ratio := 0, core_util_sum := 0, memory_util_sum := 0, core_util_avg := 0, memory_util_avg := 0,
                core_util_fast_sum := 0, memory_util_fast_sum := 0, core_util_fast_avg := 0, memory_util_fast_avg := 0,
                scaling_avg := 0, scaling_sum := 0, scaling_fast_avg := 0, scaling_fast_sum := 0, sa_weight := 1024\<rparr>) s)"

text \<open>
  One budget: the new average is extrapolated from the runqueue's and capped. The average of the runqueue is
  \<open>avg\<close>, its load \<open>load\<close>; the caps are \<open>long\<close> divisions, which truncate towards zero, and the division by
  \<open>load + 1\<close> is by zero when the load is the largest word.
\<close>

definition extrapolated :: "s64 \<Rightarrow> ulong \<Rightarrow> ulong \<Rightarrow> ulong \<Rightarrow> ulong option" where
  "extrapolated cap avg load w =
     (if avg \<noteq> 0 then if load + 1 = 0 then None else let u = avg * w div (load + 1) in Some (if u > cap then cap else u)
      else Some cap)"

definition util_cap :: "ulong \<Rightarrow> s64 option" where
  "util_cap avg = s64_div (SCHED_CAPACITY_SCALE - avg) 2"

text \<open>The product by 4 is a signed one, undefined on overflow.\<close>

definition share_cap :: "ulong \<Rightarrow> s64 option" where
  "share_cap avg = (let room = SCHED_CAPACITY_SCALE - avg in
     if sint room * 4 < - (2 ^ 63) \<or> 2 ^ 63 \<le> sint room * 4 then None else s64_div (room * 4) 13)"

definition init_util :: "s64 \<Rightarrow> sched_avg \<Rightarrow> ulong \<Rightarrow> sched_avg \<Rightarrow> sched_avg option" where
  "init_util cap qa w sa =
     (if sint cap \<le> 0 then Some sa
      else do {
        u \<leftarrow> extrapolated cap (util_avg qa) (load_avg qa) w;
        let us = ucast (u * LOAD_AVG_MAX); let fs = ucast (u * LOAD_AVG_FAST_MAX);
        Some (sa\<lparr>util_avg := u, util_sum := us, util_fast_avg := u, util_fast_sum := fs,
          scaling_avg := u, scaling_sum := us, scaling_fast_avg := u, scaling_fast_sum := fs\<rparr>)
      })"

definition init_core :: "s64 \<Rightarrow> sched_avg \<Rightarrow> ulong \<Rightarrow> sched_avg \<Rightarrow> sched_avg option" where
  "init_core cap qa w sa =
     (if sint cap \<le> 0 then Some sa
      else do {
        u \<leftarrow> extrapolated cap (core_util_avg qa) (load_avg qa) w;
        Some (sa\<lparr>core_util_avg := u, core_util_sum := ucast (u * LOAD_AVG_MAX), core_util_fast_avg := u,
          core_util_fast_sum := ucast (u * LOAD_AVG_FAST_MAX)\<rparr>)
      })"

definition init_memory :: "s64 \<Rightarrow> sched_avg \<Rightarrow> ulong \<Rightarrow> sched_avg \<Rightarrow> sched_avg option" where
  "init_memory cap qa w sa =
     (if sint cap \<le> 0 then Some sa
      else do {
        u \<leftarrow> extrapolated cap (memory_util_avg qa) (load_avg qa) w;
        Some (sa\<lparr>memory_util_avg := u, memory_util_sum := ucast (u * LOAD_AVG_MAX), memory_util_fast_avg := u,
          memory_util_fast_sum := ucast (u * LOAD_AVG_FAST_MAX)\<rparr>)
      })"

definition extrapolate_avg :: "bool \<Rightarrow> sched_avg \<Rightarrow> ulong \<Rightarrow> sched_avg \<Rightarrow> sched_avg option" where
  "extrapolate_avg pemt_on qa w sa = do {
     cap \<leftarrow> util_cap (util_avg qa);
     sa \<leftarrow> init_util cap qa w sa;
     if \<not> pemt_on then Some sa
     else do {
       core_cap \<leftarrow> share_cap (core_util_avg qa);
       sa \<leftarrow> init_core core_cap qa w sa;
       memory_cap \<leftarrow> share_cap (memory_util_avg qa);
       init_memory memory_cap qa w sa
     }
   }"

definition post_init_entity_util_avg :: "nat \<Rightarrow> kapi \<Rightarrow> se_id \<Rightarrow> kstate \<Rightarrow> kstate option" where
  "post_init_entity_util_avg n K i s =
     (let se = se_at s i; c = se_cfs_rq se in do {
        sa \<leftarrow> extrapolate_avg (pkshin_pemt_enabled s) (cfs_avg (cfs_at s c)) (weight (se_load se)) (se_avg se);
        let s = upd_avg (SeAvg i) (\<lambda>_. sa) s;
        if entity_is_task se \<and> \<not> fair_class (task_at s i)
        then Some (upd_avg (SeAvg i) (\<lambda>sa. sa\<lparr>last_update_time := cfs_rq_clock_task c s\<rparr>) s)
        else attach_entity_cfs_rq n K i s
      })"

section \<open>Accounting of running time\<close>

definition update_curr :: "kapi \<Rightarrow> cfs_id \<Rightarrow> kstate \<Rightarrow> kstate option" where
  "update_curr K c s =
     (let now = clock_task (rq_at s (rq_cpu (cfs_at s c))) in
      case curr (cfs_at s c) of
        None \<Rightarrow> Some s
      | Some i \<Rightarrow>
          let delta_exec = now - exec_start (se_at s i) in
          if sint delta_exec \<le> 0 then Some s
          else do {
            let s = upd_se i (\<lambda>e. e\<lparr>exec_start := now, sum_exec_runtime := sum_exec_runtime e + delta_exec\<rparr>) s;
            (v, lw) \<leftarrow> calc_delta_fair (mul_u64_u32_shr K) delta_exec (se_load (se_at s i));
            let s = upd_se i (\<lambda>e. e\<lparr>se_load := lw, vruntime := vruntime e + v\<rparr>) s;
            let s = update_min_vruntime c s;
            Some (account_cfs_rq_runtime K c delta_exec s)
          })"

definition update_stats_curr_start :: "cfs_id \<Rightarrow> se_id \<Rightarrow> kstate \<Rightarrow> kstate" where
  "update_stats_curr_start c i s = upd_se i (\<lambda>e. e\<lparr>exec_start := clock_task (rq_at s (rq_cpu (cfs_at s c)))\<rparr>) s"

section \<open>Weights of runqueues and shares of groups\<close>

definition account_entity_enqueue :: "cfs_id \<Rightarrow> se_id \<Rightarrow> kstate \<Rightarrow> kstate" where
  "account_entity_enqueue c i s =
     (let w = weight (se_load (se_at s i)); u = rq_cpu (cfs_at s c);
          s = upd_cfs c (\<lambda>q. q\<lparr>cfs_load := update_load_add w (cfs_load q)\<rparr>) s;
          s = (if parent (se_at s i) = None then upd_rq u (\<lambda>r. r\<lparr>rq_load := update_load_add w (rq_load r)\<rparr>) s else s);
          s = (if entity_is_task (se_at s i) then upd_rq u (\<lambda>r. r\<lparr>cfs_tasks := i # cfs_tasks r\<rparr>) s else s)
      in upd_cfs c (\<lambda>q. q\<lparr>nr_running := nr_running q + 1\<rparr>) s)"

definition account_entity_dequeue :: "cfs_id \<Rightarrow> se_id \<Rightarrow> kstate \<Rightarrow> kstate" where
  "account_entity_dequeue c i s =
     (let w = weight (se_load (se_at s i)); u = rq_cpu (cfs_at s c);
          s = upd_cfs c (\<lambda>q. q\<lparr>cfs_load := update_load_sub w (cfs_load q)\<rparr>) s;
          s = (if parent (se_at s i) = None then upd_rq u (\<lambda>r. r\<lparr>rq_load := update_load_sub w (rq_load r)\<rparr>) s else s);
          s = (if entity_is_task (se_at s i) then upd_rq u (\<lambda>r. r\<lparr>cfs_tasks := remove1 i (cfs_tasks r)\<rparr>) s else s)
      in upd_cfs c (\<lambda>q. q\<lparr>nr_running := nr_running q - 1\<rparr>) s)"

abbreviation (input) MIN_SHARES :: ulong where "MIN_SHARES \<equiv> 2"

definition calc_cfs_shares :: "cfs_rq \<Rightarrow> task_group \<Rightarrow> s64 option" where
  "calc_cfs_shares q t =
     (let load = scale_load_down (weight (cfs_load q));
          tg_weight = tg_load_avg t - tg_load_avg_contrib q + load;
          s = shares t * load
      in do {
        s \<leftarrow> (if tg_weight \<noteq> 0 then s64_div s tg_weight else Some s);
        let s = (if s < MIN_SHARES then MIN_SHARES else s);
        Some (if s > shares t then shares t else s)
      })"

definition reweight_entity :: "kapi \<Rightarrow> cfs_id \<Rightarrow> se_id \<Rightarrow> ulong \<Rightarrow> kstate \<Rightarrow> kstate option" where
  "reweight_entity K c i w s = do {
     s \<leftarrow> (if on_rq (se_at s i) \<noteq> 0
           then do {
             s \<leftarrow> (if curr (cfs_at s c) = Some i then update_curr K c s else Some s);
             Some (account_entity_dequeue c i s)
           }
           else Some s);
     let s = upd_se i (\<lambda>e. e\<lparr>se_load := update_load_set w (se_load e)\<rparr>) s;
     Some (if on_rq (se_at s i) \<noteq> 0 then account_entity_enqueue c i s else s)
   }"

definition update_cfs_shares :: "kapi \<Rightarrow> se_id \<Rightarrow> kstate \<Rightarrow> kstate option" where
  "update_cfs_shares K i s =
     (case my_q (se_at s i) of
        None \<Rightarrow> Some s
      | Some c \<Rightarrow>
          if throttled_hierarchy c s then Some s
          else do {
            w \<leftarrow> calc_cfs_shares (cfs_at s c) (tg_at s (cfs_tg (cfs_at s c)));
            reweight_entity K (se_cfs_rq (se_at s i)) i w s
          })"

section \<open>Placement\<close>

definition place_entity :: "nat \<Rightarrow> kapi \<Rightarrow> cfs_id \<Rightarrow> se_id \<Rightarrow> bool \<Rightarrow> kstate \<Rightarrow> kstate option" where
  "place_entity n K c i initial s = do {
     let v = min_vruntime (cfs_at s c);
     (v, s) \<leftarrow> (if initial \<and> sched_feat K START_DEBIT
                then do { (d, s) \<leftarrow> sched_vslice n K c i s; Some (v + d, s) }
                else Some (v, s));
     let v = (if initial then v
              else let thresh = ucast (sysctl_sched_latency (sysctls s)) :: ulong;
                       thresh = (if sched_feat K GENTLE_FAIR_SLEEPERS then drop_bit 1 thresh else thresh)
                   in v - thresh);
     Some (upd_se i (\<lambda>e. e\<lparr>vruntime := max_vruntime (vruntime e) v\<rparr>) s)
   }"

section \<open>Buddies\<close>

datatype buddy = Last | Next | Skip

fun buddy_of :: "buddy \<Rightarrow> cfs_rq \<Rightarrow> se_id option" where
  "buddy_of Last q = last_buddy q"
| "buddy_of Next q = next_buddy q"
| "buddy_of Skip q = skip_buddy q"

fun set_buddy :: "buddy \<Rightarrow> se_id option \<Rightarrow> cfs_rq \<Rightarrow> cfs_rq" where
  "set_buddy Last x q = q\<lparr>last_buddy := x\<rparr>"
| "set_buddy Next x q = q\<lparr>next_buddy := x\<rparr>"
| "set_buddy Skip x q = q\<lparr>skip_buddy := x\<rparr>"

text \<open>\<open>__clear_buddies_last\<close> and its two siblings: up the hierarchy while the entity is the buddy.\<close>

fun raw_clear_buddies :: "nat \<Rightarrow> buddy \<Rightarrow> se_id option \<Rightarrow> kstate \<Rightarrow> kstate option" where
  "raw_clear_buddies _ b None s = Some s"
| "raw_clear_buddies 0 b (Some i) s = None"
| "raw_clear_buddies (Suc n) b (Some i) s =
     (let c = se_cfs_rq (se_at s i) in
      if buddy_of b (cfs_at s c) \<noteq> Some i then Some s
      else raw_clear_buddies n b (parent (se_at s i)) (upd_cfs c (set_buddy b None) s))"

definition clear_buddies :: "nat \<Rightarrow> cfs_id \<Rightarrow> se_id option \<Rightarrow> kstate \<Rightarrow> kstate option" where
  "clear_buddies n c i s = do {
     s \<leftarrow> (if last_buddy (cfs_at s c) = i then raw_clear_buddies n Last i s else Some s);
     s \<leftarrow> (if next_buddy (cfs_at s c) = i then raw_clear_buddies n Next i s else Some s);
     if skip_buddy (cfs_at s c) = i then raw_clear_buddies n Skip i s else Some s
   }"

fun mark_buddies :: "nat \<Rightarrow> buddy \<Rightarrow> se_id option \<Rightarrow> kstate \<Rightarrow> kstate option" where
  "mark_buddies _ b None s = Some s"
| "mark_buddies 0 b (Some i) s = None"
| "mark_buddies (Suc n) b (Some i) s =
     mark_buddies n b (parent (se_at s i)) (upd_cfs (se_cfs_rq (se_at s i)) (set_buddy b (Some i)) s)"

definition set_last_buddy :: "nat \<Rightarrow> se_id \<Rightarrow> kstate \<Rightarrow> kstate option" where
  "set_last_buddy n i s =
     (if entity_is_task (se_at s i) \<and> task_policy (task_at s i) = SCHED_IDLE then Some s else mark_buddies n Last (Some i) s)"

definition set_next_buddy :: "nat \<Rightarrow> se_id \<Rightarrow> kstate \<Rightarrow> kstate option" where
  "set_next_buddy n i s =
     (if entity_is_task (se_at s i) \<and> task_policy (task_at s i) = SCHED_IDLE then Some s else mark_buddies n Next (Some i) s)"

definition set_skip_buddy :: "nat \<Rightarrow> se_id \<Rightarrow> kstate \<Rightarrow> kstate option" where
  "set_skip_buddy n i s = mark_buddies n Skip (Some i) s"

section \<open>Dequeueing\<close>

type_synonym flags = u32

abbreviation (input) DEQUEUE_SLEEP :: flags where "DEQUEUE_SLEEP \<equiv> 1"
abbreviation (input) DEQUEUE_SAVE :: flags where "DEQUEUE_SAVE \<equiv> 2"
abbreviation (input) DEQUEUE_MOVE :: flags where "DEQUEUE_MOVE \<equiv> 4"
abbreviation (input) ENQUEUE_WAKEUP :: flags where "ENQUEUE_WAKEUP \<equiv> 1"
abbreviation (input) ENQUEUE_MIGRATED :: flags where "ENQUEUE_MIGRATED \<equiv> 32"

definition dequeue_entity :: "nat \<Rightarrow> kapi \<Rightarrow> cfs_id \<Rightarrow> se_id \<Rightarrow> flags \<Rightarrow> kstate \<Rightarrow> kstate option" where
  "dequeue_entity n K c i flags s = do {
     s \<leftarrow> update_curr K c s;
     s \<leftarrow> update_load_avg K i True False s;
     let s = dequeue_entity_load_avg c i s;
     s \<leftarrow> clear_buddies n c (Some i) s;
     s \<leftarrow> (if curr (cfs_at s c) \<noteq> Some i then raw_dequeue_entity K c i s else Some s);
     let s = upd_se i (\<lambda>e. e\<lparr>on_rq := 0\<rparr>) s;
     let s = account_entity_dequeue c i s;
     let s = (if flags AND DEQUEUE_SLEEP = 0 then upd_se i (\<lambda>e. e\<lparr>vruntime := vruntime e - min_vruntime (cfs_at s c)\<rparr>) s else s);
     let s = return_cfs_rq_runtime K c s;
     s \<leftarrow> update_cfs_shares K i s;
     Some (if flags AND (DEQUEUE_SAVE OR DEQUEUE_MOVE) = DEQUEUE_SAVE then update_min_vruntime c s else s)
   }"

section \<open>The tick\<close>

definition check_preempt_tick :: "nat \<Rightarrow> kapi \<Rightarrow> cfs_id \<Rightarrow> se_id \<Rightarrow> kstate \<Rightarrow> kstate option" where
  "check_preempt_tick n K c i s = do {
     (ideal_runtime, s) \<leftarrow> sched_slice n K c i s;
     let delta_exec = sum_exec_runtime (se_at s i) - prev_sum_exec_runtime (se_at s i);
     if delta_exec > ideal_runtime then clear_buddies n c (Some i) (resched_curr (rq_cpu (cfs_at s c)) s)
     else if delta_exec < ucast (sysctl_sched_min_granularity (sysctls s)) then Some s
     else case pick_first_entity (cfs_at s c) of
       None \<Rightarrow> None
     | Some f \<Rightarrow>
         let delta = vruntime (se_at s i) - vruntime (se_at s f) in
         Some (if sint delta < 0 then s
               else if delta > ideal_runtime then resched_curr (rq_cpu (cfs_at s c)) s
               else s)
   }"

definition entity_tick :: "nat \<Rightarrow> kapi \<Rightarrow> cfs_id \<Rightarrow> se_id \<Rightarrow> kstate \<Rightarrow> kstate option" where
  "entity_tick n K c i s = do {
     s \<leftarrow> update_curr K c s;
     s \<leftarrow> update_load_avg K i True False s;
     s \<leftarrow> update_cfs_shares K i s;
     if nr_running (cfs_at s c) > 1 then check_preempt_tick n K c i s else Some s
   }"

section \<open>Choosing the next entity\<close>

definition set_next_entity :: "kapi \<Rightarrow> cfs_id \<Rightarrow> se_id \<Rightarrow> kstate \<Rightarrow> kstate option" where
  "set_next_entity K c i s = do {
     s \<leftarrow> (if on_rq (se_at s i) \<noteq> 0
           then do { s \<leftarrow> raw_dequeue_entity K c i s; update_load_avg K i True False s }
           else Some s);
     let s = update_stats_curr_start c i s;
     let s = upd_cfs c (\<lambda>q. q\<lparr>curr := Some i\<rparr>) s;
     Some (upd_se i (\<lambda>e. e\<lparr>prev_sum_exec_runtime := sum_exec_runtime e\<rparr>) s)
   }"

text \<open>The granularity in the virtual time of the entity that would preempt; its cached inverse is updated.\<close>

definition wakeup_gran :: "kapi \<Rightarrow> se_id \<Rightarrow> kstate \<Rightarrow> (u64 \<times> kstate) option" where
  "wakeup_gran K i s = do {
     (v, lw) \<leftarrow> calc_delta_fair (mul_u64_u32_shr K) (ucast (sysctl_sched_wakeup_granularity (sysctls s))) (se_load (se_at s i));
     Some (v, upd_se i (\<lambda>e. e\<lparr>se_load := lw\<rparr>) s)
   }"

definition wakeup_preempt_entity :: "kapi \<Rightarrow> se_id \<Rightarrow> se_id \<Rightarrow> kstate \<Rightarrow> (int \<times> kstate) option" where
  "wakeup_preempt_entity K j i s =
     (let vdiff = vruntime (se_at s j) - vruntime (se_at s i) in
      if sint vdiff \<le> 0 then Some (- 1, s)
      else do {
        (gran, s) \<leftarrow> wakeup_gran K i s;
        Some (if sint vdiff > sint gran then 1 else 0, s)
      })"

text \<open>Take the candidate unless that is unfair to the leftmost entity.\<close>

definition favour :: "kapi \<Rightarrow> se_id option \<Rightarrow> se_id option \<Rightarrow> se_id option \<times> kstate \<Rightarrow> (se_id option \<times> kstate) option" where
  "favour K first cand r =
     (case (r, cand) of
        ((se, s), None) \<Rightarrow> Some (se, s)
      | ((se, s), Some x) \<Rightarrow>
          (case first of
             None \<Rightarrow> None
           | Some l \<Rightarrow> do { (p, s) \<leftarrow> wakeup_preempt_entity K x l s; Some (if p < 1 then Some x else se, s) }))"

definition earlier :: "kstate \<Rightarrow> se_id option \<Rightarrow> se_id option \<Rightarrow> se_id option" where
  "earlier s cur x =
     (case x of
        None \<Rightarrow> cur
      | Some l \<Rightarrow> (case cur of None \<Rightarrow> x | Some j \<Rightarrow> if entity_before (se_at s j) (se_at s l) then cur else x))"

definition pick_next_entity :: "nat \<Rightarrow> kapi \<Rightarrow> cfs_id \<Rightarrow> se_id option \<Rightarrow> kstate \<Rightarrow> (se_id option \<times> kstate) option" where
  "pick_next_entity n K c cur s =
     (let q = cfs_at s c; left = earlier s cur (pick_first_entity q) in do {
        (se, s) \<leftarrow>
          (if skip_buddy q = left
           then do {
             second \<leftarrow> (if left = cur then Some (pick_first_entity q)
                       else (case left of None \<Rightarrow> None | Some l \<Rightarrow> Some (earlier s cur (raw_pick_next_entity K q l))));
             favour K left second (left, s)
           }
           else Some (left, s));
        (se, s) \<leftarrow> favour K left (last_buddy q) (se, s);
        (se, s) \<leftarrow> favour K left (next_buddy q) (se, s);
        s \<leftarrow> clear_buddies n c se s;
        Some (se, s)
      })"

end
