(* ===== verification/Throttle.thy ===== *)
theory Throttle
  imports Entity
begin

text \<open>
  Throttling of groups that ran out of runtime, \<open>kernel/sched/fair.c\<close> lines 4905--5115, 5201--5252, 5272--5321
  and 5377--5399, with \<open>enqueue_entity\<close> and \<open>put_prev_entity\<close> (lines 4304--4359 and 4603--4629), which call it.
  Timer callbacks are operations on the pool; how often the period timer has expired is an argument.
\<close>

definition add_nr_running :: "cpu \<Rightarrow> u32 \<Rightarrow> kstate \<Rightarrow> kstate" where
  "add_nr_running u k s =
     (let prev_nr = rq_nr_running (rq_at s u); s = upd_rq u (\<lambda>r. r\<lparr>rq_nr_running := prev_nr + k\<rparr>) s
      in if prev_nr < 2 \<and> rq_nr_running (rq_at s u) \<ge> 2 then upd_rd u (\<lambda>d. d\<lparr>overload := True\<rparr>) s else s)"

definition sub_nr_running :: "cpu \<Rightarrow> u32 \<Rightarrow> kstate \<Rightarrow> kstate" where
  "sub_nr_running u k s = upd_rq u (\<lambda>r. r\<lparr>rq_nr_running := rq_nr_running r - k\<rparr>) s"

section \<open>Throttling\<close>

text \<open>The loop of \<open>throttle_cfs_rq\<close>; the entity it stops at is returned.\<close>

fun throttle_up :: "nat \<Rightarrow> kapi \<Rightarrow> u32 \<Rightarrow> bool \<Rightarrow> se_id option \<Rightarrow> kstate \<Rightarrow> (se_id option \<times> kstate) option" where
  "throttle_up _ K task_delta deq None s = Some (None, s)"
| "throttle_up 0 K task_delta deq (Some i) s = None"
| "throttle_up (Suc n) K task_delta deq (Some i) s =
     (let c = se_cfs_rq (se_at s i) in
      if on_rq (se_at s i) = 0 then Some (Some i, s)
      else do {
        s \<leftarrow> (if deq then dequeue_entity (Suc n) K c i DEQUEUE_SLEEP s else Some s);
        let s = upd_cfs c (\<lambda>q. q\<lparr>h_nr_running := h_nr_running q - task_delta\<rparr>) s;
        throttle_up n K task_delta (deq \<and> weight (cfs_load (cfs_at s c)) = 0) (parent (se_at s i)) s
      })"

definition throttle_cfs_rq :: "nat \<Rightarrow> kapi \<Rightarrow> cfs_id \<Rightarrow> kstate \<Rightarrow> kstate option" where
  "throttle_cfs_rq n K c s =
     (let u = rq_cpu (cfs_at s c); g = cfs_tg (cfs_at s c); i = tg_se (tg_at s g) u;
          s = fold (tg_throttle_down u) (tg_preorder K g) s;
          task_delta = h_nr_running (cfs_at s c)
      in do {
        (stop, s) \<leftarrow> throttle_up n K task_delta True i s;
        let s = (if stop = None then sub_nr_running u task_delta s else s);
        let s = upd_cfs c (\<lambda>q. q\<lparr>throttled := True, throttled_clock := clock (rq_at s u)\<rparr>) s;
        let was_empty = (throttled_cfs_rq (bandwidth_of g s) = []);
        let s = upd_bandwidth g (\<lambda>b. b\<lparr>throttled_cfs_rq := c # throttled_cfs_rq b\<rparr>) s;
        Some (if was_empty then start_cfs_bandwidth g s else s)
      })"

definition check_enqueue_throttle :: "nat \<Rightarrow> kapi \<Rightarrow> cfs_id \<Rightarrow> kstate \<Rightarrow> kstate option" where
  "check_enqueue_throttle n K c s =
     (if \<not> cfs_bandwidth_used s then Some s
      else if \<not> runtime_enabled (cfs_at s c) \<or> curr (cfs_at s c) \<noteq> None then Some s
      else if cfs_rq_throttled (cfs_at s c) s then Some s
      else let s = account_cfs_rq_runtime K c 0 s
           in if sint (runtime_remaining (cfs_at s c)) \<le> 0 then throttle_cfs_rq n K c s else Some s)"

definition check_cfs_rq_runtime :: "nat \<Rightarrow> kapi \<Rightarrow> cfs_id \<Rightarrow> kstate \<Rightarrow> (bool \<times> kstate) option" where
  "check_cfs_rq_runtime n K c s =
     (if \<not> cfs_bandwidth_used s then Some (False, s)
      else if \<not> runtime_enabled (cfs_at s c) \<or> sint (runtime_remaining (cfs_at s c)) > 0 then Some (False, s)
      else if cfs_rq_throttled (cfs_at s c) s then Some (True, s)
      else do { s \<leftarrow> throttle_cfs_rq n K c s; Some (True, s) })"

section \<open>Enqueueing and putting back\<close>

definition enqueue_entity :: "nat \<Rightarrow> kapi \<Rightarrow> cfs_id \<Rightarrow> se_id \<Rightarrow> flags \<Rightarrow> kstate \<Rightarrow> kstate option" where
  "enqueue_entity n K c i flags s =
     (let renorm = (flags AND ENQUEUE_WAKEUP = 0 \<or> flags AND ENQUEUE_MIGRATED \<noteq> 0);
          running = (curr (cfs_at s c) = Some i);
          renormed = (\<lambda>s. upd_se i (\<lambda>e. e\<lparr>vruntime := vruntime e + min_vruntime (cfs_at s c)\<rparr>) s)
      in do {
        s \<leftarrow> update_curr K c (if renorm \<and> running then renormed s else s);
        let s = (if renorm \<and> \<not> running then renormed s else s);
        s \<leftarrow> update_load_avg K i True False s;
        let s = enqueue_entity_load_avg c i s;
        s \<leftarrow> update_cfs_shares K i s;
        let s = account_entity_enqueue c i s;
        s \<leftarrow> (if flags AND ENQUEUE_WAKEUP \<noteq> 0 then place_entity n K c i False s else Some s);
        s \<leftarrow> (if \<not> running then raw_enqueue_entity K c i s else Some s);
        let s = upd_se i (\<lambda>e. e\<lparr>on_rq := 1\<rparr>) s;
        if nr_running (cfs_at s c) = 1
        then do { s \<leftarrow> list_add_leaf_cfs_rq c s; check_enqueue_throttle n K c s }
        else Some s
      })"

definition put_prev_entity :: "nat \<Rightarrow> kapi \<Rightarrow> cfs_id \<Rightarrow> se_id \<Rightarrow> kstate \<Rightarrow> kstate option" where
  "put_prev_entity n K c i s = do {
     s \<leftarrow> (if on_rq (se_at s i) \<noteq> 0 then update_curr K c s else Some s);
     (t, s) \<leftarrow> check_cfs_rq_runtime n K c s;
     s \<leftarrow> (if on_rq (se_at s i) \<noteq> 0
           then do { s \<leftarrow> raw_enqueue_entity K c i s; update_load_avg K i False False s }
           else Some s);
     Some (upd_cfs c (\<lambda>q. q\<lparr>curr := None\<rparr>) s)
   }"

section \<open>Unthrottling\<close>

fun unthrottle_up :: "nat \<Rightarrow> kapi \<Rightarrow> u32 \<Rightarrow> bool \<Rightarrow> se_id option \<Rightarrow> kstate \<Rightarrow> (se_id option \<times> kstate) option" where
  "unthrottle_up _ K task_delta enq None s = Some (None, s)"
| "unthrottle_up 0 K task_delta enq (Some i) s = None"
| "unthrottle_up (Suc n) K task_delta enq (Some i) s =
     (let enq = (enq \<and> on_rq (se_at s i) = 0); c = se_cfs_rq (se_at s i) in do {
        s \<leftarrow> (if enq then enqueue_entity (Suc n) K c i ENQUEUE_WAKEUP s else Some s);
        let s = upd_cfs c (\<lambda>q. q\<lparr>h_nr_running := h_nr_running q + task_delta\<rparr>) s;
        if cfs_rq_throttled (cfs_at s c) s then Some (Some i, s)
        else unthrottle_up n K task_delta enq (parent (se_at s i)) s
      })"

definition unthrottle_cfs_rq :: "nat \<Rightarrow> kapi \<Rightarrow> cfs_id \<Rightarrow> kstate \<Rightarrow> kstate option" where
  "unthrottle_cfs_rq n K c s =
     (let u = rq_cpu (cfs_at s c); g = cfs_tg (cfs_at s c); i = tg_se (tg_at s g) u;
          s = upd_cfs c (\<lambda>q. q\<lparr>throttled := False\<rparr>) s;
          s = upd_rq u (update_rq_clock K) s;
          s = upd_bandwidth g (\<lambda>b. b\<lparr>throttled_time := throttled_time b + (clock (rq_at s u) - throttled_clock (cfs_at s c)),
                 throttled_cfs_rq := remove1 c (throttled_cfs_rq b)\<rparr>) s;
          s = fold (tg_unthrottle_up u) (tg_postorder K g) s
      in if weight (cfs_load (cfs_at s c)) = 0 then Some s
         else let task_delta = h_nr_running (cfs_at s c) in do {
           (stop, s) \<leftarrow> unthrottle_up n K task_delta True i s;
           let s = (if stop = None then add_nr_running u task_delta s else s);
           Some (if rq_curr (rq_at s u) = rq_idle (rq_at s u) \<and> nr_running (cfs_at s (rq_cfs (rq_at s u))) \<noteq> 0
                 then resched_curr u s else s)
         })"

section \<open>Distribution of a new period's runtime\<close>

text \<open>
  The loop over the throttled list. A runqueue leaves the list when it is unthrottled, and one throttled
  meanwhile is added at the head, behind the loop: it runs over the list as it was at the start.
\<close>

fun distribute_over :: "nat \<Rightarrow> kapi \<Rightarrow> u64 \<Rightarrow> cfs_id list \<Rightarrow> u64 \<Rightarrow> kstate \<Rightarrow> (u64 \<times> kstate) option" where
  "distribute_over n K expires [] remaining s = Some (remaining, s)"
| "distribute_over n K expires (c # cs) remaining s = do {
     (remaining, s) \<leftarrow>
       (if \<not> cfs_rq_throttled (cfs_at s c) s then Some (remaining, s)
        else let want = - runtime_remaining (cfs_at s c) + 1;
                 runtime = (if want > remaining then remaining else want);
                 s = upd_cfs c (\<lambda>q. q\<lparr>runtime_remaining := runtime_remaining q + runtime, cfs_runtime_expires := expires\<rparr>) s
             in do {
               s \<leftarrow> (if sint (runtime_remaining (cfs_at s c)) > 0 then unthrottle_cfs_rq n K c s else Some s);
               Some (remaining - runtime, s)
             });
     if remaining = 0 then Some (remaining, s) else distribute_over n K expires cs remaining s
   }"

definition distribute_cfs_runtime :: "nat \<Rightarrow> kapi \<Rightarrow> tg_id \<Rightarrow> u64 \<Rightarrow> u64 \<Rightarrow> kstate \<Rightarrow> (u64 \<times> kstate) option" where
  "distribute_cfs_runtime n K g remaining expires s = do {
     (left_over, s) \<leftarrow> distribute_over n K expires (throttled_cfs_rq (bandwidth_of g s)) remaining s;
     Some (remaining - left_over, s)
   }"

text \<open>\<open>while (throttled && cfs_b->runtime > 0)\<close>, with fuel \<open>m\<close> of its own.\<close>

fun distribute_loop :: "nat \<Rightarrow> nat \<Rightarrow> kapi \<Rightarrow> tg_id \<Rightarrow> u64 \<Rightarrow> bool \<Rightarrow> kstate \<Rightarrow> kstate option" where
  "distribute_loop m n K g expires thr s =
     (if thr \<and> runtime (bandwidth_of g s) > 0
      then (case m of
              0 \<Rightarrow> None
            | Suc m \<Rightarrow> do {
                (used, s) \<leftarrow> distribute_cfs_runtime n K g (runtime (bandwidth_of g s)) expires s;
                let thr = (throttled_cfs_rq (bandwidth_of g s) \<noteq> []);
                let s = upd_bandwidth g (\<lambda>b. b\<lparr>runtime := runtime b - min used (runtime b)\<rparr>) s;
                distribute_loop m n K g expires thr s
              })
      else Some s)"

declare distribute_loop.simps [simp del]

definition do_sched_cfs_period_timer :: "nat \<Rightarrow> nat \<Rightarrow> kapi \<Rightarrow> tg_id \<Rightarrow> int \<Rightarrow> kstate \<Rightarrow> (bool \<times> kstate) option" where
  "do_sched_cfs_period_timer m n K g overrun s =
     (if quota (bandwidth_of g s) = RUNTIME_INF then Some (True, s)
      else let thr = (throttled_cfs_rq (bandwidth_of g s) \<noteq> []);
               s = upd_bandwidth g (\<lambda>b. b\<lparr>nr_periods := nr_periods b + overrun\<rparr>) s
           in if idle (bandwidth_of g s) \<and> \<not> thr then Some (True, s)
              else let s = refill_cfs_bandwidth_runtime K g s
                   in if \<not> thr then Some (False, upd_bandwidth g (\<lambda>b. b\<lparr>idle := True\<rparr>) s)
                      else let s = upd_bandwidth g (\<lambda>b. b\<lparr>nr_throttled := nr_throttled b + overrun\<rparr>) s in do {
                        s \<leftarrow> distribute_loop m n K g (runtime_expires (bandwidth_of g s)) thr s;
                        Some (False, upd_bandwidth g (\<lambda>b. b\<lparr>idle := False\<rparr>) s)
                      })"

text \<open>The period timer: \<open>overruns\<close> are the non-zero results of \<open>hrtimer_forward_now\<close> before it returns zero.\<close>

fun period_loop :: "nat \<Rightarrow> nat \<Rightarrow> kapi \<Rightarrow> tg_id \<Rightarrow> int list \<Rightarrow> bool \<Rightarrow> kstate \<Rightarrow> (bool \<times> kstate) option" where
  "period_loop m n K g [] idle_now s = Some (idle_now, s)"
| "period_loop m n K g (k # ks) idle_now s = do {
     (idle_now, s) \<leftarrow> do_sched_cfs_period_timer m n K g k s;
     period_loop m n K g ks idle_now s
   }"

definition sched_cfs_period_timer :: "nat \<Rightarrow> nat \<Rightarrow> kapi \<Rightarrow> tg_id \<Rightarrow> int list \<Rightarrow> kstate \<Rightarrow> (bool \<times> kstate) option" where
  "sched_cfs_period_timer m n K g overruns s = do {
     (idle_now, s) \<leftarrow> period_loop m n K g overruns False s;
     Some (\<not> idle_now, if idle_now then upd_bandwidth g (\<lambda>b. b\<lparr>period_active := False\<rparr>) s else s)
   }"

text \<open>The slack timer does not restart itself.\<close>

definition do_sched_cfs_slack_timer :: "nat \<Rightarrow> kapi \<Rightarrow> tg_id \<Rightarrow> kstate \<Rightarrow> kstate option" where
  "do_sched_cfs_slack_timer n K g s =
     (if runtime_refresh_within K g min_bandwidth_expiration then Some s
      else let b = bandwidth_of g s;
               runtime0 = (if quota b \<noteq> RUNTIME_INF \<and> runtime b > sched_cfs_bandwidth_slice s then runtime b else 0);
               expires = runtime_expires b
           in if runtime0 = 0 then Some s
              else do {
                (used, s) \<leftarrow> distribute_cfs_runtime n K g runtime0 expires s;
                Some (if expires = runtime_expires (bandwidth_of g s)
                      then upd_bandwidth g (\<lambda>b. b\<lparr>runtime := runtime b - min used (runtime b)\<rparr>) s else s)
              })"

definition sched_cfs_slack_timer :: "nat \<Rightarrow> kapi \<Rightarrow> tg_id \<Rightarrow> kstate \<Rightarrow> (bool \<times> kstate) option" where
  "sched_cfs_slack_timer n K g s = do { s \<leftarrow> do_sched_cfs_slack_timer n K g s; Some (False, s) }"

section \<open>A cpu that goes offline\<close>

text \<open>
  The loop over the leaf list: unthrottling may add runqueues to the list, and the next one is read after
  that. Fuel \<open>m\<close> counts the runqueues visited.
\<close>

fun unthrottle_from :: "nat \<Rightarrow> nat \<Rightarrow> kapi \<Rightarrow> cpu \<Rightarrow> cfs_id option \<Rightarrow> kstate \<Rightarrow> kstate option" where
  "unthrottle_from m n K u None s = Some s"
| "unthrottle_from 0 n K u (Some c) s = None"
| "unthrottle_from (Suc m) n K u (Some c) s = do {
     s \<leftarrow> (if \<not> runtime_enabled (cfs_at s c) then Some s
           else let s = upd_cfs c (\<lambda>q. q\<lparr>runtime_remaining := 1, runtime_enabled := False\<rparr>) s
                in if cfs_rq_throttled (cfs_at s c) s then unthrottle_cfs_rq n K c s else Some s);
     unthrottle_from m n K u (next_in c (leaf_cfs_rq_list (rq_at s u))) s
   }"

definition unthrottle_offline_cfs_rqs :: "nat \<Rightarrow> nat \<Rightarrow> kapi \<Rightarrow> cpu \<Rightarrow> kstate \<Rightarrow> kstate option" where
  "unthrottle_offline_cfs_rqs m n K u s =
     unthrottle_from m n K u (case leaf_cfs_rq_list (rq_at s u) of [] \<Rightarrow> None | c # _ \<Rightarrow> Some c) s"

end
