(* ===== verification/Capacity.thy ===== *)
theory Capacity
  imports Throttle
begin

text \<open>
  Capacity and utilisation of a cpu: \<open>kernel/sched/sched.h\<close> lines 1559--1562, 1614--1675 and
  \<open>kernel/sched/fair.c\<close> lines 6180--6195, 6771--6811, 6833--6895, 7325--7350 and 9081--9105, without WALT and SchedTune.
\<close>

type_synonym s32 = "32 word"

definition capacity_of :: "cpu \<Rightarrow> kstate \<Rightarrow> ulong" where
  "capacity_of u s = cpu_capacity (rq_at s u)"

definition capacity_orig_of :: "cpu \<Rightarrow> kstate \<Rightarrow> ulong" where
  "capacity_orig_of u s = cpu_capacity_orig (rq_at s u)"

definition capacity_curr_of :: "kapi \<Rightarrow> cpu \<Rightarrow> kstate \<Rightarrow> ulong" where
  "capacity_curr_of K u s = drop_bit 10 (cpu_capacity_orig (rq_at s u) * arch_scale_freq_capacity K u)"

text \<open>\<open>__cpu_util\<close>: the sum is an \<open>int\<close>.\<close>

definition raw_cpu_util :: "cpu \<Rightarrow> s32 \<Rightarrow> kstate \<Rightarrow> ulong" where
  "raw_cpu_util u delta s =
     (let util = util_avg (cfs_avg (cfs_at s (rq_cfs (rq_at s u))));
          delta = delta + ucast util
      in if sint delta < 0 then 0
         else if ucast delta \<ge> capacity_orig_of u s then capacity_orig_of u s else ucast delta)"

definition cpu_util :: "cpu \<Rightarrow> kstate \<Rightarrow> ulong" where
  "cpu_util u s = raw_cpu_util u 0 s"

definition task_util :: "se_id \<Rightarrow> kstate \<Rightarrow> ulong" where
  "task_util i s = util_avg (se_avg (se_at s i))"

definition boosted_cpu_util :: "cpu \<Rightarrow> kstate \<Rightarrow> ulong" where
  "boosted_cpu_util u s = cpu_util u s"

definition boosted_task_util :: "se_id \<Rightarrow> kstate \<Rightarrow> ulong" where
  "boosted_task_util i s = task_util i s"

text \<open>\<open>__task_fits\<close>: \<open>util\<close> is an \<open>int\<close>, and so is the sum it is assigned.\<close>

definition task_fits_with :: "se_id \<Rightarrow> cpu \<Rightarrow> s32 \<Rightarrow> kstate \<Rightarrow> bool" where
  "task_fits_with i u util s =
     (let util = util + ucast (boosted_task_util i s);
          need = (ucast util :: u32) * fair_capacity_margin (sysctls s)
      in capacity_of u s * 1024 > ucast need)"

definition task_fits_max :: "se_id \<Rightarrow> cpu \<Rightarrow> kstate \<Rightarrow> bool" where
  "task_fits_max i u s =
     (let cap = capacity_of u s; max_cap = max_cpu_capacity_val (root_domain_of u s) in
      cap = max_cap \<or> cap * ucast (fair_capacity_margin (sysctls s)) > max_cap * 1024 \<or> task_fits_with i u 0 s)"

definition cpu_overutilized :: "cpu \<Rightarrow> kstate \<Rightarrow> bool" where
  "cpu_overutilized u s \<longleftrightarrow> capacity_of u s * 1024 < cpu_util u s * ucast (fair_capacity_margin (sysctls s))"

text \<open>\<open>max_t(long, ...)\<close> takes the difference as a signed number; the result is an \<open>int\<close>.\<close>

definition cpu_util_wake :: "cpu \<Rightarrow> se_id \<Rightarrow> kstate \<Rightarrow> s32" where
  "cpu_util_wake u i s = ucast
     (if u \<noteq> task_cpu (task_at s i) \<or> last_update_time (se_avg (se_at s i)) = 0 then cpu_util u s
      else let d = cpu_util u s - task_util i s;
               util = (if sint d > 0 then d else 0)
           in if util \<ge> capacity_orig_of u s then capacity_orig_of u s else util)"

definition capacity_spare_wake :: "cpu \<Rightarrow> se_id \<Rightarrow> kstate \<Rightarrow> ulong" where
  "capacity_spare_wake u i s = capacity_orig_of u s - scast (cpu_util_wake u i s)"

text \<open>
  The share that real-time tasks and interrupts leave. \<open>div_u64\<close> takes a divisor of 32 bits, so the period is
  truncated, and divides by zero where its low 32 bits vanish.
\<close>

definition avg_period :: "kstate \<Rightarrow> u64" where
  "avg_period s = ucast (fair_time_avg (sysctls s)) * 1000000 div 2"

definition scale_rt_capacity :: "cpu \<Rightarrow> kstate \<Rightarrow> ulong option" where
  "scale_rt_capacity u s =
     (let q = rq_at s u;
          delta = clock q - age_stamp q;
          delta = (if sint delta < 0 then 0 else delta);
          total = ucast (avg_period s + delta) :: u32
      in if total = 0 then None
         else let used = rt_avg q div ucast total in Some (if used < SCHED_CAPACITY_SCALE then SCHED_CAPACITY_SCALE - used else 1))"

end
