(* ===== verification/Tasks.thy ===== *)
theory Tasks
  imports Capacity
begin

text \<open>
  The methods of \<open>fair_sched_class\<close> in \<open>kernel/sched/fair.c\<close>: enqueueing and dequeueing tasks (lines
  5524--5685), preemption by a woken task, the choice of the next task, yielding (8087--8373), migration,
  death (7952--8002), ticks, forks and changes of class (11067--11080, 11087--11094, 11115--11314). The fuel of the
  walks is the depth of the hierarchy. Other classes and the core are arguments: \<open>put_prev_task\<close> of another
  class, \<open>check_preempt_curr\<close>, whether the running task has been asked to reschedule. SchedTune and the
  high-resolution tick are left out.
\<close>

definition update_curr_fair :: "kapi \<Rightarrow> cpu \<Rightarrow> kstate \<Rightarrow> kstate option" where
  "update_curr_fair K u s = update_curr K (se_cfs_rq (se_at s (rq_curr (rq_at s u)))) s"

section \<open>Enqueueing and dequeueing a task\<close>

definition cpufreq_update_this_cpu :: "kapi \<Rightarrow> cpu \<Rightarrow> u32 \<Rightarrow> kstate \<Rightarrow> kstate" where
  "cpufreq_update_this_cpu K u fl s = (if u = this_cpu K then cpufreq_update_util u fl s else s)"

abbreviation (input) SCHED_CPUFREQ_IOWAIT :: u32 where "SCHED_CPUFREQ_IOWAIT \<equiv> 4"

text \<open>The first loop returns the entity it stopped at.\<close>

fun enqueue_up :: "nat \<Rightarrow> kapi \<Rightarrow> flags \<Rightarrow> se_id option \<Rightarrow> kstate \<Rightarrow> (se_id option \<times> kstate) option" where
  "enqueue_up _ K fl None s = Some (None, s)"
| "enqueue_up 0 K fl (Some i) s = None"
| "enqueue_up (Suc n) K fl (Some i) s =
     (let c = se_cfs_rq (se_at s i) in
      if on_rq (se_at s i) \<noteq> 0 then Some (Some i, s)
      else do {
        s \<leftarrow> enqueue_entity (Suc n) K c i fl s;
        if cfs_rq_throttled (cfs_at s c) s then Some (Some i, s)
        else enqueue_up n K ENQUEUE_WAKEUP (parent (se_at s i)) (upd_cfs c (\<lambda>q. q\<lparr>h_nr_running := h_nr_running q + 1\<rparr>) s)
      })"

text \<open>The second loop of both functions, with the change of \<open>h_nr_running\<close>.\<close>

fun adjust_up :: "nat \<Rightarrow> kapi \<Rightarrow> u32 \<Rightarrow> se_id option \<Rightarrow> kstate \<Rightarrow> (se_id option \<times> kstate) option" where
  "adjust_up _ K d None s = Some (None, s)"
| "adjust_up 0 K d (Some i) s = None"
| "adjust_up (Suc n) K d (Some i) s =
     (let c = se_cfs_rq (se_at s i); s = upd_cfs c (\<lambda>q. q\<lparr>h_nr_running := h_nr_running q + d\<rparr>) s in
      if cfs_rq_throttled (cfs_at s c) s then Some (Some i, s)
      else do {
        s \<leftarrow> update_load_avg K i True False s;
        s \<leftarrow> update_cfs_shares K i s;
        adjust_up n K d (parent (se_at s i)) s
      })"

abbreviation (input) ENQUEUE_WAKEUP_NEW :: flags where "ENQUEUE_WAKEUP_NEW \<equiv> 64"

text \<open>The root domain of cpu \<open>u\<close> learns that cpu \<open>v\<close> is overutilized.\<close>

definition note_overutilized :: "cpu \<Rightarrow> cpu \<Rightarrow> kstate \<Rightarrow> kstate" where
  "note_overutilized u v s =
     (if \<not> overutilized (root_domain_of u s) \<and> cpu_overutilized v s then upd_rd u (\<lambda>d. d\<lparr>overutilized := True\<rparr>) s else s)"

definition set_misfit :: "cpu \<Rightarrow> bool \<Rightarrow> kstate \<Rightarrow> kstate" where
  "set_misfit u b s = upd_rq u (\<lambda>r. r\<lparr>misfit_task := b\<rparr>) s"

definition enqueue_task_fair :: "nat \<Rightarrow> kapi \<Rightarrow> cpu \<Rightarrow> se_id \<Rightarrow> flags \<Rightarrow> kstate \<Rightarrow> kstate option" where
  "enqueue_task_fair n K u i fl s =
     (let task_new = (fl AND ENQUEUE_WAKEUP_NEW \<noteq> 0);
          s = (if in_iowait (task_at s i) then cpufreq_update_this_cpu K u SCHED_CPUFREQ_IOWAIT s else s) in do {
        (stop, s) \<leftarrow> enqueue_up n K fl (Some i) s;
        (stop, s) \<leftarrow> adjust_up n K 1 stop s;
        if stop = None
        then let s = add_nr_running u 1 s in Some (if \<not> task_new then note_overutilized u u s else s)
        else Some s
      })"

fun dequeue_up :: "nat \<Rightarrow> kapi \<Rightarrow> bool \<Rightarrow> flags \<Rightarrow> se_id option \<Rightarrow> kstate \<Rightarrow> (se_id option \<times> kstate) option" where
  "dequeue_up _ K task_sleep fl None s = Some (None, s)"
| "dequeue_up 0 K task_sleep fl (Some i) s = None"
| "dequeue_up (Suc n) K task_sleep fl (Some i) s =
     (let c = se_cfs_rq (se_at s i) in do {
        s \<leftarrow> dequeue_entity (Suc n) K c i fl s;
        if cfs_rq_throttled (cfs_at s c) s then Some (Some i, s)
        else let s = upd_cfs c (\<lambda>q. q\<lparr>h_nr_running := h_nr_running q - 1\<rparr>) s; p = parent (se_at s i) in
          if weight (cfs_load (cfs_at s c)) \<noteq> 0
          then (case p of
                  None \<Rightarrow> Some (None, s)
                | Some j \<Rightarrow> do {
                    s \<leftarrow> (if task_sleep \<and> \<not> throttled_hierarchy c s then set_next_buddy n j s else Some s);
                    Some (p, s)
                  })
          else dequeue_up n K task_sleep (fl OR DEQUEUE_SLEEP) p s
      })"

definition dequeue_task_fair :: "nat \<Rightarrow> kapi \<Rightarrow> cpu \<Rightarrow> se_id \<Rightarrow> flags \<Rightarrow> kstate \<Rightarrow> kstate option" where
  "dequeue_task_fair n K u i fl s = do {
     (stop, s) \<leftarrow> dequeue_up n K (fl AND DEQUEUE_SLEEP \<noteq> 0) fl (Some i) s;
     (stop, s) \<leftarrow> adjust_up n K (- 1) stop s;
     Some (if stop = None then sub_nr_running u 1 s else s)
   }"

section \<open>Preemption by a woken task\<close>

abbreviation (input) WF_FORK :: u32 where "WF_FORK \<equiv> 2"

definition check_preempt_wakeup :: "nat \<Rightarrow> kapi \<Rightarrow> bool \<Rightarrow> cpu \<Rightarrow> se_id \<Rightarrow> u32 \<Rightarrow> kstate \<Rightarrow> kstate option" where
  "check_preempt_wakeup n K need_resched u p wake_flags s =
     (let j = rq_curr (rq_at s u);
          scale = (nr_running (cfs_at s (se_cfs_rq (se_at s j))) \<ge> sched_nr_latency (sysctls s));
          preempt = (\<lambda>i s. let s = resched_curr u s in
            if on_rq (se_at s i) = 0 \<or> j = rq_idle (rq_at s u) then Some s
            else if sched_feat K LAST_BUDDY \<and> scale \<and> entity_is_task (se_at s i) then set_last_buddy n i s
            else Some s)
      in if j = p then Some s
         else if throttled_hierarchy (se_cfs_rq (se_at s p)) s then Some s
         else let marked = (sched_feat K NEXT_BUDDY \<and> scale \<and> wake_flags AND WF_FORK = 0) in do {
           s \<leftarrow> (if marked then set_next_buddy n p s else Some s);
           if need_resched then Some s
           else if task_policy (task_at s j) = SCHED_IDLE \<and> task_policy (task_at s p) \<noteq> SCHED_IDLE then preempt j s
           else if task_policy (task_at s p) \<noteq> SCHED_NORMAL \<or> \<not> sched_feat K WAKEUP_PREEMPTION then Some s
           else do {
             (i, i') \<leftarrow> find_matching_se n s j p;
             s \<leftarrow> update_curr K (se_cfs_rq (se_at s i)) s;
             (r, s) \<leftarrow> wakeup_preempt_entity K i i' s;
             if r = 1
             then do {
               s \<leftarrow> (if \<not> marked then set_next_buddy n i' s else Some s);
               preempt i s
             }
             else Some s
           }
         })"

section \<open>Choosing the next task\<close>

fun put_prev_up :: "nat \<Rightarrow> kapi \<Rightarrow> se_id option \<Rightarrow> kstate \<Rightarrow> kstate option" where
  "put_prev_up _ K None s = Some s"
| "put_prev_up 0 K (Some i) s = None"
| "put_prev_up (Suc n) K (Some i) s = do {
     s \<leftarrow> put_prev_entity (Suc n) K (se_cfs_rq (se_at s i)) i s;
     put_prev_up n K (parent (se_at s i)) s
   }"

definition put_prev_task_fair :: "nat \<Rightarrow> kapi \<Rightarrow> se_id \<Rightarrow> kstate \<Rightarrow> kstate option" where
  "put_prev_task_fair n K i s = put_prev_up n K (Some i) s"

text \<open>The descent without putting back; \<open>Inl ()\<close> is the jump to \<open>simple\<close>.\<close>

fun pick_down :: "nat \<Rightarrow> nat \<Rightarrow> kapi \<Rightarrow> cfs_id \<Rightarrow> kstate \<Rightarrow> ((unit + se_id) \<times> kstate) option" where
  "pick_down 0 n K c s = None"
| "pick_down (Suc m) n K c s = do {
     (cur, out, s) \<leftarrow>
       (case curr (cfs_at s c) of
          None \<Rightarrow> Some (None, False, s)
        | Some i \<Rightarrow> do {
            let runnable = (on_rq (se_at s i) \<noteq> 0);
            s \<leftarrow> (if runnable then update_curr K c s else Some s);
            (t, s) \<leftarrow> check_cfs_rq_runtime n K c s;
            Some (if runnable then Some i else None, t, s)
          });
     if out then Some (Inl (), s)
     else do {
       (se, s) \<leftarrow> pick_next_entity n K c cur s;
       case se of
         None \<Rightarrow> None
       | Some i \<Rightarrow> (case my_q (se_at s i) of None \<Rightarrow> Some (Inr i, s) | Some d \<Rightarrow> pick_down m n K d s)
     }
   }"

text \<open>Changing only the part of the hierarchy that differs between the previous and the next task.\<close>

fun switch_up :: "nat \<Rightarrow> nat \<Rightarrow> kapi \<Rightarrow> se_id option \<Rightarrow> se_id option \<Rightarrow> kstate \<Rightarrow> kstate option" where
  "switch_up m n K (Some i) (Some p) s =
     (case is_same_group (se_at s i) (se_at s p) of
        Some c \<Rightarrow> do { s \<leftarrow> put_prev_entity n K c p s; set_next_entity K c i s }
      | None \<Rightarrow>
          (case m of
             0 \<Rightarrow> None
           | Suc m \<Rightarrow>
               let di = depth (se_at s i); dp = depth (se_at s p) in do {
                 (p, s) \<leftarrow> (if di \<le> dp
                            then do { s \<leftarrow> put_prev_entity n K (se_cfs_rq (se_at s p)) p s; Some (parent (se_at s p), s) }
                            else Some (Some p, s));
                 (i, s) \<leftarrow> (if di \<ge> dp
                            then do { s \<leftarrow> set_next_entity K (se_cfs_rq (se_at s i)) i s; Some (parent (se_at s i), s) }
                            else Some (Some i, s));
                 switch_up m n K i p s
               }))"
| "switch_up m n K _ _ s = None"

fun set_down :: "nat \<Rightarrow> nat \<Rightarrow> kapi \<Rightarrow> cfs_id \<Rightarrow> kstate \<Rightarrow> (se_id \<times> kstate) option" where
  "set_down 0 n K c s = None"
| "set_down (Suc m) n K c s = do {
     (se, s) \<leftarrow> pick_next_entity n K c None s;
     case se of
       None \<Rightarrow> None
     | Some i \<Rightarrow> do {
         s \<leftarrow> set_next_entity K c i s;
         case my_q (se_at s i) of None \<Rightarrow> Some (i, s) | Some d \<Rightarrow> set_down m n K d s
       }
   }"

definition pick_simple ::
  "nat \<Rightarrow> kapi \<Rightarrow> (se_id \<Rightarrow> kstate \<Rightarrow> kstate option) \<Rightarrow> cpu \<Rightarrow> se_id \<Rightarrow> kstate \<Rightarrow> (se_id option \<times> kstate) option" where
  "pick_simple n K other_put u prev s =
     (let c = rq_cfs (rq_at s u) in
      if nr_running (cfs_at s c) = 0 then Some (None, set_misfit u False s)
      else do {
        s \<leftarrow> (if fair_class (task_at s prev) then put_prev_task_fair n K prev s else other_put prev s);
        (i, s) \<leftarrow> set_down n n K c s;
        Some (Some i, set_misfit u (\<not> task_fits_max i u s) s)
      })"

text \<open>No task is the jump to \<open>idle\<close>, where \<open>idle_balance\<close> decides whether to try again.\<close>

definition pick_next_task_fair ::
  "nat \<Rightarrow> kapi \<Rightarrow> (se_id \<Rightarrow> kstate \<Rightarrow> kstate option) \<Rightarrow> cpu \<Rightarrow> se_id \<Rightarrow> kstate \<Rightarrow> (se_id option \<times> kstate) option" where
  "pick_next_task_fair n K other_put u prev s =
     (let s = (if pkshin_pemt_enabled s then pkshin_pmu_update K s else s); c = rq_cfs (rq_at s u) in
      if nr_running (cfs_at s c) = 0 then Some (None, set_misfit u False s)
      else if \<not> fair_class (task_at s prev) then pick_simple n K other_put u prev s
      else do {
        (r, s) \<leftarrow> pick_down n n K c s;
        case r of
          Inl () \<Rightarrow> pick_simple n K other_put u prev s
        | Inr i \<Rightarrow> do {
            s \<leftarrow> (if prev \<noteq> i then switch_up (2 * n) n K (Some i) (Some prev) s else Some s);
            Some (Some i, set_misfit u (\<not> task_fits_max i u s) s)
          }
      })"

section \<open>Yielding, ticks and forks\<close>

definition yield_task_fair :: "nat \<Rightarrow> kapi \<Rightarrow> cpu \<Rightarrow> kstate \<Rightarrow> kstate option" where
  "yield_task_fair n K u s =
     (let j = rq_curr (rq_at s u); c = se_cfs_rq (se_at s j) in
      if rq_nr_running (rq_at s u) = 1 then Some s
      else do {
        s \<leftarrow> clear_buddies n c (Some j) s;
        s \<leftarrow> (if task_policy (task_at s j) \<noteq> SCHED_BATCH then update_curr K c (upd_rq u (update_rq_clock K) s) else Some s);
        set_skip_buddy n j s
      })"

definition yield_to_task_fair :: "nat \<Rightarrow> kapi \<Rightarrow> cpu \<Rightarrow> se_id \<Rightarrow> kstate \<Rightarrow> (bool \<times> kstate) option" where
  "yield_to_task_fair n K u p s =
     (if on_rq (se_at s p) = 0 \<or> throttled_hierarchy (se_cfs_rq (se_at s p)) s then Some (False, s)
      else do { s \<leftarrow> set_next_buddy n p s; s \<leftarrow> yield_task_fair n K u s; Some (True, s) })"

fun tick_up :: "nat \<Rightarrow> kapi \<Rightarrow> se_id option \<Rightarrow> kstate \<Rightarrow> kstate option" where
  "tick_up _ K None s = Some s"
| "tick_up 0 K (Some i) s = None"
| "tick_up (Suc n) K (Some i) s = do {
     s \<leftarrow> entity_tick (Suc n) K (se_cfs_rq (se_at s i)) i s;
     tick_up n K (parent (se_at s i)) s
   }"

text \<open>NUMA balancing is off.\<close>

definition task_tick_fair :: "nat \<Rightarrow> kapi \<Rightarrow> cpu \<Rightarrow> se_id \<Rightarrow> kstate \<Rightarrow> kstate option" where
  "task_tick_fair n K u i s = do {
     s \<leftarrow> tick_up n K (Some i) s;
     let s = note_overutilized u (task_cpu (task_at s i)) s;
     Some (set_misfit u (\<not> task_fits_max i u s) s)
   }"

definition task_fork_fair :: "nat \<Rightarrow> kapi \<Rightarrow> se_id \<Rightarrow> kstate \<Rightarrow> kstate option" where
  "task_fork_fair n K i s =
     (let u = this_cpu K; s = upd_rq u (update_rq_clock K) s;
          c = se_cfs_rq (se_at s (rq_curr (rq_at s u)));
          cur = curr (cfs_at s c)
      in do {
        s \<leftarrow> (case cur of
               None \<Rightarrow> Some s
             | Some j \<Rightarrow> do { s \<leftarrow> update_curr K c s; Some (upd_se i (\<lambda>e. e\<lparr>vruntime := vruntime (se_at s j)\<rparr>) s) });
        s \<leftarrow> place_entity n K c i True s;
        let s = (case cur of
                   None \<Rightarrow> s
                 | Some j \<Rightarrow>
                     if sysctl_sched_child_runs_first (sysctls s) \<noteq> 0 \<and> entity_before (se_at s j) (se_at s i)
                     then let vj = vruntime (se_at s j); vi = vruntime (se_at s i)
                          in resched_curr u (upd_se i (\<lambda>e. e\<lparr>vruntime := vj\<rparr>) (upd_se j (\<lambda>e. e\<lparr>vruntime := vi\<rparr>) s))
                     else s);
        Some (upd_se i (\<lambda>e. e\<lparr>vruntime := vruntime e - min_vruntime (cfs_at s c)\<rparr>) s)
      })"

section \<open>Migration, death, cpus that come and go\<close>

definition migrate_task_rq_fair :: "kapi \<Rightarrow> se_id \<Rightarrow> kstate \<Rightarrow> kstate option" where
  "migrate_task_rq_fair K i s =
     (let s = (if waking (task_at s i)
               then upd_se i (\<lambda>e. e\<lparr>vruntime := vruntime e - min_vruntime (cfs_at s (se_cfs_rq e))\<rparr>) s else s) in do {
        s \<leftarrow> remove_entity_load_avg K i s;
        let s = upd_avg (SeAvg i) (\<lambda>sa. sa\<lparr>last_update_time := 0\<rparr>) s;
        Some (upd_se i (\<lambda>e. e\<lparr>exec_start := 0\<rparr>) s)
      })"

definition task_dead_fair :: "kapi \<Rightarrow> se_id \<Rightarrow> kstate \<Rightarrow> kstate option" where
  "task_dead_fair K i s = remove_entity_load_avg K i s"

definition rq_online_fair :: "u32 \<Rightarrow> cpu \<Rightarrow> kstate \<Rightarrow> kstate" where
  "rq_online_fair online u s = update_runtime_enabled u (s\<lparr>sysctls := update_sysctl online (sysctls s)\<rparr>)"

definition rq_offline_fair :: "nat \<Rightarrow> nat \<Rightarrow> kapi \<Rightarrow> u32 \<Rightarrow> cpu \<Rightarrow> kstate \<Rightarrow> kstate option" where
  "rq_offline_fair m n K online u s = unthrottle_offline_cfs_rqs m n K u (s\<lparr>sysctls := update_sysctl online (sysctls s)\<rparr>)"

section \<open>Changes of priority, class and running task\<close>

abbreviation (input) TASK_ON_RQ_QUEUED :: u32 where "TASK_ON_RQ_QUEUED \<equiv> 1"

definition prio_changed_fair ::
  "(cpu \<Rightarrow> se_id \<Rightarrow> kstate \<Rightarrow> kstate option) \<Rightarrow> cpu \<Rightarrow> se_id \<Rightarrow> int \<Rightarrow> kstate \<Rightarrow> kstate option" where
  "prio_changed_fair check_preempt_curr u i oldprio s =
     (if task_on_rq (task_at s i) \<noteq> TASK_ON_RQ_QUEUED then Some s
      else if rq_curr (rq_at s u) = i then Some (if prio (task_at s i) > oldprio then resched_curr u s else s)
      else check_preempt_curr u i s)"

definition vruntime_normalized :: "se_id \<Rightarrow> kstate \<Rightarrow> bool" where
  "vruntime_normalized i s \<longleftrightarrow>
     task_on_rq (task_at s i) \<noteq> 0 \<or> sum_exec_runtime (se_at s i) = 0 \<or> waking (task_at s i)"

definition detach_task_cfs_rq :: "nat \<Rightarrow> kapi \<Rightarrow> se_id \<Rightarrow> kstate \<Rightarrow> kstate option" where
  "detach_task_cfs_rq n K i s =
     (let c = se_cfs_rq (se_at s i) in do {
        s \<leftarrow> (if \<not> vruntime_normalized i s
              then do {
                s \<leftarrow> place_entity n K c i False s;
                Some (upd_se i (\<lambda>e. e\<lparr>vruntime := vruntime e - min_vruntime (cfs_at s c)\<rparr>) s)
              }
              else Some s);
        detach_entity_cfs_rq n K i s
      })"

definition attach_task_cfs_rq :: "nat \<Rightarrow> kapi \<Rightarrow> se_id \<Rightarrow> kstate \<Rightarrow> kstate option" where
  "attach_task_cfs_rq n K i s =
     (let c = se_cfs_rq (se_at s i) in do {
        s \<leftarrow> attach_entity_cfs_rq n K i s;
        Some (if \<not> vruntime_normalized i s
              then upd_se i (\<lambda>e. e\<lparr>vruntime := vruntime e + min_vruntime (cfs_at s c)\<rparr>) s else s)
      })"

definition switched_from_fair :: "nat \<Rightarrow> kapi \<Rightarrow> se_id \<Rightarrow> kstate \<Rightarrow> kstate option" where
  "switched_from_fair n K i s = detach_task_cfs_rq n K i s"

definition switched_to_fair ::
  "nat \<Rightarrow> kapi \<Rightarrow> (cpu \<Rightarrow> se_id \<Rightarrow> kstate \<Rightarrow> kstate option) \<Rightarrow> cpu \<Rightarrow> se_id \<Rightarrow> kstate \<Rightarrow> kstate option" where
  "switched_to_fair n K check_preempt_curr u i s = do {
     s \<leftarrow> attach_task_cfs_rq n K i s;
     if task_on_rq (task_at s i) = TASK_ON_RQ_QUEUED
     then if rq_curr (rq_at s u) = i then Some (resched_curr u s) else check_preempt_curr u i s
     else Some s
   }"

fun set_curr_up :: "nat \<Rightarrow> kapi \<Rightarrow> se_id option \<Rightarrow> kstate \<Rightarrow> kstate option" where
  "set_curr_up _ K None s = Some s"
| "set_curr_up 0 K (Some i) s = None"
| "set_curr_up (Suc n) K (Some i) s =
     (let c = se_cfs_rq (se_at s i) in do {
        s \<leftarrow> set_next_entity K c i s;
        set_curr_up n K (parent (se_at s i)) (account_cfs_rq_runtime K c 0 s)
      })"

definition set_curr_task_fair :: "nat \<Rightarrow> kapi \<Rightarrow> cpu \<Rightarrow> kstate \<Rightarrow> kstate option" where
  "set_curr_task_fair n K u s = set_curr_up n K (Some (rq_curr (rq_at s u))) s"

end
