(* ===== verification/Task_Groups.thy ===== *)
theory Task_Groups
  imports Tasks
begin

text \<open>
  Groups of the fair class: moving tasks between groups and the life of a group's runqueues and entities,
  \<open>kernel/sched/fair.c\<close> lines 11318--11552 and \<open>set_task_rq\<close> of \<open>kernel/sched/sched.h\<close>. Allocation decides
  with its results \<open>alloc_result\<close> which objects come from it; freed memory is not tracked.
\<close>

section \<open>Moving tasks\<close>

definition set_task_rq :: "kapi \<Rightarrow> se_id \<Rightarrow> cpu \<Rightarrow> kstate \<Rightarrow> kstate option" where
  "set_task_rq K i u s =
     (let g = sched_task_group (task_at s i) in do {
        s \<leftarrow> set_task_rq_fair K i (Some (se_cfs_rq (se_at s i))) (tg_cfs_rq (tg_at s g) u) s;
        Some (upd_se i (\<lambda>e. e\<lparr>se_cfs_rq := tg_cfs_rq (tg_at s g) u, parent := tg_se (tg_at s g) u\<rparr>) s)
      })"

definition task_set_group_fair :: "kapi \<Rightarrow> se_id \<Rightarrow> kstate \<Rightarrow> kstate option" where
  "task_set_group_fair K i s = do {
     s \<leftarrow> set_task_rq K i (task_cpu (task_at s i)) s;
     Some (upd_se i (\<lambda>e. e\<lparr>depth := (case parent e of Some j \<Rightarrow> depth (se_at s j) + 1 | None \<Rightarrow> 0)\<rparr>) s)
   }"

definition task_move_group_fair :: "nat \<Rightarrow> kapi \<Rightarrow> se_id \<Rightarrow> kstate \<Rightarrow> kstate option" where
  "task_move_group_fair n K i s = do {
     s \<leftarrow> detach_task_cfs_rq n K i s;
     s \<leftarrow> set_task_rq K i (task_cpu (task_at s i)) s;
     attach_task_cfs_rq n K i (upd_avg (SeAvg i) (\<lambda>sa. sa\<lparr>last_update_time := 0\<rparr>) s)
   }"

datatype change_type = TASK_SET_GROUP | TASK_MOVE_GROUP

fun task_change_group_fair :: "nat \<Rightarrow> kapi \<Rightarrow> se_id \<Rightarrow> change_type \<Rightarrow> kstate \<Rightarrow> kstate option" where
  "task_change_group_fair n K i TASK_SET_GROUP s = task_set_group_fair K i s"
| "task_change_group_fair n K i TASK_MOVE_GROUP s = task_move_group_fair n K i s"

section \<open>Runqueues and entities of a group\<close>

definition init_cfs_rq :: "cfs_rq \<Rightarrow> cfs_rq" where
  "init_cfs_rq q = q\<lparr>tasks_timeline := Leaf, min_vruntime := - (push_bit 20 1), propagate_avg := 0,
     removed_load_avg := 0, removed_util_avg := 0, removed_util_fast_avg := 0, removed_core_util_avg := 0,
     removed_memory_util_avg := 0, removed_core_util_fast_avg := 0, removed_memory_util_fast_avg := 0,
     removed_scaling_avg := 0, removed_scaling_fast_avg := 0, cfs_avg := (cfs_avg q)\<lparr>sa_weight := 1024\<rparr>\<rparr>"

text \<open>A parent that owns no runqueue would give the entity a \<open>NULL\<close> runqueue; that is undefined here.\<close>

definition init_tg_cfs_entry :: "tg_id \<Rightarrow> cfs_id \<Rightarrow> se_id option \<Rightarrow> cpu \<Rightarrow> se_id option \<Rightarrow> kstate \<Rightarrow> kstate option" where
  "init_tg_cfs_entry g c i u p s =
     (let s = upd_cfs c (\<lambda>q. init_cfs_rq_runtime (q\<lparr>cfs_tg := g, rq_cpu := u\<rparr>)) s;
          s = upd_tg g (\<lambda>t. t\<lparr>tg_cfs_rq := (tg_cfs_rq t)(u := c), tg_se := (tg_se t)(u := i)\<rparr>) s
      in case i of
           None \<Rightarrow> Some s
         | Some i \<Rightarrow> do {
             (d, k) \<leftarrow> (case p of
                          None \<Rightarrow> Some (rq_cfs (rq_at s u), 0)
                        | Some j \<Rightarrow> (case my_q (se_at s j) of None \<Rightarrow> None | Some d \<Rightarrow> Some (d, depth (se_at s j) + 1)));
             Some (upd_se i (\<lambda>e. e\<lparr>se_cfs_rq := d, depth := k, my_q := Some c, se_load := update_load_set NICE_0_LOAD (se_load e),
               parent := p\<rparr>) s)
           })"

text \<open>The results of the allocations for one cpu.\<close>

type_synonym alloc_result = "cfs_id option \<times> se_id option"

fun alloc_cpus :: "kapi \<Rightarrow> (cpu \<Rightarrow> alloc_result) \<Rightarrow> tg_id \<Rightarrow> tg_id \<Rightarrow> cpu list \<Rightarrow> kstate \<Rightarrow> (bool \<times> kstate) option" where
  "alloc_cpus K mem g p [] s = Some (True, s)"
| "alloc_cpus K mem g p (u # us) s =
     (case mem u of
        (Some c, Some i) \<Rightarrow>
          do {
            let s = upd_se i (\<lambda>_. zero_se) (upd_cfs c (\<lambda>_. init_cfs_rq zero_cfs) s);
            s \<leftarrow> init_tg_cfs_entry g c (Some i) u (tg_se (tg_at s p) u) s;
            alloc_cpus K mem g p us (init_entity_runnable_average K i s)
          }
      | _ \<Rightarrow> Some (False, s))"

definition alloc_fair_sched_group ::
  "kapi \<Rightarrow> bool \<Rightarrow> bool \<Rightarrow> (cpu \<Rightarrow> alloc_result) \<Rightarrow> tg_id \<Rightarrow> tg_id \<Rightarrow> kstate \<Rightarrow> (bool \<times> kstate) option" where
  "alloc_fair_sched_group K cfs_array se_array mem g p s =
     (if \<not> cfs_array \<or> \<not> se_array then Some (False, s)
      else alloc_cpus K mem g p (possible_cpus K)
             (upd_bandwidth g init_cfs_bandwidth (upd_tg g (\<lambda>t. t\<lparr>tg_se := (\<lambda>_. None), shares := NICE_0_LOAD\<rparr>) s)))"

fun online_cpus :: "nat \<Rightarrow> kapi \<Rightarrow> tg_id \<Rightarrow> cpu list \<Rightarrow> kstate \<Rightarrow> kstate option" where
  "online_cpus n K g [] s = Some s"
| "online_cpus n K g (u # us) s =
     (case tg_se (tg_at s g) u of
        None \<Rightarrow> None
      | Some i \<Rightarrow> do { s \<leftarrow> post_init_entity_util_avg n K i s; online_cpus n K g us (sync_throttle g u s) })"

definition online_fair_sched_group :: "nat \<Rightarrow> kapi \<Rightarrow> tg_id \<Rightarrow> kstate \<Rightarrow> kstate option" where
  "online_fair_sched_group n K g s = online_cpus n K g (possible_cpus K) s"

fun unregister_cpus :: "kapi \<Rightarrow> tg_id \<Rightarrow> cpu list \<Rightarrow> kstate \<Rightarrow> kstate option" where
  "unregister_cpus K g [] s = Some s"
| "unregister_cpus K g (u # us) s = do {
     s \<leftarrow> (case tg_se (tg_at s g) u of None \<Rightarrow> Some s | Some i \<Rightarrow> remove_entity_load_avg K i s);
     let c = tg_cfs_rq (tg_at s g) u;
     unregister_cpus K g us (if on_list (cfs_at s c) then list_del_leaf_cfs_rq c s else s)
   }"

definition unregister_fair_sched_group :: "kapi \<Rightarrow> tg_id \<Rightarrow> kstate \<Rightarrow> kstate option" where
  "unregister_fair_sched_group K g s = unregister_cpus K g (possible_cpus K) s"

section \<open>Shares\<close>

fun refresh_up :: "nat \<Rightarrow> kapi \<Rightarrow> se_id option \<Rightarrow> kstate \<Rightarrow> kstate option" where
  "refresh_up _ K None s = Some s"
| "refresh_up 0 K (Some i) s = None"
| "refresh_up (Suc n) K (Some i) s = do {
     s \<leftarrow> update_load_avg K i True False s;
     s \<leftarrow> update_cfs_shares K i s;
     refresh_up n K (parent (se_at s i)) s
   }"

fun refresh_cpus :: "nat \<Rightarrow> kapi \<Rightarrow> tg_id \<Rightarrow> cpu list \<Rightarrow> kstate \<Rightarrow> kstate option" where
  "refresh_cpus n K g [] s = Some s"
| "refresh_cpus n K g (u # us) s = do {
     s \<leftarrow> refresh_up n K (tg_se (tg_at s g) u) (upd_rq u (update_rq_clock K) s);
     refresh_cpus n K g us s
   }"

abbreviation (input) MAX_SHARES :: ulong where "MAX_SHARES \<equiv> 262144"

definition clamp_shares :: "ulong \<Rightarrow> ulong" where
  "clamp_shares w = min (max w (scale_load MIN_SHARES)) (scale_load MAX_SHARES)"

definition sched_group_set_shares :: "nat \<Rightarrow> kapi \<Rightarrow> tg_id \<Rightarrow> ulong \<Rightarrow> kstate \<Rightarrow> (int \<times> kstate) option" where
  "sched_group_set_shares n K g w s =
     (if tg_se (tg_at s g) 0 = None then Some (- 22, s)
      else let w = clamp_shares w in
        if shares (tg_at s g) = w then Some (0, s)
        else do {
          s \<leftarrow> refresh_cpus n K g (possible_cpus K) (upd_tg g (\<lambda>t. t\<lparr>shares := w\<rparr>) s);
          Some (0, s)
        })"

end
