(* ===== verification/Queue_Shape.thy ===== *)
theory Queue_Shape
  imports Throttle
begin

text \<open>
  What the runqueues look like, apart from signals, clocks and runtime: the \<open>shape\<close> of a state collects the
  weights and places of the entities and the trees, current entities, weights and counts of the runqueues;
  \<open>vtimes\<close> are the virtual times. Most operations keep both, and the lemmas here say which: the load-tracking
  functions, the bandwidth accounting, buddies, slices and preemption checks.
\<close>

definition entity_shape :: "sched_entity \<Rightarrow> ulong \<times> u32 \<times> cfs_id \<times> cfs_id option \<times> se_id option \<times> int" where
  "entity_shape e = (weight (se_load e), on_rq e, se_cfs_rq e, my_q e, parent e, depth e)"

definition runq_shape :: "cfs_rq \<Rightarrow> se_id tree \<times> se_id option \<times> se_id option \<times> ulong \<times> u32 \<times> cpu \<times> tg_id" where
  "runq_shape q = (tasks_timeline q, rb_leftmost q, curr q, weight (cfs_load q), nr_running q, rq_cpu q, cfs_tg q)"

definition shape :: "kstate \<Rightarrow> (se_id \<Rightarrow> ulong \<times> u32 \<times> cfs_id \<times> cfs_id option \<times> se_id option \<times> int) \<times>
    (cfs_id \<Rightarrow> se_id tree \<times> se_id option \<times> se_id option \<times> ulong \<times> u32 \<times> cpu \<times> tg_id) \<times> nat" where
  "shape s = ((\<lambda>i. entity_shape (se_at s i)), (\<lambda>c. runq_shape (cfs_at s c)), cfs_bandwidth_key s)"

definition vtimes :: "kstate \<Rightarrow> se_id \<Rightarrow> u64" where
  "vtimes s = (\<lambda>i. vruntime (se_at s i))"

lemma shape_entity:
  assumes "shape s' = shape s"
  shows "weight (se_load (se_at s' i)) = weight (se_load (se_at s i))" "on_rq (se_at s' i) = on_rq (se_at s i)"
    "se_cfs_rq (se_at s' i) = se_cfs_rq (se_at s i)" "my_q (se_at s' i) = my_q (se_at s i)"
    "parent (se_at s' i) = parent (se_at s i)" "depth (se_at s' i) = depth (se_at s i)"
  using assms by (auto simp: shape_def entity_shape_def dest: fun_cong [of _ _ i])

lemma shape_runq:
  assumes "shape s' = shape s"
  shows "tasks_timeline (cfs_at s' c) = tasks_timeline (cfs_at s c)" "rb_leftmost (cfs_at s' c) = rb_leftmost (cfs_at s c)"
    "curr (cfs_at s' c) = curr (cfs_at s c)" "weight (cfs_load (cfs_at s' c)) = weight (cfs_load (cfs_at s c))"
    "nr_running (cfs_at s' c) = nr_running (cfs_at s c)" "rq_cpu (cfs_at s' c) = rq_cpu (cfs_at s c)"
    "cfs_tg (cfs_at s' c) = cfs_tg (cfs_at s c)"
  using assms by (auto simp: shape_def runq_shape_def dest: fun_cong [of _ _ c])

lemma shape_key: "shape s' = shape s \<Longrightarrow> cfs_bandwidth_used s' = cfs_bandwidth_used s"
  by (simp add: shape_def cfs_bandwidth_used_def)

lemma vtimes_at: "vtimes s' = vtimes s \<Longrightarrow> vruntime (se_at s' i) = vruntime (se_at s i)"
  by (auto simp: vtimes_def dest: fun_cong [of _ _ i])

section \<open>Writes\<close>

lemma shape_upd_se: "entity_shape (f (se_at s i)) = entity_shape (se_at s i) \<Longrightarrow> shape (upd_se i f s) = shape s"
  by (auto simp: shape_def upd_se_def)

lemma vtimes_upd_se: "vruntime (f (se_at s i)) = vruntime (se_at s i) \<Longrightarrow> vtimes (upd_se i f s) = vtimes s"
  by (auto simp: vtimes_def upd_se_def)

lemma shape_upd_cfs: "runq_shape (f (cfs_at s c)) = runq_shape (cfs_at s c) \<Longrightarrow> shape (upd_cfs c f s) = shape s"
  by (auto simp: shape_def upd_cfs_def)

lemma shape_other [simp]:
  "shape (upd_tg g t s) = shape s" "shape (upd_rq u r s) = shape s" "shape (upd_bandwidth g b s) = shape s"
  "shape (resched_curr u s) = shape s" "shape (cpufreq_update_util u fl s) = shape s"
  by (simp_all add: shape_def upd_tg_def upd_rq_def upd_bandwidth_def resched_curr_def cpufreq_update_util_def)

lemma vtimes_other [simp]:
  "vtimes (upd_cfs c q s) = vtimes s" "vtimes (upd_tg g t s) = vtimes s" "vtimes (upd_rq u r s) = vtimes s"
  "vtimes (upd_bandwidth g b s) = vtimes s" "vtimes (resched_curr u s) = vtimes s" "vtimes (cpufreq_update_util u fl s) = vtimes s"
  by (simp_all add: vtimes_def upd_cfs_def upd_tg_def upd_rq_def upd_bandwidth_def resched_curr_def cpufreq_update_util_def)

lemma shape_avg [simp]: "shape (upd_avg r f s) = shape s" "vtimes (upd_avg r f s) = vtimes s"
  by (cases r; simp add: upd_avg.simps shape_upd_se shape_upd_cfs vtimes_upd_se entity_shape_def runq_shape_def)+

lemma shape_signals [simp]: "shape (set_signals r st s) = shape s" "vtimes (set_signals r st s) = vtimes s"
  by (cases r; cases st; simp add: shape_upd_se shape_upd_cfs vtimes_upd_se entity_shape_def runq_shape_def split: option.splits)+

section \<open>Load tracking\<close>

lemma counters_shape [simp]:
  "shape (snd (read_all_counters K u s)) = shape s" "vtimes (snd (read_all_counters K u s)) = vtimes s"
  "shape (set_prev u v s) = shape s" "vtimes (set_prev u v s) = vtimes s"
  by (simp_all add: read_all_counters_def read_counter_def asm_mrs_def asm_do_def set_prev_def shape_def vtimes_def Let_def)

lemma pmu_get_shape: "pkshin_pmu_get K s = Some (x, s') \<Longrightarrow> shape s' = shape s \<and> vtimes s' = vtimes s"
  by (auto simp: pkshin_pmu_get_def Let_def split_beta split: bind_splits)

lemma choose_ratio_shape: "choose_ratio K r act s = Some (x, s') \<Longrightarrow> shape s' = shape s \<and> vtimes s' = vtimes s"
  by (auto simp: choose_ratio_def Let_def dest!: pmu_get_shape split: if_splits avg_ref.splits option.splits bind_splits)

lemma busy_shape: "account_busy now u r act d s = Some s' \<Longrightarrow> shape s' = shape s \<and> vtimes s' = vtimes s"
  by (auto simp: account_busy_def Let_def shape_def vtimes_def split: avg_ref.splits if_splits)

lemma raw_update_shape: "raw_update_load_avg K now u r w act s = Some (d, s') \<Longrightarrow> shape s' = shape s \<and> vtimes s' = vtimes s"
  by (auto simp: raw_update_load_avg_def Let_def dest!: choose_ratio_shape busy_shape split: if_splits bind_splits prod.splits)

lemma subtract_shape [simp]: "runq_shape (subtract_removed x q) = runq_shape q"
  by (cases x) (simp_all add: subtract_removed_def runq_shape_def Let_def)

lemma removed_util_shape [simp]: "runq_shape (snd (update_removed_util x p)) = runq_shape (snd p)"
proof -
  have "runq_shape (q\<lparr>propagate_avg := a\<rparr>) = runq_shape q" for q a by (simp add: runq_shape_def)
  then show ?thesis by (cases p) (simp add: update_removed_util_def Let_def)
qed

lemma fold_removed_shape [simp]: "runq_shape (snd (fold update_removed_util xs p)) = runq_shape (snd p)"
  by (induction xs arbitrary: p) simp_all

lemma fold_subtract_shape [simp]: "runq_shape (fold subtract_removed xs q) = runq_shape q"
  by (induction xs arbitrary: q) simp_all

lemma scaling_shape [simp]: "runq_shape (update_scaling s q) = runq_shape q"
proof -
  have "runq_shape (p\<lparr>cfs_avg := a\<rparr>) = runq_shape p" for p a by (simp add: runq_shape_def)
  then show ?thesis by (simp add: update_scaling_def Let_def)
qed

lemma removed_load_shape [simp]: "runq_shape (snd (update_removed_load_avg q)) = runq_shape q"
  by (simp add: update_removed_load_avg_def runq_shape_def Let_def)

lemma util_change_shape [simp]: "shape (cfs_rq_util_change c s) = shape s" "vtimes (cfs_rq_util_change c s) = vtimes s"
  by (simp_all add: cfs_rq_util_change_def)

lemma cfs_update_shape: "update_cfs_rq_load_avg K now c fr s = Some (d, s') \<Longrightarrow> shape s' = shape s \<and> vtimes s' = vtimes s"
  by (auto simp: update_cfs_rq_load_avg_def Let_def split_beta dest!: raw_update_shape intro!: shape_upd_cfs split: bind_splits)

lemma tg_load_shape [simp]: "shape (update_tg_load_avg c force s) = shape s" "vtimes (update_tg_load_avg c force s) = vtimes s"
  by (simp_all add: update_tg_load_avg_def Let_def shape_upd_cfs runq_shape_def)

lemma propagate_signal_shape [simp]: "shape (propagate_signal c i g x s) = shape s" "vtimes (propagate_signal c i g x s) = vtimes s"
  by (simp_all add: propagate_signal_def Let_def)

lemma fold_propagate_shape [simp]:
  "shape (fold (propagate_signal c i g) xs s) = shape s" "vtimes (fold (propagate_signal c i g) xs s) = vtimes s"
  by (induction xs arbitrary: s) simp_all

lemma tg_cfs_load_shape: "update_tg_cfs_load c i g s = Some s' \<Longrightarrow> shape s' = shape s \<and> vtimes s' = vtimes s"
  by (auto simp: update_tg_cfs_load_def Let_def shape_upd_cfs runq_shape_def split: bind_splits if_splits)

lemma propagate_mark_shape [simp]:
  "shape (set_tg_cfs_propagate c s) = shape s" "vtimes (set_tg_cfs_propagate c s) = vtimes s"
  "shape (snd (test_and_clear_tg_cfs_propagate c s)) = shape s" "vtimes (snd (test_and_clear_tg_cfs_propagate c s)) = vtimes s"
  by (simp_all add: set_tg_cfs_propagate_def test_and_clear_tg_cfs_propagate_def shape_upd_cfs runq_shape_def)

lemma propagate_shape: "propagate_entity_load_avg i s = Some (b, s') \<Longrightarrow> shape s' = shape s \<and> vtimes s' = vtimes s"
  by (auto simp: propagate_entity_load_avg_def update_tg_cfs_util_def Let_def test_and_clear_tg_cfs_propagate_def
      shape_upd_cfs runq_shape_def dest!: tg_cfs_load_shape split: option.splits if_splits bind_splits)

lemma update_load_shape: "update_load_avg K i tg sk s = Some s' \<Longrightarrow> shape s' = shape s \<and> vtimes s' = vtimes s"
  by (auto simp: update_load_avg_def Let_def dest!: raw_update_shape cfs_update_shape propagate_shape split: if_splits bind_splits)

lemma attach_shape [simp]: "shape (attach_entity_load_avg c i s) = shape s" "vtimes (attach_entity_load_avg c i s) = vtimes s"
  by (simp_all add: attach_entity_load_avg_def Let_def)

lemma entity_load_shape [simp]:
  "shape (enqueue_entity_load_avg c i s) = shape s" "vtimes (enqueue_entity_load_avg c i s) = vtimes s"
  "shape (dequeue_entity_load_avg c i s) = shape s" "vtimes (dequeue_entity_load_avg c i s) = vtimes s"
  by (simp_all add: enqueue_entity_load_avg_def dequeue_entity_load_avg_def Let_def shape_upd_cfs runq_shape_def)

section \<open>Bandwidth\<close>

lemma bandwidth_shape [simp]:
  "shape (start_cfs_bandwidth g s) = shape s" "vtimes (start_cfs_bandwidth g s) = vtimes s"
  "shape (snd (assign_cfs_rq_runtime c s)) = shape s" "vtimes (snd (assign_cfs_rq_runtime c s)) = vtimes s"
  "shape (expire_cfs_rq_runtime K c s) = shape s" "vtimes (expire_cfs_rq_runtime K c s) = vtimes s"
  by (simp_all add: start_cfs_bandwidth_def assign_cfs_rq_runtime_def expire_cfs_rq_runtime_def Let_def split_beta
      shape_upd_cfs runq_shape_def)

lemma account_shape [simp]: "shape (account_cfs_rq_runtime K c d s) = shape s" "vtimes (account_cfs_rq_runtime K c d s) = vtimes s"
  by (simp_all add: account_cfs_rq_runtime_def raw_account_cfs_rq_runtime_def Let_def split_beta shape_upd_cfs runq_shape_def)

lemma return_shape [simp]: "shape (return_cfs_rq_runtime K c s) = shape s" "vtimes (return_cfs_rq_runtime K c s) = vtimes s"
  by (simp_all add: return_cfs_rq_runtime_def raw_return_cfs_rq_runtime_def start_cfs_slack_bandwidth_def Let_def shape_upd_cfs
      runq_shape_def)

section \<open>Virtual time, buddies, slices\<close>

lemma min_vruntime_shape [simp]: "shape (update_min_vruntime c s) = shape s" "vtimes (update_min_vruntime c s) = vtimes s"
  by (simp_all add: update_min_vruntime_def Let_def shape_upd_cfs runq_shape_def)

lemma set_buddy_shape [simp]: "runq_shape (set_buddy b x q) = runq_shape q"
  by (cases b) (simp_all add: runq_shape_def)

lemma raw_clear_shape: "raw_clear_buddies n b i s = Some s' \<Longrightarrow> shape s' = shape s \<and> vtimes s' = vtimes s"
  by (induction n b i s rule: raw_clear_buddies.induct) (auto simp: Let_def shape_upd_cfs split: if_splits)

lemma clear_buddies_shape: "clear_buddies n c i s = Some s' \<Longrightarrow> shape s' = shape s \<and> vtimes s' = vtimes s"
  by (auto simp: clear_buddies_def dest!: raw_clear_shape split: if_splits bind_splits)

lemma calc_delta_shape: "calc_delta m d w lw = Some (v, lw') \<Longrightarrow> weight lw' = weight lw"
  by (auto simp: calc_delta_def update_inv_weight_def Let_def split: if_splits prod.splits)

lemma calc_delta_fair_shape: "calc_delta_fair m d lw = Some (v, lw') \<Longrightarrow> weight lw' = weight lw"
  by (auto simp: calc_delta_fair_def dest: calc_delta_shape split: if_splits)

lemma slice_up_shape: "slice_up n K i slc s = Some (v, s') \<Longrightarrow> shape s' = shape s \<and> vtimes s' = vtimes s"
  by (induction n K i slc s arbitrary: v s' rule: slice_up.induct)
     (fastforce simp: Let_def shape_upd_cfs runq_shape_def dest!: calc_delta_shape split: if_splits bind_splits)+

lemma sched_slice_shape: "sched_slice n K c i s = Some (v, s') \<Longrightarrow> shape s' = shape s \<and> vtimes s' = vtimes s"
  by (auto simp: sched_slice_def dest: slice_up_shape)

lemma sched_vslice_shape: "sched_vslice n K c i s = Some (v, s') \<Longrightarrow> shape s' = shape s \<and> vtimes s' = vtimes s"
  by (auto simp: sched_vslice_def shape_upd_se vtimes_upd_se entity_shape_def dest!: sched_slice_shape calc_delta_fair_shape
      split: bind_splits)

lemma preempt_tick_shape: "check_preempt_tick n K c i s = Some s' \<Longrightarrow> shape s' = shape s \<and> vtimes s' = vtimes s"
  by (auto simp: check_preempt_tick_def Let_def dest!: sched_slice_shape clear_buddies_shape split: if_splits bind_splits option.splits)

lemma wakeup_gran_shape: "wakeup_gran K i s = Some (v, s') \<Longrightarrow> shape s' = shape s \<and> vtimes s' = vtimes s"
  by (auto simp: wakeup_gran_def shape_upd_se vtimes_upd_se entity_shape_def dest!: calc_delta_fair_shape split: bind_splits)

lemma wakeup_preempt_shape: "wakeup_preempt_entity K j i s = Some (r, s') \<Longrightarrow> shape s' = shape s \<and> vtimes s' = vtimes s"
  by (auto simp: wakeup_preempt_entity_def Let_def dest!: wakeup_gran_shape split: if_splits bind_splits)

lemma favour_shape: "favour K l x (se, s) = Some (se', s') \<Longrightarrow> shape s' = shape s \<and> vtimes s' = vtimes s"
  by (auto simp: favour_def dest!: wakeup_preempt_shape split: option.splits bind_splits)

lemma pick_next_shape: "pick_next_entity n K c cur s = Some (r, s') \<Longrightarrow> shape s' = shape s \<and> vtimes s' = vtimes s"
  by (auto simp: pick_next_entity_def Let_def dest!: favour_shape clear_buddies_shape split: if_splits bind_splits option.splits)

lemma leaf_shape: "list_add_leaf_cfs_rq c s = Some s' \<Longrightarrow> shape s' = shape s \<and> vtimes s' = vtimes s"
  by (auto simp: list_add_leaf_cfs_rq_def Let_def shape_upd_cfs runq_shape_def split: if_splits option.splits bind_splits)

section \<open>Time is charged to the current entity only\<close>

lemma vtimes_upd_other: "j \<noteq> i \<Longrightarrow> vtimes (upd_se i f s) j = vtimes s j"
  by (simp add: vtimes_def upd_se_def)

lemma weight_kept: "weight lw = weight (se_load e) \<Longrightarrow> entity_shape (e\<lparr>se_load := lw, vruntime := v\<rparr>) = entity_shape e"
  by (simp add: entity_shape_def)

lemma place_shape:
  assumes "place_entity n K c i init s = Some s'"
  shows "shape s' = shape s" "j \<noteq> i \<Longrightarrow> vtimes s' j = vtimes s j"
proof -
  obtain v t where t: "shape t = shape s" "vtimes t = vtimes s" and s': "s' = upd_se i (\<lambda>e. e\<lparr>vruntime := max_vruntime (vruntime e) v\<rparr>) t"
    using assms by (auto simp: place_entity_def Let_def dest!: sched_vslice_shape split: if_splits bind_splits)
  show "shape s' = shape s" unfolding s' using t by (simp add: shape_upd_se entity_shape_def)
  show "vtimes s' j = vtimes s j" if "j \<noteq> i" unfolding s' using t that by (simp add: vtimes_upd_other)
qed

lemma update_curr_cases:
  assumes "update_curr K c s = Some s'"
  obtains "s' = s"
  | i d v lw where "curr (cfs_at s c) = Some i" "weight lw = weight (se_load (se_at s i))"
      "s' = account_cfs_rq_runtime K c d (update_min_vruntime c (upd_se i (\<lambda>e. e\<lparr>se_load := lw, vruntime := vruntime e + v\<rparr>)
        (upd_se i (\<lambda>e. e\<lparr>exec_start := clock_task (rq_at s (rq_cpu (cfs_at s c))), sum_exec_runtime := sum_exec_runtime e + d\<rparr>) s)))"
proof -
  have load: "se_load (se_at (upd_se i (\<lambda>e. e\<lparr>exec_start := a, sum_exec_runtime := b e\<rparr>) s) i) = se_load (se_at s i)" for i a b
    by (simp add: upd_se_def)
  show thesis
  proof (cases "curr (cfs_at s c)")
    case None
    then show thesis using assms that(1) by (simp add: update_curr_def Let_def)
  next
    case (Some i)
    define d where "d = clock_task (rq_at s (rq_cpu (cfs_at s c))) - exec_start (se_at s i)"
    show thesis
    proof (cases "sint d \<le> 0")
      case True
      then show thesis using assms that(1) Some by (simp add: update_curr_def Let_def d_def)
    next
      case False
      then have "do {
           (v, lw) \<leftarrow> calc_delta_fair (mul_u64_u32_shr K) d (se_load (se_at s i));
           Some (account_cfs_rq_runtime K c d (update_min_vruntime c (upd_se i (\<lambda>e. e\<lparr>se_load := lw, vruntime := vruntime e + v\<rparr>)
             (upd_se i (\<lambda>e. e\<lparr>exec_start := clock_task (rq_at s (rq_cpu (cfs_at s c))), sum_exec_runtime := sum_exec_runtime e + d\<rparr>) s))))
         } = Some s'"
        using assms Some by (simp add: update_curr_def Let_def d_def [symmetric] load)
      then obtain v lw where "calc_delta_fair (mul_u64_u32_shr K) d (se_load (se_at s i)) = Some (v, lw)"
        and s': "s' = account_cfs_rq_runtime K c d (update_min_vruntime c (upd_se i (\<lambda>e. e\<lparr>se_load := lw, vruntime := vruntime e + v\<rparr>)
             (upd_se i (\<lambda>e. e\<lparr>exec_start := clock_task (rq_at s (rq_cpu (cfs_at s c))), sum_exec_runtime := sum_exec_runtime e + d\<rparr>) s)))"
        by (auto simp: bind_eq_Some_conv)
      then show thesis using Some by (intro that(2) [OF _ calc_delta_fair_shape])
    qed
  qed
qed

lemma update_curr_shape:
  assumes "update_curr K c s = Some s'"
  shows "shape s' = shape s" "curr (cfs_at s c) \<noteq> Some j \<Longrightarrow> vtimes s' j = vtimes s j"
proof -
  have "shape s' = shape s \<and> (curr (cfs_at s c) \<noteq> Some j \<longrightarrow> vtimes s' j = vtimes s j)"
    using assms
  proof (cases rule: update_curr_cases)
    case (2 i d v lw)
    have "entity_shape (se_at (upd_se i (\<lambda>e. e\<lparr>exec_start := a, sum_exec_runtime := b e\<rparr>) s) i) = entity_shape (se_at s i)" for a b
      by (simp add: upd_se_def entity_shape_def)
    then show ?thesis
      unfolding 2(3) using 2(1,2) vtimes_upd_other [of j i]
      by (auto simp: shape_upd_se entity_shape_def upd_se_def [of i "\<lambda>e. e\<lparr>exec_start := _, sum_exec_runtime := _\<rparr>"])
  qed simp
  then show "shape s' = shape s" "curr (cfs_at s c) \<noteq> Some j \<Longrightarrow> vtimes s' j = vtimes s j" by auto
qed

end
