(* ===== verification/Runqueue.thy ===== *)
theory Runqueue
  imports Queue_Shape
begin

text \<open>
  The invariant that ties a runqueue together: the tree is the sorted list of the waiting entities, the running
  entity is not in it, the entities marked \<open>on_rq\<close> are exactly these, and \<open>load.weight\<close> and \<open>nr_running\<close>
  are their total weight and their number. Enqueueing, dequeueing, choosing, setting and putting back
  entities and the tick keep it, with bandwidth control off; \<open>m\<close> gives for each runqueue a point in virtual
  time within 2 to the 62 nanoseconds of all entities in its tree.
\<close>

section \<open>The invariant\<close>

definition runnable :: "cfs_id \<Rightarrow> kstate \<Rightarrow> se_id list" where
  "runnable c s = queued c s @ (case running_entity c s of None \<Rightarrow> [] | Some j \<Rightarrow> [j])"

text \<open>With entities \<open>xs\<close> that are accounted for but neither in the tree nor running, in the middle of an operation.\<close>

definition runq_with :: "u64 \<Rightarrow> cfs_id \<Rightarrow> se_id list \<Rightarrow> kstate \<Rightarrow> bool" where
  "runq_with m c xs s \<longleftrightarrow>
     timeline_ok m (se_at s) (tasks_timeline (cfs_at s c)) (rb_leftmost (cfs_at s c)) \<and>
     (\<forall>i \<in> set (queued c s). on_rq (se_at s i) \<noteq> 0 \<and> se_cfs_rq (se_at s i) = c) \<and>
     (\<forall>j. curr (cfs_at s c) = Some j \<longrightarrow> j \<notin> set (queued c s) \<and> se_cfs_rq (se_at s j) = c) \<and>
     distinct (runnable c s @ xs) \<and> (\<forall>i \<in> set xs. se_cfs_rq (se_at s i) = c) \<and>
     (\<forall>i. on_rq (se_at s i) \<noteq> 0 \<longrightarrow> se_cfs_rq (se_at s i) = c \<longrightarrow> i \<in> set (runnable c s @ xs)) \<and>
     weight (cfs_load (cfs_at s c)) = (\<Sum>i \<leftarrow> runnable c s @ xs. weight (se_load (se_at s i))) \<and>
     nr_running (cfs_at s c) = of_nat (length (runnable c s @ xs))"

definition runq_ok :: "u64 \<Rightarrow> cfs_id \<Rightarrow> kstate \<Rightarrow> bool" where
  "runq_ok m c s \<longleftrightarrow> runq_with m c [] s"

definition queues_ok :: "(cfs_id \<Rightarrow> u64) \<Rightarrow> kstate \<Rightarrow> bool" where
  "queues_ok m s \<longleftrightarrow> (\<forall>c. runq_ok (m c) c s) \<and> \<not> cfs_bandwidth_used s"

lemma runnable_set: "runq_with m c xs s \<Longrightarrow> i \<in> set (runnable c s) \<Longrightarrow> on_rq (se_at s i) \<noteq> 0 \<and> se_cfs_rq (se_at s i) = c"
  by (auto simp: runq_with_def runnable_def running_entity_def split: option.splits if_splits)

lemma running_cong:
  "curr (cfs_at s' c) = curr (cfs_at s c) \<Longrightarrow> (\<And>j. curr (cfs_at s c) = Some j \<Longrightarrow> on_rq (se_at s' j) = on_rq (se_at s j)) \<Longrightarrow>
   running_entity c s' = running_entity c s"
  by (cases "curr (cfs_at s c)") (simp_all add: running_entity_def)

text \<open>A runqueue is consistent as long as what it refers to does not change.\<close>

lemma timeline_cong: "\<forall>i \<in> set_tree t. vruntime (E' i) = vruntime (E i) \<Longrightarrow> timeline_ok m E' t f = timeline_ok m E t f"
  by (auto simp: timeline_ok_def cong: map_cong simp flip: set_inorder)

lemma runq_local:
  assumes "runq_shape (cfs_at s' c) = runq_shape (cfs_at s c)"
    and same: "\<forall>j. se_cfs_rq (se_at s' j) = c \<longleftrightarrow> se_cfs_rq (se_at s j) = c"
      "\<forall>j. se_cfs_rq (se_at s j) = c \<longrightarrow> on_rq (se_at s' j) = on_rq (se_at s j)"
      "\<forall>j \<in> set (runnable c s @ xs). weight (se_load (se_at s' j)) = weight (se_load (se_at s j))"
      "\<forall>j \<in> set (queued c s). vruntime (se_at s' j) = vruntime (se_at s j)"
    and ok: "runq_with m c xs s"
  shows "runq_with m c xs s'" "queued c s' = queued c s" "running_entity c s' = running_entity c s"
proof -
  have q: "tasks_timeline (cfs_at s' c) = tasks_timeline (cfs_at s c)" "rb_leftmost (cfs_at s' c) = rb_leftmost (cfs_at s c)"
    "curr (cfs_at s' c) = curr (cfs_at s c)" "weight (cfs_load (cfs_at s' c)) = weight (cfs_load (cfs_at s c))"
    "nr_running (cfs_at s' c) = nr_running (cfs_at s c)"
    using assms(1) by (auto simp: runq_shape_def)
  show 1: "queued c s' = queued c s" using q by (simp add: queued_def)
  show 2: "running_entity c s' = running_entity c s"
    using q(3) same(2) ok by (auto simp: running_entity_def runq_with_def split: option.splits)
  have 3: "runnable c s' = runnable c s" using 1 2 by (simp add: runnable_def)
  have 4: "timeline_ok m (se_at s') (tasks_timeline (cfs_at s c)) f = timeline_ok m (se_at s) (tasks_timeline (cfs_at s c)) f" for f
    using same(4) by (intro timeline_cong) (simp add: queued_def)
  have 5: "(\<Sum>i \<leftarrow> runnable c s @ xs. weight (se_load (se_at s' i))) = (\<Sum>i \<leftarrow> runnable c s @ xs. weight (se_load (se_at s i)))"
    using same(3) by (intro arg_cong [of _ _ sum_list] map_cong) auto
  show "runq_with m c xs s'"
    using ok same(1,2) unfolding runq_with_def q 1 3 4 5 by metis
qed

lemma runq_shape_keeps:
  assumes "shape s' = shape s" "\<forall>j \<in> set (queued c s). vtimes s' j = vtimes s j" "runq_with m c xs s"
  shows "runq_with m c xs s'" "queued c s' = queued c s" "running_entity c s' = running_entity c s"
proof -
  have "runq_shape (cfs_at s' c) = runq_shape (cfs_at s c)"
    using assms(1) by (auto simp: shape_def dest: fun_cong [of _ _ c])
  note l = runq_local [OF this _ _ _ _ assms(3)]
  show "runq_with m c xs s'" "queued c s' = queued c s" "running_entity c s' = running_entity c s"
    by (rule l; use shape_entity [OF assms(1)] assms(2) in \<open>simp add: vtimes_def\<close>)+
qed

lemma runq_still:
  assumes "shape s' = shape s" "vtimes s' = vtimes s" "runq_with m c xs s"
  shows "runq_with m c xs s'" "queued c s' = queued c s" "running_entity c s' = running_entity c s"
  using runq_shape_keeps [OF assms(1) _ assms(3)] assms(2) by auto

text \<open>An entity that is not accounted for may change its weight and its virtual time.\<close>

lemma runq_outside:
  assumes "i \<notin> set (runnable c s @ xs)" "on_rq (f (se_at s i)) = on_rq (se_at s i)" "se_cfs_rq (f (se_at s i)) = se_cfs_rq (se_at s i)"
    "runq_with m c xs s"
  shows "runq_with m c xs (upd_se i f s)" "queued c (upd_se i f s) = queued c s" "running_entity c (upd_se i f s) = running_entity c s"
proof -
  have r: "runq_shape (cfs_at (upd_se i f s) c) = runq_shape (cfs_at s c)" by (simp add: upd_se_def)
  note l = runq_local [OF this _ _ _ _ assms(4)]
  have q: "i \<notin> set (queued c s)" using assms(1) by (auto simp: runnable_def)
  show "runq_with m c xs (upd_se i f s)" "queued c (upd_se i f s) = queued c s" "running_entity c (upd_se i f s) = running_entity c s"
    by (rule l; use assms(1-3) q in \<open>auto simp: upd_se_def\<close>)+
qed

section \<open>Moving one entity\<close>

lemma runnable_frame:
  "tasks_timeline (cfs_at s' c) = tasks_timeline (cfs_at s c) \<Longrightarrow> curr (cfs_at s' c) = curr (cfs_at s c) \<Longrightarrow> se_at s' = se_at s \<Longrightarrow>
   runnable c s' = runnable c s \<and> queued c s' = queued c s"
  by (auto simp: runnable_def queued_def running_entity_def split: option.splits)

text \<open>Accounting for an entity, and its reverse.\<close>

lemma account_effects:
  fixes s :: kstate and i :: se_id
  defines "w \<equiv> weight (se_load (se_at s i))"
  shows "se_at (account_entity_enqueue c i s) = se_at s"
    "cfs_at (account_entity_enqueue c i s) = (cfs_at s)(c := (cfs_at s c)\<lparr>cfs_load := update_load_add w (cfs_load (cfs_at s c)),
        nr_running := nr_running (cfs_at s c) + 1\<rparr>)"
    "cfs_bandwidth_key (account_entity_enqueue c i s) = cfs_bandwidth_key s"
    "se_at (account_entity_dequeue c i s) = se_at s"
    "cfs_at (account_entity_dequeue c i s) = (cfs_at s)(c := (cfs_at s c)\<lparr>cfs_load := update_load_sub w (cfs_load (cfs_at s c)),
        nr_running := nr_running (cfs_at s c) - 1\<rparr>)"
    "cfs_bandwidth_key (account_entity_dequeue c i s) = cfs_bandwidth_key s"
  by (auto simp: account_entity_enqueue_def account_entity_dequeue_def upd_cfs_def upd_rq_def w_def Let_def)

lemma account_in:
  assumes "runq_with m c [] s" "on_rq (se_at s i) = 0" "se_cfs_rq (se_at s i) = c"
  shows "runq_with m c [i] (account_entity_enqueue c i s)"
    "queued c (account_entity_enqueue c i s) = queued c s" "running_entity c (account_entity_enqueue c i s) = running_entity c s"
proof -
  let ?t = "account_entity_enqueue c i s"
  have r: "runnable c ?t = runnable c s \<and> queued c ?t = queued c s"
    by (rule runnable_frame) (simp_all add: account_effects)
  then show "queued c ?t = queued c s" by simp
  show "running_entity c ?t = running_entity c s" by (rule running_cong) (simp_all add: account_effects)
  have "i \<notin> set (runnable c s)" using runnable_set [OF assms(1), of i] assms(2) by auto
  then show "runq_with m c [i] ?t"
    using assms r unfolding runq_with_def by (auto simp: account_effects update_load_add_def)
qed

lemma account_out:
  assumes "runq_with m c [i] s" "on_rq (se_at s i) = 0"
  shows "runq_with m c [] (account_entity_dequeue c i s)"
    "queued c (account_entity_dequeue c i s) = queued c s" "running_entity c (account_entity_dequeue c i s) = running_entity c s"
proof -
  let ?t = "account_entity_dequeue c i s"
  have r: "runnable c ?t = runnable c s \<and> queued c ?t = queued c s"
    by (rule runnable_frame) (simp_all add: account_effects)
  then show "queued c ?t = queued c s" by simp
  show "running_entity c ?t = running_entity c s" by (rule running_cong) (simp_all add: account_effects)
  show "runq_with m c [] ?t"
    using assms r unfolding runq_with_def by (auto simp: account_effects update_load_sub_def)
qed

lemma sum_list_perm: "mset xs = mset ys \<Longrightarrow> (\<Sum>x \<leftarrow> xs. f x) = (\<Sum>x \<leftarrow> ys. f x :: 'a::comm_monoid_add)"
  by (simp flip: sum_mset_sum_list)

text \<open>Into the tree, and out of it.\<close>

lemma link_cong:
  assumes "\<And>x. vruntime (E' x) = vruntime (E x)"
  shows "link_entity E' i t = link_entity E i t" "link_leftmost E' i t = link_leftmost E i t"
  by (induction t) (simp_all add: entity_before_def assms)

lemma tree_in:
  assumes K: "rb_ok K" and ok: "runq_with m c [i] s" and i: "on_rq (se_at s i) \<noteq> 0" "near m (vruntime (se_at s i))"
    "curr (cfs_at s c) \<noteq> Some i" and t: "raw_enqueue_entity K c i s = Some t"
  shows "runq_with m c [] t" "queued c t = insert_by (\<lambda>i. vkey m (vruntime (se_at s i))) i (queued c s)"
proof -
  let ?T = "tasks_timeline (cfs_at s c)"
  have out: "i \<notin> set_tree ?T" and tl: "timeline_ok m (se_at s) ?T (rb_leftmost (cfs_at s c))"
    using ok by (auto simp: runq_with_def runnable_def queued_def)
  note e = timeline_enqueue [OF K tl out i(2)]
  have t': "t = upd_cfs c (\<lambda>q. q\<lparr>rb_leftmost := (if link_leftmost (se_at s) i ?T then Some i else rb_leftmost q),
      tasks_timeline := rb_insert_color K (link_entity (se_at s) i ?T)\<rparr>) s"
    using t out by (simp add: raw_enqueue_entity_def Let_def)
  show q: "queued c t = insert_by (\<lambda>i. vkey m (vruntime (se_at s i))) i (queued c s)"
    using e(2) by (simp add: t' upd_cfs_def queued_def)
  have run: "running_entity c t = running_entity c s" by (rule running_cong) (simp_all add: t' upd_cfs_def)
  have ms: "mset (runnable c t) = mset (runnable c s @ [i])"
    by (simp add: runnable_def q run mset_insert_by)
  have st: "set (runnable c t) = set (runnable c s @ [i])" and len: "length (runnable c t) = length (runnable c s @ [i])"
    and d: "distinct (runnable c t) \<longleftrightarrow> distinct (runnable c s @ [i])"
    by (rule mset_eq_setD [OF ms], rule mset_eq_length [OF ms], rule mset_eq_imp_distinct_iff [OF ms])
  have "(\<Sum>i \<leftarrow> runnable c t. weight (se_load (se_at s i))) = (\<Sum>i \<leftarrow> runnable c s @ [i]. weight (se_load (se_at s i)))"
    by (rule sum_list_perm [OF ms])
  moreover have fields: "weight (cfs_load (cfs_at t c)) = weight (cfs_load (cfs_at s c))" "nr_running (cfs_at t c) = nr_running (cfs_at s c)"
    "se_at t = se_at s" "curr (cfs_at t c) = curr (cfs_at s c)"
    by (simp_all add: t' upd_cfs_def)
  moreover have "timeline_ok m (se_at t) (tasks_timeline (cfs_at t c)) (rb_leftmost (cfs_at t c))"
    using e(1) by (simp add: t' upd_cfs_def)
  moreover have "\<forall>j \<in> set (queued c t). on_rq (se_at s j) \<noteq> 0 \<and> se_cfs_rq (se_at s j) = c"
    using ok i(1) unfolding q by (simp add: runq_with_def)
  moreover have "\<forall>j. curr (cfs_at s c) = Some j \<longrightarrow> j \<notin> set (queued c t) \<and> se_cfs_rq (se_at s j) = c"
    using ok i(3) unfolding q runq_with_def by (metis insertE set_insert_by)
  ultimately show "runq_with m c [] t"
    using ok unfolding runq_with_def fields append_Nil2 st len d by (intro conjI) simp_all
qed

lemma tree_out:
  assumes K: "rb_ok K" and ok: "runq_with m c [] s" and i: "i \<in> set (queued c s)" and t: "raw_dequeue_entity K c i s = Some t"
  shows "runq_with m c [i] t" "queued c t = remove1 i (queued c s)" "running_entity c t = running_entity c s"
    "se_at t = se_at s" "curr (cfs_at t c) = curr (cfs_at s c)" "cfs_bandwidth_key t = cfs_bandwidth_key s"
proof -
  let ?T = "tasks_timeline (cfs_at s c)"
  have tl: "timeline_ok m (se_at s) ?T (rb_leftmost (cfs_at s c))"
    using ok by (simp add: runq_with_def)
  note e = timeline_dequeue [OF K tl, of i]
  have t': "t = upd_cfs c (\<lambda>q. q\<lparr>rb_leftmost := (if rb_leftmost q = Some i then rb_next K i ?T else rb_leftmost q),
      tasks_timeline := rb_erase K i ?T\<rparr>) s"
    using t i by (auto simp: raw_dequeue_entity_def Let_def queued_def split: if_splits)
  show q: "queued c t = remove1 i (queued c s)"
    using rb_okD(2) [OF K, of i ?T] by (simp add: t' upd_cfs_def queued_def)
  show run: "running_entity c t = running_entity c s" by (rule running_cong) (simp_all add: t' upd_cfs_def)
  show "se_at t = se_at s" "curr (cfs_at t c) = curr (cfs_at s c)" "cfs_bandwidth_key t = cfs_bandwidth_key s"
    by (simp_all add: t' upd_cfs_def)
  have ms: "mset (runnable c t @ [i]) = mset (runnable c s)"
    using i by (simp add: runnable_def q run)
  have st: "set (runnable c t @ [i]) = set (runnable c s)" and len: "length (runnable c t @ [i]) = length (runnable c s)"
    and d: "distinct (runnable c t @ [i]) \<longleftrightarrow> distinct (runnable c s)"
    by (rule mset_eq_setD [OF ms], rule mset_eq_length [OF ms], rule mset_eq_imp_distinct_iff [OF ms])
  have sum: "(\<Sum>i \<leftarrow> runnable c t @ [i]. weight (se_load (se_at s i))) = (\<Sum>i \<leftarrow> runnable c s. weight (se_load (se_at s i)))"
    by (rule sum_list_perm [OF ms])
  have sub: "set (queued c t) \<subseteq> set (queued c s)" unfolding q by (rule set_remove1_subset)
  have fields: "weight (cfs_load (cfs_at t c)) = weight (cfs_load (cfs_at s c))" "nr_running (cfs_at t c) = nr_running (cfs_at s c)"
    "se_at t = se_at s" "curr (cfs_at t c) = curr (cfs_at s c)"
    by (simp_all add: t' upd_cfs_def)
  have "timeline_ok m (se_at t) (tasks_timeline (cfs_at t c)) (rb_leftmost (cfs_at t c))"
    using e by (simp add: t' upd_cfs_def)
  moreover have "\<forall>j \<in> set (queued c t). on_rq (se_at s j) \<noteq> 0 \<and> se_cfs_rq (se_at s j) = c"
    "\<forall>j. curr (cfs_at s c) = Some j \<longrightarrow> j \<notin> set (queued c t) \<and> se_cfs_rq (se_at s j) = c"
    "\<forall>j \<in> set [i]. se_cfs_rq (se_at s j) = c"
    using ok i sub by (auto simp: runq_with_def)
  ultimately show "runq_with m c [i] t"
    using ok unfolding runq_with_def fields st len d sum append_Nil2 by (intro conjI) simp_all
qed

section \<open>Other runqueues\<close>

text \<open>What an operation on runqueue \<open>c\<close> may change: the runqueue and the entities attached to it.\<close>

definition touches :: "cfs_id \<Rightarrow> kstate \<Rightarrow> kstate \<Rightarrow> bool" where
  "touches c s s' \<longleftrightarrow> (\<forall>d. d \<noteq> c \<longrightarrow> runq_shape (cfs_at s' d) = runq_shape (cfs_at s d)) \<and>
     (\<forall>j. se_cfs_rq (se_at s' j) = se_cfs_rq (se_at s j)) \<and>
     (\<forall>j. se_cfs_rq (se_at s j) \<noteq> c \<longrightarrow> entity_shape (se_at s' j) = entity_shape (se_at s j) \<and> vruntime (se_at s' j) = vruntime (se_at s j)) \<and>
     cfs_bandwidth_key s' = cfs_bandwidth_key s"

lemma touches_refl [simp]: "touches c s s"
  by (simp add: touches_def)

lemma touches_trans: "touches c s t \<Longrightarrow> touches c t u \<Longrightarrow> touches c s u"
  unfolding touches_def by metis

lemma touches_shape: "shape s' = shape s \<Longrightarrow> (\<And>j. se_cfs_rq (se_at s j) \<noteq> c \<Longrightarrow> vtimes s' j = vtimes s j) \<Longrightarrow> touches c s s'"
  by (auto simp: touches_def shape_def vtimes_def entity_shape_def runq_shape_def dest: fun_cong)

lemma touches_se: "se_cfs_rq (se_at s i) = c \<Longrightarrow> se_cfs_rq (f (se_at s i)) = c \<Longrightarrow> touches c s (upd_se i f s)"
  by (auto simp: touches_def upd_se_def)

lemma touches_cfs: "touches c s (upd_cfs c f s)"
  by (auto simp: touches_def upd_cfs_def)

lemma touches_account: "touches c s (account_entity_enqueue c i s)" "touches c s (account_entity_dequeue c i s)"
  by (auto simp: touches_def account_effects)

lemma touches_tree: "raw_enqueue_entity K c i s = Some t \<Longrightarrow> touches c s t" "raw_dequeue_entity K c i s = Some t \<Longrightarrow> touches c s t"
  by (auto simp: raw_enqueue_entity_def raw_dequeue_entity_def Let_def touches_cfs split: if_splits)

lemma runq_elsewhere:
  assumes "touches c s s'" "d \<noteq> c" "runq_with m d xs s"
  shows "runq_with m d xs s'"
proof -
  have mem: "\<forall>j \<in> set (runnable d s @ xs). se_cfs_rq (se_at s j) = d"
    using assms(3) runnable_set [OF assms(3)] by (auto simp: runq_with_def)
  then have mem': "\<forall>j \<in> set (queued d s). se_cfs_rq (se_at s j) = d" by (auto simp: runnable_def)
  show ?thesis
    by (rule runq_local(1) [OF _ _ _ _ _ assms(3)]; use assms(1,2) mem mem' in \<open>auto simp: touches_def entity_shape_def\<close>)
qed

lemma queues_touched:
  assumes "queues_ok m s" "touches c s s'" "runq_with (m c) c [] s'"
  shows "queues_ok m s'"
proof -
  have "runq_with (m d) d [] s'" for d
    using runq_elsewhere [OF assms(2)] assms(1,3) by (cases "d = c") (auto simp: queues_ok_def runq_ok_def)
  then show ?thesis
    using assms(1,2) by (simp add: queues_ok_def runq_ok_def touches_def cfs_bandwidth_used_def)
qed

lemma queues_runq: "queues_ok m s \<Longrightarrow> runq_with (m c) c [] s"
  by (simp add: queues_ok_def runq_ok_def)

text \<open>What an operation on entity \<open>i\<close> leaves alone: who runs where, and whether the others are queued.\<close>

definition steady :: "se_id \<Rightarrow> kstate \<Rightarrow> kstate \<Rightarrow> bool" where
  "steady i s s' \<longleftrightarrow> (\<forall>c. curr (cfs_at s' c) = curr (cfs_at s c)) \<and> (\<forall>j. j \<noteq> i \<longrightarrow> on_rq (se_at s' j) = on_rq (se_at s j))"

lemma steady_trans: "steady i s t \<Longrightarrow> steady i t u \<Longrightarrow> steady i s u"
  by (simp add: steady_def)

lemma steady_refl [simp]: "steady i s s"
  by (simp add: steady_def)

lemma steady_shape: "shape s' = shape s \<Longrightarrow> steady i s s'"
  unfolding steady_def using shape_entity(2) [of s' s] shape_runq(3) [of s' s] by blast

lemma steady_se: "steady i s (upd_se i f s)"
  by (auto simp: steady_def upd_se_def)

lemma steady_account: "steady i s (account_entity_enqueue c j s)" "steady i s (account_entity_dequeue c j s)"
  by (auto simp: steady_def account_effects)

lemma steady_tree: "raw_enqueue_entity K c j s = Some t \<Longrightarrow> steady i s t" "raw_dequeue_entity K c j s = Some t \<Longrightarrow> steady i s t"
  by (auto simp: raw_enqueue_entity_def raw_dequeue_entity_def Let_def steady_def upd_cfs_def split: if_splits)

section \<open>Running time and shares\<close>

lemma update_curr_keeps:
  assumes ok: "runq_with m c xs s" and u: "update_curr K c s = Some s'"
  shows "runq_with m c xs s'" "queued c s' = queued c s" "touches c s s'" "shape s' = shape s"
proof -
  note sh = update_curr_shape [OF u]
  have "\<forall>j \<in> set (queued c s). vtimes s' j = vtimes s j"
    using ok sh(2) by (auto simp: runq_with_def)
  then show "runq_with m c xs s'" "queued c s' = queued c s"
    using runq_shape_keeps [OF sh(1) _ ok] by auto
  show "shape s' = shape s" by (rule sh(1))
  show "touches c s s'"
    using ok sh(2) by (intro touches_shape [OF sh(1)]) (auto simp: runq_with_def)
qed

lemma shares_off:
  assumes "on_rq (se_at s i) = 0" "update_cfs_shares K i s = Some s'"
  obtains "s' = s" | w where "s' = upd_se i (\<lambda>e. e\<lparr>se_load := update_load_set w (se_load e)\<rparr>) s"
proof -
  have "on_rq (se_at (upd_se i (\<lambda>e. e\<lparr>se_load := f e\<rparr>) s) i) = 0" for f
    using assms(1) by (simp add: upd_se_def)
  then show thesis
    using assms that by (auto simp: update_cfs_shares_def reweight_entity_def Let_def split: option.splits if_splits bind_splits)
qed

lemma shares_off_keeps:
  assumes ok: "runq_with m c [] s" and off: "on_rq (se_at s i) = 0" "se_cfs_rq (se_at s i) = c" and u: "update_cfs_shares K i s = Some s'"
  shows "runq_with m c [] s'" "queued c s' = queued c s" "touches c s s'" "on_rq (se_at s' i) = 0" "curr (cfs_at s' c) = curr (cfs_at s c)"
    "vtimes s' = vtimes s" "running_entity c s' = running_entity c s" "steady i s s'"
proof -
  have out: "i \<notin> set (runnable c s @ [])" using runnable_set [OF ok, of i] off by auto
  have "runq_with m c [] s' \<and> queued c s' = queued c s \<and> touches c s s' \<and> on_rq (se_at s' i) = 0 \<and> curr (cfs_at s' c) = curr (cfs_at s c)
    \<and> vtimes s' = vtimes s \<and> running_entity c s' = running_entity c s \<and> steady i s s'"
    using off(1) u
  proof (cases rule: shares_off)
    case (2 w)
    note r = runq_outside [OF out _ _ ok, of "\<lambda>e. e\<lparr>se_load := update_load_set w (se_load e)\<rparr>"]
    show ?thesis
      using r off unfolding 2 by (auto simp: touches_se vtimes_upd_se steady_se) (simp_all add: upd_se_def)
  qed (use ok off in auto)
  then show "runq_with m c [] s'" "queued c s' = queued c s" "touches c s s'" "on_rq (se_at s' i) = 0" "curr (cfs_at s' c) = curr (cfs_at s c)"
    "vtimes s' = vtimes s" "running_entity c s' = running_entity c s" "steady i s s'" by auto
qed

section \<open>Dequeueing\<close>

lemma sum_split: "i \<in> set xs \<Longrightarrow> distinct xs \<Longrightarrow>
    (\<Sum>x \<leftarrow> xs. f x) = (\<Sum>x \<leftarrow> remove1 i xs @ [i]. f x :: 'a::comm_monoid_add)"
  by (rule sum_list_perm) simp

text \<open>Clearing \<open>on_rq\<close> of an entity that has left the tree, or of the running one.\<close>

lemma off_taken:
  assumes ok: "runq_with m c [i] s" and cur: "curr (cfs_at s c) \<noteq> Some i"
  shows "runq_with m c [i] (upd_se i (\<lambda>e. e\<lparr>on_rq := v\<rparr>) s)" "queued c (upd_se i (\<lambda>e. e\<lparr>on_rq := v\<rparr>) s) = queued c s"
    "running_entity c (upd_se i (\<lambda>e. e\<lparr>on_rq := v\<rparr>) s) = running_entity c s"
proof -
  let ?t = "upd_se i (\<lambda>e. e\<lparr>on_rq := v\<rparr>) s"
  have same: "cfs_at ?t = cfs_at s" "\<And>j. weight (se_load (se_at ?t j)) = weight (se_load (se_at s j))"
    "\<And>j. se_cfs_rq (se_at ?t j) = se_cfs_rq (se_at s j)" "\<And>j. vruntime (se_at ?t j) = vruntime (se_at s j)"
    "\<And>j. j \<noteq> i \<Longrightarrow> se_at ?t j = se_at s j"
    by (simp_all add: upd_se_def)
  show r: "running_entity c ?t = running_entity c s"
    using cur same(5) by (intro running_cong) (auto simp: same(1))
  show q: "queued c ?t = queued c s" by (simp add: queued_def same)
  have n: "runnable c ?t = runnable c s" by (simp add: runnable_def r q)
  have "timeline_ok m (se_at ?t) (tasks_timeline (cfs_at s c)) f = timeline_ok m (se_at s) (tasks_timeline (cfs_at s c)) f" for f
    by (intro timeline_cong) (simp add: same)
  moreover have out: "i \<notin> set (queued c s)" using ok by (auto simp: runq_with_def runnable_def)
  have "on_rq (se_at ?t j) \<noteq> 0 \<and> se_cfs_rq (se_at s j) = c" if "j \<in> set (queued c s)" for j
    using ok that out same(5) [of j] unfolding runq_with_def by (cases "j = i") simp_all
  moreover have all: "\<forall>j. on_rq (se_at s j) \<noteq> 0 \<longrightarrow> se_cfs_rq (se_at s j) = c \<longrightarrow> j \<in> set (runnable c s @ [i])"
    using ok unfolding runq_with_def by (elim conjE)
  have "j \<in> set (runnable c s @ [i])" if "on_rq (se_at ?t j) \<noteq> 0" "se_cfs_rq (se_at s j) = c" for j
    using all that same(5) [of j] by (cases "j = i") auto
  ultimately show "runq_with m c [i] ?t"
    using ok unfolding runq_with_def n q same(1-4) by (intro conjI) simp_all
qed

lemma off_running:
  assumes ok: "runq_with m c [] s" and cur: "curr (cfs_at s c) = Some i" "on_rq (se_at s i) \<noteq> 0"
  shows "runq_with m c [i] (upd_se i (\<lambda>e. e\<lparr>on_rq := 0\<rparr>) s)" "queued c (upd_se i (\<lambda>e. e\<lparr>on_rq := 0\<rparr>) s) = queued c s"
    "running_entity c (upd_se i (\<lambda>e. e\<lparr>on_rq := 0\<rparr>) s) = None"
proof -
  let ?t = "upd_se i (\<lambda>e. e\<lparr>on_rq := 0\<rparr>) s"
  have same: "cfs_at ?t = cfs_at s" "\<And>j. weight (se_load (se_at ?t j)) = weight (se_load (se_at s j))"
    "\<And>j. se_cfs_rq (se_at ?t j) = se_cfs_rq (se_at s j)" "\<And>j. vruntime (se_at ?t j) = vruntime (se_at s j)"
    "\<And>j. j \<noteq> i \<Longrightarrow> se_at ?t j = se_at s j" "on_rq (se_at ?t i) = 0"
    by (simp_all add: upd_se_def)
  show r: "running_entity c ?t = None" by (simp add: running_entity_def cur same)
  show q: "queued c ?t = queued c s" by (simp add: queued_def same)
  have "running_entity c s = Some i" using cur by (simp add: running_entity_def)
  then have n: "runnable c s = runnable c ?t @ [i]" by (simp add: runnable_def r q)
  have "timeline_ok m (se_at ?t) (tasks_timeline (cfs_at s c)) f = timeline_ok m (se_at s) (tasks_timeline (cfs_at s c)) f" for f
    by (intro timeline_cong) (simp add: same)
  moreover have out: "i \<notin> set (queued c s)" using ok cur by (simp add: runq_with_def)
  have "on_rq (se_at ?t j) \<noteq> 0 \<and> se_cfs_rq (se_at s j) = c" if "j \<in> set (queued c s)" for j
    using ok that out same(5) [of j] unfolding runq_with_def by (cases "j = i") simp_all
  moreover have "j \<in> set (runnable c s)" if "on_rq (se_at ?t j) \<noteq> 0" "se_cfs_rq (se_at s j) = c" for j
    using ok that same(5) [of j] same(6) unfolding runq_with_def append_Nil2 by (cases "j = i") simp_all
  moreover have "\<forall>j \<in> set [i]. se_cfs_rq (se_at s j) = c" using ok cur by (simp add: runq_with_def)
  ultimately show "runq_with m c [i] ?t"
    using ok unfolding runq_with_def q same(1-4) append_Nil2 n [symmetric] by (intro conjI) simp_all
qed

lemma leave:
  assumes K: "rb_ok K" and ok: "runq_with m c [] s" and i: "on_rq (se_at s i) \<noteq> 0" "se_cfs_rq (se_at s i) = c"
    and t: "(if curr (cfs_at s c) \<noteq> Some i then raw_dequeue_entity K c i s else Some s) = Some t"
  defines "u \<equiv> upd_se i (\<lambda>e. e\<lparr>on_rq := 0\<rparr>) t"
  shows "runq_with m c [i] u" "queued c u = remove1 i (queued c s)" "touches c s u" "on_rq (se_at u i) = 0" "se_cfs_rq (se_at u i) = c"
    "steady i s u"
proof -
  have "steady i s t" using t steady_tree(2) [of K c i s t] by (auto split: if_splits)
  then show "steady i s u" unfolding u_def using steady_se by (rule steady_trans)
  have "runq_with m c [i] u \<and> queued c u = remove1 i (queued c s) \<and> touches c s t \<and> se_cfs_rq (se_at t i) = c"
  proof (cases "curr (cfs_at s c) = Some i")
    case True
    then have "t = s" "i \<notin> set (queued c s)" using t ok by (auto simp: runq_with_def)
    then show ?thesis using off_running [OF ok True i(1)] i(2) by (simp add: u_def remove1_idem)
  next
    case False
    have "i \<in> set (runnable c s)" using ok i by (auto simp: runq_with_def)
    then have q: "i \<in> set (queued c s)"
      using False by (auto simp: runnable_def running_entity_def split: option.splits if_splits)
    have d: "raw_dequeue_entity K c i s = Some t" using t False by simp
    note o = tree_out [OF K ok q d]
    show ?thesis
      using off_taken [OF o(1), of 0] o(2,4,5) False touches_tree(2) [OF d] i(2) by (simp add: u_def)
  qed
  then show "runq_with m c [i] u" "queued c u = remove1 i (queued c s)" "touches c s u" "on_rq (se_at u i) = 0" "se_cfs_rq (se_at u i) = c"
    using touches_trans [OF _ touches_se [of t i c "\<lambda>e. e\<lparr>on_rq := 0\<rparr>"], of s] by (auto simp: u_def) (simp_all add: upd_se_def)
qed

lemma still_touches: "shape s' = shape s \<Longrightarrow> vtimes s' = vtimes s \<Longrightarrow> touches c s s'"
  by (rule touches_shape) auto

lemma dequeue_keeps:
  assumes K: "rb_ok K" and ok: "runq_with m c [] s" and i: "on_rq (se_at s i) \<noteq> 0" "se_cfs_rq (se_at s i) = c"
    and d: "dequeue_entity n K c i fl s = Some s'"
  shows "runq_with m c [] s'" "queued c s' = remove1 i (queued c s)" "touches c s s'" "on_rq (se_at s' i) = 0" "steady i s s'"
proof -
  obtain a b e t h where a: "update_curr K c s = Some a" and b: "update_load_avg K i True False a = Some b"
    and e: "clear_buddies n c (Some i) (dequeue_entity_load_avg c i b) = Some e"
    and t: "(if curr (cfs_at e c) \<noteq> Some i then raw_dequeue_entity K c i e else Some e) = Some t"
    and h: "update_cfs_shares K i (return_cfs_rq_runtime K c (let s = account_entity_dequeue c i (upd_se i (\<lambda>e. e\<lparr>on_rq := 0\<rparr>) t) in
        if fl AND DEQUEUE_SLEEP = 0 then upd_se i (\<lambda>e. e\<lparr>vruntime := vruntime e - min_vruntime (cfs_at s c)\<rparr>) s else s)) = Some h"
    and s': "shape s' = shape h" "vtimes s' = vtimes h"
    using d by (auto simp: dequeue_entity_def Let_def bind_eq_Some_conv)
  note a' = update_curr_keeps [OF ok a]
  have be: "shape e = shape a" "vtimes e = vtimes a"
    using update_load_shape [OF b] clear_buddies_shape [OF e] by simp_all
  note e' = runq_still [OF be a'(1)]
  have ie: "on_rq (se_at e i) \<noteq> 0" "se_cfs_rq (se_at e i) = c"
    using shape_entity [OF be(1), of i] shape_entity [OF a'(4), of i] i by simp_all
  note u = leave [OF K e'(1) ie t]
  let ?u = "upd_se i (\<lambda>e. e\<lparr>on_rq := 0\<rparr>) t"
  let ?v = "account_entity_dequeue c i ?u"
  note v = account_out [OF u(1,4)]
  have iv: "on_rq (se_at ?v i) = 0" "se_cfs_rq (se_at ?v i) = c" using u(4,5) by (simp_all add: account_effects)
  define w where "w = (if fl AND DEQUEUE_SLEEP = 0 then upd_se i (\<lambda>e. e\<lparr>vruntime := vruntime e - min_vruntime (cfs_at ?v c)\<rparr>) ?v else ?v)"
  have "i \<notin> set (runnable c ?v @ [])" using runnable_set [OF v(1), of i] iv by auto
  note o = runq_outside [OF this _ _ v(1), of "\<lambda>e. e\<lparr>vruntime := vruntime e - min_vruntime (cfs_at ?v c)\<rparr>"]
  have w: "runq_with m c [] w" "queued c w = queued c ?v" "touches c ?v w" "on_rq (se_at w i) = 0" "se_cfs_rq (se_at w i) = c"
    "steady i ?v w"
    using o v(1) iv by (simp_all add: w_def touches_se steady_se) (simp_all add: upd_se_def)
  let ?r = "return_cfs_rq_runtime K c w"
  note r = runq_still [OF return_shape w(1), of K c]
  have ir: "on_rq (se_at ?r i) = 0" "se_cfs_rq (se_at ?r i) = c"
    using shape_entity [OF return_shape(1), of K c w i] w(4,5) by simp_all
  have "update_cfs_shares K i ?r = Some h" using h by (simp add: w_def Let_def)
  note h' = shares_off_keeps [OF r(1) ir this]
  show "runq_with m c [] s'" using runq_still [OF s' h'(1)] by simp
  show "queued c s' = remove1 i (queued c s)"
    using runq_still [OF s' h'(1)] h'(2) r(2) w(2) v(2) u(2) e'(2) a'(2) by simp
  show "touches c s s'"
    using a'(3) still_touches [OF be] u(3) touches_account(2) w(3) still_touches [OF return_shape] h'(3) still_touches [OF s']
    by (meson touches_trans)
  show "steady i s s'"
    using steady_shape [OF a'(4)] steady_shape [OF be(1)] u(6) steady_account(2) w(6) steady_shape [OF return_shape(1)] h'(8)
      steady_shape [OF s'(1)] by (meson steady_trans)
  show "on_rq (se_at s' i) = 0" using shape_entity [OF s'(1), of i] h'(4) by simp
qed

section \<open>Enqueueing\<close>

text \<open>The tree looks at virtual times only, so \<open>on_rq\<close> may be set before or after.\<close>

lemma enqueue_commutes:
  assumes "raw_enqueue_entity K c i s = Some t" "\<And>e. vruntime (f e) = vruntime e"
  shows "raw_enqueue_entity K c i (upd_se j f s) = Some (upd_se j f t)"
proof -
  have v: "vruntime (se_at (upd_se j f s) x) = vruntime (se_at s x)" for x
    using assms(2) by (simp add: upd_se_def)
  have c: "cfs_at (upd_se j f s) = cfs_at s" by (simp add: upd_se_def)
  show ?thesis
    using assms(1) by (auto simp: raw_enqueue_entity_def Let_def c link_cong [OF v] split: if_splits) (simp add: upd_se_def upd_cfs_def)
qed

text \<open>An accounted entity joins: into the tree, or as the entity that runs already.\<close>

lemma join:
  assumes K: "rb_ok K" and ok: "runq_with m c [i] s" and i: "on_rq (se_at s i) = 0"
    and near: "near m (vruntime (se_at s i))"
    and t: "(if curr (cfs_at s c) \<noteq> Some i then raw_enqueue_entity K c i s else Some s) = Some t"
  defines "u \<equiv> upd_se i (\<lambda>e. e\<lparr>on_rq := 1\<rparr>) t"
  shows "runq_with m c [] u" "touches c s u" "set (queued c u) \<union> {i} = set (queued c s) \<union> {i}" "vtimes u = vtimes s"
    "steady i s u"
proof -
  have "steady i s t" using t steady_tree(1) [of K c i s t] by (auto split: if_splits)
  then show "steady i s u" unfolding u_def using steady_se by (rule steady_trans)
  have ci: "se_cfs_rq (se_at s i) = c" using ok by (simp add: runq_with_def)
  have on: "on_rq (se_at (upd_se i (\<lambda>e. e\<lparr>on_rq := 1\<rparr>) s) i) \<noteq> 0" by (simp add: upd_se_def)
  have "runq_with m c [] u \<and> set (queued c u) \<union> {i} = set (queued c s) \<union> {i} \<and> touches c s t \<and> se_at t = se_at s"
  proof (cases "curr (cfs_at s c) = Some i")
    case False
    let ?s = "upd_se i (\<lambda>e. e\<lparr>on_rq := 1\<rparr>) s"
    have t': "raw_enqueue_entity K c i s = Some t" using t False by simp
    have "raw_enqueue_entity K c i ?s = Some u" unfolding u_def by (rule enqueue_commutes [OF t']) simp
    note o = off_taken [OF ok False, of 1]
    have "near m (vruntime (se_at ?s i))" "curr (cfs_at ?s c) \<noteq> Some i" using near False by (simp_all add: upd_se_def)
    note j = tree_in [OF K o(1) on this \<open>raw_enqueue_entity K c i ?s = Some u\<close>]
    have "se_at t = se_at s" using t' by (auto simp: raw_enqueue_entity_def Let_def upd_cfs_def split: if_splits)
    then show ?thesis using j o(2) touches_tree(1) [OF t'] by simp
  next
    case True
    then have ts: "t = s" using t by simp
    have q: "queued c u = queued c s" by (simp add: u_def ts queued_def upd_se_def)
    have none: "running_entity c s = None" using True i by (simp add: running_entity_def)
    have run: "running_entity c u = Some i" using True by (simp add: running_entity_def u_def ts upd_se_def)
    have n: "runnable c u = runnable c s @ [i]" by (simp add: runnable_def q none run)
    have same: "cfs_at u = cfs_at s" "\<And>j. weight (se_load (se_at u j)) = weight (se_load (se_at s j))"
      "\<And>j. se_cfs_rq (se_at u j) = se_cfs_rq (se_at s j)" "\<And>j. vruntime (se_at u j) = vruntime (se_at s j)"
      "\<And>j. on_rq (se_at u j) \<noteq> 0 \<longleftrightarrow> j = i \<or> on_rq (se_at s j) \<noteq> 0"
      by (simp_all add: u_def ts upd_se_def)
    have "timeline_ok m (se_at u) (tasks_timeline (cfs_at s c)) f = timeline_ok m (se_at s) (tasks_timeline (cfs_at s c)) f" for f
      by (intro timeline_cong) (simp add: same)
    then have "runq_with m c [] u"
      using ok ci unfolding runq_with_def same q n append_Nil2 by auto
    then show ?thesis using q ts by simp
  qed
  then show "runq_with m c [] u" "touches c s u" "set (queued c u) \<union> {i} = set (queued c s) \<union> {i}" "vtimes u = vtimes s"
    using touches_trans [OF _ touches_se [of t i c "\<lambda>e. e\<lparr>on_rq := 1\<rparr>"], of s] ci
    by (auto simp: u_def vtimes_upd_se) (simp_all add: vtimes_def)
qed

text \<open>The steps before the entity is linked leave it out of the runqueue.\<close>

lemma renorm_keeps:
  fixes v :: u64
  assumes ok: "runq_with m c [] s" and i: "on_rq (se_at s i) = 0" "se_cfs_rq (se_at s i) = c"
  defines "t \<equiv> upd_se i (\<lambda>e. e\<lparr>vruntime := vruntime e + v\<rparr>) s"
  shows "runq_with m c [] t" "queued c t = queued c s" "touches c s t" "shape t = shape s"
proof -
  have out: "i \<notin> set (runnable c s @ [])" using runnable_set [OF ok, of i] i by auto
  note r = runq_outside [OF out _ _ ok, of "\<lambda>e. e\<lparr>vruntime := vruntime e + v\<rparr>"]
  show "runq_with m c [] t" "queued c t = queued c s" using r by (simp_all add: t_def)
  show "touches c s t" "shape t = shape s"
    using i by (simp_all add: t_def touches_se shape_upd_se entity_shape_def)
qed

lemma enqueue_prologue:
  assumes ok: "runq_with m c [] s" and i: "on_rq (se_at s i) = 0" "se_cfs_rq (se_at s i) = c"
    and b: "update_curr K c (if p then upd_se i (\<lambda>e. e\<lparr>vruntime := vruntime e + min_vruntime (cfs_at s c)\<rparr>) s else s) = Some b"
    and e: "e = (if q then upd_se i (\<lambda>x. x\<lparr>vruntime := vruntime x + min_vruntime (cfs_at b c)\<rparr>) b else b)"
    and f: "update_load_avg K i True False e = Some f"
    and g: "update_cfs_shares K i (enqueue_entity_load_avg c i f) = Some g"
  shows "runq_with m c [] g" "queued c g = queued c s" "touches c s g" "on_rq (se_at g i) = 0" "se_cfs_rq (se_at g i) = c"
    "curr (cfs_at g c) = curr (cfs_at s c)" "steady i s g"
proof -
  define a where "a = (if p then upd_se i (\<lambda>e. e\<lparr>vruntime := vruntime e + min_vruntime (cfs_at s c)\<rparr>) s else s)"
  have a: "runq_with m c [] a" "queued c a = queued c s" "touches c s a" "shape a = shape s"
    using renorm_keeps [OF ok i] ok by (auto simp: a_def)
  note b' = update_curr_keeps [OF a(1) b [folded a_def]]
  have ib: "on_rq (se_at b i) = 0" "se_cfs_rq (se_at b i) = c"
    using shape_entity [OF trans [OF b'(4) a(4)], of i] i by simp_all
  have e': "runq_with m c [] e" "queued c e = queued c b" "touches c b e" "shape e = shape b"
    using renorm_keeps [OF b'(1) ib] b'(1) by (auto simp: e)
  have sf: "shape (enqueue_entity_load_avg c i f) = shape e" "vtimes (enqueue_entity_load_avg c i f) = vtimes e"
    using update_load_shape [OF f] by simp_all
  have se: "shape (enqueue_entity_load_avg c i f) = shape s" using sf(1) e'(4) b'(4) a(4) by simp
  note f' = runq_still [OF sf e'(1)]
  have if': "on_rq (se_at (enqueue_entity_load_avg c i f) i) = 0" "se_cfs_rq (se_at (enqueue_entity_load_avg c i f) i) = c"
    using shape_entity [OF se, of i] i by simp_all
  note g' = shares_off_keeps [OF f'(1) if' g]
  show "runq_with m c [] g" "on_rq (se_at g i) = 0" by (rule g'(1), rule g'(4))
  show "queued c g = queued c s" using g'(2) f'(2) e'(2) b'(2) a(2) by simp
  show "curr (cfs_at g c) = curr (cfs_at s c)" using g'(5) shape_runq [OF se] by simp
  show "steady i s g" using steady_shape [OF se] g'(8) by (rule steady_trans)
  show t: "touches c s g"
    using a(3) b'(3) e'(3) still_touches [OF sf] g'(3) by (meson touches_trans)
  show "se_cfs_rq (se_at g i) = c" using t i(2) by (simp add: touches_def)
qed

lemma enqueue_keeps:
  assumes K: "rb_ok K" and ok: "runq_with m c [] s" and i: "on_rq (se_at s i) = 0" "se_cfs_rq (se_at s i) = c"
    and off: "\<not> cfs_bandwidth_used s" and d: "enqueue_entity n K c i fl s = Some s'" and near: "near m (vruntime (se_at s' i))"
  shows "runq_with m c [] s'" "touches c s s'" "on_rq (se_at s' i) \<noteq> 0" "set (queued c s') \<union> {i} = set (queued c s) \<union> {i}"
    "steady i s s'"
proof -
  define running where "running = (curr (cfs_at s c) = Some i)"
  define renorm where "renorm = (fl AND ENQUEUE_WAKEUP = 0 \<or> fl AND ENQUEUE_MIGRATED \<noteq> 0)"
  obtain b f g h t
    where b: "update_curr K c (if renorm \<and> running then upd_se i (\<lambda>e. e\<lparr>vruntime := vruntime e + min_vruntime (cfs_at s c)\<rparr>) s
        else s) = Some b"
    and f: "update_load_avg K i True False (if renorm \<and> \<not> running
        then upd_se i (\<lambda>e. e\<lparr>vruntime := vruntime e + min_vruntime (cfs_at b c)\<rparr>) b else b) = Some f"
    and g: "update_cfs_shares K i (enqueue_entity_load_avg c i f) = Some g"
    and h: "(if fl AND ENQUEUE_WAKEUP \<noteq> 0 then place_entity n K c i False (account_entity_enqueue c i g)
             else Some (account_entity_enqueue c i g)) = Some h"
    and t: "(if \<not> running then raw_enqueue_entity K c i h else Some h) = Some t"
    and z: "(if nr_running (cfs_at (upd_se i (\<lambda>e. e\<lparr>on_rq := 1\<rparr>) t) c) = 1
             then do { s \<leftarrow> list_add_leaf_cfs_rq c (upd_se i (\<lambda>e. e\<lparr>on_rq := 1\<rparr>) t); check_enqueue_throttle n K c s }
             else Some (upd_se i (\<lambda>e. e\<lparr>on_rq := 1\<rparr>) t)) = Some s'"
    using d unfolding enqueue_entity_def Let_def running_def [symmetric] renorm_def [symmetric] bind_eq_Some_conv
    by (elim exE conjE) (rule that)
  note g' = enqueue_prologue [OF ok i b refl f g]
  note v = account_in [OF g'(1,4,5)]
  let ?v = "account_entity_enqueue c i g"
  have h': "runq_with m c [i] h \<and> queued c h = queued c ?v \<and> shape h = shape ?v \<and> (\<forall>j. j \<noteq> i \<longrightarrow> vtimes h j = vtimes ?v j)"
  proof (cases "fl AND ENQUEUE_WAKEUP = 0")
    case False
    then have p: "place_entity n K c i False ?v = Some h" using h by simp
    have "i \<notin> set (queued c ?v)" using v(1) by (auto simp: runq_with_def runnable_def)
    then have "\<forall>j \<in> set (queued c ?v). vtimes h j = vtimes ?v j" using place_shape(2) [OF p] by metis
    then show ?thesis using runq_shape_keeps [OF place_shape(1) [OF p] _ v(1)] place_shape [OF p] by simp
  qed (use h v in simp)
  have iv: "on_rq (se_at ?v i) = 0" "se_cfs_rq (se_at ?v i) = c" "curr (cfs_at ?v c) = curr (cfs_at s c)"
    using g'(4-6) by (simp_all add: account_effects)
  have ih: "on_rq (se_at h i) = 0" "se_cfs_rq (se_at h i) = c" "curr (cfs_at h c) = curr (cfs_at s c)"
    using iv h' shape_entity [of h ?v i] shape_runq [of h ?v c] by simp_all
  have th: "touches c ?v h"
    using h' iv(2) by (intro touches_shape) auto
  let ?u = "upd_se i (\<lambda>e. e\<lparr>on_rq := 1\<rparr>) t"
  have "touches c h t" using t touches_tree(1) [of K c i h t] by (auto split: if_splits)
  moreover have "cfs_bandwidth_key ?u = cfs_bandwidth_key t" by (simp add: upd_se_def)
  ultimately have "cfs_bandwidth_key ?u = cfs_bandwidth_key s"
    using g'(3) th by (simp add: touches_def account_effects)
  then have "\<not> cfs_bandwidth_used ?u" using off by (simp add: cfs_bandwidth_used_def)
  then have s': "shape s' = shape ?u \<and> vtimes s' = vtimes ?u"
    using z by (auto simp: check_enqueue_throttle_def dest!: leaf_shape dest: shape_key split: if_splits bind_splits)
  have tt: "(if curr (cfs_at h c) \<noteq> Some i then raw_enqueue_entity K c i h else Some h) = Some t"
    using t by (simp add: ih(3) running_def)
  have "vtimes t = vtimes h" using tt by (auto simp: raw_enqueue_entity_def Let_def split: if_splits)
  then have "vtimes ?u = vtimes h" by (simp add: vtimes_upd_se)
  then have "near m (vruntime (se_at h i))"
    using near s' vtimes_at [of s' h i] by simp
  note u = join [OF K conjunct1 [OF h'] ih(1) this tt]
  note z' = runq_still [OF conjunct1 [OF s'] conjunct2 [OF s'] u(1)]
  show "runq_with m c [] s'" by (rule z'(1))
  show "touches c s s'"
    using g'(3) touches_account(1) th u(2) still_touches [OF conjunct1 [OF s'] conjunct2 [OF s']] by (meson touches_trans)
  have "shape h = shape ?v" using h' by simp
  then show "steady i s s'"
    using g'(7) steady_account(1) steady_shape u(5) steady_shape [OF conjunct1 [OF s']] by (meson steady_trans)
  show "on_rq (se_at s' i) \<noteq> 0" using shape_entity(2) [OF conjunct1 [OF s'], of i] by (simp add: upd_se_def)
  show "set (queued c s') \<union> {i} = set (queued c s) \<union> {i}"
    using z'(2) u(3) h' v(2) g'(2) by simp
qed

end
