(* ===== verification/Runqueue_Steps.thy ===== *)
theory Runqueue_Steps
  imports Runqueue
begin

text \<open>
  The remaining operations on a runqueue keep its invariant: setting and putting back the running entity, new
  weights, the tick. The operations together form the step relation \<open>rq_step\<close>; every state it reaches is
  consistent, and each step refines a step of an abstract runqueue, which knows only its members and the entity
  that runs.
\<close>

section \<open>The running entity\<close>

lemma upd_curr:
  shows "se_at (upd_cfs c (\<lambda>q. q\<lparr>curr := x\<rparr>) s) = se_at s" "queued d (upd_cfs c (\<lambda>q. q\<lparr>curr := x\<rparr>) s) = queued d s"
    "curr (cfs_at (upd_cfs c (\<lambda>q. q\<lparr>curr := x\<rparr>) s) c) = x" "cfs_bandwidth_key (upd_cfs c (\<lambda>q. q\<lparr>curr := x\<rparr>) s) = cfs_bandwidth_key s"
  by (auto simp: upd_cfs_def queued_def)

lemma curr_begins:
  assumes ok: "runq_with m c [i] s" and cur: "curr (cfs_at s c) = None" and on: "on_rq (se_at s i) \<noteq> 0"
  shows "runq_with m c [] (upd_cfs c (\<lambda>q. q\<lparr>curr := Some i\<rparr>) s)"
proof -
  let ?t = "upd_cfs c (\<lambda>q. q\<lparr>curr := Some i\<rparr>) s"
  have "running_entity c s = None" "running_entity c ?t = Some i"
    using cur on by (simp_all add: running_entity_def upd_curr)
  then have n: "runnable c ?t = runnable c s @ [i]" by (simp add: runnable_def upd_curr)
  have f: "tasks_timeline (cfs_at ?t c) = tasks_timeline (cfs_at s c)" "rb_leftmost (cfs_at ?t c) = rb_leftmost (cfs_at s c)"
    "weight (cfs_load (cfs_at ?t c)) = weight (cfs_load (cfs_at s c))" "nr_running (cfs_at ?t c) = nr_running (cfs_at s c)"
    by (simp_all add: upd_cfs_def)
  have "\<forall>j. Some i = Some j \<longrightarrow> j \<notin> set (queued c s) \<and> se_cfs_rq (se_at s j) = c"
    using ok by (auto simp: runq_with_def runnable_def)
  then show ?thesis
    using ok unfolding runq_with_def upd_curr f n append_Nil2 by (elim conjE) (intro conjI; simp)
qed

lemma curr_begins_asleep:
  assumes ok: "runq_with m c [] s" and cur: "curr (cfs_at s c) = None" and i: "on_rq (se_at s i) = 0" "se_cfs_rq (se_at s i) = c"
  shows "runq_with m c [] (upd_cfs c (\<lambda>q. q\<lparr>curr := Some i\<rparr>) s)"
proof -
  let ?t = "upd_cfs c (\<lambda>q. q\<lparr>curr := Some i\<rparr>) s"
  have "running_entity c s = None" "running_entity c ?t = None"
    using cur i by (simp_all add: running_entity_def upd_curr)
  then have n: "runnable c ?t = runnable c s" by (simp add: runnable_def upd_curr)
  have f: "tasks_timeline (cfs_at ?t c) = tasks_timeline (cfs_at s c)" "rb_leftmost (cfs_at ?t c) = rb_leftmost (cfs_at s c)"
    "weight (cfs_load (cfs_at ?t c)) = weight (cfs_load (cfs_at s c))" "nr_running (cfs_at ?t c) = nr_running (cfs_at s c)"
    by (simp_all add: upd_cfs_def)
  have "\<forall>j. Some i = Some j \<longrightarrow> j \<notin> set (queued c s) \<and> se_cfs_rq (se_at s j) = c"
    using ok i by (auto simp: runq_with_def)
  then show ?thesis
    using ok unfolding runq_with_def upd_curr f n append_Nil2 by (elim conjE) (intro conjI; simp)
qed

lemma curr_ends:
  assumes ok: "runq_with m c [] s" and cur: "curr (cfs_at s c) = Some i"
  shows "runq_with m c (if on_rq (se_at s i) \<noteq> 0 then [i] else []) (upd_cfs c (\<lambda>q. q\<lparr>curr := None\<rparr>) s)"
proof -
  let ?t = "upd_cfs c (\<lambda>q. q\<lparr>curr := None\<rparr>) s" and ?xs = "if on_rq (se_at s i) \<noteq> 0 then [i] else []"
  have "running_entity c s = (if on_rq (se_at s i) \<noteq> 0 then Some i else None)" "running_entity c ?t = None"
    using cur by (simp_all add: running_entity_def upd_curr)
  then have n: "runnable c s = runnable c ?t @ ?xs" by (simp add: runnable_def upd_curr)
  have f: "tasks_timeline (cfs_at ?t c) = tasks_timeline (cfs_at s c)" "rb_leftmost (cfs_at ?t c) = rb_leftmost (cfs_at s c)"
    "weight (cfs_load (cfs_at ?t c)) = weight (cfs_load (cfs_at s c))" "nr_running (cfs_at ?t c) = nr_running (cfs_at s c)"
    by (simp_all add: upd_cfs_def)
  have "\<forall>j \<in> set ?xs. se_cfs_rq (se_at s j) = c" using ok cur by (simp add: runq_with_def)
  then show ?thesis
    using ok unfolding runq_with_def upd_curr f append_Nil2 n [symmetric] by (elim conjE) (intro conjI; simp)
qed

lemma members_when_idle:
  "runq_with m c [] s \<Longrightarrow> curr (cfs_at s c) = None \<Longrightarrow> on_rq (se_at s i) \<noteq> 0 \<Longrightarrow> se_cfs_rq (se_at s i) = c \<Longrightarrow> i \<in> set (queued c s)"
  by (auto simp: runq_with_def runnable_def running_entity_def)

lemma touches_curr: "touches c s (upd_cfs c (\<lambda>q. q\<lparr>curr := x\<rparr>) s)"
  by (rule touches_cfs)

lemma set_next_keeps:
  assumes K: "rb_ok K" and ok: "runq_with m c [] s" and cur: "curr (cfs_at s c) = None" and i: "se_cfs_rq (se_at s i) = c"
    and d: "set_next_entity K c i s = Some s'"
  shows "runq_with m c [] s'" "touches c s s'" "\<And>j. on_rq (se_at s' j) = on_rq (se_at s j)"
    "\<And>d. curr (cfs_at s' d) = (if d = c then Some i else curr (cfs_at s d))"
proof -
  obtain t where t: "(if on_rq (se_at s i) \<noteq> 0 then do { s \<leftarrow> raw_dequeue_entity K c i s; update_load_avg K i True False s } else Some s) = Some t"
    and s': "s' = upd_se i (\<lambda>e. e\<lparr>prev_sum_exec_runtime := sum_exec_runtime e\<rparr>)
        (upd_cfs c (\<lambda>q. q\<lparr>curr := Some i\<rparr>) (update_stats_curr_start c i t))"
    using d unfolding set_next_entity_def Let_def bind_eq_Some_conv by (elim exE conjE) (rule that, assumption, simp only: option.inject)
  let ?e = "\<lambda>e. e\<lparr>exec_start := clock_task (rq_at t (rq_cpu (cfs_at t c))), prev_sum_exec_runtime := sum_exec_runtime e\<rparr>"
  have s'': "s' = upd_se i ?e (upd_cfs c (\<lambda>q. q\<lparr>curr := Some i\<rparr>) t)"
    by (simp add: s' update_stats_curr_start_def upd_se_def upd_cfs_def)
  have sh: "shape s' = shape (upd_cfs c (\<lambda>q. q\<lparr>curr := Some i\<rparr>) t)" "vtimes s' = vtimes (upd_cfs c (\<lambda>q. q\<lparr>curr := Some i\<rparr>) t)"
    unfolding s'' by (simp_all add: shape_upd_se vtimes_upd_se entity_shape_def)
  have "runq_with m c [] (upd_cfs c (\<lambda>q. q\<lparr>curr := Some i\<rparr>) t) \<and> touches c s t \<and> steady i s t \<and> on_rq (se_at t i) = on_rq (se_at s i)"
  proof (cases "on_rq (se_at s i) = 0")
    case True
    then show ?thesis using t curr_begins_asleep [OF ok cur True i] by simp
  next
    case False
    then obtain u where u: "raw_dequeue_entity K c i s = Some u" "update_load_avg K i True False u = Some t"
      using t by (auto split: bind_splits)
    note o = tree_out [OF K ok members_when_idle [OF ok cur False i] u(1)]
    have tu: "shape t = shape u" "vtimes t = vtimes u" using update_load_shape [OF u(2)] by simp_all
    have "on_rq (se_at t i) = on_rq (se_at s i)" using o(4) shape_entity [OF tu(1), of i] by simp
    moreover have "curr (cfs_at t c) = None" using o(5) cur shape_runq [OF tu(1), of c] by simp
    ultimately have "runq_with m c [] (upd_cfs c (\<lambda>q. q\<lparr>curr := Some i\<rparr>) t)"
      using curr_begins [OF runq_still(1) [OF tu o(1)]] False by simp
    then show ?thesis
      using touches_tree(2) [OF u(1)] still_touches [OF tu] steady_tree(2) [OF u(1)] steady_shape [OF tu(1)]
        \<open>on_rq (se_at t i) = on_rq (se_at s i)\<close> by (blast intro: touches_trans steady_trans)
  qed
  note r = this
  show "runq_with m c [] s'" using runq_still(1) [OF sh] r by blast
  show "touches c s s'" using r touches_curr still_touches [OF sh] by (blast intro: touches_trans)
  show "on_rq (se_at s' j) = on_rq (se_at s j)" for j
    using r shape_entity(2) [OF sh(1), of j] by (cases "j = i") (simp_all add: upd_curr steady_def)
  show "curr (cfs_at s' d) = (if d = c then Some i else curr (cfs_at s d))" for d
    using r shape_runq(3) [OF sh(1), of d] by (simp add: upd_cfs_def steady_def)
qed

text \<open>Putting back: the entity returns to the tree and \<open>curr\<close> is cleared, in either order.\<close>

lemma upd_cfs_swap: "(\<And>q. f (g q) = g (f q)) \<Longrightarrow> upd_cfs c f (upd_cfs c g s) = upd_cfs c g (upd_cfs c f s)"
  by (simp add: upd_cfs_def)

lemma tree_curr:
  assumes "raw_enqueue_entity K c i s = Some t"
  shows "raw_enqueue_entity K c i (upd_cfs c (\<lambda>q. q\<lparr>curr := x\<rparr>) s) = Some (upd_cfs c (\<lambda>q. q\<lparr>curr := x\<rparr>) t)"
proof -
  let ?C = "\<lambda>q::cfs_rq. q\<lparr>curr := x\<rparr>" and ?T = "tasks_timeline (cfs_at s c)"
  let ?F = "\<lambda>q::cfs_rq. q\<lparr>rb_leftmost := (if link_leftmost (se_at s) i ?T then Some i else rb_leftmost q),
      tasks_timeline := rb_insert_color K (link_entity (se_at s) i ?T)\<rparr>"
  have t: "i \<notin> set_tree ?T" "t = upd_cfs c ?F s"
    using assms by (simp_all add: raw_enqueue_entity_def Let_def split: if_split_asm)
  have "?F (?C q) = ?C (?F q)" for q by (cases q) simp
  then have "upd_cfs c ?F (upd_cfs c ?C s) = upd_cfs c ?C (upd_cfs c ?F s)" by (rule upd_cfs_swap)
  moreover have "tasks_timeline (cfs_at (upd_cfs c ?C s) c) = ?T" by (simp add: upd_cfs_def)
  ultimately show ?thesis
    unfolding raw_enqueue_entity_def Let_def upd_curr by (simp add: t)
qed

lemma shape_curr:
  assumes "shape f = shape t"
  shows "shape (upd_cfs c (\<lambda>q. q\<lparr>curr := x\<rparr>) f) = shape (upd_cfs c (\<lambda>q. q\<lparr>curr := x\<rparr>) t)"
proof -
  note u = assms [unfolded shape_def prod.inject]
  have a: "(\<lambda>i. entity_shape (se_at f i)) = (\<lambda>i. entity_shape (se_at t i))"
    and b: "(\<lambda>c. runq_shape (cfs_at f c)) = (\<lambda>c. runq_shape (cfs_at t c))"
    and k: "cfs_bandwidth_key f = cfs_bandwidth_key t"
    by (rule conjunct1 [OF u], rule conjunct1 [OF conjunct2 [OF u]], rule conjunct2 [OF conjunct2 [OF u]])
  have "runq_shape (cfs_at f d) = runq_shape (cfs_at t d)" for d
    using fun_cong [OF b, of d] .
  then have "runq_shape (cfs_at (upd_cfs c (\<lambda>q. q\<lparr>curr := x\<rparr>) f) d) = runq_shape (cfs_at (upd_cfs c (\<lambda>q. q\<lparr>curr := x\<rparr>) t) d)" for d
    by (simp add: upd_cfs_def runq_shape_def)
  then show ?thesis unfolding shape_def upd_curr a k by simp
qed

lemma put_prev_keeps:
  assumes K: "rb_ok K" and ok: "runq_with m c [] s" and cur: "curr (cfs_at s c) = Some i"
    and off: "\<not> cfs_bandwidth_used s" and d: "put_prev_entity n K c i s = Some s'"
    and near: "on_rq (se_at s i) \<noteq> 0 \<Longrightarrow> near m (vruntime (se_at s' i))"
  shows "runq_with m c [] s'" "touches c s s'" "\<And>j. on_rq (se_at s' j) = on_rq (se_at s j)"
    "\<And>d. curr (cfs_at s' d) = (if d = c then None else curr (cfs_at s d))"
proof -
  define u where "u t = upd_cfs c (\<lambda>q. q\<lparr>curr := None\<rparr>) t" for t
  have "runq_with m c [] s' \<and> touches c s s' \<and> (\<exists>t. shape s' = shape (u t) \<and> steady i s t \<and> on_rq (se_at t i) = on_rq (se_at s i))"
  proof (cases "on_rq (se_at s i) = 0")
    case True
    then have s': "s' = u s" using d off by (simp add: put_prev_entity_def check_cfs_rq_runtime_def u_def)
    then show ?thesis using curr_ends [OF ok cur] True touches_curr by (auto simp: u_def intro!: exI [of _ s])
  next
    case False
    then obtain a b where a: "update_curr K c s = Some a"
      and b: "(do { (t, s) \<leftarrow> check_cfs_rq_runtime n K c a;
               s \<leftarrow> (if on_rq (se_at s i) \<noteq> 0
                     then do { s \<leftarrow> raw_enqueue_entity K c i s; update_load_avg K i False False s }
                     else Some s);
               Some (u s) }) = Some s'"
      using d by (auto simp: put_prev_entity_def u_def split: bind_splits)
    note a' = update_curr_keeps [OF ok a]
    have ia: "on_rq (se_at a i) \<noteq> 0" "curr (cfs_at a c) = Some i" "\<not> cfs_bandwidth_used a"
      using shape_entity [OF a'(4), of i] shape_runq [OF a'(4), of c] shape_key [OF a'(4)] False cur off by simp_all
    then obtain t f where t: "raw_enqueue_entity K c i a = Some t" and f: "update_load_avg K i False False t = Some f" "s' = u f"
      using b by (auto simp: check_cfs_rq_runtime_def split: bind_splits)
    have sh: "shape s' = shape (u t)" "vtimes s' = vtimes (u t)"
      using update_load_shape [OF f(1)] shape_curr [of f t] by (simp_all add: f(2) u_def)
    have at: "se_at t = se_at a" using t by (auto simp: raw_enqueue_entity_def Let_def split: if_splits) (simp add: upd_cfs_def)
    have "near m (vruntime (se_at (u a) i))"
      using near [OF False] vtimes_at [OF sh(2), of i] by (simp add: u_def upd_curr at)
    moreover have "runq_with m c [i] (u a)" using curr_ends [OF a'(1) ia(2)] ia(1) by (simp add: u_def)
    ultimately have ut: "runq_with m c [] (u t)"
      using tree_in(1) [OF K, of m c i "u a" "u t"] ia(1) tree_curr [OF t] by (simp add: u_def upd_curr)
    have "touches c s s'"
      using a'(3) touches_tree(1) [OF t] touches_curr still_touches [OF sh] unfolding u_def by (blast intro: touches_trans)
    moreover have "steady i s t" using steady_shape [OF a'(4)] steady_tree(1) [OF t] by (rule steady_trans)
    moreover have "on_rq (se_at t i) = on_rq (se_at s i)" using at shape_entity(2) [OF a'(4)] by simp
    ultimately show ?thesis using runq_still(1) [OF sh ut] sh(1) by blast
  qed
  then obtain t where r: "runq_with m c [] s'" "touches c s s'" "shape s' = shape (u t)" "steady i s t" "on_rq (se_at t i) = on_rq (se_at s i)"
    by blast
  show "runq_with m c [] s'" "touches c s s'" by (rule r)+
  show "on_rq (se_at s' j) = on_rq (se_at s j)" for j
    using r(4,5) shape_entity(2) [OF r(3), of j] by (cases "j = i") (simp_all add: u_def upd_curr steady_def)
  show "curr (cfs_at s' d) = (if d = c then None else curr (cfs_at s d))" for d
    using r(4) shape_runq(3) [OF r(3), of d] by (simp add: u_def upd_cfs_def steady_def)
qed

section \<open>New weights\<close>

lemma weight_moves:
  assumes "i \<in> set xs" "distinct xs"
  shows "(\<Sum>x \<leftarrow> xs. (if x = i then w else f x)) = (\<Sum>x \<leftarrow> xs. f x) - f i + (w :: 'a::ab_group_add)"
proof -
  have "(\<Sum>x \<leftarrow> remove1 i xs. (if x = i then w else f x)) = (\<Sum>x \<leftarrow> remove1 i xs. f x)"
    using assms by (intro arg_cong [of _ _ sum_list] map_cong) auto
  then show ?thesis
    using sum_split [OF assms, of f] sum_split [OF assms, of "\<lambda>x. if x = i then w else f x"] by simp
qed

lemma reweight_member:
  fixes w :: ulong
  assumes ok: "runq_with m c [] s" and i: "on_rq (se_at s i) \<noteq> 0" "se_cfs_rq (se_at s i) = c"
  defines "t \<equiv> account_entity_enqueue c i (upd_se i (\<lambda>e. e\<lparr>se_load := update_load_set w (se_load e)\<rparr>) (account_entity_dequeue c i s))"
  shows "runq_with m c [] t" "touches c s t" "steady i s t" "on_rq (se_at t i) = on_rq (se_at s i)" "se_cfs_rq (se_at t i) = c"
proof -
  let ?f = "\<lambda>e. e\<lparr>se_load := update_load_set w (se_load e)\<rparr>" and ?d = "account_entity_dequeue c i s"
  have e: "se_at t = (se_at s)(i := ?f (se_at s i))" by (simp add: t_def account_effects upd_se_def)
  have q: "tasks_timeline (cfs_at t c) = tasks_timeline (cfs_at s c)" "rb_leftmost (cfs_at t c) = rb_leftmost (cfs_at s c)"
    "curr (cfs_at t c) = curr (cfs_at s c)" "nr_running (cfs_at t c) = nr_running (cfs_at s c)"
    "weight (cfs_load (cfs_at t c)) = weight (cfs_load (cfs_at s c)) - weight (se_load (se_at s i)) + w"
    by (simp_all add: t_def account_effects upd_se_def update_load_add_def update_load_sub_def update_load_set_def)
  have f: "\<And>j. on_rq (se_at t j) = on_rq (se_at s j)" "\<And>j. se_cfs_rq (se_at t j) = se_cfs_rq (se_at s j)"
    "\<And>j. vruntime (se_at t j) = vruntime (se_at s j)" "\<And>j. weight (se_load (se_at t j)) = (if j = i then w else weight (se_load (se_at s j)))"
    by (simp_all add: e update_load_set_def)
  have n: "queued c t = queued c s" "running_entity c t = running_entity c s"
    using running_cong [of t c s] by (simp_all add: queued_def q f)
  then have r: "runnable c t = runnable c s" by (simp add: runnable_def)
  have d: "distinct (runnable c s)" "i \<in> set (runnable c s)" using ok i by (auto simp: runq_with_def)
  have "timeline_ok m (se_at t) (tasks_timeline (cfs_at s c)) x = timeline_ok m (se_at s) (tasks_timeline (cfs_at s c)) x" for x
    by (intro timeline_cong) (simp add: f)
  then show "runq_with m c [] t"
    using ok weight_moves [OF d(2,1), of w "\<lambda>j. weight (se_load (se_at s j))"]
    unfolding runq_with_def append_Nil2 f q n r by (elim conjE) (intro conjI; simp)
  show "touches c s t"
    unfolding t_def by (rule touches_trans [OF touches_trans [OF touches_account(2) touches_se] touches_account(1)])
      (simp_all add: account_effects i)
  show "steady i s t"
    unfolding t_def by (rule steady_trans [OF steady_trans [OF steady_account(2) steady_se] steady_account(1)])
  show "on_rq (se_at t i) = on_rq (se_at s i)" "se_cfs_rq (se_at t i) = c" using f i by simp_all
qed

lemma shares_keeps:
  assumes ok: "runq_with m c [] s" and i: "se_cfs_rq (se_at s i) = c" and u: "update_cfs_shares K i s = Some s'"
  shows "runq_with m c [] s'" "touches c s s'" "steady i s s'" "on_rq (se_at s' i) = on_rq (se_at s i)"
proof -
  have "runq_with m c [] s' \<and> touches c s s' \<and> steady i s s' \<and> on_rq (se_at s' i) = on_rq (se_at s i)"
  proof (cases "on_rq (se_at s i) = 0")
    case True
    then show ?thesis using shares_off_keeps [OF ok True i u] by simp
  next
    case False
    show ?thesis
    proof (cases "s' = s")
      case changed: False
      then obtain w where w: "reweight_entity K c i w s = Some s'"
        using u i by (auto simp: update_cfs_shares_def split: option.splits if_splits bind_splits)
      obtain a where a: "(if curr (cfs_at s c) = Some i then update_curr K c s else Some s) = Some a"
        and s': "s' = account_entity_enqueue c i (upd_se i (\<lambda>e. e\<lparr>se_load := update_load_set w (se_load e)\<rparr>) (account_entity_dequeue c i a))
          \<or> on_rq (se_at a i) = 0"
        using w False by (auto simp: reweight_entity_def Let_def account_effects upd_se_def [of i] bind_eq_Some_conv split: if_splits)
      have a': "runq_with m c [] a" "touches c s a" "shape a = shape s"
        using a ok update_curr_keeps [OF ok, of K a] by (auto split: if_splits)
      have ia: "on_rq (se_at a i) = on_rq (se_at s i)" "se_cfs_rq (se_at a i) = c"
        using shape_entity [OF a'(3), of i] i by simp_all
      note r = reweight_member [OF a'(1) _ ia(2), of w]
      show ?thesis
        using r s' ia False touches_trans [OF a'(2)] steady_trans [OF steady_shape [OF a'(3)]] by auto
    qed (use ok in simp)
  qed
  then show "runq_with m c [] s'" "touches c s s'" "steady i s s'" "on_rq (se_at s' i) = on_rq (se_at s i)" by blast+
qed

lemma tick_keeps:
  assumes ok: "runq_with m c [] s" and i: "se_cfs_rq (se_at s i) = c" and d: "entity_tick n K c i s = Some s'"
  shows "runq_with m c [] s'" "touches c s s'" "steady i s s'" "on_rq (se_at s' i) = on_rq (se_at s i)"
proof -
  obtain a b e where a: "update_curr K c s = Some a" and b: "update_load_avg K i True False a = Some b"
    and e: "update_cfs_shares K i b = Some e" and s': "shape s' = shape e" "vtimes s' = vtimes e"
    using d by (auto simp: entity_tick_def dest: preempt_tick_shape split: bind_splits if_splits)
  note a' = update_curr_keeps [OF ok a]
  have bs: "shape b = shape a" "vtimes b = vtimes a" using update_load_shape [OF b] by simp_all
  have ib: "on_rq (se_at b i) = on_rq (se_at s i)" "se_cfs_rq (se_at b i) = c"
    using shape_entity [OF bs(1), of i] shape_entity [OF a'(4), of i] i by simp_all
  note e' = shares_keeps [OF runq_still(1) [OF bs a'(1)] ib(2) e]
  show "runq_with m c [] s'" using runq_still(1) [OF s' e'(1)] .
  show "touches c s s'" using a'(3) still_touches [OF bs] e'(2) still_touches [OF s'] by (meson touches_trans)
  show "steady i s s'"
    using steady_shape [OF a'(4)] steady_shape [OF bs(1)] e'(3) steady_shape [OF s'(1)] by (meson steady_trans)
  show "on_rq (se_at s' i) = on_rq (se_at s i)" using e'(4) ib shape_entity [OF s'(1), of i] by simp
qed

end
