(* ===== verification/Runqueue_Spec.thy ===== *)
theory Runqueue_Spec
  imports Runqueue_Steps
begin

text \<open>
  The runqueues as a transition system over the operations of the code, and what they implement: for each
  runqueue a set of members and the entity that runs. The tree, the cached first entity, the flags
  \<open>on_rq\<close>, \<open>load.weight\<close> and \<open>nr_running\<close> are its representation.
\<close>

section \<open>The operations as steps\<close>

datatype rq_op =
    Enqueue se_id flags
  | Dequeue se_id flags
  | Set_next se_id
  | Put_prev se_id
  | Tick se_id
  | Shares se_id
  | Charge cfs_id
  | Track se_id bool bool
  | Pick cfs_id

text \<open>
  The guards are those of the callers: \<open>enqueue_task_fair\<close> stops at the first entity that is on its
  runqueue, \<open>dequeue_task_fair\<close> takes entities that are, and one is set only after the previous one was put
  back. An entity that is linked lies in the window \<open>m\<close> around its runqueue's virtual time.
\<close>

inductive rq_step :: "nat \<Rightarrow> kapi \<Rightarrow> (cfs_id \<Rightarrow> u64) \<Rightarrow> kstate \<Rightarrow> rq_op \<Rightarrow> kstate \<Rightarrow> bool" for n K m where
  enqueue: "on_rq (se_at s i) = 0 \<Longrightarrow> enqueue_entity n K (se_cfs_rq (se_at s i)) i fl s = Some s' \<Longrightarrow>
    near (m (se_cfs_rq (se_at s i))) (vruntime (se_at s' i)) \<Longrightarrow> rq_step n K m s (Enqueue i fl) s'"
| dequeue: "on_rq (se_at s i) \<noteq> 0 \<Longrightarrow> dequeue_entity n K (se_cfs_rq (se_at s i)) i fl s = Some s' \<Longrightarrow>
    rq_step n K m s (Dequeue i fl) s'"
| set_next: "curr (cfs_at s (se_cfs_rq (se_at s i))) = None \<Longrightarrow> set_next_entity K (se_cfs_rq (se_at s i)) i s = Some s' \<Longrightarrow>
    rq_step n K m s (Set_next i) s'"
| put_prev: "curr (cfs_at s (se_cfs_rq (se_at s i))) = Some i \<Longrightarrow> put_prev_entity n K (se_cfs_rq (se_at s i)) i s = Some s' \<Longrightarrow>
    (on_rq (se_at s i) \<noteq> 0 \<Longrightarrow> near (m (se_cfs_rq (se_at s i))) (vruntime (se_at s' i))) \<Longrightarrow> rq_step n K m s (Put_prev i) s'"
| tick: "entity_tick n K (se_cfs_rq (se_at s i)) i s = Some s' \<Longrightarrow> rq_step n K m s (Tick i) s'"
| shares: "update_cfs_shares K i s = Some s' \<Longrightarrow> rq_step n K m s (Shares i) s'"
| charge: "update_curr K c s = Some s' \<Longrightarrow> rq_step n K m s (Charge c) s'"
| track: "update_load_avg K i b b' s = Some s' \<Longrightarrow> rq_step n K m s (Track i b b') s'"
| pick: "pick_next_entity n K c cur s = Some (se, s') \<Longrightarrow> rq_step n K m s (Pick c) s'"

text \<open>Boot: nothing is queued, nothing runs.\<close>

definition idle_queues :: "kstate \<Rightarrow> bool" where
  "idle_queues s \<longleftrightarrow> (\<forall>i. on_rq (se_at s i) = 0) \<and> \<not> cfs_bandwidth_used s \<and>
     (\<forall>c. tasks_timeline (cfs_at s c) = Leaf \<and> rb_leftmost (cfs_at s c) = None \<and> curr (cfs_at s c) = None
        \<and> weight (cfs_load (cfs_at s c)) = 0 \<and> nr_running (cfs_at s c) = 0)"

inductive rq_reachable :: "nat \<Rightarrow> kapi \<Rightarrow> (cfs_id \<Rightarrow> u64) \<Rightarrow> kstate \<Rightarrow> bool" for n K m where
  boot: "idle_queues s \<Longrightarrow> rq_reachable n K m s"
| step: "rq_reachable n K m s \<Longrightarrow> rq_step n K m s x s' \<Longrightarrow> rq_reachable n K m s'"

section \<open>The abstract runqueues\<close>

text \<open>For each runqueue its members and the entity that runs, which may have left while running.\<close>

type_synonym rq_spec = "cfs_id \<Rightarrow> se_id set \<times> se_id option"

definition abs_queues :: "kstate \<Rightarrow> rq_spec" where
  "abs_queues s = (\<lambda>c. ({i. se_cfs_rq (se_at s i) = c \<and> on_rq (se_at s i) \<noteq> 0}, curr (cfs_at s c)))"

fun spec_step :: "(se_id \<Rightarrow> cfs_id) \<Rightarrow> rq_spec \<Rightarrow> rq_op \<Rightarrow> rq_spec option" where
  "spec_step home a (Enqueue i fl) = (if i \<in> fst (a (home i)) then None else Some (a(home i := apfst (insert i) (a (home i)))))"
| "spec_step home a (Dequeue i fl) = (if i \<notin> fst (a (home i)) then None else Some (a(home i := apfst (\<lambda>M. M - {i}) (a (home i)))))"
| "spec_step home a (Set_next i) = (if snd (a (home i)) \<noteq> None then None else Some (a(home i := apsnd (\<lambda>_. Some i) (a (home i)))))"
| "spec_step home a (Put_prev i) = (if snd (a (home i)) \<noteq> Some i then None else Some (a(home i := apsnd (\<lambda>_. None) (a (home i)))))"
| "spec_step home a x = Some a"

lemma abs_steady:
  assumes "steady i s s'" "touches c s s'" "on_rq (se_at s' i) \<noteq> 0 \<longleftrightarrow> on_rq (se_at s i) \<noteq> 0"
  shows "abs_queues s' = abs_queues s"
proof -
  have "on_rq (se_at s' j) \<noteq> 0 \<longleftrightarrow> on_rq (se_at s j) \<noteq> 0" for j
    using assms(1,3) by (cases "j = i") (simp_all add: steady_def)
  then show ?thesis using assms(1,2) by (simp add: abs_queues_def steady_def touches_def)
qed

lemma abs_shape: "shape s' = shape s \<Longrightarrow> abs_queues s' = abs_queues s"
  using shape_entity [of s' s] shape_runq [of s' s] by (simp add: abs_queues_def)

lemma abs_insert:
  assumes "steady i s s'" "touches c s s'" "se_cfs_rq (se_at s i) = c" "on_rq (se_at s' i) \<noteq> 0"
  shows "abs_queues s' = (abs_queues s)(c := apfst (insert i) (abs_queues s c))"
proof -
  have "on_rq (se_at s' j) \<noteq> 0 \<longleftrightarrow> j = i \<or> on_rq (se_at s j) \<noteq> 0" for j
    using assms(1,4) by (cases "j = i") (simp_all add: steady_def)
  then show ?thesis using assms(1-3) by (auto simp: abs_queues_def steady_def touches_def fun_eq_iff)
qed

lemma abs_remove:
  assumes "steady i s s'" "touches c s s'" "se_cfs_rq (se_at s i) = c" "on_rq (se_at s' i) = 0"
  shows "abs_queues s' = (abs_queues s)(c := apfst (\<lambda>M. M - {i}) (abs_queues s c))"
proof -
  have "on_rq (se_at s' j) \<noteq> 0 \<longleftrightarrow> j \<noteq> i \<and> on_rq (se_at s j) \<noteq> 0" for j
    using assms(1,4) by (cases "j = i") (simp_all add: steady_def)
  then show ?thesis using assms(1-3) by (auto simp: abs_queues_def steady_def touches_def fun_eq_iff)
qed

lemma abs_curr:
  assumes "\<And>j. on_rq (se_at s' j) = on_rq (se_at s j)" "touches c s s'" "\<And>d. curr (cfs_at s' d) = (if d = c then x else curr (cfs_at s d))"
  shows "abs_queues s' = (abs_queues s)(c := apsnd (\<lambda>_. x) (abs_queues s c))"
  using assms by (auto simp: abs_queues_def touches_def fun_eq_iff)

section \<open>Every step keeps the invariant and refines the abstract step\<close>

lemma rq_step_ok:
  assumes K: "rb_ok K" and ok: "queues_ok m s" and x: "rq_step n K m s x s'"
  shows "queues_ok m s' \<and> spec_step (\<lambda>i. se_cfs_rq (se_at s i)) (abs_queues s) x = Some (abs_queues s')"
proof -
  have q: "runq_with (m c) c [] s" for c using ok by (rule queues_runq)
  have off: "\<not> cfs_bandwidth_used s" using ok by (simp add: queues_ok_def)
  from x show ?thesis
  proof cases
    case (enqueue i fl)
    note e = enqueue_keeps [OF K q enqueue(2) refl off enqueue(3,4)]
    show ?thesis
      using queues_touched [OF ok e(2,1)] abs_insert [OF e(5,2) refl e(3)] enqueue(1,2) by (simp add: abs_queues_def)
  next
    case (dequeue i fl)
    note e = dequeue_keeps [OF K q dequeue(2) refl dequeue(3)]
    show ?thesis
      using queues_touched [OF ok e(3,1)] abs_remove [OF e(5,3) refl e(4)] dequeue(1,2) by (simp add: abs_queues_def)
  next
    case (set_next i)
    note e = set_next_keeps [OF K q set_next(2) refl set_next(3)]
    show ?thesis
      using queues_touched [OF ok e(2,1)] abs_curr [OF e(3,2,4)] set_next(1,2) by (simp add: abs_queues_def)
  next
    case (put_prev i)
    note e = put_prev_keeps [OF K q put_prev(2) off put_prev(3,4)]
    show ?thesis
      using queues_touched [OF ok e(2,1)] abs_curr [OF e(3,2,4)] put_prev(1,2) by (simp add: abs_queues_def)
  next
    case (tick i)
    note e = tick_keeps [OF q refl tick(2)]
    show ?thesis using queues_touched [OF ok e(2,1)] abs_steady [OF e(3,2)] e(4) tick(1) by simp
  next
    case (shares i)
    note e = shares_keeps [OF q refl shares(2)]
    show ?thesis using queues_touched [OF ok e(2,1)] abs_steady [OF e(3,2)] e(4) shares(1) by simp
  next
    case (charge c)
    note e = update_curr_keeps [OF q charge(2)]
    show ?thesis using queues_touched [OF ok e(3,1)] abs_shape [OF e(4)] charge(1) by simp
  next
    case (track i b b')
    note t = update_load_shape [OF track(2)]
    show ?thesis
      using queues_touched [OF ok still_touches runq_still(1) [OF _ _ q], of s'] t abs_shape [of s' s] track(1) by simp
  next
    case (pick c cur se)
    note t = pick_next_shape [OF pick(2)]
    show ?thesis
      using queues_touched [OF ok still_touches runq_still(1) [OF _ _ q], of s'] t abs_shape [of s' s] pick(1) by simp
  qed
qed

lemma idle_ok: "idle_queues s \<Longrightarrow> queues_ok m s"
  by (auto simp: idle_queues_def queues_ok_def runq_ok_def runq_with_def timeline_ok_def runnable_def queued_def running_entity_def)

lemma rq_reachable_ok: "rq_reachable n K m s \<Longrightarrow> rb_ok K \<Longrightarrow> queues_ok m s"
  by (induction rule: rq_reachable.induct) (auto intro: idle_ok dest: rq_step_ok)

text \<open>What the representation says about its abstraction.\<close>

lemma queues_represent:
  assumes "queues_ok m s"
  shows "set (queued c s) = fst (abs_queues s c) - set_option (snd (abs_queues s c))"
    "nr_running (cfs_at s c) = of_nat (card (fst (abs_queues s c)))"
    "weight (cfs_load (cfs_at s c)) = (\<Sum>i \<in> fst (abs_queues s c). weight (se_load (se_at s i)))"
    "finite (fst (abs_queues s c))"
proof -
  have ok: "runq_with (m c) c [] s" using assms by (rule queues_runq)
  have M: "fst (abs_queues s c) = set (runnable c s)"
    using runnable_set [OF ok] ok by (auto simp: abs_queues_def runq_with_def)
  have d: "distinct (runnable c s)" using ok by (simp add: runq_with_def)
  show "finite (fst (abs_queues s c))" by (simp add: M)
  show "nr_running (cfs_at s c) = of_nat (card (fst (abs_queues s c)))"
    using ok by (simp add: M distinct_card [OF d]) (simp add: runq_with_def)
  show "weight (cfs_load (cfs_at s c)) = (\<Sum>i \<in> fst (abs_queues s c). weight (se_load (se_at s i)))"
    using ok by (simp add: M sum.distinct_set_conv_list [OF d] del: set_append) (simp add: runq_with_def)
  show "set (queued c s) = fst (abs_queues s c) - set_option (snd (abs_queues s c))"
    using ok unfolding M by (auto simp: abs_queues_def runq_with_def runnable_def running_entity_def split: option.splits if_splits)
qed

section \<open>A first task\<close>

text \<open>Enqueueing on an idle machine at time 0 goes through.\<close>

lemma track_fresh:
  assumes "cfs_at s 0 = zero_cfs" "\<not> pkshin_pemt_enabled s" "se_cfs_rq (se_at s i) = 0" "my_q (se_at s i) = None"
    "last_update_time (se_avg (se_at s i)) = 0" "clock_task (rq_at s 0) = 0"
  shows "update_load_avg K i tg False s = Some (upd_cfs 0 (\<lambda>q. q\<lparr>cfs_avg := zero_avg\<lparr>sa_weight := 1024\<rparr>\<rparr>) s)"
proof -
  have z: "pemt_signals s = []" "fold update_removed_util util_signals (False, zero_cfs) = (False, zero_cfs)"
    using assms(2) by (simp_all add: update_removed_util_def zero_cfs_def util_signals_def pemt_signals_def)
  have w: "update_scaling s zero_cfs = zero_cfs\<lparr>cfs_avg := zero_avg\<lparr>sa_weight := 1024\<rparr>\<rparr>"
    by (simp add: update_scaling_def subtract_removed_def zero_cfs_def zero_avg_def scaling_signals_def)
  have u: "upd_cfs 0 (\<lambda>_. zero_cfs\<lparr>cfs_avg := a\<rparr>) s = upd_cfs 0 (\<lambda>q. q\<lparr>cfs_avg := a\<rparr>) s" for a
    using assms(1) by (simp add: upd_cfs_def)
  have f: "rq_cpu zero_cfs = 0" "removed_load_avg zero_cfs = 0" "throttle_count zero_cfs = 0" "throttled_clock_task_time zero_cfs = 0"
     by (simp_all add: zero_cfs_def)
  have "cfs_rq_clock_task 0 s = 0"
    using assms(1,6) f by (simp add: cfs_rq_clock_task_def)
  then have "update_cfs_rq_load_avg K 0 0 True s = Some (False, upd_cfs 0 (\<lambda>q. q\<lparr>cfs_avg := zero_avg\<lparr>sa_weight := 1024\<rparr>\<rparr>) s)"
    using f assms(1) by (simp add: update_cfs_rq_load_avg_def update_removed_load_avg_def Let_def z w u raw_update_load_avg_def) (simp add: upd_cfs_def zero_avg_def)
  then show ?thesis
    using assms \<open>cfs_rq_clock_task 0 s = 0\<close> by (simp add: update_load_avg_def Let_def propagate_entity_load_avg_def f) (simp add: upd_cfs_def)
qed

definition ready :: kstate where
  "ready = zero_state\<lparr>se_at := (\<lambda>i. zero_se\<lparr>se_load := \<lparr>weight = 1024, inv_weight = 0\<rparr>, vruntime := 30\<rparr>),
     cfs_at := (\<lambda>_. zero_cfs)\<rparr>"

lemma tg_avg [simp]: "tg_at (upd_avg r f s) = tg_at s"
  by (cases r) (simp_all add: upd_avg.simps upd_se_def upd_cfs_def)

lemma tg_parent_tracked: "tg_parent (tg_at (enqueue_entity_load_avg c i s) g) = tg_parent (tg_at s g)"
proof -
  have "tg_parent (tg_at (update_tg_load_avg c b s) g) = tg_parent (tg_at s g)" for b s
    by (simp add: update_tg_load_avg_def Let_def upd_cfs_def upd_tg_def)
  moreover have "tg_at (attach_entity_load_avg c i s) = tg_at s" for s
    by (simp add: attach_entity_load_avg_def Let_def set_tg_cfs_propagate_def cfs_rq_util_change_def cpufreq_update_util_def upd_cfs_def)
  ultimately show ?thesis by (simp add: enqueue_entity_load_avg_def Let_def upd_cfs_def)
qed

lemma leaf_defined: "parent_cfs s c = None \<Longrightarrow> \<exists>s'. list_add_leaf_cfs_rq c s = Some s'"
  by (simp add: list_add_leaf_cfs_rq_def Let_def)

lemma ready_idle: "idle_queues ready"
  by (simp add: idle_queues_def cfs_bandwidth_used_def ready_def zero_defs)

lemma ready_enqueue: "\<exists>s. rq_step 2 plain_api (\<lambda>_. 0) ready (Enqueue 7 0) s"
proof -
  let ?e = "upd_se 7 (\<lambda>e. e\<lparr>vruntime := vruntime e + min_vruntime (cfs_at ready 0)\<rparr>) ready"
  let ?f = "upd_cfs 0 (\<lambda>q. q\<lparr>cfs_avg := zero_avg\<lparr>sa_weight := 1024\<rparr>\<rparr>) ?e"
  let ?h = "enqueue_entity_load_avg 0 7 ?f"
  let ?a = "account_entity_enqueue 0 7 ?h"
  have r: "cfs_at ?e 0 = zero_cfs" "\<not> pkshin_pemt_enabled ?e" "se_cfs_rq (se_at ?e 7) = 0" "my_q (se_at ?e 7) = None"
    "last_update_time (se_avg (se_at ?e 7)) = 0" "clock_task (rq_at ?e 0) = 0"
    by (simp_all add: ready_def zero_state_def zero_se_def zero_avg_def zero_rq_def upd_se_def)
  have c: "update_curr K 0 ready = Some ready" "curr (cfs_at ready 0) = None" for K
    by (simp_all add: update_curr_def ready_def zero_cfs_def)
  have h: "shape ?h = shape ?f" "vtimes ?h = vtimes ?f" by simp_all
  have fields: "my_q (se_at ?h 7) = None" "tasks_timeline (cfs_at ?h 0) = Leaf"
    using shape_entity(4) [OF h(1), of 7] shape_runq(1) [OF h(1), of 0] r(1,4) by (simp_all add: upd_cfs_def zero_cfs_def)
  have v: "vruntime (se_at ?h 7) = 30"
    using vtimes_at [OF h(2), of 7] by (simp add: upd_cfs_def upd_se_def ready_def zero_cfs_def)
  have tree: "tasks_timeline (cfs_at ?a 0) = Leaf" using fields by (simp add: account_effects)
  let ?t = "upd_cfs 0 (\<lambda>q. q\<lparr>rb_leftmost := Some 7, tasks_timeline := Node Leaf 7 Leaf\<rparr>) ?a"
  have raw: "raw_enqueue_entity plain_api 0 7 ?a = Some ?t"
    by (simp add: raw_enqueue_entity_def tree) (simp add: plain_api_def)
  let ?u = "upd_se 7 (\<lambda>e. e\<lparr>on_rq := 1\<rparr>) ?t"
  have ut: "tg_at ?u = tg_at ?h"
    by (simp add: account_entity_enqueue_def upd_cfs_def upd_se_def upd_rq_def Let_def)
  have "cfs_tg (cfs_at ?u 0) = cfs_tg (cfs_at ?h 0)" by (simp add: upd_cfs_def upd_se_def account_effects)
  also have "\<dots> = 0" using shape_runq(7) [OF h(1), of 0] by (simp add: upd_cfs_def upd_se_def ready_def zero_cfs_def)
  finally have "parent_cfs ?u 0 = None"
    by (simp add: parent_cfs_def ut tg_parent_tracked) (simp add: ready_def zero_defs upd_cfs_def upd_se_def)
  then obtain l where l: "list_add_leaf_cfs_rq 0 ?u = Some l" using leaf_defined by blast
  have nr: "nr_running (cfs_at ?u 0) = 1"
    using shape_runq(5) [OF h(1), of 0] by (simp add: upd_cfs_def upd_se_def account_effects ready_def zero_cfs_def)
  have key: "\<not> cfs_bandwidth_used l"
    using leaf_shape [OF l] shape_key [OF h(1)] shape_key [of l ?u]
    by (simp add: cfs_bandwidth_used_def account_effects upd_cfs_def upd_se_def ready_def zero_defs)
  have "enqueue_entity 2 plain_api 0 7 0 ready = Some l"
    unfolding enqueue_entity_def Let_def c using l nr key
    by (simp add: c track_fresh [OF r] update_cfs_shares_def fields raw check_enqueue_throttle_def)
  moreover have "vruntime (se_at l 7) = 30"
    using vtimes_at [OF conjunct2 [OF leaf_shape [OF l]], of 7] v by (simp add: upd_cfs_def upd_se_def account_effects)
  ultimately show ?thesis
    using rq_step.enqueue [of ready 7 2 plain_api 0 l "\<lambda>_. 0"] by (auto simp: near_def vkey_def ready_def zero_defs)
qed

section \<open>Properties\<close>

text \<open>C4: The runqueues are consistent in every state that enqueueing, dequeueing, setting and putting back the
  running entity, ticks, new shares, charging, load tracking and picking reach from boot. On each runqueue the tree
  holds exactly the entities that are \<open>on_rq\<close> and do not run, sorted by virtual time, with the first one cached;
  \<open>nr_running\<close> is the number of the entities that are \<open>on_rq\<close>, the running one included, and
  \<open>load.weight\<close> their total weight.\<close>

theorem runqueues_consistent:
  assumes "rb_ok K" "rq_reachable n K m s"
  defines "M \<equiv> \<lambda>c. {i. se_cfs_rq (se_at s i) = c \<and> on_rq (se_at s i) \<noteq> 0}"
  shows "finite (M c) \<and> distinct (queued c s) \<and> set (queued c s) = M c - set_option (curr (cfs_at s c))
    \<and> sorted (map (\<lambda>i. vkey (m c) (vruntime (se_at s i))) (queued c s))
    \<and> pick_first_entity (cfs_at s c) = (case queued c s of [] \<Rightarrow> None | i # _ \<Rightarrow> Some i)
    \<and> nr_running (cfs_at s c) = of_nat (card (M c))
    \<and> weight (cfs_load (cfs_at s c)) = (\<Sum>i \<in> M c. weight (se_load (se_at s i)))"
proof -
  have ok: "queues_ok m s" using assms by (intro rq_reachable_ok)
  have "timeline_ok (m c) (se_at s) (tasks_timeline (cfs_at s c)) (rb_leftmost (cfs_at s c))"
    using queues_runq [OF ok, of c] by (simp add: runq_with_def)
  then show ?thesis
    using queues_represent [OF ok, of c]
    by (simp add: M_def abs_queues_def timeline_ok_def queued_def pick_first_entity_def)
qed

lemma ready_reached:
  obtains s where "rq_step 2 plain_api (\<lambda>_. 0) ready (Enqueue 7 0) s" "rq_reachable 2 plain_api (\<lambda>_. 0) s"
    "abs_queues s 0 = ({7}, None)"
proof -
  obtain s where s: "rq_step 2 plain_api (\<lambda>_. 0) ready (Enqueue 7 0) s" using ready_enqueue by blast
  have "abs_queues s = (abs_queues ready)(0 := apfst (insert 7) (abs_queues ready 0))"
    using rq_step_ok [OF rb_ok_plain idle_ok [OF ready_idle] s] by (simp add: ready_def zero_defs split: if_splits)
  then have "abs_queues s 0 = ({7}, None)" by (simp add: abs_queues_def ready_def zero_defs)
  then show thesis using that [OF s] rq_reachable.step [OF rq_reachable.boot [OF ready_idle] s] by blast
qed

theorem runqueues_consistent_witness:
  "\<exists>s. rq_reachable 2 plain_api (\<lambda>_. 0) s \<and> set (queued 0 s) = {7} \<and> nr_running (cfs_at s 0) = 1"
proof -
  obtain s where s: "rq_reachable 2 plain_api (\<lambda>_. 0) s" "abs_queues s 0 = ({7}, None)" by (rule ready_reached)
  have M: "{i. se_cfs_rq (se_at s i) = 0 \<and> on_rq (se_at s i) \<noteq> 0} = {7}" "curr (cfs_at s 0) = None"
    using s(2) by (simp_all add: abs_queues_def)
  show ?thesis using runqueues_consistent [OF rb_ok_plain s(1), of 0] s(1) unfolding M by auto
qed

text \<open>C5: The operations implement a runqueue that is a set of members and the entity that runs. With that
  abstraction, \<open>enqueue_entity\<close> adds one member to the entity's own runqueue, \<open>dequeue_entity\<close> removes one,
  \<open>set_next_entity\<close> and \<open>put_prev_entity\<close> change who runs and nobody's membership, and all others are invisible;
  no operation reaches into another runqueue.\<close>

theorem runqueues_refine_sets:
  assumes "rb_ok K" "rq_reachable n K m s" "rq_step n K m s x s'"
  shows "spec_step (\<lambda>i. se_cfs_rq (se_at s i)) (abs_queues s) x = Some (abs_queues s')"
  using rq_step_ok [OF assms(1) rq_reachable_ok [OF assms(2,1)] assms(3)] by blast

theorem runqueues_refine_sets_witness:
  "\<exists>s. rq_step 2 plain_api (\<lambda>_. 0) ready (Enqueue 7 0) s
     \<and> spec_step (\<lambda>i. se_cfs_rq (se_at ready i)) (abs_queues ready) (Enqueue 7 0) = Some (abs_queues s)"
proof -
  obtain s where s: "rq_step 2 plain_api (\<lambda>_. 0) ready (Enqueue 7 0) s" by (rule ready_reached)
  then show ?thesis
    using runqueues_refine_sets [OF rb_ok_plain rq_reachable.boot [OF ready_idle] s] by blast
qed

end
