(* ===== verification/Picking.thy ===== *)
theory Picking
  imports Runqueue Leaf_List
begin

text \<open>
  Choosing the next entity is fair: \<open>pick_next_entity\<close> of \<open>kernel/sched/fair.c\<close> may prefer a buddy, or pass over
  the entity that yielded, but only within the wakeup granularity of the entity that is furthest behind.
\<close>

section \<open>The earliest competitor\<close>

definition contenders :: "cfs_id \<Rightarrow> se_id option \<Rightarrow> kstate \<Rightarrow> se_id set" where
  "contenders c cur s = set (queued c s) \<union> set_option cur"

lemma earliest:
  assumes ok: "timeline_ok m (se_at s) (tasks_timeline (cfs_at s c)) (rb_leftmost (cfs_at s c))"
    and near: "\<forall>j. cur = Some j \<longrightarrow> near m (vruntime (se_at s j))"
  shows "earlier s cur (pick_first_entity (cfs_at s c)) = None \<longleftrightarrow> contenders c cur s = {}"
    "earlier s cur (pick_first_entity (cfs_at s c)) = Some l \<Longrightarrow>
       l \<in> contenders c cur s \<and> near m (vruntime (se_at s l))
       \<and> (\<forall>j \<in> contenders c cur s. vkey m (vruntime (se_at s l)) \<le> vkey m (vruntime (se_at s j)))"
proof -
  let ?k = "\<lambda>i. vkey m (vruntime (se_at s i))"
  have srt: "sorted (map ?k (queued c s))" and n: "\<forall>i \<in> set (queued c s). near m (vruntime (se_at s i))"
    and f: "pick_first_entity (cfs_at s c) = (case queued c s of [] \<Rightarrow> None | x # _ \<Rightarrow> Some x)"
    using ok by (simp_all add: timeline_ok_def queued_def pick_first_entity_def)
  show "earlier s cur (pick_first_entity (cfs_at s c)) = None \<longleftrightarrow> contenders c cur s = {}"
    by (cases "queued c s"; cases cur) (simp_all add: f earlier_def contenders_def)
  assume l: "earlier s cur (pick_first_entity (cfs_at s c)) = Some l"
  show "l \<in> contenders c cur s \<and> near m (vruntime (se_at s l)) \<and> (\<forall>j \<in> contenders c cur s. ?k l \<le> ?k j)"
  proof (cases "queued c s")
    case Nil
    then show ?thesis using l near by (cases cur) (simp_all add: f earlier_def contenders_def)
  next
    case (Cons x xs)
    have x: "\<forall>j \<in> set (queued c s). ?k x \<le> ?k j" "near m (vruntime (se_at s x))" using srt n Cons by simp_all
    show ?thesis
    proof (cases cur)
      case None
      then show ?thesis using l x Cons by (simp add: f earlier_def contenders_def)
    next
      case (Some j)
      then have nj: "near m (vruntime (se_at s j))" using near by simp
      show ?thesis
        using l x Some nj Cons before_iff_key [OF nj x(2)] by (auto simp: f earlier_def contenders_def split: if_splits)
    qed
  qed
qed

section \<open>Candidates\<close>

text \<open>Weights for which the granularity is computed exactly: the scaled weight fits 32 bits, the cached inverse is right.\<close>

definition light :: "load_weight \<Rightarrow> bool" where
  "light lw \<longleftrightarrow> inv_ok lw \<and> 0 < unat (scale_load_down (weight lw)) \<and> unat (scale_load_down (weight lw)) < 4294967295"

lemma gran_bound:
  assumes K: "mul_shr_ok (mul_u64_u32_shr K)" and l: "light (se_load (se_at s l))"
  shows "\<exists>g s'. wakeup_gran K l s = Some (g, s') \<and> shape s' = shape s \<and> vtimes s' = vtimes s \<and> sysctls s' = sysctls s
    \<and> light (se_load (se_at s' l))
    \<and> sint g * int (unat (scale_load_down (weight (se_load (se_at s l))))) \<le> int (unat (sysctl_sched_wakeup_granularity (sysctls s))) * 1024"
proof -
  let ?W = "unat (scale_load_down (weight (se_load (se_at s l))))" and ?G = "sysctl_sched_wakeup_granularity (sysctls s)"
  have G: "unat (ucast ?G :: u64) = unat ?G" "unat ?G < 4294967296"
    by simp_all
  have N: "unat (scale_load_down NICE_0_LOAD) = 1024" by (simp add: scale_load_down_def unat_drop_bit_div NICE_0_LOAD_def push_bit_eq_mult)
  have W: "0 < ?W" "?W < 4294967295" "inv_ok (se_load (se_at s l))" using l by (simp_all add: light_def)
  obtain g lw where g: "calc_delta_fair (mul_u64_u32_shr K) (ucast ?G) (se_load (se_at s l)) = Some (g, lw)"
    "inv_ok lw" "weight lw = weight (se_load (se_at s l))" "unat g * ?W \<le> unat ?G * 1024"
  proof (cases "weight (se_load (se_at s l)) = NICE_0_LOAD")
    case True
    then show thesis using that [of "ucast ?G" "se_load (se_at s l)"] W(3) N G by (simp add: calc_delta_fair_def)
  next
    case False
    have "unat (ucast ?G :: u64) * unat (scale_load_down NICE_0_LOAD) < 18446744073709551616 * ?W"
      unfolding G(1) N using W(1) unat_lt_u32 [of ?G] by linarith
    from calc_delta_bound [OF K W(3,1,2) _ this] N obtain g lw where
      "calc_delta (mul_u64_u32_shr K) (ucast ?G) NICE_0_LOAD (se_load (se_at s l)) = Some (g, lw)" "inv_ok lw"
      "weight lw = weight (se_load (se_at s l))" "unat g * ?W \<le> unat ?G * 1024"
      unfolding G(1) N by auto
    then show thesis using that [of g lw] False by (simp add: calc_delta_fair_def)
  qed
  have "unat g \<le> unat g * ?W" using W(1) by simp
  then have "unat g < 9223372036854775808" using g(4) G(2) by linarith
  then have "int (unat g) < int 9223372036854775808" by (simp only: of_nat_less_iff)
  moreover have "- 9223372036854775808 \<le> uint g" by (rule order_trans [of _ 0]) simp_all
  ultimately have "sint g = int (unat g)" using sint_diff_small [of g 0] by simp
  then have "sint g * int ?W \<le> int (unat ?G) * 1024" using g(4) by (metis of_nat_mult of_nat_le_iff of_nat_numeral)
  moreover have w: "wakeup_gran K l s = Some (g, upd_se l (\<lambda>e. e\<lparr>se_load := lw\<rparr>) s)" using g(1) by (simp add: wakeup_gran_def)
  moreover have "light (se_load (se_at (upd_se l (\<lambda>e. e\<lparr>se_load := lw\<rparr>) s) l))"
    using W g(2,3) by (simp add: light_def upd_se_def)
  moreover have "sysctls (upd_se l (\<lambda>e. e\<lparr>se_load := lw\<rparr>) s) = sysctls s" by (simp add: upd_se_def)
  ultimately show ?thesis using wakeup_gran_shape [OF w] by blast
qed

text \<open>A candidate is taken if it is not later than the earliest by more than the granularity.\<close>

definition close_to :: "kstate \<Rightarrow> se_id \<Rightarrow> se_id \<Rightarrow> bool" where
  "close_to s l i \<longleftrightarrow> (let d = sint (vruntime (se_at s i) - vruntime (se_at s l)) in
     d \<le> 0 \<or> d * int (unat (scale_load_down (weight (se_load (se_at s l))))) \<le> int (unat (sysctl_sched_wakeup_granularity (sysctls s))) * 1024)"

text \<open>What the choice leaves alone.\<close>

definition same_times :: "se_id \<Rightarrow> kstate \<Rightarrow> kstate \<Rightarrow> bool" where
  "same_times l s s' \<longleftrightarrow> shape s' = shape s \<and> vtimes s' = vtimes s \<and> sysctls s' = sysctls s \<and> light (se_load (se_at s' l))"

lemma close_to_same: "same_times l s s' \<Longrightarrow> close_to s' l i = close_to s l i"
  using vtimes_at [of s' s] shape_entity(1) [of s' s l] by (simp add: close_to_def same_times_def)

lemma same_times_trans: "same_times l s t \<Longrightarrow> same_times l t u \<Longrightarrow> same_times l s u"
  by (simp add: same_times_def)

lemma wakeup_preempt_spec:
  assumes K: "mul_shr_ok (mul_u64_u32_shr K)" and l: "light (se_load (se_at s l))"
  shows "\<exists>p s'. wakeup_preempt_entity K x l s = Some (p, s') \<and> same_times l s s' \<and> (p < 1 \<longrightarrow> close_to s l x)
    \<and> (sint (vruntime (se_at s x) - vruntime (se_at s l)) \<le> 0 \<longrightarrow> p < 1)"
proof (cases "sint (vruntime (se_at s x) - vruntime (se_at s l)) \<le> 0")
  case True
  then show ?thesis using l by (simp add: wakeup_preempt_entity_def same_times_def close_to_def Let_def)
next
  case False
  let ?W = "int (unat (scale_load_down (weight (se_load (se_at s l)))))"
  obtain g s' where g: "wakeup_gran K l s = Some (g, s')" "same_times l s s'"
    "sint g * ?W \<le> int (unat (sysctl_sched_wakeup_granularity (sysctls s))) * 1024"
    using gran_bound [OF K l] by (auto simp: same_times_def)
  have "close_to s l x" if "\<not> sint (vruntime (se_at s x) - vruntime (se_at s l)) > sint g"
    using that g(3) mult_right_mono [of "sint (vruntime (se_at s x) - vruntime (se_at s l))" "sint g" ?W]
    by (auto simp: close_to_def Let_def)
  then show ?thesis using g(1,2) False by (simp add: wakeup_preempt_entity_def Let_def)
qed

lemma favour_spec:
  assumes K: "mul_shr_ok (mul_u64_u32_shr K)" and l: "light (se_load (se_at s l))"
  shows "\<exists>se' s'. favour K (Some l) x (se, s) = Some (se', s') \<and> same_times l s s'
    \<and> (se' = se \<or> se' = x \<and> (\<exists>i. x = Some i \<and> close_to s l i))
    \<and> (\<forall>i. x = Some i \<longrightarrow> sint (vruntime (se_at s i) - vruntime (se_at s l)) \<le> 0 \<longrightarrow> se' = x)"
proof (cases x)
  case None
  then show ?thesis using l by (simp add: favour_def same_times_def)
next
  case (Some i)
  then show ?thesis using wakeup_preempt_spec [OF K l, of i] by (fastforce simp: favour_def)
qed

section \<open>The choice returns\<close>

lemma raw_clear_returns:
  assumes "hierarchy_ok root s" "case i of None \<Rightarrow> True | Some i \<Rightarrow> depth (se_at s i) < int n"
  shows "\<exists>s'. raw_clear_buddies n b i s = Some s'"
  using assms
proof (induction n b i s rule: raw_clear_buddies.induct)
  case (2 b i s)
  then show ?case using hierarchyD(1) [OF 2(1), of i] by simp
next
  case (3 n b i s)
  let ?c = "se_cfs_rq (se_at s i)"
  have h: "hierarchy_ok root (upd_cfs ?c (set_buddy b None) s)"
    using 3(2) by (simp add: hierarchy_ok_def upd_cfs_def cong: option.case_cong)
  have d: "case parent (se_at s i) of None \<Rightarrow> True | Some j \<Rightarrow> depth (se_at (upd_cfs ?c (set_buddy b None) s) j) < int n"
    using 3(3) hierarchyD(3) [OF 3(2), of i] by (auto simp: upd_cfs_def split: option.splits)
  show ?case using 3(1) [OF refl _ h d] by (auto simp: Let_def)
qed simp

lemma hierarchy_shape: "shape s' = shape s \<Longrightarrow> hierarchy_ok root s' = hierarchy_ok root s"
  using shape_entity [of s' s] by (simp add: hierarchy_ok_def cong: option.case_cong)

lemma clear_buddies_returns:
  assumes "hierarchy_ok root s" "case i of None \<Rightarrow> True | Some i \<Rightarrow> depth (se_at s i) < int n"
  shows "\<exists>s'. clear_buddies n c i s = Some s'"
proof -
  have step: "\<exists>t'. (if P then raw_clear_buddies n b i t else Some t) = Some t' \<and> shape t' = shape s" if sh: "shape t = shape s" for P b t
  proof -
    have "case i of None \<Rightarrow> True | Some i \<Rightarrow> depth (se_at t i) < int n"
      using assms(2) shape_entity(6) [OF sh] by (simp split: option.splits)
    then obtain t' where "raw_clear_buddies n b i t = Some t'"
      using raw_clear_returns [of root t n i b] assms(1) hierarchy_shape [OF sh] by blast
    then show ?thesis using raw_clear_shape [of n b i t t'] sh by auto
  qed
  obtain t where t: "(if last_buddy (cfs_at s c) = i then raw_clear_buddies n Last i s else Some s) = Some t" "shape t = shape s"
    using step [OF refl] by metis
  obtain u where u: "(if next_buddy (cfs_at t c) = i then raw_clear_buddies n Next i t else Some t) = Some u" "shape u = shape s"
    using step [OF t(2)] by metis
  obtain v where "(if skip_buddy (cfs_at u c) = i then raw_clear_buddies n Skip i u else Some u) = Some v"
    using step [OF u(2)] by metis
  then show ?thesis unfolding clear_buddies_def t(1) u(1) Option.bind.simps(2) by blast
qed

section \<open>Fairness\<close>

lemma next_in_member: "next_in x xs = Some y \<Longrightarrow> y \<in> set xs"
  by (induction xs) (auto split: if_splits list.splits)

lemma earlier_member: "earlier s cur x = Some i \<Longrightarrow> i \<in> set_option cur \<union> set_option x"
  by (auto simp: earlier_def split: option.splits if_splits)

text \<open>Three candidates in a row.\<close>

lemma favour_three:
  assumes K: "mul_shr_ok (mul_u64_u32_shr K)" and l: "light (se_load (se_at s l))"
  shows "\<exists>i s'. (do { (se, s) \<leftarrow> (if p then favour K (Some l) x (Some l, s) else Some (Some l, s));
             (se, s) \<leftarrow> favour K (Some l) y (se, s); favour K (Some l) z (se, s) }) = Some (Some i, s')
     \<and> same_times l s s' \<and> (i = l \<or> close_to s l i \<and> (p \<and> x = Some i \<or> y = Some i \<or> z = Some i))
     \<and> (\<forall>k. z = Some k \<longrightarrow> sint (vruntime (se_at s k) - vruntime (se_at s l)) \<le> 0 \<longrightarrow> i = k)"
proof -
  have first: "\<exists>i t. (if p then favour K (Some l) x (Some l, s) else Some (Some l, s)) = Some (Some i, t) \<and> same_times l s t
      \<and> (i = l \<or> close_to s l i \<and> p \<and> x = Some i)"
  proof (cases p)
    case True
    then show ?thesis using favour_spec [OF K l, of x "Some l"] by auto
  qed (use l in \<open>simp add: same_times_def\<close>)
  then obtain i t where t: "(if p then favour K (Some l) x (Some l, s) else Some (Some l, s)) = Some (Some i, t)" "same_times l s t"
    "i = l \<or> close_to s l i \<and> p \<and> x = Some i" by blast
  have lt: "light (se_load (se_at t l))" using t(2) by (simp add: same_times_def)
  obtain j u where u: "favour K (Some l) y (Some i, t) = Some (Some j, u)" "same_times l t u" "j = i \<or> y = Some j \<and> close_to t l j"
    using favour_spec [OF K lt, of y "Some i"] by auto
  have lu: "light (se_load (se_at u l))" using u(2) by (simp add: same_times_def)
  obtain k v where v: "favour K (Some l) z (Some j, u) = Some (Some k, v)" "same_times l u v" "k = j \<or> z = Some k \<and> close_to u l k"
    "\<forall>a. z = Some a \<longrightarrow> sint (vruntime (se_at u a) - vruntime (se_at u l)) \<le> 0 \<longrightarrow> k = a"
    using favour_spec [OF K lu, of z "Some j"] by auto
  have su: "same_times l s u" by (rule same_times_trans [OF t(2) u(2)])
  then have "vtimes u = vtimes s" by (simp add: same_times_def)
  then have vu: "vruntime (se_at u a) = vruntime (se_at s a)" for a by (rule vtimes_at)
  show ?thesis
    using t u v same_times_trans [OF su v(2)] close_to_same [OF t(2)] close_to_same [OF su] unfolding vu
    by (intro exI [of _ k] exI [of _ v]) auto
qed

lemma pick_returns:
  assumes K: "mul_shr_ok (mul_u64_u32_shr K)" "rb_ok K" and ok: "timeline_ok m (se_at s) (tasks_timeline (cfs_at s c)) (rb_leftmost (cfs_at s c))"
    and near: "\<forall>j. cur = Some j \<longrightarrow> near m (vruntime (se_at s j))" and some: "contenders c cur s \<noteq> {}"
    and light: "\<forall>i \<in> contenders c cur s. light (se_load (se_at s i))"
    and hier: "hierarchy_ok root s" "\<forall>i. depth (se_at s i) < int n"
  shows "\<exists>i l s'. pick_next_entity n K c cur s = Some (Some i, s') \<and> earlier s cur (pick_first_entity (cfs_at s c)) = Some l
    \<and> (i = l \<or> close_to s l i \<and> i \<in> contenders c cur s \<union> set_option (last_buddy (cfs_at s c)) \<union> set_option (next_buddy (cfs_at s c)))
    \<and> (\<forall>x. next_buddy (cfs_at s c) = Some x \<longrightarrow> sint (vruntime (se_at s x) - vruntime (se_at s l)) \<le> 0 \<longrightarrow> i = x)"
proof -
  let ?q = "cfs_at s c"
  obtain l where l: "earlier s cur (pick_first_entity ?q) = Some l"
    using earliest(1) [OF ok near] some by auto
  have m: "l \<in> contenders c cur s" using earliest(2) [OF ok near l] by simp
  define second where "second = (if Some l = cur then pick_first_entity ?q else earlier s cur (raw_pick_next_entity K ?q l))"
  have first: "pick_first_entity ?q = Some x \<Longrightarrow> x \<in> set (queued c s)" for x
    using ok by (simp add: pick_first_entity_def timeline_ok_def queued_def set_inorder [symmetric] del: set_inorder split: list.splits)
  have "raw_pick_next_entity K ?q l = Some x \<Longrightarrow> x \<in> set (queued c s)" for x
    using next_in_member [of l "queued c s" x] rb_okD(3) [OF K(2)] by (simp add: raw_pick_next_entity_def queued_def)
  then have "second = Some x \<Longrightarrow> x \<in> contenders c cur s" for x
    using first earlier_member [of s cur "raw_pick_next_entity K ?q l" x] by (auto simp: second_def contenders_def split: if_splits)
  moreover obtain i t where t: "(do { (se, s) \<leftarrow> (if skip_buddy ?q = Some l then favour K (Some l) second (Some l, s) else Some (Some l, s));
             (se, s) \<leftarrow> favour K (Some l) (last_buddy ?q) (se, s); favour K (Some l) (next_buddy ?q) (se, s) }) = Some (Some i, t)"
     "same_times l s t" "i = l \<or> close_to s l i \<and> (skip_buddy ?q = Some l \<and> second = Some i \<or> last_buddy ?q = Some i \<or> next_buddy ?q = Some i)"
     "\<forall>k. next_buddy ?q = Some k \<longrightarrow> sint (vruntime (se_at s k) - vruntime (se_at s l)) \<le> 0 \<longrightarrow> i = k"
    using favour_three [OF K(1), of s l "skip_buddy ?q = Some l" second "last_buddy ?q" "next_buddy ?q"] light m by blast
  have st: "shape t = shape s" using t(2) by (simp add: same_times_def)
  obtain s' where s': "clear_buddies n c (Some i) t = Some s'"
    using clear_buddies_returns [of root t n "Some i" c] hier hierarchy_shape [OF st] shape_entity(6) [OF st, of i] by auto
  have sec: "(if Some l = cur then Some (pick_first_entity ?q)
      else case Some l of None \<Rightarrow> None | Some l \<Rightarrow> Some (earlier s cur (raw_pick_next_entity K ?q l))) = Some second"
    by (simp add: second_def)
  obtain x u where u: "(if skip_buddy ?q = Some l then favour K (Some l) second (Some l, s) else Some (Some l, s)) = Some (x, u)"
    "(do { (se, s) \<leftarrow> favour K (Some l) (last_buddy ?q) (x, u); favour K (Some l) (next_buddy ?q) (se, s) }) = Some (Some i, t)"
    using t(1) by (cases "if skip_buddy ?q = Some l then favour K (Some l) second (Some l, s) else Some (Some l, s)") auto
  obtain y v where v: "favour K (Some l) (last_buddy ?q) (x, u) = Some (y, v)" "favour K (Some l) (next_buddy ?q) (y, v) = Some (Some i, t)"
    using u(2) by (cases "favour K (Some l) (last_buddy ?q) (x, u)") auto
  have "pick_next_entity n K c cur s = Some (Some i, s')"
    unfolding pick_next_entity_def Let_def l sec Option.bind.simps(2) u(1) case_prod_conv v s' ..
  ultimately show ?thesis using t(3,4) l by blast
qed

section \<open>Properties\<close>

text \<open>C6: Picking is fair and never fails. On a consistent runqueue with somebody to run, \<open>pick_next_entity\<close>
  returns an entity of the runqueue or one of its buddies. Whatever it prefers -- the next or last buddy, or the
  second in line when the first has yielded -- is later than nobody by more than the wakeup granularity, scaled
  to the weight of the entity that is furthest behind; and a next buddy that is itself furthest behind is taken.\<close>

theorem pick_within_granularity:
  fixes m :: u64 and s :: kstate
  defines "key \<equiv> \<lambda>i. vkey m (vruntime (se_at s i))"
  assumes "mul_shr_ok (mul_u64_u32_shr K)" "rb_ok K" "runq_ok m c s" "contenders c cur s \<noteq> {}"
    and "\<forall>i \<in> set_option cur \<union> set_option (last_buddy (cfs_at s c)) \<union> set_option (next_buddy (cfs_at s c)). near m (vruntime (se_at s i))"
    and "\<forall>i \<in> contenders c cur s. light (se_load (se_at s i))"
    and "hierarchy_ok root s" "\<forall>i. depth (se_at s i) < int n"
  shows "\<exists>i l s'. pick_next_entity n K c cur s = Some (Some i, s')
    \<and> i \<in> contenders c cur s \<union> set_option (last_buddy (cfs_at s c)) \<union> set_option (next_buddy (cfs_at s c))
    \<and> l \<in> contenders c cur s \<and> (\<forall>j \<in> contenders c cur s. key l \<le> key j
        \<and> (key i \<le> key j \<or> (key i - key j) * int (unat (scale_load_down (weight (se_load (se_at s l)))))
              \<le> int (unat (sysctl_sched_wakeup_granularity (sysctls s))) * 1024))
    \<and> (\<forall>x. next_buddy (cfs_at s c) = Some x \<longrightarrow> key x \<le> key l \<longrightarrow> i = x)"
proof -
  have tl: "timeline_ok m (se_at s) (tasks_timeline (cfs_at s c)) (rb_leftmost (cfs_at s c))"
    using assms(4) by (simp add: runq_ok_def runq_with_def)
  have nc: "\<forall>j. cur = Some j \<longrightarrow> near m (vruntime (se_at s j))" using assms(6) by auto
  obtain i l s' where p: "pick_next_entity n K c cur s = Some (Some i, s')" "earlier s cur (pick_first_entity (cfs_at s c)) = Some l"
    "i = l \<or> close_to s l i \<and> i \<in> contenders c cur s \<union> set_option (last_buddy (cfs_at s c)) \<union> set_option (next_buddy (cfs_at s c))"
    "\<forall>x. next_buddy (cfs_at s c) = Some x \<longrightarrow> sint (vruntime (se_at s x) - vruntime (se_at s l)) \<le> 0 \<longrightarrow> i = x"
    using pick_returns [OF assms(2,3) tl nc assms(5,7-9)] by blast
  have l: "l \<in> contenders c cur s" "near m (vruntime (se_at s l))" "\<forall>j \<in> contenders c cur s. key l \<le> key j"
    using earliest(2) [OF tl nc p(2)] by (simp_all add: key_def)
  let ?B = "contenders c cur s \<union> set_option (last_buddy (cfs_at s c)) \<union> set_option (next_buddy (cfs_at s c))"
  let ?W = "int (unat (scale_load_down (weight (se_load (se_at s l)))))"
  let ?G = "int (unat (sysctl_sched_wakeup_granularity (sysctls s))) * 1024"
  have near: "near m (vruntime (se_at s x))" if "x \<in> ?B" for x
    using that assms(6) tl by (auto simp: contenders_def timeline_ok_def queued_def)
  have diff: "sint (vruntime (se_at s x) - vruntime (se_at s l)) = key x - key l" if "x \<in> ?B" for x
    using near_diff [OF near [OF that] l(2)] by (simp add: key_def)
  have i: "i \<in> ?B" "key i \<le> key l \<or> (key i - key l) * ?W \<le> ?G"
    using p(3) l(1) diff [of i] by (auto simp: close_to_def Let_def)
  have "key i \<le> key j \<or> (key i - key j) * ?W \<le> ?G" if "j \<in> contenders c cur s" for j
    using i(2) l(3) that mult_right_mono [of "key i - key j" "key i - key l" ?W] by fastforce
  moreover have "i = x" if "next_buddy (cfs_at s c) = Some x" "key x \<le> key l" for x
    using p(4) that diff [of x] by simp
  ultimately show ?thesis using p(1) i(1) l(1,3) by blast
qed

definition two_waiting :: kstate where
  "two_waiting = zero_state\<lparr>se_at := (\<lambda>i. zero_se\<lparr>se_load := \<lparr>weight = 1048576, inv_weight = 0\<rparr>,
       on_rq := (if i = 2 \<or> i = 7 then 1 else 0), vruntime := (if i = 2 then 10 else 30)\<rparr>),
     cfs_at := (\<lambda>c. if c = 0 then zero_cfs\<lparr>tasks_timeline := Node Leaf 2 (Node Leaf 7 Leaf), rb_leftmost := Some 2,
       cfs_load := \<lparr>weight = 2097152, inv_weight = 0\<rparr>, nr_running := 2, next_buddy := Some 2\<rparr> else zero_cfs)\<rparr>"

theorem pick_within_granularity_witness:
  "\<exists>s'. pick_next_entity 1 plain_api 0 None two_waiting = Some (Some 2, s')"
proof -
  have q: "queued 0 two_waiting = [2, 7]" "running_entity 0 two_waiting = None"
    by (simp_all add: queued_def running_entity_def two_waiting_def zero_cfs_def)
  then have r: "runnable 0 two_waiting = [2, 7]" "contenders 0 None two_waiting = {2, 7}"
    by (simp_all add: runnable_def contenders_def)
  have v: "vkey 0 (vruntime (se_at two_waiting 2)) = 10" "vkey 0 (vruntime (se_at two_waiting 7)) = 30"
    by (simp_all add: vkey_def two_waiting_def)
  have w: "weight (se_load (se_at two_waiting i)) = 1048576" "light (se_load (se_at two_waiting i))" for i
    by (simp_all add: two_waiting_def light_def inv_ok_def scale_load_down_def unat_drop_bit_div)
  have tl: "timeline_ok 0 (se_at two_waiting) (tasks_timeline (cfs_at two_waiting 0)) (rb_leftmost (cfs_at two_waiting 0))"
    using q(1) v by (simp add: timeline_ok_def queued_def near_def) (simp add: two_waiting_def)
  have "runq_ok 0 0 two_waiting"
    using tl unfolding runq_ok_def runq_with_def r q append_Nil2 w by (auto simp: two_waiting_def zero_cfs_def zero_se_def)
  moreover have "next_buddy (cfs_at two_waiting 0) = Some 2" "last_buddy (cfs_at two_waiting 0) = None"
    by (simp_all add: two_waiting_def zero_cfs_def)
  moreover have "hierarchy_ok 0 two_waiting" "\<forall>i. depth (se_at two_waiting i) < int 1"
    by (simp_all add: hierarchy_ok_def two_waiting_def zero_se_def)
  moreover have "mul_shr_ok (mul_u64_u32_shr plain_api)" by (simp add: plain_api_def)
  ultimately show ?thesis
    using pick_within_granularity [of plain_api 0 0 two_waiting None 0 1] r(2) v w(2) by (auto simp: near_def)
qed

end
