(* ===== verification/Cpu_Load.thy ===== *)
theory Cpu_Load
  imports Capacity
begin

text \<open>
  Load averages of cpus, \<open>kernel/sched/fair.c\<close> lines 5729--6032, the effect of a task on the load of a cpu
  (6090--6150), the decisions on waking (6159--6174, 6692--6769) and the hierarchical load of tasks (8933--8973),
  with \<open>CONFIG_NO_HZ_COMMON\<close>. Signed arithmetic wraps, as the kernel is compiled. What \<open>sched_avg_update\<close>
  of the core does to a runqueue, whether the tick is stopped, \<open>HZ\<close> and the size of the cache domain are arguments.
\<close>

section \<open>Missed ticks\<close>

definition degrade_zero_ticks :: "ulong list" where
  "degrade_zero_ticks = [0, 8, 32, 64, 128]"

definition degrade_factor :: "ulong list list" where
  "degrade_factor = [[0, 0, 0, 0, 0, 0, 0, 0], [64, 32, 8, 0, 0, 0, 0, 0], [96, 72, 40, 12, 1, 0, 0, 0],
     [112, 98, 75, 43, 15, 1, 0, 0], [120, 112, 98, 76, 45, 16, 2, 0]]"

text \<open>The loop over the bits of the number of ticks, along one row of the table.\<close>

fun decay_ticks :: "ulong list \<Rightarrow> ulong \<Rightarrow> ulong \<Rightarrow> ulong option" where
  "decay_ticks [] missed load = (if missed = 0 then Some load else None)"
| "decay_ticks (f # fs) missed load =
     (if missed = 0 then Some load
      else decay_ticks fs (drop_bit 1 missed) (if odd missed then drop_bit 7 (load * f) else load))"

definition decay_load_missed :: "ulong \<Rightarrow> ulong \<Rightarrow> nat \<Rightarrow> ulong option" where
  "decay_load_missed load missed idx =
     (if missed = 0 then Some load
      else if idx \<ge> 5 then None
      else if missed \<ge> degrade_zero_ticks ! idx then Some 0
      else if idx = 1 then Some (drop_bit (unat missed) load)
      else decay_ticks (degrade_factor ! idx) missed load)"

section \<open>The averages\<close>

text \<open>The new average of index \<open>i\<close>, with the scale \<open>2 ^ i\<close>.\<close>

definition load_average :: "ulong \<Rightarrow> ulong \<Rightarrow> ulong \<Rightarrow> nat \<Rightarrow> ulong \<Rightarrow> ulong option" where
  "load_average tickless_load this_load pending_updates i old_load = do {
     old_load \<leftarrow> decay_load_missed old_load (pending_updates - 1) i;
     old_load \<leftarrow>
       (if tickless_load \<noteq> 0
        then do { d \<leftarrow> decay_load_missed tickless_load (pending_updates - 1) i; Some (old_load - d + tickless_load) }
        else Some old_load);
     let new_load = (if this_load > old_load then this_load + (2 ^ i - 1) else this_load);
     Some (drop_bit i (old_load * (2 ^ i - 1) + new_load))
   }"

definition cpu_loads_update :: "(rq \<Rightarrow> rq) \<Rightarrow> cpu \<Rightarrow> ulong \<Rightarrow> ulong \<Rightarrow> kstate \<Rightarrow> kstate option" where
  "cpu_loads_update sched_avg_update u this_load pending_updates s =
     (let L = cpu_load (rq_at s u) in do {
        loads \<leftarrow> those (map (\<lambda>i. load_average (L ! 0) this_load pending_updates i (L ! i)) [1, 2, 3, 4]);
        Some (upd_rq u (\<lambda>r. sched_avg_update (r\<lparr>nr_load_updates := nr_load_updates r + 1, cpu_load := this_load # loads\<rparr>)) s)
      })"

definition weighted_cpuload :: "cpu \<Rightarrow> kstate \<Rightarrow> ulong" where
  "weighted_cpuload u s = runnable_load_avg (cfs_at s (rq_cfs (rq_at s u)))"

definition cpu_load_update_nohz :: "(rq \<Rightarrow> rq) \<Rightarrow> cpu \<Rightarrow> ulong \<Rightarrow> ulong \<Rightarrow> kstate \<Rightarrow> kstate option" where
  "cpu_load_update_nohz A u curr_jiffies load s =
     (let pending_updates = curr_jiffies - last_load_update_tick (rq_at s u) in
      if pending_updates \<noteq> 0
      then cpu_loads_update A u load pending_updates (upd_rq u (\<lambda>r. r\<lparr>last_load_update_tick := curr_jiffies\<rparr>) s)
      else Some s)"

definition cpu_load_update_idle :: "(rq \<Rightarrow> rq) \<Rightarrow> cpu \<Rightarrow> kstate \<Rightarrow> kstate option" where
  "cpu_load_update_idle A u s = (if weighted_cpuload u s \<noteq> 0 then Some s else cpu_load_update_nohz A u (jiffies s) 0 s)"

definition cpu_load_update_nohz_start :: "cpu \<Rightarrow> kstate \<Rightarrow> kstate" where
  "cpu_load_update_nohz_start u s = upd_rq u (\<lambda>r. r\<lparr>cpu_load := (cpu_load r)[0 := weighted_cpuload u s]\<rparr>) s"

definition cpu_load_update_nohz_stop :: "(rq \<Rightarrow> rq) \<Rightarrow> kapi \<Rightarrow> cpu \<Rightarrow> kstate \<Rightarrow> kstate option" where
  "cpu_load_update_nohz_stop A K u s =
     (if jiffies s = last_load_update_tick (rq_at s u) then Some s
      else cpu_load_update_nohz A u (jiffies s) (weighted_cpuload u s) (upd_rq u (update_rq_clock K) s))"

definition cpu_load_update_periodic :: "(rq \<Rightarrow> rq) \<Rightarrow> cpu \<Rightarrow> ulong \<Rightarrow> kstate \<Rightarrow> kstate option" where
  "cpu_load_update_periodic A u load s =
     cpu_loads_update A u load 1 (upd_rq u (\<lambda>r. r\<lparr>last_load_update_tick := jiffies s\<rparr>) s)"

definition cpu_load_update_active :: "(rq \<Rightarrow> rq) \<Rightarrow> bool \<Rightarrow> cpu \<Rightarrow> kstate \<Rightarrow> kstate option" where
  "cpu_load_update_active A tick_stopped u s =
     (let load = weighted_cpuload u s in
      if tick_stopped then cpu_load_update_nohz A u (jiffies s) load s else cpu_load_update_periodic A u load s)"

section \<open>Guesses\<close>

definition source_load :: "kapi \<Rightarrow> cpu \<Rightarrow> nat \<Rightarrow> kstate \<Rightarrow> ulong option" where
  "source_load K u type s =
     (let total = weighted_cpuload u s in
      if type = 0 \<or> \<not> sched_feat K LB_BIAS then Some total
      else if type - 1 \<ge> length (cpu_load (rq_at s u)) then None
      else Some (min (cpu_load (rq_at s u) ! (type - 1)) total))"

definition target_load :: "kapi \<Rightarrow> cpu \<Rightarrow> nat \<Rightarrow> kstate \<Rightarrow> ulong option" where
  "target_load K u type s =
     (let total = weighted_cpuload u s in
      if type = 0 \<or> \<not> sched_feat K LB_BIAS then Some total
      else if type - 1 \<ge> length (cpu_load (rq_at s u)) then None
      else Some (max (cpu_load (rq_at s u) ! (type - 1)) total))"

definition cpu_avg_load_per_task :: "cpu \<Rightarrow> kstate \<Rightarrow> ulong" where
  "cpu_avg_load_per_task u s =
     (let nr = ucast (h_nr_running (cfs_at s (rq_cfs (rq_at s u)))) :: ulong in
      if nr \<noteq> 0 then weighted_cpuload u s div nr else 0)"

section \<open>The load change seen from the root\<close>

fun effective_up :: "nat \<Rightarrow> se_id option \<Rightarrow> s64 \<Rightarrow> s64 \<Rightarrow> kstate \<Rightarrow> s64 option" where
  "effective_up _ None wl wg s = Some wl"
| "effective_up 0 (Some i) wl wg s = None"
| "effective_up (Suc n) (Some i) wl wg s = do {
     c \<leftarrow> my_q (se_at s i);
     let q = cfs_at s c;
     let t = tg_at s (cfs_tg q);
     let w = load_avg (cfs_avg q);
     let W = wg + tg_load_avg t - tg_load_avg_contrib q + w;
     let w = w + wl;
     wl \<leftarrow> (if sint W > 0 \<and> sint w < sint W then s64_div (w * scale_load_down (shares t)) W
            else Some (scale_load_down (shares t)));
     let wl = (if wl < MIN_SHARES then MIN_SHARES else wl);
     effective_up n (parent (se_at s i)) (wl - load_avg (se_avg (se_at s i))) 0 s
   }"

definition effective_load :: "nat \<Rightarrow> tg_id \<Rightarrow> cpu \<Rightarrow> s64 \<Rightarrow> s64 \<Rightarrow> kstate \<Rightarrow> s64 option" where
  "effective_load n g u wl wg s =
     (if tg_parent (tg_at s g) = None then Some wl else effective_up n (tg_se (tg_at s g) u) wl wg s)"

section \<open>Waking\<close>

text \<open>\<open>current\<close> is the waker \<open>j\<close>; \<open>time_after\<close> compares modulo \<open>2 ^ 64\<close>.\<close>

definition upd_task :: "se_id \<Rightarrow> (task_struct \<Rightarrow> task_struct) \<Rightarrow> kstate \<Rightarrow> kstate" where
  "upd_task i f s = s\<lparr>task_at := (task_at s)(i := f (task_at s i))\<rparr>"

definition record_wakee :: "ulong \<Rightarrow> se_id \<Rightarrow> se_id \<Rightarrow> kstate \<Rightarrow> kstate" where
  "record_wakee HZ j p s =
     (let s = (if sint (wakee_flip_decay_ts (task_at s j) + HZ - jiffies s) < 0
               then upd_task j (\<lambda>t. t\<lparr>wakee_flips := drop_bit 1 (wakee_flips t), wakee_flip_decay_ts := jiffies s\<rparr>) s else s)
      in if last_wakee (task_at s j) \<noteq> Some p
         then upd_task j (\<lambda>t. t\<lparr>last_wakee := Some p, wakee_flips := wakee_flips t + 1\<rparr>) s else s)"

definition wake_wide :: "u32 \<Rightarrow> se_id \<Rightarrow> se_id \<Rightarrow> kstate \<Rightarrow> bool" where
  "wake_wide sd_llc_size j p s =
     (let a = wakee_flips (task_at s j); b = wakee_flips (task_at s p);
          master = (if a < b then b else a); slave = (if a < b then a else b)
      in \<not> (slave < sd_llc_size \<or> master < slave * sd_llc_size))"

definition wake_affine ::
  "nat \<Rightarrow> kapi \<Rightarrow> nat \<Rightarrow> u32 \<Rightarrow> se_id \<Rightarrow> se_id \<Rightarrow> cpu \<Rightarrow> bool \<Rightarrow> kstate \<Rightarrow> bool option" where
  "wake_affine n K wake_idx imbalance_pct j p prev_cpu sync s =
     (let u = this_cpu K in do {
        load \<leftarrow> source_load K prev_cpu wake_idx s;
        this_load \<leftarrow> target_load K u wake_idx s;
        (this_load, load) \<leftarrow>
          (if sync
           then do {
             let g = sched_task_group (task_at s j);
             let weight = load_avg (se_avg (se_at s j));
             a \<leftarrow> effective_load n g u (- weight) (- weight) s;
             b \<leftarrow> effective_load n g prev_cpu 0 (- weight) s;
             Some (this_load + a, load + b)
           }
           else Some (this_load, load));
        let g = sched_task_group (task_at s p);
        let weight = load_avg (se_avg (se_at s p));
        let this_eff = 100 * capacity_of prev_cpu s;
        let prev_eff = ucast (100 + (imbalance_pct - 100) div 2) * capacity_of u s;
        (this_eff, prev_eff) \<leftarrow>
          (if sint this_load > 0
           then do {
             a \<leftarrow> effective_load n g u weight weight s;
             b \<leftarrow> effective_load n g prev_cpu 0 weight s;
             Some (this_eff * (this_load + a), prev_eff * (load + b))
           }
           else Some (this_eff, prev_eff));
        Some (sint this_eff \<le> sint prev_eff)
      })"

section \<open>Hierarchical load\<close>

text \<open>Upwards, leaving a trail, to a runqueue computed in this jiffy or to the top; \<open>True\<close> is the top.\<close>

fun h_load_up :: "nat \<Rightarrow> se_id option \<Rightarrow> cfs_id \<Rightarrow> kstate \<Rightarrow> (bool \<times> cfs_id \<times> kstate) option" where
  "h_load_up _ None c s = Some (True, c, s)"
| "h_load_up 0 (Some i) c s = None"
| "h_load_up (Suc n) (Some i) c s =
     (let c = se_cfs_rq (se_at s i); s = upd_cfs c (\<lambda>q. q\<lparr>h_load_next := Some i\<rparr>) s in
      if last_h_load_update (cfs_at s c) = jiffies s then Some (False, c, s)
      else h_load_up n (parent (se_at s i)) c s)"

fun h_load_down :: "nat \<Rightarrow> cfs_id \<Rightarrow> kstate \<Rightarrow> kstate option" where
  "h_load_down n c s =
     (case h_load_next (cfs_at s c) of
        None \<Rightarrow> Some s
      | Some i \<Rightarrow>
          (case n of
             0 \<Rightarrow> None
           | Suc m \<Rightarrow>
               let q = cfs_at s c; d = load_avg (cfs_avg q) + 1 in
               if d = 0 then None
               else let load = h_load q * load_avg (se_avg (se_at s i)) div d in do {
                 g \<leftarrow> my_q (se_at s i);
                 h_load_down m g (upd_cfs g (\<lambda>q. q\<lparr>h_load := load, last_h_load_update := jiffies s\<rparr>) s)
               }))"

declare h_load_down.simps [simp del]

definition update_cfs_rq_h_load :: "nat \<Rightarrow> cfs_id \<Rightarrow> kstate \<Rightarrow> kstate option" where
  "update_cfs_rq_h_load n c s =
     (if last_h_load_update (cfs_at s c) = jiffies s then Some s
      else let i = tg_se (tg_at s (cfs_tg (cfs_at s c))) (rq_cpu (cfs_at s c));
               s = upd_cfs c (\<lambda>q. q\<lparr>h_load_next := None\<rparr>) s in do {
        (top, c, s) \<leftarrow> h_load_up n i c s;
        let s = (if top then upd_cfs c (\<lambda>q. q\<lparr>h_load := load_avg (cfs_avg q), last_h_load_update := jiffies s\<rparr>) s else s);
        h_load_down n c s
      })"

definition task_h_load :: "nat \<Rightarrow> se_id \<Rightarrow> kstate \<Rightarrow> (ulong \<times> kstate) option" where
  "task_h_load n i s =
     (let c = se_cfs_rq (se_at s i) in do {
        s \<leftarrow> update_cfs_rq_h_load n c s;
        let d = load_avg (cfs_avg (cfs_at s c)) + 1;
        if d = 0 then None else Some (load_avg (se_avg (se_at s i)) * h_load (cfs_at s c) div d, s)
      })"

section \<open>Blocked load\<close>

text \<open>\<open>update_blocked_averages\<close>: the leaf list is read as it was at the start.\<close>

fun update_blocked :: "kapi \<Rightarrow> cpu \<Rightarrow> cfs_id list \<Rightarrow> kstate \<Rightarrow> kstate option" where
  "update_blocked K u [] s = Some s"
| "update_blocked K u (c # cs) s =
     (if throttled_hierarchy c s then update_blocked K u cs s
      else do {
        (decayed, s) \<leftarrow> update_cfs_rq_load_avg K (cfs_rq_clock_task c s) c True s;
        let s = (if decayed then update_tg_load_avg c False s else s);
        s \<leftarrow> (case tg_se (tg_at s (cfs_tg (cfs_at s c))) u of None \<Rightarrow> Some s | Some i \<Rightarrow> update_load_avg K i False False s);
        update_blocked K u cs s
      })"

definition update_blocked_averages :: "kapi \<Rightarrow> cpu \<Rightarrow> kstate \<Rightarrow> kstate option" where
  "update_blocked_averages K u s =
     (let s = upd_rq u (update_rq_clock K) s in update_blocked K u (leaf_cfs_rq_list (rq_at s u)) s)"

end
