(* ===== verification/Cpu_Load_Props.thy ===== *)
theory Cpu_Load_Props
  imports Cpu_Load
begin

text \<open>
  The load averages of a cpu: a constant load is reached exactly, the distance shrinking by a factor of
  \<open>1 - 1 / 2 ^ i\<close> per tick, and missed ticks never push an average above what it averages.
\<close>

section \<open>One tick on natural numbers\<close>

definition average_step :: "nat \<Rightarrow> nat \<Rightarrow> nat \<Rightarrow> nat" where
  "average_step k L x = (if x < L then (x * (k - 1) + (L + (k - 1))) div k else (x * (k - 1) + L) div k)"

lemma part_le: "0 < k \<Longrightarrow> d * (k - 1) div k \<le> (d :: nat)"
  by (metis diff_le_self div_le_mono mult_le_mono2 nonzero_mult_div_cancel_right not_less0)

lemma step_below:
  assumes "0 < k" "d \<le> L"
  shows "average_step k L (L - d) = L - d * (k - 1) div k"
proof (cases "d = 0")
  case True
  have "L * (k - 1) + L = L * k" using assms(1) by (cases k) auto
  then show ?thesis using True assms(1) by (simp add: average_step_def)
next
  case False
  define r where "r = d * (k - 1) mod k"
  define f where "f = d * (k - 1) div k"
  have fk: "d * (k - 1) = f * k + r" by (simp add: f_def r_def)
  have f: "f \<le> d" unfolding f_def by (rule part_le [OF assms(1)])
  have r: "r < k" using assms(1) by (simp add: r_def)
  obtain e where e: "L = d + e" using assms(2) le_Suc_ex by blast
  obtain g where g: "d = f + g" using f le_Suc_ex by blast
  obtain h where h: "k = Suc (r + h)" using r less_imp_Suc_add by blast
  have "g * (r + h) = f + r" using fk by (simp add: g h algebra_simps)
  then have "(L - d) * (k - 1) + (L + (k - 1)) = (L - f) * k + (k - 1 - r)" by (simp add: e g h algebra_simps)
  moreover have "((L - f) * k + (k - 1 - r)) div k = L - f" using assms(1) by simp
  ultimately show ?thesis using False assms(2) by (simp add: average_step_def f_def)
qed

lemma step_above:
  assumes "0 < k"
  shows "average_step k L (L + d) = L + d * (k - 1) div k"
proof -
  have "(L + d) * (k - 1) + L = L * k + d * (k - 1)" using assms by (cases k) (auto simp: algebra_simps)
  then show ?thesis using assms by (simp add: average_step_def)
qed

lemma step_distance:
  assumes "0 < k"
  shows "\<bar>int (average_step k L x) - int L\<bar> = int (nat \<bar>int x - int L\<bar> * (k - 1) div k)"
    "average_step k L x \<le> max x L"
proof -
  have "\<bar>int (average_step k L x) - int L\<bar> = int (nat \<bar>int x - int L\<bar> * (k - 1) div k) \<and> average_step k L x \<le> max x L"
  proof (cases "x \<le> L")
    case True
    define d where "d = L - x"
    then have x: "x = L - d" "d \<le> L" using True by auto
    have "nat \<bar>int x - int L\<bar> = d" using x by (simp add: of_nat_diff)
    then show ?thesis using step_below [OF assms x(2)] part_le [OF assms, of d] x by (simp add: of_nat_diff)
  next
    case False
    define d where "d = x - L"
    then have x: "x = L + d" using False by auto
    then show ?thesis using step_above [OF assms, of L d] part_le [OF assms, of d] by simp
  qed
  then show "\<bar>int (average_step k L x) - int L\<bar> = int (nat \<bar>int x - int L\<bar> * (k - 1) div k)" "average_step k L x \<le> max x L" by auto
qed

section \<open>The code's step\<close>

text \<open>What is averaged in, and the average of index \<open>i\<close>, without overflow.\<close>

lemma upto_four: "i \<le> 4 \<Longrightarrow> i = 0 \<or> i = 1 \<or> i = 2 \<or> i = 3 \<or> i = (4::nat)"
  by presburger

lemma unat_pow_minus:
  assumes "i \<le> 4"
  shows "unat ((2::ulong) ^ i - 1) = 2 ^ i - 1"
  using upto_four [OF assms] by (elim disjE) simp_all

lemma average_unat:
  fixes x L :: ulong
  assumes "i \<le> 4" "unat x < 576460752303423488" "unat L < 576460752303423488"
  shows "unat (drop_bit i (x * (2 ^ i - 1) + (if L > x then L + (2 ^ i - 1) else L))) = average_step (2 ^ i) (unat L) (unat x)"
proof -
  define m where "m = (2::nat) ^ i - 1"
  define M where "M = (2::ulong) ^ i - 1"
  have M: "unat M = m" "m \<le> 15"
    using unat_pow_minus [OF assms(1)] power_increasing [OF assms(1), of "2::nat"] by (simp_all add: m_def M_def)
  have "unat x * m \<le> unat x * 15" using M(2) by (rule mult_le_mono2)
  then have b: "unat x * m < 8646911284551352320" using assms(2) by linarith
  then have x: "unat (x * M) = unat x * m" using M(1) unat_times_u64 [of x M] by simp
  have l: "unat (L + M) = unat L + m" using assms(3) M unat_plus_u64 [of L M] by simp
  have "unat (x * M + (if L > x then L + M else L)) = unat x * m + (if unat x < unat L then unat L + m else unat L)"
  proof (cases "x < L")
    case True
    then show ?thesis using assms(2,3) M(2) b x l unat_plus_u64 [of "x * M" "L + M"] by (simp add: word_less_nat_alt)
  next
    case False
    then show ?thesis using assms(2,3) b x unat_plus_u64 [of "x * M" L] by (simp add: word_less_nat_alt)
  qed
  then have "unat (x * (2 ^ i - 1) + (if L > x then L + (2 ^ i - 1) else L))
      = unat x * (2 ^ i - 1) + (if unat x < unat L then unat L + (2 ^ i - 1) else unat L)"
    by (simp only: m_def M_def)
  then show ?thesis by (simp add: average_step_def unat_drop_bit_div)
qed

section \<open>A constant load\<close>

primrec ticks :: "nat \<Rightarrow> (rq \<Rightarrow> rq) \<Rightarrow> cpu \<Rightarrow> ulong \<Rightarrow> kstate \<Rightarrow> kstate option" where
  "ticks 0 A u L s = Some s"
| "ticks (Suc n) A u L s = do { s \<leftarrow> cpu_load_update_periodic A u L s; ticks n A u L s }"

definition loads_below :: "nat \<Rightarrow> ulong list \<Rightarrow> bool" where
  "loads_below B L \<longleftrightarrow> length L = 5 \<and> (\<forall>x\<in>set L. unat x \<le> B)"

lemma loads_below_nth: "loads_below B L \<Longrightarrow> i \<le> 4 \<Longrightarrow> unat (L ! i) \<le> B"
  by (simp add: loads_below_def)

lemma load_average_tick:
  assumes "i \<le> 4" "unat x < 576460752303423488" "unat L < 576460752303423488"
  shows "\<exists>y. load_average t L 1 i x = Some y \<and> unat y = average_step (2 ^ i) (unat L) (unat x)"
  using average_unat [OF assms] by (simp add: load_average_def decay_load_missed_def)

lemma periodic_tick:
  assumes "\<forall>r. cpu_load (A r) = cpu_load r" "loads_below B (cpu_load (rq_at s u))" "unat L \<le> B" "B < 576460752303423488"
  shows "\<exists>s'. cpu_load_update_periodic A u L s = Some s' \<and> loads_below B (cpu_load (rq_at s' u))
    \<and> (\<forall>i\<in>{1, 2, 3, 4}. unat (cpu_load (rq_at s' u) ! i) = average_step (2 ^ i) (unat L) (unat (cpu_load (rq_at s u) ! i)))"
proof -
  let ?C = "cpu_load (rq_at s u)"
  have av: "\<exists>y. load_average (?C ! 0) L 1 i (?C ! i) = Some y \<and> unat y = average_step (2 ^ i) (unat L) (unat (?C ! i))" if "i \<le> 4" for i
    using load_average_tick [OF that] loads_below_nth [OF assms(2) that] assms(3,4) by simp
  have le: "average_step (2 ^ i) (unat L) (unat (?C ! i)) \<le> B" if "i \<le> 4" for i
    using step_distance(2) [of "2 ^ i" "unat L" "unat (?C ! i)"] loads_below_nth [OF assms(2) that] assms(3) by simp
  obtain a where a: "load_average (?C ! 0) L 1 1 (?C ! 1) = Some a" "unat a = average_step (2 ^ 1) (unat L) (unat (?C ! 1))" using av [of 1] by auto
  obtain b where b: "load_average (?C ! 0) L 1 2 (?C ! 2) = Some b" "unat b = average_step (2 ^ 2) (unat L) (unat (?C ! 2))" using av [of 2] by auto
  obtain c where c: "load_average (?C ! 0) L 1 3 (?C ! 3) = Some c" "unat c = average_step (2 ^ 3) (unat L) (unat (?C ! 3))" using av [of 3] by auto
  obtain d where d: "load_average (?C ! 0) L 1 4 (?C ! 4) = Some d" "unat d = average_step (2 ^ 4) (unat L) (unat (?C ! 4))" using av [of 4] by auto
  have "loads_below B [L, a, b, c, d]"
    using le [of 1] le [of 2] le [of 3] le [of 4] assms(3) a(2) b(2) c(2) d(2) by (simp add: loads_below_def)
  then show ?thesis
    using a b c d assms(1) by (simp add: cpu_load_update_periodic_def cpu_loads_update_def upd_rq_def)
qed

lemma ticks_distance:
  assumes "\<forall>r. cpu_load (A r) = cpu_load r" "loads_below B (cpu_load (rq_at s u))" "unat L \<le> B" "B < 576460752303423488"
    "i \<in> {1, 2, 3, 4}"
  shows "\<exists>s'. ticks n A u L s = Some s'
    \<and> \<bar>int (unat (cpu_load (rq_at s' u) ! i)) - int (unat L)\<bar>
      = int (((\<lambda>d. d * (2 ^ i - 1) div 2 ^ i) ^^ n) (nat \<bar>int (unat (cpu_load (rq_at s u) ! i)) - int (unat L)\<bar>))"
  using assms(2)
proof (induction n arbitrary: s)
  case (Suc n)
  obtain s' where s': "cpu_load_update_periodic A u L s = Some s'" "loads_below B (cpu_load (rq_at s' u))"
    "unat (cpu_load (rq_at s' u) ! i) = average_step (2 ^ i) (unat L) (unat (cpu_load (rq_at s u) ! i))"
    using periodic_tick [OF assms(1) Suc.prems assms(3,4)] assms(5) by blast
  have d: "nat \<bar>int (unat (cpu_load (rq_at s' u) ! i)) - int (unat L)\<bar>
      = nat \<bar>int (unat (cpu_load (rq_at s u) ! i)) - int (unat L)\<bar> * (2 ^ i - 1) div 2 ^ i"
    unfolding s'(3) by (subst step_distance(1)) (simp_all only: nat_int, simp)
  show ?case using Suc.IH [OF s'(2)] s'(1) unfolding d funpow_Suc_right by (simp del: of_nat_eq_iff)
qed simp

lemma distance_gone: "d \<le> n \<Longrightarrow> ((\<lambda>d. d * (2 ^ i - 1) div 2 ^ i) ^^ n) d = (0::nat)"
proof (induction n arbitrary: d)
  case (Suc n)
  have "d * (2 ^ i - 1) div 2 ^ i \<le> d - 1"
  proof (cases "d = 0")
    case False
    then have "d * (2 ^ i - 1) < d * 2 ^ i" by simp
    then have "d * (2 ^ i - 1) div 2 ^ i < d" by (simp add: less_mult_imp_div_less)
    then show ?thesis by simp
  qed simp
  then show ?case using Suc.IH [of "d * (2 ^ i - 1) div 2 ^ i"] Suc.prems unfolding funpow_Suc_right by simp
qed simp

text \<open>C23: under a constant load the distance of every average of a cpu to that load shrinks at each tick from
  \<open>d\<close> to \<open>d * (2 ^ i - 1) div 2 ^ i\<close>, no update fails, and after as many ticks as the distance the average is
  exactly the load: rounding up below it and down above it, as the code does, loses nothing.\<close>
theorem cpu_load_converges:
  assumes "\<forall>r. cpu_load (A r) = cpu_load r"
    and "loads_below B (cpu_load (rq_at s u))" and "unat L \<le> B" and "B < 576460752303423488"
    and "i \<in> {1, 2, 3, 4}"
  shows "\<exists>s'. ticks n A u L s = Some s'
    \<and> \<bar>int (unat (cpu_load (rq_at s' u) ! i)) - int (unat L)\<bar>
      = int (((\<lambda>d. d * (2 ^ i - 1) div 2 ^ i) ^^ n) (nat \<bar>int (unat (cpu_load (rq_at s u) ! i)) - int (unat L)\<bar>))
    \<and> (nat \<bar>int (unat (cpu_load (rq_at s u) ! i)) - int (unat L)\<bar> \<le> n \<longrightarrow> cpu_load (rq_at s' u) ! i = L)"
proof -
  let ?d = "nat \<bar>int (unat (cpu_load (rq_at s u) ! i)) - int (unat L)\<bar>"
  obtain s' where s': "ticks n A u L s = Some s'"
    "\<bar>int (unat (cpu_load (rq_at s' u) ! i)) - int (unat L)\<bar> = int (((\<lambda>d. d * (2 ^ i - 1) div 2 ^ i) ^^ n) ?d)"
    using ticks_distance [OF assms] by blast
  have "cpu_load (rq_at s' u) ! i = L" if "?d \<le> n"
  proof (rule word_unat_eq_iff [THEN iffD2])
    show "unat (cpu_load (rq_at s' u) ! i) = unat L" using s'(2) unfolding distance_gone [OF that] by linarith
  qed
  with s' show ?thesis by blast
qed

theorem cpu_load_converges_witness:
  "\<exists>s'. ticks 1000 id 0 1000 zero_state = Some s' \<and> cpu_load (rq_at s' 0) ! 4 = 1000"
  using cpu_load_converges [of id 1000 zero_state 0 1000 4 1000] by (auto simp: loads_below_def zero_defs)

section \<open>Missed ticks\<close>

text \<open>A decay that never grows a load, keeps the order of loads and brings them no further apart.\<close>

definition gentle :: "(nat \<Rightarrow> nat) \<Rightarrow> bool" where
  "gentle g \<longleftrightarrow> (\<forall>x. g x \<le> x) \<and> (\<forall>x d. g x \<le> g (x + d) \<and> g (x + d) \<le> g x + d)"

lemma gentle_id: "gentle (\<lambda>x. x)" and gentle_zero: "gentle (\<lambda>_. 0)"
  by (simp_all add: gentle_def)

lemma gentle_comp:
  assumes "gentle g" "gentle h"
  shows "gentle (\<lambda>x. g (h x))"
proof -
  have "g (h x) \<le> x" for x using assms unfolding gentle_def by (meson order_trans)
  moreover have "g (h x) \<le> g (h (x + d)) \<and> g (h (x + d)) \<le> g (h x) + d" for x d
  proof -
    obtain e where e: "h (x + d) = h x + e" "e \<le> d" using assms(2) unfolding gentle_def by (metis add_le_cancel_left le_Suc_ex)
    have "g (h x) \<le> g (h x + e) \<and> g (h x + e) \<le> g (h x) + e" using assms(1) by (simp add: gentle_def)
    then show ?thesis using e by simp
  qed
  ultimately show ?thesis by (simp add: gentle_def)
qed

lemma gentle_scale:
  assumes "f \<le> k" "0 < k"
  shows "gentle (\<lambda>x. x * f div k)"
proof -
  have "(x + d) * f div k \<le> (x * f + d * k) div k" for x d
    using assms(1) by (intro div_le_mono) (simp add: add_mult_distrib)
  moreover have "(x * f + d * k) div k = x * f div k + d" for x d using assms(2) by simp
  ultimately have "(x + d) * f div k \<le> x * f div k + d" for x d by metis
  moreover have "x * f div k \<le> (x + d) * f div k" for x d by (intro div_le_mono) simp
  moreover have "x * f div k \<le> x" for x
    using div_le_mono [of "x * f" "x * k" k] assms by simp
  ultimately show ?thesis by (simp add: gentle_def)
qed

lemma decay_ticks_gentle:
  assumes "\<forall>f\<in>set fs. unat f \<le> 128" "unat m < 2 ^ length fs"
  shows "\<exists>g. gentle g \<and> (\<forall>x. unat x < 144115188075855872 \<longrightarrow> (\<exists>y. decay_ticks fs m x = Some y \<and> unat y = g (unat x)))"
  using assms
proof (induction fs arbitrary: m)
  case Nil
  then have "m = 0" by (simp add: unat_eq_zero)
  then show ?case using gentle_id by auto
next
  case (Cons f fs)
  show ?case
  proof (cases "m = 0")
    case True
    then show ?thesis using gentle_id by auto
  next
    case False
    have "unat (drop_bit 1 m) < 2 ^ length fs" using Cons.prems(2) by (simp add: unat_drop_bit_div less_mult_imp_div_less)
    then obtain g where g: "gentle g"
      "\<And>x. unat x < 144115188075855872 \<Longrightarrow> \<exists>y. decay_ticks fs (drop_bit 1 m) x = Some y \<and> unat y = g (unat x)"
      using Cons.IH [of "drop_bit 1 m"] Cons.prems(1) by auto
    show ?thesis
    proof (cases "odd m")
      case True
      have f: "unat f \<le> 128" using Cons.prems(1) by simp
      have s: "gentle (\<lambda>x. x * unat f div 128)" using gentle_scale [OF f] by simp
      have "\<exists>y. decay_ticks (f # fs) m x = Some y \<and> unat y = g (unat x * unat f div 128)" if x: "unat x < 144115188075855872" for x
      proof -
        have "unat x * unat f \<le> unat x * 128" using f by simp
        then have "unat x * unat f < 18446744073709551616" using x by linarith
        then have d: "unat (drop_bit 7 (x * f)) = unat x * unat f div 128" by (simp add: unat_drop_bit_div unat_times_u64)
        have "unat (drop_bit 7 (x * f)) \<le> unat x" using s unfolding d gentle_def by blast
        then obtain y where "decay_ticks fs (drop_bit 1 m) (drop_bit 7 (x * f)) = Some y" "unat y = g (unat (drop_bit 7 (x * f)))"
          using g(2) [of "drop_bit 7 (x * f)"] x by auto
        then show ?thesis using True False d by simp
      qed
      then show ?thesis using gentle_comp [OF g(1) s] by blast
    next
      case False
      then show ?thesis using g \<open>m \<noteq> 0\<close> by auto
    qed
  qed
qed

lemma degrade_row:
  assumes "i \<in> {2, 3, 4}"
  shows "\<forall>f\<in>set (degrade_factor ! i). unat f \<le> 128" "length (degrade_factor ! i) = 8"
    "unat (degrade_zero_ticks ! i) < 2 ^ 8"
  using assms by (auto simp: degrade_factor_def degrade_zero_ticks_def nth_Cons')

lemma decay_load_missed_gentle:
  assumes "i \<in> {1, 2, 3, 4}"
  shows "\<exists>g. gentle g \<and> (\<forall>x. unat x < 144115188075855872 \<longrightarrow> (\<exists>y. decay_load_missed x m i = Some y \<and> unat y = g (unat x)))"
proof -
  consider "m = 0" | "m \<noteq> 0" "degrade_zero_ticks ! i \<le> m" | "m \<noteq> 0" "m < degrade_zero_ticks ! i" "i = 1"
    | "m \<noteq> 0" "m < degrade_zero_ticks ! i" "i \<in> {2, 3, 4}"
    using assms not_le by blast
  then show ?thesis
  proof cases
    case 1
    then show ?thesis using gentle_id by (auto simp: decay_load_missed_def)
  next
    case 2
    then show ?thesis using gentle_zero assms by (auto simp: decay_load_missed_def)
  next
    case 3
    then have "\<exists>y. decay_load_missed x m i = Some y \<and> unat y = unat x * 1 div 2 ^ unat m" for x
      by (simp add: decay_load_missed_def unat_drop_bit_div)
    then show ?thesis using gentle_scale [of 1 "2 ^ unat m"] by (metis one_le_power one_le_numeral zero_less_numeral zero_less_power)
  next
    case 4
    then have "unat m < 2 ^ length (degrade_factor ! i)" using degrade_row(2,3) [OF 4(3)] by (simp add: word_less_nat_alt)
    then obtain g where "gentle g" "\<forall>x. unat x < 144115188075855872 \<longrightarrow> (\<exists>y. decay_ticks (degrade_factor ! i) m x = Some y \<and> unat y = g (unat x))"
      using decay_ticks_gentle [OF degrade_row(1) [OF 4(3)]] by blast
    moreover have "decay_load_missed x m i = decay_ticks (degrade_factor ! i) m x" for x
      using 4 by (auto simp: decay_load_missed_def not_le)
    ultimately show ?thesis by auto
  qed
qed

text \<open>The load corrected for the ticks missed: between \<open>0\<close> and the bound, without wrapping.\<close>

lemma load_average_bounded:
  assumes "i \<in> {1, 2, 3, 4}" "unat t \<le> B" "unat L \<le> B" "unat x \<le> B" "B < 144115188075855872"
  shows "\<exists>y. load_average t L p i x = Some y \<and> unat y \<le> B"
proof -
  obtain g where g: "gentle g"
    "\<And>x. unat x < 144115188075855872 \<Longrightarrow> \<exists>y. decay_load_missed x (p - 1) i = Some y \<and> unat y = g (unat x)"
    using decay_load_missed_gentle [OF assms(1)] by blast
  obtain a where a: "decay_load_missed x (p - 1) i = Some a" "unat a = g (unat x)" using g(2) [of x] assms by auto
  obtain b where b: "decay_load_missed t (p - 1) i = Some b" "unat b = g (unat t)" using g(2) [of t] assms by auto
  have le: "unat a \<le> unat x" "unat b \<le> unat t" using g(1) a b by (simp_all add: gentle_def)
  have small: "unat a + (unat t - unat b) \<le> B"
  proof (cases "unat x \<le> unat t")
    case True
    then have "unat a \<le> unat b" using g(1) a b unfolding gentle_def by (metis le_Suc_ex)
    then show ?thesis using le assms(2) by linarith
  next
    case False
    then have "unat a \<le> unat b + (unat x - unat t)" using g(1) a b unfolding gentle_def by (metis le_add_diff_inverse nat_le_linear)
    then show ?thesis using False le assms(4) by linarith
  qed
  have "unat (t - b) = unat t - unat b" using le(2) by (simp add: unat_sub word_le_nat_alt)
  then have "unat (a + (t - b)) = unat a + (unat t - unat b)" using small assms(5) by (simp add: unat_plus_u64)
  then have w: "unat (a - b + t) \<le> B" using small by (simp add: algebra_simps)
  have s: "unat y \<le> B \<Longrightarrow> unat (drop_bit i (y * (2 ^ i - 1) + (if L > y then L + (2 ^ i - 1) else L))) \<le> B" for y
    using average_unat [of i y L] step_distance(2) [of "2 ^ i" "unat L" "unat y"] assms(1,3,5) by (auto simp: max_def split: if_splits)
  show ?thesis
  proof (cases "t = 0")
    case True
    then show ?thesis using a s [of a] le assms by (simp add: load_average_def)
  next
    case False
    then show ?thesis using a b s [OF w] by (simp add: load_average_def)
  qed
qed

text \<open>However many ticks were missed, an update of the load averages of a cpu returns and no average exceeds
  the largest of the old averages and the new load: the decay of the average and the decay of the tickless load
  that is taken off it never cross, so the subtraction of the code does not wrap below zero.\<close>
theorem cpu_load_bounded:
  assumes "\<forall>r. cpu_load (A r) = cpu_load r"
    and "loads_below B (cpu_load (rq_at s u))" and "unat L \<le> B" and "B < 144115188075855872"
  shows "\<exists>s'. cpu_loads_update A u L pending s = Some s' \<and> loads_below B (cpu_load (rq_at s' u))
    \<and> cpu_load (rq_at s' u) ! 0 = L"
proof -
  let ?C = "cpu_load (rq_at s u)"
  have av: "\<exists>y. load_average (?C ! 0) L pending i (?C ! i) = Some y \<and> unat y \<le> B" if "i \<in> {1, 2, 3, 4}" for i
    using load_average_bounded [OF that] loads_below_nth [OF assms(2)] that assms(3,4) by auto
  obtain a b c d where
    "load_average (?C ! 0) L pending 1 (?C ! 1) = Some a" "unat a \<le> B" "load_average (?C ! 0) L pending 2 (?C ! 2) = Some b" "unat b \<le> B"
    "load_average (?C ! 0) L pending 3 (?C ! 3) = Some c" "unat c \<le> B" "load_average (?C ! 0) L pending 4 (?C ! 4) = Some d" "unat d \<le> B"
    using av [of 1] av [of 2] av [of 3] av [of 4] by auto
  then show ?thesis using assms(1,3) by (simp add: cpu_loads_update_def upd_rq_def loads_below_def)
qed

theorem cpu_load_bounded_witness:
  "\<exists>s'. cpu_loads_update id 0 1000 7 zero_state = Some s' \<and> loads_below 1000 (cpu_load (rq_at s' 0))"
  using cpu_load_bounded [of id 1000 zero_state 0 1000 7] by (auto simp: loads_below_def zero_defs)

end
