(* ===== verification/H_Load.thy ===== *)
theory H_Load
  imports Cpu_Load
begin

text \<open>
  The walk that computes hierarchical loads comes back: up from a runqueue it leaves a trail of entities, and down
  the trail it ends at the runqueue it started from.
\<close>

section \<open>Hierarchies\<close>

text \<open>The entity that stands for a runqueue in the runqueue above, and the walk to the top within \<open>n\<close> steps.\<close>

definition owner :: "cfs_id \<Rightarrow> kstate \<Rightarrow> se_id option" where
  "owner c s = tg_se (tg_at s (cfs_tg (cfs_at s c))) (rq_cpu (cfs_at s c))"

fun climbs :: "nat \<Rightarrow> se_id option \<Rightarrow> kstate \<Rightarrow> bool" where
  "climbs _ None s = True"
| "climbs 0 (Some i) s = False"
| "climbs (Suc n) (Some i) s = climbs n (parent (se_at s i)) s"

definition nesting_ok :: "nat \<Rightarrow> kstate \<Rightarrow> bool" where
  "nesting_ok n s \<longleftrightarrow>
     (\<forall>i. parent (se_at s i) = owner (se_cfs_rq (se_at s i)) s)
     \<and> (\<forall>c i. owner c s = Some i \<longrightarrow> my_q (se_at s i) = Some c)
     \<and> (\<forall>c. climbs n (owner c s) s) \<and> (\<forall>c. load_avg (cfs_avg (cfs_at s c)) + 1 \<noteq> 0)"

text \<open>What the walk leaves alone.\<close>

definition h_load_frame :: "kstate \<Rightarrow> kstate \<Rightarrow> bool" where
  "h_load_frame s s' \<longleftrightarrow> se_at s' = se_at s \<and> tg_at s' = tg_at s \<and> rq_at s' = rq_at s \<and> task_at s' = task_at s \<and> jiffies s' = jiffies s
     \<and> (\<forall>c. cfs_avg (cfs_at s' c) = cfs_avg (cfs_at s c) \<and> cfs_tg (cfs_at s' c) = cfs_tg (cfs_at s c)
          \<and> rq_cpu (cfs_at s' c) = rq_cpu (cfs_at s c))"

lemma frame_refl [simp]: "h_load_frame s s"
  by (simp add: h_load_frame_def)

lemma frame_trans: "h_load_frame s t \<Longrightarrow> h_load_frame t r \<Longrightarrow> h_load_frame s r"
  by (simp add: h_load_frame_def)

lemma frame_upd:
  assumes "\<And>q. cfs_avg (f q) = cfs_avg q \<and> cfs_tg (f q) = cfs_tg q \<and> rq_cpu (f q) = rq_cpu q"
  shows "h_load_frame s (upd_cfs c f s)"
  using assms by (simp add: h_load_frame_def upd_cfs_def)

lemma frame_owner: "h_load_frame s s' \<Longrightarrow> owner c s' = owner c s"
  by (simp add: h_load_frame_def owner_def)

lemma frame_climbs: "h_load_frame s s' \<Longrightarrow> climbs n p s' = climbs n p s"
  by (induction n p s rule: climbs.induct) (simp_all add: h_load_frame_def)

lemma frame_ok: "h_load_frame s s' \<Longrightarrow> nesting_ok n s' = nesting_ok n s"
  by (simp add: nesting_ok_def frame_owner frame_climbs) (simp add: h_load_frame_def)

section \<open>Levels\<close>

definition level :: "cfs_id \<Rightarrow> kstate \<Rightarrow> nat" where
  "level c s = (LEAST m. climbs m (owner c s) s)"

lemma level_above:
  assumes "nesting_ok n s" "owner c s = Some i"
  shows "level (se_cfs_rq (se_at s i)) s < level c s"
proof -
  have p: "parent (se_at s i) = owner (se_cfs_rq (se_at s i)) s" and "climbs n (owner c s) s"
    using assms(1) by (simp_all add: nesting_ok_def)
  then have "climbs (level c s) (owner c s) s" unfolding level_def by (metis LeastI)
  then obtain m where m: "level c s = Suc m" "climbs m (owner (se_cfs_rq (se_at s i)) s) s"
    using assms(2) p by (cases "level c s") auto
  then have "level (se_cfs_rq (se_at s i)) s \<le> m" unfolding level_def by (metis Least_le)
  then show ?thesis using m(1) by simp
qed

section \<open>The trail\<close>

text \<open>From \<open>c\<close> down \<open>k\<close> steps to \<open>c0\<close>, through runqueues of level at least \<open>h\<close>.\<close>

fun trail :: "nat \<Rightarrow> cfs_id \<Rightarrow> cfs_id \<Rightarrow> nat \<Rightarrow> kstate \<Rightarrow> bool" where
  "trail h c c0 0 s \<longleftrightarrow> c = c0 \<and> h_load_next (cfs_at s c) = None \<and> h \<le> level c s"
| "trail h c c0 (Suc k) s \<longleftrightarrow>
     (\<exists>i g. h_load_next (cfs_at s c) = Some i \<and> my_q (se_at s i) = Some g \<and> h \<le> level c s \<and> trail h g c0 k s)"

lemma frame_level: "h_load_frame s s' \<Longrightarrow> level c s' = level c s"
  by (simp add: level_def frame_owner frame_climbs)

lemma trail_mono: "trail h c c0 k s \<Longrightarrow> h' \<le> h \<Longrightarrow> trail h' c c0 k s"
  by (induction k arbitrary: c) auto

lemma trail_frame:
  assumes "h_load_frame s s'" "\<And>d. h \<le> level d s \<Longrightarrow> h_load_next (cfs_at s' d) = h_load_next (cfs_at s d)" "trail h c c0 k s"
  shows "trail h c c0 k s'"
  using assms(3)
proof (induction k arbitrary: c)
  case 0
  then show ?case using assms(2) [of c] by (auto simp: frame_level [OF assms(1)])
next
  case (Suc k)
  have "my_q (se_at s' i) = my_q (se_at s i)" for i using assms(1) by (simp add: h_load_frame_def)
  then show ?case using Suc assms(2) [of c] by (auto simp: frame_level [OF assms(1)])
qed

lemma up_trail:
  assumes "nesting_ok m s" "climbs n (owner c s) s" "trail (level c s) c c0 k s"
  shows "\<exists>top c' s' k'. h_load_up n (owner c s) c s = Some (top, c', s') \<and> h_load_frame s s' \<and> trail 0 c' c0 k' s' \<and> k' \<le> k + n
    \<and> (top \<or> last_h_load_update (cfs_at s' c') = jiffies s')"
  using assms
proof (induction n arbitrary: c s k)
  case 0
  then have "owner c s = None" by (cases "owner c s") auto
  moreover have "trail 0 c c0 k s" using 0(3) trail_mono by blast
  ultimately show ?case by auto
next
  case (Suc n)
  show ?case
  proof (cases "owner c s")
    case None
    moreover have "trail 0 c c0 k s" using Suc.prems(3) trail_mono by blast
    moreover have "k \<le> k + Suc n" by simp
    ultimately show ?thesis by (metis h_load_up.simps(1) frame_refl)
  next
    case (Some i)
    define d where "d = se_cfs_rq (se_at s i)"
    define s1 where "s1 = upd_cfs d (\<lambda>q. q\<lparr>h_load_next := Some i\<rparr>) s"
    have f: "h_load_frame s s1" unfolding s1_def by (intro frame_upd) simp
    have h: "level d s < level c s" unfolding d_def by (rule level_above [OF Suc.prems(1) Some])
    have "h_load_next (cfs_at s1 e) = h_load_next (cfs_at s e)" if "level c s \<le> level e s" for e
      using h that by (auto simp: s1_def upd_cfs_def)
    then have t: "trail (level c s) c c0 k s1" using trail_frame [OF f _ Suc.prems(3)] by blast
    have q: "my_q (se_at s1 i) = Some c" "h_load_next (cfs_at s1 d) = Some i"
      using Suc.prems(1) Some by (simp_all add: nesting_ok_def s1_def upd_cfs_def)
    have "trail (level d s) d c0 (Suc k) s1"
      using q h trail_mono [OF t, of "level d s"] by (simp add: frame_level [OF f])
    then have t1: "trail (level d s1) d c0 (Suc k) s1" by (simp only: frame_level [OF f])
    have p: "parent (se_at s i) = owner d s1"
      using Suc.prems(1) unfolding d_def frame_owner [OF f] by (simp add: nesting_ok_def)
    have p1: "parent (se_at s1 i) = owner d s1" using p by (simp add: s1_def upd_cfs_def)
    show ?thesis
    proof (cases "last_h_load_update (cfs_at s1 d) = jiffies s1")
      case True
      have "h_load_up (Suc n) (owner c s) c s = Some (False, d, s1)"
        using True Some by (simp add: Let_def d_def [symmetric] s1_def [symmetric])
      then show ?thesis using f trail_mono [OF t1, of 0] True by (metis add_Suc_right add_Suc_shift le_add1 zero_le)
    next
      case False
      have "climbs n (owner d s1) s1" using Suc.prems(2) Some p by (simp add: frame_climbs [OF f])
      then obtain top c' s' k' where r: "h_load_up n (owner d s1) d s1 = Some (top, c', s')" "h_load_frame s1 s'"
        "trail 0 c' c0 k' s'" "k' \<le> Suc k + n" "top \<or> last_h_load_update (cfs_at s' c') = jiffies s'"
        using Suc.IH [of s1 d "Suc k"] Suc.prems(1) t1 by (auto simp: frame_ok [OF f])
      have "h_load_up (Suc n) (owner c s) c s = Some (top, c', s')"
        using r(1) False Some by (simp add: Let_def d_def [symmetric] s1_def [symmetric] p1)
      then show ?thesis using r frame_trans [OF f r(2)] by auto
    qed
  qed
qed

lemma down_trail:
  assumes "\<forall>c. load_avg (cfs_avg (cfs_at s c)) + 1 \<noteq> 0" "trail h c c0 k s" "k \<le> n"
    "last_h_load_update (cfs_at s c) = jiffies s"
  shows "\<exists>s'. h_load_down n c s = Some s' \<and> h_load_frame s s' \<and> last_h_load_update (cfs_at s' c0) = jiffies s'"
  using assms
proof (induction k arbitrary: n c s)
  case 0
  then show ?case by (auto simp: h_load_down.simps)
next
  case (Suc k)
  then obtain m where m: "n = Suc m" "k \<le> m" by (cases n) auto
  obtain i g where g: "h_load_next (cfs_at s c) = Some i" "my_q (se_at s i) = Some g" "trail h g c0 k s" using Suc.prems(2) by auto
  define l where "l = h_load (cfs_at s c) * load_avg (se_avg (se_at s i)) div (load_avg (cfs_avg (cfs_at s c)) + 1)"
  define s1 where "s1 = upd_cfs g (\<lambda>q. q\<lparr>h_load := l, last_h_load_update := jiffies s\<rparr>) s"
  have f: "h_load_frame s s1" unfolding s1_def by (intro frame_upd) simp
  have "h_load_next (cfs_at s1 e) = h_load_next (cfs_at s e)" for e by (simp add: s1_def upd_cfs_def)
  then have "trail h g c0 k s1" using trail_frame [OF f _ g(3)] by blast
  moreover have "\<forall>c. load_avg (cfs_avg (cfs_at s1 c)) + 1 \<noteq> 0" using f Suc.prems(1) by (simp add: h_load_frame_def)
  moreover have "last_h_load_update (cfs_at s1 g) = jiffies s1" by (simp add: s1_def upd_cfs_def)
  ultimately obtain s' where s': "h_load_down m g s1 = Some s'" "h_load_frame s1 s'" "last_h_load_update (cfs_at s' c0) = jiffies s'"
    using Suc.IH m(2) by blast
  have "h_load_down n c s = h_load_down m g s1"
    using g(1,2) m(1) Suc.prems(1) by (subst h_load_down.simps) (simp add: Let_def l_def [symmetric] s1_def)
  then show ?case using s' frame_trans [OF f] by auto
qed

lemma update_h_load_returns:
  assumes "nesting_ok n s"
  shows "\<exists>s'. update_cfs_rq_h_load n c s = Some s' \<and> h_load_frame s s' \<and> last_h_load_update (cfs_at s' c) = jiffies s'"
proof (cases "last_h_load_update (cfs_at s c) = jiffies s")
  case False
  define s1 where "s1 = upd_cfs c (\<lambda>q. q\<lparr>h_load_next := None\<rparr>) s"
  have f: "h_load_frame s s1" unfolding s1_def by (intro frame_upd) simp
  have ok: "nesting_ok n s1" using assms by (simp add: frame_ok [OF f])
  then have "climbs n (owner c s1) s1" by (simp add: nesting_ok_def)
  moreover have "trail (level c s1) c c 0 s1" by (simp add: s1_def upd_cfs_def)
  ultimately obtain top c' s2 k where r: "h_load_up n (owner c s1) c s1 = Some (top, c', s2)" "h_load_frame s1 s2"
    "trail 0 c' c k s2" "k \<le> 0 + n" "top \<or> last_h_load_update (cfs_at s2 c') = jiffies s2"
    using up_trail [OF ok] by blast
  define s3 where "s3 = (if top then upd_cfs c' (\<lambda>q. q\<lparr>h_load := load_avg (cfs_avg q), last_h_load_update := jiffies s2\<rparr>) s2 else s2)"
  have f3: "h_load_frame s2 s3" unfolding s3_def by (auto intro: frame_upd)
  have "h_load_next (cfs_at s3 e) = h_load_next (cfs_at s2 e)" for e by (simp add: s3_def upd_cfs_def)
  then have "trail 0 c' c k s3" using trail_frame [OF f3 _ r(3)] by blast
  moreover have f03: "h_load_frame s s3" by (rule frame_trans [OF f frame_trans [OF r(2) f3]])
  moreover have "\<forall>c. load_avg (cfs_avg (cfs_at s3 c)) + 1 \<noteq> 0" using f03 assms by (simp add: nesting_ok_def h_load_frame_def)
  moreover have "last_h_load_update (cfs_at s3 c') = jiffies s3" using r(5) by (auto simp: s3_def upd_cfs_def)
  ultimately obtain s4 where s4: "h_load_down n c' s3 = Some s4" "h_load_frame s3 s4" "last_h_load_update (cfs_at s4 c) = jiffies s4"
    using down_trail r(4) by (metis add_0)
  have "tg_se (tg_at s (cfs_tg (cfs_at s c))) (rq_cpu (cfs_at s c)) = owner c s1" by (simp add: frame_owner [OF f]) (simp add: owner_def)
  then have "update_cfs_rq_h_load n c s = h_load_down n c' s3"
    using False r(1) by (simp add: update_cfs_rq_h_load_def Let_def s1_def [symmetric] s3_def)
  then show ?thesis using s4 frame_trans [OF f03] by auto
qed (simp add: update_cfs_rq_h_load_def)

lemma task_h_load_returns:
  assumes "nesting_ok n s"
  shows "\<exists>l s'. task_h_load n i s = Some (l, s') \<and> h_load_frame s s'"
proof -
  obtain s' where s': "update_cfs_rq_h_load n (se_cfs_rq (se_at s i)) s = Some s'" "h_load_frame s s'"
    using update_h_load_returns [OF assms] by blast
  then have "load_avg (cfs_avg (cfs_at s' (se_cfs_rq (se_at s i)))) + 1 \<noteq> 0"
    using assms by (simp add: nesting_ok_def h_load_frame_def)
  then show ?thesis using s' by (simp add: task_h_load_def Let_def)
qed

section \<open>The claim\<close>

text \<open>C17: in a hierarchy of at most \<open>n\<close> levels \<open>task_h_load\<close> returns: the walk up the groups and back down the trail
  it left ends at the runqueue of the task, whose hierarchical load is then that of this jiffy, and the load of the
  task is its share of it; entities, groups, runqueues, tasks and load averages are untouched.\<close>
theorem hierarchical_load_returns:
  assumes "nesting_ok n s"
  shows "\<exists>l s'. task_h_load n i s = Some (l, s') \<and> h_load_frame s s'
    \<and> (let c = se_cfs_rq (se_at s i) in last_h_load_update (cfs_at s' c) = jiffies s
         \<and> l = load_avg (se_avg (se_at s i)) * h_load (cfs_at s' c) div (load_avg (cfs_avg (cfs_at s c)) + 1))"
proof -
  obtain s' where s': "update_cfs_rq_h_load n (se_cfs_rq (se_at s i)) s = Some s'" "h_load_frame s s'"
    "last_h_load_update (cfs_at s' (se_cfs_rq (se_at s i))) = jiffies s'"
    using update_h_load_returns [OF assms] by blast
  then have "load_avg (cfs_avg (cfs_at s' (se_cfs_rq (se_at s i)))) + 1 \<noteq> 0"
    using assms by (simp add: nesting_ok_def h_load_frame_def)
  then show ?thesis using s' by (simp add: task_h_load_def Let_def h_load_frame_def)
qed

text \<open>Task 7 on runqueue 1 of a group, whose entity 3 is on the top runqueue 0.\<close>

definition grouped :: kstate where
  "grouped = zero_state\<lparr>
     se_at := (\<lambda>i. if i = 3 then zero_se\<lparr>my_q := Some 1\<rparr> else zero_se\<lparr>parent := Some 3, se_cfs_rq := 1\<rparr>),
     cfs_at := (\<lambda>c. zero_cfs\<lparr>cfs_tg := (if c = 1 then 1 else 0)\<rparr>),
     tg_at := (\<lambda>g. zero_tg\<lparr>tg_se := (\<lambda>_. if g = 1 then Some 3 else None)\<rparr>), jiffies := 5\<rparr>"

theorem hierarchical_load_returns_witness:
  "\<exists>l s'. task_h_load 1 7 grouped = Some (l, s') \<and> last_h_load_update (cfs_at s' 1) = 5"
proof -
  have o: "owner c grouped = (if c = 1 then Some 3 else None)" for c
    by (simp add: owner_def grouped_def zero_defs)
  have "climbs 1 (owner c grouped) grouped" for c unfolding o by (simp add: grouped_def zero_defs)
  then have "nesting_ok 1 grouped" unfolding nesting_ok_def o by (simp add: grouped_def zero_defs)
  from hierarchical_load_returns [OF this, of 7] show ?thesis
    by (auto simp: Let_def grouped_def zero_defs)
qed

end
