(* ===== verification/Domains.thy ===== *)
theory Domains
  imports Cpu_Load
begin

text \<open>
  Scheduling domains and groups (\<open>include/linux/sched.h\<close>, \<open>kernel/sched/sched.h\<close>), the fields of a runqueue
  that balancing uses, and the capacity of groups, \<open>kernel/sched/fair.c\<close> lines 8490--8535, 9058--9195 and
  10411--10437. Masks of cpus are lists in increasing order; the groups of a domain, a ring in the code, are the
  list that starts at \<open>sd->groups\<close>, the group of the cpu the domain belongs to.
\<close>

section \<open>Data\<close>

type_synonym sd_id = nat

datatype cpu_idle_type = CPU_IDLE | CPU_NOT_IDLE | CPU_NEWLY_IDLE

datatype fbq_type = regular | remote | all

datatype group_type = group_other | group_misfit_task | group_imbalanced | group_overloaded

text \<open>The states of a group in the energy model: the power of each idle state, and capacity and power of each active one.\<close>

record sched_group_energy =
  idle_states :: "ulong list"
  cap_states :: "(ulong \<times> ulong) list"

record sched_group =
  sched_group_cpus :: "cpu list"
  sg_weight :: u32
  sg_sgc :: nat
  sg_sge :: "sched_group_energy option"

record sched_domain =
  sd_parent :: "sd_id option"
  sd_child :: "sd_id option"
  sd_groups :: "sched_group list"
  sd_span :: "cpu list"
  sd_flags :: u32
  min_interval :: ulong
  max_interval :: ulong
  busy_factor :: u32
  imbalance_pct :: u32
  cache_nice_tries :: u32
  busy_idx :: u32
  idle_idx :: u32
  newidle_idx :: u32
  wake_idx :: u32
  forkexec_idx :: u32
  nohz_idle :: bool
  last_balance :: ulong
  balance_interval :: u32
  nr_balance_failed :: u32
  max_newidle_lb_cost :: u64
  next_decay_max_lb_cost :: ulong
  avg_scan_cost :: u64
  span_weight :: u32

definition SD_LOAD_BALANCE :: u32 where "SD_LOAD_BALANCE = 0x0001"
definition SD_BALANCE_NEWIDLE :: u32 where "SD_BALANCE_NEWIDLE = 0x0002"
definition SD_BALANCE_WAKE :: u32 where "SD_BALANCE_WAKE = 0x0010"
definition SD_WAKE_AFFINE :: u32 where "SD_WAKE_AFFINE = 0x0020"
definition SD_ASYM_CPUCAPACITY :: u32 where "SD_ASYM_CPUCAPACITY = 0x0040"
definition SD_SERIALIZE :: u32 where "SD_SERIALIZE = 0x0400"
definition SD_ASYM_PACKING :: u32 where "SD_ASYM_PACKING = 0x0800"
definition SD_PREFER_SIBLING :: u32 where "SD_PREFER_SIBLING = 0x1000"
definition SD_OVERLAP :: u32 where "SD_OVERLAP = 0x2000"
definition SD_NUMA :: u32 where "SD_NUMA = 0x4000"

definition has_flag :: "u32 \<Rightarrow> sched_domain \<Rightarrow> bool" where
  "has_flag f d \<longleftrightarrow> sd_flags d AND f \<noteq> 0"

text \<open>The fields of \<open>struct rq\<close> for balancing; the two bits are those of \<open>nohz_flags\<close>,
  and the exit latency is that of the idle state the cpu is in, if any.\<close>

record rq_balance =
  rq_sd :: "sd_id option"
  idle_balance_flag :: bool
  active_balance :: bool
  push_cpu :: cpu
  idle_stamp :: u64
  avg_idle :: u64
  max_idle_balance_cost :: u64
  rq_next_balance :: ulong
  nohz_tick_stopped :: bool
  nohz_balance_kick :: bool
  idle_state_idx :: "32 word"
  idle_exit_latency :: "u32 option"

text \<open>\<open>nohz\<close>, the file's static.\<close>

record nohz_state =
  idle_cpus_mask :: "cpu list"
  nr_idle_cpus :: int
  nohz_next_balance :: ulong

text \<open>
  The state of balancing: the kernel state, the domains and the shortcuts to them of every cpu, the number of busy cpus per shared cache, and traces of
  the stopper works queued, of the interrupts sent and of the softirqs raised. \<open>clock_reads\<close> counts the readings
  of the clock, each of which may differ.
\<close>

record lb_state =
  ks :: kstate
  sd_at :: "sd_id \<Rightarrow> sched_domain"
  rqb_at :: "cpu \<Rightarrow> rq_balance"
  nohz :: nohz_state
  sd_llc :: "cpu \<Rightarrow> sd_id option"
  sd_llc_shared :: "cpu \<Rightarrow> nat option"
  sd_asym :: "cpu \<Rightarrow> sd_id option"
  sd_ea :: "cpu \<Rightarrow> sd_id option"
  sd_scs :: "cpu \<Rightarrow> sd_id option"
  sd_shared :: "sd_id \<Rightarrow> nat"
  nr_busy_cpus :: "nat \<Rightarrow> int"
  max_load_balance_interval :: ulong
  stop_works :: "(cpu \<times> cpu) list"
  reschedule_ipis :: "cpu list"
  softirqs :: "cpu list"
  clock_reads :: nat

text \<open>
  What balancing calls outside the repository. \<open>deactivate_task\<close>, \<open>activate_task\<close>, \<open>set_task_cpu\<close> and
  \<open>check_preempt_curr\<close> are the core's; \<open>spin_trylock\<close> says whether the lock \<open>balancing\<close> is free at the visit of a
  domain, \<open>lb_clock\<close> gives the reading of a number, and \<open>config_preempt\<close> is \<open>CONFIG_PREEMPT\<close>.
\<close>

record lb_api =
  deactivate_task :: "cpu \<Rightarrow> se_id \<Rightarrow> kstate \<Rightarrow> kstate option"
  activate_task :: "cpu \<Rightarrow> se_id \<Rightarrow> kstate \<Rightarrow> kstate option"
  set_task_cpu :: "se_id \<Rightarrow> cpu \<Rightarrow> kstate \<Rightarrow> kstate option"
  check_preempt_curr :: "cpu \<Rightarrow> se_id \<Rightarrow> kstate \<Rightarrow> kstate option"
  idle_cpu :: "cpu \<Rightarrow> kstate \<Rightarrow> bool"
  sched_avg_update :: "rq \<Rightarrow> rq"
  msecs_to_jiffies :: "ulong \<Rightarrow> ulong"
  ticks_per_second :: u32
  num_online_cpus :: u32
  nr_cpu_ids :: nat
  sysctl_sched_nr_migrate :: u32
  cpu_active_mask :: "cpu list"
  cpu_online_mask :: "cpu list"
  cpus_share_cache :: "cpu \<Rightarrow> cpu \<Rightarrow> bool"
  sd_llc_size :: "cpu \<Rightarrow> u32"
  group_balance_cpu :: "sched_group \<Rightarrow> cpu"
  need_resched :: "lb_state \<Rightarrow> bool"
  spin_trylock :: "sd_id \<Rightarrow> bool"
  lb_clock :: "nat \<Rightarrow> u64"
  config_preempt :: bool

definition upd_sd :: "sd_id \<Rightarrow> (sched_domain \<Rightarrow> sched_domain) \<Rightarrow> lb_state \<Rightarrow> lb_state" where
  "upd_sd d f b = b\<lparr>sd_at := (sd_at b)(d := f (sd_at b d))\<rparr>"

definition upd_rqb :: "cpu \<Rightarrow> (rq_balance \<Rightarrow> rq_balance) \<Rightarrow> lb_state \<Rightarrow> lb_state" where
  "upd_rqb u f b = b\<lparr>rqb_at := (rqb_at b)(u := f (rqb_at b u))\<rparr>"

definition upd_sgc :: "nat \<Rightarrow> (sched_group_capacity \<Rightarrow> sched_group_capacity) \<Rightarrow> kstate \<Rightarrow> kstate" where
  "upd_sgc g f s = s\<lparr>sg_capacity_at := (sg_capacity_at s)(g := f (sg_capacity_at s g))\<rparr>"

text \<open>An operation on the kernel state that may fail.\<close>

definition on_kernel :: "(kstate \<Rightarrow> kstate option) \<Rightarrow> lb_state \<Rightarrow> lb_state option" where
  "on_kernel f b = do { s \<leftarrow> f (ks b); Some (b\<lparr>ks := s\<rparr>) }"

definition sgc_of :: "sched_group \<Rightarrow> kstate \<Rightarrow> sched_group_capacity" where
  "sgc_of g s = sg_capacity_at s (sg_sgc g)"

definition first_group :: "sched_domain \<Rightarrow> sched_group option" where
  "first_group d = (case sd_groups d of [] \<Rightarrow> None | g # _ \<Rightarrow> Some g)"

text \<open>\<open>cpumask_first\<close> of an empty mask is \<open>nr_cpu_ids\<close>.\<close>

definition group_first_cpu :: "lb_api \<Rightarrow> sched_group \<Rightarrow> cpu" where
  "group_first_cpu A g = (case sched_group_cpus g of [] \<Rightarrow> nr_cpu_ids A | u # _ \<Rightarrow> u)"

definition time_after :: "ulong \<Rightarrow> ulong \<Rightarrow> bool" where
  "time_after a b \<longleftrightarrow> sint (b - a) < 0"

definition time_after_eq :: "ulong \<Rightarrow> ulong \<Rightarrow> bool" where
  "time_after_eq a b \<longleftrightarrow> sint (a - b) \<ge> 0"

text \<open>\<open>lb_sd_parent\<close>: a parent of more than one group.\<close>

definition lb_sd_parent :: "sched_domain \<Rightarrow> lb_state \<Rightarrow> sd_id option" where
  "lb_sd_parent d b =
     (case sd_parent d of None \<Rightarrow> None | Some p \<Rightarrow> if length (sd_groups (sd_at b p)) > 1 then Some p else None)"

text \<open>The domains of a cpu, from the lowest.\<close>

fun domain_chain :: "nat \<Rightarrow> sd_id option \<Rightarrow> lb_state \<Rightarrow> sd_id list option" where
  "domain_chain _ None b = Some []"
| "domain_chain 0 (Some d) b = None"
| "domain_chain (Suc n) (Some d) b = do { ds \<leftarrow> domain_chain n (sd_parent (sd_at b d)) b; Some (d # ds) }"

section \<open>Intervals\<close>

definition get_sd_load_idx :: "sched_domain \<Rightarrow> cpu_idle_type \<Rightarrow> nat" where
  "get_sd_load_idx d ty =
     (case ty of CPU_NOT_IDLE \<Rightarrow> unat (busy_idx d) | CPU_NEWLY_IDLE \<Rightarrow> unat (newidle_idx d) | CPU_IDLE \<Rightarrow> unat (idle_idx d))"

definition clamp :: "ulong \<Rightarrow> ulong \<Rightarrow> ulong \<Rightarrow> ulong" where
  "clamp v lo hi = min (max v lo) hi"

definition get_sd_balance_interval :: "lb_api \<Rightarrow> sched_domain \<Rightarrow> bool \<Rightarrow> lb_state \<Rightarrow> ulong" where
  "get_sd_balance_interval A d cpu_busy b =
     (let interval = ucast (balance_interval d);
          interval = (if cpu_busy then interval * ucast (busy_factor d) else interval)
      in clamp (msecs_to_jiffies A interval) 1 (max_load_balance_interval b))"

definition update_next_balance :: "lb_api \<Rightarrow> sched_domain \<Rightarrow> ulong \<Rightarrow> lb_state \<Rightarrow> ulong" where
  "update_next_balance A d next_balance b =
     (let nxt = last_balance d + get_sd_balance_interval A d False b
      in if time_after next_balance nxt then nxt else next_balance)"

definition update_max_interval :: "lb_api \<Rightarrow> lb_state \<Rightarrow> lb_state" where
  "update_max_interval A b = b\<lparr>max_load_balance_interval := ucast (ticks_per_second A * num_online_cpus A div 10)\<rparr>"

section \<open>Capacity of groups\<close>

definition init_max_cpu_capacity :: "root_domain \<Rightarrow> root_domain" where
  "init_max_cpu_capacity d = d\<lparr>max_cpu_capacity_val := 0, max_cpu_capacity_cpu := - 1\<rparr>"

definition update_cpu_capacity :: "kapi \<Rightarrow> sched_domain \<Rightarrow> cpu \<Rightarrow> kstate \<Rightarrow> kstate option" where
  "update_cpu_capacity K d u s = do {
     g \<leftarrow> first_group d;
     let capacity = arch_scale_cpu_capacity K u;
     let s = upd_rq u (\<lambda>r. r\<lparr>cpu_capacity_orig := capacity\<rparr>) s;
     let m = root_domain_of u s;
     let s = (if max_cpu_capacity_val m > capacity \<and> max_cpu_capacity_cpu m = int u \<or> max_cpu_capacity_val m < capacity
              then upd_rd u (\<lambda>m. m\<lparr>max_cpu_capacity_val := capacity, max_cpu_capacity_cpu := int u\<rparr>) s else s);
     share \<leftarrow> scale_rt_capacity u s;
     let capacity = drop_bit 10 (capacity * share);
     let capacity = (if capacity = 0 then 1 else capacity);
     let s = upd_rq u (\<lambda>r. r\<lparr>cpu_capacity := capacity\<rparr>) s;
     Some (upd_sgc (sg_sgc g) (\<lambda>c. c\<lparr>capacity := capacity, max_capacity := capacity, min_capacity := capacity\<rparr>) s)
   }"

text \<open>The sums over the cpus of an overlapping child, and over the groups of another. The first compares the sum so far.\<close>

fun overlap_capacity :: "cpu list \<Rightarrow> ulong \<times> ulong \<times> ulong \<Rightarrow> lb_state \<Rightarrow> (ulong \<times> ulong \<times> ulong) option" where
  "overlap_capacity [] a b = Some a"
| "overlap_capacity (u # us) (cap, hi, lo) b = do {
     cap \<leftarrow> (case rq_sd (rqb_at b u) of
                None \<Rightarrow> Some (cap + capacity_of u (ks b))
              | Some d \<Rightarrow> do { g \<leftarrow> first_group (sd_at b d); Some (cap + capacity (sgc_of g (ks b))) });
     overlap_capacity us (cap, max cap hi, min cap lo) b
   }"

fun groups_capacity :: "sched_group list \<Rightarrow> ulong \<times> ulong \<times> ulong \<Rightarrow> kstate \<Rightarrow> ulong \<times> ulong \<times> ulong" where
  "groups_capacity [] a s = a"
| "groups_capacity (g # gs) (cap, hi, lo) s =
     (let c = sgc_of g s in groups_capacity gs (cap + capacity c, max (max_capacity c) hi, min (min_capacity c) lo) s)"

definition update_group_capacity :: "lb_api \<Rightarrow> kapi \<Rightarrow> sd_id \<Rightarrow> cpu \<Rightarrow> lb_state \<Rightarrow> lb_state option" where
  "update_group_capacity A K d u b = do {
     let D = sd_at b d;
     g \<leftarrow> first_group D;
     let interval = clamp (msecs_to_jiffies A (ucast (balance_interval D))) 1 (max_load_balance_interval b);
     let b = b\<lparr>ks := upd_sgc (sg_sgc g) (\<lambda>c. c\<lparr>next_update := jiffies (ks b) + interval\<rparr>) (ks b)\<rparr>;
     case sd_child D of
       None \<Rightarrow> on_kernel (update_cpu_capacity K D u) b
     | Some c \<Rightarrow> do {
         (cap, hi, lo) \<leftarrow>
           (if has_flag SD_OVERLAP (sd_at b c) then overlap_capacity (sched_group_cpus g) (0, 0, - 1) b
            else if sd_groups (sd_at b c) = [] then None
            else Some (groups_capacity (sd_groups (sd_at b c)) (0, 0, - 1) (ks b)));
         Some (b\<lparr>ks := upd_sgc (sg_sgc g) (\<lambda>c. c\<lparr>capacity := cap, max_capacity := hi, min_capacity := lo\<rparr>) (ks b)\<rparr>)
       }
   }"

definition check_cpu_capacity :: "cpu \<Rightarrow> sched_domain \<Rightarrow> kstate \<Rightarrow> bool" where
  "check_cpu_capacity u d s \<longleftrightarrow>
     cpu_capacity (rq_at s u) * ucast (imbalance_pct d) < cpu_capacity_orig (rq_at s u) * 100"

section \<open>A blank balancing state\<close>

text \<open>One domain of two groups, each of one cpu, and a core that moves tasks between lists: the start of concrete runs.\<close>

definition two_cpus :: sched_domain where
  "two_cpus = \<lparr>sd_parent = None, sd_child = None,
     sd_groups = [\<lparr>sched_group_cpus = [1], sg_weight = 1, sg_sgc = 1, sg_sge = None\<rparr>, \<lparr>sched_group_cpus = [0], sg_weight = 1, sg_sgc = 0, sg_sge = None\<rparr>],
     sd_span = [0, 1], sd_flags = SD_LOAD_BALANCE, min_interval = 2, max_interval = 4, busy_factor = 32, imbalance_pct = 125,
     cache_nice_tries = 1, busy_idx = 0, idle_idx = 0, newidle_idx = 0, wake_idx = 0, forkexec_idx = 0, nohz_idle = False, last_balance = 0,
     balance_interval = 2, nr_balance_failed = 0, max_newidle_lb_cost = 0, next_decay_max_lb_cost = 0, avg_scan_cost = 0, span_weight = 2\<rparr>"

definition zero_rqb :: rq_balance where
  "zero_rqb = \<lparr>rq_sd = Some 0, idle_balance_flag = False, active_balance = False, push_cpu = 0, idle_stamp = 0, avg_idle = 0,
     max_idle_balance_cost = 0, rq_next_balance = 0, nohz_tick_stopped = False, nohz_balance_kick = False, idle_state_idx = - 1, idle_exit_latency = None\<rparr>"

definition balancing_state :: "kstate \<Rightarrow> lb_state" where
  "balancing_state s = \<lparr>ks = s, sd_at = (\<lambda>_. two_cpus), rqb_at = (\<lambda>_. zero_rqb),
     nohz = \<lparr>idle_cpus_mask = [], nr_idle_cpus = 0, nohz_next_balance = 0\<rparr>, sd_llc = (\<lambda>_. Some 0), sd_llc_shared = (\<lambda>_. Some 0),
     sd_asym = (\<lambda>_. None), sd_ea = (\<lambda>_. Some 0), sd_scs = (\<lambda>_. None), sd_shared = (\<lambda>_. 0), nr_busy_cpus = (\<lambda>c. if c = 0 then 1 else 0), max_load_balance_interval = 25, stop_works = [],
     reschedule_ipis = [], softirqs = [], clock_reads = 0\<rparr>"

definition plain_core :: lb_api where
  "plain_core = \<lparr>deactivate_task = (\<lambda>u i s. Some (upd_rq u (\<lambda>r. r\<lparr>cfs_tasks := remove1 i (cfs_tasks r), rq_nr_running := rq_nr_running r - 1\<rparr>) s)),
     activate_task = (\<lambda>u i s. Some (upd_rq u (\<lambda>r. r\<lparr>cfs_tasks := i # cfs_tasks r, rq_nr_running := rq_nr_running r + 1\<rparr>) s)),
     set_task_cpu = (\<lambda>i u s. Some (upd_task i (\<lambda>t. t\<lparr>task_cpu := u\<rparr>) s)), check_preempt_curr = (\<lambda>u i s. Some s),
     idle_cpu = (\<lambda>u s. rq_nr_running (rq_at s u) = 0), sched_avg_update = id, msecs_to_jiffies = (\<lambda>j. j div 4),
     ticks_per_second = 250, num_online_cpus = 2, nr_cpu_ids = 2, sysctl_sched_nr_migrate = 32, cpu_active_mask = [0, 1], cpu_online_mask = [0, 1], cpus_share_cache = (\<lambda>_ _. True), sd_llc_size = (\<lambda>_. 2),
     group_balance_cpu = (\<lambda>g. case sched_group_cpus g of [] \<Rightarrow> 2 | u # _ \<Rightarrow> u), need_resched = (\<lambda>_. False),
     spin_trylock = (\<lambda>_. True), lb_clock = (\<lambda>k. of_nat k), config_preempt = True\<rparr>"

lemmas balancing_defs = two_cpus_def zero_rqb_def balancing_state_def plain_core_def

end
