(* ===== verification/Balance_Stats.thy ===== *)
theory Balance_Stats
  imports Domains
begin

text \<open>
  Statistics of groups and domains and the search for the busiest group and queue, \<open>kernel/sched/fair.c\<close> lines
  8980--9050, 9187--9196, 9225--9330, 9350--9475 and 9477--10052, without NUMA balancing. Loads and capacities wrap at 64
  bits and \<open>None\<close> is a division by zero, a null pointer or an index out of range.
\<close>

section \<open>Data\<close>

record sg_lb_stats =
  avg_load :: ulong
  group_load :: ulong
  sum_weighted_load :: ulong
  load_per_task :: ulong
  group_capacity :: ulong
  group_util :: ulong
  sum_nr_running :: u32
  idle_cpus :: u32
  group_weight :: u32
  stats_type :: group_type
  group_no_capacity :: bool
  misfit_capacity :: u32

record sd_lb_stats =
  busiest :: "sched_group option"
  local :: "sched_group option"
  total_load :: ulong
  total_capacity :: ulong
  sds_avg_load :: ulong
  busiest_stat :: sg_lb_stats
  local_stat :: sg_lb_stats

text \<open>The environment; \<open>src_rq\<close> and \<open>dst_rq\<close> are the runqueues of \<open>src_cpu\<close> and \<open>dst_cpu\<close>.\<close>

record lb_env =
  lb_sd :: sd_id
  src_cpu :: cpu
  dst_cpu :: cpu
  dst_grpmask :: "cpu list option"
  new_dst_cpu :: cpu
  lb_idle :: cpu_idle_type
  lb_imbalance :: s64
  src_grp_nr_running :: u32
  lb_cpus :: "cpu list"
  LBF_ALL_PINNED :: bool
  LBF_NEED_BREAK :: bool
  LBF_DST_PINNED :: bool
  LBF_SOME_PINNED :: bool
  loop :: u32
  loop_break :: u32
  loop_max :: u32
  lb_fbq_type :: fbq_type
  busiest_group_type :: group_type
  lb_tasks :: "se_id list"

text \<open>The order of the two enumerations.\<close>

instantiation group_type :: linorder
begin

definition group_rank :: "group_type \<Rightarrow> nat" where
  "group_rank t = (case t of group_other \<Rightarrow> 0 | group_misfit_task \<Rightarrow> 1 | group_imbalanced \<Rightarrow> 2 | group_overloaded \<Rightarrow> 3)"

definition less_eq_group_type :: "group_type \<Rightarrow> group_type \<Rightarrow> bool" where
  "less_eq_group_type a b \<longleftrightarrow> group_rank a \<le> group_rank b"

definition less_group_type :: "group_type \<Rightarrow> group_type \<Rightarrow> bool" where
  "less_group_type a b \<longleftrightarrow> group_rank a < group_rank b"

instance
  by standard (auto simp: less_eq_group_type_def less_group_type_def group_rank_def split: group_type.splits)

end

definition fbq_rank :: "fbq_type \<Rightarrow> nat" where
  "fbq_rank t = (case t of regular \<Rightarrow> 0 | remote \<Rightarrow> 1 | all \<Rightarrow> 2)"

definition empty_stats :: sg_lb_stats where
  "empty_stats = \<lparr>avg_load = 0, group_load = 0, sum_weighted_load = 0, load_per_task = 0, group_capacity = 0, group_util = 0,
     sum_nr_running = 0, idle_cpus = 0, group_weight = 0, stats_type = group_other, group_no_capacity = False, misfit_capacity = 0\<rparr>"

definition init_sd_lb_stats :: sd_lb_stats where
  "init_sd_lb_stats = \<lparr>busiest = None, local = None, total_load = 0, total_capacity = 0, sds_avg_load = 0,
     busiest_stat = empty_stats, local_stat = empty_stats\<rparr>"

definition sd_of :: "lb_env \<Rightarrow> lb_state \<Rightarrow> sched_domain" where
  "sd_of e b = sd_at b (lb_sd e)"

section \<open>One group\<close>

definition group_has_capacity :: "sched_domain \<Rightarrow> sg_lb_stats \<Rightarrow> bool" where
  "group_has_capacity d g \<longleftrightarrow>
     sum_nr_running g < group_weight g \<or> group_capacity g * 100 > group_util g * ucast (imbalance_pct d)"

definition group_is_overloaded :: "sched_domain \<Rightarrow> sg_lb_stats \<Rightarrow> bool" where
  "group_is_overloaded d g \<longleftrightarrow>
     \<not> sum_nr_running g \<le> group_weight g \<and> group_capacity g * 100 < group_util g * ucast (imbalance_pct d)"

definition group_smaller_cpu_capacity :: "sched_group \<Rightarrow> sched_group \<Rightarrow> kstate \<Rightarrow> bool" where
  "group_smaller_cpu_capacity g ref s \<longleftrightarrow>
     max_capacity (sgc_of g s) + ucast (fair_capacity_margin (sysctls s)) - SCHED_CAPACITY_SCALE < max_capacity (sgc_of ref s)"

definition group_classify :: "sched_group \<Rightarrow> sg_lb_stats \<Rightarrow> kstate \<Rightarrow> group_type" where
  "group_classify g st s =
     (if group_no_capacity st then group_overloaded
      else if imbalance (sgc_of g s) then group_imbalanced
      else if misfit_capacity st \<noteq> 0 then group_misfit_task
      else group_other)"

definition update_cpu_stats_if_tickless :: "lb_api \<Rightarrow> kapi \<Rightarrow> cpu \<Rightarrow> lb_state \<Rightarrow> lb_state option" where
  "update_cpu_stats_if_tickless A K u b =
     (if u \<notin> set (idle_cpus_mask (nohz b)) \<or> jiffies (ks b) \<le> last_load_update_tick (rq_at (ks b) u) then Some b
      else do {
        let s = upd_rq u (update_rq_clock K) (ks b);
        s \<leftarrow> cpu_load_update_idle (sched_avg_update A) u s;
        (_, s) \<leftarrow> update_cfs_rq_load_avg K (clock_task (rq_at s u)) (rq_cfs (rq_at s u)) False s;
        Some (b\<lparr>ks := s\<rparr>)
      })"

text \<open>What a cpu adds to the statistics of its group.\<close>

definition add_cpu_stats :: "lb_api \<Rightarrow> cpu \<Rightarrow> ulong \<Rightarrow> sg_lb_stats \<Rightarrow> kstate \<Rightarrow> sg_lb_stats" where
  "add_cpu_stats A u load g s =
     (let g = g\<lparr>group_load := group_load g + load, group_util := group_util g + cpu_util u s,
                sum_nr_running := sum_nr_running g + h_nr_running (cfs_at s (rq_cfs (rq_at s u))),
                sum_weighted_load := sum_weighted_load g + weighted_cpuload u s\<rparr>;
          g = (if rq_nr_running (rq_at s u) = 0 \<and> idle_cpu A u s then g\<lparr>idle_cpus := idle_cpus g + 1\<rparr> else g)
      in if cpu_overutilized u s \<and> misfit_capacity g = 0 \<and> misfit_task (rq_at s u)
         then g\<lparr>misfit_capacity := ucast (capacity_of u s)\<rparr> else g)"

fun sg_stats_loop ::
  "lb_api \<Rightarrow> kapi \<Rightarrow> cpu_idle_type \<Rightarrow> nat \<Rightarrow> bool \<Rightarrow> cpu list \<Rightarrow> sg_lb_stats \<Rightarrow> bool \<times> bool \<Rightarrow> lb_state
    \<Rightarrow> (sg_lb_stats \<times> (bool \<times> bool) \<times> lb_state) option" where
  "sg_stats_loop A K ty load_idx local_group [] g o2 b = Some (g, o2, b)"
| "sg_stats_loop A K ty load_idx local_group (u # us) g (over, overutil) b = do {
     b \<leftarrow> (if ty = CPU_NEWLY_IDLE then update_cpu_stats_if_tickless A K u b else Some b);
     load \<leftarrow> (if local_group then target_load K u load_idx (ks b) else source_load K u load_idx (ks b));
     sg_stats_loop A K ty load_idx local_group us (add_cpu_stats A u load g (ks b))
       (over \<or> rq_nr_running (rq_at (ks b) u) > 1, overutil \<or> cpu_overutilized u (ks b)) b
   }"

definition update_sg_lb_stats ::
  "lb_api \<Rightarrow> kapi \<Rightarrow> lb_env \<Rightarrow> sched_group \<Rightarrow> nat \<Rightarrow> bool \<Rightarrow> bool \<times> bool \<Rightarrow> lb_state
    \<Rightarrow> (sg_lb_stats \<times> (bool \<times> bool) \<times> lb_state) option" where
  "update_sg_lb_stats A K e sg load_idx local_group o2 b = do {
     (g, o2, b) \<leftarrow> sg_stats_loop A K (lb_idle e) load_idx local_group
       [u \<leftarrow> sched_group_cpus sg. u \<in> set (lb_cpus e)] empty_stats o2 b;
     let cap = capacity (sgc_of sg (ks b));
     if cap = 0 then None
     else let g = g\<lparr>group_capacity := cap, avg_load := group_load g * SCHED_CAPACITY_SCALE div cap\<rparr>;
              g = (if sum_nr_running g \<noteq> 0 then g\<lparr>load_per_task := sum_weighted_load g div ucast (sum_nr_running g)\<rparr> else g);
              g = g\<lparr>group_weight := sg_weight sg\<rparr>;
              g = g\<lparr>group_no_capacity := group_is_overloaded (sd_of e b) g\<rparr>
          in Some (g\<lparr>stats_type := group_classify sg g (ks b)\<rparr>, o2, b)
   }"

section \<open>The busiest group so far\<close>

definition update_sd_pick_busiest ::
  "lb_api \<Rightarrow> lb_env \<Rightarrow> sd_lb_stats \<Rightarrow> sched_group \<Rightarrow> sg_lb_stats \<Rightarrow> lb_state \<Rightarrow> bool option" where
  "update_sd_pick_busiest A e sds sg sgs b =
     (let d = sd_of e b; bs = busiest_stat sds in
      if stats_type sgs > stats_type bs then Some True
      else if stats_type sgs < stats_type bs then Some False
      else if stats_type sgs = group_other \<and> \<not> group_has_capacity d (local_stat sds) then Some False
      else if avg_load sgs \<le> avg_load bs then Some False
      else do {
        spare \<leftarrow>
          (if has_flag SD_ASYM_CPUCAPACITY d \<and> sum_nr_running sgs \<le> group_weight sgs
           then do { l \<leftarrow> local sds; Some (group_smaller_cpu_capacity l sg (ks b)) } else Some False);
        Some (if spare then False
              else if \<not> has_flag SD_ASYM_PACKING d then True
              else if lb_idle e = CPU_NOT_IDLE then True
              else sum_nr_running sgs \<noteq> 0 \<and> dst_cpu e < group_first_cpu A sg
                   \<and> (case busiest sds of None \<Rightarrow> True | Some g \<Rightarrow> group_first_cpu A g < group_first_cpu A sg))
      })"

text \<open>A group that is not the local one, with its statistics: preferring siblings, ignoring misfit tasks that do not fit here.\<close>

definition consider_group ::
  "lb_api \<Rightarrow> lb_env \<Rightarrow> bool \<Rightarrow> sched_group \<Rightarrow> sg_lb_stats \<Rightarrow> sd_lb_stats \<Rightarrow> lb_state \<Rightarrow> sd_lb_stats option" where
  "consider_group A e prefer_sibling sg sgs sds b = do {
     let d = sd_of e b;
     let sgs = (if prefer_sibling \<and> local sds \<noteq> None \<and> group_has_capacity d (local_stat sds) \<and> sum_nr_running sgs > 1
                then (let sgs = sgs\<lparr>group_no_capacity := True\<rparr> in sgs\<lparr>stats_type := group_classify sg sgs (ks b)\<rparr>) else sgs);
     no_room \<leftarrow>
       (if stats_type sgs \<noteq> group_misfit_task then Some False
        else if \<not> group_has_capacity d (local_stat sds) then Some True
        else do { l \<leftarrow> local sds; Some (\<not> group_smaller_cpu_capacity sg l (ks b)) });
     let sgs = (if no_room then sgs\<lparr>stats_type := group_other\<rparr> else sgs);
     better \<leftarrow> update_sd_pick_busiest A e sds sg sgs b;
     Some (if better then sds\<lparr>busiest := Some sg, busiest_stat := sgs\<rparr> else sds)
   }"

fun sd_stats_loop ::
  "lb_api \<Rightarrow> kapi \<Rightarrow> lb_env \<Rightarrow> bool \<Rightarrow> nat \<Rightarrow> sched_group list \<Rightarrow> sd_lb_stats \<Rightarrow> bool \<times> bool \<Rightarrow> lb_state
    \<Rightarrow> (sd_lb_stats \<times> (bool \<times> bool) \<times> lb_state) option" where
  "sd_stats_loop A K e prefer_sibling load_idx [] sds o2 b = Some (sds, o2, b)"
| "sd_stats_loop A K e prefer_sibling load_idx (sg # sgl) sds o2 b = do {
     let local_group = (dst_cpu e \<in> set (sched_group_cpus sg));
     b \<leftarrow> (if local_group \<and> (lb_idle e \<noteq> CPU_NEWLY_IDLE \<or> time_after_eq (jiffies (ks b)) (next_update (sgc_of sg (ks b))))
           then update_group_capacity A K (lb_sd e) (dst_cpu e) b else Some b);
     (sgs, o2, b) \<leftarrow> update_sg_lb_stats A K e sg load_idx local_group o2 b;
     sds \<leftarrow> (if local_group then Some (sds\<lparr>local := Some sg, local_stat := sgs\<rparr>)
             else consider_group A e prefer_sibling sg sgs sds b);
     let sds = sds\<lparr>total_load := total_load sds + group_load sgs, total_capacity := total_capacity sds + group_capacity sgs\<rparr>;
     sd_stats_loop A K e prefer_sibling load_idx sgl sds o2 b
   }"

text \<open>The indicators of the root domain, and the classification of queues, \<open>all\<close> without NUMA balancing.\<close>

definition note_root_domain :: "bool \<Rightarrow> cpu \<Rightarrow> bool \<times> bool \<Rightarrow> kstate \<Rightarrow> kstate" where
  "note_root_domain has_parent u o2 s =
     (if \<not> has_parent then upd_rd u (\<lambda>m. m\<lparr>overload := fst o2, overutilized := snd o2\<rparr>) s
      else if \<not> overutilized (root_domain_of u s) \<and> snd o2 then upd_rd u (\<lambda>m. m\<lparr>overutilized := True\<rparr>) s
      else s)"

definition update_sd_lb_stats ::
  "lb_api \<Rightarrow> kapi \<Rightarrow> lb_env \<Rightarrow> sd_lb_stats \<Rightarrow> lb_state \<Rightarrow> (sd_lb_stats \<times> lb_env \<times> lb_state) option" where
  "update_sd_lb_stats A K e sds b = do {
     let d = sd_of e b;
     let prefer_sibling = (case sd_child d of None \<Rightarrow> False | Some c \<Rightarrow> has_flag SD_PREFER_SIBLING (sd_at b c));
     _ \<leftarrow> first_group d;
     (sds, o2, b) \<leftarrow> sd_stats_loop A K e prefer_sibling (get_sd_load_idx d (lb_idle e)) (sd_groups d) sds (False, False) b;
     let b = b\<lparr>ks := note_root_domain (lb_sd_parent d b \<noteq> None) (dst_cpu e) o2 (ks b)\<rparr>;
     let e = (if has_flag SD_NUMA d then e\<lparr>lb_fbq_type := all\<rparr> else e);
     Some (sds, e\<lparr>src_grp_nr_running := sum_nr_running (busiest_stat sds)\<rparr>, b)
   }"

end
