(* ===== verification/Balance_Find.thy ===== *)
theory Balance_Find
  imports Balance_Stats
begin

text \<open>
  How much to move and from where, \<open>kernel/sched/fair.c\<close> lines 9687--10141, without NUMA balancing.
\<close>

section \<open>The imbalance\<close>

text \<open>\<open>DIV_ROUND_CLOSEST\<close> of unsigned numbers.\<close>

definition check_asym_packing :: "lb_api \<Rightarrow> lb_env \<Rightarrow> sd_lb_stats \<Rightarrow> lb_state \<Rightarrow> bool \<times> lb_env" where
  "check_asym_packing A e sds b =
     (if \<not> has_flag SD_ASYM_PACKING (sd_of e b) \<or> lb_idle e = CPU_NOT_IDLE then (False, e)
      else case busiest sds of
             None \<Rightarrow> (False, e)
           | Some g \<Rightarrow>
               if dst_cpu e > group_first_cpu A g then (False, e)
               else (True, e\<lparr>lb_imbalance :=
                 (avg_load (busiest_stat sds) * group_capacity (busiest_stat sds) + SCHED_CAPACITY_SCALE div 2) div SCHED_CAPACITY_SCALE\<rparr>))"

text \<open>The two capacities in use, now and after a move of one task's load, that decide a small imbalance.\<close>

definition capacity_now :: "sg_lb_stats \<Rightarrow> sg_lb_stats \<Rightarrow> ulong" where
  "capacity_now bs ls =
     (group_capacity bs * min (load_per_task bs) (avg_load bs) + group_capacity ls * min (load_per_task ls) (avg_load ls))
       div SCHED_CAPACITY_SCALE"

definition capacity_after :: "sg_lb_stats \<Rightarrow> sg_lb_stats \<Rightarrow> ulong \<Rightarrow> ulong" where
  "capacity_after bs ls scaled =
     (let move = (if avg_load bs > scaled then group_capacity bs * min (load_per_task bs) (avg_load bs - scaled) else 0);
          add = (if avg_load bs * group_capacity bs < load_per_task bs * SCHED_CAPACITY_SCALE
                 then avg_load bs * group_capacity bs div group_capacity ls
                 else load_per_task bs * SCHED_CAPACITY_SCALE div group_capacity ls)
      in (move + group_capacity ls * min (load_per_task ls) (avg_load ls + add)) div SCHED_CAPACITY_SCALE)"

definition fix_small_imbalance :: "lb_env \<Rightarrow> sd_lb_stats \<Rightarrow> kstate \<Rightarrow> lb_env option" where
  "fix_small_imbalance e sds s =
     (let bs = busiest_stat sds; ls = local_stat sds;
          imbn = (if sum_nr_running ls \<noteq> 0 \<and> load_per_task bs > load_per_task ls then 1 else 2) :: ulong;
          ls = (if sum_nr_running ls = 0 then ls\<lparr>load_per_task := cpu_avg_load_per_task (dst_cpu e) s\<rparr> else ls)
      in if group_capacity bs = 0 then None
         else let scaled = load_per_task bs * SCHED_CAPACITY_SCALE div group_capacity bs in
              if avg_load bs + scaled \<ge> avg_load ls + scaled * imbn then Some (e\<lparr>lb_imbalance := load_per_task bs\<rparr>)
              else if group_capacity ls = 0 then None
              else Some (if capacity_after bs ls scaled > capacity_now bs ls then e\<lparr>lb_imbalance := load_per_task bs\<rparr> else e))"

definition load_above_capacity :: "sg_lb_stats \<Rightarrow> sg_lb_stats \<Rightarrow> ulong option" where
  "load_above_capacity bs ls =
     (if stats_type bs = group_overloaded \<and> stats_type ls = group_overloaded
      then let above = ucast (sum_nr_running bs) * SCHED_CAPACITY_SCALE in
           if above > group_capacity bs
           then if group_capacity bs = 0 then None
                else Some ((above - group_capacity bs) * scale_load_down NICE_0_LOAD div group_capacity bs)
           else Some (- 1)
      else Some (- 1))"

definition calculate_imbalance :: "lb_env \<Rightarrow> sd_lb_stats \<Rightarrow> kstate \<Rightarrow> lb_env option" where
  "calculate_imbalance e sds s =
     (let bs = busiest_stat sds; ls = local_stat sds; avg = sds_avg_load sds;
          bs = (if stats_type bs = group_imbalanced then bs\<lparr>load_per_task := min (load_per_task bs) avg\<rparr> else bs);
          sds = sds\<lparr>busiest_stat := bs\<rparr>
      in if avg_load bs \<le> avg \<or> avg_load ls \<ge> avg
         then if stats_type bs = group_misfit_task then Some (e\<lparr>lb_imbalance := scast (misfit_capacity bs)\<rparr>)
              else if stats_type bs = group_overloaded \<and> stats_type ls \<le> group_misfit_task
              then Some (e\<lparr>lb_imbalance := load_per_task bs\<rparr>)
              else fix_small_imbalance (e\<lparr>lb_imbalance := 0\<rparr>) sds s
         else do {
           above \<leftarrow> load_above_capacity bs ls;
           let max_pull = min (avg_load bs - avg) above;
           let imb = min (max_pull * group_capacity bs) ((avg - avg_load ls) * group_capacity ls) div SCHED_CAPACITY_SCALE;
           let imb = (if stats_type bs = group_misfit_task \<and> sint imb < sint (misfit_capacity bs)
                      then scast (misfit_capacity bs) else imb);
           let e = e\<lparr>lb_imbalance := imb\<rparr>;
           if imb < load_per_task bs then fix_small_imbalance e sds s else Some e
         })"

text \<open>What \<open>find_busiest_group\<close> decides from the statistics: balanced, or force the balance.\<close>

definition balanced_stats :: "lb_env \<Rightarrow> sd_lb_stats \<Rightarrow> lb_state \<Rightarrow> bool option" where
  "balanced_stats e sds b =
     (let bs = busiest_stat sds; ls = local_stat sds; d = sd_of e b in
      if stats_type bs = group_imbalanced then Some False
      else if lb_idle e = CPU_NEWLY_IDLE \<and> group_has_capacity d ls \<and> group_no_capacity bs then Some False
      else if stats_type bs = group_misfit_task then Some False
      else if avg_load ls \<ge> avg_load bs \<or> avg_load ls \<ge> sds_avg_load sds then Some True
      else if lb_idle e = CPU_IDLE
      then if stats_type bs \<noteq> group_overloaded \<and> idle_cpus ls \<le> idle_cpus bs + 1
           then do { g \<leftarrow> busiest sds; l \<leftarrow> local sds; Some (\<not> group_smaller_cpu_capacity g l (ks b)) }
           else Some False
      else Some (100 * avg_load bs \<le> ucast (imbalance_pct d) * avg_load ls))"

definition find_busiest_group ::
  "lb_api \<Rightarrow> kapi \<Rightarrow> lb_env \<Rightarrow> lb_state \<Rightarrow> (sched_group option \<times> lb_env \<times> lb_state) option" where
  "find_busiest_group A K e b = do {
     (sds, e, b) \<leftarrow> update_sd_lb_stats A K e init_sd_lb_stats b;
     let balanced = Some (None, e\<lparr>lb_imbalance := 0\<rparr>, b);
     if (sched_feat K ENERGY_AWARE \<or> sched_feat K CAPACITY_AWARE) \<and> \<not> overutilized (root_domain_of (dst_cpu e) (ks b)) then balanced
     else let (packing, e) = check_asym_packing A e sds b in
       if packing then Some (busiest sds, e, b)
       else if busiest sds = None \<or> sum_nr_running (busiest_stat sds) = 0 then balanced
       else if total_capacity sds = 0 then None
       else let sds = sds\<lparr>sds_avg_load := SCHED_CAPACITY_SCALE * total_load sds div total_capacity sds\<rparr> in do {
         bal \<leftarrow> balanced_stats e sds b;
         if bal then balanced
         else do {
           e \<leftarrow> calculate_imbalance (e\<lparr>busiest_group_type := stats_type (busiest_stat sds)\<rparr>) sds (ks b);
           Some (busiest sds, e, b)
         }
       }
   }"

section \<open>The busiest queue\<close>

definition fbq_classify_rq :: "cpu \<Rightarrow> fbq_type" where
  "fbq_classify_rq u = regular"

text \<open>A queue that is passed over: classified, or one task too big to move.\<close>

definition queue_skipped :: "lb_env \<Rightarrow> lb_state \<Rightarrow> cpu \<Rightarrow> bool" where
  "queue_skipped e b u \<longleftrightarrow>
     fbq_rank (fbq_classify_rq u) > fbq_rank (lb_fbq_type e)
     \<or> rq_nr_running (rq_at (ks b) u) = 1 \<and> weighted_cpuload u (ks b) > lb_imbalance e
       \<and> \<not> check_cpu_capacity u (sd_of e b) (ks b) \<and> busiest_group_type e \<noteq> group_misfit_task"

fun busiest_queue_loop :: "lb_env \<Rightarrow> lb_state \<Rightarrow> cpu list \<Rightarrow> cpu option \<times> ulong \<times> ulong \<Rightarrow> cpu option" where
  "busiest_queue_loop e b [] (found, load, cap) = found"
| "busiest_queue_loop e b (u # us) (found, load, cap) =
     (if queue_skipped e b u then busiest_queue_loop e b us (found, load, cap)
      else let wl = weighted_cpuload u (ks b); c = capacity_of u (ks b) in
           if wl * cap > load * c then busiest_queue_loop e b us (Some u, wl, c)
           else busiest_queue_loop e b us (found, load, cap))"

definition find_busiest_queue :: "lb_env \<Rightarrow> sched_group \<Rightarrow> lb_state \<Rightarrow> cpu option" where
  "find_busiest_queue e g b = busiest_queue_loop e b [u \<leftarrow> sched_group_cpus g. u \<in> set (lb_cpus e)] (None, 0, 1)"

section \<open>Whether to balance at all\<close>

definition need_active_balance :: "lb_env \<Rightarrow> lb_state \<Rightarrow> bool" where
  "need_active_balance e b \<longleftrightarrow>
     (let s = ks b; d = sd_of e b; src = src_cpu e; dst = dst_cpu e;
          one = (h_nr_running (cfs_at s (rq_cfs (rq_at s src))) = 1)
      in lb_idle e = CPU_NEWLY_IDLE \<and> has_flag SD_ASYM_PACKING d \<and> src > dst
         \<or> lb_idle e \<noteq> CPU_NOT_IDLE \<and> one \<and> check_cpu_capacity src d s
           \<and> capacity_of src s * ucast (imbalance_pct d) < capacity_of dst s * 100
         \<or> capacity_of src s < capacity_of dst s \<and> one \<and> cpu_overutilized src s \<and> \<not> cpu_overutilized dst s
         \<or> nr_balance_failed d > cache_nice_tries d + 2)"

definition should_we_balance :: "lb_api \<Rightarrow> lb_env \<Rightarrow> lb_state \<Rightarrow> bool option" where
  "should_we_balance A e b =
     (if lb_idle e = CPU_NEWLY_IDLE then Some True
      else do {
        g \<leftarrow> first_group (sd_of e b);
        Some ((case filter (\<lambda>u. u \<in> balance_mask (sgc_of g (ks b)) \<and> idle_cpu A u (ks b))
                      [u \<leftarrow> sched_group_cpus g. u \<in> set (lb_cpus e)] of
                 [] \<Rightarrow> group_balance_cpu A g
               | u # _ \<Rightarrow> u) = dst_cpu e)
      })"

end
