(* ===== verification/Balance_Move.thy ===== *)
theory Balance_Move
  imports Balance_Find
begin

text \<open>
  Moving tasks between runqueues, \<open>kernel/sched/fair.c\<close> lines 8538--8567 and 8614--8892, without NUMA
  balancing and \<open>sched_freq\<close>. Detached tasks wait on \<open>env.tasks\<close>. \<open>n\<close> bounds walks over the hierarchy.
\<close>

definition task_hot :: "kapi \<Rightarrow> se_id \<Rightarrow> lb_env \<Rightarrow> kstate \<Rightarrow> bool" where
  "task_hot K i e s =
     (let t = task_at s i; se = se_at s i; q = cfs_at s (se_cfs_rq se);
          cost = sysctl_sched_migration_cost (sysctls s)
      in if \<not> fair_class t then False
         else if task_policy t = SCHED_IDLE then False
         else if sched_feat K CACHE_HOT_BUDDY \<and> rq_nr_running (rq_at s (dst_cpu e)) \<noteq> 0
                 \<and> (next_buddy q = Some i \<or> last_buddy q = Some i) then True
         else if cost = - 1 then True
         else if cost = 0 then False
         else sint (clock_task (rq_at s (src_cpu e)) - exec_start se) < uint cost)"

definition migrate_degrades_locality :: "se_id \<Rightarrow> lb_env \<Rightarrow> int" where
  "migrate_degrades_locality i e = - 1"

text \<open>Another cpu of the group where a pinned task may run.\<close>

definition other_dst :: "se_id \<Rightarrow> lb_env \<Rightarrow> kstate \<Rightarrow> cpu option" where
  "other_dst i e s =
     (case dst_grpmask e of
        None \<Rightarrow> None
      | Some m \<Rightarrow>
          if LBF_DST_PINNED e then None
          else (case [u \<leftarrow> m. u \<in> set (lb_cpus e) \<and> cpus_allowed (task_at s i) u] of [] \<Rightarrow> None | u # _ \<Rightarrow> Some u))"

definition can_migrate_task :: "kapi \<Rightarrow> se_id \<Rightarrow> lb_env \<Rightarrow> lb_state \<Rightarrow> bool \<times> lb_env" where
  "can_migrate_task K i e b =
     (let s = ks b; t = task_at s i; d = sd_of e b in
      if throttled_lb_pair (sched_task_group t) (src_cpu e) (dst_cpu e) s then (False, e)
      else if \<not> cpus_allowed t (dst_cpu e)
      then let e = e\<lparr>LBF_SOME_PINNED := True\<rparr>
           in (False, case other_dst i e s of None \<Rightarrow> e | Some u \<Rightarrow> e\<lparr>LBF_DST_PINNED := True, new_dst_cpu := u\<rparr>)
      else let e = e\<lparr>LBF_ALL_PINNED := False\<rparr> in
           if on_cpu t then (False, e)
           else let hot = (if migrate_degrades_locality i e = - 1 then (if task_hot K i e s then 1 else 0)
                           else migrate_degrades_locality i e)
                in (hot \<le> 0 \<or> nr_balance_failed d > cache_nice_tries d, e))"

definition detach_task :: "lb_api \<Rightarrow> se_id \<Rightarrow> lb_env \<Rightarrow> lb_state \<Rightarrow> lb_state option" where
  "detach_task A i e b =
     on_kernel (\<lambda>s. do {
       s \<leftarrow> deactivate_task A (src_cpu e) i (upd_task i (\<lambda>t. t\<lparr>task_on_rq := 2\<rparr>) s);
       set_task_cpu A i (dst_cpu e) s
     }) b"

fun detach_one_loop :: "lb_api \<Rightarrow> kapi \<Rightarrow> se_id list \<Rightarrow> lb_env \<Rightarrow> lb_state \<Rightarrow> (se_id option \<times> lb_env \<times> lb_state) option" where
  "detach_one_loop A K [] e b = Some (None, e, b)"
| "detach_one_loop A K (i # is) e b =
     (let (ok, e) = can_migrate_task K i e b in
      if ok then do { b \<leftarrow> detach_task A i e b; Some (Some i, e, b) } else detach_one_loop A K is e b)"

definition detach_one_task :: "lb_api \<Rightarrow> kapi \<Rightarrow> lb_env \<Rightarrow> lb_state \<Rightarrow> (se_id option \<times> lb_env \<times> lb_state) option" where
  "detach_one_task A K e b = detach_one_loop A K (cfs_tasks (rq_at (ks b) (src_cpu e))) e b"

definition sched_nr_migrate_break :: u32 where
  "sched_nr_migrate_break = 32"

text \<open>
  One round of the loop of \<open>detach_tasks\<close> on the first task: \<open>Passed\<close> over, moved to the tail of the list, or
  \<open>Detached\<close> with its load.
\<close>

datatype round = Passed | Detached ulong

definition detach_round :: "nat \<Rightarrow> lb_api \<Rightarrow> kapi \<Rightarrow> se_id \<Rightarrow> lb_env \<Rightarrow> lb_state \<Rightarrow> (round \<times> lb_env \<times> lb_state) option" where
  "detach_round n A K i e b =
     (let to_tail = (\<lambda>b. b\<lparr>ks := upd_rq (src_cpu e) (\<lambda>r. r\<lparr>cfs_tasks := remove1 i (cfs_tasks r) @ [i]\<rparr>) (ks b)\<rparr>);
          (ok, e) = can_migrate_task K i e b in
      if \<not> ok then Some (Passed, e, to_tail b)
      else do {
        (load, s) \<leftarrow> task_h_load n i (ks b);
        let b = b\<lparr>ks := s\<rparr>;
        if sched_feat K LB_MIN \<and> load < 16 \<and> nr_balance_failed (sd_of e b) = 0 then Some (Passed, e, to_tail b)
        else if load div 2 > lb_imbalance e then Some (Passed, e, to_tail b)
        else do {
          b \<leftarrow> detach_task A i e b;
          Some (Detached load, e\<lparr>lb_tasks := i # lb_tasks e, lb_imbalance := lb_imbalance e - load\<rparr>, b)
        }
      })"

fun detach_loop ::
  "nat \<Rightarrow> nat \<Rightarrow> lb_api \<Rightarrow> kapi \<Rightarrow> u32 \<Rightarrow> lb_env \<Rightarrow> lb_state \<Rightarrow> (u32 \<times> lb_env \<times> lb_state) option" where
  "detach_loop m n A K detached e b =
     (case cfs_tasks (rq_at (ks b) (src_cpu e)) of
        [] \<Rightarrow> Some (detached, e, b)
      | i # _ \<Rightarrow>
          if lb_idle e \<noteq> CPU_NOT_IDLE \<and> rq_nr_running (rq_at (ks b) (src_cpu e)) \<le> 1 then Some (detached, e, b)
          else let e = e\<lparr>loop := loop e + 1\<rparr> in
               if loop e > loop_max e then Some (detached, e, b)
               else if loop e > loop_break e
               then Some (detached, e\<lparr>loop_break := loop_break e + sched_nr_migrate_break, LBF_NEED_BREAK := True\<rparr>, b)
               else (case m of
                       0 \<Rightarrow> None
                     | Suc m \<Rightarrow> do {
                         (r, e, b) \<leftarrow> detach_round n A K i e b;
                         (case r of
                            Passed \<Rightarrow> detach_loop m n A K detached e b
                          | Detached load \<Rightarrow>
                              let detached = detached + 1 in
                              if config_preempt A \<and> lb_idle e = CPU_NEWLY_IDLE then Some (detached, e, b)
                              else if sint (lb_imbalance e) \<le> 0 then Some (detached, e, b)
                              else detach_loop m n A K detached e b)
                       }))"

declare detach_loop.simps [simp del]

text \<open>Every round counts, so the loop makes at most \<open>loop_max\<close> rounds.\<close>

definition detach_tasks :: "nat \<Rightarrow> lb_api \<Rightarrow> kapi \<Rightarrow> lb_env \<Rightarrow> lb_state \<Rightarrow> (u32 \<times> lb_env \<times> lb_state) option" where
  "detach_tasks n A K e b =
     (if sint (lb_imbalance e) \<le> 0 then Some (0, e, b) else detach_loop (unat (loop_max e)) n A K 0 e b)"

text \<open>\<open>BUG_ON(task_rq(p) != rq)\<close> stops the kernel.\<close>

definition attach_task :: "lb_api \<Rightarrow> cpu \<Rightarrow> se_id \<Rightarrow> lb_state \<Rightarrow> lb_state option" where
  "attach_task A u i b =
     (if task_cpu (task_at (ks b) i) \<noteq> u then None
      else on_kernel (\<lambda>s. do {
        s \<leftarrow> activate_task A u i s;
        check_preempt_curr A u i (upd_task i (\<lambda>t. t\<lparr>task_on_rq := 1\<rparr>) s)
      }) b)"

definition attach_one_task :: "lb_api \<Rightarrow> cpu \<Rightarrow> se_id \<Rightarrow> lb_state \<Rightarrow> lb_state option" where
  "attach_one_task A u i b = attach_task A u i b"

fun attach_all :: "lb_api \<Rightarrow> cpu \<Rightarrow> se_id list \<Rightarrow> lb_state \<Rightarrow> lb_state option" where
  "attach_all A u [] b = Some b"
| "attach_all A u (i # is) b = do { b \<leftarrow> attach_task A u i b; attach_all A u is b }"

definition attach_tasks :: "lb_api \<Rightarrow> lb_env \<Rightarrow> lb_state \<Rightarrow> (lb_env \<times> lb_state) option" where
  "attach_tasks A e b = do { b \<leftarrow> attach_all A (dst_cpu e) (lb_tasks e) b; Some (e\<lparr>lb_tasks := []\<rparr>, b) }"

end
