(* ===== verification/Load_Balance.thy ===== *)
theory Load_Balance
  imports Balance_Move
begin

text \<open>
  \<open>load_balance\<close> and active balancing, \<open>kernel/sched/fair.c\<close> lines 10143--10408 and 10557--10640. The labels of
  \<open>load_balance\<close> are the values of a type; \<open>n\<close> bounds walks over the hierarchy and \<open>m\<close> the jumps back.
\<close>

text \<open>From \<open>more_balance\<close> on: move, attach, take a breather, and go to another cpu of the group.\<close>

fun more_balance ::
  "nat \<Rightarrow> nat \<Rightarrow> lb_api \<Rightarrow> kapi \<Rightarrow> u32 \<Rightarrow> lb_env \<Rightarrow> lb_state \<Rightarrow> (u32 \<times> lb_env \<times> lb_state) option" where
  "more_balance m n A K ld_moved e b = do {
     (cur, e, b) \<leftarrow> detach_tasks n A K e b;
     (ld_moved, e, b) \<leftarrow>
       (if cur \<noteq> 0 then do { (e, b) \<leftarrow> attach_tasks A e b; Some (ld_moved + cur, e, b) } else Some (ld_moved, e, b));
     if LBF_NEED_BREAK e
     then (case m of 0 \<Rightarrow> None | Suc m \<Rightarrow> more_balance m n A K ld_moved (e\<lparr>LBF_NEED_BREAK := False\<rparr>) b)
     else if LBF_DST_PINNED e \<and> sint (lb_imbalance e) > 0
     then (case m of
             0 \<Rightarrow> None
           | Suc m \<Rightarrow>
               more_balance m n A K ld_moved
                 (e\<lparr>lb_cpus := filter (\<lambda>u. u \<noteq> dst_cpu e) (lb_cpus e), dst_cpu := new_dst_cpu e, LBF_DST_PINNED := False,
                    loop := 0, loop_break := sched_nr_migrate_break\<rparr>) b)
     else Some (ld_moved, e, b)
   }"

declare more_balance.simps [simp del]

text \<open>How the search ends: \<open>out_balanced\<close> and whether to go on, \<open>out_all_pinned\<close>, or with tasks moved from a queue.\<close>

datatype search = Out_balanced bool | Out_all_pinned | Moved u32

definition set_group_imbalance :: "sd_id \<Rightarrow> bool \<Rightarrow> lb_state \<Rightarrow> lb_state option" where
  "set_group_imbalance p v b = do {
     g \<leftarrow> first_group (sd_at b p);
     Some (b\<lparr>ks := upd_sgc (sg_sgc g) (\<lambda>c. c\<lparr>imbalance := v\<rparr>) (ks b)\<rparr>)
   }"

fun lb_search ::
  "nat \<Rightarrow> nat \<Rightarrow> lb_api \<Rightarrow> kapi \<Rightarrow> sd_id option \<Rightarrow> lb_env \<Rightarrow> lb_state \<Rightarrow> (search \<times> lb_env \<times> lb_state) option" where
  "lb_search m n A K sdp e b = do {
     go \<leftarrow> should_we_balance A e b;
     if \<not> go then Some (Out_balanced False, e, b)
     else do {
       (g, e, b) \<leftarrow> find_busiest_group A K e b;
       (case g of
          None \<Rightarrow> Some (Out_balanced True, e, b)
        | Some g \<Rightarrow>
            (case find_busiest_queue e g b of
               None \<Rightarrow> Some (Out_balanced True, e, b)
             | Some src \<Rightarrow>
                 if src = dst_cpu e then None
                 else let e = e\<lparr>src_cpu := src\<rparr>; nr = rq_nr_running (rq_at (ks b) src) in
                      if nr > 1
                      then do {
                        (ld, e, b) \<leftarrow> more_balance m n A K 0
                          (e\<lparr>LBF_ALL_PINNED := True, loop_max := min (sysctl_sched_nr_migrate A) nr\<rparr>) b;
                        b \<leftarrow> (case sdp of
                               None \<Rightarrow> Some b
                             | Some p \<Rightarrow> if LBF_SOME_PINNED e \<and> sint (lb_imbalance e) > 0 then set_group_imbalance p True b else Some b);
                        if LBF_ALL_PINNED e
                        then let e = e\<lparr>lb_cpus := filter (\<lambda>u. u \<noteq> src) (lb_cpus e)\<rparr> in
                             if lb_cpus e \<noteq> []
                             then (case m of
                                     0 \<Rightarrow> None
                                   | Suc m \<Rightarrow> lb_search m n A K sdp (e\<lparr>loop := 0, loop_break := sched_nr_migrate_break\<rparr>) b)
                             else Some (Out_all_pinned, e, b)
                        else Some (Moved ld, e, b)
                      }
                      else Some (Moved 0, e, b)))
     }
   }"

declare lb_search.simps [simp del]

definition MAX_PINNED_INTERVAL :: u32 where
  "MAX_PINNED_INTERVAL = 512"

text \<open>\<open>out_one_pinned\<close>, where the interval grows.\<close>

definition out_one_pinned :: "lb_env \<Rightarrow> lb_state \<Rightarrow> lb_state" where
  "out_one_pinned e =
     upd_sd (lb_sd e) (\<lambda>d.
       if LBF_ALL_PINNED e \<and> balance_interval d < MAX_PINNED_INTERVAL \<or> ucast (balance_interval d) < max_interval d
       then d\<lparr>balance_interval := balance_interval d * 2\<rparr> else d)"

definition out_all_pinned :: "lb_env \<Rightarrow> lb_state \<Rightarrow> lb_state" where
  "out_all_pinned e b = out_one_pinned e (upd_sd (lb_sd e) (\<lambda>d. d\<lparr>nr_balance_failed := 0\<rparr>) b)"

text \<open>
  Nothing was moved: count the failure and kick active balancing. \<open>None\<close> is the current task of the busiest cpu
  pinned away from this cpu, the flag says whether active balancing was started.
\<close>

definition active_phase :: "cpu \<Rightarrow> lb_env \<Rightarrow> lb_state \<Rightarrow> bool option \<times> lb_state" where
  "active_phase this e b =
     (let src = src_cpu e;
          b = (if lb_idle e \<noteq> CPU_NEWLY_IDLE \<and> src_grp_nr_running e > 1
               then upd_sd (lb_sd e) (\<lambda>d. d\<lparr>nr_balance_failed := nr_balance_failed d + 1\<rparr>) b else b)
      in if \<not> need_active_balance e b then (Some False, b)
         else if \<not> cpus_allowed (task_at (ks b) (rq_curr (rq_at (ks b) src))) this then (None, b)
         else let start = (\<not> active_balance (rqb_at b src));
                  b = (if start then upd_rqb src (\<lambda>r. r\<lparr>active_balance := True, push_cpu := this\<rparr>) b else b);
                  b = (if start then b\<lparr>stop_works := stop_works b @ [(src, this)]\<rparr> else b)
              in (Some start, upd_sd (lb_sd e) (\<lambda>d. d\<lparr>nr_balance_failed := cache_nice_tries d + 1\<rparr>) b))"

text \<open>After the move: the number of tasks moved and the state.\<close>

definition lb_finish :: "cpu \<Rightarrow> u32 \<Rightarrow> lb_env \<Rightarrow> lb_state \<Rightarrow> u32 \<times> lb_state" where
  "lb_finish this ld e b =
     (let (act, b) = (if ld = 0 then active_phase this e b
                      else (Some False, upd_sd (lb_sd e) (\<lambda>d. d\<lparr>nr_balance_failed := 0\<rparr>) b))
      in case act of
           None \<Rightarrow> (0, out_one_pinned (e\<lparr>LBF_ALL_PINNED := True\<rparr>) b)
         | Some False \<Rightarrow> (ld, upd_sd (lb_sd e) (\<lambda>d. d\<lparr>balance_interval := ucast (min_interval d)\<rparr>) b)
         | Some True \<Rightarrow>
             (ld, upd_sd (lb_sd e) (\<lambda>d.
               if ucast (balance_interval d) < max_interval d then d\<lparr>balance_interval := balance_interval d * 2\<rparr> else d) b))"

definition lb_env_of :: "lb_api \<Rightarrow> cpu \<Rightarrow> sd_id \<Rightarrow> sched_group \<Rightarrow> cpu_idle_type \<Rightarrow> lb_env" where
  "lb_env_of A this d g ty =
     \<lparr>lb_sd = d, src_cpu = 0, dst_cpu = this,
      dst_grpmask = (if ty = CPU_NEWLY_IDLE then None else Some (sched_group_cpus g)), new_dst_cpu = 0, lb_idle = ty,
      lb_imbalance = 0, src_grp_nr_running = 0, lb_cpus = cpu_active_mask A, LBF_ALL_PINNED = False, LBF_NEED_BREAK = False,
      LBF_DST_PINNED = False, LBF_SOME_PINNED = False, loop = 0, loop_break = sched_nr_migrate_break, loop_max = 0,
      lb_fbq_type = all, busiest_group_type = group_other, lb_tasks = []\<rparr>"

text \<open>The result: the tasks moved, and \<open>*continue_balancing\<close>, which is only ever cleared.\<close>

definition load_balance ::
  "nat \<Rightarrow> nat \<Rightarrow> lb_api \<Rightarrow> kapi \<Rightarrow> cpu \<Rightarrow> sd_id \<Rightarrow> cpu_idle_type \<Rightarrow> bool \<Rightarrow> lb_state \<Rightarrow> (u32 \<times> bool \<times> lb_state) option" where
  "load_balance m n A K this d ty cont b = do {
     g \<leftarrow> first_group (sd_at b d);
     let sdp = lb_sd_parent (sd_at b d) b;
     (out, e, b) \<leftarrow> lb_search m n A K sdp (lb_env_of A this d g ty) b;
     (case out of
        Moved ld \<Rightarrow> (let (ld, b) = lb_finish this ld e b in Some (ld, cont, b))
      | Out_all_pinned \<Rightarrow> Some (0, cont, out_all_pinned e b)
      | Out_balanced go \<Rightarrow> do {
          b \<leftarrow> (case sdp of None \<Rightarrow> Some b | Some p \<Rightarrow> set_group_imbalance p False b);
          Some (0, cont \<and> go, out_all_pinned e b)
        })
   }"

section \<open>Active balancing\<close>

definition active_env :: "sd_id \<Rightarrow> cpu \<Rightarrow> cpu \<Rightarrow> lb_env" where
  "active_env d src dst =
     \<lparr>lb_sd = d, src_cpu = src, dst_cpu = dst, dst_grpmask = None, new_dst_cpu = 0, lb_idle = CPU_IDLE, lb_imbalance = 0,
      src_grp_nr_running = 0, lb_cpus = [], LBF_ALL_PINNED = False, LBF_NEED_BREAK = False, LBF_DST_PINNED = False,
      LBF_SOME_PINNED = False, loop = 0, loop_break = 0, loop_max = 0, lb_fbq_type = regular,
      busiest_group_type = group_other, lb_tasks = []\<rparr>"

text \<open>The work of the cpu stopper, on the cpu it runs on.\<close>

definition active_load_balance_cpu_stop :: "nat \<Rightarrow> lb_api \<Rightarrow> kapi \<Rightarrow> cpu \<Rightarrow> lb_state \<Rightarrow> lb_state option" where
  "active_load_balance_cpu_stop n A K src b =
     (let dst = push_cpu (rqb_at b src);
          fin = upd_rqb src (\<lambda>r. r\<lparr>active_balance := False\<rparr>)
      in if src \<noteq> this_cpu K \<or> \<not> active_balance (rqb_at b src) \<or> rq_nr_running (rq_at (ks b) src) \<le> 1 then Some (fin b)
         else if src = dst then None
         else do {
           ds \<leftarrow> domain_chain n (rq_sd (rqb_at b dst)) b;
           (case filter (\<lambda>d. has_flag SD_LOAD_BALANCE (sd_at b d) \<and> src \<in> set (sd_span (sd_at b d))) ds of
              [] \<Rightarrow> Some (fin b)
            | d # _ \<Rightarrow> do {
                (p, e, b) \<leftarrow> detach_one_task A K (active_env d src dst) b;
                (case p of
                   None \<Rightarrow> Some (fin b)
                 | Some i \<Rightarrow> attach_one_task A dst i (fin (upd_sd d (\<lambda>d. d\<lparr>nr_balance_failed := 0\<rparr>) b)))
              })
         })"

end
