(* ===== verification/Balance_Props.thy ===== *)
theory Balance_Props
  imports Load_Balance H_Load "HOL-Library.Multiset"
begin

text \<open>
  What moving tasks keeps: the loop of \<open>detach_tasks\<close> returns, takes no more load than it should and no task that
  must stay.
\<close>

section \<open>The core of the scheduler\<close>

text \<open>
  Documented behaviour of the core: \<open>deactivate_task\<close> takes the task off the list and the count of its runqueue,
  \<open>set_task_cpu\<close> moves it to another cpu; both keep where tasks may run and what cpus execute.
\<close>

definition same_placement :: "kstate \<Rightarrow> kstate \<Rightarrow> bool" where
  "same_placement s s' \<longleftrightarrow>
     (\<forall>j. cpus_allowed (task_at s' j) = cpus_allowed (task_at s j) \<and> on_cpu (task_at s' j) = on_cpu (task_at s j))"

definition core_contract :: "lb_api \<Rightarrow> nat \<Rightarrow> bool" where
  "core_contract A n \<longleftrightarrow>
     (\<forall>u i s. nesting_ok n s \<and> i \<in> set (cfs_tasks (rq_at s u)) \<longrightarrow>
        (\<exists>s'. deactivate_task A u i s = Some s' \<and> nesting_ok n s' \<and> same_placement s s'
          \<and> cfs_tasks (rq_at s' u) = remove1 i (cfs_tasks (rq_at s u))
          \<and> rq_nr_running (rq_at s' u) = rq_nr_running (rq_at s u) - 1))
     \<and> (\<forall>u i s. nesting_ok n s \<longrightarrow>
        (\<exists>s'. set_task_cpu A i u s = Some s' \<and> nesting_ok n s' \<and> same_placement s s'
          \<and> (\<forall>v. cfs_tasks (rq_at s' v) = cfs_tasks (rq_at s v) \<and> rq_nr_running (rq_at s' v) = rq_nr_running (rq_at s v))))"

lemma placement_refl [simp]: "same_placement s s"
  by (simp add: same_placement_def)

lemma placement_trans: "same_placement s t \<Longrightarrow> same_placement t r \<Longrightarrow> same_placement s r"
  by (simp add: same_placement_def)

lemma frame_placement: "h_load_frame s s' \<Longrightarrow> same_placement s s'"
  by (simp add: h_load_frame_def same_placement_def)

lemma ok_upd_task [simp]: "nesting_ok n (upd_task i f s) = nesting_ok n s"
proof -
  have "climbs m p (upd_task i f s) = climbs m p s" for m p
    by (induction m p s rule: climbs.induct) (simp_all add: upd_task_def)
  then show ?thesis by (simp add: nesting_ok_def owner_def) (simp add: upd_task_def)
qed

lemma ok_upd_rq [simp]: "nesting_ok n (upd_rq u f s) = nesting_ok n s"
proof -
  have "climbs m p (upd_rq u f s) = climbs m p s" for m p
    by (induction m p s rule: climbs.induct) (simp_all add: upd_rq_def)
  then show ?thesis by (simp add: nesting_ok_def owner_def) (simp add: upd_rq_def)
qed

section \<open>One round\<close>

text \<open>Fields of the environment that neither a check nor a move changes.\<close>

definition same_env :: "lb_env \<Rightarrow> lb_env \<Rightarrow> bool" where
  "same_env e e' \<longleftrightarrow> lb_sd e' = lb_sd e \<and> src_cpu e' = src_cpu e \<and> dst_cpu e' = dst_cpu e \<and> lb_idle e' = lb_idle e
     \<and> loop_max e' = loop_max e"

text \<open>The tasks \<open>moved\<close> between two moments: allowed on the destination and not running, taken off the source.\<close>

definition moves :: "se_id list \<Rightarrow> lb_env \<Rightarrow> lb_state \<Rightarrow> lb_env \<Rightarrow> lb_state \<Rightarrow> bool" where
  "moves moved e b e' b' \<longleftrightarrow>
     lb_tasks e' = moved @ lb_tasks e \<and> same_env e e' \<and> same_placement (ks b) (ks b')
     \<and> (\<forall>i\<in>set moved. cpus_allowed (task_at (ks b) i) (dst_cpu e) \<and> \<not> on_cpu (task_at (ks b) i))
     \<and> mset (cfs_tasks (rq_at (ks b') (src_cpu e))) + mset moved = mset (cfs_tasks (rq_at (ks b) (src_cpu e)))
     \<and> rq_nr_running (rq_at (ks b') (src_cpu e)) = rq_nr_running (rq_at (ks b) (src_cpu e)) - of_nat (length moved)"

lemma moves_nil: "same_env e e' \<Longrightarrow> lb_tasks e' = lb_tasks e \<Longrightarrow> same_placement (ks b) (ks b') \<Longrightarrow>
    mset (cfs_tasks (rq_at (ks b') (src_cpu e))) = mset (cfs_tasks (rq_at (ks b) (src_cpu e))) \<Longrightarrow>
    rq_nr_running (rq_at (ks b') (src_cpu e)) = rq_nr_running (rq_at (ks b) (src_cpu e)) \<Longrightarrow> moves [] e b e' b'"
  by (simp add: moves_def)

lemma moves_trans:
  assumes "moves xs e b e1 b1" "moves ys e1 b1 e2 b2"
  shows "moves (ys @ xs) e b e2 b2"
  using assms by (auto simp: moves_def same_env_def same_placement_def algebra_simps union_assoc [symmetric])

lemma can_migrate_facts:
  assumes "can_migrate_task K i e b = (ok, e')"
  shows "same_env e e'" "lb_tasks e' = lb_tasks e" "lb_imbalance e' = lb_imbalance e" "loop e' = loop e" "loop_break e' = loop_break e"
    "ok \<Longrightarrow> cpus_allowed (task_at (ks b) i) (dst_cpu e) \<and> \<not> on_cpu (task_at (ks b) i)"
  using assms by (auto simp: can_migrate_task_def same_env_def Let_def split: if_split_asm option.split_asm)

lemma detach_task_ok:
  assumes "core_contract A n" "nesting_ok n (ks b)" "i \<in> set (cfs_tasks (rq_at (ks b) (src_cpu e)))"
  shows "\<exists>b'. detach_task A i e b = Some b' \<and> nesting_ok n (ks b') \<and> same_placement (ks b) (ks b')
    \<and> cfs_tasks (rq_at (ks b') (src_cpu e)) = remove1 i (cfs_tasks (rq_at (ks b) (src_cpu e)))
    \<and> rq_nr_running (rq_at (ks b') (src_cpu e)) = rq_nr_running (rq_at (ks b) (src_cpu e)) - 1"
proof -
  define s where "s = upd_task i (\<lambda>t. t\<lparr>task_on_rq := 2\<rparr>) (ks b)"
  have s: "rq_at s = rq_at (ks b)" "same_placement (ks b) s" "nesting_ok n s"
    using assms(2) by (simp_all add: s_def upd_task_def same_placement_def) (simp add: upd_task_def [symmetric])
  have member: "i \<in> set (cfs_tasks (rq_at s (src_cpu e)))" using assms(3) s(1) by simp
  obtain s1 where s1: "deactivate_task A (src_cpu e) i s = Some s1" "nesting_ok n s1" "same_placement s s1"
    "cfs_tasks (rq_at s1 (src_cpu e)) = remove1 i (cfs_tasks (rq_at s (src_cpu e)))"
    "rq_nr_running (rq_at s1 (src_cpu e)) = rq_nr_running (rq_at s (src_cpu e)) - 1"
    using assms(1) s(3) member unfolding core_contract_def by blast
  obtain s2 where s2: "set_task_cpu A i (dst_cpu e) s1 = Some s2" "nesting_ok n s2" "same_placement s1 s2"
    "cfs_tasks (rq_at s2 (src_cpu e)) = cfs_tasks (rq_at s1 (src_cpu e))"
    "rq_nr_running (rq_at s2 (src_cpu e)) = rq_nr_running (rq_at s1 (src_cpu e))"
    using assms(1) s1(2) unfolding core_contract_def by blast
  have "detach_task A i e b = Some (b\<lparr>ks := s2\<rparr>)"
    using s1(1) s2(1) by (simp add: detach_task_def on_kernel_def s_def)
  moreover have "same_placement (ks b) s2" using s(2) s1(3) s2(3) placement_trans by blast
  ultimately show ?thesis using s(1) s1 s2 by simp
qed

definition round_ok :: "nat \<Rightarrow> se_id \<Rightarrow> lb_env \<Rightarrow> lb_state \<Rightarrow> round \<Rightarrow> lb_env \<Rightarrow> lb_state \<Rightarrow> bool" where
  "round_ok n i e b r e' b' \<longleftrightarrow> nesting_ok n (ks b') \<and> loop e' = loop e \<and> loop_break e' = loop_break e
     \<and> (case r of
          Passed \<Rightarrow> moves [] e b e' b' \<and> lb_imbalance e' = lb_imbalance e
        | Detached load \<Rightarrow> moves [i] e b e' b' \<and> lb_imbalance e' = lb_imbalance e - load \<and> load div 2 \<le> lb_imbalance e)"

lemma detach_round_ok:
  assumes "core_contract A n" "nesting_ok n (ks b)" "i \<in> set (cfs_tasks (rq_at (ks b) (src_cpu e)))"
  shows "\<exists>r e' b'. detach_round n A K i e b = Some (r, e', b') \<and> round_ok n i e b r e' b'"
proof -
  define tail where "tail = (\<lambda>b. b\<lparr>ks := upd_rq (src_cpu e) (\<lambda>r. r\<lparr>cfs_tasks := remove1 i (cfs_tasks r) @ [i]\<rparr>) (ks b)\<rparr> :: lb_state)"
  have tail: "round_ok n i e b Passed e' (tail b')"
    if "same_env e e'" "lb_tasks e' = lb_tasks e" "lb_imbalance e' = lb_imbalance e" "loop e' = loop e" "loop_break e' = loop_break e"
      "same_placement (ks b) (ks b')" "rq_at (ks b') = rq_at (ks b)" "nesting_ok n (ks b')" for e' b'
  proof -
    have "moves [] e b e' (tail b')"
      using that(1,2,6,7) assms(3) by (intro moves_nil) (simp_all add: tail_def upd_rq_def same_placement_def)
    then show ?thesis using that(3-5,8) by (simp add: round_ok_def) (simp add: tail_def)
  qed
  obtain ok e1 where c: "can_migrate_task K i e b = (ok, e1)" by (cases "can_migrate_task K i e b")
  note f = can_migrate_facts [OF c]
  show ?thesis
  proof (cases ok)
    case False
    then have "detach_round n A K i e b = Some (Passed, e1, tail b)" by (simp add: detach_round_def c tail_def)
    then show ?thesis using tail [of e1 b] f(1-5) assms(2) by auto
  next
    case True
    obtain l s where h: "task_h_load n i (ks b) = Some (l, s)" "h_load_frame (ks b) s" using task_h_load_returns [OF assms(2)] by blast
    define b1 where "b1 = b\<lparr>ks := s\<rparr>"
    have b1: "same_placement (ks b) (ks b1)" "rq_at (ks b1) = rq_at (ks b)" "nesting_ok n (ks b1)"
      using frame_placement [OF h(2)] h(2) frame_ok [OF h(2)] assms(2) by (simp_all add: b1_def h_load_frame_def)
    define pass where "pass \<longleftrightarrow> sched_feat K LB_MIN \<and> l < 16 \<and> nr_balance_failed (sd_of e1 b1) = 0 \<or> l div 2 > lb_imbalance e1"
    show ?thesis
    proof (cases pass)
      case True
      then have "detach_round n A K i e b = Some (Passed, e1, tail b1)"
        using \<open>ok\<close> h(1) by (auto simp: detach_round_def c tail_def pass_def b1_def Let_def)
      then show ?thesis using tail [of e1 b1] f(1-5) b1 by auto
    next
      case False
      have src: "src_cpu e1 = src_cpu e" "dst_cpu e1 = dst_cpu e" using f(1) by (simp_all add: same_env_def)
      then obtain b2 where b2: "detach_task A i e1 b1 = Some b2" "nesting_ok n (ks b2)" "same_placement (ks b1) (ks b2)"
        "cfs_tasks (rq_at (ks b2) (src_cpu e)) = remove1 i (cfs_tasks (rq_at (ks b1) (src_cpu e)))"
        "rq_nr_running (rq_at (ks b2) (src_cpu e)) = rq_nr_running (rq_at (ks b1) (src_cpu e)) - 1"
        using detach_task_ok [OF assms(1) b1(3), of i e1] assms(3) b1(2) by auto
      define e2 where "e2 = e1\<lparr>lb_tasks := i # lb_tasks e1, lb_imbalance := lb_imbalance e1 - l\<rparr>"
      have "detach_round n A K i e b = Some (Detached l, e2, b2)"
        using \<open>ok\<close> h(1) False b2(1) by (auto simp: detach_round_def c pass_def b1_def e2_def Let_def)
      moreover have "moves [i] e b e2 b2"
        using f(1,2) f(6) [OF \<open>ok\<close>] b2(3-5) b1(1,2) placement_trans [OF b1(1) b2(3)] assms(3)
        by (simp add: moves_def e2_def same_env_def)
      ultimately show ?thesis using f(3-5) b2(2) False by (auto simp: round_ok_def e2_def pass_def)
    qed
  qed
qed

section \<open>The loop\<close>

text \<open>The halved load bounds what is taken, and the subtraction does not leave the signed range.\<close>

lemma take_load:
  fixes x load :: "64 word"
  assumes "0 < sint x" "load div 2 \<le> x"
  shows "sint (x - load) = sint x - uint load" "uint load \<le> 2 * sint x + 1"
proof -
  have x: "sint x = uint x" using assms(1) by (simp add: sint_nonneg_uint)
  have "uint load div 2 \<le> uint x" using assms(2) by (simp add: word_le_def uint_div)
  then show l: "uint load \<le> 2 * sint x + 1" using x by linarith
  have "sint x < 9223372036854775808" using sint_lt [of x] by simp
  then show "sint (x - load) = sint x - uint load" using l by (intro sint_minus_uint) linarith
qed

definition loop_ok :: "nat \<Rightarrow> u32 \<Rightarrow> lb_env \<Rightarrow> lb_state \<Rightarrow> u32 \<Rightarrow> lb_env \<Rightarrow> lb_state \<Rightarrow> se_id list \<Rightarrow> bool" where
  "loop_ok n detached e b d e' b' moved \<longleftrightarrow>
     d = detached + of_nat (length moved) \<and> moves moved e b e' b' \<and> nesting_ok n (ks b')
     \<and> - sint (lb_imbalance e) - 1 \<le> sint (lb_imbalance e') \<and> sint (lb_imbalance e') \<le> sint (lb_imbalance e)
     \<and> length moved \<le> unat (loop_max e) - unat (loop e)
     \<and> (lb_idle e \<noteq> CPU_NOT_IDLE \<and> rq_nr_running (rq_at (ks b) (src_cpu e)) \<noteq> 0
          \<longrightarrow> rq_nr_running (rq_at (ks b') (src_cpu e)) \<noteq> 0)"

lemma loop_ok_stop:
  assumes "nesting_ok n (ks b)" "0 < sint (lb_imbalance e)" "same_env e e'" "lb_tasks e' = lb_tasks e" "lb_imbalance e' = lb_imbalance e"
  shows "loop_ok n detached e b detached e' b []"
  using assms by (simp add: loop_ok_def moves_nil)

text \<open>A round and the rest of the loop.\<close>

lemma loop_ok_step:
  assumes "moves xs e b e1 b1" "loop_ok n (detached + of_nat (length xs)) e1 b1 d e' b' ys"
    "- sint (lb_imbalance e) \<le> sint (lb_imbalance e1)" "sint (lb_imbalance e1) \<le> sint (lb_imbalance e)"
    "length xs + (unat (loop_max e1) - unat (loop e1)) \<le> unat (loop_max e) - unat (loop e)"
    "lb_idle e \<noteq> CPU_NOT_IDLE \<Longrightarrow> rq_nr_running (rq_at (ks b1) (src_cpu e)) \<noteq> 0"
  shows "loop_ok n detached e b d e' b' (ys @ xs)"
proof -
  note l = assms(2) [unfolded loop_ok_def]
  have m: "moves (ys @ xs) e b e' b'" using moves_trans [OF assms(1)] l by blast
  have eq: "src_cpu e1 = src_cpu e" "lb_idle e1 = lb_idle e" using assms(1) by (simp_all add: moves_def same_env_def)
  have d: "d = detached + of_nat (length (ys @ xs))" using l by (simp add: algebra_simps)
  have i: "- sint (lb_imbalance e) - 1 \<le> sint (lb_imbalance e')" "sint (lb_imbalance e') \<le> sint (lb_imbalance e)"
    using l assms(3,4) by linarith+
  have c: "length (ys @ xs) \<le> unat (loop_max e) - unat (loop e)" using l assms(5) by simp
  have r: "lb_idle e \<noteq> CPU_NOT_IDLE \<Longrightarrow> rq_nr_running (rq_at (ks b') (src_cpu e)) \<noteq> 0"
    using l assms(6) eq by simp
  show ?thesis using m d i c r l unfolding loop_ok_def by blast
qed

definition taken :: "se_id \<Rightarrow> round \<Rightarrow> se_id list" where
  "taken i r = (case r of Passed \<Rightarrow> [] | Detached _ \<Rightarrow> [i])"

definition more_rounds :: "lb_env \<Rightarrow> lb_state \<Rightarrow> bool" where
  "more_rounds e b \<longleftrightarrow> loop e < loop_max e \<and> unat (loop_max e) < 4294967295
     \<and> (lb_idle e \<noteq> CPU_NOT_IDLE \<longrightarrow> rq_nr_running (rq_at (ks b) (src_cpu e)) \<notin> {0, 1})"

lemma round_in_loop:
  assumes "0 < sint (lb_imbalance e)" "more_rounds e b" "round_ok n i (e\<lparr>loop := loop e + 1\<rparr>) b r e1 b1"
  shows "moves (taken i r) e b e1 b1" "loop_max e1 = loop_max e" "unat (loop e1) = unat (loop e) + 1"
    "lb_idle e \<noteq> CPU_NOT_IDLE \<Longrightarrow> rq_nr_running (rq_at (ks b1) (src_cpu e)) \<noteq> 0"
    "loop_ok n detached e b (detached + of_nat (length (taken i r))) e1 b1 (taken i r)"
proof -
  have same: "moves xs e b e1 b1" if "moves xs (e\<lparr>loop := loop e + 1\<rparr>) b e1 b1" for xs
    using that by (simp add: moves_def same_env_def)
  show m: "moves (taken i r) e b e1 b1" using assms(3) same by (simp add: round_ok_def taken_def split: round.splits)
  then show mx: "loop_max e1 = loop_max e" by (simp add: moves_def same_env_def)
  show lp: "unat (loop e1) = unat (loop e) + 1"
    using assms(2,3) by (simp add: round_ok_def more_rounds_def word_less_nat_alt unat_plus_u32)
  have nr: "rq_nr_running (rq_at (ks b1) (src_cpu e)) = rq_nr_running (rq_at (ks b) (src_cpu e)) - of_nat (length (taken i r))"
    using m by (simp add: moves_def)
  show nr0: "rq_nr_running (rq_at (ks b1) (src_cpu e)) \<noteq> 0" if "lb_idle e \<noteq> CPU_NOT_IDLE"
    using assms(2) that nr by (auto simp: more_rounds_def taken_def split: round.splits)
  have imb: "- sint (lb_imbalance e) - 1 \<le> sint (lb_imbalance e1) \<and> sint (lb_imbalance e1) \<le> sint (lb_imbalance e)"
  proof (cases r)
    case Passed
    then show ?thesis using assms(1,3) by (simp add: round_ok_def)
  next
    case (Detached l)
    then have "lb_imbalance e1 = lb_imbalance e - l" "l div 2 \<le> lb_imbalance e" using assms(3) by (simp_all add: round_ok_def)
    then show ?thesis using take_load [OF assms(1), of l] uint_ge_0 [of l] by auto
  qed
  have "length (taken i r) \<le> unat (loop_max e) - unat (loop e)"
    using assms(2) by (auto simp: more_rounds_def word_less_nat_alt taken_def split: round.splits)
  then show "loop_ok n detached e b (detached + of_nat (length (taken i r))) e1 b1 (taken i r)"
    using m imb nr0 assms(3) by (simp add: loop_ok_def round_ok_def)
qed

text \<open>The exits before a round, and a round with what follows it.\<close>

lemma detach_loop_exit:
  assumes "nesting_ok n (ks b)" "0 < sint (lb_imbalance e)"
    "cfs_tasks (rq_at (ks b) (src_cpu e)) = [] \<or> \<not> more_rounds e b \<or> loop e + 1 > loop_break e"
    "unat (loop_max e) < 4294967295" "loop e \<le> loop_max e"
  shows "\<exists>e'. detach_loop m n A K detached e b = Some (detached, e', b) \<and> loop_ok n detached e b detached e' b []"
proof -
  have "loop e + 1 > loop_max e \<longleftrightarrow> \<not> loop e < loop_max e"
    using assms(4,5) by (simp add: word_less_nat_alt word_le_nat_alt unat_plus_u32 not_less) linarith
  moreover have "(rq_nr_running (rq_at (ks b) (src_cpu e)) \<le> 1) = (rq_nr_running (rq_at (ks b) (src_cpu e)) \<in> {0, 1})"
    by (auto simp: word_le_nat_alt word_unat_eq_iff)
  ultimately have "\<exists>e'. detach_loop m n A K detached e b = Some (detached, e', b) \<and> same_env e e'
      \<and> lb_tasks e' = lb_tasks e \<and> lb_imbalance e' = lb_imbalance e"
    using assms(3,4) by (subst detach_loop.simps) (auto simp: Let_def same_env_def more_rounds_def split: list.split)
  then show ?thesis using loop_ok_stop [OF assms(1,2)] by blast
qed

lemma detach_loop_round:
  assumes "cfs_tasks (rq_at (ks b) (src_cpu e)) = i # js" "more_rounds e b" "\<not> loop e + 1 > loop_break e"
    "detach_round n A K i (e\<lparr>loop := loop e + 1\<rparr>) b = Some (r, e1, b1)"
  shows "detach_loop (Suc m) n A K detached e b =
    (if r \<noteq> Passed \<and> (config_preempt A \<and> lb_idle e1 = CPU_NEWLY_IDLE \<or> sint (lb_imbalance e1) \<le> 0)
     then Some (detached + of_nat (length (taken i r)), e1, b1)
     else detach_loop m n A K (detached + of_nat (length (taken i r))) e1 b1)"
proof -
  have "\<not> loop e + 1 > loop_max e"
    using assms(2) by (simp add: more_rounds_def word_less_nat_alt unat_plus_u32 not_less)
  moreover have "\<not> (lb_idle e \<noteq> CPU_NOT_IDLE \<and> rq_nr_running (rq_at (ks b) (src_cpu e)) \<le> 1)"
    using assms(2) by (auto simp: more_rounds_def word_le_nat_alt word_unat_eq_iff)
  ultimately show ?thesis
    using assms(1,3,4) by (subst detach_loop.simps) (auto simp: Let_def taken_def split: round.split)
qed

lemma detach_loop_ok:
  assumes "core_contract A n" "nesting_ok n (ks b)" "0 < sint (lb_imbalance e)" "unat (loop_max e) < 4294967295"
    "loop e \<le> loop_max e" "unat (loop_max e) - unat (loop e) \<le> m"
  shows "\<exists>d e' b' moved. detach_loop m n A K detached e b = Some (d, e', b') \<and> loop_ok n detached e b d e' b' moved"
  using assms(2-6)
proof (induction m arbitrary: detached e b)
  case (0 detached e b)
  then have "\<not> more_rounds e b" by (simp add: more_rounds_def word_less_nat_alt)
  then show ?case using detach_loop_exit [OF 0(1,2) _ 0(3,4)] by blast
next
  case (Suc m detached e b)
  show ?case
  proof (cases "cfs_tasks (rq_at (ks b) (src_cpu e)) = [] \<or> \<not> more_rounds e b \<or> loop e + 1 > loop_break e")
    case True
    then show ?thesis using detach_loop_exit [OF Suc.prems(1,2) _ Suc.prems(3,4)] by blast
  next
    case False
    then obtain i js where ts: "cfs_tasks (rq_at (ks b) (src_cpu e)) = i # js" by (cases "cfs_tasks (rq_at (ks b) (src_cpu e))") auto
    have mr: "more_rounds e b" "\<not> loop e + 1 > loop_break e" using False by auto
    have "i \<in> set (cfs_tasks (rq_at (ks b) (src_cpu (e\<lparr>loop := loop e + 1\<rparr>))))" using ts by simp
    then obtain r e1 b1 where r: "detach_round n A K i (e\<lparr>loop := loop e + 1\<rparr>) b = Some (r, e1, b1)"
      "round_ok n i (e\<lparr>loop := loop e + 1\<rparr>) b r e1 b1"
      using detach_round_ok [OF assms(1) Suc.prems(1)] by blast
    note f = round_in_loop [OF Suc.prems(2) mr(1) r(2)]
    note body = detach_loop_round [OF ts mr r(1), of m detached]
    show ?thesis
    proof (cases "r \<noteq> Passed \<and> (config_preempt A \<and> lb_idle e1 = CPU_NEWLY_IDLE \<or> sint (lb_imbalance e1) \<le> 0)")
      case True
      then show ?thesis using body f(5) [of detached] by auto
    next
      case False
      have imb: "0 < sint (lb_imbalance e1)"
        using False r(2) Suc.prems(2) by (cases r) (auto simp: round_ok_def)
      have lp: "loop e1 \<le> loop_max e1" "unat (loop_max e1) - unat (loop e1) \<le> m"
        using f(2,3) mr(1) Suc.prems(5) by (auto simp: more_rounds_def word_less_nat_alt word_le_nat_alt)
      obtain d e' b' moved where i: "detach_loop m n A K (detached + of_nat (length (taken i r))) e1 b1 = Some (d, e', b')"
        "loop_ok n (detached + of_nat (length (taken i r))) e1 b1 d e' b' moved"
        using Suc.IH [of b1 e1 "detached + of_nat (length (taken i r))"] r(2) imb lp f(2) Suc.prems(3) by (auto simp: round_ok_def)
      have "loop_ok n detached e b d e' b' (moved @ taken i r)"
      proof (rule loop_ok_step [OF f(1) i(2)])
        show "- sint (lb_imbalance e) \<le> sint (lb_imbalance e1)" "sint (lb_imbalance e1) \<le> sint (lb_imbalance e)"
          using imb Suc.prems(2) f(5) [of detached] by (simp_all add: loop_ok_def)
        show "length (taken i r) + (unat (loop_max e1) - unat (loop e1)) \<le> unat (loop_max e) - unat (loop e)"
          using f(2,3) mr(1) by (auto simp: more_rounds_def word_less_nat_alt taken_def split: round.splits)
      qed (rule f(4))
      then show ?thesis using i(1) body False by auto
    qed
  qed
qed

section \<open>Detaching tasks\<close>

lemma detach_tasks_ok:
  assumes "core_contract A n" "nesting_ok n (ks b)" "0 < sint (lb_imbalance e)" "loop e \<le> loop_max e" "unat (loop_max e) < 4294967295"
  shows "\<exists>d e' b' moved. detach_tasks n A K e b = Some (d, e', b') \<and> loop_ok n 0 e b d e' b' moved"
  using detach_loop_ok [OF assms(1-3,5,4), of "unat (loop_max e)" K 0] assms(3) by (simp add: detach_tasks_def)

section \<open>The load that is taken\<close>

text \<open>
  The tasks taken one after the other with the load each had when it was taken, as \<open>task_h_load\<close> computes it
  in that state: between two of them the load of a task may be computed (which refreshes cached
  loads) and a task that is passed over goes to the tail of the list.
\<close>

inductive takes :: "nat \<Rightarrow> lb_api \<Rightarrow> cpu \<Rightarrow> cpu \<Rightarrow> (se_id \<times> ulong) list \<Rightarrow> lb_state \<Rightarrow> lb_state \<Rightarrow> bool" for n A src dst where
  none: "takes n A src dst [] b b"
| look: "task_h_load n i (ks b) = Some (l, s) \<Longrightarrow> takes n A src dst xs (b\<lparr>ks := s\<rparr>) b' \<Longrightarrow> takes n A src dst xs b b'"
| pass: "takes n A src dst xs (b\<lparr>ks := upd_rq src (\<lambda>r. r\<lparr>cfs_tasks := remove1 i (cfs_tasks r) @ [i]\<rparr>) (ks b)\<rparr>) b' \<Longrightarrow>
    takes n A src dst xs b b'"
| take: "task_h_load n i (ks b) = Some (l, s) \<Longrightarrow> src_cpu e = src \<Longrightarrow> dst_cpu e = dst \<Longrightarrow>
    detach_task A i e (b\<lparr>ks := s\<rparr>) = Some b1 \<Longrightarrow> takes n A src dst xs b1 b' \<Longrightarrow> takes n A src dst ((i, l) # xs) b b'"

definition taken_load :: "(se_id \<times> ulong) list \<Rightarrow> int" where
  "taken_load xs = (\<Sum>x\<leftarrow>xs. uint (snd x))"

lemma taken_load_simps [simp]:
  "taken_load [] = 0" "taken_load (x # xs) = uint (snd x) + taken_load xs" "taken_load (xs @ ys) = taken_load xs + taken_load ys"
  by (simp_all add: taken_load_def)

lemma taken_load_nonneg: "0 \<le> taken_load xs"
  by (induction xs) simp_all

text \<open>Each task taken had half its load within what was still to be moved, and something was.\<close>

fun fits :: "int \<Rightarrow> (se_id \<times> ulong) list \<Rightarrow> bool" where
  "fits m [] \<longleftrightarrow> True"
| "fits m ((i, l) # xs) \<longleftrightarrow> 0 < m \<and> uint l div 2 \<le> m \<and> fits (m - uint l) xs"

lemma fits_split: "fits m (ys @ (i, l) # zs) \<Longrightarrow> taken_load ys < m \<and> uint l div 2 \<le> m - taken_load ys"
  by (induction ys arbitrary: m) (fastforce simp: algebra_simps)+

lemma fits_total: "fits m xs \<Longrightarrow> xs \<noteq> [] \<Longrightarrow> taken_load xs \<le> 2 * m + 1"
proof (induction xs arbitrary: m)
  case (Cons x xs)
  obtain i l where x: "x = (i, l)" by (cases x)
  have l: "uint l div 2 \<le> m" "fits (m - uint l) xs" "0 \<le> uint l" using Cons.prems(1) x by simp_all
  show ?case
  proof (cases "xs = []")
    case True
    then show ?thesis using l(1) x by simp
  next
    case False
    have "taken_load xs \<le> 2 * (m - uint l) + 1" by (rule Cons.IH [OF l(2) False])
    moreover have "t \<le> 2 * (m - u) + 1 \<Longrightarrow> 0 \<le> u \<Longrightarrow> u + t \<le> 2 * m + 1" for t u :: int by simp
    ultimately have "uint l + taken_load xs \<le> 2 * m + 1" using l(3) by blast
    then show ?thesis using x by simp
  qed
qed simp

definition takes_load :: "nat \<Rightarrow> lb_api \<Rightarrow> (se_id \<times> ulong) list \<Rightarrow> lb_env \<Rightarrow> lb_state \<Rightarrow> lb_env \<Rightarrow> lb_state \<Rightarrow> bool" where
  "takes_load n A xs e b e' b' \<longleftrightarrow> takes n A (src_cpu e) (dst_cpu e) xs b b' \<and> lb_tasks e' = rev (map fst xs) @ lb_tasks e
     \<and> sint (lb_imbalance e') = sint (lb_imbalance e) - taken_load xs \<and> fits (sint (lb_imbalance e)) xs"

lemma round_takes:
  assumes "detach_round n A K i e b = Some (r, e1, b1)"
  shows "same_env e e1 \<and> (case r of
      Passed \<Rightarrow> lb_imbalance e1 = lb_imbalance e \<and> lb_tasks e1 = lb_tasks e
        \<and> (\<forall>xs b'. takes n A (src_cpu e) (dst_cpu e) xs b1 b' \<longrightarrow> takes n A (src_cpu e) (dst_cpu e) xs b b')
    | Detached l \<Rightarrow> lb_imbalance e1 = lb_imbalance e - l \<and> lb_tasks e1 = i # lb_tasks e \<and> l div 2 \<le> lb_imbalance e
        \<and> (\<forall>xs b'. takes n A (src_cpu e) (dst_cpu e) xs b1 b' \<longrightarrow> takes n A (src_cpu e) (dst_cpu e) ((i, l) # xs) b b'))"
proof -
  obtain ok e0 where c: "can_migrate_task K i e b = (ok, e0)" by (cases "can_migrate_task K i e b")
  note f = can_migrate_facts [OF c]
  show ?thesis
  proof (cases ok)
    case False
    then have "r = Passed" "e1 = e0" "b1 = b\<lparr>ks := upd_rq (src_cpu e) (\<lambda>r. r\<lparr>cfs_tasks := remove1 i (cfs_tasks r) @ [i]\<rparr>) (ks b)\<rparr>"
      using assms by (simp_all add: detach_round_def c)
    then show ?thesis using f(1-3) takes.pass by simp
  next
    case True
    then obtain l s where h: "task_h_load n i (ks b) = Some (l, s)"
      using assms by (auto simp: detach_round_def c Let_def split: bind_splits)
    define b0 where "b0 = b\<lparr>ks := s\<rparr>"
    have src: "src_cpu e0 = src_cpu e" "dst_cpu e0 = dst_cpu e" using f(1) by (simp_all add: same_env_def)
    consider (passed) "r = Passed" "e1 = e0" "b1 = b0\<lparr>ks := upd_rq (src_cpu e) (\<lambda>r. r\<lparr>cfs_tasks := remove1 i (cfs_tasks r) @ [i]\<rparr>) (ks b0)\<rparr>"
      | (detached) "r = Detached l" "e1 = e0\<lparr>lb_tasks := i # lb_tasks e0, lb_imbalance := lb_imbalance e0 - l\<rparr>" "l div 2 \<le> lb_imbalance e0"
          "detach_task A i e0 b0 = Some b1"
      using assms True h by (auto simp: detach_round_def c Let_def b0_def not_less split: if_splits bind_splits)
    then show ?thesis
    proof cases
      case passed
      then show ?thesis using f(1-3) takes.look [OF h, folded b0_def, OF takes.pass] by simp
    next
      case detached
      then have "same_env e e1" using f(1) by (simp add: same_env_def)
      then show ?thesis using detached f(2,3) takes.take [OF h src detached(4) [unfolded b0_def]] by simp
    qed
  qed
qed

lemma loop_takes:
  "detach_loop m n A K detached e b = Some (d, e', b') \<Longrightarrow> 0 < sint (lb_imbalance e) \<Longrightarrow> \<exists>xs. takes_load n A xs e b e' b'"
proof (induction m arbitrary: detached e b)
  case (0 detached e b)
  then have "b' = b \<and> lb_tasks e' = lb_tasks e \<and> lb_imbalance e' = lb_imbalance e"
    by (subst (asm) detach_loop.simps) (auto simp: Let_def split: list.splits if_splits)
  then show ?case using takes.none by (intro exI [of _ "[]"]) (simp add: takes_load_def)
next
  case (Suc m detached e b)
  define e0 where "e0 = e\<lparr>loop := loop e + 1\<rparr>"
  consider (stop) "b' = b" "lb_tasks e' = lb_tasks e" "lb_imbalance e' = lb_imbalance e"
    | (round) i r e1 b1 where "detach_round n A K i e0 b = Some (r, e1, b1)"
        "(case r of Passed \<Rightarrow> detach_loop m n A K detached e1 b1
          | Detached load \<Rightarrow> let detached = detached + 1 in
              if config_preempt A \<and> lb_idle e1 = CPU_NEWLY_IDLE then Some (detached, e1, b1)
              else if sint (lb_imbalance e1) \<le> 0 then Some (detached, e1, b1)
              else detach_loop m n A K detached e1 b1) = Some (d, e', b')"
    using Suc.prems(1) unfolding detach_loop.simps [of "Suc m"]
    by (auto simp: Let_def [of "e\<lparr>loop := loop e + 1\<rparr>"] e0_def split: list.split_asm if_split_asm bind_splits)
  then show ?case
  proof cases
    case stop
    then show ?thesis using takes.none by (intro exI [of _ "[]"]) (simp add: takes_load_def)
  next
    case round
    note t = round_takes [OF round(1)]
    have env: "src_cpu e1 = src_cpu e" "dst_cpu e1 = dst_cpu e" "src_cpu e0 = src_cpu e" "dst_cpu e0 = dst_cpu e"
      "lb_imbalance e0 = lb_imbalance e" "lb_tasks e0 = lb_tasks e"
      using t by (simp_all add: same_env_def e0_def)
    show ?thesis
    proof (cases r)
      case Passed
      then obtain xs where "takes_load n A xs e1 b1 e' b'"
        using Suc.IH [of detached e1 b1] round(2) t Suc.prems(2) env by auto
      then show ?thesis using t Passed env by (intro exI [of _ xs]) (simp add: takes_load_def)
    next
      case (Detached l)
      have imb: "lb_imbalance e1 = lb_imbalance e - l" "l div 2 \<le> lb_imbalance e" using t Detached env by simp_all
      have si: "sint (lb_imbalance e1) = sint (lb_imbalance e) - uint l"
        unfolding imb(1) by (rule take_load(1) [OF Suc.prems(2) imb(2)])
      have half: "uint l div 2 \<le> sint (lb_imbalance e)"
        using imb(2) Suc.prems(2) by (simp add: sint_nonneg_uint word_le_def uint_div)
      have "\<exists>xs. takes_load n A xs e1 b1 e' b'"
      proof (cases "e' = e1 \<and> b' = b1")
        case True
        then show ?thesis using takes.none by (intro exI [of _ "[]"]) (simp add: takes_load_def)
      next
        case False
        then show ?thesis using Suc.IH [of "detached + 1" e1 b1] round(2) Detached by (auto simp: Let_def split: if_splits)
      qed
      then obtain xs where xs: "takes_load n A xs e1 b1 e' b'" by blast
      then have "takes_load n A ((i, l) # xs) e b e' b'"
        using t Detached env si half Suc.prems(2) by (simp add: takes_load_def)
      then show ?thesis by blast
    qed
  qed
qed

text \<open>C14: \<open>detach_tasks\<close> returns after at most \<open>loop_max\<close> rounds and takes no more load than it should. The tasks on the
  list are those it took, the latest first, and the imbalance that is left, a signed \<open>long\<close>, is the one prescribed less exactly the
  loads they had when taken, without wrapping although loads are unsigned and a task may be larger than the
  imbalance. Before each task something was left to move, and at least half of the task's load;
  so all in all they have at most twice the prescribed imbalance and one.\<close>
theorem detach_tasks_bounded:
  assumes "core_contract A n" and "nesting_ok n (ks b)" and "loop e \<le> loop_max e" and "unat (loop_max e) < 4294967295"
  shows "\<exists>d e' b' xs. detach_tasks n A K e b = Some (d, e', b') \<and> takes n A (src_cpu e) (dst_cpu e) xs b b'
    \<and> lb_tasks e' = rev (map fst xs) @ lb_tasks e \<and> unat d = length xs \<and> length xs \<le> unat (loop_max e) - unat (loop e)
    \<and> sint (lb_imbalance e') = sint (lb_imbalance e) - taken_load xs
    \<and> (\<forall>ys i l zs. xs = ys @ (i, l) # zs \<longrightarrow>
         taken_load ys < sint (lb_imbalance e) \<and> uint l div 2 \<le> sint (lb_imbalance e) - taken_load ys)
    \<and> taken_load xs \<le> (if sint (lb_imbalance e) \<le> 0 then 0 else 2 * sint (lb_imbalance e) + 1)"
proof (cases "sint (lb_imbalance e) \<le> 0")
  case True
  then show ?thesis
    using takes.none by (intro exI [of _ 0] exI [of _ e] exI [of _ b] exI [of _ "[]"]) (simp add: detach_tasks_def)
next
  case False
  then obtain d e' b' moved where r: "detach_tasks n A K e b = Some (d, e', b')" "loop_ok n 0 e b d e' b' moved"
    using detach_tasks_ok [OF assms(1,2) _ assms(3,4)] by fastforce
  then have m: "d = of_nat (length moved)" "length moved \<le> unat (loop_max e) - unat (loop e)" "lb_tasks e' = moved @ lb_tasks e"
    by (simp_all add: loop_ok_def moves_def)
  obtain xs where xs: "takes_load n A xs e b e' b'"
    using loop_takes [of "unat (loop_max e)" n A K 0 e b d e' b'] r(1) False by (auto simp: detach_tasks_def)
  then have len: "length moved = length xs" using m(3) by (simp add: takes_load_def)
  have "length moved < 4294967296" using m(2) assms(4) by linarith
  then have d: "unat d = length xs" using m(1) len by (simp add: of_nat_eq_unat)
  have fit: "fits (sint (lb_imbalance e)) xs" using xs by (simp add: takes_load_def)
  then have "taken_load xs \<le> 2 * sint (lb_imbalance e) + 1"
    using fits_total False by (cases "xs = []") auto
  then show ?thesis
    using r(1) xs d m(2) len fits_split fit False
    by (intro exI [of _ d] exI [of _ e'] exI [of _ b'] exI [of _ xs]) (auto simp: takes_load_def)
qed

text \<open>C10: \<open>detach_tasks\<close> returns, and what it puts on the list of the environment are tasks of the source that may
  run on the destination and that no cpu executes; the other tasks stay, in whatever order, the count of the source
  falls by the number of tasks taken, and an idle or newly idle cpu never takes the last one.\<close>
theorem detach_tasks_safe:
  assumes "core_contract A n" and "nesting_ok n (ks b)" and "loop e \<le> loop_max e" and "unat (loop_max e) < 4294967295"
  shows "\<exists>d e' b' moved. detach_tasks n A K e b = Some (d, e', b') \<and> lb_tasks e' = moved @ lb_tasks e
    \<and> d = of_nat (length moved)
    \<and> (\<forall>i\<in>set moved. cpus_allowed (task_at (ks b) i) (dst_cpu e) \<and> \<not> on_cpu (task_at (ks b) i))
    \<and> mset (cfs_tasks (rq_at (ks b') (src_cpu e))) + mset moved = mset (cfs_tasks (rq_at (ks b) (src_cpu e)))
    \<and> rq_nr_running (rq_at (ks b') (src_cpu e)) = rq_nr_running (rq_at (ks b) (src_cpu e)) - d
    \<and> (lb_idle e \<noteq> CPU_NOT_IDLE \<and> rq_nr_running (rq_at (ks b) (src_cpu e)) \<noteq> 0
         \<longrightarrow> rq_nr_running (rq_at (ks b') (src_cpu e)) \<noteq> 0)"
proof (cases "sint (lb_imbalance e) \<le> 0")
  case True
  then show ?thesis by (simp add: detach_tasks_def)
next
  case False
  then obtain d e' b' moved where r: "detach_tasks n A K e b = Some (d, e', b')" "loop_ok n 0 e b d e' b' moved"
    using detach_tasks_ok [OF assms(1,2) _ assms(3,4)] by fastforce
  then have "moves moved e b e' b'" "d = of_nat (length moved)"
    "lb_idle e \<noteq> CPU_NOT_IDLE \<and> rq_nr_running (rq_at (ks b) (src_cpu e)) \<noteq> 0
       \<longrightarrow> rq_nr_running (rq_at (ks b') (src_cpu e)) \<noteq> 0"
    by (simp_all add: loop_ok_def)
  then show ?thesis using r(1) by (auto simp: moves_def)
qed

text \<open>Two tasks on cpu 0, of which one is pinned there, for a cpu 1 that is about to idle.\<close>

definition pinned_and_free :: lb_state where
  "pinned_and_free = balancing_state (zero_state\<lparr>
     rq_at := (\<lambda>u. if u = 0 then zero_rq\<lparr>cfs_tasks := [2, 7], rq_nr_running := 2\<rparr> else zero_rq),
     task_at := (\<lambda>i. zero_task\<lparr>cpus_allowed := (\<lambda>u. i \<noteq> 2 \<or> u = 0)\<rparr>)\<rparr>)"

definition pull_env :: lb_env where
  "pull_env = (active_env 0 0 1)\<lparr>lb_idle := CPU_NEWLY_IDLE, lb_imbalance := 100, loop_break := 32, loop_max := 2\<rparr>"

lemma plain_core_contract: "core_contract plain_core n"
proof -
  have "same_placement s (upd_rq u f s)" for s u f by (simp add: same_placement_def upd_rq_def)
  moreover have "same_placement s (upd_task i (\<lambda>t. t\<lparr>task_cpu := u\<rparr>) s)" for s i u by (simp add: same_placement_def upd_task_def)
  moreover have "rq_at (upd_task i f s) = rq_at s" for i f s by (simp add: upd_task_def)
  moreover have "rq_at (upd_rq u f s) u = f (rq_at s u)" for u f s by (simp add: upd_rq_def)
  ultimately show ?thesis by (simp add: core_contract_def plain_core_def)
qed

lemma flat_nesting: "nesting_ok n (ks pinned_and_free)"
proof -
  have "owner c (ks pinned_and_free) = None" for c by (simp add: owner_def pinned_and_free_def balancing_defs zero_defs)
  then show ?thesis by (simp add: nesting_ok_def) (simp add: pinned_and_free_def balancing_defs zero_defs)
qed

theorem detach_tasks_bounded_witness:
  "\<exists>d e' b'. detach_tasks 3 plain_core plain_api pull_env pinned_and_free = Some (d, e', b') \<and> sint (lb_imbalance e') \<ge> - 101"
  using detach_tasks_bounded [OF plain_core_contract flat_nesting, of pull_env 3 plain_api]
  by (auto simp: pull_env_def active_env_def)

theorem detach_tasks_safe_witness:
  "\<exists>d e' b'. detach_tasks 3 plain_core plain_api pull_env pinned_and_free = Some (d, e', b') \<and> 2 \<notin> set (lb_tasks e')"
  using detach_tasks_safe [OF plain_core_contract flat_nesting, of pull_env 3 plain_api]
  by (auto simp: pull_env_def active_env_def pinned_and_free_def balancing_state_def zero_defs)

end
