(* ===== verification/Imbalance_Props.thy ===== *)
theory Imbalance_Props
  imports Balance_Find
begin

text \<open>
  The choices of balancing: the imbalance brings neither group past the average of the domain, the busiest queue
  has the most load for its capacity, and what the capacity of an overlapping group really records.
\<close>

section \<open>The imbalance\<close>

text \<open>Taking \<open>m\<close> off a load, or adding it, in terms of averages scaled by capacity.\<close>

lemma average_stays_above:
  fixes load m cap avg :: nat
  assumes "0 < cap" "avg \<le> load * 1024 div cap" "m * 1024 \<le> (load * 1024 div cap - avg) * cap"
  shows "m \<le> load" "avg \<le> (load - m) * 1024 div cap"
proof -
  have "load * 1024 div cap * cap \<le> load * 1024" by simp
  then have s: "m * 1024 + avg * cap \<le> load * 1024"
    using assms(2,3) mult_le_mono1 [OF assms(2), of cap] unfolding diff_mult_distrib by linarith
  then show "m \<le> load" by linarith
  have "avg * cap \<le> (load - m) * 1024" using s by (simp add: diff_mult_distrib)
  then show "avg \<le> (load - m) * 1024 div cap" using assms(1) by (simp add: less_eq_div_iff_mult_less_eq)
qed

lemma average_stays_below:
  fixes load m cap avg :: nat
  assumes "0 < cap" "load * 1024 div cap \<le> avg" "m * 1024 \<le> (avg - load * 1024 div cap) * cap"
  shows "(load + m) * 1024 div cap \<le> avg"
proof -
  define a where "a = load * 1024 div cap"
  have "load * 1024 < (a + 1) * cap" using assms(1) div_less_iff_less_mult [of cap "load * 1024" "a + 1"] unfolding a_def by simp
  moreover have "m * 1024 + a * cap \<le> avg * cap"
    using assms(3) mult_le_mono1 [OF assms(2), of cap] unfolding a_def [symmetric] diff_mult_distrib by linarith
  ultimately have "(load + m) * 1024 < (avg + 1) * cap" by (simp add: algebra_simps)
  then have "(load + m) * 1024 div cap < avg + 1" using assms(1) by (simp add: div_less_iff_less_mult)
  then show ?thesis by simp
qed

text \<open>The statistics of a group agree with its load, and its load fits the scale.\<close>

definition stats_agree :: "sg_lb_stats \<Rightarrow> bool" where
  "stats_agree g \<longleftrightarrow> group_capacity g \<noteq> 0 \<and> unat (group_load g) < 18014398509481984
     \<and> unat (avg_load g) = unat (group_load g) * 1024 div unat (group_capacity g)"

lemma agree_product: "stats_agree g \<Longrightarrow> unat (avg_load g) * unat (group_capacity g) \<le> unat (group_load g) * 1024"
  by (simp add: stats_agree_def)

lemma fix_small_cases:
  assumes "group_capacity (busiest_stat sds) \<noteq> 0" "group_capacity (local_stat sds) \<noteq> 0"
  shows "\<exists>e'. fix_small_imbalance e sds s = Some e'
    \<and> (lb_imbalance e' = load_per_task (busiest_stat sds) \<or> lb_imbalance e' = lb_imbalance e)"
  using assms by (auto simp: fix_small_imbalance_def Let_def)

text \<open>The amount of the main branch, in natural numbers.\<close>

lemma pull_bounds:
  fixes busy avg mine capb capl above :: ulong
  assumes "avg < busy" "mine < avg" "unat busy * unat capb < 18446744073709551616" "unat avg * unat capl < 18446744073709551616"
  defines "imb \<equiv> min (min (busy - avg) above * capb) ((avg - mine) * capl) div 1024"
  shows "unat imb * 1024 \<le> (unat busy - unat avg) * unat capb" "unat imb * 1024 \<le> (unat avg - unat mine) * unat capl"
proof -
  have d: "unat (busy - avg) = unat busy - unat avg" "unat (avg - mine) = unat avg - unat mine"
    using assms(1,2) by (simp_all add: unat_minus_le word_less_nat_alt word_le_nat_alt)
  have mp: "unat (min (busy - avg) above) \<le> unat busy - unat avg" using d by (simp add: min_def word_le_nat_alt)
  then have x: "unat (min (busy - avg) above) * unat capb \<le> (unat busy - unat avg) * unat capb" by (rule mult_le_mono1)
  have "(unat busy - unat avg) * unat capb \<le> unat busy * unat capb" by simp
  then have p1: "unat (min (busy - avg) above * capb) = unat (min (busy - avg) above) * unat capb"
    using x assms(3) by (intro unat_times_u64) linarith
  have "(unat avg - unat mine) * unat capl \<le> unat avg * unat capl" by simp
  then have "unat (avg - mine) * unat capl < 18446744073709551616" unfolding d using assms(4) by linarith
  then have p2: "unat ((avg - mine) * capl) = (unat avg - unat mine) * unat capl" using d(2) by (simp add: unat_times_u64)
  define low where "low = min (min (busy - avg) above * capb) ((avg - mine) * capl)"
  have l: "unat low \<le> unat (min (busy - avg) above * capb)" "unat low \<le> unat ((avg - mine) * capl)"
    by (simp_all add: low_def min_def word_le_nat_alt)
  have "unat imb = unat low div 1024" by (simp add: imb_def low_def unat_div)
  then have i: "unat imb * 1024 \<le> unat low" by simp
  show "unat imb * 1024 \<le> (unat busy - unat avg) * unat capb" using i l(1) p1 x by linarith
  show "unat imb * 1024 \<le> (unat avg - unat mine) * unat capl" using i l(2) p2 by linarith
qed

text \<open>Moving the amount \<open>m\<close> leaves the busiest group at or above the average and the local group at or below it.\<close>

definition keeps_average :: "sd_lb_stats \<Rightarrow> ulong \<Rightarrow> bool" where
  "keeps_average sds imb \<longleftrightarrow>
     (let m = unat imb; bs = busiest_stat sds; ls = local_stat sds in
      m \<le> unat (group_load bs)
      \<and> unat (sds_avg_load sds) \<le> (unat (group_load bs) - m) * 1024 div unat (group_capacity bs)
      \<and> (unat (group_load ls) + m) * 1024 div unat (group_capacity ls) \<le> unat (sds_avg_load sds))"

text \<open>C11: when the busiest group is above and the local group below the average of the domain, the imbalance that
  \<open>calculate_imbalance\<close> returns is the load of one task or an amount that keeps them so: moved away, it leaves the
  busiest group at or above the average and the local group at or below it, with the averages as the code rounds them.
  For a group with a misfit task there is a third case: where the amount that keeps the averages is less than the
  capacity the misfit task lacks, the imbalance may be that capacity, which can pass them. The averages handed in
  are those of the loads and capacities of the groups.\<close>
theorem imbalance_keeps_average:
  assumes "sds_avg_load sds < avg_load (busiest_stat sds)" and "avg_load (local_stat sds) < sds_avg_load sds"
    and "stats_agree (busiest_stat sds)" and "stats_agree (local_stat sds)"
    and "unat (sds_avg_load sds) * unat (group_capacity (local_stat sds)) < 18446744073709551616"
  shows "\<exists>e'. calculate_imbalance e sds s = Some e'
    \<and> (lb_imbalance e' \<in> {load_per_task (busiest_stat sds), min (load_per_task (busiest_stat sds)) (sds_avg_load sds)}
       \<or> keeps_average sds (lb_imbalance e')
       \<or> stats_type (busiest_stat sds) = group_misfit_task
          \<and> lb_imbalance e' = scast (misfit_capacity (busiest_stat sds))
          \<and> (\<exists>m. keeps_average sds m \<and> sint m < sint (misfit_capacity (busiest_stat sds))))"
proof -
  define bs where "bs = (let bs = busiest_stat sds in if stats_type bs = group_imbalanced then bs\<lparr>load_per_task := min (load_per_task bs) (sds_avg_load sds)\<rparr> else bs)"
  define sd' where "sd' = sds\<lparr>busiest_stat := bs\<rparr>"
  have b: "avg_load bs = avg_load (busiest_stat sds)" "group_capacity bs = group_capacity (busiest_stat sds)"
    "stats_type bs = stats_type (busiest_stat sds)" "load_per_task bs \<in> {load_per_task (busiest_stat sds), min (load_per_task (busiest_stat sds)) (sds_avg_load sds)}"
    "misfit_capacity bs = misfit_capacity (busiest_stat sds)"
    by (simp_all add: bs_def Let_def)
  have nz: "group_capacity bs \<noteq> 0" "group_capacity (local_stat sds) \<noteq> 0" using assms(3,4) b(2) by (simp_all add: stats_agree_def)
  obtain above where above: "load_above_capacity bs (local_stat sds) = Some above"
    using nz(1) unfolding load_above_capacity_def Let_def by metis
  define imb where "imb = min (min (avg_load (busiest_stat sds) - sds_avg_load sds) above * group_capacity bs)
    ((sds_avg_load sds - avg_load (local_stat sds)) * group_capacity (local_stat sds)) div 1024"
  define raised where "raised = (if stats_type bs = group_misfit_task \<and> sint imb < sint (misfit_capacity bs)
    then scast (misfit_capacity bs) else imb)"
  have calc: "calculate_imbalance e sds s =
      (if raised < load_per_task bs then fix_small_imbalance (e\<lparr>lb_imbalance := raised\<rparr>) sd' s else Some (e\<lparr>lb_imbalance := raised\<rparr>))"
    unfolding calculate_imbalance_def Let_def
    using assms(1,2) above b(1)
    by (simp add: bs_def [unfolded Let_def, symmetric] sd'_def [symmetric] imb_def [symmetric] raised_def not_le [symmetric])
  have fit: "unat (avg_load bs) * unat (group_capacity bs) < 18446744073709551616"
    unfolding b(1,2) using agree_product [OF assms(3)] assms(3) [unfolded stats_agree_def] by linarith
  have p: "unat imb * 1024 \<le> (unat (avg_load bs) - unat (sds_avg_load sds)) * unat (group_capacity bs)"
    "unat imb * 1024 \<le> (unat (sds_avg_load sds) - unat (avg_load (local_stat sds))) * unat (group_capacity (local_stat sds))"
    unfolding imb_def b(1) using pull_bounds assms(1,2,5) fit [unfolded b(1)] by blast+
  have good: "keeps_average sds imb"
    using p b assms(1-4) average_stays_above [of "unat (group_capacity bs)" "unat (sds_avg_load sds)" "unat (group_load (busiest_stat sds))" "unat imb"]
      average_stays_below [of "unat (group_capacity (local_stat sds))" "unat (group_load (local_stat sds))" "unat (sds_avg_load sds)" "unat imb"]
    by (simp add: keeps_average_def Let_def stats_agree_def word_less_nat_alt unat_gt_0)
  have nz': "group_capacity (busiest_stat sd') \<noteq> 0" "group_capacity (local_stat sd') \<noteq> 0" using nz by (simp_all add: sd'_def)
  obtain e' where e': "calculate_imbalance e sds s = Some e'" "lb_imbalance e' = load_per_task bs \<or> lb_imbalance e' = raised"
    using calc fix_small_cases [OF nz', of "e\<lparr>lb_imbalance := raised\<rparr>" s] by (auto simp: sd'_def split: if_splits)
  have "lb_imbalance e' = imb \<or> stats_type (busiest_stat sds) = group_misfit_task
      \<and> lb_imbalance e' = scast (misfit_capacity (busiest_stat sds)) \<and> sint imb < sint (misfit_capacity (busiest_stat sds))"
    if "lb_imbalance e' = raised"
    using that b(3,5) by (auto simp: raised_def)
  then have "lb_imbalance e' = load_per_task bs \<or> keeps_average sds (lb_imbalance e') \<or> stats_type (busiest_stat sds) = group_misfit_task
      \<and> lb_imbalance e' = scast (misfit_capacity (busiest_stat sds)) \<and> (\<exists>m. keeps_average sds m \<and> sint m < sint (misfit_capacity (busiest_stat sds)))"
    using e'(2) good by metis
  then show ?thesis using e'(1) b(4) by metis
qed

text \<open>Load 4096 on one group, nothing on the other, of one full capacity each; the imbalance is half of it.\<close>

definition busy_stats :: sg_lb_stats where
  "busy_stats = empty_stats\<lparr>avg_load := 4096, group_load := 4096, sum_weighted_load := 4096, load_per_task := 1024,
     group_capacity := 1024, group_util := 1024, sum_nr_running := 4, group_weight := 1\<rparr>"

definition uneven :: sd_lb_stats where
  "uneven = init_sd_lb_stats\<lparr>total_load := 4096, total_capacity := 2048, sds_avg_load := 2048, busiest_stat := busy_stats,
     local_stat := empty_stats\<lparr>group_capacity := 1024, group_weight := 1\<rparr>\<rparr>"

definition idle_pull :: lb_env where
  "idle_pull = lb_env.make 0 0 1 None 0 CPU_IDLE 0 0 [0, 1] True False False False 0 32 2 all group_other []"

theorem imbalance_keeps_average_witness:
  "\<exists>e'. calculate_imbalance idle_pull uneven zero_state = Some e'
    \<and> (lb_imbalance e' = 1024 \<or> 2048 \<le> (4096 - unat (lb_imbalance e')) * 1024 div 1024)"
  using imbalance_keeps_average [of uneven idle_pull zero_state]
  by (auto simp: uneven_def busy_stats_def init_sd_lb_stats_def empty_stats_def stats_agree_def keeps_average_def Let_def min_def)

section \<open>The busiest queue\<close>

lemma ratio_trans:
  fixes a b d x y z :: nat
  assumes "0 < y" "a * y \<le> b * x" "b * z \<le> d * y"
  shows "a * z \<le> d * x"
proof -
  have "a * y * z \<le> b * x * z" using assms(2) by (rule mult_le_mono1)
  also have "\<dots> \<le> d * y * x" using mult_le_mono1 [OF assms(3), of x] by (simp add: ac_simps)
  finally have "y * (a * z) \<le> y * (d * x)" by (simp add: ac_simps)
  then show ?thesis using assms(1) by simp
qed

definition queue_bounds :: "nat \<Rightarrow> nat \<Rightarrow> lb_state \<Rightarrow> cpu \<Rightarrow> bool" where
  "queue_bounds B C b u \<longleftrightarrow> unat (weighted_cpuload u (ks b)) \<le> B \<and> 0 < unat (capacity_of u (ks b)) \<and> unat (capacity_of u (ks b)) \<le> C"

text \<open>The load \<open>l\<close> and capacity \<open>c\<close> of the queue found are at least those of the others.\<close>

definition ratio_le :: "lb_state \<Rightarrow> cpu \<Rightarrow> ulong \<times> ulong \<Rightarrow> bool" where
  "ratio_le b u lc \<longleftrightarrow> unat (weighted_cpuload u (ks b)) * unat (snd lc) \<le> unat (fst lc) * unat (capacity_of u (ks b))"

definition found_ok :: "lb_env \<Rightarrow> lb_state \<Rightarrow> cpu set \<Rightarrow> cpu option \<times> ulong \<times> ulong \<Rightarrow> bool" where
  "found_ok e b seen r \<longleftrightarrow>
     (\<forall>u\<in>seen. \<not> queue_skipped e b u \<longrightarrow> ratio_le b u (snd r))
     \<and> (case fst r of
          None \<Rightarrow> snd r = (0, 1)
        | Some v \<Rightarrow> v \<in> seen \<and> \<not> queue_skipped e b v \<and> 0 < weighted_cpuload v (ks b)
            \<and> snd r = (weighted_cpuload v (ks b), capacity_of v (ks b)))"

lemma queue_step:
  assumes "found_ok e b seen (found, load, cap)" "queue_bounds B C b u" "unat load \<le> B" "0 < unat cap" "unat cap \<le> C"
    "B * C < 18446744073709551616" "\<not> queue_skipped e b u" "\<And>v. v \<in> seen \<Longrightarrow> 0 < unat (capacity_of v (ks b))"
  shows "found_ok e b (insert u seen)
    (if weighted_cpuload u (ks b) * cap > load * capacity_of u (ks b) then (Some u, weighted_cpuload u (ks b), capacity_of u (ks b)) else (found, load, cap))"
proof -
  let ?w = "weighted_cpuload u (ks b)" and ?c = "capacity_of u (ks b)"
  have "unat ?w * unat cap \<le> B * C" "unat load * unat ?c \<le> B * C"
    using assms(2,3,5) by (auto simp: queue_bounds_def intro: mult_le_mono)
  then have p: "unat (?w * cap) = unat ?w * unat cap" "unat (load * ?c) = unat load * unat ?c"
    using assms(6) by (simp_all add: unat_times_u64)
  show ?thesis
  proof (cases "?w * cap > load * ?c")
    case True
    then have lt: "unat load * unat ?c < unat ?w * unat cap" using p by (simp add: word_less_nat_alt)
    then have "0 < unat ?w" by (metis less_nat_zero_code mult_is_0 neq0_conv)
    moreover have "ratio_le b v (?w, ?c)" if "v \<in> seen" "\<not> queue_skipped e b v" for v
    proof -
      have "unat (weighted_cpuload v (ks b)) * unat cap \<le> unat load * unat (capacity_of v (ks b))"
        using assms(1) that by (simp add: found_ok_def ratio_le_def)
      then show ?thesis using ratio_trans [OF assms(4) _ less_imp_le [OF lt]] by (simp add: ratio_le_def)
    qed
    ultimately show ?thesis using True assms(7) by (auto simp: found_ok_def ratio_le_def unat_gt_0 word_greater_zero_iff)
  next
    case False
    then have "ratio_le b u (load, cap)" using p by (simp add: ratio_le_def word_less_nat_alt)
    then show ?thesis using False assms(1) by (auto simp: found_ok_def split: option.splits)
  qed
qed

lemma queue_loop:
  assumes "\<forall>u\<in>seen \<union> set us. queue_bounds B C b u" "found_ok e b seen (found, load, cap)" "unat load \<le> B" "0 < unat cap" "unat cap \<le> C"
    "B * C < 18446744073709551616"
  shows "\<exists>load' cap'. found_ok e b (seen \<union> set us) (busiest_queue_loop e b us (found, load, cap), load', cap')"
  using assms
proof (induction us arbitrary: seen found load cap)
  case (Cons u us)
  have eq: "seen \<union> set (u # us) = insert u seen \<union> set us" by auto
  have pos: "\<And>v. v \<in> seen \<Longrightarrow> 0 < unat (capacity_of v (ks b))" using Cons.prems(1) by (simp add: queue_bounds_def)
  have qb: "queue_bounds B C b u" using Cons.prems(1) by simp
  have bnd: "\<forall>v\<in>insert u seen \<union> set us. queue_bounds B C b v" using Cons.prems(1) by auto
  show ?case
  proof (cases "queue_skipped e b u")
    case True
    then have "found_ok e b (insert u seen) (found, load, cap)"
      using Cons.prems(2) by (auto simp: found_ok_def split: option.splits)
    then show ?thesis using Cons.IH [OF bnd _ Cons.prems(3-6)] True unfolding eq by simp
  next
    case False
    note st = queue_step [OF Cons.prems(2) qb Cons.prems(3-6) False pos]
    show ?thesis
    proof (cases "weighted_cpuload u (ks b) * cap > load * capacity_of u (ks b)")
      case True
      then show ?thesis using Cons.IH [OF bnd, of "Some u"] st qb Cons.prems(6) False unfolding eq
        by (simp add: Let_def queue_bounds_def)
    next
      case no: False
      then show ?thesis using Cons.IH [OF bnd, of found load cap] st Cons.prems(3-6) False unfolding eq by (simp add: Let_def)
    qed
  qed
qed auto

text \<open>C15: among the queues of the busiest group that may be considered, \<open>find_busiest_queue\<close> returns one whose load
  for its capacity is largest, compared crosswise as the code does without wrapping, and none only when no queue
  has load.\<close>
theorem busiest_queue_maximal:
  assumes "\<forall>u\<in>set (sched_group_cpus g). queue_bounds B C b u" and "B * C < 18446744073709551616" and "0 < C"
  shows "let eligible = {u \<in> set (sched_group_cpus g). u \<in> set (lb_cpus e) \<and> \<not> queue_skipped e b u} in
    case find_busiest_queue e g b of
      None \<Rightarrow> (\<forall>u\<in>eligible. weighted_cpuload u (ks b) = 0)
    | Some v \<Rightarrow> v \<in> eligible \<and> 0 < weighted_cpuload v (ks b)
        \<and> (\<forall>u\<in>eligible. unat (weighted_cpuload u (ks b)) * unat (capacity_of v (ks b))
             \<le> unat (weighted_cpuload v (ks b)) * unat (capacity_of u (ks b)))"
proof -
  define us where "us = [u \<leftarrow> sched_group_cpus g. u \<in> set (lb_cpus e)]"
  have "\<forall>u\<in>{} \<union> set us. queue_bounds B C b u" using assms(1) by (simp add: us_def)
  then obtain l c where "found_ok e b (set us) (find_busiest_queue e g b, l, c)"
    using queue_loop [of "{}" us B C b e None 0 1] assms(2,3) by (auto simp: found_ok_def find_busiest_queue_def us_def)
  then show ?thesis
    by (auto simp: found_ok_def ratio_le_def us_def Let_def unat_eq_zero split: option.splits)
qed

text \<open>Load 4096 on cpu 0 at full capacity and 3072 on cpu 1 at half: cpu 1 is the busiest.\<close>

definition unequal_cpus :: lb_state where
  "unequal_cpus = balancing_state (zero_state\<lparr>
     rq_at := (\<lambda>u. zero_rq\<lparr>rq_cfs := u, rq_nr_running := 3, cpu_capacity := (if u = 0 then 1024 else 512)\<rparr>),
     cfs_at := (\<lambda>u. zero_cfs\<lparr>runnable_load_avg := (if u = 0 then 4096 else 3072)\<rparr>)\<rparr>)"

theorem busiest_queue_maximal_witness:
  "find_busiest_queue idle_pull
     \<lparr>sched_group_cpus = [0, 1], sg_weight = 2, sg_sgc = 0, sg_sge = None\<rparr> unequal_cpus = Some 1"
proof -
  let ?e = idle_pull
  let ?g = "\<lparr>sched_group_cpus = [0, 1], sg_weight = 2, sg_sgc = 0, sg_sge = None\<rparr> :: sched_group"
  have w: "weighted_cpuload 0 (ks unequal_cpus) = 4096" "weighted_cpuload 1 (ks unequal_cpus) = 3072"
    "capacity_of 0 (ks unequal_cpus) = 1024" "capacity_of 1 (ks unequal_cpus) = 512"
    by (simp_all add: weighted_cpuload_def capacity_of_def unequal_cpus_def balancing_state_def zero_defs)
  have n: "\<not> queue_skipped ?e unequal_cpus u" for u
    by (simp add: queue_skipped_def fbq_rank_def fbq_classify_rq_def idle_pull_def lb_env.make_def) (simp add: unequal_cpus_def balancing_state_def)
  have el: "{u \<in> set (sched_group_cpus ?g). u \<in> set (lb_cpus ?e) \<and> \<not> queue_skipped ?e unequal_cpus u} = {0, 1}"
    using n by (auto simp: idle_pull_def lb_env.make_def)
  have "\<forall>u\<in>set (sched_group_cpus ?g). queue_bounds 4096 1024 unequal_cpus u"
    using w by (simp add: queue_bounds_def)
  from busiest_queue_maximal [OF this, of ?e] show ?thesis
    unfolding el Let_def using w by (auto split: option.splits)
qed

section \<open>The capacity of an overlapping group\<close>

text \<open>What a cpu adds: its own capacity, or that of the group it balances in.\<close>

definition cpu_part :: "cpu \<Rightarrow> lb_state \<Rightarrow> ulong option" where
  "cpu_part u b =
     (case rq_sd (rqb_at b u) of
        None \<Rightarrow> Some (capacity_of u (ks b))
      | Some d \<Rightarrow> map_option (\<lambda>g. capacity (sgc_of g (ks b))) (first_group (sd_at b d)))"

lemma overlap_step:
  assumes "cpu_part u b = Some x"
  shows "overlap_capacity (u # us) (cap, hi, lo) b = overlap_capacity us (cap + x, max (cap + x) hi, min (cap + x) lo) b"
  using assms by (auto simp: cpu_part_def split: option.splits)

lemma overlap_running_sum:
  assumes "\<forall>u\<in>set us. cpu_part u b = Some (c u)" "unat cap + (\<Sum>u\<leftarrow>us. unat (c u)) < 18446744073709551616" "lo \<le> cap" "hi \<le> cap"
  shows "\<exists>r hi'. overlap_capacity us (cap, hi, lo) b = Some (r, hi', lo) \<and> unat r = unat cap + (\<Sum>u\<leftarrow>us. unat (c u))
    \<and> hi' = (if us = [] then hi else r)"
  using assms
proof (induction us arbitrary: cap hi)
  case (Cons u us)
  have p: "cpu_part u b = Some (c u)" using Cons.prems(1) by simp
  have s: "unat (cap + c u) = unat cap + unat (c u)" using Cons.prems(2) by (simp add: unat_plus_u64)
  then have le: "cap \<le> cap + c u" by (simp add: word_le_nat_alt)
  then have m: "max (cap + c u) hi = cap + c u" "min (cap + c u) lo = lo"
    using Cons.prems(3,4) order_trans by (fastforce simp: max_def min_def)+
  have o: "overlap_capacity (u # us) (cap, hi, lo) b = overlap_capacity us (cap + c u, cap + c u, lo) b"
    unfolding overlap_step [OF p] m by simp
  have l: "lo \<le> cap + c u" using Cons.prems(3) le by (rule order_trans)
  have "unat (cap + c u) + (\<Sum>u\<leftarrow>us. unat (c u)) < 18446744073709551616" using Cons.prems(2) s by simp
  then show ?case
    using Cons.IH [of "cap + c u" "cap + c u"] Cons.prems(1) l s unfolding o by auto
qed simp

text \<open>For a child domain with \<open>SD_OVERLAP\<close>, \<open>update_group_capacity\<close> compares the running sum instead of the
  capacity of each cpu: the largest capacity it records is the total of the group and the smallest is that of the
  group's first cpu, whatever the others have, against the comments that call them per-cpu capacities.\<close>
theorem overlap_extremes_are_not_per_cpu:
  assumes "\<forall>u\<in>set (v # us). cpu_part u b = Some (c u)" and "(\<Sum>u\<leftarrow>v # us. unat (c u)) < 18446744073709551616"
  shows "\<exists>total. overlap_capacity (v # us) (0, 0, - 1) b = Some (total, total, c v) \<and> unat total = (\<Sum>u\<leftarrow>v # us. unat (c u))"
proof -
  have "overlap_capacity (v # us) (0, 0, - 1) b = overlap_capacity us (c v, c v, c v) b"
    using assms(1) by (subst overlap_step [of v b "c v"]) (simp_all add: max_def min_def)
  then show ?thesis using overlap_running_sum [of us b c "c v" "c v" "c v"] assms by auto
qed

theorem overlap_extremes_are_not_per_cpu_witness:
  "\<exists>total. overlap_capacity [0, 1] (0, 0, - 1) (unequal_cpus\<lparr>rqb_at := \<lambda>_. zero_rqb\<lparr>rq_sd := None\<rparr>\<rparr>) = Some (total, total, 1024)
    \<and> unat total = 1536"
proof -
  let ?b = "unequal_cpus\<lparr>rqb_at := \<lambda>_. zero_rqb\<lparr>rq_sd := None\<rparr>\<rparr>"
  have "cpu_part u ?b = Some (if u = 0 then 1024 else 512)" for u
    by (simp add: cpu_part_def capacity_of_def unequal_cpus_def balancing_state_def zero_defs)
  then show ?thesis using overlap_extremes_are_not_per_cpu [of 0 "[1]" ?b "\<lambda>u. if u = 0 then 1024 else 512"] by simp
qed

end
