(* ===== verification/Domain_Balance.thy ===== *)
theory Domain_Balance
  imports Load_Balance
begin

text \<open>
  When balancing runs, \<open>kernel/sched/fair.c\<close> lines 10439--10555 and 10642--11073: on going idle, over the domains of a
  cpu at their intervals, for tickless cpus, and from the tick. \<open>m\<close> and \<open>n\<close> are as in \<open>load_balance\<close>.
\<close>

section \<open>Going idle\<close>

definition read_clock :: "lb_api \<Rightarrow> lb_state \<Rightarrow> u64 \<times> lb_state" where
  "read_clock A b = (lb_clock A (clock_reads b), b\<lparr>clock_reads := clock_reads b + 1\<rparr>)"

text \<open>The loop over the domains: the tasks pulled, the time of the next balance and the cost.\<close>

fun idle_domains ::
  "nat \<Rightarrow> nat \<Rightarrow> lb_api \<Rightarrow> kapi \<Rightarrow> cpu \<Rightarrow> sd_id list \<Rightarrow> u32 \<times> ulong \<times> u64 \<Rightarrow> lb_state \<Rightarrow> ((u32 \<times> ulong \<times> u64) \<times> lb_state) option" where
  "idle_domains m n A K u [] a b = Some (a, b)"
| "idle_domains m n A K u (d # ds) (pulled, next_balance, curr_cost) b =
     (if \<not> has_flag SD_LOAD_BALANCE (sd_at b d) then idle_domains m n A K u ds (pulled, next_balance, curr_cost) b
      else if avg_idle (rqb_at b u) < curr_cost + max_newidle_lb_cost (sd_at b d)
      then Some ((pulled, update_next_balance A (sd_at b d) next_balance b, curr_cost), b)
      else do {
        (pulled, curr_cost, b) \<leftarrow>
          (if has_flag SD_BALANCE_NEWIDLE (sd_at b d)
           then let (t0, b) = read_clock A b in do {
             (pulled, _, b) \<leftarrow> load_balance m n A K u d CPU_NEWLY_IDLE True b;
             let (t1, b) = read_clock A b;
             let domain_cost = t1 - t0;
             let b = upd_sd d (\<lambda>d. if domain_cost > max_newidle_lb_cost d then d\<lparr>max_newidle_lb_cost := domain_cost\<rparr> else d) b;
             Some (pulled, curr_cost + domain_cost, b)
           }
           else Some (pulled, curr_cost, b));
        let next_balance = update_next_balance A (sd_at b d) next_balance b;
        if pulled \<noteq> 0 \<or> rq_nr_running (rq_at (ks b) u) > 0 then Some ((pulled, next_balance, curr_cost), b)
        else idle_domains m n A K u ds (pulled, next_balance, curr_cost) b
      })"

text \<open>From the label \<open>out\<close> on: \<open>- 1\<close> when a task of another class is there.\<close>

definition idle_balance_out :: "cpu \<Rightarrow> int \<Rightarrow> ulong \<Rightarrow> lb_state \<Rightarrow> int \<times> lb_state" where
  "idle_balance_out u pulled next_balance b =
     (let b = (if time_after (rq_next_balance (rqb_at b u)) next_balance
               then upd_rqb u (\<lambda>r. r\<lparr>rq_next_balance := next_balance\<rparr>) b else b);
          r = rq_at (ks b) u;
          pulled = (if rq_nr_running r \<noteq> h_nr_running (cfs_at (ks b) (rq_cfs r)) then - 1 else pulled)
      in (pulled, if pulled \<noteq> 0 then upd_rqb u (\<lambda>r. r\<lparr>idle_stamp := 0\<rparr>) b else b))"

definition idle_balance :: "nat \<Rightarrow> nat \<Rightarrow> lb_api \<Rightarrow> kapi \<Rightarrow> cpu \<Rightarrow> lb_state \<Rightarrow> (int \<times> lb_state) option" where
  "idle_balance m n A K u b = do {
     let next_balance = jiffies (ks b) + ucast (ticks_per_second A);
     let b = upd_rqb u (\<lambda>r. r\<lparr>idle_stamp := clock (rq_at (ks b) u)\<rparr>) b;
     if \<not> sched_feat K ENERGY_AWARE \<and> \<not> sched_feat K CAPACITY_AWARE
        \<and> (avg_idle (rqb_at b u) < ucast (sysctl_sched_migration_cost (sysctls (ks b))) \<or> \<not> overload (root_domain_of u (ks b)))
     then Some (idle_balance_out u 0
       (case rq_sd (rqb_at b u) of None \<Rightarrow> next_balance | Some d \<Rightarrow> update_next_balance A (sd_at b d) next_balance b) b)
     else do {
       b \<leftarrow> on_kernel (update_blocked_averages K u) b;
       ds \<leftarrow> domain_chain n (rq_sd (rqb_at b u)) b;
       ((pulled, next_balance, curr_cost), b) \<leftarrow> idle_domains m n A K u ds (0, next_balance, 0) b;
       let b = upd_rqb u (\<lambda>r. if curr_cost > max_idle_balance_cost r then r\<lparr>max_idle_balance_cost := curr_cost\<rparr> else r) b;
       let pulled = (if h_nr_running (cfs_at (ks b) (rq_cfs (rq_at (ks b) u))) \<noteq> 0 \<and> pulled = 0 then 1 else pulled);
       Some (idle_balance_out u (sint pulled) next_balance b)
     }
   }"

section \<open>At the intervals of the domains\<close>

definition decay_newidle_cost :: "lb_api \<Rightarrow> sd_id \<Rightarrow> lb_state \<Rightarrow> lb_state" where
  "decay_newidle_cost A d b =
     upd_sd d (\<lambda>d. d\<lparr>max_newidle_lb_cost := max_newidle_lb_cost d * 253 div 256,
       next_decay_max_lb_cost := jiffies (ks b) + ucast (ticks_per_second A)\<rparr>) b"

text \<open>
  One domain that is balanced: whether the cpu is idle, whether to go on, the interval, and the state. A lock that is
  taken skips the balance.
\<close>

definition balance_domain ::
  "nat \<Rightarrow> nat \<Rightarrow> lb_api \<Rightarrow> kapi \<Rightarrow> cpu \<Rightarrow> sd_id \<Rightarrow> cpu_idle_type \<Rightarrow> bool \<Rightarrow> lb_state
    \<Rightarrow> (cpu_idle_type \<times> bool \<times> ulong \<times> lb_state) option" where
  "balance_domain m n A K u d ty cont b =
     (let interval = get_sd_balance_interval A (sd_at b d) (ty \<noteq> CPU_IDLE) b in
      if has_flag SD_SERIALIZE (sd_at b d) \<and> \<not> spin_trylock A d then Some (ty, cont, interval, b)
      else if time_after_eq (jiffies (ks b)) (last_balance (sd_at b d) + interval)
      then do {
        (ld, cont, b) \<leftarrow> load_balance m n A K u d ty cont b;
        let ty = (if ld \<noteq> 0 then (if idle_cpu A u (ks b) then CPU_IDLE else CPU_NOT_IDLE) else ty);
        let b = upd_sd d (\<lambda>d. d\<lparr>last_balance := jiffies (ks b)\<rparr>) b;
        Some (ty, cont, get_sd_balance_interval A (sd_at b d) (ty \<noteq> CPU_IDLE) b, b)
      }
      else Some (ty, cont, interval, b))"

record sweep =
  sweep_idle :: cpu_idle_type
  continue_balancing :: bool
  sweep_next :: ulong
  sweep_update :: bool
  need_decay :: bool
  max_cost :: u64

fun sweep_domains ::
  "nat \<Rightarrow> nat \<Rightarrow> lb_api \<Rightarrow> kapi \<Rightarrow> cpu \<Rightarrow> sd_id list \<Rightarrow> sweep \<Rightarrow> lb_state \<Rightarrow> (sweep \<times> lb_state) option" where
  "sweep_domains m n A K u [] w b = Some (w, b)"
| "sweep_domains m n A K u (d # ds) w b =
     (let decay = time_after (jiffies (ks b)) (next_decay_max_lb_cost (sd_at b d));
          b = (if decay then decay_newidle_cost A d b else b);
          w = w\<lparr>need_decay := need_decay w \<or> decay, max_cost := max_cost w + max_newidle_lb_cost (sd_at b d)\<rparr>
      in if \<not> has_flag SD_LOAD_BALANCE (sd_at b d) then sweep_domains m n A K u ds w b
         else if \<not> continue_balancing w
         then (if need_decay w then sweep_domains m n A K u ds w b else Some (w, b))
         else do {
           (ty, cont, interval, b) \<leftarrow> balance_domain m n A K u d (sweep_idle w) (continue_balancing w) b;
           let due = last_balance (sd_at b d) + interval;
           let w = w\<lparr>sweep_idle := ty, continue_balancing := cont\<rparr>;
           let w = (if time_after (sweep_next w) due then w\<lparr>sweep_next := due, sweep_update := True\<rparr> else w);
           sweep_domains m n A K u ds w b
         })"

definition rebalance_domains :: "nat \<Rightarrow> nat \<Rightarrow> lb_api \<Rightarrow> kapi \<Rightarrow> cpu \<Rightarrow> cpu_idle_type \<Rightarrow> lb_state \<Rightarrow> lb_state option" where
  "rebalance_domains m n A K u ty b = do {
     let start = jiffies (ks b) + 60 * ucast (ticks_per_second A);
     b \<leftarrow> on_kernel (update_blocked_averages K u) b;
     ds \<leftarrow> domain_chain n (rq_sd (rqb_at b u)) b;
     (w, b) \<leftarrow> sweep_domains m n A K u ds
       \<lparr>sweep_idle = ty, continue_balancing = True, sweep_next = start, sweep_update = False, need_decay = False, max_cost = 0\<rparr> b;
     let b = (if need_decay w
              then upd_rqb u (\<lambda>r. r\<lparr>max_idle_balance_cost := max (ucast (sysctl_sched_migration_cost (sysctls (ks b)))) (max_cost w)\<rparr>) b
              else b);
     Some (if sweep_update w
           then (let b = upd_rqb u (\<lambda>r. r\<lparr>rq_next_balance := sweep_next w\<rparr>) b
                 in if sweep_idle w = CPU_IDLE \<and> time_after (nohz_next_balance (nohz b)) (rq_next_balance (rqb_at b u))
                    then b\<lparr>nohz := (nohz b)\<lparr>nohz_next_balance := rq_next_balance (rqb_at b u)\<rparr>\<rparr> else b)
           else b)
   }"

section \<open>Tickless cpus\<close>

definition on_null_domain :: "cpu \<Rightarrow> lb_state \<Rightarrow> bool" where
  "on_null_domain u b \<longleftrightarrow> rq_sd (rqb_at b u) = None"

definition find_new_ilb :: "lb_api \<Rightarrow> lb_state \<Rightarrow> cpu" where
  "find_new_ilb A b =
     (case idle_cpus_mask (nohz b) of
        [] \<Rightarrow> nr_cpu_ids A
      | ilb # _ \<Rightarrow> if ilb < nr_cpu_ids A \<and> idle_cpu A ilb (ks b) then ilb else nr_cpu_ids A)"

definition nohz_balancer_kick :: "lb_api \<Rightarrow> lb_state \<Rightarrow> lb_state" where
  "nohz_balancer_kick A b =
     (let b = b\<lparr>nohz := (nohz b)\<lparr>nohz_next_balance := nohz_next_balance (nohz b) + 1\<rparr>\<rparr>;
          ilb = find_new_ilb A b
      in if ilb \<ge> nr_cpu_ids A \<or> nohz_balance_kick (rqb_at b ilb) then b
         else (upd_rqb ilb (\<lambda>r. r\<lparr>nohz_balance_kick := True\<rparr>) b)\<lparr>reschedule_ipis := reschedule_ipis b @ [ilb]\<rparr>)"

definition nohz_balance_exit_idle :: "cpu \<Rightarrow> lb_state \<Rightarrow> lb_state" where
  "nohz_balance_exit_idle u b =
     (if nohz_tick_stopped (rqb_at b u)
      then let z = nohz b;
               z = (if u \<in> set (idle_cpus_mask z)
                    then z\<lparr>idle_cpus_mask := filter (\<lambda>v. v \<noteq> u) (idle_cpus_mask z), nr_idle_cpus := nr_idle_cpus z - 1\<rparr> else z)
           in upd_rqb u (\<lambda>r. r\<lparr>nohz_tick_stopped := False\<rparr>) (b\<lparr>nohz := z\<rparr>)
      else b)"

text \<open>\<open>cpumask_set_cpu\<close>; the mask stays in increasing order.\<close>

definition nohz_balance_enter_idle :: "lb_api \<Rightarrow> cpu \<Rightarrow> lb_state \<Rightarrow> lb_state" where
  "nohz_balance_enter_idle A u b =
     (if u \<notin> set (cpu_active_mask A) \<or> nohz_tick_stopped (rqb_at b u) \<or> on_null_domain u b then b
      else upd_rqb u (\<lambda>r. r\<lparr>nohz_tick_stopped := True\<rparr>)
        (b\<lparr>nohz := (nohz b)\<lparr>idle_cpus_mask := sorted_list_of_set (insert u (set (idle_cpus_mask (nohz b)))),
                           nr_idle_cpus := nr_idle_cpus (nohz b) + 1\<rparr>\<rparr>))"

definition upd_busy_cpus :: "sd_id \<Rightarrow> int \<Rightarrow> lb_state \<Rightarrow> lb_state" where
  "upd_busy_cpus d k b =
     b\<lparr>nr_busy_cpus := (nr_busy_cpus b)(sd_shared b d := nr_busy_cpus b (sd_shared b d) + k)\<rparr>"

definition set_cpu_sd_state_busy :: "cpu \<Rightarrow> lb_state \<Rightarrow> lb_state" where
  "set_cpu_sd_state_busy u b =
     (case sd_llc b u of
        None \<Rightarrow> b
      | Some d \<Rightarrow> if nohz_idle (sd_at b d) then upd_busy_cpus d 1 (upd_sd d (\<lambda>d. d\<lparr>nohz_idle := False\<rparr>) b) else b)"

definition set_cpu_sd_state_idle :: "cpu \<Rightarrow> lb_state \<Rightarrow> lb_state" where
  "set_cpu_sd_state_idle u b =
     (case sd_llc b u of
        None \<Rightarrow> b
      | Some d \<Rightarrow> if nohz_idle (sd_at b d) then b else upd_busy_cpus d (- 1) (upd_sd d (\<lambda>d. d\<lparr>nohz_idle := True\<rparr>) b))"

text \<open>The loop over the tickless cpus, left as soon as this cpu has work.\<close>

fun nohz_cpus ::
  "nat \<Rightarrow> nat \<Rightarrow> lb_api \<Rightarrow> kapi \<Rightarrow> cpu \<Rightarrow> cpu list \<Rightarrow> ulong \<times> bool \<Rightarrow> lb_state \<Rightarrow> ((ulong \<times> bool) \<times> lb_state) option" where
  "nohz_cpus m n A K this [] a b = Some (a, b)"
| "nohz_cpus m n A K this (u # us) (next_balance, upd) b =
     (if u = this \<or> \<not> idle_cpu A u (ks b) then nohz_cpus m n A K this us (next_balance, upd) b
      else if need_resched A b then Some ((next_balance, upd), b)
      else do {
        b \<leftarrow> (if time_after_eq (jiffies (ks b)) (rq_next_balance (rqb_at b u))
              then do {
                b \<leftarrow> on_kernel (\<lambda>s. cpu_load_update_idle (sched_avg_update A) u (upd_rq u (update_rq_clock K) s)) b;
                rebalance_domains m n A K u CPU_IDLE b
              }
              else Some b);
        let nxt = rq_next_balance (rqb_at b u);
        nohz_cpus m n A K this us (if time_after next_balance nxt then (nxt, True) else (next_balance, upd)) b
      })"

definition nohz_idle_balance :: "nat \<Rightarrow> nat \<Rightarrow> lb_api \<Rightarrow> kapi \<Rightarrow> cpu \<Rightarrow> cpu_idle_type \<Rightarrow> lb_state \<Rightarrow> lb_state option" where
  "nohz_idle_balance m n A K this ty b = do {
     b \<leftarrow> (if ty \<noteq> CPU_IDLE \<or> \<not> nohz_balance_kick (rqb_at b this) then Some b
           else do {
             ((next_balance, upd), b) \<leftarrow> nohz_cpus m n A K this (idle_cpus_mask (nohz b))
               (jiffies (ks b) + 60 * ucast (ticks_per_second A), False) b;
             Some (if upd then b\<lparr>nohz := (nohz b)\<lparr>nohz_next_balance := next_balance\<rparr>\<rparr> else b)
           });
     Some (upd_rqb this (\<lambda>r. r\<lparr>nohz_balance_kick := False\<rparr>) b)
   }"

text \<open>\<open>cpumask_first_and\<close> of the idle cpus and the span is below \<open>u\<close>.\<close>

definition lower_idle_cpu :: "cpu \<Rightarrow> sched_domain \<Rightarrow> lb_state \<Rightarrow> bool" where
  "lower_idle_cpu u d b =
     (case filter (\<lambda>v. v \<in> set (sd_span d)) (idle_cpus_mask (nohz b)) of [] \<Rightarrow> False | v # _ \<Rightarrow> v < u)"

definition nohz_kick_needed :: "lb_api \<Rightarrow> kapi \<Rightarrow> cpu \<Rightarrow> lb_state \<Rightarrow> bool \<times> lb_state" where
  "nohz_kick_needed A K u b =
     (if idle_balance_flag (rqb_at b u) then (False, b)
      else let b = nohz_balance_exit_idle u (set_cpu_sd_state_busy (this_cpu K) b);
               aware = (sched_feat K ENERGY_AWARE \<or> sched_feat K CAPACITY_AWARE);
               s = ks b; r = rq_at s u
           in if nr_idle_cpus (nohz b) = 0 \<or> time_after (nohz_next_balance (nohz b)) (jiffies s) then (False, b)
              else (rq_nr_running r \<ge> 2 \<and> (\<not> aware \<or> cpu_overutilized u s)
                \<or> aware \<and> misfit_task r
                \<or> (case sd_llc_shared b u of None \<Rightarrow> False | Some c \<Rightarrow> \<not> aware \<and> nr_busy_cpus b c > 1)
                \<or> (case rq_sd (rqb_at b u) of
                     None \<Rightarrow> False
                   | Some d \<Rightarrow> h_nr_running (cfs_at s (rq_cfs r)) \<ge> 1 \<and> check_cpu_capacity u (sd_at b d) s)
                \<or> (case sd_asym b u of None \<Rightarrow> False | Some d \<Rightarrow> lower_idle_cpu u (sd_at b d) b), b))"

section \<open>From the tick\<close>

definition run_rebalance_domains :: "nat \<Rightarrow> nat \<Rightarrow> lb_api \<Rightarrow> kapi \<Rightarrow> lb_state \<Rightarrow> lb_state option" where
  "run_rebalance_domains m n A K b =
     (let u = this_cpu K; ty = (if idle_balance_flag (rqb_at b u) then CPU_IDLE else CPU_NOT_IDLE) in do {
        b \<leftarrow> nohz_idle_balance m n A K u ty b;
        rebalance_domains m n A K u ty b
      })"

definition trigger_load_balance :: "lb_api \<Rightarrow> kapi \<Rightarrow> cpu \<Rightarrow> lb_state \<Rightarrow> lb_state" where
  "trigger_load_balance A K u b =
     (if on_null_domain u b then b
      else let b = (if time_after_eq (jiffies (ks b)) (rq_next_balance (rqb_at b u))
                    then b\<lparr>softirqs := softirqs b @ [this_cpu K]\<rparr> else b);
               (kick, b) = nohz_kick_needed A K u b
           in if kick then nohz_balancer_kick A b else b)"

end
