(* ===== verification/Domain_Props.thy ===== *)
theory Domain_Props
  imports Domain_Balance
begin

text \<open>
  How often balancing runs: the interval of a domain stays bounded however a balance ends, and the accounts of tickless
  and busy cpus stay true.
\<close>

section \<open>The interval of a domain\<close>

definition interval_ok :: "sched_domain \<Rightarrow> bool" where
  "interval_ok d \<longleftrightarrow> min_interval d \<le> max_interval d \<and> unat (max_interval d) < 2147483648
     \<and> unat (balance_interval d) \<le> 2 * max 512 (unat (max_interval d))"

lemma double_ok:
  assumes "interval_ok d" "balance_interval d < MAX_PINNED_INTERVAL \<or> ucast (balance_interval d) < max_interval d"
  shows "interval_ok (d\<lparr>balance_interval := balance_interval d * 2\<rparr>)"
proof -
  have "unat (balance_interval d) < max 512 (unat (max_interval d))"
    using assms(2) by (auto simp: MAX_PINNED_INTERVAL_def word_less_nat_alt max_def split: if_splits)
  moreover have "unat (max_interval d) < 2147483648" using assms(1) by (simp add: interval_ok_def)
  ultimately have "unat (balance_interval d * 2) = unat (balance_interval d) * 2"
    using unat_times_small [of "balance_interval d" 2] by simp
  then show ?thesis using assms(1) \<open>unat (balance_interval d) < _\<close> by (simp add: interval_ok_def)
qed

lemma min_ok:
  assumes "interval_ok d"
  shows "interval_ok (d\<lparr>balance_interval := ucast (min_interval d)\<rparr>)"
proof -
  have m: "unat (min_interval d) \<le> unat (max_interval d)" using assms by (simp add: interval_ok_def word_le_nat_alt)
  have "unat (ucast (min_interval d) :: u32) \<le> unat (min_interval d)" by (rule unat_ucast_down_le)
  then show ?thesis using assms m unfolding interval_ok_def by simp
qed

lemma failed_ok [simp]: "interval_ok (d\<lparr>nr_balance_failed := k\<rparr>) = interval_ok d"
  by (simp add: interval_ok_def)

definition intervals_ok :: "lb_state \<Rightarrow> bool" where
  "intervals_ok b \<longleftrightarrow> (\<forall>d. interval_ok (sd_at b d))"

lemma intervals_upd: "intervals_ok b \<Longrightarrow> (interval_ok (sd_at b d) \<Longrightarrow> interval_ok (f (sd_at b d))) \<Longrightarrow> intervals_ok (upd_sd d f b)"
  by (simp add: intervals_ok_def upd_sd_def)

lemma intervals_rqb [simp]: "intervals_ok (upd_rqb u f b) = intervals_ok b" "intervals_ok (b\<lparr>stop_works := w\<rparr>) = intervals_ok b"
  by (simp_all add: intervals_ok_def upd_rqb_def)

lemma one_pinned_ok: "intervals_ok b \<Longrightarrow> intervals_ok (out_one_pinned e b)"
  unfolding out_one_pinned_def by (erule intervals_upd) (auto intro: double_ok)

lemma intervals_failed [simp]: "intervals_ok (upd_sd x (\<lambda>d. d\<lparr>nr_balance_failed := k d\<rparr>) b) = intervals_ok b"
  by (auto simp: intervals_ok_def upd_sd_def)

lemma active_phase_ok: "intervals_ok b \<Longrightarrow> intervals_ok (snd (active_phase this e b))"
  unfolding active_phase_def Let_def by simp

text \<open>C0: however a balance of a domain ends (tasks moved, none moved, active balancing started, the current task pinned,
  everything pinned or balanced) its interval is at most twice the larger of \<open>max_interval\<close> and 512, so doubling it
  never wraps, and a balance that moved tasks clears the count of failures.\<close>
theorem backoff_bounded:
  assumes "\<forall>d. interval_ok (sd_at b d)"
  shows "\<forall>d. interval_ok (sd_at (snd (lb_finish this ld e b)) d) \<and> interval_ok (sd_at (out_all_pinned e b) d)"
    and "ld \<noteq> 0 \<Longrightarrow> nr_balance_failed (sd_at (snd (lb_finish this ld e b)) (lb_sd e)) = 0
      \<and> balance_interval (sd_at (snd (lb_finish this ld e b)) (lb_sd e)) = ucast (min_interval (sd_at b (lb_sd e)))"
proof -
  have i: "intervals_ok b" using assms by (simp add: intervals_ok_def)
  have c: "intervals_ok (upd_sd (lb_sd e) (\<lambda>d. d\<lparr>nr_balance_failed := 0\<rparr>) b)" using i by (intro intervals_upd) auto
  have "intervals_ok (snd (lb_finish this ld e b))"
  proof (cases "ld = 0")
    case True
    obtain act b1 where a: "active_phase this e b = (act, b1)" by (cases "active_phase this e b")
    then have b1: "intervals_ok b1" using active_phase_ok [OF i, of this e] by simp
    show ?thesis
    proof (cases act)
      case None
      then show ?thesis using True a one_pinned_ok [OF b1] by (simp add: lb_finish_def)
    next
      case (Some v)
      then show ?thesis using True a b1
        by (cases v) (auto simp: lb_finish_def intro!: intervals_upd min_ok double_ok)
    qed
  next
    case False
    then show ?thesis using c by (auto simp: lb_finish_def intro!: intervals_upd min_ok)
  qed
  moreover have "intervals_ok (out_all_pinned e b)" unfolding out_all_pinned_def by (rule one_pinned_ok [OF c])
  ultimately show "\<forall>d. interval_ok (sd_at (snd (lb_finish this ld e b)) d) \<and> interval_ok (sd_at (out_all_pinned e b) d)"
    by (simp add: intervals_ok_def)
  show "ld \<noteq> 0 \<Longrightarrow> nr_balance_failed (sd_at (snd (lb_finish this ld e b)) (lb_sd e)) = 0
      \<and> balance_interval (sd_at (snd (lb_finish this ld e b)) (lb_sd e)) = ucast (min_interval (sd_at b (lb_sd e)))"
    by (simp add: lb_finish_def upd_sd_def)
qed

theorem backoff_bounded_witness:
  "interval_ok (sd_at (snd (lb_finish 1 1 (active_env 0 0 1) (balancing_state zero_state))) 0)"
  using backoff_bounded(1) [of "balancing_state zero_state" 1 1 "active_env 0 0 1"]
  by (simp add: interval_ok_def balancing_state_def two_cpus_def)

section \<open>Tickless and busy cpus\<close>

text \<open>The mask of tickless cpus agrees with their flags and their number, and is in increasing order.\<close>

definition tickless_ok :: "lb_state \<Rightarrow> bool" where
  "tickless_ok b \<longleftrightarrow> sorted_wrt (<) (idle_cpus_mask (nohz b)) \<and> nr_idle_cpus (nohz b) = int (length (idle_cpus_mask (nohz b)))
     \<and> (\<forall>u. nohz_tick_stopped (rqb_at b u) \<longleftrightarrow> u \<in> set (idle_cpus_mask (nohz b)))"

text \<open>The number of busy cpus of a cache is that of the domains \<open>D\<close> (one per cpu) that are not marked idle.\<close>

definition busy_ok :: "sd_id set \<Rightarrow> lb_state \<Rightarrow> bool" where
  "busy_ok D b \<longleftrightarrow> finite D \<and> (\<forall>u d. sd_llc b u = Some d \<longrightarrow> d \<in> D)
     \<and> (\<forall>c. nr_busy_cpus b c = int (card {d \<in> D. sd_shared b d = c \<and> \<not> nohz_idle (sd_at b d)}))"

inductive nohz_step :: "lb_api \<Rightarrow> kapi \<Rightarrow> lb_state \<Rightarrow> lb_state \<Rightarrow> bool" for A K where
  stop_tick: "nohz_step A K b (nohz_balance_enter_idle A u b)"
| restart_tick: "nohz_step A K b (nohz_balance_exit_idle u b)"
| go_busy: "nohz_step A K b (set_cpu_sd_state_busy u b)"
| go_idle: "nohz_step A K b (set_cpu_sd_state_idle u b)"
| tick: "nohz_step A K b (trigger_load_balance A K u b)"

inductive nohz_reachable :: "lb_api \<Rightarrow> kapi \<Rightarrow> lb_state \<Rightarrow> lb_state \<Rightarrow> bool" for A K b0 where
  start: "nohz_reachable A K b0 b0"
| step: "nohz_reachable A K b0 b \<Longrightarrow> nohz_step A K b b' \<Longrightarrow> nohz_reachable A K b0 b'"

lemma sorted_distinct: "sorted_wrt (<) (us :: cpu list) \<Longrightarrow> distinct us"
  using strict_sorted_iff by blast

lemma tickless_change:
  assumes "tickless_ok b" "sorted_wrt (<) M" "int (length M) = n"
    "\<And>v. nohz_tick_stopped (rqb_at b' v) \<longleftrightarrow> v \<in> set M" "idle_cpus_mask (nohz b') = M" "nr_idle_cpus (nohz b') = n"
  shows "tickless_ok b'"
  using assms by (simp add: tickless_ok_def)

lemma enter_tickless:
  assumes "tickless_ok b"
  shows "tickless_ok (nohz_balance_enter_idle A u b)"
proof (cases "u \<notin> set (cpu_active_mask A) \<or> nohz_tick_stopped (rqb_at b u) \<or> on_null_domain u b")
  case True
  then show ?thesis using assms by (auto simp: nohz_balance_enter_idle_def)
next
  case False
  let ?M = "idle_cpus_mask (nohz b)"
  let ?b = "nohz_balance_enter_idle A u b"
  have "u \<notin> set ?M" using assms False by (simp add: tickless_ok_def)
  moreover have "card (set ?M) = length ?M" using assms sorted_distinct [of ?M] by (simp add: tickless_ok_def distinct_card)
  ultimately have l: "int (length (sorted_list_of_set (insert u (set ?M)))) = int (length ?M) + 1" by simp
  have b: "?b = upd_rqb u (\<lambda>r. r\<lparr>nohz_tick_stopped := True\<rparr>)
      (b\<lparr>nohz := (nohz b)\<lparr>idle_cpus_mask := sorted_list_of_set (insert u (set ?M)), nr_idle_cpus := nr_idle_cpus (nohz b) + 1\<rparr>\<rparr>)"
    using False by (simp add: nohz_balance_enter_idle_def)
  show ?thesis
  proof (rule tickless_change [OF assms _ l])
    show "sorted_wrt (<) (sorted_list_of_set (insert u (set ?M)))" by (rule strict_sorted_list_of_set)
    have "set (sorted_list_of_set (insert u (set ?M))) = insert u (set ?M)" by (rule set_sorted_list_of_set) simp
    then show "nohz_tick_stopped (rqb_at ?b v) \<longleftrightarrow> v \<in> set (sorted_list_of_set (insert u (set ?M)))" for v
      using assms unfolding b by (simp only:) (simp add: upd_rqb_def tickless_ok_def)
    show "idle_cpus_mask (nohz ?b) = sorted_list_of_set (insert u (set ?M))" unfolding b by (simp add: upd_rqb_def)
    show "nr_idle_cpus (nohz ?b) = int (length ?M) + 1" using assms unfolding b by (simp add: upd_rqb_def tickless_ok_def)
  qed
qed

lemma filter_absent: "u \<notin> set us \<Longrightarrow> filter (\<lambda>v. v \<noteq> u) us = us"
  by (induction us) auto

lemma filter_out_one: "distinct us \<Longrightarrow> u \<in> set us \<Longrightarrow> int (length (filter (\<lambda>v. v \<noteq> u) us)) = int (length us) - 1"
  by (induction us) (auto simp: filter_absent)

lemma exit_tickless:
  assumes "tickless_ok b"
  shows "tickless_ok (nohz_balance_exit_idle u b)"
proof (cases "nohz_tick_stopped (rqb_at b u)")
  case False
  then show ?thesis using assms by (simp add: nohz_balance_exit_idle_def)
next
  case True
  let ?M = "idle_cpus_mask (nohz b)"
  let ?b = "nohz_balance_exit_idle u b"
  have m: "u \<in> set ?M" "sorted_wrt (<) ?M" using assms True by (simp_all add: tickless_ok_def)
  have l: "int (length (filter (\<lambda>v. v \<noteq> u) ?M)) = int (length ?M) - 1" by (rule filter_out_one [OF sorted_distinct [OF m(2)] m(1)])
  have b: "?b = upd_rqb u (\<lambda>r. r\<lparr>nohz_tick_stopped := False\<rparr>)
      (b\<lparr>nohz := (nohz b)\<lparr>idle_cpus_mask := filter (\<lambda>v. v \<noteq> u) ?M, nr_idle_cpus := nr_idle_cpus (nohz b) - 1\<rparr>\<rparr>)"
    using True m(1) by (simp add: nohz_balance_exit_idle_def Let_def)
  show ?thesis
  proof (rule tickless_change [OF assms _ l])
    show "sorted_wrt (<) (filter (\<lambda>v. v \<noteq> u) ?M)" using m(2) by (rule sorted_wrt_filter)
    show "nohz_tick_stopped (rqb_at ?b v) \<longleftrightarrow> v \<in> set (filter (\<lambda>v. v \<noteq> u) ?M)" for v
      using assms unfolding b by (simp add: upd_rqb_def tickless_ok_def)
    show "idle_cpus_mask (nohz ?b) = filter (\<lambda>v. v \<noteq> u) ?M" unfolding b by (simp add: upd_rqb_def)
    show "nr_idle_cpus (nohz ?b) = int (length ?M) - 1" using assms unfolding b by (simp add: upd_rqb_def tickless_ok_def)
  qed
qed

lemma busy_idle_tickless [simp]:
  "tickless_ok (set_cpu_sd_state_busy u b) = tickless_ok b" "tickless_ok (set_cpu_sd_state_idle u b) = tickless_ok b"
  by (simp_all add: set_cpu_sd_state_busy_def set_cpu_sd_state_idle_def tickless_ok_def upd_busy_cpus_def upd_sd_def split: option.split)

lemma card_flip:
  assumes "finite D" "d \<in> D" "\<not> P d" "\<And>x. Q x \<longleftrightarrow> x = d \<or> P x"
  shows "int (card {x \<in> D. Q x}) = int (card {x \<in> D. P x}) + 1"
proof -
  have "{x \<in> D. Q x} = insert d {x \<in> D. P x}" using assms(2,4) by auto
  then show ?thesis using assms(1,3) by simp
qed

lemma busy_flip:
  assumes "busy_ok D b" "d \<in> D" "nohz_idle (sd_at b d) = v"
  shows "busy_ok D (upd_busy_cpus d (if v then 1 else - 1) (upd_sd d (\<lambda>x. x\<lparr>nohz_idle := \<not> v\<rparr>) b))"
proof -
  let ?c = "sd_shared b d" and ?b = "upd_busy_cpus d (if v then 1 else - 1) (upd_sd d (\<lambda>x. x\<lparr>nohz_idle := \<not> v\<rparr>) b)"
  have f: "finite D" using assms(1) by (simp add: busy_ok_def)
  have cnt: "nr_busy_cpus ?b c = int (card {x \<in> D. sd_shared ?b x = c \<and> \<not> nohz_idle (sd_at ?b x)})" for c
  proof (cases "c = ?c")
    case False
    have "{x \<in> D. sd_shared ?b x = c \<and> \<not> nohz_idle (sd_at ?b x)} = {x \<in> D. sd_shared b x = c \<and> \<not> nohz_idle (sd_at b x)}"
      using False by (auto simp: upd_busy_cpus_def upd_sd_def)
    moreover have "nr_busy_cpus ?b c = nr_busy_cpus b c" using False by (simp add: upd_busy_cpus_def upd_sd_def)
    ultimately show ?thesis using assms(1) by (simp add: busy_ok_def)
  next
    case True
    have n: "nr_busy_cpus ?b c = nr_busy_cpus b c + (if v then 1 else - 1)" using True by (simp add: upd_busy_cpus_def upd_sd_def)
    have o: "nr_busy_cpus b c = int (card {x \<in> D. sd_shared b x = c \<and> \<not> nohz_idle (sd_at b x)})" using assms(1) by (simp add: busy_ok_def)
    show ?thesis
    proof (cases v)
      case yes: True
      then show ?thesis unfolding n o using assms(2,3) True
        by (subst card_flip [OF f, of d "\<lambda>x. sd_shared b x = c \<and> \<not> nohz_idle (sd_at b x)"]) (auto simp: upd_busy_cpus_def upd_sd_def)
    next
      case no: False
      then show ?thesis unfolding n o using assms(2,3) True
        by (subst card_flip [OF f, of d "\<lambda>x. sd_shared ?b x = c \<and> \<not> nohz_idle (sd_at ?b x)"]) (auto simp: upd_busy_cpus_def upd_sd_def)
    qed
  qed
  then show ?thesis using assms(1) unfolding busy_ok_def by (simp add: upd_busy_cpus_def upd_sd_def)
qed

lemma busy_steps:
  assumes "busy_ok D b"
  shows "busy_ok D (set_cpu_sd_state_busy u b)" "busy_ok D (set_cpu_sd_state_idle u b)"
proof -
  have d: "d \<in> D" if "sd_llc b u = Some d" for d using assms that by (auto simp: busy_ok_def)
  show "busy_ok D (set_cpu_sd_state_busy u b)"
    using assms d busy_flip [OF assms, of _ True] by (auto simp: set_cpu_sd_state_busy_def split: option.split)
  show "busy_ok D (set_cpu_sd_state_idle u b)"
    using assms d busy_flip [OF assms, of _ False] by (auto simp: set_cpu_sd_state_idle_def split: option.split)
qed

lemma busy_frame:
  "sd_llc b' = sd_llc b \<Longrightarrow> sd_shared b' = sd_shared b \<Longrightarrow> sd_at b' = sd_at b \<Longrightarrow> nr_busy_cpus b' = nr_busy_cpus b \<Longrightarrow> busy_ok D b' = busy_ok D b"
  by (simp add: busy_ok_def)

lemma other_steps_busy [simp]:
  "busy_ok D (nohz_balance_enter_idle A u b) = busy_ok D b" "busy_ok D (nohz_balance_exit_idle u b) = busy_ok D b"
  "busy_ok D (nohz_balancer_kick A b) = busy_ok D b" "busy_ok D (b\<lparr>softirqs := q\<rparr>) = busy_ok D b"
  by (rule busy_frame;
      simp add: nohz_balance_enter_idle_def nohz_balance_exit_idle_def nohz_balancer_kick_def upd_rqb_def Let_def)+

lemma kick_tickless [simp]: "tickless_ok (nohz_balancer_kick A b) = tickless_ok b" "tickless_ok (b\<lparr>softirqs := q\<rparr>) = tickless_ok b"
  by (auto simp: nohz_balancer_kick_def tickless_ok_def upd_rqb_def Let_def)

lemma kick_needed_keeps:
  assumes "tickless_ok b" "busy_ok D b"
  shows "tickless_ok (snd (nohz_kick_needed A K u b))" "busy_ok D (snd (nohz_kick_needed A K u b))"
  using assms exit_tickless [of "set_cpu_sd_state_busy (this_cpu K) b" u] busy_steps(1) [of D b "this_cpu K"]
  by (auto simp: nohz_kick_needed_def Let_def)

lemma nohz_step_keeps:
  assumes "nohz_step A K b b'" "tickless_ok b" "busy_ok D b"
  shows "tickless_ok b' \<and> busy_ok D b'"
  using assms
proof (cases rule: nohz_step.cases)
  case (tick u)
  define b1 where "b1 = (if time_after_eq (jiffies (ks b)) (rq_next_balance (rqb_at b u)) then b\<lparr>softirqs := softirqs b @ [this_cpu K]\<rparr> else b)"
  have b1: "tickless_ok b1" "busy_ok D b1" using assms(2,3) by (simp_all add: b1_def)
  note k = kick_needed_keeps [OF b1, of A K u]
  have "b' = (if on_null_domain u b then b
      else if fst (nohz_kick_needed A K u b1) then nohz_balancer_kick A (snd (nohz_kick_needed A K u b1)) else snd (nohz_kick_needed A K u b1))"
    using tick by (simp add: trigger_load_balance_def b1_def Let_def split: prod.split)
  then show ?thesis using k assms(2,3) by simp
qed (use assms enter_tickless exit_tickless busy_steps in auto)

text \<open>C16: along every sequence of cpus that stop and restart their ticks, go busy and idle, and trigger balancing from
  the tick, the mask of tickless cpus holds exactly the cpus flagged as stopped, its count is its size, and the
  number of busy cpus of every shared cache is the number of its domains that are not marked idle.\<close>
theorem nohz_accounting:
  assumes "nohz_reachable A K b0 b" and "tickless_ok b0" and "busy_ok D b0"
  shows "tickless_ok b \<and> busy_ok D b"
  using assms
proof (induction rule: nohz_reachable.induct)
  case (step b b')
  then show ?case using nohz_step_keeps by blast
qed simp

theorem nohz_accounting_witness:
  "nr_idle_cpus (nohz (set_cpu_sd_state_idle 1 (nohz_balance_enter_idle plain_core 1 (balancing_state zero_state)))) = 1
    \<and> tickless_ok (set_cpu_sd_state_idle 1 (nohz_balance_enter_idle plain_core 1 (balancing_state zero_state)))"
proof -
  let ?b = "balancing_state zero_state"
  have r: "nohz_reachable plain_core plain_api ?b (set_cpu_sd_state_idle 1 (nohz_balance_enter_idle plain_core 1 ?b))"
    by (rule nohz_reachable.step [OF nohz_reachable.step [OF nohz_reachable.start nohz_step.stop_tick] nohz_step.go_idle])
  have t: "tickless_ok ?b" by (simp add: tickless_ok_def balancing_state_def zero_rqb_def)
  have u: "busy_ok {0} ?b"
  proof -
    have "{d \<in> {0}. sd_shared ?b d = c \<and> \<not> nohz_idle (sd_at ?b d)} = (if c = 0 then {0} else {})" for c
      by (auto simp: balancing_state_def two_cpus_def)
    then show ?thesis unfolding busy_ok_def by (simp add: balancing_state_def)
  qed
  have "nr_idle_cpus (nohz (set_cpu_sd_state_idle 1 (nohz_balance_enter_idle plain_core 1 ?b))) = 1"
    by (simp add: set_cpu_sd_state_idle_def nohz_balance_enter_idle_def on_null_domain_def balancing_defs upd_rqb_def upd_busy_cpus_def upd_sd_def)
  then show ?thesis using nohz_accounting [OF r t u] by blast
qed

end
