(* ===== verification/Energy.thy ===== *)
theory Energy
  imports Domains
begin

text \<open>
  The energy model, \<open>kernel/sched/fair.c\<close> lines 6197--6585, without SchedTune: the energy of a group before and after a
  change of utilisation. Values of type \<open>int\<close> are 32-bit words that wrap; a cpu number may be \<open>- 1\<close>, for none. \<open>None\<close>
  is an index outside a table of states, a group without an energy model, or a division by zero.
\<close>

record energy_env =
  sg_top :: sched_group
  sg_cap :: sched_group
  cap_idx :: nat
  util_delta :: s32
  eenv_src :: int
  eenv_dst :: int
  energy :: s32
  nrg_before :: s32
  nrg_after :: s32
  nrg_diff :: s32
  cap_before :: s32
  cap_after :: s32
  cap_delta :: s32

definition in_group :: "sched_group \<Rightarrow> int \<Rightarrow> bool" where
  "in_group g u \<longleftrightarrow> u \<noteq> - 1 \<and> u \<in> int ` set (sched_group_cpus g)"

section \<open>Utilisation after the change\<close>

definition cpu_norm_util :: "cpu \<Rightarrow> ulong \<Rightarrow> s32 \<Rightarrow> kstate \<Rightarrow> ulong" where
  "cpu_norm_util u cap delta s =
     (let util = ucast (raw_cpu_util u delta s) :: s32 in
      if scast util \<ge> cap then SCHED_CAPACITY_SCALE else scast (push_bit 10 util) div cap)"

definition calc_util_delta :: "energy_env \<Rightarrow> cpu \<Rightarrow> s32" where
  "calc_util_delta e u =
     (if int u = eenv_src e then - util_delta e else if int u = eenv_dst e then util_delta e else 0)"

definition group_max_util :: "energy_env \<Rightarrow> kstate \<Rightarrow> ulong" where
  "group_max_util e s = fold (\<lambda>u m. max m (raw_cpu_util u (calc_util_delta e u) s)) (sched_group_cpus (sg_cap e)) 0"

definition cap_state :: "sched_group \<Rightarrow> nat \<Rightarrow> (ulong \<times> ulong) option" where
  "cap_state g i = do { m \<leftarrow> sg_sge g; if i < length (cap_states m) then Some (cap_states m ! i) else None }"

definition idle_power :: "sched_group \<Rightarrow> s32 \<Rightarrow> ulong option" where
  "idle_power g i = do { m \<leftarrow> sg_sge g;
     if 0 \<le> sint i \<and> nat (sint i) < length (idle_states m) then Some (idle_states m ! nat (sint i)) else None }"

definition group_norm_util :: "energy_env \<Rightarrow> sched_group \<Rightarrow> kstate \<Rightarrow> ulong option" where
  "group_norm_util e g s = do {
     (cap, _) \<leftarrow> cap_state g (cap_idx e);
     let util_sum = fold (\<lambda>u m. m + cpu_norm_util u cap (calc_util_delta e u) s) (sched_group_cpus g) 0;
     Some (if util_sum > SCHED_CAPACITY_SCALE then SCHED_CAPACITY_SCALE else util_sum)
   }"

text \<open>The index of the first state that carries the utilisation, the number of states when none does.\<close>

definition find_new_capacity :: "energy_env \<Rightarrow> sched_group_energy \<Rightarrow> kstate \<Rightarrow> energy_env" where
  "find_new_capacity e m s =
     e\<lparr>cap_idx := length (takeWhile (\<lambda>c. \<not> fst c \<ge> group_max_util e s) (cap_states m))\<rparr>"

definition s32_min :: "s32 \<Rightarrow> s32 \<Rightarrow> s32" where
  "s32_min a b = (if sint a < sint b then a else b)"

text \<open>The idle state of a group that is at most partly occupied, mapped linearly from its utilisation.\<close>

definition mapped_idle_state :: "sched_group \<Rightarrow> s64 \<Rightarrow> kstate \<Rightarrow> s32 option" where
  "mapped_idle_state g grp_util s = do {
     m \<leftarrow> sg_sge g;
     let max_idle = word_of_nat (length (idle_states m)) - 2;
     let new_state = (ucast (grp_util * scast max_idle) :: s32);
     let cap = max_capacity (sgc_of g s);
     if sint grp_util \<le> 0 then Some (max_idle + 1)
     else if cap = 0 then None
     else Some (max_idle - s32_min max_idle (ucast (scast new_state div cap)))
   }"

definition group_idle_state :: "energy_env \<Rightarrow> sched_group \<Rightarrow> lb_state \<Rightarrow> s32 option" where
  "group_idle_state e g b =
     (let s = ks b;
          state = fold (\<lambda>u m. s32_min m (idle_state_idx (rqb_at b u))) (sched_group_cpus g) 2147483647 + 1;
          grp_util = fold (\<lambda>u m. m + cpu_util u s) (sched_group_cpus g) (0 :: s64);
          src_in = (eenv_src e \<in> int ` set (sched_group_cpus g)); dst_in = (eenv_dst e \<in> int ` set (sched_group_cpus g))
      in if src_in = dst_in then Some state
         else let grp_util = grp_util + scast (if src_in then - util_delta e else util_delta e) in
              if sint grp_util \<le> sint (max_capacity (sgc_of g s) * scast (sg_weight g :: s32)) then mapped_idle_state g grp_util s
              else Some 0)"

section \<open>The energy of a group\<close>

text \<open>What the source cpu loses and the destination gains in capacity, for groups of one cpu.\<close>

definition note_cap :: "sched_group \<Rightarrow> ulong \<Rightarrow> energy_env \<Rightarrow> energy_env" where
  "note_cap g cap e =
     (if sg_weight g \<noteq> 1 then e
      else let e = (if util_delta e = 0 \<and> eenv_src e \<in> int ` set (sched_group_cpus g)
                    then e\<lparr>cap_before := ucast cap, cap_delta := cap_delta e - ucast cap\<rparr> else e)
           in if util_delta e \<noteq> 0 \<and> eenv_dst e \<in> int ` set (sched_group_cpus g)
              then e\<lparr>cap_after := ucast cap, cap_delta := cap_delta e + ucast cap\<rparr> else e)"

definition one_group_energy :: "sched_group option \<Rightarrow> sched_group \<Rightarrow> energy_env \<Rightarrow> lb_state \<Rightarrow> (s32 \<times> energy_env) option" where
  "one_group_energy shared g e b = do {
     let e = e\<lparr>sg_cap := (case shared of Some h \<Rightarrow> if sg_weight h \<ge> sg_weight g then h else g | None \<Rightarrow> g)\<rparr>;
     m \<leftarrow> sg_sge g;
     let e = find_new_capacity e m (ks b);
     (cap, power) \<leftarrow> cap_state g (cap_idx e);
     let e = note_cap g cap e;
     idle_idx \<leftarrow> group_idle_state e g b;
     util \<leftarrow> group_norm_util e g (ks b);
     ipower \<leftarrow> idle_power g idle_idx;
     let busy = ucast (drop_bit 10 (util * power));
     let idle_energy = ucast (drop_bit 10 ((SCHED_CAPACITY_SCALE - util) * ipower));
     Some (busy + idle_energy, e)
   }"

text \<open>\<open>cpumask_xor\<close>, in increasing order.\<close>

definition mask_xor :: "cpu list \<Rightarrow> cpu list \<Rightarrow> cpu list" where
  "mask_xor a c = sort (filter (\<lambda>u. u \<notin> set c) a @ filter (\<lambda>u. u \<notin> set a) c)"

text \<open>
  How the walk over the groups of a domain ends: at the group itself (\<open>goto next_cpu\<close>), at the last group, or with
  \<open>- EINVAL\<close>. The state is the total, the cpus to visit and how many are expected.
\<close>

datatype walk = Next_cpu | Next_domain | Einval

type_synonym tally = "s32 \<times> cpu list \<times> nat \<times> energy_env"

fun energy_groups :: "sched_group option \<Rightarrow> bool \<Rightarrow> sched_group list \<Rightarrow> tally \<Rightarrow> lb_state \<Rightarrow> (walk \<times> tally) option" where
  "energy_groups shared bottom [] t b = Some (Next_domain, t)"
| "energy_groups shared bottom (g # gs) (nrgs, visit, cnt, e) b = do {
     (nrg, e) \<leftarrow> one_group_energy shared g e b;
     let nrgs = nrgs + nrg;
     if bottom \<and> cnt = 0 then Some (Einval, (nrgs, visit, cnt, e))
     else let visit = (if bottom then mask_xor visit (sched_group_cpus g) else visit);
              cnt = (if bottom then cnt - 1 else cnt)
          in if set (sched_group_cpus g) = set (sched_group_cpus (sg_top e)) then Some (Next_cpu, (nrgs, visit, cnt, e))
             else energy_groups shared bottom gs (nrgs, visit, cnt, e) b
   }"

text \<open>The domains of a cpu, upwards, until one that another cpu has visited.\<close>

fun energy_domains :: "lb_api \<Rightarrow> cpu \<Rightarrow> sched_group option \<Rightarrow> sd_id list \<Rightarrow> tally \<Rightarrow> lb_state \<Rightarrow> (walk \<times> tally) option" where
  "energy_domains A u shared [] t b = Some (Next_domain, t)"
| "energy_domains A u shared (d # ds) t b = do {
     let D = sd_at b d;
     g \<leftarrow> first_group D;
     if sd_child D \<noteq> None \<and> group_first_cpu A g \<noteq> u then Some (Next_domain, t)
     else do {
       (w, t) \<leftarrow> energy_groups shared (sd_child D = None) (sd_groups D) t b;
       if w = Next_domain then energy_domains A u shared ds t b else Some (w, t)
     }
   }"

text \<open>Whether the energy was computed, and the environment with it. \<open>m\<close> bounds the visits, one per expected cpu and one.\<close>

fun energy_cpus :: "nat \<Rightarrow> nat \<Rightarrow> lb_api \<Rightarrow> tally \<Rightarrow> lb_state \<Rightarrow> (bool \<times> energy_env) option" where
  "energy_cpus m n A (nrgs, visit, cnt, e) b =
     (case visit of
        [] \<Rightarrow> Some (True, e\<lparr>energy := nrgs\<rparr>)
      | u # _ \<Rightarrow>
          (case m of
             0 \<Rightarrow> None
           | Suc m \<Rightarrow> do {
               shared \<leftarrow> (case sd_scs b u of
                 None \<Rightarrow> Some None
               | Some d \<Rightarrow> (case sd_parent (sd_at b d) of
                   None \<Rightarrow> Some None | Some p \<Rightarrow> map_option Some (first_group (sd_at b p))));
               ds \<leftarrow> domain_chain n (rq_sd (rqb_at b u)) b;
               (w, (nrgs, visit, cnt, e)) \<leftarrow> energy_domains A u shared ds (nrgs, visit, cnt, e) b;
               if w = Einval \<or> w = Next_domain \<and> u \<in> set visit then Some (False, e)
               else energy_cpus m n A (nrgs, filter (\<lambda>v. v \<noteq> u) visit, cnt, e) b
             }))"

declare energy_cpus.simps [simp del]

definition sched_group_energy :: "nat \<Rightarrow> lb_api \<Rightarrow> energy_env \<Rightarrow> lb_state \<Rightarrow> (bool \<times> energy_env) option" where
  "sched_group_energy n A e b =
     (let cpus = sched_group_cpus (sg_top e)
      in energy_cpus (length cpus + 1) n A (0, cpus, length cpus, e) b)"

section \<open>The difference\<close>

text \<open>Over the groups that hold a cpu of the change. \<open>None\<close> inside is the abort with the result 0.\<close>

fun energy_sums ::
  "nat \<Rightarrow> lb_api \<Rightarrow> sched_group list \<Rightarrow> s32 \<times> s32 \<times> energy_env \<times> energy_env \<Rightarrow> lb_state
    \<Rightarrow> ((s32 \<times> s32 \<times> energy_env) option) option" where
  "energy_sums n A [] (sum0, sum1, e0, e) b = Some (Some (sum0, sum1, e))"
| "energy_sums n A (g # gs) (sum0, sum1, e0, e) b =
     (if in_group g (eenv_src e) \<or> in_group g (eenv_dst e)
      then do {
        (ok, e0) \<leftarrow> sched_group_energy n A (e0\<lparr>sg_top := g\<rparr>) b;
        if \<not> ok then Some None
        else do {
          (ok, e) \<leftarrow> sched_group_energy n A (e\<lparr>sg_top := g, cap_before := cap_before e0, cap_delta := cap_delta e0\<rparr>) b;
          if \<not> ok then Some None
          else energy_sums n A gs (sum0 + energy e0, sum1 + energy e, e0, e) b
        }
      }
      else energy_sums n A gs (sum0, sum1, e0, e) b)"

definition s32_abs :: "s32 \<Rightarrow> s32" where
  "s32_abs a = (if sint a < 0 then - a else a)"

definition energy_diff :: "nat \<Rightarrow> lb_api \<Rightarrow> energy_env \<Rightarrow> lb_state \<Rightarrow> (s32 \<times> energy_env) option" where
  "energy_diff n A e b =
     (if eenv_src e = eenv_dst e then Some (0, e)
      else case sd_ea b (nat (if eenv_src e \<noteq> - 1 then eenv_src e else eenv_dst e)) of
             None \<Rightarrow> Some (0, e)
           | Some d \<Rightarrow> do {
               r \<leftarrow> energy_sums n A (sd_groups (sd_at b d))
                 (0, 0, e\<lparr>util_delta := 0, nrg_before := 0, nrg_after := 0, nrg_diff := 0, cap_before := 0, cap_after := 0, cap_delta := 0\<rparr>, e) b;
               (case r of
                  None \<Rightarrow> Some (0, e)
                | Some (sum0, sum1, e) \<Rightarrow>
                    let margin = signed_drop_bit 6 sum0;
                        diff = sum1 - sum0;
                        diff = (if sint (s32_abs diff) < sint margin then 0 else diff)
                    in Some (diff, e\<lparr>nrg_before := sum0, nrg_after := sum1, nrg_diff := diff\<rparr>))
             })"

end
