(* ===== verification/Wakeup.thy ===== *)
theory Wakeup
  imports Energy
begin

text \<open>
  The choice of a cpu for a waking or new task, \<open>kernel/sched/fair.c\<close> lines 6914--7050, 7161--7323 and 7357--7951,
  without \<open>CONFIG_SCHED_SMT\<close>, SchedTune, WALT and statistics, so no task is boosted or prefers idle cpus
  (\<open>find_best_target\<close> has both as arguments). A cpu \<open>- 1\<close> of the code is \<open>None\<close>; \<open>j\<close> is the task \<open>current\<close>.
\<close>

abbreviation ULONG_MAX :: ulong where "ULONG_MAX \<equiv> - 1"

section \<open>The idlest group and cpu\<close>

record idlest_acc =
  idlest_group :: "sched_group option"
  most_spare_sg :: "sched_group option"
  min_load :: ulong
  this_load :: ulong
  most_spare :: ulong
  this_spare :: ulong

text \<open>The load of the cpus of a group and their largest spare capacity.\<close>

fun group_tally :: "kapi \<Rightarrow> bool \<Rightarrow> nat \<Rightarrow> se_id \<Rightarrow> cpu list \<Rightarrow> ulong \<times> ulong \<Rightarrow> kstate \<Rightarrow> (ulong \<times> ulong) option" where
  "group_tally K local_group idx i [] a s = Some a"
| "group_tally K local_group idx i (u # us) (load, spare) s = do {
     l \<leftarrow> (if local_group then source_load K u idx s else target_load K u idx s);
     group_tally K local_group idx i us (load + l, max spare (capacity_spare_wake u i s)) s
   }"

text \<open>A group with its relative load and spare capacity: that of the cpu itself is kept apart.\<close>

definition note_group :: "bool \<Rightarrow> sched_group \<Rightarrow> ulong \<Rightarrow> ulong \<Rightarrow> idlest_acc \<Rightarrow> idlest_acc" where
  "note_group local_group g avg spare a =
     (if local_group then a\<lparr>this_load := avg, this_spare := spare\<rparr>
      else let a = (if avg < min_load a then a\<lparr>min_load := avg, idlest_group := Some g\<rparr> else a)
           in if most_spare a < spare then a\<lparr>most_spare := spare, most_spare_sg := Some g\<rparr> else a)"

fun idlest_loop :: "kapi \<Rightarrow> cpu \<Rightarrow> nat \<Rightarrow> se_id \<Rightarrow> sched_group list \<Rightarrow> idlest_acc \<Rightarrow> kstate \<Rightarrow> idlest_acc option" where
  "idlest_loop K u idx i [] a s = Some a"
| "idlest_loop K u idx i (g # gs) a s =
     (if \<not> (\<exists>v\<in>set (sched_group_cpus g). cpus_allowed (task_at s i) v) then idlest_loop K u idx i gs a s
      else let local_group = (u \<in> set (sched_group_cpus g)) in do {
        (load, spare) \<leftarrow> group_tally K local_group idx i (sched_group_cpus g) (0, 0) s;
        let cap = capacity (sgc_of g s);
        if cap = 0 then None
        else idlest_loop K u idx i gs (note_group local_group g (load * SCHED_CAPACITY_SCALE div cap) spare a) s
      })"

definition find_idlest_group :: "kapi \<Rightarrow> sched_domain \<Rightarrow> se_id \<Rightarrow> cpu \<Rightarrow> u32 \<Rightarrow> kstate \<Rightarrow> sched_group option option" where
  "find_idlest_group K d i u sd_flag s =
     (let idx = unat (if sd_flag AND SD_BALANCE_WAKE \<noteq> 0 then wake_idx d else forkexec_idx d);
          imb = scast (100 + (imbalance_pct d - 100) div 2 :: u32) :: ulong in do {
        _ \<leftarrow> first_group d;
        a \<leftarrow> idlest_loop K u idx i (sd_groups d)
          \<lparr>idlest_group = None, most_spare_sg = None, min_load = ULONG_MAX, this_load = 0, most_spare = 0, this_spare = 0\<rparr> s;
        Some (if this_spare a > task_util i s div 2 \<and> imb * this_spare a > 100 * most_spare a then None
              else if most_spare a > task_util i s div 2 then most_spare_sg a
              else if idlest_group a = None \<or> 100 * this_load a < imb * min_load a then None
              else idlest_group a)
      })"

record idle_acc =
  min_exit_latency :: u32
  latest_idle_timestamp :: u64
  shallowest_idle_cpu :: "cpu option"
  idle_min_load :: ulong
  least_loaded_cpu :: cpu

definition idlest_cpu_step :: "lb_api \<Rightarrow> cpu \<Rightarrow> lb_state \<Rightarrow> cpu \<Rightarrow> idle_acc \<Rightarrow> idle_acc" where
  "idlest_cpu_step A this b u a =
     (if idle_cpu A u (ks b)
      then let lat = idle_exit_latency (rqb_at b u); stamp = idle_stamp (rqb_at b u) in
           if (case lat of None \<Rightarrow> False | Some l \<Rightarrow> l < min_exit_latency a)
           then a\<lparr>min_exit_latency := the lat, latest_idle_timestamp := stamp, shallowest_idle_cpu := Some u\<rparr>
           else if (case lat of None \<Rightarrow> True | Some l \<Rightarrow> l = min_exit_latency a) \<and> stamp > latest_idle_timestamp a
           then a\<lparr>latest_idle_timestamp := stamp, shallowest_idle_cpu := Some u\<rparr>
           else a
      else if shallowest_idle_cpu a = None
      then let load = weighted_cpuload u (ks b) in
           if load < idle_min_load a \<or> load = idle_min_load a \<and> u = this
           then a\<lparr>idle_min_load := load, least_loaded_cpu := u\<rparr> else a
      else a)"

definition find_idlest_cpu :: "lb_api \<Rightarrow> sched_group \<Rightarrow> se_id \<Rightarrow> cpu \<Rightarrow> lb_state \<Rightarrow> cpu" where
  "find_idlest_cpu A g i this b =
     (if sg_weight g = 1 then group_first_cpu A g
      else let a = fold (idlest_cpu_step A this b) [u \<leftarrow> sched_group_cpus g. cpus_allowed (task_at (ks b) i) u]
             \<lparr>min_exit_latency = - 1, latest_idle_timestamp = 0, shallowest_idle_cpu = None,
              idle_min_load = ULONG_MAX, least_loaded_cpu = this\<rparr>
           in case shallowest_idle_cpu a of Some u \<Rightarrow> u | None \<Rightarrow> least_loaded_cpu a)"

section \<open>An idle sibling\<close>

definition select_idle_core :: "se_id \<Rightarrow> sd_id \<Rightarrow> cpu \<Rightarrow> cpu option" where
  "select_idle_core i d target = None"

definition select_idle_smt :: "se_id \<Rightarrow> sd_id \<Rightarrow> cpu \<Rightarrow> cpu option" where
  "select_idle_smt i d target = None"

text \<open>\<open>for_each_cpu_wrap\<close> starts at the target and wraps; \<open>None\<close> inside is \<open>- 1\<close> or a number past the last cpu.\<close>

definition select_idle_cpu :: "lb_api \<Rightarrow> kapi \<Rightarrow> se_id \<Rightarrow> sd_id \<Rightarrow> cpu \<Rightarrow> lb_state \<Rightarrow> (cpu option \<times> lb_state) option" where
  "select_idle_cpu A K i d target b =
     (case sd_llc b (this_cpu K) of
        None \<Rightarrow> Some (None, b)
      | Some l \<Rightarrow>
          if sched_feat K SIS_AVG_CPU \<and> avg_idle (rqb_at b (this_cpu K)) div 512 < avg_scan_cost (sd_at b l) then Some (None, b)
          else let t0 = lb_clock A (clock_reads b); t1 = lb_clock A (clock_reads b + 1);
                   span = sd_span (sd_at b d);
                   order = filter (\<lambda>u. u \<ge> target) span @ filter (\<lambda>u. u < target) span;
                   hits = filter (\<lambda>u. cpus_allowed (task_at (ks b) i) u \<and> idle_cpu A u (ks b)) order in do {
            delta \<leftarrow> s64_div (t1 - t0 - avg_scan_cost (sd_at b l)) 8;
            let b = upd_sd l (\<lambda>d. d\<lparr>avg_scan_cost := avg_scan_cost d + delta\<rparr>) (b\<lparr>clock_reads := clock_reads b + 2\<rparr>);
            Some (case hits of [] \<Rightarrow> None | u # _ \<Rightarrow> Some u, b)
          })"

text \<open>
  The cpus of a group where the idle state counts: \<open>Inl\<close> is the target itself, \<open>Inr\<close> the best idle cpu with its state and
  capacity; the first cpu that is busy or too small ends the group.
\<close>

type_synonym best_idle = "cpu option \<times> s32 \<times> ulong"

fun cstate_group :: "lb_api \<Rightarrow> kapi \<Rightarrow> se_id \<Rightarrow> cpu \<Rightarrow> cpu list \<Rightarrow> best_idle \<Rightarrow> lb_state \<Rightarrow> cpu + best_idle" where
  "cstate_group A K i target [] best b = Inr best"
| "cstate_group A K i target (u # us) (bc, bs, bcap) b =
     (let new_usage = boosted_task_util i (ks b); cap = capacity_orig_of u (ks b); st = idle_state_idx (rqb_at b u) in
      if new_usage > cap \<or> \<not> idle_cpu A u (ks b) then Inr (bc, bs, bcap)
      else if u = target \<and> new_usage \<le> capacity_curr_of K target (ks b) then Inl target
      else cstate_group A K i target us (if sint st < sint bs \<and> cap \<le> bcap then (Some u, st, cap) else (bc, bs, bcap)) b)"

fun sibling_groups :: "lb_api \<Rightarrow> kapi \<Rightarrow> se_id \<Rightarrow> cpu \<Rightarrow> sched_group list \<Rightarrow> best_idle \<Rightarrow> lb_state \<Rightarrow> cpu + best_idle" where
  "sibling_groups A K i target [] best b = Inr best"
| "sibling_groups A K i target (g # gs) best b =
     (case filter (cpus_allowed (task_at (ks b) i)) (sched_group_cpus g) of
        [] \<Rightarrow> sibling_groups A K i target gs best b
      | v # vs \<Rightarrow>
          if sysctl_sched_cstate_aware (sysctls (ks b)) \<noteq> 0
          then (case cstate_group A K i target (v # vs) best b of
                  Inl u \<Rightarrow> Inl u
                | Inr best \<Rightarrow> sibling_groups A K i target gs best b)
          else if \<exists>u\<in>set (sched_group_cpus g). u = target \<or> \<not> idle_cpu A u (ks b)
          then sibling_groups A K i target gs best b
          else Inl v)"

fun sibling_domains ::
  "nat \<Rightarrow> lb_api \<Rightarrow> kapi \<Rightarrow> se_id \<Rightarrow> cpu \<Rightarrow> sd_id option \<Rightarrow> best_idle \<Rightarrow> lb_state \<Rightarrow> (cpu + best_idle) option" where
  "sibling_domains _ A K i target None best b = Some (Inr best)"
| "sibling_domains 0 A K i target (Some d) best b = None"
| "sibling_domains (Suc n) A K i target (Some d) best b =
     (case sibling_groups A K i target (sd_groups (sd_at b d)) best b of
        Inl u \<Rightarrow> Some (Inl u)
      | Inr best \<Rightarrow> sibling_domains n A K i target (sd_child (sd_at b d)) best b)"

definition sibling_search :: "nat \<Rightarrow> lb_api \<Rightarrow> kapi \<Rightarrow> se_id \<Rightarrow> cpu \<Rightarrow> lb_state \<Rightarrow> cpu option" where
  "sibling_search n A K i target b = do {
     r \<leftarrow> sibling_domains n A K i target (sd_llc b target) (None, 2147483647, ULONG_MAX) b;
     Some (case r of Inl u \<Rightarrow> u | Inr (Some u, _) \<Rightarrow> u | Inr (None, _) \<Rightarrow> target)
   }"

definition select_idle_sibling :: "nat \<Rightarrow> lb_api \<Rightarrow> kapi \<Rightarrow> se_id \<Rightarrow> cpu \<Rightarrow> lb_state \<Rightarrow> (cpu \<times> lb_state) option" where
  "select_idle_sibling n A K i target b =
     (let prev = task_cpu (task_at (ks b) i) in
      if sysctl_sched_cstate_aware (sysctls (ks b)) \<noteq> 0 then do { u \<leftarrow> sibling_search n A K i target b; Some (u, b) }
      else if idle_cpu A target (ks b) then Some (target, b)
      else if prev \<noteq> target \<and> cpus_share_cache A prev target \<and> idle_cpu A prev (ks b) then Some (prev, b)
      else case sd_llc b target of
             None \<Rightarrow> Some (target, b)
           | Some d \<Rightarrow>
               (case select_idle_core i d target of
                  Some u \<Rightarrow> Some (u, b)
                | None \<Rightarrow> do {
                    (r, b) \<leftarrow> select_idle_cpu A K i d target b;
                    (case r of
                       Some u \<Rightarrow> Some (u, b)
                     | None \<Rightarrow>
                         (case select_idle_smt i d target of
                            Some u \<Rightarrow> Some (u, b)
                          | None \<Rightarrow> do { u \<leftarrow> sibling_search n A K i target b; Some (u, b) }))
                  }))"

end
