(* ===== verification/Select_Cpu.thy ===== *)
theory Select_Cpu
  imports Wakeup
begin

text \<open>
  The choice of a cpu by capacity and by energy, and the method \<open>select_task_rq\<close>, \<open>kernel/sched/fair.c\<close> lines
  7357--7951. \<open>boosted\<close> and \<open>prefer_idle\<close> say what SchedTune wants for the task; without it both are false, as
  \<open>select_task_rq_fair\<close> passes them. WALT and statistics are off. A cpu \<open>- 1\<close> of the code is \<open>None\<close>, and the outer
  \<open>None\<close> is a null or empty ring of groups.
\<close>

section \<open>By capacity\<close>

definition start_cpu :: "kapi \<Rightarrow> bool \<Rightarrow> kstate \<Rightarrow> int" where
  "start_cpu K boosted s =
     (let rd = root_domain_of (this_cpu K) s in if boosted then max_cap_orig_cpu rd else min_cap_orig_cpu rd)"

text \<open>The group chosen so far with its capacity, an \<open>int\<close>, and the group of the previous cpu.\<close>

type_synonym capacity_acc = "sched_group \<times> s32 \<times> sched_group option"

definition capacity_group :: "lb_api \<Rightarrow> se_id \<Rightarrow> cpu \<Rightarrow> kstate \<Rightarrow> sched_group \<Rightarrow> capacity_acc \<Rightarrow> capacity_acc" where
  "capacity_group A i prev s g a =
     (case a of (sg_target, target_max_cap, prev_sg) \<Rightarrow>
        let u = group_first_cpu A g;
            better = (capacity_of u s < scast target_max_cap \<and> task_fits_max i u s)
        in (if better then g else sg_target, if better then ucast (capacity_of u s) else target_max_cap,
            if prev \<in> set (sched_group_cpus g) then Some g else prev_sg))"

fun capacity_cpus :: "lb_api \<Rightarrow> se_id \<Rightarrow> kstate \<Rightarrow> cpu list \<Rightarrow> cpu \<Rightarrow> cpu" where
  "capacity_cpus A i s [] target_cpu = target_cpu"
| "capacity_cpus A i s (u # us) target_cpu =
     (if cpu_util u s + boosted_task_util i s > capacity_orig_of u s then capacity_cpus A i s us target_cpu
      else if idle_cpu A u s then u
      else capacity_cpus A i s us (if target_cpu = task_cpu (task_at s i) then u else target_cpu))"

definition capacity_aware_wake_cpu :: "lb_api \<Rightarrow> kapi \<Rightarrow> se_id \<Rightarrow> cpu \<Rightarrow> bool \<Rightarrow> lb_state \<Rightarrow> cpu option" where
  "capacity_aware_wake_cpu A K i target sync b =
     (let s = ks b; prev = task_cpu (task_at s i); u = this_cpu K; allowed = cpus_allowed (task_at s i);
          prev_cap = (ucast (capacity_orig_of prev s) :: s32) in
      if sysctl_sched_sync_hint_enable (sysctls s) \<noteq> 0 \<and> sync \<and> allowed u \<and> u \<in> set (cpu_online_mask A) then Some u
      else case sd_ea b prev of
             None \<Rightarrow> Some target
           | Some d \<Rightarrow> do {
               g \<leftarrow> first_group (sd_at b d);
               let (sg_target, target_max_cap, prev_sg) =
                 fold (capacity_group A i prev s) (sd_groups (sd_at b d)) (g, 2147483647, None);
               let back = sint prev_cap > sint target_max_cap \<and>
                 task_util i s * ucast (capacity_down_margin (sysctls s)) > scast (target_max_cap * 1024);
               let sg_target = (case prev_sg of Some p \<Rightarrow> if back then p else sg_target | None \<Rightarrow> sg_target);
               Some (capacity_cpus A i s (filter allowed (sched_group_cpus sg_target)) prev)
             })"

section \<open>The best target\<close>

text \<open>The utilisation of a cpu with the task on it, at least that of the task.\<close>

definition new_util :: "se_id \<Rightarrow> cpu \<Rightarrow> kstate \<Rightarrow> ulong" where
  "new_util i u s = max (boosted_task_util i s) (scast (cpu_util_wake u i s) + task_util i s)"

record best_target =
  best_idle_min_cap_orig :: ulong
  target_capacity :: ulong
  min_wake_util :: ulong
  target_max_spare_cap :: ulong
  best_active_util :: ulong
  best_idle_cstate :: s32
  best_active_cpu :: "cpu option"
  best_idle_cpu :: "cpu option"
  target_cpu :: "cpu option"

definition no_target :: best_target where
  "no_target = \<lparr>best_idle_min_cap_orig = ULONG_MAX, target_capacity = ULONG_MAX, min_wake_util = ULONG_MAX,
     target_max_spare_cap = 0, best_active_util = ULONG_MAX, best_idle_cstate = 2147483647,
     best_active_cpu = None, best_idle_cpu = None, target_cpu = None\<rparr>"

text \<open>Case A, a task that prefers idle cpus, on a busy cpu: the most spare capacity, else the least used one.\<close>

definition active_target :: "kapi \<Rightarrow> se_id \<Rightarrow> cpu \<Rightarrow> kstate \<Rightarrow> best_target \<Rightarrow> best_target" where
  "active_target K i u s a =
     (let new = new_util i u s; wake = scast (cpu_util_wake u i s); spare = capacity_orig_of u s - new in
      if capacity_curr_of K u s > new \<and> spare > target_max_spare_cap a
      then a\<lparr>target_max_spare_cap := spare, target_cpu := Some u\<rparr>
      else if target_cpu a \<noteq> None \<or> wake > min_wake_util a \<or> new > best_active_util a then a
      else a\<lparr>min_wake_util := wake, best_active_util := new, best_active_cpu := Some u\<rparr>)"

text \<open>Case B, an idle cpu: the smallest one, in the shallowest state where states count.\<close>

definition idle_target :: "cpu \<Rightarrow> lb_state \<Rightarrow> best_target \<Rightarrow> best_target" where
  "idle_target u b a =
     (let cap = capacity_orig_of u (ks b); st = idle_state_idx (rqb_at b u) in
      if cap > best_idle_min_cap_orig a \<or> sysctl_sched_cstate_aware (sysctls (ks b)) \<noteq> 0 \<and> sint (best_idle_cstate a) \<le> sint st then a
      else a\<lparr>best_idle_min_cap_orig := cap, best_idle_cstate := st, best_idle_cpu := Some u\<rparr>)"

text \<open>Case C, a busy cpu: the smallest one, with the most spare capacity.\<close>

definition packed_target :: "se_id \<Rightarrow> cpu \<Rightarrow> kstate \<Rightarrow> best_target \<Rightarrow> best_target" where
  "packed_target i u s a =
     (let cap = capacity_orig_of u s; spare = cap - new_util i u s in
      if cap > target_capacity a \<or> spare < target_max_spare_cap a then a
      else a\<lparr>target_max_spare_cap := spare, target_capacity := cap, target_cpu := Some u\<rparr>)"

text \<open>The visit of a cpu that the task may use; \<open>Inl\<close> is an early return.\<close>

definition visit_target :: "lb_api \<Rightarrow> kapi \<Rightarrow> bool \<Rightarrow> se_id \<Rightarrow> cpu \<Rightarrow> lb_state \<Rightarrow> best_target \<Rightarrow> cpu + best_target" where
  "visit_target A K prefer_idle i u b a =
     (if u \<notin> set (cpu_online_mask A) \<or> new_util i u (ks b) > capacity_orig_of u (ks b) then Inr a
      else if prefer_idle then (if idle_cpu A u (ks b) then Inl u else Inr (active_target K i u (ks b) a))
      else if idle_cpu A u (ks b) then Inr (idle_target u b a)
      else Inr (packed_target i u (ks b) a))"

fun scan_targets :: "lb_api \<Rightarrow> kapi \<Rightarrow> bool \<Rightarrow> se_id \<Rightarrow> cpu list \<Rightarrow> lb_state \<Rightarrow> best_target \<Rightarrow> cpu + best_target" where
  "scan_targets A K prefer_idle i [] b a = Inr a"
| "scan_targets A K prefer_idle i (u # us) b a =
     (case visit_target A K prefer_idle i u b a of Inl v \<Rightarrow> Inl v | Inr a \<Rightarrow> scan_targets A K prefer_idle i us b a)"

text \<open>The target and the backup. The cpus of the groups are visited group after group.\<close>

definition find_best_target ::
  "lb_api \<Rightarrow> kapi \<Rightarrow> se_id \<Rightarrow> bool \<Rightarrow> bool \<Rightarrow> lb_state \<Rightarrow> (cpu option \<times> cpu option) option" where
  "find_best_target A K i boosted prefer_idle b =
     (let u = start_cpu K boosted (ks b) in
      if u < 0 then Some (None, None)
      else case sd_ea b (nat u) of
             None \<Rightarrow> Some (None, None)
           | Some d \<Rightarrow> do {
               _ \<leftarrow> first_group (sd_at b d);
               Some (case scan_targets A K prefer_idle i
                       [v \<leftarrow> concat (map sched_group_cpus (sd_groups (sd_at b d))). cpus_allowed (task_at (ks b) i) v] b no_target of
                       Inl v \<Rightarrow> (Some v, None)
                     | Inr a \<Rightarrow>
                         let other = (if prefer_idle then best_active_cpu a else best_idle_cpu a)
                         in if target_cpu a = None then (other, None) else (target_cpu a, other))
             })"

section \<open>By energy\<close>

definition wake_cap :: "kapi \<Rightarrow> se_id \<Rightarrow> cpu \<Rightarrow> cpu \<Rightarrow> kstate \<Rightarrow> (bool \<times> kstate) option" where
  "wake_cap K i u prev s =
     (let min_cap = min (capacity_orig_of prev s) (capacity_orig_of u s);
          max_cap = max_cpu_capacity_val (root_domain_of u s)
      in if sint (max_cap - min_cap) < sint (signed_drop_bit 3 max_cap) then Some (False, s)
         else do {
           s \<leftarrow> sync_entity_load_avg K i s;
           Some (min_cap * 1024 < task_util i s * ucast (fair_capacity_margin (sysctls s)), s)
         })"

text \<open>The environment of a move from one cpu to another; the group is a null pointer until \<open>energy_diff\<close> sets it.\<close>

definition move_env :: "se_id \<Rightarrow> cpu \<Rightarrow> cpu \<Rightarrow> kstate \<Rightarrow> energy_env" where
  "move_env i src dst s =
     (let null = \<lparr>sched_group_cpus = [], sg_weight = 0, sg_sgc = 0, sg_sge = None\<rparr> in
      \<lparr>sg_top = null, sg_cap = null, cap_idx = 0, util_delta = ucast (task_util i s), eenv_src = int src, eenv_dst = int dst,
       energy = 0, nrg_before = 0, nrg_after = 0, nrg_diff = 0, cap_before = 0, cap_after = 0, cap_delta = 0\<rparr>)"

definition select_energy_cpu_brute ::
  "nat \<Rightarrow> lb_api \<Rightarrow> kapi \<Rightarrow> bool \<Rightarrow> bool \<Rightarrow> se_id \<Rightarrow> cpu \<Rightarrow> bool \<Rightarrow> lb_state \<Rightarrow> (cpu \<times> lb_state) option" where
  "select_energy_cpu_brute n A K boosted prefer_idle i prev sync b =
     (if sysctl_sched_sync_hint_enable (sysctls (ks b)) \<noteq> 0 \<and> sync \<and> cpus_allowed (task_at (ks b) i) (this_cpu K)
      then Some (this_cpu K, b)
      else do {
        b \<leftarrow> on_kernel (sync_entity_load_avg K i) b;
        (tmp_target, tmp_backup) \<leftarrow> find_best_target A K i boosted prefer_idle b;
        let target = (case tmp_target of None \<Rightarrow> prev | Some u \<Rightarrow> u);
        if sd_ea b prev = None then Some (prev, b)
        else if tmp_target \<noteq> None \<and> (boosted \<or> prefer_idle) \<and> idle_cpu A target (ks b) then Some (target, b)
        else if target = prev then Some (prev, b)
        else if cpu_overutilized prev (ks b) then Some (target, b)
        else do {
          (diff, e) \<leftarrow> energy_diff n A (move_env i prev target (ks b)) b;
          if sint diff < 0 then Some (target, b)
          else (case tmp_backup of
                  None \<Rightarrow> Some (prev, b)
                | Some v \<Rightarrow> do {
                    (diff, e) \<leftarrow> energy_diff n A (e\<lparr>eenv_dst := int v\<rparr>) b;
                    Some (if sint diff < 0 then v else prev, b)
                  })
        }
      })"

section \<open>The method\<close>

definition WF_SYNC :: u32 where "WF_SYNC = 0x01"

text \<open>The domain for \<open>wake_affine\<close>, and the highest one that balances for the flag.\<close>

fun scan_domains :: "bool \<Rightarrow> cpu \<Rightarrow> u32 \<Rightarrow> sd_id list \<Rightarrow> sd_id option \<Rightarrow> lb_state \<Rightarrow> sd_id option \<times> sd_id option" where
  "scan_domains want_affine prev sd_flag [] sd b = (None, sd)"
| "scan_domains want_affine prev sd_flag (d # ds) sd b =
     (let D = sd_at b d in
      if \<not> has_flag SD_LOAD_BALANCE D then (None, sd)
      else if want_affine \<and> has_flag SD_WAKE_AFFINE D \<and> prev \<in> set (sd_span D) then (Some d, sd)
      else if has_flag sd_flag D then scan_domains want_affine prev sd_flag ds (Some d) b
      else if \<not> want_affine then (None, sd)
      else scan_domains want_affine prev sd_flag ds sd b)"

text \<open>The highest domain of less weight that balances for the flag.\<close>

fun lower_domain :: "u32 \<Rightarrow> u32 \<Rightarrow> sd_id list \<Rightarrow> sd_id option \<Rightarrow> lb_state \<Rightarrow> sd_id option" where
  "lower_domain wt sd_flag [] sd b = sd"
| "lower_domain wt sd_flag (d # ds) sd b =
     (if wt \<le> span_weight (sd_at b d) then sd
      else lower_domain wt sd_flag ds (if has_flag sd_flag (sd_at b d) then Some d else sd) b)"

text \<open>The descent to the idlest cpu, with at most \<open>m\<close> passes: \<open>None\<close> beyond.\<close>

fun descend :: "nat \<Rightarrow> nat \<Rightarrow> lb_api \<Rightarrow> kapi \<Rightarrow> se_id \<Rightarrow> u32 \<Rightarrow> sd_id option \<Rightarrow> cpu \<Rightarrow> cpu \<Rightarrow> lb_state \<Rightarrow> cpu option" where
  "descend m n A K i sd_flag None u new_cpu b = Some new_cpu"
| "descend 0 n A K i sd_flag (Some d) u new_cpu b = None"
| "descend (Suc m) n A K i sd_flag (Some d) u new_cpu b =
     (let D = sd_at b d in
      if \<not> has_flag sd_flag D then descend m n A K i sd_flag (sd_child D) u new_cpu b
      else do {
        r \<leftarrow> find_idlest_group K D i u sd_flag (ks b);
        (case r of
           None \<Rightarrow> descend m n A K i sd_flag (sd_child D) u new_cpu b
         | Some g \<Rightarrow>
             if find_idlest_cpu A g i u b = u then descend m n A K i sd_flag (sd_child D) u u b
             else do {
               ds \<leftarrow> domain_chain n (rq_sd (rqb_at b (find_idlest_cpu A g i u b))) b;
               descend m n A K i sd_flag (lower_domain (span_weight D) sd_flag ds None b)
                 (find_idlest_cpu A g i u b) (find_idlest_cpu A g i u b) b
             })
      })"

text \<open>Whether to pull the task to the waking cpu; \<open>record_wakee\<close> and \<open>wake_cap\<close> change the state.\<close>

definition wants_affine :: "lb_api \<Rightarrow> kapi \<Rightarrow> se_id \<Rightarrow> cpu \<Rightarrow> u32 \<Rightarrow> kstate \<Rightarrow> (bool \<times> kstate) option" where
  "wants_affine A K i prev sd_flag s =
     (let u = this_cpu K; j = rq_curr (rq_at s u) in
      if sd_flag AND SD_BALANCE_WAKE = 0 then Some (False, s)
      else let s = record_wakee (ucast (ticks_per_second A)) j i s in
           if wake_wide (sd_llc_size A u) j i s then Some (sched_feat K CAPACITY_AWARE, s)
           else do {
             (capped, s) \<leftarrow> wake_cap K i u prev s;
             Some (\<not> capped \<and> cpus_allowed (task_at s i) u \<or> sched_feat K CAPACITY_AWARE, s)
           })"

definition select_task_rq_fair ::
  "nat \<Rightarrow> nat \<Rightarrow> lb_api \<Rightarrow> kapi \<Rightarrow> se_id \<Rightarrow> cpu \<Rightarrow> u32 \<Rightarrow> u32 \<Rightarrow> lb_state \<Rightarrow> (cpu \<times> lb_state) option" where
  "select_task_rq_fair m n A K i prev sd_flag wake_flags b =
     (let u = this_cpu K; sync = (wake_flags AND WF_SYNC \<noteq> 0) in do {
        (want_affine, s) \<leftarrow> wants_affine A K i prev sd_flag (ks b);
        let b = b\<lparr>ks := s\<rparr>;
        ds \<leftarrow> domain_chain n (rq_sd (rqb_at b u)) b;
        let (affine_sd, sd) = scan_domains want_affine prev sd_flag ds None b;
        pull \<leftarrow> (case affine_sd of
          None \<Rightarrow> Some False
        | Some d \<Rightarrow> if u = prev then Some False
            else wake_affine n K (unat (wake_idx (sd_at b d))) (imbalance_pct (sd_at b d)) (rq_curr (rq_at s u)) i prev sync s);
        let new_cpu = (if pull then u else prev);
        let calm = (\<not> overutilized (root_domain_of u s));
        if affine_sd = None \<and> sd \<noteq> None then do { v \<leftarrow> descend m n A K i sd_flag sd u new_cpu b; Some (v, b) }
        else if sched_feat K ENERGY_AWARE \<and> calm then select_energy_cpu_brute n A K False False i prev sync b
        else if sched_feat K CAPACITY_AWARE \<and> calm then do { v \<leftarrow> capacity_aware_wake_cpu A K i prev sync b; Some (v, b) }
        else if sd_flag AND SD_BALANCE_WAKE \<noteq> 0 then select_idle_sibling n A K i new_cpu b
        else Some (new_cpu, b)
      })"

end
