(* ===== verification/Big_Little.thy ===== *)
theory Big_Little
  imports Select_Cpu
begin

text \<open>A system of a small and a big cpu, on which the searches for a cpu are evaluated.\<close>

section \<open>A small and a big cpu\<close>

text \<open>Cpu 0 is small and runs something, cpu 1 is big and idle; each has a domain whose ring starts at its own group. The task is 7.\<close>

definition small_group :: sched_group where
  "small_group = \<lparr>sched_group_cpus = [0], sg_weight = 1, sg_sgc = 0,
     sg_sge = Some \<lparr>idle_states = [10, 5], cap_states = [(200, 50), (400, 150), (- 1, 200)]\<rparr>\<rparr>"

definition big_group :: sched_group where
  "big_group = \<lparr>sched_group_cpus = [1], sg_weight = 1, sg_sgc = 1,
     sg_sge = Some \<lparr>idle_states = [40, 20], cap_states = [(512, 300), (1024, 1000), (- 1, 1200)]\<rparr>\<rparr>"

definition big_little :: lb_state where
  "big_little = (balancing_state (zero_state\<lparr>
     rq_at := (\<lambda>u. if u = 0 then zero_rq\<lparr>rq_cfs := 0, cpu_capacity_orig := 400, cpu_capacity := 400, rq_nr_running := 1\<rparr>
                    else zero_rq\<lparr>rq_cfs := 1, cpu_capacity_orig := 1024, cpu_capacity := 1024\<rparr>),
     se_at := (\<lambda>i. zero_se\<lparr>se_avg := zero_avg\<lparr>util_avg := 100\<rparr>\<rparr>),
     cfs_at := (\<lambda>c. zero_cfs\<lparr>cfs_avg := zero_avg\<lparr>util_avg := 100\<rparr>\<rparr>),
     task_at := (\<lambda>i. zero_task\<lparr>task_cpu := 1\<rparr>),
     sg_capacity_at := (\<lambda>g. zero_sgc\<lparr>capacity := 400, max_capacity := 400\<rparr>),
     rd_at := (\<lambda>_. zero_rd\<lparr>min_cap_orig_cpu := 0, max_cap_orig_cpu := 1, max_cpu_capacity_val := 1024\<rparr>)\<rparr>))
   \<lparr>sd_at := (\<lambda>d. two_cpus\<lparr>sd_groups := if d = 1 then [big_group, small_group] else [small_group, big_group]\<rparr>),
    rqb_at := (\<lambda>u. zero_rqb\<lparr>rq_sd := Some u\<rparr>), sd_ea := (\<lambda>u. Some u)\<rparr>"

lemmas big_little_defs = big_little_def small_group_def big_group_def balancing_defs zero_defs

lemma big_little_choice: "map_option fst (select_energy_cpu_brute 2 plain_core plain_api False False 7 1 False big_little) = Some 0"
  by code_simp

lemma big_little_target: "find_best_target plain_core plain_api 7 False False big_little = Some (Some 0, Some 1)"
  by code_simp

lemma big_little_method: "map_option fst (select_task_rq_fair 9 2 plain_core plain_api 7 1 SD_BALANCE_WAKE 0 big_little) = Some 0"
  by code_simp

lemma big_little_sibling: "map_option fst (select_idle_sibling 2 plain_core plain_api 7 0 big_little) = Some 1"
  by code_simp

lemma big_little_capacities: "capacity_orig_of 0 (ks big_little) = 400" "capacity_orig_of 1 (ks big_little) = 1024"
  by code_simp+

lemma big_little_idle: "\<not> idle_cpu plain_core 0 (ks big_little)" "idle_cpu plain_core 1 (ks big_little)"
  by code_simp+

end
