(* ===== verification/Wakeup_Props.thy ===== *)
theory Wakeup_Props
  imports Big_Little
begin

text \<open>
  What the placement of a waking task promises: where the chosen cpu comes from (the searches by idleness, by capacity,
  by energy, and the whole method), that leaving the previous cpu for energy is justified, which cpus
  \<open>find_best_target\<close> prefers, and that the energy computation and the descent through the domains end.
\<close>

section \<open>What the searches leave alone\<close>

lemma upd_se_frame [simp]:
  "task_at (upd_se i f s) = task_at s" "rq_at (upd_se i f s) = rq_at s" "rd_at (upd_se i f s) = rd_at s" "sysctls (upd_se i f s) = sysctls s"
  by (simp_all add: upd_se_def)

lemma upd_avg_se [simp]:
  "task_at (upd_avg (SeAvg i) f s) = task_at s" "rq_at (upd_avg (SeAvg i) f s) = rq_at s"
  "rd_at (upd_avg (SeAvg i) f s) = rd_at s" "sysctls (upd_avg (SeAvg i) f s) = sysctls s"
  by (simp_all add: upd_avg.simps)

lemma set_signals_se [simp]:
  "task_at (set_signals (SeAvg i) x s) = task_at s" "rq_at (set_signals (SeAvg i) x s) = rq_at s"
  "rd_at (set_signals (SeAvg i) x s) = rd_at s" "sysctls (set_signals (SeAvg i) x s) = sysctls s"
  by (cases x, simp)+

lemma sync_frame:
  assumes "sync_entity_load_avg K i s = Some s'"
  shows "task_at s' = task_at s" "rq_at s' = rq_at s" "rd_at s' = rd_at s" "sysctls s' = sysctls s"
  using assms
  by (auto simp: sync_entity_load_avg_def raw_update_load_avg_def choose_ratio_def account_busy_def Let_def
      split: if_splits bind_splits prod.splits)

lemma record_wakee_frame [simp]:
  "cpus_allowed (task_at (record_wakee h j p s) i) = cpus_allowed (task_at s i)"
  "task_cpu (task_at (record_wakee h j p s) i) = task_cpu (task_at s i)"
  by (simp_all add: record_wakee_def Let_def upd_task_def)

lemma wake_cap_frame: "wake_cap K i u prev s = Some (c, s') \<Longrightarrow> task_at s' = task_at s"
  by (auto simp: wake_cap_def Let_def dest: sync_frame split: if_splits bind_splits)

lemma wants_affine_frame:
  "wants_affine A K i prev f s = Some (w, s') \<Longrightarrow>
     cpus_allowed (task_at s' j) = cpus_allowed (task_at s j) \<and> task_cpu (task_at s' j) = task_cpu (task_at s j)"
  by (auto simp: wants_affine_def Let_def dest!: wake_cap_frame split: if_splits bind_splits)

section \<open>An idle sibling\<close>

text \<open>What a search for an idle cpu may change: the cost estimate of the cache domain of this cpu, and the clock
  readings it took for it.\<close>

definition only_scan_cost :: "kapi \<Rightarrow> lb_state \<Rightarrow> lb_state \<Rightarrow> bool" where
  "only_scan_cost K b b' \<longleftrightarrow> b' = b \<or> (\<exists>l x. sd_llc b (this_cpu K) = Some l
     \<and> b' = upd_sd l (\<lambda>d. d\<lparr>avg_scan_cost := x\<rparr>) (b\<lparr>clock_reads := clock_reads b + 2\<rparr>))"

lemma only_scan_cost_refl [simp]: "only_scan_cost K b b"
  by (simp add: only_scan_cost_def)

lemma only_scan_cost_frame: "only_scan_cost K b b' \<Longrightarrow> ks b' = ks b \<and> rqb_at b' = rqb_at b"
  by (auto simp: only_scan_cost_def upd_sd_def)

lemma select_idle_cpu_cost:
  assumes "select_idle_cpu A K i d target b = Some (r, b')"
  shows "only_scan_cost K b b'"
proof (cases "b' = b")
  case False
  then obtain l delta where l: "sd_llc b (this_cpu K) = Some l"
    and "b' = upd_sd l (\<lambda>d. d\<lparr>avg_scan_cost := avg_scan_cost d + delta\<rparr>) (b\<lparr>clock_reads := clock_reads b + 2\<rparr>)"
    using assms by (auto simp: select_idle_cpu_def Let_def split: option.splits if_splits bind_splits)
  then have "b' = upd_sd l (\<lambda>d. d\<lparr>avg_scan_cost := avg_scan_cost (sd_at b l) + delta\<rparr>) (b\<lparr>clock_reads := clock_reads b + 2\<rparr>)"
    by (simp add: upd_sd_def)
  then show ?thesis using l by (auto simp: only_scan_cost_def)
qed simp

lemma select_idle_cpu_sound:
  assumes "select_idle_cpu A K i d target b = Some (r, b')"
  shows "only_scan_cost K b b' \<and> ks b' = ks b \<and> (\<forall>u. r = Some u \<longrightarrow> idle_cpu A u (ks b) \<and> cpus_allowed (task_at (ks b) i) u)"
proof -
  have hd: "v \<in> set (filter P xs) \<Longrightarrow> P v" for v P and xs :: "cpu list" by simp
  have "\<forall>u. r = Some u \<longrightarrow> idle_cpu A u (ks b) \<and> cpus_allowed (task_at (ks b) i) u"
    using assms
    by (auto simp: select_idle_cpu_def Let_def filter_eq_Cons_iff append_eq_Cons_conv
        split: option.splits if_splits bind_splits list.splits dest!: hd)
  then show ?thesis using select_idle_cpu_cost [OF assms] only_scan_cost_frame by blast
qed

text \<open>The best idle cpu so far is idle, allowed and large enough.\<close>

definition best_ok :: "lb_api \<Rightarrow> se_id \<Rightarrow> best_idle \<Rightarrow> lb_state \<Rightarrow> bool" where
  "best_ok A i best b \<longleftrightarrow> (\<forall>u. fst best = Some u \<longrightarrow> idle_cpu A u (ks b) \<and> cpus_allowed (task_at (ks b) i) u)"

lemma cstate_group_sound:
  "best_ok A i best b \<Longrightarrow> (\<forall>u\<in>set us. cpus_allowed (task_at (ks b) i) u) \<Longrightarrow>
     (case cstate_group A K i target us best b of Inl u \<Rightarrow> u = target | Inr best \<Rightarrow> best_ok A i best b)"
  by (induction A K i target us best b rule: cstate_group.induct) (auto simp: best_ok_def Let_def split: sum.splits)

lemma sibling_groups_sound:
  "best_ok A i best b \<Longrightarrow>
     (case sibling_groups A K i target gs best b of
        Inl u \<Rightarrow> u = target \<or> idle_cpu A u (ks b) \<and> cpus_allowed (task_at (ks b) i) u
      | Inr best \<Rightarrow> best_ok A i best b)"
proof (induction gs arbitrary: best)
  case (Cons g gs)
  show ?case
  proof (cases "filter (cpus_allowed (task_at (ks b) i)) (sched_group_cpus g)")
    case Nil
    then show ?thesis using Cons by simp
  next
    case (Cons v vs)
    have all: "\<forall>u\<in>set (v # vs). cpus_allowed (task_at (ks b) i) u" and v: "v \<in> set (sched_group_cpus g)"
      using arg_cong [OF Cons, of set] by auto
    show ?thesis
    proof (cases "cstate_group A K i target (v # vs) best b")
      case (Inl u)
      then show ?thesis
        using Cons all v Cons.IH [OF Cons.prems] cstate_group_sound [OF Cons.prems all, where K = K and target = target] by simp
    next
      case (Inr best')
      then have "best_ok A i best' b"
        using cstate_group_sound [OF Cons.prems all, where K = K and target = target] by simp
      then show ?thesis
        using Cons all v Inr Cons.IH [OF Cons.prems] Cons.IH [of best'] by simp
    qed
  qed
qed simp

lemma sibling_domains_sound:
  "sibling_domains n A K i target d best b = Some r \<Longrightarrow> best_ok A i best b \<Longrightarrow>
     (case r of Inl u \<Rightarrow> u = target \<or> idle_cpu A u (ks b) \<and> cpus_allowed (task_at (ks b) i) u | Inr best \<Rightarrow> best_ok A i best b)"
proof (induction n A K i target d best b rule: sibling_domains.induct)
  case (3 n A K i target d best b)
  then show ?case
    using sibling_groups_sound [OF 3(3), where K = K and target = target and gs = "sd_groups (sd_at b d)"] by (auto split: sum.splits)
qed auto

lemma sibling_search_sound:
  assumes "sibling_search n A K i target b = Some u"
  shows "u = target \<or> idle_cpu A u (ks b) \<and> cpus_allowed (task_at (ks b) i) u"
  using assms sibling_domains_sound [of n A K i target "sd_llc b target" "(None, 2147483647, ULONG_MAX)" b]
  by (auto simp: sibling_search_def best_ok_def split: bind_splits sum.splits prod.splits option.splits)

lemma idle_sibling_keeps: "select_idle_sibling n A K i target b = Some (u, b') \<Longrightarrow> ks b' = ks b"
  by (auto simp: select_idle_sibling_def select_idle_core_def select_idle_smt_def Let_def
      dest!: select_idle_cpu_sound split: if_splits option.splits bind_splits prod.splits)

lemma idle_sibling_sources:
  assumes "select_idle_sibling n A K i target b = Some (u, b')"
  shows "u = target \<or> u = task_cpu (task_at (ks b) i) \<or> cpus_allowed (task_at (ks b) i) u"
  using assms
  by (auto simp: select_idle_sibling_def select_idle_core_def select_idle_smt_def Let_def
      dest!: sibling_search_sound select_idle_cpu_sound split: if_splits option.splits bind_splits prod.splits)

text \<open>C20: the search for an idle sibling returns the target it was given, the idle previous cpu where both share a
  cache, or an idle cpu the task is allowed on. It changes nothing at all but, at most, the estimated scan cost of the cache domain of the
  cpu it runs on and the count of clock readings, which grows by the two it took.\<close>

theorem idle_sibling_sound:
  assumes "select_idle_sibling n A K i target b = Some (u, b')"
  shows "(u = target \<or> idle_cpu A u (ks b) \<and>
           (cpus_allowed (task_at (ks b) i) u \<or> u = task_cpu (task_at (ks b) i) \<and> cpus_share_cache A u target))
         \<and> (b' = b \<or> (\<exists>l x. sd_llc b (this_cpu K) = Some l
              \<and> b' = upd_sd l (\<lambda>d. d\<lparr>avg_scan_cost := x\<rparr>) (b\<lparr>clock_reads := clock_reads b + 2\<rparr>)))"
proof -
  have "only_scan_cost K b b' \<and> (u = target \<or> idle_cpu A u (ks b) \<and>
           (cpus_allowed (task_at (ks b) i) u \<or> u = task_cpu (task_at (ks b) i) \<and> cpus_share_cache A u target))"
    using assms
    by (auto simp: select_idle_sibling_def select_idle_core_def select_idle_smt_def Let_def
        dest!: sibling_search_sound select_idle_cpu_sound split: if_splits option.splits bind_splits prod.splits)
  then show ?thesis unfolding only_scan_cost_def by blast
qed

section \<open>The idlest cpu\<close>

lemma note_group_sound:
  assumes "\<forall>g. idlest_group a = Some g \<or> most_spare_sg a = Some g \<longrightarrow> P g" and "P g"
  shows "\<forall>h. idlest_group (note_group l g x y a) = Some h \<or> most_spare_sg (note_group l g x y a) = Some h \<longrightarrow> P h"
  using assms by (simp add: note_group_def Let_def)

lemma idlest_loop_sound:
  assumes "idlest_loop K u idx i gs a s = Some a'"
    and "\<forall>g\<in>set gs. (\<exists>v\<in>set (sched_group_cpus g). cpus_allowed (task_at s i) v) \<longrightarrow> P g"
    and "\<forall>g. idlest_group a = Some g \<or> most_spare_sg a = Some g \<longrightarrow> P g"
  shows "\<forall>g. idlest_group a' = Some g \<or> most_spare_sg a' = Some g \<longrightarrow> P g"
  using assms
proof (induction gs arbitrary: a)
  case (Cons g gs)
  have gs: "\<forall>g\<in>set gs. (\<exists>v\<in>set (sched_group_cpus g). cpus_allowed (task_at s i) v) \<longrightarrow> P g"
    using Cons.prems(2) by simp
  show ?case
  proof (cases "\<exists>v\<in>set (sched_group_cpus g). cpus_allowed (task_at s i) v")
    case False
    then have "idlest_loop K u idx i gs a s = Some a'" using Cons.prems(1) by simp
    then show ?thesis using Cons.IH [OF _ gs Cons.prems(3)] by blast
  next
    case True
    then obtain l c where "idlest_loop K u idx i gs (note_group (u \<in> set (sched_group_cpus g)) g l c a) s = Some a'"
      using Cons.prems(1) by (auto simp: Let_def split: if_splits bind_splits prod.splits)
    moreover have "P g" using Cons.prems(2) True by simp
    ultimately show ?thesis
      using Cons.IH [OF _ gs note_group_sound [OF Cons.prems(3)]] by blast
  qed
qed simp

lemma find_idlest_group_sound:
  assumes "find_idlest_group K d i u f s = Some (Some g)"
  shows "g \<in> set (sd_groups d) \<and> (\<exists>v\<in>set (sched_group_cpus g). cpus_allowed (task_at s i) v)"
proof -
  define x where "x = \<lparr>idlest_group = None, most_spare_sg = None, min_load = ULONG_MAX, this_load = 0, most_spare = 0, this_spare = 0\<rparr>"
  obtain idx a where a: "idlest_loop K u idx i (sd_groups d) x s = Some a" and "idlest_group a = Some g \<or> most_spare_sg a = Some g"
    using assms by (simp add: find_idlest_group_def Let_def flip: x_def split: if_splits bind_splits)
  moreover have "\<forall>g. idlest_group a = Some g \<or> most_spare_sg a = Some g \<longrightarrow>
      g \<in> set (sd_groups d) \<and> (\<exists>v\<in>set (sched_group_cpus g). cpus_allowed (task_at s i) v)"
    by (rule idlest_loop_sound [OF a]) (simp_all add: x_def)
  ultimately show ?thesis by blast
qed

lemma idlest_cpu_step_choices:
  "shallowest_idle_cpu (idlest_cpu_step A this b v a) \<in> {shallowest_idle_cpu a, Some v}"
  "least_loaded_cpu (idlest_cpu_step A this b v a) \<in> {least_loaded_cpu a, v}"
  by (simp_all add: idlest_cpu_step_def Let_def)

definition idle_acc_ok :: "(cpu \<Rightarrow> bool) \<Rightarrow> cpu \<Rightarrow> idle_acc \<Rightarrow> bool" where
  "idle_acc_ok P this a \<longleftrightarrow>
     (case shallowest_idle_cpu a of None \<Rightarrow> True | Some u \<Rightarrow> P u) \<and> (least_loaded_cpu a = this \<or> P (least_loaded_cpu a))"

lemma idlest_step_sound: "P v \<Longrightarrow> idle_acc_ok P this a \<Longrightarrow> idle_acc_ok P this (idlest_cpu_step A this b v a)"
  using idlest_cpu_step_choices [of A this b v a] by (auto simp: idle_acc_ok_def)

text \<open>The groups of every domain hold as many cpus as they say.\<close>

definition weights_ok :: "lb_state \<Rightarrow> bool" where
  "weights_ok b \<longleftrightarrow> (\<forall>d. \<forall>g\<in>set (sd_groups (sd_at b d)). sg_weight g = 1 \<longrightarrow> length (sched_group_cpus g) = 1)"

lemma find_idlest_cpu_sound:
  assumes "\<exists>v\<in>set (sched_group_cpus g). cpus_allowed (task_at (ks b) i) v"
    and "sg_weight g = 1 \<longrightarrow> length (sched_group_cpus g) = 1"
  shows "find_idlest_cpu A g i u b = u \<or> cpus_allowed (task_at (ks b) i) (find_idlest_cpu A g i u b)"
proof (cases "sg_weight g = 1")
  case True
  then obtain v where "sched_group_cpus g = [v]" using assms(2) by (auto simp: length_Suc_conv)
  then show ?thesis using assms(1) True by (simp add: find_idlest_cpu_def group_first_cpu_def)
next
  case False
  define x where "x = \<lparr>min_exit_latency = - 1, latest_idle_timestamp = 0, shallowest_idle_cpu = None, idle_min_load = ULONG_MAX, least_loaded_cpu = u\<rparr>"
  define y where "y = fold (idlest_cpu_step A u b) [u \<leftarrow> sched_group_cpus g. cpus_allowed (task_at (ks b) i) u] x"
  have "idle_acc_ok (cpus_allowed (task_at (ks b) i)) u y"
    unfolding y_def by (rule fold_invariant [where Q = "cpus_allowed (task_at (ks b) i)"])
      (simp_all add: idlest_step_sound, simp add: x_def idle_acc_ok_def)
  moreover have "find_idlest_cpu A g i u b = (case shallowest_idle_cpu y of Some u \<Rightarrow> u | None \<Rightarrow> least_loaded_cpu y)"
    using False unfolding y_def x_def by (simp add: find_idlest_cpu_def Let_def)
  ultimately show ?thesis by (auto simp: idle_acc_ok_def split: option.splits)
qed

lemma lower_domain_choice: "lower_domain w f ds sd b = sd \<or> (\<exists>d\<in>set ds. lower_domain w f ds sd b = Some d)"
  by (induction w f ds sd b rule: lower_domain.induct) (auto split: if_splits)

lemma descend_sound:
  assumes "descend m n A K i f sd u v b = Some x" and "weights_ok b"
  shows "x = v \<or> x = u \<or> cpus_allowed (task_at (ks b) i) x"
  using assms
proof (induction m n A K i f sd u v b rule: descend.induct)
  case (3 m n A K i f d u v b)
  let ?D = "sd_at b d"
  show ?case
  proof (cases "has_flag f ?D")
    case False
    then show ?thesis using 3(1) [OF refl] 3(5,6) by simp
  next
    case True
    then obtain r where r: "find_idlest_group K ?D i u f (ks b) = Some r"
      using 3(5) by (auto simp: Let_def split: bind_splits)
    show ?thesis
    proof (cases r)
      case None
      then show ?thesis using 3(2) [OF refl _ r] True r 3(5,6) by simp
    next
      case (Some g)
      let ?v = "find_idlest_cpu A g i u b"
      have v: "?v = u \<or> cpus_allowed (task_at (ks b) i) ?v"
      proof (rule find_idlest_cpu_sound)
        show "\<exists>v\<in>set (sched_group_cpus g). cpus_allowed (task_at (ks b) i) v"
          using r Some find_idlest_group_sound by blast
        show "sg_weight g = 1 \<longrightarrow> length (sched_group_cpus g) = 1"
          using find_idlest_group_sound [of K ?D i u f "ks b" g] r Some 3(6) unfolding weights_ok_def by blast
      qed
      show ?thesis
        using 3(3,4) [OF refl _ r Some] v True r Some 3(5,6) by (auto simp: Let_def split: if_splits bind_splits)
    qed
  qed
qed auto

section \<open>By capacity and by energy\<close>

text \<open>A cpu that is online, allowed, and has room for the task at its full capacity.\<close>

definition has_room :: "lb_api \<Rightarrow> se_id \<Rightarrow> cpu \<Rightarrow> lb_state \<Rightarrow> bool" where
  "has_room A i u b \<longleftrightarrow> cpus_allowed (task_at (ks b) i) u \<and> u \<in> set (cpu_online_mask A) \<and> new_util i u (ks b) \<le> capacity_orig_of u (ks b)"

lemma capacity_cpus_choice: "capacity_cpus A i s us t = t \<or> capacity_cpus A i s us t \<in> set us"
proof (induction us arbitrary: t)
  case (Cons u us)
  show ?case using Cons [of t] Cons [of u] by auto
qed simp

lemma capacity_aware_wake_cpu_sound:
  assumes "capacity_aware_wake_cpu A K i target sync b = Some u"
  shows "u = target \<or> u = task_cpu (task_at (ks b) i) \<or> cpus_allowed (task_at (ks b) i) u"
proof -
  have "capacity_cpus A i s (filter P xs) t = t \<or> P (capacity_cpus A i s (filter P xs) t)" for s xs t P
    using capacity_cpus_choice [of A i s "filter P xs" t] by auto
  then show ?thesis
    using assms by (auto simp: capacity_aware_wake_cpu_def Let_def split: if_splits option.splits bind_splits prod.splits)
qed

definition target_ok :: "(cpu \<Rightarrow> bool) \<Rightarrow> best_target \<Rightarrow> bool" where
  "target_ok P a \<longleftrightarrow> pred_option P (target_cpu a) \<and> pred_option P (best_idle_cpu a) \<and> pred_option P (best_active_cpu a)"

lemma visit_target_sound:
  assumes "cpus_allowed (task_at (ks b) i) u" and "target_ok (\<lambda>u. has_room A i u b) a"
  shows "case visit_target A K prefer_idle i u b a of Inl v \<Rightarrow> has_room A i v b \<and> prefer_idle \<and> idle_cpu A v (ks b) | Inr a' \<Rightarrow> target_ok (\<lambda>u. has_room A i u b) a'"
  using assms
  by (simp add: visit_target_def active_target_def idle_target_def packed_target_def Let_def target_ok_def has_room_def not_less)

lemma scan_targets_sound:
  assumes "\<forall>u\<in>set us. cpus_allowed (task_at (ks b) i) u" and "target_ok (\<lambda>u. has_room A i u b) a"
  shows "case scan_targets A K prefer_idle i us b a of Inl v \<Rightarrow> has_room A i v b \<and> prefer_idle \<and> idle_cpu A v (ks b) | Inr a' \<Rightarrow> target_ok (\<lambda>u. has_room A i u b) a'"
  using assms
proof (induction us arbitrary: a)
  case (Cons u us)
  have u: "cpus_allowed (task_at (ks b) i) u" using Cons.prems(1) by simp
  have us: "\<forall>u\<in>set us. cpus_allowed (task_at (ks b) i) u" using Cons.prems(1) by simp
  show ?case
  proof (cases "visit_target A K prefer_idle i u b a")
    case (Inl v)
    then show ?thesis using visit_target_sound [OF u Cons.prems(2), where K = K and prefer_idle = prefer_idle] by simp
  next
    case (Inr a')
    then have "target_ok (\<lambda>u. has_room A i u b) a'"
      using visit_target_sound [OF u Cons.prems(2), where K = K and prefer_idle = prefer_idle] by simp
    then show ?thesis using Inr Cons.IH [OF us] by simp
  qed
qed simp

lemma find_best_target_sound:
  assumes "find_best_target A K i boosted prefer_idle b = Some (t, k)"
  shows "pred_option (\<lambda>u. has_room A i u b) t \<and> pred_option (\<lambda>u. has_room A i u b) k"
proof -
  have "target_ok (\<lambda>u. has_room A i u b) no_target" by (simp add: target_ok_def no_target_def)
  then have *: "case scan_targets A K prefer_idle i [v \<leftarrow> us. cpus_allowed (task_at (ks b) i) v] b no_target of
      Inl v \<Rightarrow> has_room A i v b \<and> prefer_idle \<and> idle_cpu A v (ks b) | Inr a' \<Rightarrow> target_ok (\<lambda>u. has_room A i u b) a'" for us
    by (intro scan_targets_sound) auto
  consider "t = None \<and> k = None"
    | us v where "scan_targets A K prefer_idle i [v \<leftarrow> us. cpus_allowed (task_at (ks b) i) v] b no_target = Inl v" "t = Some v" "k = None"
    | us a where "scan_targets A K prefer_idle i [v \<leftarrow> us. cpus_allowed (task_at (ks b) i) v] b no_target = Inr a"
        "t \<in> {target_cpu a, best_active_cpu a, best_idle_cpu a}" "k \<in> {None, best_active_cpu a, best_idle_cpu a}"
    using assms by (auto simp: find_best_target_def Let_def split: if_splits option.splits bind_splits sum.splits)
  then show ?thesis
  proof cases
    case 1
    then show ?thesis by simp
  next
    case (2 us v)
    then show ?thesis using * [of us] by simp
  next
    case (3 us a)
    then show ?thesis using * [of us] by (auto simp: target_ok_def)
  qed
qed

text \<open>What the energy computation leaves of its environment: the two cpus, and the utilisation that moves.\<close>

definition move_of :: "energy_env \<Rightarrow> int \<times> int \<times> s32" where
  "move_of e = (eenv_src e, eenv_dst e, util_delta e)"

lemma one_group_energy_move: "one_group_energy shared g e b = Some (x, e') \<Longrightarrow> move_of e' = move_of e"
  by (auto simp: one_group_energy_def find_new_capacity_def note_cap_def Let_def move_of_def split: bind_splits prod.splits if_splits)

lemma energy_groups_move:
  "energy_groups shared lowest gs (x, v, c, e) b = Some (w, (x', v', c', e')) \<Longrightarrow> move_of e' = move_of e"
proof (induction gs arbitrary: x v c e)
  case (Cons g gs)
  then obtain y e1 where 1: "one_group_energy shared g e b = Some (y, e1)" by (auto split: bind_splits)
  note m = one_group_energy_move [OF 1]
  show ?case using Cons 1 m by (auto simp: Let_def split: if_splits)
qed simp

lemma energy_domains_move:
  "energy_domains A u shared ds (x, v, c, e) b = Some (w, (x', v', c', e')) \<Longrightarrow> move_of e' = move_of e"
proof (induction ds arbitrary: x v c e)
  case (Cons d ds)
  consider "e' = e"
    | w1 x1 v1 c1 e1 where "energy_groups shared (sd_child (sd_at b d) = None) (sd_groups (sd_at b d)) (x, v, c, e) b = Some (w1, (x1, v1, c1, e1))"
        "(if w1 = Next_domain then energy_domains A u shared ds (x1, v1, c1, e1) b else Some (w1, (x1, v1, c1, e1))) = Some (w, (x', v', c', e'))"
    using Cons.prems by (auto simp: Let_def split: if_splits bind_splits)
  then show ?case
  proof cases
    case 2
    then show ?thesis using energy_groups_move [OF 2(1)] Cons.IH by (auto split: if_splits)
  qed simp
qed simp

lemma energy_cpus_move: "energy_cpus m n A (x, v, c, e) b = Some (r, e') \<Longrightarrow> move_of e' = move_of e"
proof (induction m arbitrary: x v c e)
  case 0
  then show ?case by (subst (asm) energy_cpus.simps) (auto simp: move_of_def split: list.splits)
next
  case (Suc m)
  show ?case
  proof (cases v)
    case Nil
    then show ?thesis using Suc.prems by (subst (asm) energy_cpus.simps) (auto simp: move_of_def)
  next
    case (Cons u us)
    then show ?thesis
      using Suc.prems
      by (subst (asm) energy_cpus.simps)
        (auto split: bind_splits if_splits prod.splits dest!: energy_domains_move Suc.IH)
  qed
qed

lemma energy_sums_move:
  "energy_sums n A gs (x, y, e0, e) b = Some (Some (x', y', e')) \<Longrightarrow> move_of e' = move_of e"
proof (induction gs arbitrary: x y e0 e)
  case (Cons g gs)
  show ?case
    using Cons.prems
    by (auto simp: sched_group_energy_def Let_def move_of_def [of "_\<lparr>sg_top := _, cap_before := _, cap_delta := _\<rparr>"] move_of_def [of e]
        split: bind_splits if_splits dest!: Cons.IH energy_cpus_move)
qed simp

lemma energy_diff_move: "energy_diff n A e b = Some (x, e') \<Longrightarrow> move_of e' = move_of e"
  by (auto simp: energy_diff_def Let_def split: if_splits option.splits bind_splits dest!: energy_sums_move)
    (simp_all add: move_of_def)

lemma energy_choice_allowed:
  assumes "select_energy_cpu_brute n A K boosted prefer_idle i prev sync b = Some (u, b')"
  shows "u = prev \<or> u = this_cpu K \<or> cpus_allowed (task_at (ks b) i) u"
proof (cases "sysctl_sched_sync_hint_enable (sysctls (ks b)) \<noteq> 0 \<and> sync \<and> cpus_allowed (task_at (ks b) i) (this_cpu K)")
  case True
  then show ?thesis using assms by (auto simp: select_energy_cpu_brute_def)
next
  case False
  then obtain b1 t k where b1: "on_kernel (sync_entity_load_avg K i) b = Some b1"
    and f: "find_best_target A K i boosted prefer_idle b1 = Some (t, k)"
    and u: "u = prev \<or> t = Some u \<or> k = Some u"
    using assms by (auto simp: select_energy_cpu_brute_def Let_def split: bind_splits prod.splits if_splits option.splits)
  have "task_at (ks b1) = task_at (ks b)" using b1 by (auto simp: on_kernel_def dest: sync_frame split: bind_splits)
  then show ?thesis using u find_best_target_sound [OF f] by (auto simp: has_room_def)
qed

text \<open>The decision after the search: \<open>v\<close> is the target, or the previous cpu where there is none, and \<open>k\<close> the backup.\<close>

definition energy_decision ::
  "nat \<Rightarrow> lb_api \<Rightarrow> bool \<Rightarrow> se_id \<Rightarrow> cpu \<Rightarrow> cpu \<Rightarrow> bool \<Rightarrow> cpu option \<Rightarrow> lb_state \<Rightarrow> (cpu \<times> lb_state) option" where
  "energy_decision n A eager i prev v found k b =
     (if sd_ea b prev = None then Some (prev, b)
      else if found \<and> eager \<and> idle_cpu A v (ks b) then Some (v, b)
      else if v = prev then Some (prev, b)
      else if cpu_overutilized prev (ks b) then Some (v, b)
      else do {
        (diff, e) \<leftarrow> energy_diff n A (move_env i prev v (ks b)) b;
        if sint diff < 0 then Some (v, b)
        else (case k of
                None \<Rightarrow> Some (prev, b)
              | Some v \<Rightarrow> do {
                  (diff, e) \<leftarrow> energy_diff n A (e\<lparr>eenv_dst := int v\<rparr>) b;
                  Some (if sint diff < 0 then v else prev, b)
                })
      })"

definition saves_energy :: "nat \<Rightarrow> lb_api \<Rightarrow> se_id \<Rightarrow> cpu \<Rightarrow> cpu \<Rightarrow> lb_state \<Rightarrow> bool" where
  "saves_energy n A i prev u b \<longleftrightarrow>
     (\<exists>e diff e'. eenv_src e = int prev \<and> eenv_dst e = int u \<and> util_delta e = ucast (task_util i (ks b))
        \<and> energy_diff n A e b = Some (diff, e') \<and> sint diff < 0)"

lemma energy_decision_cases:
  assumes "energy_decision n A eager i prev v found k b = Some (u, b')"
  shows "b' = b" and "u = prev \<or> u = v \<and> (cpu_overutilized prev (ks b) \<or> eager \<and> idle_cpu A v (ks b))
    \<or> (u = v \<or> k = Some u) \<and> saves_energy n A i prev u b"
proof -
  show "b' = b" using assms by (auto simp: energy_decision_def split: if_splits option.splits bind_splits prod.splits)
  show "u = prev \<or> u = v \<and> (cpu_overutilized prev (ks b) \<or> eager \<and> idle_cpu A v (ks b))
    \<or> (u = v \<or> k = Some u) \<and> saves_energy n A i prev u b"
  proof (cases "u = prev \<or> u = v \<and> (cpu_overutilized prev (ks b) \<or> eager \<and> idle_cpu A v (ks b))")
    case False
    have env: "eenv_src (move_env i prev v (ks b)) = int prev" "eenv_dst (move_env i prev v (ks b)) = int v"
      "util_delta (move_env i prev v (ks b)) = ucast (task_util i (ks b))"
      by (simp_all add: move_env_def Let_def)
    obtain diff e where d: "energy_diff n A (move_env i prev v (ks b)) b = Some (diff, e)"
      and r: "sint diff < 0 \<and> u = v \<or> (\<exists>diff' e'. k = Some u \<and> energy_diff n A (e\<lparr>eenv_dst := int u\<rparr>) b = Some (diff', e') \<and> sint diff' < 0)"
      using assms False unfolding energy_decision_def by (auto split: if_splits bind_splits option.splits)
    have "eenv_src e = int prev" "util_delta e = ucast (task_util i (ks b))"
      using energy_diff_move [OF d] env by (simp_all add: move_of_def)
    then have "eenv_src (e\<lparr>eenv_dst := int u\<rparr>) = int prev" "eenv_dst (e\<lparr>eenv_dst := int u\<rparr>) = int u"
      "util_delta (e\<lparr>eenv_dst := int u\<rparr>) = ucast (task_util i (ks b))"
      by simp_all
    then show ?thesis using r d env unfolding saves_energy_def by blast
  qed blast
qed

text \<open>C7: the choice by energy returns the previous cpu, the waking cpu for a synchronous wakeup the task may follow,
  or an online, allowed cpu with room for the task; and it leaves the previous cpu for such a cpu only if the previous
  one is overutilized, the cpu is idle and the task boosted or fond of idle cpus, or the energy model predicts that
  moving the task's utilisation there saves energy.\<close>

theorem energy_choice_justified:
  assumes "select_energy_cpu_brute n A K boosted prefer_idle i prev sync b = Some (u, b')"
  shows "u = prev
    \<or> sync \<and> sysctl_sched_sync_hint_enable (sysctls (ks b)) \<noteq> 0 \<and> u = this_cpu K \<and> cpus_allowed (task_at (ks b) i) u
    \<or> cpus_allowed (task_at (ks b') i) u \<and> u \<in> set (cpu_online_mask A) \<and> new_util i u (ks b') \<le> capacity_orig_of u (ks b')
      \<and> (cpu_overutilized prev (ks b') \<or> (boosted \<or> prefer_idle) \<and> idle_cpu A u (ks b')
         \<or> (\<exists>e diff e'. eenv_src e = int prev \<and> eenv_dst e = int u \<and> util_delta e = ucast (task_util i (ks b'))
              \<and> energy_diff n A e b' = Some (diff, e') \<and> sint diff < 0))"
proof (cases "sysctl_sched_sync_hint_enable (sysctls (ks b)) \<noteq> 0 \<and> sync \<and> cpus_allowed (task_at (ks b) i) (this_cpu K)")
  case True
  then show ?thesis using assms by (auto simp: select_energy_cpu_brute_def)
next
  case False
  then obtain b1 t k where b1: "on_kernel (sync_entity_load_avg K i) b = Some b1"
    and f: "find_best_target A K i boosted prefer_idle b1 = Some (t, k)"
    using assms by (auto simp: select_energy_cpu_brute_def split: bind_splits prod.splits if_splits)
  define v where "v = (case t of None \<Rightarrow> prev | Some u \<Rightarrow> u)"
  have "energy_decision n A (boosted \<or> prefer_idle) i prev v (t \<noteq> None) k b1 = Some (u, b')"
    using assms unfolding select_energy_cpu_brute_def energy_decision_def v_def
    by (simp only: False if_False b1 f Option.bind.bind_lunit prod.case Let_def)
  note d = energy_decision_cases [OF this]
  have "v = prev \<or> has_room A i v b1" "pred_option (\<lambda>u. has_room A i u b1) k"
    using find_best_target_sound [OF f] by (auto simp: v_def split: option.splits)
  then have "u = prev \<or> has_room A i u b'" using d by auto
  then show ?thesis using d unfolding has_room_def saves_energy_def by blast
qed

section \<open>The method\<close>

text \<open>C8: the method returns the previous cpu, the waking cpu, the cpu the task is on, or a cpu the task is allowed on,
  whichever search decides: by affinity and idleness, by load, by capacity or by energy.\<close>

theorem selected_cpu_allowed:
  assumes "select_task_rq_fair m n A K i prev sd_flag wake_flags b = Some (u, b')" and "weights_ok b"
  shows "u \<in> {prev, this_cpu K, task_cpu (task_at (ks b) i)} \<or> cpus_allowed (task_at (ks b) i) u"
proof -
  let ?w = "this_cpu K"
  obtain want s where s: "wants_affine A K i prev sd_flag (ks b) = Some (want, s)"
    using assms(1) by (auto simp: select_task_rq_fair_def Let_def split: bind_splits)
  define b1 where "b1 = b\<lparr>ks := s\<rparr>"
  have task: "cpus_allowed (task_at (ks b1) i) = cpus_allowed (task_at (ks b) i)" "task_cpu (task_at (ks b1) i) = task_cpu (task_at (ks b) i)"
    using wants_affine_frame [OF s] by (simp_all add: b1_def)
  have weights: "weights_ok b1" using assms(2) by (simp add: weights_ok_def b1_def)
  obtain new sd where new: "new \<in> {prev, ?w}"
    and run: "descend m n A K i sd_flag sd ?w new b1 = Some u \<or> select_energy_cpu_brute n A K False False i prev (wake_flags AND WF_SYNC \<noteq> 0) b1 = Some (u, b')
      \<or> capacity_aware_wake_cpu A K i prev (wake_flags AND WF_SYNC \<noteq> 0) b1 = Some u \<or> select_idle_sibling n A K i new b1 = Some (u, b') \<or> u = new"
    using assms(1) by (auto simp: select_task_rq_fair_def s Let_def simp flip: b1_def split: bind_splits prod.splits if_splits)
  from run consider (load) "descend m n A K i sd_flag sd ?w new b1 = Some u"
    | (energy) "select_energy_cpu_brute n A K False False i prev (wake_flags AND WF_SYNC \<noteq> 0) b1 = Some (u, b')"
    | (capacity) "capacity_aware_wake_cpu A K i prev (wake_flags AND WF_SYNC \<noteq> 0) b1 = Some u"
    | (idle) "select_idle_sibling n A K i new b1 = Some (u, b')"
    | (affine) "u = new"
    by blast
  then show ?thesis
  proof cases
    case load
    then show ?thesis using descend_sound [OF load weights] new task by auto
  next
    case energy
    then show ?thesis using energy_choice_allowed [OF energy] task by auto
  next
    case capacity
    then show ?thesis using capacity_aware_wake_cpu_sound [OF capacity] task by auto
  next
    case idle
    then show ?thesis using idle_sibling_sources [OF idle] new task by auto
  next
    case affine
    then show ?thesis using new by auto
  qed
qed

section \<open>On the small and the big cpu\<close>

lemma big_little_weights: "weights_ok big_little"
  by (simp add: weights_ok_def big_little_def small_group_def big_group_def)

theorem idle_sibling_sound_witness:
  "\<exists>b'. select_idle_sibling 2 plain_core plain_api 7 0 big_little = Some (1, b') \<and> idle_cpu plain_core 1 (ks big_little) \<and> ks b' = ks big_little"
proof -
  obtain b' where "select_idle_sibling 2 plain_core plain_api 7 0 big_little = Some (1, b')" using big_little_sibling by auto
  then show ?thesis using idle_sibling_sound [of 2 plain_core plain_api 7 0 big_little 1 b'] by (auto simp: upd_sd_def)
qed

theorem energy_choice_justified_witness:
  "\<exists>b'. select_energy_cpu_brute 2 plain_core plain_api False False 7 1 False big_little = Some (0, b')
     \<and> (cpu_overutilized 1 (ks b') \<or> (\<exists>e diff e'. eenv_src e = 1 \<and> eenv_dst e = 0 \<and> energy_diff 2 plain_core e b' = Some (diff, e') \<and> sint diff < 0))"
proof -
  obtain b' where "select_energy_cpu_brute 2 plain_core plain_api False False 7 1 False big_little = Some (0, b')"
    using big_little_choice by auto
  then show ?thesis using energy_choice_justified [of 2 plain_core plain_api False False 7 1 False big_little 0 b'] by auto
qed

theorem selected_cpu_allowed_witness:
  "\<exists>b'. select_task_rq_fair 9 2 plain_core plain_api 7 1 SD_BALANCE_WAKE 0 big_little = Some (0, b')
     \<and> (0 \<in> {1, this_cpu plain_api, task_cpu (task_at (ks big_little) 7)} \<or> cpus_allowed (task_at (ks big_little) 7) 0)"
proof -
  obtain b' where "select_task_rq_fair 9 2 plain_core plain_api 7 1 SD_BALANCE_WAKE 0 big_little = Some (0, b')"
    using big_little_method by auto
  then show ?thesis using selected_cpu_allowed [of 9 2 plain_core plain_api 7 1 SD_BALANCE_WAKE 0 big_little 0 b'] big_little_weights by blast
qed

end
