(* ===== verification/Target_Props.thy ===== *)
theory Target_Props
  imports Wakeup_Props
begin

text \<open>
  Which cpus \<open>find_best_target\<close> prefers for a task that does not look for idle cpus, when the cpus are visited from
  small to large as they are from the smallest one; and that the energy of a group and the descent through the
  domains are computed within the fuel the model gives them.
\<close>

section \<open>The preferred target\<close>

abbreviation spare_room :: "se_id \<Rightarrow> kstate \<Rightarrow> cpu \<Rightarrow> ulong" where
  "spare_room i s u \<equiv> capacity_orig_of u s - new_util i u s"

text \<open>Of the busy cpus seen, one of the smallest capacity, and of those one with the most spare capacity.\<close>

definition packed_best :: "se_id \<Rightarrow> kstate \<Rightarrow> cpu list \<Rightarrow> best_target \<Rightarrow> bool" where
  "packed_best i s seen a \<longleftrightarrow>
     (case target_cpu a of
        None \<Rightarrow> seen = [] \<and> target_max_spare_cap a = 0 \<and> target_capacity a = ULONG_MAX
      | Some u \<Rightarrow> u \<in> set seen \<and> target_capacity a = capacity_orig_of u s \<and> target_max_spare_cap a = spare_room i s u
          \<and> (\<forall>v\<in>set seen. capacity_orig_of u s \<le> capacity_orig_of v s
               \<and> (capacity_orig_of v s = capacity_orig_of u s \<longrightarrow> spare_room i s v \<le> spare_room i s u)))"

lemma packed_step:
  assumes "packed_best i s seen a" and "\<forall>v\<in>set seen. capacity_orig_of v s \<le> capacity_orig_of u s"
  shows "packed_best i s (seen @ [u]) (packed_target i u s a)"
proof (cases "target_cpu a")
  case None
  then show ?thesis using assms(1) by (simp add: packed_best_def packed_target_def Let_def not_less)
next
  case (Some w)
  then have w: "w \<in> set seen" "target_capacity a = capacity_orig_of w s" "target_max_spare_cap a = spare_room i s w"
    and best: "\<forall>v\<in>set seen. capacity_orig_of w s \<le> capacity_orig_of v s
               \<and> (capacity_orig_of v s = capacity_orig_of w s \<longrightarrow> spare_room i s v \<le> spare_room i s w)"
    using assms(1) by (simp_all add: packed_best_def)
  have le: "capacity_orig_of w s \<le> capacity_orig_of u s" using assms(2) w(1) by blast
  show ?thesis
  proof (cases "capacity_orig_of u s > capacity_orig_of w s \<or> spare_room i s u < spare_room i s w")
    case True
    then have "packed_target i u s a = a" by (simp add: packed_target_def w Let_def)
    then show ?thesis using Some w best le True by (auto simp: packed_best_def)
  next
    case False
    then have eq: "capacity_orig_of u s = capacity_orig_of w s" and sp: "spare_room i s w \<le> spare_room i s u"
      using le by auto
    have "packed_target i u s a = a\<lparr>target_max_spare_cap := spare_room i s u, target_capacity := capacity_orig_of u s, target_cpu := Some u\<rparr>"
      using False by (simp add: packed_target_def w Let_def)
    then show ?thesis using best eq sp by (auto simp: packed_best_def intro: order_trans)
  qed
qed

text \<open>Of the idle cpus seen, one of the smallest capacity, and where idle states count, of those one in the shallowest state.\<close>

definition idle_best :: "lb_state \<Rightarrow> cpu list \<Rightarrow> best_target \<Rightarrow> bool" where
  "idle_best b seen a \<longleftrightarrow>
     (case best_idle_cpu a of
        None \<Rightarrow> seen = [] \<and> best_idle_min_cap_orig a = ULONG_MAX \<and> best_idle_cstate a = 2147483647
      | Some u \<Rightarrow> u \<in> set seen \<and> best_idle_min_cap_orig a = capacity_orig_of u (ks b) \<and> best_idle_cstate a = idle_state_idx (rqb_at b u)
          \<and> (\<forall>v\<in>set seen. capacity_orig_of u (ks b) \<le> capacity_orig_of v (ks b)
               \<and> (capacity_orig_of v (ks b) = capacity_orig_of u (ks b) \<and> sysctl_sched_cstate_aware (sysctls (ks b)) \<noteq> 0 \<longrightarrow>
                    sint (idle_state_idx (rqb_at b u)) \<le> sint (idle_state_idx (rqb_at b v)))))"

lemma idle_step:
  assumes "idle_best b seen a" and "\<forall>v\<in>set seen. capacity_orig_of v (ks b) \<le> capacity_orig_of u (ks b)"
    and "sint (idle_state_idx (rqb_at b u)) < 2147483647"
  shows "idle_best b (seen @ [u]) (idle_target u b a)"
proof (cases "best_idle_cpu a")
  case None
  then show ?thesis using assms(1,3) by (simp add: idle_best_def idle_target_def Let_def not_less)
next
  case (Some w)
  let ?cap = "\<lambda>u. capacity_orig_of u (ks b)" and ?st = "\<lambda>u. sint (idle_state_idx (rqb_at b u))"
    and ?aware = "sysctl_sched_cstate_aware (sysctls (ks b)) \<noteq> 0"
  have w: "w \<in> set seen" "best_idle_min_cap_orig a = ?cap w" "best_idle_cstate a = idle_state_idx (rqb_at b w)"
    and best: "\<forall>v\<in>set seen. ?cap w \<le> ?cap v \<and> (?cap v = ?cap w \<and> ?aware \<longrightarrow> ?st w \<le> ?st v)"
    using assms(1) Some by (simp_all add: idle_best_def)
  have le: "?cap w \<le> ?cap u" using assms(2) w(1) by blast
  show ?thesis
  proof (cases "?cap u > ?cap w \<or> ?aware \<and> ?st w \<le> ?st u")
    case True
    then have "idle_target u b a = a" using w by (simp add: idle_target_def Let_def)
    then show ?thesis using Some w best le True by (auto simp: idle_best_def)
  next
    case False
    then have eq: "?cap u = ?cap w" and st: "?aware \<longrightarrow> ?st u \<le> ?st w" using le by auto
    have "idle_target u b a = a\<lparr>best_idle_min_cap_orig := ?cap u, best_idle_cstate := idle_state_idx (rqb_at b u), best_idle_cpu := Some u\<rparr>"
      using False w by (auto simp: idle_target_def Let_def)
    then show ?thesis using best eq st by (auto simp: idle_best_def intro: order_trans)
  qed
qed

lemma target_fields [simp]:
  "packed_best i s seen (idle_target u b a) = packed_best i s seen a" "idle_best b seen (packed_target i u s a) = idle_best b seen a"
  by (simp_all add: packed_best_def idle_best_def idle_target_def packed_target_def Let_def split: option.split)

definition target_step :: "lb_api \<Rightarrow> se_id \<Rightarrow> lb_state \<Rightarrow> cpu \<Rightarrow> best_target \<Rightarrow> best_target" where
  "target_step A i b u a = (if idle_cpu A u (ks b) then idle_target u b a else packed_target i u (ks b) a)"

lemma scan_targets_fold:
  "scan_targets A K False i [v \<leftarrow> us. cpus_allowed (task_at (ks b) i) v] b a = Inr (fold (target_step A i b) [v \<leftarrow> us. has_room A i v b] a)"
  by (induction us arbitrary: a) (auto simp: visit_target_def target_step_def has_room_def)

lemma targets_best:
  assumes "sorted (map (\<lambda>v. capacity_orig_of v (ks b)) vs)" and "\<forall>v\<in>set vs. sint (idle_state_idx (rqb_at b v)) < 2147483647"
  shows "packed_best i (ks b) [v \<leftarrow> vs. \<not> idle_cpu A v (ks b)] (fold (target_step A i b) vs no_target)
       \<and> idle_best b [v \<leftarrow> vs. idle_cpu A v (ks b)] (fold (target_step A i b) vs no_target)"
  using assms
proof (induction vs rule: rev_induct)
  case Nil
  then show ?case by (simp add: packed_best_def idle_best_def no_target_def)
next
  case (snoc u vs)
  then have ih: "packed_best i (ks b) [v \<leftarrow> vs. \<not> idle_cpu A v (ks b)] (fold (target_step A i b) vs no_target)"
      "idle_best b [v \<leftarrow> vs. idle_cpu A v (ks b)] (fold (target_step A i b) vs no_target)"
    and le: "\<forall>v\<in>set vs. capacity_orig_of v (ks b) \<le> capacity_orig_of u (ks b)" and u: "sint (idle_state_idx (rqb_at b u)) < 2147483647"
    by (auto simp: sorted_append)
  have "fold (target_step A i b) (vs @ [u]) no_target = target_step A i b u (fold (target_step A i b) vs no_target)" by simp
  then show ?case
    using ih le u by (simp only: target_step_def [of A i b u]) (simp add: packed_step idle_step)
qed

text \<open>C9: for a task that does not prefer idle cpus, with the cpus that have room visited from small to large, the target is
  a busy cpu of the smallest capacity that any busy cpu with room has and with the most spare capacity among those;
  the idle cpu kept beside it, or taken when no busy cpu has room, has the smallest capacity of the idle ones and,
  where idle states count, the shallowest state among those. No target means that no cpu has room.\<close>

theorem best_target_packs:
  assumes "0 \<le> start_cpu K boosted (ks b)" and "sd_ea b (nat (start_cpu K boosted (ks b))) = Some d"
    and "find_best_target A K i boosted False b = Some (t, k)"
    and vs: "vs = [v \<leftarrow> concat (map sched_group_cpus (sd_groups (sd_at b d))). has_room A i v b]"
    and "sorted (map (\<lambda>v. capacity_orig_of v (ks b)) vs)" and "\<forall>v\<in>set vs. sint (idle_state_idx (rqb_at b v)) < 2147483647"
    and busy: "busy = [v \<leftarrow> vs. \<not> idle_cpu A v (ks b)]" and idlers: "idlers = [v \<leftarrow> vs. idle_cpu A v (ks b)]"
  shows "(busy \<noteq> [] \<longrightarrow> (\<exists>u\<in>set busy. t = Some u \<and> (\<forall>v\<in>set busy. capacity_orig_of u (ks b) \<le> capacity_orig_of v (ks b)
            \<and> (capacity_orig_of v (ks b) = capacity_orig_of u (ks b) \<longrightarrow>
                 capacity_orig_of v (ks b) - new_util i v (ks b) \<le> capacity_orig_of u (ks b) - new_util i u (ks b)))))
    \<and> (idlers \<noteq> [] \<longrightarrow> (\<exists>u\<in>set idlers. (if busy = [] then t else k) = Some u
          \<and> (\<forall>v\<in>set idlers. capacity_orig_of u (ks b) \<le> capacity_orig_of v (ks b)
            \<and> (capacity_orig_of v (ks b) = capacity_orig_of u (ks b) \<and> sysctl_sched_cstate_aware (sysctls (ks b)) \<noteq> 0 \<longrightarrow>
                 sint (idle_state_idx (rqb_at b u)) \<le> sint (idle_state_idx (rqb_at b v))))))
    \<and> (t = None \<longleftrightarrow> vs = [])"
proof -
  define a where "a = fold (target_step A i b) vs no_target"
  have best: "packed_best i (ks b) busy a" "idle_best b idlers a"
    using targets_best [OF assms(5,6), of i A] by (simp_all add: a_def busy idlers)
  have "t = (if target_cpu a = None then best_idle_cpu a else target_cpu a)" "target_cpu a \<noteq> None \<Longrightarrow> k = best_idle_cpu a"
    using assms(1-3) vs by (auto simp: find_best_target_def scan_targets_fold a_def Let_def split: bind_splits if_splits)
  moreover have "vs = [] \<longleftrightarrow> busy = [] \<and> idlers = []" unfolding busy idlers by (cases vs) auto
  ultimately show ?thesis
    using best by (auto simp: packed_best_def idle_best_def split: option.splits if_splits)
qed

section \<open>The energy of a group is computed\<close>

text \<open>A walk over the groups of a lowest domain takes off the count of the cpus still expected.\<close>

lemma energy_groups_count:
  "energy_groups shared low gs (x, v, c, e) b = Some (w, (x', v', c', e')) \<Longrightarrow>
     c' \<le> c \<and> (low \<and> gs \<noteq> [] \<and> w \<noteq> Einval \<longrightarrow> c' < c)"
proof (induction gs arbitrary: x v c e)
  case (Cons g gs)
  obtain y e1 where 1: "one_group_energy shared g e b = Some (y, e1)" using Cons.prems by (auto split: bind_splits)
  show ?case
  proof (cases "low \<and> c = 0")
    case True
    then show ?thesis using Cons.prems 1 by simp
  next
    case False
    define c1 where "c1 = (if low then c - 1 else c)"
    have "c1 \<le> c \<and> (low \<longrightarrow> c1 < c)" using False by (auto simp: c1_def)
    moreover have "c' \<le> c1"
      using Cons.prems 1 False Cons.IH [of _ _ c1] by (auto simp: Let_def c1_def split: if_splits)
    ultimately show ?thesis by linarith
  qed
qed simp

lemma energy_domains_count:
  "energy_domains A u shared ds (x, v, c, e) b = Some (w, (x', v', c', e')) \<Longrightarrow>
     c' \<le> c \<and> (\<forall>d ds'. ds = d # ds' \<and> sd_child (sd_at b d) = None \<and> w \<noteq> Einval \<longrightarrow> c' < c)"
proof (induction ds arbitrary: x v c e)
  case (Cons d ds)
  obtain g where g: "first_group (sd_at b d) = Some g" using Cons.prems by (auto simp: Let_def split: bind_splits)
  then have ne: "sd_groups (sd_at b d) \<noteq> []" by (auto simp: first_group_def)
  show ?case
  proof (cases "sd_child (sd_at b d) \<noteq> None \<and> group_first_cpu A g \<noteq> u")
    case True
    then show ?thesis using Cons.prems g by simp
  next
    case False
    then obtain w1 x1 v1 c1 e1
      where 1: "energy_groups shared (sd_child (sd_at b d) = None) (sd_groups (sd_at b d)) (x, v, c, e) b = Some (w1, (x1, v1, c1, e1))"
        and 2: "(if w1 = Next_domain then energy_domains A u shared ds (x1, v1, c1, e1) b else Some (w1, (x1, v1, c1, e1))) = Some (w, (x', v', c', e'))"
      using Cons.prems g by (auto simp: Let_def split: bind_splits if_splits)
    have "c' \<le> c1 \<and> (w1 = Einval \<longrightarrow> w = Einval)" using 2 Cons.IH [of x1 v1 c1 e1] by (auto split: if_splits)
    moreover note energy_groups_count [OF 1]
    ultimately show ?thesis using ne by auto
  qed
qed simp

text \<open>The domains and the energy model are complete: every walk upwards ends, a cpu's base domain is a lowest one, rings are not
  empty, and every group has the states its utilisation asks for.\<close>

definition energy_ready :: "nat \<Rightarrow> lb_state \<Rightarrow> bool" where
  "energy_ready n b \<longleftrightarrow>
     (\<forall>u. domain_chain n (rq_sd (rqb_at b u)) b \<noteq> None \<and> (\<forall>d. rq_sd (rqb_at b u) = Some d \<longrightarrow> sd_child (sd_at b d) = None))
     \<and> (\<forall>d. sd_groups (sd_at b d) \<noteq> [] \<and> (\<forall>g\<in>set (sd_groups (sd_at b d)). \<forall>shared e. one_group_energy shared g e b \<noteq> None))"

lemma energy_groups_total:
  "\<forall>g\<in>set gs. \<forall>shared e. one_group_energy shared g e b \<noteq> None \<Longrightarrow> \<exists>w x' v' c' e'. energy_groups shared low gs (x, v, c, e) b = Some (w, (x', v', c', e'))"
proof (induction gs arbitrary: x v c e)
  case (Cons g gs)
  then obtain y e1 where "one_group_energy shared g e b = Some (y, e1)" by fastforce
  then show ?case using Cons by (auto simp: Let_def)
qed simp

lemma energy_domains_total:
  "energy_ready n b \<Longrightarrow> \<exists>w x' v' c' e'. energy_domains A u shared ds (x, v, c, e) b = Some (w, (x', v', c', e'))"
proof (induction ds arbitrary: x v c e)
  case (Cons d ds)
  have d: "sd_groups (sd_at b d) \<noteq> []" "\<forall>g\<in>set (sd_groups (sd_at b d)). \<forall>shared e. one_group_energy shared g e b \<noteq> None"
    using Cons.prems by (auto simp: energy_ready_def)
  obtain g where g: "first_group (sd_at b d) = Some g" using d(1) by (cases "sd_groups (sd_at b d)") (auto simp: first_group_def)
  obtain w x1 v1 c1 e1 where
    "energy_groups shared (sd_child (sd_at b d) = None) (sd_groups (sd_at b d)) (x, v, c, e) b = Some (w, (x1, v1, c1, e1))"
    using energy_groups_total [OF d(2)] by blast
  then show ?case using g Cons.IH [OF Cons.prems, of x1 v1 c1 e1] by (auto simp: Let_def)
qed simp

lemma energy_cpus_total:
  assumes "energy_ready n b"
  shows "c < m \<Longrightarrow> \<exists>r e'. energy_cpus m n A (x, v, c, e) b = Some (r, e')"
proof (induction m arbitrary: x v c e)
  case (Suc m)
  show ?case
  proof (cases v)
    case Nil
    then show ?thesis by (auto simp: energy_cpus.simps)
  next
    case (Cons u us)
    obtain shared where shared: "(case sd_scs b u of None \<Rightarrow> Some None
        | Some d \<Rightarrow> (case sd_parent (sd_at b d) of None \<Rightarrow> Some None | Some p \<Rightarrow> map_option Some (first_group (sd_at b p)))) = Some shared"
      using assms by (fastforce simp: energy_ready_def first_group_def split: option.splits list.splits)
    obtain ds where ds: "domain_chain n (rq_sd (rqb_at b u)) b = Some ds" using assms unfolding energy_ready_def by blast
    obtain w x1 v1 c1 e1 where walk: "energy_domains A u shared ds (x, v, c, e) b = Some (w, (x1, v1, c1, e1))"
      using energy_domains_total [OF assms] by blast
    show ?thesis
    proof (cases "w = Einval \<or> w = Next_domain \<and> u \<in> set v1")
      case True
      then show ?thesis using Cons shared ds walk by (subst energy_cpus.simps) auto
    next
      case False
      have "c1 < c"
      proof (cases "rq_sd (rqb_at b u)")
        case None
        then have "ds = []" using ds by (cases n) auto
        then show ?thesis using walk False Cons by auto
      next
        case (Some d)
        then obtain ds' where "ds = d # ds'" using ds by (cases n) (auto split: bind_splits)
        moreover have "sd_child (sd_at b d) = None" using assms Some by (auto simp: energy_ready_def)
        ultimately show ?thesis using energy_domains_count [OF walk] False by blast
      qed
      then obtain r e' where "energy_cpus m n A (x1, filter (\<lambda>v. v \<noteq> u) v1, c1, e1) b = Some (r, e')"
        using Suc.IH Suc.prems by (meson less_Suc_eq_le order_less_le_trans)
      then show ?thesis using Cons shared ds walk False by (subst energy_cpus.simps) auto
    qed
  qed
qed simp

text \<open>C18: with complete domains and a complete energy model, the energy of a group is computed after at most one visit more than the
  group has cpus, although a visit may put cpus back on the list of those to visit: it returns, with the energy or with the refusal of an
  inconsistent hierarchy.\<close>

theorem group_energy_returns:
  assumes "energy_ready n b"
  shows "\<exists>ok e'. sched_group_energy n A e b = Some (ok, e')"
  using energy_cpus_total [OF assms] by (simp add: sched_group_energy_def Let_def)

section \<open>The descent ends\<close>

lemma lower_domain_weight: "(\<forall>d. sd = Some d \<longrightarrow> span_weight (sd_at b d) < wt) \<Longrightarrow> lower_domain wt f ds sd b = Some d \<Longrightarrow> span_weight (sd_at b d) < wt"
  by (induction wt f ds sd b rule: lower_domain.induct) (auto simp: not_le split: if_splits)

text \<open>A domain's children span no more cpus than it does and lie deeper, by a depth of at most \<open>D\<close>; the walks upwards and the
  searches for an idle group are defined.\<close>

definition descent_ready :: "nat \<Rightarrow> nat \<Rightarrow> (sd_id \<Rightarrow> nat) \<Rightarrow> kapi \<Rightarrow> se_id \<Rightarrow> u32 \<Rightarrow> lb_state \<Rightarrow> bool" where
  "descent_ready n D level K i sd_flag b \<longleftrightarrow>
     (\<forall>d c. sd_child (sd_at b d) = Some c \<longrightarrow> span_weight (sd_at b c) \<le> span_weight (sd_at b d) \<and> level c < level d)
     \<and> (\<forall>d. level d \<le> D) \<and> (\<forall>u. domain_chain n (rq_sd (rqb_at b u)) b \<noteq> None)
     \<and> (\<forall>d u. find_idlest_group K (sd_at b d) i u sd_flag (ks b) \<noteq> None)"

lemma descend_total:
  assumes ready: "descent_ready n D level K i sd_flag b"
  shows "(\<forall>d. sd = Some d \<longrightarrow> unat (span_weight (sd_at b d)) * (D + 1) + level d < m) \<Longrightarrow> \<exists>v. descend m n A K i sd_flag sd u new_cpu b = Some v"
proof (induction m arbitrary: sd u new_cpu)
  case 0
  then show ?case by (cases sd) auto
next
  case (Suc m)
  show ?case
  proof (cases sd)
    case None
    then show ?thesis by simp
  next
    case (Some d)
    have child: "\<exists>x. descend m n A K i sd_flag (sd_child (sd_at b d)) u v b = Some x" for v
    proof (rule Suc.IH, intro allI impI)
      fix c assume "sd_child (sd_at b d) = Some c"
      then have "unat (span_weight (sd_at b c)) \<le> unat (span_weight (sd_at b d))" "level c < level d" using ready by (auto simp: descent_ready_def word_le_nat_alt)
      then show "unat (span_weight (sd_at b c)) * (D + 1) + level c < m" using Suc.prems Some mult_le_mono1 [of "unat (span_weight (sd_at b c))" "unat (span_weight (sd_at b d))" "D + 1"] by fastforce
    qed
    have jump: "\<exists>x. descend m n A K i sd_flag (lower_domain (span_weight (sd_at b d)) sd_flag ds None b) v v b = Some x" for v ds
    proof (rule Suc.IH, intro allI impI)
      fix c assume "lower_domain (span_weight (sd_at b d)) sd_flag ds None b = Some c"
      then have "unat (span_weight (sd_at b c)) < unat (span_weight (sd_at b d))" using lower_domain_weight [of None b] by (simp add: word_less_nat_alt)
      moreover have "level c \<le> D" using ready by (simp add: descent_ready_def)
      ultimately show "unat (span_weight (sd_at b c)) * (D + 1) + level c < m"
        using Suc.prems Some mult_le_mono1 [of "unat (span_weight (sd_at b c)) + 1" "unat (span_weight (sd_at b d))" "D + 1"] by fastforce
    qed
    obtain r where r: "find_idlest_group K (sd_at b d) i u sd_flag (ks b) = Some r"
      using ready unfolding descent_ready_def by blast
    have chain: "\<exists>ds. domain_chain n (rq_sd (rqb_at b v)) b = Some ds" for v using ready by (auto simp: descent_ready_def)
    show ?thesis
    proof (cases r)
      case None
      then show ?thesis using Some child r by (simp add: Let_def)
    next
      case (Some g)
      obtain ds where "domain_chain n (rq_sd (rqb_at b (find_idlest_cpu A g i u b))) b = Some ds" using chain by blast
      then show ?thesis using \<open>sd = Some d\<close> Some child jump r by (simp add: Let_def)
    qed
  qed
qed

text \<open>C19: the loop that looks for the idlest cpu in ever smaller domains ends, after at most
  \<open>(weight + 1) * (depth + 1)\<close> passes for a domain of that weight.\<close>

theorem descent_ends:
  assumes "descent_ready n D level K i sd_flag b" and "(unat (span_weight (sd_at b d)) + 1) * (D + 1) \<le> m"
  shows "\<exists>v. descend m n A K i sd_flag (Some d) u new_cpu b = Some v"
proof (rule descend_total [OF assms(1)], intro allI impI)
  fix d' assume "Some d = Some d'"
  moreover have "level d \<le> D" using assms(1) by (simp add: descent_ready_def)
  ultimately show "unat (span_weight (sd_at b d')) * (D + 1) + level d' < m" using assms(2) by simp
qed

lemma big_little_room: "[v \<leftarrow> concat (map sched_group_cpus (sd_groups (sd_at big_little 0))). has_room plain_core 7 v big_little] = [0, 1]"
  by code_simp

section \<open>The small and the big cpu\<close>

lemma last_state_serves: "i < length cs \<Longrightarrow> P (cs ! i) \<Longrightarrow> length (takeWhile (\<lambda>c. \<not> P c) cs) < length cs"
proof (induction cs arbitrary: i)
  case (Cons c cs)
  then show ?case by (cases i) auto
qed simp

lemma big_little_idle_state:
  assumes "sched_group_cpus g = [v]" and "sg_sge g = Some m" and "length (idle_states m) = 2"
  shows "group_idle_state e g big_little \<in> {Some 0, Some 1}"
proof -
  have st: "idle_state_idx (rqb_at big_little v) = - 1" and cap: "max_capacity (sgc_of g (ks big_little)) \<noteq> 0"
    by (simp_all add: big_little_def zero_rqb_def sgc_of_def balancing_state_def)
  have "mapped_idle_state g x (ks big_little) \<in> {Some 0, Some 1}" for x
    using cap by (simp add: mapped_idle_state_def assms(2,3) s32_min_def Let_def)
  moreover have "fold (\<lambda>u x. s32_min x (idle_state_idx (rqb_at big_little u))) (sched_group_cpus g) 2147483647 + 1 = (0 :: s32)"
    by (simp add: assms(1) st s32_min_def)
  ultimately show ?thesis unfolding group_idle_state_def Let_def by (metis insertI1)
qed

lemma one_group_energy_defined:
  assumes "sg_sge g = Some m" and "i < length (cap_states m)" and "fst (cap_states m ! i) = - 1"
    and "\<And>e. group_idle_state e g b \<in> {Some 0, Some 1}" and "length (idle_states m) = 2"
  shows "one_group_energy shared g e b \<noteq> None"
proof -
  define e1 where "e1 = e\<lparr>sg_cap := (case shared of Some h \<Rightarrow> if sg_weight h \<ge> sg_weight g then h else g | None \<Rightarrow> g)\<rparr>"
  define e2 where "e2 = find_new_capacity e1 m (ks b)"
  have idx: "cap_idx e2 < length (cap_states m)"
    unfolding e2_def find_new_capacity_def by (simp, rule last_state_serves [OF assms(2)]) (simp add: assms(3))
  then obtain c p where c: "cap_state g (cap_idx e2) = Some (c, p)" by (cases "cap_states m ! cap_idx e2") (auto simp: cap_state_def assms(1))
  define e3 where "e3 = note_cap g c e2"
  have "cap_idx e3 = cap_idx e2" by (simp add: e3_def note_cap_def Let_def)
  then have "group_norm_util e3 g (ks b) \<noteq> None" by (simp add: group_norm_util_def c Let_def)
  moreover obtain k where k: "group_idle_state e3 g b = Some k" "k = 0 \<or> k = 1" using assms(4) [of e3] by auto
  moreover have "idle_power g k \<noteq> None" using k(2) assms(1,5) by (auto simp: idle_power_def)
  ultimately show ?thesis
    by (auto simp: one_group_energy_def assms(1) c k(1) Let_def simp flip: e1_def e2_def e3_def)
qed

lemma big_little_group_energy:
  assumes "g = small_group \<or> g = big_group"
  shows "one_group_energy shared g e big_little \<noteq> None"
proof -
  obtain v m where g: "sched_group_cpus g = [v]" "sg_sge g = Some m" "length (idle_states m) = 2"
      "2 < length (cap_states m)" "fst (cap_states m ! 2) = - 1"
    using assms by (auto simp: small_group_def big_group_def)
  show ?thesis by (rule one_group_energy_defined [OF g(2,4,5) big_little_idle_state [OF g(1-3)] g(3)])
qed

lemma big_little_ready: "energy_ready 2 big_little"
proof -
  have "domain_chain 2 (rq_sd (rqb_at big_little u)) big_little \<noteq> None" for u
    by (simp add: big_little_defs numeral_2_eq_2)
  moreover have "sd_child (sd_at big_little d) = None" "sd_groups (sd_at big_little d) \<noteq> []" for d
    by (simp_all add: big_little_def two_cpus_def)
  moreover have "g \<in> set (sd_groups (sd_at big_little d)) \<Longrightarrow> g = small_group \<or> g = big_group" for g d
    by (auto simp: big_little_def split: if_splits)
  ultimately show ?thesis using big_little_group_energy unfolding energy_ready_def by blast
qed

lemma idlest_loop_total:
  "(\<And>l us a. group_tally K l idx i us a s \<noteq> None) \<Longrightarrow> \<forall>g\<in>set gs. capacity (sgc_of g s) \<noteq> 0 \<Longrightarrow> \<exists>a'. idlest_loop K u idx i gs a s = Some a'"
proof (induction gs arbitrary: a)
  case (Cons g gs)
  obtain l c where "group_tally K (u \<in> set (sched_group_cpus g)) idx i (sched_group_cpus g) (0, 0) s = Some (l, c)"
    using Cons.prems(1) by (metis not_None_eq surj_pair)
  then show ?case using Cons by (auto simp: Let_def)
qed simp

lemma big_little_descent: "descent_ready 2 0 (\<lambda>_. 0) plain_api 7 SD_BALANCE_WAKE big_little"
proof -
  have "domain_chain 2 (rq_sd (rqb_at big_little u)) big_little \<noteq> None" for u
    by (simp add: big_little_defs numeral_2_eq_2)
  moreover have "sd_child (sd_at big_little d) = None" for d
    by (simp_all add: big_little_def two_cpus_def)
  moreover have tally: "group_tally plain_api l 0 7 us a (ks big_little) \<noteq> None" for l us a
    by (induction us arbitrary: a) (auto simp: source_load_def target_load_def big_little_defs split: prod.splits)
  have "\<exists>r. find_idlest_group plain_api (sd_at big_little d) 7 u SD_BALANCE_WAKE (ks big_little) = Some r" for d u
  proof -
    have "wake_idx (sd_at big_little d) = 0" "forkexec_idx (sd_at big_little d) = 0" "sd_groups (sd_at big_little d) \<noteq> []"
      by (simp_all add: big_little_def two_cpus_def)
    moreover have "capacity (sgc_of g (ks big_little)) \<noteq> 0" for g by (simp add: big_little_def sgc_of_def balancing_state_def)
    ultimately show ?thesis
      using idlest_loop_total [OF tally, where gs = "sd_groups (sd_at big_little d)" and u = u
          and a = "\<lparr>idlest_group = None, most_spare_sg = None, min_load = ULONG_MAX, this_load = 0, most_spare = 0, this_spare = 0\<rparr>"]
      by (cases "sd_groups (sd_at big_little d)") (auto simp: find_idlest_group_def first_group_def Let_def simp del: idlest_loop.simps)
  qed
  ultimately show ?thesis by (simp add: descent_ready_def)
qed

theorem group_energy_returns_witness:
  "\<exists>ok e'. sched_group_energy 2 plain_core (move_env 7 1 0 (ks big_little)) big_little = Some (ok, e')"
  by (rule group_energy_returns [OF big_little_ready])

theorem descent_ends_witness:
  "\<exists>v. descend 3 2 plain_core plain_api 7 SD_BALANCE_WAKE (Some 0) 0 1 big_little = Some v"
  by (rule descent_ends [OF big_little_descent]) (simp add: big_little_def two_cpus_def)

theorem best_target_packs_witness:
  "\<exists>t k. find_best_target plain_core plain_api 7 False False big_little = Some (t, k) \<and> t = Some 0 \<and> k = Some 1"
proof -
  have start: "start_cpu plain_api False (ks big_little) = 0" "sd_ea big_little 0 = Some 0" by code_simp+
  have st: "idle_state_idx (rqb_at big_little v) = - 1" for v by (simp add: big_little_def zero_rqb_def)
  have "\<exists>u\<in>set [0]. Some 0 = Some u"
    using best_target_packs [of plain_api False big_little 0 plain_core 7 "Some 0" "Some 1" "[0, 1]" "[0]" "[1]"]
    by (auto simp: start big_little_target big_little_room big_little_capacities big_little_idle st)
  then show ?thesis using big_little_target by simp
qed

section \<open>From large to small\<close>

text \<open>
  A boosted task starts at the big cpu, and then the order decides. With both cpus idle, the small one in a deeper state,
  the big one is kept although the comment at line 7635 prefers a deep small cpu to a shallow big one; with both busy
  the big one is kept for its spare capacity.
\<close>

definition both_idle :: lb_state where
  "both_idle = big_little\<lparr>ks := (ks big_little)\<lparr>rq_at := (\<lambda>u. (rq_at (ks big_little) u)\<lparr>rq_nr_running := 0\<rparr>),
       sysctls := (sysctls (ks big_little))\<lparr>sysctl_sched_cstate_aware := 1\<rparr>\<rparr>,
     rqb_at := (\<lambda>u. (rqb_at big_little u)\<lparr>idle_state_idx := if u = 0 then 1 else 0\<rparr>)\<rparr>"

definition both_busy :: lb_state where
  "both_busy = big_little\<lparr>ks := (ks big_little)\<lparr>rq_at := (\<lambda>u. (rq_at (ks big_little) u)\<lparr>rq_nr_running := 1\<rparr>)\<rparr>\<rparr>"

theorem deep_small_cpu_skipped: "find_best_target plain_core plain_api 7 True False both_idle = Some (Some 1, None)"
  by code_simp

theorem small_busy_cpu_skipped: "find_best_target plain_core plain_api 7 True False both_busy = Some (Some 1, None)"
  by code_simp

end
