(* ===== verification/Numa.thy ===== *)
theory Numa
  imports Select_Cpu
begin

text \<open>
  The fault statistics of NUMA balancing, \<open>kernel/sched/fair.c\<close> lines 1304--1643 and 2094--2563: which share of its
  memory accesses a task or a group of tasks has on a node, how often its pages are scanned, when tasks form groups,
  and the node a task should run on. This component stands beside the others, which have \<open>CONFIG_NUMA_BALANCING\<close> off.

  Arrays of faults are functions of the index; a node is a number, \<open>None\<close> for the \<open>- 1\<close> of the code, and the address of
  a group is its number. The outer \<open>None\<close> of a result is a null or freed pointer or a division by zero.
\<close>

section \<open>Data\<close>

datatype numa_topology_type = NUMA_DIRECT | NUMA_GLUELESS_MESH | NUMA_BACKPLANE

datatype numa_faults_stats = NUMA_MEM | NUMA_CPU | NUMA_MEMBUF | NUMA_CPUBUF

record numa_group =
  refcount :: nat
  nr_tasks :: s32
  gid :: nat
  active_nodes :: s32
  total_faults :: ulong
  max_faults_cpu :: ulong
  faults :: "nat \<Rightarrow> ulong"

text \<open>The fields of \<open>struct task_struct\<close>; \<open>numa_faults_locality\<close> is three fields, and \<open>task_mm\<close> is \<open>mm\<close>.\<close>

record numa_task =
  pid :: nat
  exiting :: bool
  task_mm :: "nat option"
  numa_scan_seq :: s32
  numa_scan_period :: u32
  numa_scan_period_max :: u32
  numa_preferred_nid :: "nat option"
  numa_migrate_retry :: ulong
  node_stamp :: u64
  last_task_numa_placement :: u64
  last_sum_exec_runtime :: u64
  task_numa_group_of :: "nat option"
  numa_faults :: "(nat \<Rightarrow> ulong) option"
  total_numa_faults :: ulong
  locality_remote :: ulong
  locality_local :: ulong
  locality_failed :: ulong
  numa_pages_migrated :: ulong

record numa_mm =
  mm_rss :: ulong
  mm_scan_seq :: s32
  numa_next_scan :: ulong
  numa_scan_offset :: ulong

record numa_rq =
  nr_numa_running :: u32
  nr_preferred_running :: u32

text \<open>The state of NUMA balancing around that of balancing; a freed group is \<open>None\<close>, and \<open>numa_works\<close> are the tasks whose scan is queued.\<close>

record numa_state =
  nb :: lb_state
  nt :: "se_id \<Rightarrow> numa_task"
  ngroups :: "nat \<Rightarrow> numa_group option"
  nmm :: "nat \<Rightarrow> numa_mm"
  nrq :: "cpu \<Rightarrow> numa_rq"
  sd_numa :: "cpu \<Rightarrow> sd_id option"
  sched_numa_balancing :: bool
  numa_works :: "se_id list"

text \<open>The topology, the encoding of a cpu and a process in a page, and the tunables.\<close>

type_synonym cpupid = u32

record numa_api =
  nr_node_ids :: nat
  online_nodes :: "nat list"
  node_distance :: "nat \<Rightarrow> nat \<Rightarrow> int"
  cpumask_of_node :: "nat \<Rightarrow> cpu list"
  cpu_to_node :: "cpu \<Rightarrow> nat"
  sched_numa_topology :: numa_topology_type
  sched_max_numa_distance :: int
  find_numa_distance :: "int \<Rightarrow> bool"
  cpupid_to_cpu :: "cpupid \<Rightarrow> cpu"
  cpupid_to_nid :: "cpupid \<Rightarrow> nat"
  cpupid_pid_unset :: "cpupid \<Rightarrow> bool"
  cpupid_match_pid :: "nat \<Rightarrow> cpupid \<Rightarrow> bool"
  last_cpupid_mask :: cpupid
  sysctl_numa_balancing_scan_period_min :: u32
  sysctl_numa_balancing_scan_period_max :: u32
  sysctl_numa_balancing_scan_size :: u32

definition upd_nt :: "se_id \<Rightarrow> (numa_task \<Rightarrow> numa_task) \<Rightarrow> numa_state \<Rightarrow> numa_state" where
  "upd_nt p f s = s\<lparr>nt := (nt s)(p := f (nt s p))\<rparr>"

definition upd_mm :: "nat \<Rightarrow> (numa_mm \<Rightarrow> numa_mm) \<Rightarrow> numa_state \<Rightarrow> numa_state" where
  "upd_mm m f s = s\<lparr>nmm := (nmm s)(m := f (nmm s m))\<rparr>"

definition set_group :: "nat \<Rightarrow> numa_group option \<Rightarrow> numa_state \<Rightarrow> numa_state" where
  "set_group g G s = s\<lparr>ngroups := (ngroups s)(g := G)\<rparr>"

text \<open>The group of a task: none, or one that must not be freed.\<close>

definition group_of :: "se_id \<Rightarrow> numa_state \<Rightarrow> numa_group option option" where
  "group_of p s = (case task_numa_group_of (nt s p) of None \<Rightarrow> Some None | Some g \<Rightarrow> map_option Some (ngroups s g))"

definition task_node :: "numa_api \<Rightarrow> se_id \<Rightarrow> numa_state \<Rightarrow> nat" where
  "task_node N p s = cpu_to_node N (task_cpu (task_at (ks (nb s)) p))"

definition div_round_up :: "'a::len word \<Rightarrow> 'a word \<Rightarrow> 'a word option" where
  "div_round_up a d = (if d = 0 then None else Some ((a + d - 1) div d))"

section \<open>Scan periods\<close>

definition MAX_SCAN_WINDOW :: u32 where "MAX_SCAN_WINDOW = 2560"

definition task_nr_scan_windows :: "numa_api \<Rightarrow> numa_mm \<Rightarrow> u32 option" where
  "task_nr_scan_windows N m =
     (let nr_scan_pages = ucast (push_bit 8 (sysctl_numa_balancing_scan_size N)) :: ulong;
          rss = (if mm_rss m = 0 then nr_scan_pages else mm_rss m);
          rss = ((rss - 1) OR (nr_scan_pages - 1)) + 1
      in if nr_scan_pages = 0 then None else Some (ucast (rss div nr_scan_pages)))"

definition u32_div :: "u32 \<Rightarrow> u32 \<Rightarrow> u32 option" where
  "u32_div a b = (if b = 0 then None else Some (a div b))"

definition task_scan_min :: "numa_api \<Rightarrow> numa_mm \<Rightarrow> u32 option" where
  "task_scan_min N m = do {
     let scan_size = sysctl_numa_balancing_scan_size N;
     windows \<leftarrow> (if scan_size < MAX_SCAN_WINDOW then u32_div MAX_SCAN_WINDOW scan_size else Some 1);
     floor \<leftarrow> u32_div 1000 windows;
     nr \<leftarrow> task_nr_scan_windows N m;
     scan \<leftarrow> u32_div (sysctl_numa_balancing_scan_period_min N) nr;
     Some (max floor scan)
   }"

definition task_scan_max :: "numa_api \<Rightarrow> numa_mm \<Rightarrow> u32 option" where
  "task_scan_max N m = do {
     smin \<leftarrow> task_scan_min N m;
     nr \<leftarrow> task_nr_scan_windows N m;
     smax \<leftarrow> u32_div (sysctl_numa_balancing_scan_period_max N) nr;
     Some (max smin smax)
   }"

section \<open>Tasks of a runqueue that have or are on a preferred node\<close>

definition account_numa_enqueue :: "numa_api \<Rightarrow> cpu \<Rightarrow> se_id \<Rightarrow> numa_state \<Rightarrow> numa_state" where
  "account_numa_enqueue N u p s =
     (let nid = numa_preferred_nid (nt s p); r = nrq s u in
      s\<lparr>nrq := (nrq s)(u := \<lparr>nr_numa_running = nr_numa_running r + of_bool (nid \<noteq> None),
                              nr_preferred_running = nr_preferred_running r + of_bool (nid = Some (task_node N p s))\<rparr>)\<rparr>)"

definition account_numa_dequeue :: "numa_api \<Rightarrow> cpu \<Rightarrow> se_id \<Rightarrow> numa_state \<Rightarrow> numa_state" where
  "account_numa_dequeue N u p s =
     (let nid = numa_preferred_nid (nt s p); r = nrq s u in
      s\<lparr>nrq := (nrq s)(u := \<lparr>nr_numa_running = nr_numa_running r - of_bool (nid \<noteq> None),
                              nr_preferred_running = nr_preferred_running r - of_bool (nid = Some (task_node N p s))\<rparr>)\<rparr>)"

section \<open>Faults and weights\<close>

definition task_numa_group_id :: "se_id \<Rightarrow> numa_state \<Rightarrow> nat option" where
  "task_numa_group_id p s = do { G \<leftarrow> group_of p s; Some (case G of Some G \<Rightarrow> gid G | None \<Rightarrow> 0) }"

fun stats_region :: "numa_faults_stats \<Rightarrow> nat" where
  "stats_region NUMA_MEM = 0"
| "stats_region NUMA_CPU = 1"
| "stats_region NUMA_MEMBUF = 2"
| "stats_region NUMA_CPUBUF = 3"

definition task_faults_idx :: "numa_api \<Rightarrow> numa_faults_stats \<Rightarrow> nat \<Rightarrow> nat \<Rightarrow> nat" where
  "task_faults_idx N r nid priv = 2 * (stats_region r * nr_node_ids N + nid) + priv"

definition task_faults :: "numa_api \<Rightarrow> numa_task \<Rightarrow> nat \<Rightarrow> ulong" where
  "task_faults N t nid =
     (case numa_faults t of None \<Rightarrow> 0
      | Some f \<Rightarrow> f (task_faults_idx N NUMA_MEM nid 0) + f (task_faults_idx N NUMA_MEM nid 1))"

definition group_faults :: "numa_api \<Rightarrow> numa_group option \<Rightarrow> nat \<Rightarrow> ulong" where
  "group_faults N G nid =
     (case G of None \<Rightarrow> 0
      | Some G \<Rightarrow> faults G (task_faults_idx N NUMA_MEM nid 0) + faults G (task_faults_idx N NUMA_MEM nid 1))"

text \<open>\<open>faults_cpu\<close> points behind the first two entries per node of \<open>faults\<close>.\<close>

definition group_faults_cpu :: "numa_api \<Rightarrow> numa_group \<Rightarrow> nat \<Rightarrow> ulong" where
  "group_faults_cpu N G nid =
     faults G (2 * nr_node_ids N + task_faults_idx N NUMA_MEM nid 0) + faults G (2 * nr_node_ids N + task_faults_idx N NUMA_MEM nid 1)"

definition numa_is_active_node :: "numa_api \<Rightarrow> nat \<Rightarrow> numa_group \<Rightarrow> bool" where
  "numa_is_active_node N nid G \<longleftrightarrow> group_faults_cpu N G nid * 3 > max_faults_cpu G"

fun nearby_score :: "numa_api \<Rightarrow> (nat \<Rightarrow> ulong) \<Rightarrow> nat \<Rightarrow> int \<Rightarrow> nat list \<Rightarrow> ulong \<Rightarrow> ulong option" where
  "nearby_score N flt nid maxdist [] score = Some score"
| "nearby_score N flt nid maxdist (node # ns) score =
     (let dist = node_distance N nid node; top = sched_max_numa_distance N in
      if dist = top \<or> node = nid then nearby_score N flt nid maxdist ns score
      else if sched_numa_topology N = NUMA_BACKPLANE \<and> dist > maxdist then nearby_score N flt nid maxdist ns score
      else if sched_numa_topology N = NUMA_GLUELESS_MESH
      then if top = 10 then None
           else nearby_score N flt nid maxdist ns (score + flt node * word_of_int (top - dist) div word_of_int (top - 10))
      else nearby_score N flt nid maxdist ns (score + flt node))"

definition score_nearby_nodes :: "numa_api \<Rightarrow> (nat \<Rightarrow> ulong) \<Rightarrow> nat \<Rightarrow> int \<Rightarrow> ulong option" where
  "score_nearby_nodes N flt nid maxdist =
     (if sched_numa_topology N = NUMA_DIRECT then Some 0 else nearby_score N flt nid maxdist (online_nodes N) 0)"

definition numa_task_weight :: "numa_api \<Rightarrow> numa_task \<Rightarrow> nat \<Rightarrow> int \<Rightarrow> ulong option" where
  "numa_task_weight N t nid dist =
     (if numa_faults t = None \<or> total_numa_faults t = 0 then Some 0
      else do { score \<leftarrow> score_nearby_nodes N (task_faults N t) nid dist;
                Some (1000 * (task_faults N t nid + score) div total_numa_faults t) })"

definition numa_group_weight :: "numa_api \<Rightarrow> numa_group option \<Rightarrow> nat \<Rightarrow> int \<Rightarrow> ulong option" where
  "numa_group_weight N G nid dist =
     (case G of
        None \<Rightarrow> Some 0
      | Some g \<Rightarrow> if total_faults g = 0 then Some 0
                  else do { score \<leftarrow> score_nearby_nodes N (group_faults N G) nid dist;
                            Some (1000 * (group_faults N G nid + score) div total_faults g) })"

text \<open>Whether the page moves to the node of the cpu; \<open>last_cpupid\<close> is what \<open>page_cpupid_xchg_last\<close> found in it.\<close>

definition should_numa_migrate_memory :: "numa_api \<Rightarrow> se_id \<Rightarrow> cpupid \<Rightarrow> nat \<Rightarrow> cpu \<Rightarrow> numa_state \<Rightarrow> bool option" where
  "should_numa_migrate_memory N p last_cpupid src_nid dst_cpu s = do {
     G \<leftarrow> group_of p s;
     let dst_nid = cpu_to_node N dst_cpu;
     if \<not> cpupid_pid_unset N last_cpupid \<and> cpupid_to_nid N last_cpupid \<noteq> dst_nid then Some False
     else if cpupid_match_pid N (pid (nt s p)) last_cpupid then Some True
     else (case G of
             None \<Rightarrow> Some True
           | Some g \<Rightarrow>
               Some (group_faults_cpu N g dst_nid > group_faults_cpu N g src_nid * 3
                 \<or> group_faults_cpu N g dst_nid * group_faults N G src_nid * 3
                     > group_faults_cpu N g src_nid * group_faults N G dst_nid * 4))
   }"

section \<open>Active nodes and the scan period\<close>

definition numa_group_count_active_nodes :: "numa_api \<Rightarrow> numa_group \<Rightarrow> numa_group" where
  "numa_group_count_active_nodes N G =
     (let max_faults = fold (\<lambda>nid m. max m (group_faults_cpu N G nid)) (online_nodes N) 0
      in G\<lparr>max_faults_cpu := max_faults,
           active_nodes := word_of_nat (length (filter (\<lambda>nid. group_faults_cpu N G nid * 3 > max_faults) (online_nodes N)))\<rparr>)"

text \<open>The change of the scan period, an \<open>int\<close>: local accesses slow scanning down, remote private ones speed it up.\<close>

definition period_change :: "u32 \<Rightarrow> ulong \<Rightarrow> ulong \<Rightarrow> ulong \<Rightarrow> ulong \<Rightarrow> s32 option" where
  "period_change per misses hits shared priv =
     (if hits + misses = 0 then None
      else let period_slot = (per + 10 - 1) div 10;
               ratio = (ucast (hits * 10 div (hits + misses)) :: s32)
           in if sint ratio \<ge> 7
              then let slot = ratio - 7; slot = (if slot = 0 then 1 else slot) in Some (slot * period_slot)
              else do {
                ratio2 \<leftarrow> div_round_up (priv * 10) (priv + shared + 1);
                Some (word_of_int (sint (- (7 - ratio) * period_slot * ucast ratio2) sdiv 10))
              })"

definition update_task_scan_period ::
  "numa_api \<Rightarrow> lb_api \<Rightarrow> se_id \<Rightarrow> ulong \<Rightarrow> ulong \<Rightarrow> numa_state \<Rightarrow> numa_state option" where
  "update_task_scan_period N A p shared priv s = do {
     let t = nt s p;
     m \<leftarrow> task_mm t;
     if locality_local t + shared = 0 \<or> locality_failed t \<noteq> 0
     then let per = min (numa_scan_period_max t) (push_bit 1 (numa_scan_period t))
          in Some (upd_mm m (\<lambda>m. m\<lparr>numa_next_scan := jiffies (ks (nb s)) + msecs_to_jiffies A (ucast per)\<rparr>)
               (upd_nt p (\<lambda>t. t\<lparr>numa_scan_period := per\<rparr>) s))
     else do {
       diff \<leftarrow> period_change (numa_scan_period t) (locality_remote t) (locality_local t) shared priv;
       lo \<leftarrow> task_scan_min N (nmm s m);
       hi \<leftarrow> task_scan_max N (nmm s m);
       Some (upd_nt p (\<lambda>t. t\<lparr>numa_scan_period := min (max (numa_scan_period t + diff) lo) hi,
                             locality_remote := 0, locality_local := 0, locality_failed := 0\<rparr>) s)
     }
   }"

text \<open>The run time and the time since the last placement.\<close>

definition numa_get_avg_runtime :: "se_id \<Rightarrow> numa_state \<Rightarrow> (u64 \<times> u64 \<times> numa_state) option" where
  "numa_get_avg_runtime p s =
     (let t = nt s p; e = se_at (ks (nb s)) p; now = exec_start e; rtime = sum_exec_runtime e in do {
        (delta, per) \<leftarrow>
          (if last_task_numa_placement t \<noteq> 0
           then Some (rtime - last_sum_exec_runtime t, now - last_task_numa_placement t)
           else if weight (se_load e) = 0 then None
           else Some (load_sum (se_avg e) div weight (se_load e), LOAD_AVG_MAX));
        Some (delta, per, upd_nt p (\<lambda>t. t\<lparr>last_sum_exec_runtime := rtime, last_task_numa_placement := now\<rparr>) s)
      })"

section \<open>The preferred node\<close>

text \<open>The node with the best score so misses; \<open>None\<close> for the node is \<open>- 1\<close>.\<close>

fun best_scored :: "(nat \<Rightarrow> ulong option) \<Rightarrow> nat list \<Rightarrow> ulong \<Rightarrow> nat option \<Rightarrow> nat option option" where
  "best_scored score [] best nid = Some nid"
| "best_scored score (n # ns) best nid = do {
     v \<leftarrow> score n;
     if v > best then best_scored score ns v (Some n) else best_scored score ns best nid
   }"

text \<open>
  One round at a distance: every node still in \<open>nodes\<close> takes the nodes closer than that out of it as its group. The state is
  the nodes left, the faults and the nodes of the top group, and the winner.
\<close>

type_synonym round = "nat list \<times> ulong \<times> nat list \<times> nat option"

fun group_round :: "numa_api \<Rightarrow> numa_group option \<Rightarrow> int \<Rightarrow> nat list \<Rightarrow> round \<Rightarrow> round" where
  "group_round N G dist [] r = r"
| "group_round N G dist (a # as) (nodes, max_faults, max_group, nid) =
     (if a \<notin> set nodes then group_round N G dist as (nodes, max_faults, max_group, nid)
      else let this_group = filter (\<lambda>b. node_distance N a b < dist) nodes;
               rest = filter (\<lambda>b. \<not> node_distance N a b < dist) nodes;
               flt = sum_list (map (group_faults N G) this_group)
           in if flt > max_faults then group_round N G dist as (rest, flt, this_group, Some a)
              else group_round N G dist as (rest, max_faults, max_group, nid))"

fun backplane_search :: "numa_api \<Rightarrow> numa_group option \<Rightarrow> int list \<Rightarrow> nat list \<Rightarrow> nat option \<Rightarrow> nat option" where
  "backplane_search N G [] nodes nid = nid"
| "backplane_search N G (dist # ds) nodes nid =
     (if \<not> find_numa_distance N dist then backplane_search N G ds nodes nid
      else case group_round N G dist nodes (nodes, 0, [], nid) of
             (_, max_faults, max_group, nid) \<Rightarrow>
               if max_faults = 0 then nid else backplane_search N G ds max_group nid)"

definition preferred_group_nid :: "numa_api \<Rightarrow> numa_group option \<Rightarrow> nat option \<Rightarrow> nat option option" where
  "preferred_group_nid N G nid =
     (case sched_numa_topology N of
        NUMA_DIRECT \<Rightarrow> Some nid
      | NUMA_GLUELESS_MESH \<Rightarrow> best_scored (\<lambda>n. numa_group_weight N G n (sched_max_numa_distance N)) (online_nodes N) 0 nid
      | NUMA_BACKPLANE \<Rightarrow> Some (backplane_search N G (rev [11..sched_max_numa_distance N]) (online_nodes N) nid))"

section \<open>Averaging the faults of a scan\<close>

record place_acc =
  acc_task :: numa_task
  acc_group :: "numa_group option"
  types_shared :: ulong
  types_private :: ulong
  node_faults :: ulong
  node_group_faults :: ulong

text \<open>What the group of the task takes in for an index of memory faults, and the cpu faults \<open>2 * nr_node_ids\<close> behind it.\<close>

definition group_gain :: "numa_api \<Rightarrow> nat \<Rightarrow> ulong \<Rightarrow> ulong \<Rightarrow> numa_group \<Rightarrow> numa_group" where
  "group_gain N mem diff f_diff G =
     (let h = (faults G)(mem := faults G mem + diff) in
      G\<lparr>faults := h(2 * nr_node_ids N + mem := h (2 * nr_node_ids N + mem) + f_diff), total_faults := total_faults G + diff\<rparr>)"

text \<open>One node and one kind of fault: the averages decay and take in the buffers, which are emptied.\<close>

definition place_one :: "numa_api \<Rightarrow> u64 \<Rightarrow> u64 \<Rightarrow> ulong \<Rightarrow> nat \<Rightarrow> nat \<Rightarrow> place_acc \<Rightarrow> place_acc option" where
  "place_one N rtime per tot nid priv a = do {
     let t = acc_task a;
     f \<leftarrow> numa_faults t;
     let mem = task_faults_idx N NUMA_MEM nid priv;
     let membuf = task_faults_idx N NUMA_MEMBUF nid priv;
     let cpu = task_faults_idx N NUMA_CPU nid priv;
     let cpubuf = task_faults_idx N NUMA_CPUBUF nid priv;
     let diff = f membuf - f mem div 2;
     let typ = f membuf;
     let f = f(membuf := 0);
     if per + 1 = 0 \<or> tot + 1 = 0 then None
     else let f_weight = push_bit 16 rtime div (per + 1) * f cpubuf div (tot + 1);
              f_diff = f_weight - f cpu div 2;
              f = f(cpubuf := 0);
              f = f(mem := f mem + diff);
              f = f(cpu := f cpu + f_diff);
              G = map_option (group_gain N mem diff f_diff) (acc_group a)
          in Some (a\<lparr>acc_task := t\<lparr>numa_faults := Some f, total_numa_faults := total_numa_faults t + diff\<rparr>, acc_group := G,
               types_shared := types_shared a + (if priv = 0 then typ else 0), types_private := types_private a + (if priv = 0 then 0 else typ),
               node_faults := node_faults a + f mem,
               node_group_faults := node_group_faults a + (case G of None \<Rightarrow> 0 | Some G \<Rightarrow> faults G mem)\<rparr>)
   }"

text \<open>All online nodes, with the node of most faults of the task and of its group.\<close>

fun place_nodes :: "numa_api \<Rightarrow> u64 \<Rightarrow> u64 \<Rightarrow> ulong \<Rightarrow> nat list \<Rightarrow> ulong \<times> nat option \<Rightarrow> ulong \<times> nat option \<Rightarrow> place_acc
    \<Rightarrow> (nat option \<times> ulong \<times> nat option \<times> place_acc) option" where
  "place_nodes N rtime per tot [] (max_faults, max_nid) (max_group_faults, max_group_nid) a =
     Some (max_nid, max_faults, max_group_nid, a)"
| "place_nodes N rtime per tot (nid # ns) (max_faults, max_nid) (max_group_faults, max_group_nid) a = do {
     a \<leftarrow> place_one N rtime per tot nid 0 (a\<lparr>node_faults := 0, node_group_faults := 0\<rparr>);
     a \<leftarrow> place_one N rtime per tot nid 1 a;
     place_nodes N rtime per tot ns
       (if node_faults a > max_faults then (node_faults a, Some nid) else (max_faults, max_nid))
       (if node_group_faults a > max_group_faults then (node_group_faults a, Some nid) else (max_group_faults, max_group_nid)) a
   }"

text \<open>The averages of all online nodes, in the task and in the accumulator of its group.\<close>

definition average_faults :: "numa_api \<Rightarrow> se_id \<Rightarrow> numa_state \<Rightarrow> (nat option \<times> ulong \<times> nat option \<times> place_acc \<times> numa_state) option" where
  "average_faults N p s = do {
     let tot = locality_remote (nt s p) + locality_local (nt s p);
     (rtime, per, s) \<leftarrow> numa_get_avg_runtime p s;
     G \<leftarrow> group_of p s;
     (max_nid, max_faults, max_group_nid, a) \<leftarrow> place_nodes N rtime per tot (online_nodes N) (0, None) (0, None)
       \<lparr>acc_task = nt s p, acc_group = G, types_shared = 0, types_private = 0, node_faults = 0, node_group_faults = 0\<rparr>;
     Some (max_nid, max_faults, max_group_nid, a, upd_nt p (\<lambda>_. acc_task a) s)
   }"

text \<open>The group takes its counters and counts its active nodes; it then decides about the node.\<close>

definition settle_group ::
  "numa_api \<Rightarrow> se_id \<Rightarrow> nat option \<Rightarrow> nat option \<Rightarrow> place_acc \<Rightarrow> numa_state \<Rightarrow> (nat option \<times> numa_state) option" where
  "settle_group N p max_nid max_group_nid a s =
     (case task_numa_group_of (nt s p) of
        None \<Rightarrow> Some (max_nid, s)
      | Some g \<Rightarrow> do {
          G \<leftarrow> acc_group a;
          let G = numa_group_count_active_nodes N G;
          nid \<leftarrow> preferred_group_nid N (Some G) max_group_nid;
          Some (nid, set_group g (Some G) s)
        })"

text \<open>
  \<open>task_numa_placement\<close> up to the choice of the node: \<open>None\<close> inside when the pages have not been scanned anew; otherwise
  the preferred node, if there were faults.
\<close>

definition place_task :: "numa_api \<Rightarrow> lb_api \<Rightarrow> se_id \<Rightarrow> numa_state \<Rightarrow> (nat option option \<times> numa_state) option" where
  "place_task N A p s = do {
     m \<leftarrow> task_mm (nt s p);
     let seq = mm_scan_seq (nmm s m);
     if numa_scan_seq (nt s p) = seq then Some (None, s)
     else do {
       smax \<leftarrow> task_scan_max N (nmm s m);
       let s = upd_nt p (\<lambda>t. t\<lparr>numa_scan_seq := seq, numa_scan_period_max := smax\<rparr>) s;
       (max_nid, max_faults, max_group_nid, a, s) \<leftarrow> average_faults N p s;
       s \<leftarrow> update_task_scan_period N A p (types_shared a) (types_private a) s;
       (max_nid, s) \<leftarrow> settle_group N p max_nid max_group_nid a s;
       Some (if max_faults = 0 then None else Some max_nid, s)
     }
   }"

section \<open>Groups\<close>

definition get_numa_group :: "nat \<Rightarrow> numa_state \<Rightarrow> (bool \<times> numa_state) option" where
  "get_numa_group g s = do {
     G \<leftarrow> ngroups s g;
     if refcount G = 0 then Some (False, s) else Some (True, set_group g (Some (G\<lparr>refcount := refcount G + 1\<rparr>)) s)
   }"

text \<open>The last reference frees the group.\<close>

definition put_numa_group :: "nat \<Rightarrow> numa_state \<Rightarrow> numa_state option" where
  "put_numa_group g s = do {
     G \<leftarrow> ngroups s g;
     Some (if refcount G = 1 then set_group g None s else set_group g (Some (G\<lparr>refcount := refcount G - 1\<rparr>)) s)
   }"

text \<open>A group of one task; \<open>fresh\<close> is what \<open>kzalloc\<close> returns.\<close>

definition new_numa_group :: "numa_api \<Rightarrow> se_id \<Rightarrow> nat option \<Rightarrow> numa_state \<Rightarrow> numa_state option" where
  "new_numa_group N p fresh s =
     (case fresh of
        None \<Rightarrow> Some s
      | Some g \<Rightarrow> do {
          f \<leftarrow> numa_faults (nt s p);
          let G = \<lparr>refcount = 1, nr_tasks = 1, gid = pid (nt s p), active_nodes = 1, total_faults = total_numa_faults (nt s p),
                   max_faults_cpu = 0, faults = (\<lambda>k. if k < 4 * nr_node_ids N then f k else 0)\<rparr>;
          Some (upd_nt p (\<lambda>t. t\<lparr>task_numa_group_of := Some g\<rparr>) (set_group g (Some G) s))
        })"

definition move_faults :: "numa_api \<Rightarrow> (nat \<Rightarrow> ulong) \<Rightarrow> ulong \<Rightarrow> bool \<Rightarrow> numa_group \<Rightarrow> numa_group" where
  "move_faults N f tot add G =
     (if add then G\<lparr>faults := (\<lambda>k. if k < 4 * nr_node_ids N then faults G k + f k else faults G k),
                    total_faults := total_faults G + tot, nr_tasks := nr_tasks G + 1\<rparr>
      else G\<lparr>faults := (\<lambda>k. if k < 4 * nr_node_ids N then faults G k - f k else faults G k),
             total_faults := total_faults G - tot, nr_tasks := nr_tasks G - 1\<rparr>)"

text \<open>\<open>shared\<close> is the flag of a shared mapping; the result says whether the fault counts as private.\<close>

definition join_numa_group :: "numa_api \<Rightarrow> se_id \<Rightarrow> cpupid \<Rightarrow> bool \<Rightarrow> bool \<Rightarrow> numa_state \<Rightarrow> (bool \<times> numa_state) option" where
  "join_numa_group N p cpupid shared priv s =
     (let tsk = rq_curr (rq_at (ks (nb s)) (cpupid_to_cpu N cpupid)) in
      if \<not> cpupid_match_pid N (pid (nt s tsk)) cpupid then Some (priv, s)
      else case task_numa_group_of (nt s tsk) of
             None \<Rightarrow> Some (priv, s)
           | Some g \<Rightarrow> do {
               mine \<leftarrow> task_numa_group_of (nt s p);
               if g = mine then Some (priv, s)
               else do {
                 G \<leftarrow> ngroups s g;
                 M \<leftarrow> ngroups s mine;
                 if sint (nr_tasks M) > sint (nr_tasks G) \<or> nr_tasks M = nr_tasks G \<and> mine > g then Some (priv, s)
                 else let join = (task_mm (nt s tsk) = task_mm (nt s p) \<or> shared) in
                   if \<not> join then Some (True, s)
                   else do {
                     (ok, s) \<leftarrow> get_numa_group g s;
                     if \<not> ok then Some (False, s)
                     else do {
                       G \<leftarrow> ngroups s g;
                       f \<leftarrow> numa_faults (nt s p);
                       let tot = total_numa_faults (nt s p);
                       let s = set_group mine (Some (move_faults N f tot False M)) s;
                       let s = set_group g (Some (move_faults N f tot True G)) s;
                       let s = upd_nt p (\<lambda>t. t\<lparr>task_numa_group_of := Some g\<rparr>) s;
                       s \<leftarrow> put_numa_group mine s;
                       Some (False, s)
                     }
                   }
               }
             })"

definition task_numa_group :: "numa_api \<Rightarrow> se_id \<Rightarrow> cpupid \<Rightarrow> bool \<Rightarrow> bool \<Rightarrow> nat option \<Rightarrow> numa_state \<Rightarrow> (bool \<times> numa_state) option" where
  "task_numa_group N p cpupid shared priv fresh s =
     (if task_numa_group_of (nt s p) = None
      then do {
        s \<leftarrow> new_numa_group N p fresh s;
        if task_numa_group_of (nt s p) = None then Some (priv, s) else join_numa_group N p cpupid shared priv s
      }
      else join_numa_group N p cpupid shared priv s)"

definition task_numa_free :: "numa_api \<Rightarrow> se_id \<Rightarrow> numa_state \<Rightarrow> numa_state option" where
  "task_numa_free N p s = do {
     s \<leftarrow> (case task_numa_group_of (nt s p) of
         None \<Rightarrow> Some s
       | Some g \<Rightarrow> do {
           G \<leftarrow> ngroups s g;
           f \<leftarrow> numa_faults (nt s p);
           let s = set_group g (Some (move_faults N f (total_numa_faults (nt s p)) False G)) s;
           let s = upd_nt p (\<lambda>t. t\<lparr>task_numa_group_of := None\<rparr>) s;
           put_numa_group g s
         });
     Some (upd_nt p (\<lambda>t. t\<lparr>numa_faults := None\<rparr>) s)
   }"

end
