(* ===== verification/Numa_Migrate.thy ===== *)
theory Numa_Migrate
  imports Numa
begin

text \<open>
  Moving tasks between nodes and the handling of a fault, \<open>kernel/sched/fair.c\<close> lines 1632--2092, 2313--2422, 2565--2652 and
  2800--2833: the comparison of a cpu on another node, exchanging two tasks included, the choice among the nodes,
  \<open>task_numa_fault\<close> and the tick. The references that \<open>get_task_struct\<close> takes on a task are not counted.
\<close>

text \<open>
  The core's operations. \<open>kzalloc_group\<close> and \<open>kzalloc_faults\<close> are the results of the allocations: the address of a new group, and whether there is room for an array.
\<close>

record numa_core =
  sched_setnuma :: "se_id \<Rightarrow> nat option \<Rightarrow> numa_state \<Rightarrow> numa_state option"
  migrate_task_to :: "se_id \<Rightarrow> cpu \<Rightarrow> numa_state \<Rightarrow> (s32 \<times> numa_state) option"
  migrate_swap :: "se_id \<Rightarrow> se_id \<Rightarrow> numa_state \<Rightarrow> (s32 \<times> numa_state) option"
  kzalloc_group :: "numa_state \<Rightarrow> nat option"
  kzalloc_faults :: "numa_state \<Rightarrow> bool"

section \<open>The load of a node\<close>

record numa_stats =
  ns_nr_running :: ulong
  ns_load :: ulong
  compute_capacity :: ulong
  task_capacity :: ulong
  has_free_capacity :: bool

definition sum_node :: "numa_api \<Rightarrow> nat \<Rightarrow> kstate \<Rightarrow> numa_stats" where
  "sum_node N nid s = fold (\<lambda>u ns. ns\<lparr>ns_nr_running := ns_nr_running ns + ucast (rq_nr_running (rq_at s u)),
       ns_load := ns_load ns + weighted_cpuload u s, compute_capacity := compute_capacity ns + capacity_of u s\<rparr>)
     (cpumask_of_node N nid) \<lparr>ns_nr_running = 0, ns_load = 0, compute_capacity = 0, task_capacity = 0, has_free_capacity = False\<rparr>"

text \<open>\<open>smt\<close> and the number of cpus are \<open>int\<close>s; the minimum is one of \<open>unsigned\<close> values.\<close>

definition update_numa_stats :: "numa_api \<Rightarrow> nat \<Rightarrow> kstate \<Rightarrow> numa_stats option" where
  "update_numa_stats N nid s =
     (let ns = sum_node N nid s; cpus = length (cpumask_of_node N nid) in
      if cpus = 0 then Some ns
      else do {
        smt \<leftarrow> div_round_up (SCHED_CAPACITY_SCALE * word_of_nat cpus) (compute_capacity ns);
        let smt = sint (ucast smt :: s32);
        if smt = 0 then None
        else let capacity = (word_of_int (int cpus sdiv smt) :: ulong);
                 cap = ucast ((compute_capacity ns + 512) div 1024) :: u32;
                 tc = ucast (min (ucast capacity :: u32) cap)
             in Some (ns\<lparr>task_capacity := tc, has_free_capacity := ns_nr_running ns < tc\<rparr>)
      })"

section \<open>Comparing a cpu\<close>

record numa_env =
  env_p :: se_id
  env_src_cpu :: cpu
  env_src_nid :: nat
  env_dst_cpu :: cpu
  env_dst_nid :: nat
  src_stats :: numa_stats
  dst_stats :: numa_stats
  env_imbalance_pct :: s32
  env_dist :: int
  best_task :: "se_id option"
  best_imp :: s64
  best_cpu :: "cpu option"

text \<open>An exiting task or an idle task.\<close>

definition stopping :: "se_id \<Rightarrow> numa_state \<Rightarrow> bool" where
  "stopping cur s \<longleftrightarrow> exiting (nt s cur) \<or> pid (nt s cur) = 0"

definition task_numa_assign :: "numa_env \<Rightarrow> se_id option \<Rightarrow> s64 \<Rightarrow> numa_env" where
  "task_numa_assign e p imp = e\<lparr>best_task := p, best_imp := imp, best_cpu := Some (env_dst_cpu e)\<rparr>"

definition load_imbalance :: "numa_env \<Rightarrow> s64 \<Rightarrow> s64 \<Rightarrow> s64" where
  "load_imbalance e a b =
     (let lo = (if sint b < sint a then b else a); hi = (if sint b < sint a then a else b)
      in hi * compute_capacity (src_stats e) * 100 - lo * compute_capacity (dst_stats e) * scast (env_imbalance_pct e))"

definition load_too_imbalanced :: "s64 \<Rightarrow> s64 \<Rightarrow> numa_env \<Rightarrow> bool" where
  "load_too_imbalanced src_load dst_load e =
     (let imb = load_imbalance e src_load dst_load in
      sint imb > 0 \<and> sint imb > sint (load_imbalance e (ns_load (src_stats e)) (ns_load (dst_stats e))))"

text \<open>The gain of exchanging the tasks: that of the task plus that of the other, by task or by group.\<close>

definition swap_imp :: "numa_api \<Rightarrow> numa_env \<Rightarrow> se_id \<Rightarrow> s64 \<Rightarrow> s64 \<Rightarrow> numa_state \<Rightarrow> s64 option" where
  "swap_imp N e cur taskimp groupimp s =
     (let p = env_p e; c = nt s cur; dist = env_dist e in do {
        G \<leftarrow> group_of cur s;
        t_src \<leftarrow> numa_task_weight N c (env_src_nid e) dist;
        t_dst \<leftarrow> numa_task_weight N c (env_dst_nid e) dist;
        if task_numa_group_of c = task_numa_group_of (nt s p)
        then let imp = taskimp + t_src - t_dst
             in (if task_numa_group_of c \<noteq> None then do { d \<leftarrow> s64_div imp 16; Some (imp - d) } else Some imp)
        else let imp = (if task_numa_group_of (nt s p) \<noteq> None then groupimp else taskimp) in
          if task_numa_group_of c \<noteq> None
          then do {
            g_src \<leftarrow> numa_group_weight N G (env_src_nid e) dist;
            g_dst \<leftarrow> numa_group_weight N G (env_dst_nid e) dist;
            Some (imp + (g_src - g_dst))
          }
          else Some (imp + (t_src - t_dst))
      })"

text \<open>From the label \<open>balance\<close> on: a move alone, or the exchange, or the move to an idle sibling, if the loads allow.\<close>

definition balance_move ::
  "nat \<Rightarrow> lb_api \<Rightarrow> kapi \<Rightarrow> numa_env \<Rightarrow> se_id option \<Rightarrow> s64 \<Rightarrow> s64 \<Rightarrow> numa_state \<Rightarrow> (numa_env \<times> numa_state) option" where
  "balance_move n A K e cur imp moveimp s = do {
     (load, k) \<leftarrow> task_h_load n (env_p e) (ks (nb s));
     let s = s\<lparr>nb := (nb s)\<lparr>ks := k\<rparr>\<rparr>;
     let dst_load = ns_load (dst_stats e) + load;
     let src_load = ns_load (src_stats e) - load;
     if sint moveimp > sint imp \<and> sint moveimp > sint (best_imp e) \<and> \<not> load_too_imbalanced src_load dst_load e
     then Some (task_numa_assign e None (moveimp - 1), s)
     else if sint imp \<le> sint (best_imp e) then Some (e, s)
     else (case cur of
             Some c \<Rightarrow> do {
               (load, k) \<leftarrow> task_h_load n c (ks (nb s));
               let s = s\<lparr>nb := (nb s)\<lparr>ks := k\<rparr>\<rparr>;
               Some (if load_too_imbalanced (src_load + load) (dst_load - load) e then e else task_numa_assign e (Some c) imp, s)
             }
           | None \<Rightarrow>
               if load_too_imbalanced src_load dst_load e then Some (e, s)
               else do {
                 (u, b) \<leftarrow> select_idle_sibling n A K (env_p e) (env_dst_cpu e) (nb s);
                 Some (task_numa_assign (e\<lparr>env_dst_cpu := u\<rparr>) None imp, s\<lparr>nb := b\<rparr>)
               })
   }"

definition task_numa_compare ::
  "nat \<Rightarrow> lb_api \<Rightarrow> kapi \<Rightarrow> numa_api \<Rightarrow> s64 \<Rightarrow> s64 \<Rightarrow> numa_env \<Rightarrow> numa_state \<Rightarrow> (numa_env \<times> numa_state) option" where
  "task_numa_compare n A K N taskimp groupimp e s =
     (let p = env_p e; k = ks (nb s); cur = rq_curr (rq_at k (env_dst_cpu e));
          moveimp = (if task_numa_group_of (nt s p) \<noteq> None then groupimp else taskimp) in
      if stopping cur s
      then if sint moveimp \<le> sint (best_imp e) then Some (e, s)
           else if ns_nr_running (src_stats e) \<le> task_capacity (src_stats e) \<and> \<not> has_free_capacity (dst_stats e) then Some (e, s)
           else balance_move n A K e None moveimp moveimp s
      else if cur = p \<or> \<not> cpus_allowed (task_at k cur) (env_src_cpu e) then Some (e, s)
      else do {
        imp \<leftarrow> swap_imp N e cur taskimp groupimp s;
        if sint imp \<le> sint (best_imp e) \<and> sint moveimp \<le> sint (best_imp e) then Some (e, s)
        else if sint imp > sint (best_imp e) \<and> rq_nr_running (rq_at k (env_src_cpu e)) = 1 \<and> rq_nr_running (rq_at k (env_dst_cpu e)) = 1
        then Some (task_numa_assign e (Some cur) imp, s)
        else balance_move n A K e (Some cur) imp moveimp s
      })"

fun find_cpu_loop ::
  "nat \<Rightarrow> lb_api \<Rightarrow> kapi \<Rightarrow> numa_api \<Rightarrow> s64 \<Rightarrow> s64 \<Rightarrow> cpu list \<Rightarrow> numa_env \<Rightarrow> numa_state \<Rightarrow> (numa_env \<times> numa_state) option" where
  "find_cpu_loop n A K N ti gi [] e s = Some (e, s)"
| "find_cpu_loop n A K N ti gi (u # us) e s =
     (if \<not> cpus_allowed (task_at (ks (nb s)) (env_p e)) u then find_cpu_loop n A K N ti gi us e s
      else do {
        (e, s) \<leftarrow> task_numa_compare n A K N ti gi (e\<lparr>env_dst_cpu := u\<rparr>) s;
        find_cpu_loop n A K N ti gi us e s
      })"

definition task_numa_find_cpu ::
  "nat \<Rightarrow> lb_api \<Rightarrow> kapi \<Rightarrow> numa_api \<Rightarrow> s64 \<Rightarrow> s64 \<Rightarrow> numa_env \<Rightarrow> numa_state \<Rightarrow> (numa_env \<times> numa_state) option" where
  "task_numa_find_cpu n A K N ti gi e s = find_cpu_loop n A K N ti gi (cpumask_of_node N (env_dst_nid e)) e s"

definition numa_has_capacity :: "numa_env \<Rightarrow> bool" where
  "numa_has_capacity e =
     (let src = src_stats e; dst = dst_stats e in
      \<not> (has_free_capacity src \<and> \<not> has_free_capacity dst)
      \<and> ns_load src * compute_capacity dst * scast (env_imbalance_pct e) > ns_load dst * compute_capacity src * 100)"

section \<open>Choosing a node and a cpu\<close>

text \<open>
  One other node. As in the code, the distance is that of the node looked at before; the weights of the task and its
  group on their own node follow it on a backplane.
\<close>

definition consider_node ::
  "nat \<Rightarrow> lb_api \<Rightarrow> kapi \<Rightarrow> numa_api \<Rightarrow> nat \<Rightarrow> ulong \<times> ulong \<Rightarrow> numa_env \<Rightarrow> numa_state
    \<Rightarrow> ((ulong \<times> ulong) \<times> numa_env \<times> numa_state) option" where
  "consider_node n A K N nid w e s =
     (let p = env_p e; src = env_src_nid e in
      if nid = src \<or> numa_preferred_nid (nt s p) = Some nid then Some (w, e, s)
      else do {
        let dist = node_distance N src (env_dst_nid e);
        G \<leftarrow> group_of p s;
        (tw, gw) \<leftarrow>
          (if sched_numa_topology N = NUMA_BACKPLANE \<and> dist \<noteq> env_dist e
           then do { a \<leftarrow> numa_task_weight N (nt s p) src dist; b \<leftarrow> numa_group_weight N G src dist; Some (a, b) }
           else Some w);
        t \<leftarrow> numa_task_weight N (nt s p) nid dist;
        g \<leftarrow> numa_group_weight N G nid dist;
        if sint (t - tw) < 0 \<and> sint (g - gw) < 0 then Some ((tw, gw), e, s)
        else do {
          stats \<leftarrow> update_numa_stats N nid (ks (nb s));
          let e = e\<lparr>env_dist := dist, env_dst_nid := nid, dst_stats := stats\<rparr>;
          (e, s) \<leftarrow> (if numa_has_capacity e then task_numa_find_cpu n A K N (t - tw) (g - gw) e s else Some (e, s));
          Some ((tw, gw), e, s)
        }
      })"

fun other_nodes ::
  "nat \<Rightarrow> lb_api \<Rightarrow> kapi \<Rightarrow> numa_api \<Rightarrow> nat list \<Rightarrow> ulong \<times> ulong \<Rightarrow> numa_env \<Rightarrow> numa_state \<Rightarrow> (numa_env \<times> numa_state) option" where
  "other_nodes n A K N [] w e s = Some (e, s)"
| "other_nodes n A K N (nid # ns) w e s = do {
     (w, e, s) \<leftarrow> consider_node n A K N nid w e s;
     other_nodes n A K N ns w e s
   }"

text \<open>The environment for the preferred node, with the weights on the own node and the gains there.\<close>

definition preferred_env :: "numa_api \<Rightarrow> se_id \<Rightarrow> s32 \<Rightarrow> numa_state \<Rightarrow> ((ulong \<times> ulong) \<times> s64 \<times> s64 \<times> numa_env) option" where
  "preferred_env N p pct s = do {
     let src = task_node N p s;
     dst \<leftarrow> numa_preferred_nid (nt s p);
     let dist = node_distance N src dst;
     G \<leftarrow> group_of p s;
     tw \<leftarrow> numa_task_weight N (nt s p) src dist;
     gw \<leftarrow> numa_group_weight N G src dist;
     src_st \<leftarrow> update_numa_stats N src (ks (nb s));
     t \<leftarrow> numa_task_weight N (nt s p) dst dist;
     g \<leftarrow> numa_group_weight N G dst dist;
     dst_st \<leftarrow> update_numa_stats N dst (ks (nb s));
     Some ((tw, gw), t - tw, g - gw,
       \<lparr>env_p = p, env_src_cpu = task_cpu (task_at (ks (nb s)) p), env_src_nid = src, env_dst_cpu = 0, env_dst_nid = dst,
        src_stats = src_st, dst_stats = dst_st, env_imbalance_pct = pct, env_dist = dist, best_task = None, best_imp = 0, best_cpu = None\<rparr>)
   }"

definition numa_search ::
  "nat \<Rightarrow> lb_api \<Rightarrow> kapi \<Rightarrow> numa_api \<Rightarrow> se_id \<Rightarrow> s32 \<Rightarrow> numa_state \<Rightarrow> (numa_env \<times> numa_state) option" where
  "numa_search n A K N p pct s = do {
     (w, taskimp, groupimp, e) \<leftarrow> preferred_env N p pct s;
     G \<leftarrow> group_of p s;
     (e, s) \<leftarrow> (if numa_has_capacity e then task_numa_find_cpu n A K N taskimp groupimp e s else Some (e, s));
     if best_cpu e = None \<or> (case G of None \<Rightarrow> False | Some G \<Rightarrow> sint (active_nodes G) > 1)
     then other_nodes n A K N (online_nodes N) w e s
     else Some (e, s)
   }"

text \<open>\<open>- 22\<close> is \<open>- EINVAL\<close>, \<open>- 11\<close> is \<open>- EAGAIN\<close>.\<close>

definition task_numa_migrate ::
  "nat \<Rightarrow> lb_api \<Rightarrow> kapi \<Rightarrow> numa_api \<Rightarrow> numa_core \<Rightarrow> se_id \<Rightarrow> numa_state \<Rightarrow> (s32 \<times> numa_state) option" where
  "task_numa_migrate n A K N C p s =
     (case sd_numa s (task_cpu (task_at (ks (nb s)) p)) of
        None \<Rightarrow> Some (- 22, upd_nt p (\<lambda>t. t\<lparr>numa_preferred_nid := Some (task_node N p s)\<rparr>) s)
      | Some d \<Rightarrow> do {
          (e, s) \<leftarrow> numa_search n A K N p (100 + (imbalance_pct (sd_at (nb s) d) - 100) div 2) s;
          G \<leftarrow> group_of p s;
          s \<leftarrow> (case G of
              None \<Rightarrow> Some s
            | Some G \<Rightarrow> if sint (active_nodes G) > 1 \<and> numa_is_active_node N (env_dst_nid e) G
                        then sched_setnuma C p (Some (env_dst_nid e)) s else Some s);
          (case best_cpu e of
             None \<Rightarrow> Some (- 11, s)
           | Some u \<Rightarrow> do {
               m \<leftarrow> task_mm (nt s p);
               per \<leftarrow> task_scan_min N (nmm s m);
               let s = upd_nt p (\<lambda>t. t\<lparr>numa_scan_period := per\<rparr>) s;
               (case best_task e of None \<Rightarrow> migrate_task_to C p u s | Some q \<Rightarrow> migrate_swap C p q s)
             })
        })"

definition numa_migrate_preferred ::
  "nat \<Rightarrow> lb_api \<Rightarrow> kapi \<Rightarrow> numa_api \<Rightarrow> numa_core \<Rightarrow> se_id \<Rightarrow> numa_state \<Rightarrow> numa_state option" where
  "numa_migrate_preferred n A K N C p s =
     (let t = nt s p in
      if numa_preferred_nid t = None \<or> numa_faults t = None then Some s
      else let wait = min (ucast (ticks_per_second A)) (msecs_to_jiffies A (ucast (numa_scan_period t)) div 16);
               s = upd_nt p (\<lambda>t. t\<lparr>numa_migrate_retry := jiffies (ks (nb s)) + wait\<rparr>) s
           in if numa_preferred_nid t = Some (task_node N p s) then Some s
              else map_option snd (task_numa_migrate n A K N C p s))"

definition task_numa_placement ::
  "nat \<Rightarrow> lb_api \<Rightarrow> kapi \<Rightarrow> numa_api \<Rightarrow> numa_core \<Rightarrow> se_id \<Rightarrow> numa_state \<Rightarrow> numa_state option" where
  "task_numa_placement n A K N C p s = do {
     (r, s) \<leftarrow> place_task N A p s;
     (case r of
        None \<Rightarrow> Some s
      | Some nid \<Rightarrow> do {
          s \<leftarrow> (if nid \<noteq> numa_preferred_nid (nt s p) then sched_setnuma C p nid s else Some s);
          if numa_preferred_nid (nt s p) \<noteq> Some (task_node N p s) then numa_migrate_preferred n A K N C p s else Some s
        })
   }"

section \<open>A fault\<close>

definition TNF_MIGRATED :: u32 where "TNF_MIGRATED = 0x01"
definition TNF_NO_GROUP :: u32 where "TNF_NO_GROUP = 0x02"
definition TNF_SHARED :: u32 where "TNF_SHARED = 0x04"
definition TNF_FAULT_LOCAL :: u32 where "TNF_FAULT_LOCAL = 0x08"
definition TNF_MIGRATE_FAIL :: u32 where "TNF_MIGRATE_FAIL = 0x10"

definition fresh_faults :: "se_id \<Rightarrow> numa_state \<Rightarrow> numa_state" where
  "fresh_faults p s = upd_nt p (\<lambda>t. t\<lparr>numa_faults := Some (\<lambda>_. 0), total_numa_faults := 0,
     locality_remote := 0, locality_local := 0, locality_failed := 0\<rparr>) s"

text \<open>The buffers of the node of the memory and of the cpu, and the locality.\<close>

definition record_fault :: "numa_api \<Rightarrow> se_id \<Rightarrow> nat \<Rightarrow> nat \<Rightarrow> nat \<Rightarrow> bool \<Rightarrow> s32 \<Rightarrow> u32 \<Rightarrow> numa_state \<Rightarrow> numa_state option" where
  "record_fault N p mem_node cpu_node priv is_near pages flags s = do {
     f \<leftarrow> numa_faults (nt s p);
     let pages = (scast pages :: ulong);
     let mem = task_faults_idx N NUMA_MEMBUF mem_node priv;
     let cpu = task_faults_idx N NUMA_CPUBUF cpu_node priv;
     let f = f(mem := f mem + pages);
     let f = f(cpu := f cpu + pages);
     Some (upd_nt p (\<lambda>t. t\<lparr>numa_faults := Some f,
       numa_pages_migrated := numa_pages_migrated t + (if flags AND TNF_MIGRATED \<noteq> 0 then pages else 0),
       locality_failed := locality_failed t + (if flags AND TNF_MIGRATE_FAIL \<noteq> 0 then pages else 0),
       locality_remote := locality_remote t + (if is_near then 0 else pages),
       locality_local := locality_local t + (if is_near then pages else 0)\<rparr>) s)
   }"

text \<open>Whether the fault is private; a shared one may bring the task into a group.\<close>

definition fault_kind :: "numa_api \<Rightarrow> numa_core \<Rightarrow> se_id \<Rightarrow> cpupid \<Rightarrow> u32 \<Rightarrow> numa_state \<Rightarrow> (bool \<times> numa_state) option" where
  "fault_kind N C p last_cpupid flags s =
     (if last_cpupid = last_cpupid_mask N then Some (True, s)
      else if cpupid_match_pid N (pid (nt s p)) last_cpupid then Some (True, s)
      else if flags AND TNF_NO_GROUP \<noteq> 0 then Some (False, s)
      else task_numa_group N p last_cpupid (flags AND TNF_SHARED \<noteq> 0) False (kzalloc_group C s) s)"

definition task_numa_fault ::
  "nat \<Rightarrow> lb_api \<Rightarrow> kapi \<Rightarrow> numa_api \<Rightarrow> numa_core \<Rightarrow> cpupid \<Rightarrow> nat \<Rightarrow> s32 \<Rightarrow> u32 \<Rightarrow> numa_state \<Rightarrow> numa_state option" where
  "task_numa_fault n A K N C last_cpupid mem_node pages flags s =
     (let p = rq_curr (rq_at (ks (nb s)) (this_cpu K)); cpu_node = task_node N p s in
      if \<not> sched_numa_balancing s \<or> task_mm (nt s p) = None then Some s
      else if numa_faults (nt s p) = None \<and> \<not> kzalloc_faults C s then Some s
      else do {
        let s = (if numa_faults (nt s p) = None then fresh_faults p s else s);
        (priv, s) \<leftarrow> fault_kind N C p last_cpupid flags s;
        G \<leftarrow> group_of p s;
        let is_near = (flags AND TNF_FAULT_LOCAL \<noteq> 0
          \<or> \<not> priv \<and> (case G of None \<Rightarrow> False
               | Some G \<Rightarrow> sint (active_nodes G) > 1 \<and> numa_is_active_node N cpu_node G \<and> numa_is_active_node N mem_node G));
        s \<leftarrow> task_numa_placement n A K N C p s;
        s \<leftarrow> (if time_after (jiffies (ks (nb s))) (numa_migrate_retry (nt s p)) then numa_migrate_preferred n A K N C p s else Some s);
        record_fault N p mem_node cpu_node (of_bool priv) is_near pages flags s
      })"

section \<open>The tick\<close>

definition reset_ptenuma_scan :: "numa_mm \<Rightarrow> numa_mm" where
  "reset_ptenuma_scan m = m\<lparr>mm_scan_seq := mm_scan_seq m + 1, numa_scan_offset := 0\<rparr>"

definition task_tick_numa :: "numa_api \<Rightarrow> se_id \<Rightarrow> numa_state \<Rightarrow> numa_state option" where
  "task_tick_numa N p s =
     (case task_mm (nt s p) of
        None \<Rightarrow> Some s
      | Some m \<Rightarrow>
          if exiting (nt s p) \<or> p \<in> set (numa_works s) then Some s
          else let now = sum_exec_runtime (se_at (ks (nb s)) p); per = ucast (numa_scan_period (nt s p)) * 1000000 in
            if \<not> now > node_stamp (nt s p) + per then Some s
            else do {
              s \<leftarrow> (if node_stamp (nt s p) = 0
                then do { v \<leftarrow> task_scan_min N (nmm s m); Some (upd_nt p (\<lambda>t. t\<lparr>numa_scan_period := v\<rparr>) s) }
                else Some s);
              let s = upd_nt p (\<lambda>t. t\<lparr>node_stamp := node_stamp t + per\<rparr>) s;
              Some (if time_after (numa_next_scan (nmm s m)) (jiffies (ks (nb s))) then s
                    else s\<lparr>numa_works := p # numa_works s\<rparr>)
            })"

end
