(* ===== verification/Two_Nodes.thy ===== *)
theory Two_Nodes
  imports Numa_Migrate Big_Little
begin

text \<open>
  The small cpu as node 0 and the big one as node 1, for evaluation: task 3 runs on the first and has its memory on the
  second, task 7 the other way round.
\<close>

definition node_faults_of :: "ulong \<Rightarrow> ulong \<Rightarrow> nat \<Rightarrow> ulong" where
  "node_faults_of a b = (\<lambda>k. if k = 0 then a else if k = 2 then b else 0)"

definition plain_numa_task :: numa_task where
  "plain_numa_task = \<lparr>pid = 0, exiting = False, task_mm = Some 0, numa_scan_seq = 0, numa_scan_period = 1000, numa_scan_period_max = 60000,
     numa_preferred_nid = None, numa_migrate_retry = 0, node_stamp = 0, last_task_numa_placement = 0, last_sum_exec_runtime = 0,
     task_numa_group_of = None, numa_faults = None, total_numa_faults = 0, locality_remote = 0, locality_local = 0, locality_failed = 0,
     numa_pages_migrated = 0\<rparr>"

definition two_nodes :: numa_state where
  "two_nodes = \<lparr>nb = big_little\<lparr>ks := (ks big_little)\<lparr>
        rq_at := (\<lambda>u. (rq_at (ks big_little) u)\<lparr>rq_curr := if u = 0 then 3 else 7, rq_nr_running := 1\<rparr>),
        cfs_at := (\<lambda>c. zero_cfs\<lparr>runnable_load_avg := if c = 0 then 100 else 500\<rparr>),
        task_at := (\<lambda>i. zero_task\<lparr>task_cpu := if i = 3 then 0 else 1\<rparr>)\<rparr>\<rparr>,
     nt = (\<lambda>i. if i = 3 then plain_numa_task\<lparr>pid := 3, numa_faults := Some (node_faults_of 300 700), total_numa_faults := 1000\<rparr>
       else if i = 7 then plain_numa_task\<lparr>pid := 7, numa_faults := Some (node_faults_of 800 200), total_numa_faults := 1000,
         numa_preferred_nid := Some 0, locality_local := 9, locality_remote := 1\<rparr>
       else plain_numa_task),
     ngroups = (\<lambda>_. None), nmm = (\<lambda>_. \<lparr>mm_rss = 0, mm_scan_seq = 0, numa_next_scan = 0, numa_scan_offset = 0\<rparr>),
     nrq = (\<lambda>_. \<lparr>nr_numa_running = 0, nr_preferred_running = 0\<rparr>), sd_numa = (\<lambda>u. Some u), sched_numa_balancing = True, numa_works = []\<rparr>"

text \<open>A page records the pid of the task in the encoding of this example.\<close>

definition plain_numa :: numa_api where
  "plain_numa = \<lparr>nr_node_ids = 2, online_nodes = [0, 1], node_distance = (\<lambda>a b. if a = b then 10 else 20), cpumask_of_node = (\<lambda>n. [n]),
     cpu_to_node = id, sched_numa_topology = NUMA_DIRECT, sched_max_numa_distance = 20, find_numa_distance = (\<lambda>d. d = 10 \<or> d = 20),
     cpupid_to_cpu = (\<lambda>c. if c = 3 then 0 else 1), cpupid_to_nid = (\<lambda>c. if c = 3 then 0 else 1), cpupid_pid_unset = (\<lambda>c. c = 255),
     cpupid_match_pid = (\<lambda>p c. c = word_of_nat p), last_cpupid_mask = 255, sysctl_numa_balancing_scan_period_min = 1000,
     sysctl_numa_balancing_scan_period_max = 60000, sysctl_numa_balancing_scan_size = 256\<rparr>"

definition plain_numa_core :: numa_core where
  "plain_numa_core = \<lparr>sched_setnuma = (\<lambda>p nid s. Some (upd_nt p (\<lambda>t. t\<lparr>numa_preferred_nid := nid\<rparr>) s)),
     migrate_task_to = (\<lambda>p u s. Some (0, s)), migrate_swap = (\<lambda>p q s. Some (0, s)),
     kzalloc_group = (\<lambda>s. if ngroups s 0 = None then Some 0 else None), kzalloc_faults = (\<lambda>_. True)\<rparr>"

text \<open>Task 7 is to change places with task 3, and a fault on a page that task 7 used forms a group.\<close>

lemma two_nodes_search:
  "map_option (\<lambda>(e, _). (best_imp e, best_cpu e, best_task e)) (numa_search 2 plain_core plain_api plain_numa 7 112 two_nodes) = Some (1000, Some 0, Some 3)"
  by code_simp

lemma two_nodes_fault:
  "map_option (\<lambda>s. (map_option refcount (ngroups s 0), task_numa_group_of (nt s 3)))
     (task_numa_fault 2 plain_core plain_api plain_numa plain_numa_core 7 1 1 0 two_nodes) = Some (Some 1, Some 0)"
  by code_simp

lemma two_nodes_scan: "map_option (\<lambda>s. numa_scan_period (nt s 7)) (update_task_scan_period plain_numa plain_core 7 0 10 two_nodes) = Some 1200"
  by code_simp

lemma two_nodes_bounds:
  "task_scan_min plain_numa (nmm two_nodes 0) = Some 1000" "task_scan_max plain_numa (nmm two_nodes 0) = Some 60000"
  by code_simp+

end
