(* ===== verification/Numa_Props.thy ===== *)
theory Numa_Props
  imports Two_Nodes
begin

text \<open>
  What NUMA balancing keeps: the counters of a group are the sums of those of its tasks and its references are its tasks,
  so no group in use is freed.
\<close>

section \<open>The counters of a group\<close>

definition members :: "nat \<Rightarrow> numa_state \<Rightarrow> se_id set" where
  "members g s = {i. task_numa_group_of (nt s i) = Some g}"

definition fault_at :: "numa_task \<Rightarrow> nat \<Rightarrow> ulong" where
  "fault_at t k = (case numa_faults t of None \<Rightarrow> 0 | Some f \<Rightarrow> f k)"

text \<open>The counters of a group are those of a set of tasks.\<close>

definition counts :: "numa_api \<Rightarrow> (se_id \<Rightarrow> numa_task) \<Rightarrow> se_id set \<Rightarrow> numa_group \<Rightarrow> bool" where
  "counts N T M G \<longleftrightarrow>
     finite M \<and> M \<noteq> {} \<and> refcount G = card M \<and> nr_tasks G = word_of_nat (card M)
     \<and> total_faults G = (\<Sum>i\<in>M. total_numa_faults (T i)) \<and> (\<forall>k<4 * nr_node_ids N. faults G k = (\<Sum>i\<in>M. fault_at (T i) k))"

definition numa_ok :: "numa_api \<Rightarrow> numa_state \<Rightarrow> bool" where
  "numa_ok N s \<longleftrightarrow>
     (\<forall>g G. ngroups s g = Some G \<longrightarrow> counts N (nt s) (members g s) G)
     \<and> (\<forall>i g. task_numa_group_of (nt s i) = Some g \<longrightarrow> ngroups s g \<noteq> None \<and> numa_faults (nt s i) \<noteq> None)"

lemma numa_okD:
  assumes "numa_ok N s"
  shows "ngroups s g = Some G \<Longrightarrow> counts N (nt s) (members g s) G"
    and "task_numa_group_of (nt s i) = Some g \<Longrightarrow> \<exists>G. ngroups s g = Some G"
    and "task_numa_group_of (nt s i) = Some g \<Longrightarrow> \<exists>f. numa_faults (nt s i) = Some f"
  using assms by (auto simp: numa_ok_def)

text \<open>What the counters rest on.\<close>

definition same_faults :: "numa_api \<Rightarrow> numa_state \<Rightarrow> numa_state \<Rightarrow> bool" where
  "same_faults N s s' \<longleftrightarrow> ngroups s' = ngroups s
     \<and> (\<forall>i. task_numa_group_of (nt s' i) = task_numa_group_of (nt s i) \<and> (numa_faults (nt s' i) = None \<longleftrightarrow> numa_faults (nt s i) = None)
          \<and> (\<forall>k<4 * nr_node_ids N. fault_at (nt s' i) k = fault_at (nt s i) k) \<and> total_numa_faults (nt s' i) = total_numa_faults (nt s i))"

lemma counts_cong:
  assumes "\<And>i. i \<in> M \<Longrightarrow> (\<forall>k<4 * nr_node_ids N. fault_at (T' i) k = fault_at (T i) k) \<and> total_numa_faults (T' i) = total_numa_faults (T i)"
  shows "counts N T' M G = counts N T M G"
proof -
  have "(\<Sum>i\<in>M. fault_at (T' i) k) = (\<Sum>i\<in>M. fault_at (T i) k)" if "k < 4 * nr_node_ids N" for k
    by (rule sum.cong) (use assms that in simp_all)
  moreover have "(\<Sum>i\<in>M. total_numa_faults (T' i)) = (\<Sum>i\<in>M. total_numa_faults (T i))"
    by (rule sum.cong) (use assms in simp_all)
  ultimately show ?thesis by (simp add: counts_def)
qed

lemma same_faults_ok:
  assumes "same_faults N s s'"
  shows "numa_ok N s' = numa_ok N s"
proof -
  have m: "members g s' = members g s" for g using assms by (simp add: same_faults_def members_def)
  moreover have "counts N (nt s') M G = counts N (nt s) M G" for M G
    by (rule counts_cong) (use assms in \<open>simp add: same_faults_def\<close>)
  ultimately show ?thesis using assms unfolding numa_ok_def same_faults_def by metis
qed

lemma same_faults_refl [simp]: "same_faults N s s" by (simp add: same_faults_def)

lemma same_faults_trans: "same_faults N s t \<Longrightarrow> same_faults N t u \<Longrightarrow> same_faults N s u"
  by (simp add: same_faults_def)

lemma plain_upd_same:
  assumes "\<And>t. task_numa_group_of (f t) = task_numa_group_of t \<and> numa_faults (f t) = numa_faults t \<and> total_numa_faults (f t) = total_numa_faults t"
  shows "same_faults N s (upd_nt p f s)"
  using assms by (simp add: same_faults_def upd_nt_def fault_at_def)

text \<open>A task outside all groups may change its counters.\<close>

lemma outsider_ok:
  assumes "numa_ok N s" and "task_numa_group_of (nt s p) = None" and "task_numa_group_of (f (nt s p)) = None"
  shows "numa_ok N (upd_nt p f s)"
proof -
  have m: "members g (upd_nt p f s) = members g s" for g using assms(2,3) by (auto simp: members_def upd_nt_def)
  have "counts N (nt (upd_nt p f s)) (members g s) G = counts N (nt s) (members g s) G" for g G
    by (rule counts_cong) (use assms(2) in \<open>auto simp: members_def upd_nt_def\<close>)
  moreover have "ngroups (upd_nt p f s) = ngroups s" by (simp add: upd_nt_def)
  moreover have "task_numa_group_of (nt (upd_nt p f s) i) = Some g \<Longrightarrow> task_numa_group_of (nt s i) = Some g \<and> nt (upd_nt p f s) i = nt s i" for i g
    using assms(3) by (cases "i = p") (simp_all add: upd_nt_def)
  ultimately show ?thesis using assms(1) unfolding numa_ok_def m by metis
qed

section \<open>Joining and leaving\<close>

definition leaving :: "numa_api \<Rightarrow> numa_task \<Rightarrow> numa_group \<Rightarrow> numa_group option" where
  "leaving N t G =
     (if refcount G = 1 then None
      else Some ((move_faults N (fault_at t) (total_numa_faults t) False G)\<lparr>refcount := refcount G - 1\<rparr>))"

definition entering :: "numa_api \<Rightarrow> numa_task \<Rightarrow> numa_group \<Rightarrow> numa_group" where
  "entering N t G = (move_faults N (fault_at t) (total_numa_faults t) True G)\<lparr>refcount := refcount G + 1\<rparr>"

lemma counts_leaving:
  assumes "counts N T M G" and "p \<in> M"
  shows "(leaving N (T p) G = None \<longleftrightarrow> M = {p}) \<and> (\<forall>G'. leaving N (T p) G = Some G' \<longrightarrow> counts N T (M - {p}) G')"
proof -
  have fin: "finite M" and card: "refcount G = card M" "card M > 0" using assms by (auto simp: counts_def card_gt_0_iff)
  have one: "card M = 1 \<longleftrightarrow> M = {p}" using assms(2) by (auto simp: card_1_singleton_iff)
  have "M - {p} \<noteq> {}" if "card M \<noteq> 1" using that assms(2) one by auto
  moreover have "word_of_nat (card M - 1) = (word_of_nat (card M) - 1 :: s32)" using card by (simp add: of_nat_diff)
  ultimately show ?thesis
    using assms fin card one by (auto simp: leaving_def counts_def move_faults_def sum_diff1)
qed

lemma counts_entering:
  assumes "counts N T M G" and "p \<notin> M"
  shows "counts N T (insert p M) (entering N (T p) G)"
  using assms by (simp add: entering_def counts_def move_faults_def add.commute)

text \<open>A task goes from one group, if any, to another, if any: the old one loses it, the new one takes it.\<close>

lemma regroup:
  assumes ok: "numa_ok N s" and p: "task_numa_group_of (nt s p) = y" and xy: "x \<noteq> y" and f: "x \<noteq> None \<Longrightarrow> numa_faults (nt s p) \<noteq> None"
    and nt: "nt s' = (nt s)(p := t)" "task_numa_group_of t = x" "numa_faults t = numa_faults (nt s p)" "total_numa_faults t = total_numa_faults (nt s p)"
    and old: "\<And>h. y = Some h \<Longrightarrow> ngroups s' h = Option.bind (ngroups s h) (leaving N (nt s p))"
    and new: "\<And>h. x = Some h \<Longrightarrow> \<exists>G'. ngroups s' h = Some G' \<and>
        (case ngroups s h of Some G \<Rightarrow> G' = entering N (nt s p) G | None \<Rightarrow> counts N (nt s) {p} G')"
    and other: "\<And>h. x \<noteq> Some h \<Longrightarrow> y \<noteq> Some h \<Longrightarrow> ngroups s' h = ngroups s h"
  shows "numa_ok N s'"
proof -
  have c: "counts N (nt s') M G = counts N (nt s) M G" for M G
    by (rule counts_cong) (use nt in \<open>auto simp: fault_at_def\<close>)
  have "counts N (nt s) (members h s') G" if h: "ngroups s' h = Some G" for h G
  proof -
    consider "y = Some h" | "x = Some h" | "x \<noteq> Some h" "y \<noteq> Some h" by blast
    then show ?thesis
    proof cases
      case 1
      then have m: "members h s' = members h s - {p}" "p \<in> members h s" using nt p xy by (auto simp: members_def)
      obtain G0 where G0: "ngroups s h = Some G0" using numa_okD(2) [OF ok] 1 p by blast
      then have "leaving N (nt s p) G0 = Some G" using old [OF 1] h by simp
      then show ?thesis using counts_leaving [OF numa_okD(1) [OF ok G0] m(2)] m(1) by simp
    next
      case 2
      then have m: "members h s' = insert p (members h s)" "p \<notin> members h s" using nt p xy by (auto simp: members_def)
      show ?thesis
      proof (cases "ngroups s h")
        case None
        then have "members h s = {}" using numa_okD(2) [OF ok, of _ h] by (force simp: members_def)
        then show ?thesis using new [OF 2] None h m by simp
      next
        case (Some G0)
        then show ?thesis using new [OF 2] h counts_entering [OF numa_okD(1) [OF ok Some] m(2)] m(1) by simp
      qed
    next
      case 3
      then have "members h s' = members h s" using nt p by (auto simp: members_def)
      then show ?thesis using numa_okD(1) [OF ok] other [OF 3] h by simp
    qed
  qed
  moreover have "ngroups s' g \<noteq> None \<and> numa_faults (nt s' i) \<noteq> None" if i: "task_numa_group_of (nt s' i) = Some g" for i g
  proof (cases "i = p")
    case True
    then have "x = Some g" using i nt by simp
    then show ?thesis using new [of g] f nt True by auto
  next
    case False
    then have i': "task_numa_group_of (nt s i) = Some g" "nt s' i = nt s i" using i nt by simp_all
    obtain G0 where G0: "ngroups s g = Some G0" using numa_okD(2) [OF ok i'(1)] by blast
    have "ngroups s' g \<noteq> None"
    proof (cases "y = Some g")
      case True
      then have "p \<in> members g s" "members g s \<noteq> {p}" using p i'(1) False by (auto simp: members_def)
      then show ?thesis using old [OF True] G0 counts_leaving [OF numa_okD(1) [OF ok G0], of p] by simp
    next
      case no: False
      then show ?thesis using other [of g] new [of g] G0 by (cases "x = Some g") auto
    qed
    then show ?thesis using numa_okD(3) [OF ok i'(1)] i'(2) by simp
  qed
  ultimately show ?thesis by (auto simp: numa_ok_def c)
qed

lemma new_numa_group_ok:
  assumes "numa_ok N s" and "task_numa_group_of (nt s p) = None" and "\<And>g. fresh = Some g \<Longrightarrow> ngroups s g = None"
    and "new_numa_group N p fresh s = Some s'"
  shows "numa_ok N s'"
proof (cases fresh)
  case None
  then show ?thesis using assms by (simp add: new_numa_group_def)
next
  case (Some g)
  obtain f where f: "numa_faults (nt s p) = Some f" using assms(4) Some by (auto simp: new_numa_group_def split: bind_splits)
  define G where "G = \<lparr>refcount = 1, nr_tasks = 1, gid = pid (nt s p), active_nodes = 1, total_faults = total_numa_faults (nt s p),
                   max_faults_cpu = 0, faults = (\<lambda>k. if k < 4 * nr_node_ids N then f k else 0)\<rparr>"
  have s': "s' = upd_nt p (\<lambda>t. t\<lparr>task_numa_group_of := Some g\<rparr>) (set_group g (Some G) s)"
    using assms(4) Some f by (simp add: new_numa_group_def G_def)
  have fresh: "ngroups s g = None" using assms(3) Some by blast
  show ?thesis
  proof (rule regroup [OF assms(1,2), where x = "Some g" and t = "(nt s p)\<lparr>task_numa_group_of := Some g\<rparr>"])
    show "\<exists>G'. ngroups s' h = Some G' \<and> (case ngroups s h of None \<Rightarrow> counts N (nt s) {p} G' | Some G \<Rightarrow> G' = entering N (nt s p) G)"
      if "Some g = Some h" for h
      using that fresh f by (simp add: s' upd_nt_def set_group_def counts_def G_def fault_at_def)
  qed (use f in \<open>auto simp: s' upd_nt_def set_group_def\<close>)
qed

lemma join_numa_group_ok:
  assumes ok: "numa_ok N s" and join: "join_numa_group N p c shared priv s = Some (r, s')"
  shows "numa_ok N s'"
proof (cases "s' = s")
  case False
  obtain g mine G M f where g: "task_numa_group_of (nt s p) = Some mine" "g \<noteq> mine" "ngroups s g = Some G" "ngroups s mine = Some M"
      "refcount G \<noteq> 0" "numa_faults (nt s p) = Some f"
    and s': "put_numa_group mine (upd_nt p (\<lambda>t. t\<lparr>task_numa_group_of := Some g\<rparr>)
        (set_group g (Some (move_faults N f (total_numa_faults (nt s p)) True (G\<lparr>refcount := refcount G + 1\<rparr>)))
          (set_group mine (Some (move_faults N f (total_numa_faults (nt s p)) False M))
            (set_group g (Some (G\<lparr>refcount := refcount G + 1\<rparr>)) s)))) = Some s'"
    using join False
    by (auto simp: join_numa_group_def get_numa_group_def Let_def set_group_def split: bind_splits if_splits option.splits)
  have fa: "fault_at (nt s p) = f" by (rule ext) (simp add: fault_at_def g(6))
  show ?thesis
  proof (rule regroup [OF ok g(1), where x = "Some g" and t = "(nt s p)\<lparr>task_numa_group_of := Some g\<rparr>"])
    show "nt s' = (nt s)(p := (nt s p)\<lparr>task_numa_group_of := Some g\<rparr>)"
      using s' by (auto simp: put_numa_group_def set_group_def upd_nt_def split: bind_splits if_splits)
    show "ngroups s' h = Option.bind (ngroups s h) (leaving N (nt s p))" if "Some mine = Some h" for h
      using s' that g by (auto simp: put_numa_group_def set_group_def upd_nt_def leaving_def move_faults_def fa split: bind_splits if_splits)
    show "\<exists>G'. ngroups s' h = Some G' \<and> (case ngroups s h of None \<Rightarrow> counts N (nt s) {p} G' | Some G \<Rightarrow> G' = entering N (nt s p) G)"
      if "Some g = Some h" for h
      using s' that g by (auto simp: put_numa_group_def set_group_def upd_nt_def entering_def move_faults_def fa cong: if_cong split: bind_splits if_splits)
    show "ngroups s' h = ngroups s h" if "Some g \<noteq> Some h" "Some mine \<noteq> Some h" for h
      using s' that by (auto simp: put_numa_group_def set_group_def upd_nt_def split: bind_splits if_splits)
  qed (use g in auto)
qed (use ok in simp)

lemma task_numa_group_ok:
  assumes "numa_ok N s" and "\<And>g. fresh = Some g \<Longrightarrow> ngroups s g = None" and "task_numa_group N p c shared priv fresh s = Some (r, s')"
  shows "numa_ok N s'"
proof (cases "task_numa_group_of (nt s p) = None")
  case True
  then obtain s1 where s1: "new_numa_group N p fresh s = Some s1"
    and "s' = s1 \<or> join_numa_group N p c shared priv s1 = Some (r, s')"
    using assms(3) by (auto simp: task_numa_group_def split: bind_splits if_splits)
  then show ?thesis using new_numa_group_ok [OF assms(1) True assms(2) s1] join_numa_group_ok by blast
next
  case False
  then have "join_numa_group N p c shared priv s = Some (r, s')" using assms(3) by (simp only: task_numa_group_def if_False)
  then show ?thesis by (rule join_numa_group_ok [OF assms(1)])
qed

lemma task_numa_free_ok:
  assumes ok: "numa_ok N s" and free: "task_numa_free N p s = Some s'"
  shows "numa_ok N s'"
proof (cases "task_numa_group_of (nt s p)")
  case None
  then have "s' = upd_nt p (\<lambda>t. t\<lparr>numa_faults := None\<rparr>) s" using free by (simp add: task_numa_free_def)
  then show ?thesis using outsider_ok [OF ok None, of "\<lambda>t. t\<lparr>numa_faults := None\<rparr>"] None by simp
next
  case (Some mine)
  then obtain M f s1 where g: "ngroups s mine = Some M" "numa_faults (nt s p) = Some f"
    and s1: "put_numa_group mine (upd_nt p (\<lambda>t. t\<lparr>task_numa_group_of := None\<rparr>)
        (set_group mine (Some (move_faults N f (total_numa_faults (nt s p)) False M)) s)) = Some s1"
    and s': "s' = upd_nt p (\<lambda>t. t\<lparr>numa_faults := None\<rparr>) s1"
    using free by (auto simp: task_numa_free_def Let_def split: bind_splits)
  have fa: "fault_at (nt s p) = f" by (rule ext) (simp add: fault_at_def g(2))
  have nt1: "nt s1 = (nt s)(p := (nt s p)\<lparr>task_numa_group_of := None\<rparr>)"
    using s1 by (auto simp: put_numa_group_def set_group_def upd_nt_def split: bind_splits if_splits)
  have "numa_ok N s1"
  proof (rule regroup [OF ok Some, where x = None and t = "(nt s p)\<lparr>task_numa_group_of := None\<rparr>"])
    show "ngroups s1 h = Option.bind (ngroups s h) (leaving N (nt s p))" if "Some mine = Some h" for h
      using s1 that g by (auto simp: put_numa_group_def set_group_def upd_nt_def leaving_def move_faults_def fa split: bind_splits if_splits)
    show "ngroups s1 h = ngroups s h" if "None \<noteq> Some h" "Some mine \<noteq> Some h" for h
      using s1 that by (auto simp: put_numa_group_def set_group_def upd_nt_def split: bind_splits if_splits)
  qed (use nt1 in auto)
  then show ?thesis using outsider_ok [of N s1 p "\<lambda>t. t\<lparr>numa_faults := None\<rparr>"] nt1 s' by simp
qed

section \<open>Averaging\<close>

text \<open>A group gains what its task gains.\<close>

definition gap :: "numa_api \<Rightarrow> numa_task \<Rightarrow> numa_group \<Rightarrow> numa_task \<Rightarrow> numa_group \<Rightarrow> bool" where
  "gap N t G t' G' \<longleftrightarrow>
     refcount G' = refcount G \<and> nr_tasks G' = nr_tasks G \<and> total_faults G' - total_numa_faults t' = total_faults G - total_numa_faults t
     \<and> (\<forall>k<4 * nr_node_ids N. faults G' k - fault_at t' k = faults G k - fault_at t k)"

lemma gap_trans: "gap N t G t1 G1 \<Longrightarrow> gap N t1 G1 t2 G2 \<Longrightarrow> gap N t G t2 G2"
  by (simp add: gap_def)

lemma counts_gap:
  assumes "counts N T M G" and "p \<in> M" and "gap N (T p) G t' G'"
  shows "counts N (T(p := t')) M G'"
proof -
  have fin: "finite M" using assms(1) by (simp add: counts_def)
  have sum: "(\<Sum>i\<in>M. h ((T(p := t')) i)) = (\<Sum>i\<in>M. h (T i)) - h (T p) + h t'" for h :: "numa_task \<Rightarrow> ulong"
  proof -
    have "(\<Sum>i\<in>M. h ((T(p := t')) i)) = h t' + (\<Sum>i\<in>M - {p}. h ((T(p := t')) i))" using fin assms(2) by (simp add: sum.remove)
    also have "(\<Sum>i\<in>M - {p}. h ((T(p := t')) i)) = (\<Sum>i\<in>M - {p}. h (T i))" by (rule sum.cong) auto
    also have "\<dots> = (\<Sum>i\<in>M. h (T i)) - h (T p)" using fin assms(2) by (simp add: sum_diff1)
    finally show ?thesis by simp
  qed
  have "faults G' k = (\<Sum>i\<in>M. fault_at ((T(p := t')) i) k)" if "k < 4 * nr_node_ids N" for k
  proof -
    have "faults G' k = faults G k - fault_at (T p) k + fault_at t' k" using assms(3) that by (simp add: gap_def algebra_simps)
    then show ?thesis using assms(1) that sum [of "\<lambda>t. fault_at t k"] by (simp add: counts_def)
  qed
  moreover have "total_faults G' = (\<Sum>i\<in>M. total_numa_faults ((T(p := t')) i))"
  proof -
    have "total_faults G' = total_faults G - total_numa_faults (T p) + total_numa_faults t'" using assms(3) by (simp add: gap_def algebra_simps)
    then show ?thesis using assms(1) sum [of total_numa_faults] by (simp add: counts_def)
  qed
  ultimately show ?thesis using assms(1,3) by (simp add: counts_def gap_def)
qed

definition nodes_ok :: "numa_api \<Rightarrow> bool" where
  "nodes_ok N \<longleftrightarrow> (\<forall>nid\<in>set (online_nodes N). nid < nr_node_ids N)"

text \<open>How an accumulator moves on: the group with its task.\<close>

definition acc_gap :: "numa_api \<Rightarrow> place_acc \<Rightarrow> place_acc \<Rightarrow> bool" where
  "acc_gap N a a' \<longleftrightarrow>
     task_numa_group_of (acc_task a') = task_numa_group_of (acc_task a) \<and> task_mm (acc_task a') = task_mm (acc_task a)
     \<and> (numa_faults (acc_task a) \<noteq> None \<longrightarrow> numa_faults (acc_task a') \<noteq> None)
     \<and> (case acc_group a of None \<Rightarrow> acc_group a' = None
        | Some G \<Rightarrow> \<exists>G'. acc_group a' = Some G' \<and> gap N (acc_task a) G (acc_task a') G')"

lemma acc_gap_trans:
  assumes "acc_gap N a b" and "acc_gap N b c"
  shows "acc_gap N a c"
  using assms by (cases "acc_group a"; cases "acc_group b") (auto simp: acc_gap_def intro: gap_trans)

lemma place_one_gap:
  assumes "place_one N rtime per tot nid priv a = Some a'" and nid: "nid < nr_node_ids N" and priv: "priv < 2"
  shows "acc_gap N a a'"
proof -
  define nr where "nr = nr_node_ids N"
  define mem where "mem = task_faults_idx N NUMA_MEM nid priv"
  define cpu where "cpu = task_faults_idx N NUMA_CPU nid priv"
  define mb where "mb = task_faults_idx N NUMA_MEMBUF nid priv"
  define cb where "cb = task_faults_idx N NUMA_CPUBUF nid priv"
  have cpu: "2 * nr + mem = cpu" and idx: "mem < 4 * nr" "cpu < 4 * nr" "4 * nr \<le> mb" "4 * nr \<le> cb"
    and ne: "mem \<noteq> cpu" "mem \<noteq> mb" "mem \<noteq> cb" "cpu \<noteq> mb" "cpu \<noteq> cb" "mb \<noteq> cb"
    using nid priv by (simp_all add: task_faults_idx_def mem_def cpu_def mb_def cb_def nr_def)
  obtain f where f: "numa_faults (acc_task a) = Some f" using assms(1) by (auto simp: place_one_def Let_def split: bind_splits)
  define d where "d = f mb - f mem div 2"
  define e where "e = push_bit 16 rtime div (per + 1) * f cb div (tot + 1) - f cpu div 2"
  define f' where "f' = f(mb := 0, cb := 0, mem := f mem + d, cpu := f cpu + e)"
  have t': "acc_task a' = (acc_task a)\<lparr>numa_faults := Some f', total_numa_faults := total_numa_faults (acc_task a) + d\<rparr>"
    and g': "acc_group a' = map_option (group_gain N mem d e) (acc_group a)"
    using assms(1) f ne ne [symmetric]
    by (auto simp: place_one_def Let_def f'_def d_def e_def fun_upd_twist simp flip: mem_def cpu_def mb_def cb_def split: if_splits)
  have "fault_at (acc_task a') k = (if k = mem then f mem + d else if k = cpu then f cpu + e else f k)" if "k < 4 * nr" for k
    using that idx ne by (simp add: t' fault_at_def f'_def)
  then show ?thesis
    using f ne by (cases "acc_group a") (simp_all add: acc_gap_def t' g' gap_def fault_at_def f group_gain_def Let_def cpu flip: nr_def)
qed

lemma place_nodes_gap:
  assumes "place_nodes N rtime per tot ns m g a = Some (x, y, z, a')" and "\<forall>nid\<in>set ns. nid < nr_node_ids N"
  shows "acc_gap N a a'"
  using assms
proof (induction ns arbitrary: m g a)
  case Nil
  then show ?case by (cases m; cases g) (auto simp: acc_gap_def gap_def split: option.splits)
next
  case (Cons nid ns)
  obtain b c where b: "place_one N rtime per tot nid 0 (a\<lparr>node_faults := 0, node_group_faults := 0\<rparr>) = Some b"
    and c: "place_one N rtime per tot nid 1 b = Some c"
    and rest: "\<exists>m' g'. place_nodes N rtime per tot ns m' g' c = Some (x, y, z, a')"
    using Cons.prems(1) by (cases m; cases g) (auto simp: Let_def simp del: split_paired_Ex split: bind_splits)
  have "acc_gap N (a\<lparr>node_faults := 0, node_group_faults := 0\<rparr>) b" "acc_gap N b c" "acc_gap N c a'"
    using place_one_gap [OF b] place_one_gap [OF c] rest Cons by auto
  then have "acc_gap N (a\<lparr>node_faults := 0, node_group_faults := 0\<rparr>) a'" using acc_gap_trans by blast
  then show ?case by (simp add: acc_gap_def cong: option.case_cong)
qed

lemma update_task_scan_period_same: "update_task_scan_period N A p sh pr s = Some s' \<Longrightarrow> same_faults N s s'"
  by (auto simp: update_task_scan_period_def Let_def same_faults_def fault_at_def upd_nt_def upd_mm_def split: bind_splits if_splits)

lemma gain_ok:
  assumes ok: "numa_ok N s" and p: "task_numa_group_of (nt s p) = Some g" and G: "ngroups s g = Some G"
    and t: "task_numa_group_of t' = Some g" "numa_faults t' \<noteq> None" and gap: "gap N (nt s p) G t' G'"
  shows "numa_ok N (set_group g (Some G') (upd_nt p (\<lambda>_. t') s))"
proof -
  let ?s = "set_group g (Some G') (upd_nt p (\<lambda>_. t') s)"
  have nt: "nt ?s = (nt s)(p := t')" and ng: "ngroups ?s = (ngroups s)(g := Some G')"
    by (simp_all add: set_group_def upd_nt_def)
  have m: "members h ?s = members h s" for h using p t(1) by (auto simp: members_def nt)
  have pm: "p \<in> members g s" using p by (simp add: members_def)
  have "counts N (nt ?s) (members h s) H" if "ngroups ?s h = Some H" for h H
  proof (cases "h = g")
    case True
    then have "H = G'" using that by (simp add: ng)
    then show ?thesis using counts_gap [OF numa_okD(1) [OF ok G] pm gap] True by (simp add: nt)
  next
    case False
    then have "p \<notin> members h s" using p by (simp add: members_def)
    then have "counts N (nt ?s) (members h s) H = counts N (nt s) (members h s) H"
      by (intro counts_cong) (auto simp: nt)
    then show ?thesis using numa_okD(1) [OF ok] that False by (simp add: ng)
  qed
  moreover have "ngroups ?s h \<noteq> None \<and> numa_faults (nt ?s i) \<noteq> None" if "task_numa_group_of (nt ?s i) = Some h" for i h
    using that t p G numa_okD(2,3) [OF ok, of i h] by (auto simp: nt ng split: if_splits)
  ultimately show ?thesis unfolding numa_ok_def m by blast
qed

lemma avg_runtime_same: "numa_get_avg_runtime p s = Some (x, y, s') \<Longrightarrow> same_faults N s s'"
  by (auto simp: numa_get_avg_runtime_def Let_def same_faults_def upd_nt_def fault_at_def split: bind_splits if_splits)

lemma set_group_same:
  assumes "same_faults N s s'"
  shows "same_faults N (set_group g G s) (set_group g G s')"
  using assms by (simp add: same_faults_def set_group_def)

lemma place_task_ok:
  assumes ok: "numa_ok N s" and nodes: "nodes_ok N" and place: "place_task N A p s = Some (r, s')"
  shows "numa_ok N s'"
proof (cases "s' = s")
  case False
  obtain s1 x y z a s3 s4 w
    where s1: "\<exists>q m. s1 = upd_nt p (\<lambda>t. t\<lparr>numa_scan_seq := q, numa_scan_period_max := m\<rparr>) s"
    and av: "average_faults N p s1 = Some (x, y, z, a, s3)"
    and s4: "update_task_scan_period N A p (types_shared a) (types_private a) s3 = Some s4"
    and s': "settle_group N p x z a s4 = Some (w, s')"
    using place False by (auto simp: place_task_def Let_def simp del: split_paired_Ex split: bind_splits if_splits) blast+
  obtain s2 per rtime tot G
    where s2: "numa_get_avg_runtime p s1 = Some (rtime, per, s2)" and G: "group_of p s2 = Some G"
    and pl: "place_nodes N rtime per tot (online_nodes N) (0, None) (0, None)
         \<lparr>acc_task = nt s2 p, acc_group = G, types_shared = 0, types_private = 0, node_faults = 0, node_group_faults = 0\<rparr> = Some (x, y, z, a)"
    and s3: "s3 = upd_nt p (\<lambda>_. acc_task a) s2"
    using av by (auto simp: average_faults_def Let_def simp del: split_paired_Ex split: bind_splits)
  have "same_faults N s s1" using s1 by (auto intro!: plain_upd_same)
  then have ok2: "numa_ok N s2" using ok avg_runtime_same [OF s2] same_faults_ok by blast
  have gap: "acc_gap N \<lparr>acc_task = nt s2 p, acc_group = G, types_shared = 0, types_private = 0, node_faults = 0, node_group_faults = 0\<rparr> a"
    by (rule place_nodes_gap [OF pl]) (use nodes in \<open>simp add: nodes_ok_def\<close>)
  have same: "same_faults N (upd_nt p (\<lambda>_. acc_task a) s2) s4" using update_task_scan_period_same [OF s4] s3 by simp
  have grp: "task_numa_group_of (nt s4 p) = task_numa_group_of (nt s2 p)"
    using same gap by (simp add: same_faults_def acc_gap_def upd_nt_def)
  show ?thesis
  proof (cases "task_numa_group_of (nt s2 p)")
    case None
    then have "numa_ok N (upd_nt p (\<lambda>_. acc_task a) s2)"
      using outsider_ok [OF ok2 None, of "\<lambda>_. acc_task a"] gap by (simp add: acc_gap_def)
    then show ?thesis using same_faults_ok [OF same] s' grp None by (simp add: settle_group_def)
  next
    case (Some g)
    then obtain H where H: "ngroups s2 g = Some H" "G = Some H" using G by (auto simp: group_of_def)
    obtain H' where H': "acc_group a = Some H'" "gap N (nt s2 p) H (acc_task a) H'" using gap H(2) by (auto simp: acc_gap_def)
    have "gap N (nt s2 p) H (acc_task a) (numa_group_count_active_nodes N H')"
      using H'(2) by (simp add: gap_def numa_group_count_active_nodes_def Let_def)
    moreover have "task_numa_group_of (acc_task a) = Some g" "numa_faults (acc_task a) \<noteq> None"
      using gap Some numa_okD(3) [OF ok2 Some] by (auto simp: acc_gap_def)
    ultimately have "numa_ok N (set_group g (Some (numa_group_count_active_nodes N H')) (upd_nt p (\<lambda>_. acc_task a) s2))"
      using gain_ok [OF ok2 Some H(1)] by blast
    moreover have "s' = set_group g (Some (numa_group_count_active_nodes N H')) s4"
      using s' grp Some H'(1) by (auto simp: settle_group_def Let_def split: bind_splits)
    ultimately show ?thesis using same_faults_ok [OF set_group_same [OF same]] by simp
  qed
qed (use ok in simp)

section \<open>Searching moves nothing\<close>

text \<open>The search for a cpu changes the balancing state only.\<close>

definition only_balance :: "numa_state \<Rightarrow> numa_state \<Rightarrow> bool" where
  "only_balance s s' \<longleftrightarrow> nt s' = nt s \<and> ngroups s' = ngroups s \<and> nmm s' = nmm s"

lemma only_balance_same: "only_balance s s' \<Longrightarrow> same_faults N s s'"
  by (simp add: only_balance_def same_faults_def)

lemma balance_move_only: "balance_move n A K e cur imp moveimp s = Some (e', s') \<Longrightarrow> only_balance s s'"
  by (auto simp: balance_move_def Let_def only_balance_def split: bind_splits if_splits option.splits)

lemma task_numa_compare_only: "task_numa_compare n A K N ti gi e s = Some (e', s') \<Longrightarrow> only_balance s s'"
  by (auto simp: task_numa_compare_def Let_def split: if_splits bind_splits dest: balance_move_only)
    (simp_all add: only_balance_def)

lemma find_cpu_loop_only: "find_cpu_loop n A K N ti gi us e s = Some (e', s') \<Longrightarrow> only_balance s s'"
proof (induction us arbitrary: e s)
  case (Cons u us)
  show ?case
  proof (cases "cpus_allowed (task_at (ks (nb s)) (env_p e)) u")
    case True
    then obtain e1 s1 where 1: "task_numa_compare n A K N ti gi (e\<lparr>env_dst_cpu := u\<rparr>) s = Some (e1, s1)"
      and 2: "find_cpu_loop n A K N ti gi us e1 s1 = Some (e', s')"
      using Cons.prems by (auto split: bind_splits)
    show ?thesis using task_numa_compare_only [OF 1] Cons.IH [OF 2] by (simp add: only_balance_def)
  next
    case False
    then show ?thesis using Cons by simp
  qed
qed (simp add: only_balance_def)

lemma task_numa_find_cpu_only: "task_numa_find_cpu n A K N ti gi e s = Some (e', s') \<Longrightarrow> only_balance s s'"
  by (simp add: task_numa_find_cpu_def find_cpu_loop_only)

lemma only_balance_refl [simp]: "only_balance s s"
  by (simp add: only_balance_def)

lemma consider_node_only: "consider_node n A K N nid w e s = Some (w', e', s') \<Longrightarrow> only_balance s s'"
  by (cases w) (auto simp: consider_node_def Let_def dest: task_numa_find_cpu_only split: if_splits bind_splits)

lemma other_nodes_only: "other_nodes n A K N ns w e s = Some (e', s') \<Longrightarrow> only_balance s s'"
proof (induction ns arbitrary: w e s)
  case (Cons nid ns)
  obtain w1 e1 s1 where 1: "consider_node n A K N nid w e s = Some (w1, e1, s1)" and 2: "other_nodes n A K N ns w1 e1 s1 = Some (e', s')"
    using Cons.prems by (auto split: bind_splits)
  show ?case using consider_node_only [OF 1] Cons.IH [OF 2] by (simp add: only_balance_def)
qed simp

lemma numa_search_only:
  assumes "numa_search n A K N p pct s = Some (e, s')"
  shows "only_balance s s'"
proof -
  obtain w t g e0 G e1 s1 where "preferred_env N p pct s = Some (w, t, g, e0)" "group_of p s = Some G"
    and 1: "(if numa_has_capacity e0 then task_numa_find_cpu n A K N t g e0 s else Some (e0, s)) = Some (e1, s1)"
    and 2: "(if best_cpu e1 = None \<or> (case G of None \<Rightarrow> False | Some G \<Rightarrow> sint (active_nodes G) > 1)
        then other_nodes n A K N (online_nodes N) w e1 s1 else Some (e1, s1)) = Some (e, s')"
    using assms unfolding numa_search_def by (auto simp del: split_paired_Ex split: bind_splits)
  have "only_balance s s1" using 1 task_numa_find_cpu_only by (auto split: if_splits)
  moreover have "only_balance s1 s'" using 2 other_nodes_only by (auto split: if_splits)
  ultimately show ?thesis by (simp add: only_balance_def)
qed

section \<open>Groups count their tasks\<close>

text \<open>The core's operations keep the counters, and a new group is at an address not in use.\<close>

definition core_keeps_faults :: "numa_api \<Rightarrow> numa_core \<Rightarrow> bool" where
  "core_keeps_faults N C \<longleftrightarrow>
     (\<forall>p nid s s'. sched_setnuma C p nid s = Some s' \<longrightarrow> same_faults N s s')
     \<and> (\<forall>p u s r s'. migrate_task_to C p u s = Some (r, s') \<longrightarrow> same_faults N s s')
     \<and> (\<forall>p q s r s'. migrate_swap C p q s = Some (r, s') \<longrightarrow> same_faults N s s')
     \<and> (\<forall>s g. kzalloc_group C s = Some g \<longrightarrow> ngroups s g = None)"

lemma task_numa_migrate_same:
  assumes core: "core_keeps_faults N C" and migrate: "task_numa_migrate n A K N C p s = Some (r, s')"
  shows "same_faults N s s'"
proof (cases "sd_numa s (task_cpu (task_at (ks (nb s)) p))")
  case None
  then show ?thesis using migrate by (auto simp: task_numa_migrate_def intro: plain_upd_same)
next
  case (Some d)
  obtain pct e s1 s2 where 1: "numa_search n A K N p pct s = Some (e, s1)"
    and 2: "s2 = s1 \<or> (\<exists>nid. sched_setnuma C p nid s1 = Some s2)"
    and 3: "s' = s2 \<or> (\<exists>per u. migrate_task_to C p u (upd_nt p (\<lambda>t. t\<lparr>numa_scan_period := per\<rparr>) s2) = Some (r, s'))
      \<or> (\<exists>per q. migrate_swap C p q (upd_nt p (\<lambda>t. t\<lparr>numa_scan_period := per\<rparr>) s2) = Some (r, s'))"
    using migrate Some
    by (auto simp: task_numa_migrate_def Let_def simp del: split_paired_Ex split: bind_splits option.splits if_splits) blast+
  have "same_faults N s s1" using only_balance_same [OF numa_search_only [OF 1]] .
  moreover have "same_faults N s1 s2" using 2 core by (auto simp: core_keeps_faults_def)
  moreover have "same_faults N s2 (upd_nt p (\<lambda>t. t\<lparr>numa_scan_period := per\<rparr>) s2)" for per by (rule plain_upd_same) simp
  moreover have "same_faults N (upd_nt p (\<lambda>t. t\<lparr>numa_scan_period := per\<rparr>) s2) s'" if "s' \<noteq> s2"
      "migrate_task_to C p u (upd_nt p (\<lambda>t. t\<lparr>numa_scan_period := per\<rparr>) s2) = Some (r, s') \<or> migrate_swap C p q (upd_nt p (\<lambda>t. t\<lparr>numa_scan_period := per\<rparr>) s2) = Some (r, s')" for per u q
    using that core unfolding core_keeps_faults_def by blast
  ultimately show ?thesis using 3 same_faults_trans by (metis (no_types, lifting))
qed

lemma numa_migrate_preferred_same:
  assumes "core_keeps_faults N C" and "numa_migrate_preferred n A K N C p s = Some s'"
  shows "same_faults N s s'"
proof -
  have "same_faults N s (upd_nt p (\<lambda>t. t\<lparr>numa_migrate_retry := x\<rparr>) s)" for x by (rule plain_upd_same) simp
  then show ?thesis
    using assms(2) task_numa_migrate_same [OF assms(1)] same_faults_trans
    by (auto simp: numa_migrate_preferred_def Let_def split: if_splits) blast
qed

lemma record_fault_same:
  assumes "record_fault N p mem_node cpu_node priv is_near pages flags s = Some s'"
  shows "same_faults N s s'"
proof -
  have ne: "k < 4 * nr_node_ids N \<Longrightarrow> k \<noteq> task_faults_idx N NUMA_MEMBUF nid priv \<and> k \<noteq> task_faults_idx N NUMA_CPUBUF nid priv" for k nid
    by (simp add: task_faults_idx_def)
  obtain f f' h where "numa_faults (nt s p) = Some f" "s' = upd_nt p h s"
      "task_numa_group_of (h (nt s p)) = task_numa_group_of (nt s p)" "total_numa_faults (h (nt s p)) = total_numa_faults (nt s p)"
      "numa_faults (h (nt s p)) = Some f'" "\<forall>k<4 * nr_node_ids N. f' k = f k"
    using assms ne by (auto simp: record_fault_def Let_def split: bind_splits)
  then show ?thesis by (simp add: same_faults_def upd_nt_def fault_at_def)
qed

lemma fresh_faults_ok:
  assumes "numa_ok N s" and "numa_faults (nt s p) = None"
  shows "numa_ok N (fresh_faults p s)"
proof -
  have "task_numa_group_of (nt s p) = None" using numa_okD(3) [OF assms(1), of p] assms(2) by (cases "task_numa_group_of (nt s p)") auto
  then show ?thesis unfolding fresh_faults_def by (intro outsider_ok assms(1)) simp_all
qed

lemma task_numa_placement_ok:
  assumes ok: "numa_ok N s" and env: "nodes_ok N" "core_keeps_faults N C" and place: "task_numa_placement n A K N C p s = Some s'"
  shows "numa_ok N s'"
proof -
  obtain r s1 where 1: "place_task N A p s = Some (r, s1)"
    and 2: "s' = s1 \<or> (\<exists>nid s2. (s2 = s1 \<or> sched_setnuma C p nid s1 = Some s2) \<and> (s' = s2 \<or> numa_migrate_preferred n A K N C p s2 = Some s'))"
    using place by (auto simp: task_numa_placement_def split: bind_splits option.splits if_splits) blast+
  have "same_faults N s1 s'"
    using 2 env(2) numa_migrate_preferred_same [OF env(2)] same_faults_trans unfolding core_keeps_faults_def
    by (metis same_faults_refl)
  then show ?thesis using place_task_ok [OF ok env(1) 1] same_faults_ok by blast
qed

lemma task_numa_fault_ok:
  assumes ok: "numa_ok N s" and env: "nodes_ok N" "core_keeps_faults N C" and fault: "task_numa_fault n A K N C c mem_node pages flags s = Some s'"
  shows "numa_ok N s'"
proof (cases "s' = s")
  case False
  define p where "p = rq_curr (rq_at (ks (nb s)) (this_cpu K))"
  define s1 where "s1 = (if numa_faults (nt s p) = None then fresh_faults p s else s)"
  obtain priv s2 b s3 s4 cpu_node
    where 2: "fault_kind N C p c flags s1 = Some (priv, s2)"
    and 3: "task_numa_placement n A K N C p s2 = Some s3"
    and 4: "(if time_after (jiffies (ks (nb s3))) (numa_migrate_retry (nt s3 p)) then numa_migrate_preferred n A K N C p s3 else Some s3) = Some s4"
    and 5: "record_fault N p mem_node cpu_node (of_bool priv) b pages flags s4 = Some s'"
    using fault False unfolding task_numa_fault_def Let_def p_def [symmetric] s1_def [symmetric]
    by (auto simp del: split_paired_Ex split: bind_splits if_split_asm)
  have "numa_ok N s1" using ok fresh_faults_ok by (simp add: s1_def)
  moreover have "s2 = s1 \<or> task_numa_group N p c (flags AND TNF_SHARED \<noteq> 0) False (kzalloc_group C s1) s1 = Some (priv, s2)"
    using 2 by (auto simp: fault_kind_def split: if_splits)
  ultimately have "numa_ok N s2"
    using task_numa_group_ok env(2) unfolding core_keeps_faults_def by metis
  then have "numa_ok N s3" by (rule task_numa_placement_ok [OF _ env 3])
  then have "numa_ok N s4" using 4 numa_migrate_preferred_same [OF env(2)] same_faults_ok by (metis option.inject)
  then show ?thesis using record_fault_same [OF 5] same_faults_ok by blast
qed (use ok in simp)

text \<open>The life of NUMA balancing: faults of the running tasks, exiting tasks, ticks, and changes elsewhere.\<close>

inductive numa_step :: "nat \<Rightarrow> lb_api \<Rightarrow> numa_api \<Rightarrow> numa_core \<Rightarrow> numa_state \<Rightarrow> numa_state \<Rightarrow> bool"
  for n :: nat and A :: lb_api and N :: numa_api and C :: numa_core where
  fault: "task_numa_fault n A K N C c mem_node pages flags s = Some s' \<Longrightarrow> numa_step n A N C s s'"
| free: "task_numa_free N p s = Some s' \<Longrightarrow> numa_step n A N C s s'"
| tick: "task_tick_numa N p s = Some s' \<Longrightarrow> numa_step n A N C s s'"
| outside: "same_faults N s s' \<Longrightarrow> numa_step n A N C s s'"

inductive_cases numa_stepE: "numa_step n A N C s s'"

inductive numa_reachable :: "nat \<Rightarrow> lb_api \<Rightarrow> numa_api \<Rightarrow> numa_core \<Rightarrow> numa_state \<Rightarrow> bool"
  for n :: nat and A :: lb_api and N :: numa_api and C :: numa_core where
  start: "(\<And>g. ngroups s g = None) \<Longrightarrow> (\<And>i. task_numa_group_of (nt s i) = None) \<Longrightarrow> numa_reachable n A N C s"
| step: "numa_reachable n A N C s \<Longrightarrow> numa_step n A N C s s' \<Longrightarrow> numa_reachable n A N C s'"

lemma task_tick_numa_same: "task_tick_numa N p s = Some s' \<Longrightarrow> same_faults N s s'"
  by (auto simp: task_tick_numa_def Let_def same_faults_def upd_nt_def fault_at_def split: option.splits if_splits bind_splits)

lemma numa_step_ok:
  assumes "numa_step n A N C s s'" and "numa_ok N s" and "nodes_ok N" and "core_keeps_faults N C"
  shows "numa_ok N s'"
proof (rule numa_stepE [OF assms(1)])
  show "task_numa_fault n A K N C c mem_node pages flags s = Some s' \<Longrightarrow> ?thesis" for K c mem_node pages flags
    by (rule task_numa_fault_ok [OF assms(2-4)])
  show "task_numa_free N p s = Some s' \<Longrightarrow> ?thesis" for p
    by (rule task_numa_free_ok [OF assms(2)])
  show "task_tick_numa N p s = Some s' \<Longrightarrow> ?thesis" for p
    using same_faults_ok [OF task_tick_numa_same] assms(2) by blast
  show "same_faults N s s' \<Longrightarrow> ?thesis"
    using same_faults_ok assms(2) by blast
qed

text \<open>C21: in every state that faults, exits, ticks and changes elsewhere lead to from a start without groups, each group
  has as many references and tasks as tasks point to it, its counters are the sums of its tasks' counters, and the group
  of a task has not been freed.\<close>

theorem groups_count_their_tasks:
  assumes "numa_reachable n A N C s" and "nodes_ok N" and "core_keeps_faults N C"
  shows "(\<forall>g G. ngroups s g = Some G \<longrightarrow> refcount G = card (members g s) \<and> nr_tasks G = word_of_nat (card (members g s))
            \<and> total_faults G = (\<Sum>i\<in>members g s. total_numa_faults (nt s i))
            \<and> (\<forall>k<4 * nr_node_ids N. faults G k = (\<Sum>i\<in>members g s. fault_at (nt s i) k)))
       \<and> (\<forall>i g. task_numa_group_of (nt s i) = Some g \<longrightarrow> ngroups s g \<noteq> None)"
proof -
  have "numa_ok N s"
    using assms(1)
  proof (induction rule: numa_reachable.induct)
    case (start s)
    then show ?case by (simp add: numa_ok_def)
  next
    case (step s s')
    then show ?case using numa_step_ok assms(2,3) by blast
  qed
  then show ?thesis by (auto simp: numa_ok_def counts_def)
qed

lemma plain_numa_core_keeps: "core_keeps_faults plain_numa plain_numa_core"
  by (auto simp: core_keeps_faults_def plain_numa_core_def same_faults_def upd_nt_def fault_at_def split: if_splits)

theorem groups_count_their_tasks_witness:
  "\<exists>s. task_numa_fault 2 plain_core plain_api plain_numa plain_numa_core 7 1 1 0 two_nodes = Some s
     \<and> (\<exists>G. ngroups s 0 = Some G \<and> refcount G = card (members 0 s) \<and> total_faults G = (\<Sum>i\<in>members 0 s. total_numa_faults (nt s i)))"
proof -
  obtain s G where s: "task_numa_fault 2 plain_core plain_api plain_numa plain_numa_core 7 1 1 0 two_nodes = Some s" and G: "ngroups s 0 = Some G"
    using two_nodes_fault by auto
  have "numa_reachable 2 plain_core plain_numa plain_numa_core two_nodes"
    by (rule numa_reachable.start) (simp_all add: two_nodes_def plain_numa_task_def)
  then have "numa_reachable 2 plain_core plain_numa plain_numa_core s"
    by (rule numa_reachable.step) (rule numa_step.fault [OF s])
  moreover have "nodes_ok plain_numa" by (simp add: nodes_ok_def plain_numa_def)
  ultimately show ?thesis using groups_count_their_tasks [of 2 plain_core plain_numa plain_numa_core s] plain_numa_core_keeps s G by blast
qed

end
