(* ===== verification/Numa_Target.thy ===== *)
theory Numa_Target
  imports Numa_Props Wakeup_Props
begin

text \<open>
  Where NUMA balancing sends a task: the search keeps to cpus the task may use and never proposes a loss.
\<close>

section \<open>The search keeps to what is allowed\<close>

lemma h_load_up_tasks: "h_load_up n i c s = Some (b, c', s') \<Longrightarrow> task_at s' = task_at s"
  by (induction n i c s rule: h_load_up.induct) (auto simp: Let_def upd_cfs_def split: if_splits)

lemma h_load_down_tasks: "h_load_down n c s = Some s' \<Longrightarrow> task_at s' = task_at s"
proof (induction n arbitrary: c s)
  case 0
  then show ?case by (subst (asm) h_load_down.simps) (auto split: option.splits)
next
  case (Suc n)
  show ?case
  proof (cases "h_load_next (cfs_at s c)")
    case None
    then show ?thesis using Suc.prems by (subst (asm) h_load_down.simps) simp
  next
    case (Some i)
    then obtain g f where "h_load_down n g (upd_cfs g f s) = Some s'"
      using Suc.prems by (subst (asm) h_load_down.simps) (auto simp: Let_def split: if_splits bind_splits)
    then show ?thesis using Suc.IH by (fastforce simp: upd_cfs_def)
  qed
qed

lemma task_h_load_tasks:
  assumes "task_h_load n i s = Some (l, s')"
  shows "task_at s' = task_at s"
proof -
  obtain c where "update_cfs_rq_h_load n c s = Some s'" using assms by (auto simp: task_h_load_def Let_def split: bind_splits if_splits)
  moreover have "task_at (upd_cfs c f s) = task_at s" for c f s by (simp add: upd_cfs_def)
  ultimately show ?thesis
    by (auto simp: update_cfs_rq_h_load_def Let_def dest!: h_load_up_tasks h_load_down_tasks split: if_splits bind_splits)
qed

text \<open>What holds of the best cpu and task found, for the tasks \<open>T\<close>.\<close>

definition search_ok :: "(se_id \<Rightarrow> task_struct) \<Rightarrow> numa_env \<Rightarrow> numa_env \<Rightarrow> bool" where
  "search_ok T e0 e \<longleftrightarrow> env_p e = env_p e0 \<and> env_src_cpu e = env_src_cpu e0 \<and> env_src_nid e = env_src_nid e0 \<and> 0 \<le> sint (best_imp e)
     \<and> (\<forall>u. best_cpu e = Some u \<longrightarrow> cpus_allowed (T (env_p e0)) u \<or> u = task_cpu (T (env_p e0)))
     \<and> (\<forall>q. best_task e = Some q \<longrightarrow> best_cpu e \<noteq> None \<and> cpus_allowed (T q) (env_src_cpu e0))"

lemma assign_ok:
  assumes "search_ok T e0 e" and "0 \<le> sint imp"
    and "cpus_allowed (T (env_p e0)) (env_dst_cpu e) \<or> env_dst_cpu e = task_cpu (T (env_p e0))"
    and "\<And>q. c = Some q \<Longrightarrow> cpus_allowed (T q) (env_src_cpu e0)"
  shows "search_ok T e0 (task_numa_assign e c imp)"
  using assms by (simp add: search_ok_def task_numa_assign_def)

lemma sint_pred:
  fixes x :: s64
  assumes "0 < sint x"
  shows "sint (x - 1) = sint x - 1"
  using sint_minus_uint [of x 1] assms by simp

lemma balance_move_ok:
  assumes move: "balance_move n A K e c imp moveimp s = Some (e', s')" and T: "task_at (ks (nb s)) = T" and e: "search_ok T e0 e"
    and dst: "cpus_allowed (T (env_p e0)) (env_dst_cpu e)" and c: "\<And>q. c = Some q \<Longrightarrow> cpus_allowed (T q) (env_src_cpu e0)"
  shows "search_ok T e0 e' \<and> task_at (ks (nb s')) = T"
proof -
  have p: "env_p e = env_p e0" and pos: "0 \<le> sint (best_imp e)" using e by (simp_all add: search_ok_def)
  obtain load k where k: "task_h_load n (env_p e) (ks (nb s)) = Some (load, k)" using move by (auto simp: balance_move_def split: bind_splits)
  define s1 where "s1 = s\<lparr>nb := (nb s)\<lparr>ks := k\<rparr>\<rparr>"
  have T1: "task_at (ks (nb s1)) = T" using task_h_load_tasks [OF k] T by (simp add: s1_def)
  let ?d = "ns_load (dst_stats e) + load" and ?r = "ns_load (src_stats e) - load"
  have eq: "(if sint moveimp > sint imp \<and> sint moveimp > sint (best_imp e) \<and> \<not> load_too_imbalanced ?r ?d e
       then Some (task_numa_assign e None (moveimp - 1), s1)
     else if sint imp \<le> sint (best_imp e) then Some (e, s1)
     else (case c of
         Some q \<Rightarrow> do {
           (l, k) \<leftarrow> task_h_load n q (ks (nb s1));
           Some (if load_too_imbalanced (?r + l) (?d - l) e then e else task_numa_assign e (Some q) imp, s1\<lparr>nb := (nb s1)\<lparr>ks := k\<rparr>\<rparr>)
         }
       | None \<Rightarrow> if load_too_imbalanced ?r ?d e then Some (e, s1)
           else do {
             (u, b) \<leftarrow> select_idle_sibling n A K (env_p e) (env_dst_cpu e) (nb s1);
             Some (task_numa_assign (e\<lparr>env_dst_cpu := u\<rparr>) None imp, s1\<lparr>nb := b\<rparr>)
           })) = Some (e', s')" (is "(if ?A then _ else if ?B then _ else ?R) = _")
    using move by (simp only: balance_move_def k bind.simps case_prod_conv Let_def flip: s1_def)
  show ?thesis
  proof (cases ?A)
    case True
    then have "sint (moveimp - 1) \<ge> 0" using sint_pred [of moveimp] pos by simp
    then show ?thesis using assign_ok [OF e, of "moveimp - 1" None] dst T1 eq True by auto
  next
    case A: False
    show ?thesis
    proof (cases ?B)
      case True
      then show ?thesis using e T1 eq A by auto
    next
      case B: False
      then have R: "?R = Some (e', s')" and imp: "0 \<le> sint imp" using eq A pos by (simp_all only: if_False simp_thms)
      show ?thesis
      proof (cases c)
        case (Some q)
        then obtain l k' where l: "task_h_load n q (ks (nb s1)) = Some (l, k')" and e': "e' = e \<or> e' = task_numa_assign e (Some q) imp"
          and s': "s' = s1\<lparr>nb := (nb s1)\<lparr>ks := k'\<rparr>\<rparr>"
          using R by (auto split: bind_splits)
        have "task_at (ks (nb s')) = T" using task_h_load_tasks [OF l] T1 s' by simp
        moreover have "search_ok T e0 e'" using e' e assign_ok [OF e imp, of "Some q"] dst c Some by auto
        ultimately show ?thesis by simp
      next
        case None
        show ?thesis
        proof (cases "load_too_imbalanced ?r ?d e")
          case True
          then show ?thesis using R None e T1 by simp
        next
          case False
          then obtain u b where u: "select_idle_sibling n A K (env_p e) (env_dst_cpu e) (nb s1) = Some (u, b)"
            and e': "e' = task_numa_assign (e\<lparr>env_dst_cpu := u\<rparr>) None imp" and s': "s' = s1\<lparr>nb := b\<rparr>"
            using R None by (auto split: bind_splits)
          have "ks b = ks (nb s1)" using idle_sibling_keeps [OF u] by simp
          moreover have "cpus_allowed (T (env_p e0)) u \<or> u = task_cpu (T (env_p e0))" using idle_sibling_sources [OF u] dst T1 p by auto
          moreover have "search_ok T e0 (e\<lparr>env_dst_cpu := u\<rparr>)" using e by (simp add: search_ok_def)
          ultimately show ?thesis using assign_ok [of T e0 "e\<lparr>env_dst_cpu := u\<rparr>" imp None] e' s' imp T1 by simp
        qed
      qed
    qed
  qed
qed

lemma task_numa_compare_ok:
  assumes cmp: "task_numa_compare n A K N ti gi e s = Some (e', s')" and T: "task_at (ks (nb s)) = T" and e: "search_ok T e0 e"
    and dst: "cpus_allowed (T (env_p e0)) (env_dst_cpu e)"
  shows "search_ok T e0 e' \<and> task_at (ks (nb s')) = T"
proof -
  define cur where "cur = rq_curr (rq_at (ks (nb s)) (env_dst_cpu e))"
  have src: "env_src_cpu e = env_src_cpu e0" and pos: "0 \<le> sint (best_imp e)" using e by (simp_all add: search_ok_def)
  let ?m = "if task_numa_group_of (nt s (env_p e)) \<noteq> None then gi else ti"
  show ?thesis
  proof (cases "stopping cur s")
    case True
    then have "(e', s') = (e, s) \<or> balance_move n A K e None ?m ?m s = Some (e', s')"
      using cmp by (simp only: task_numa_compare_def Let_def if_True simp_thms flip: cur_def) (metis option.inject)
    then show ?thesis using balance_move_ok [OF _ T e dst] e T by blast
  next
    case S: False
    show ?thesis
    proof (cases "cur = env_p e \<or> \<not> cpus_allowed (task_at (ks (nb s)) cur) (env_src_cpu e)")
      case True
      then show ?thesis using cmp S e T by (simp only: task_numa_compare_def Let_def if_True if_False simp_thms flip: cur_def) simp
    next
      case False
      then have allowed: "cpus_allowed (T cur) (env_src_cpu e0)" using T src by simp
      obtain imp where "swap_imp N e cur ti gi s = Some imp" and
        "(if sint imp \<le> sint (best_imp e) \<and> sint ?m \<le> sint (best_imp e) then Some (e, s)
          else if sint imp > sint (best_imp e) \<and> rq_nr_running (rq_at (ks (nb s)) (env_src_cpu e)) = 1
              \<and> rq_nr_running (rq_at (ks (nb s)) (env_dst_cpu e)) = 1
            then Some (task_numa_assign e (Some cur) imp, s)
          else balance_move n A K e (Some cur) imp ?m s) = Some (e', s')"
        using cmp S False unfolding task_numa_compare_def Let_def cur_def [symmetric]
        by (simp only: if_False simp_thms bind_eq_Some_conv) blast
      then have "(e', s') = (e, s) \<or> (sint imp > sint (best_imp e) \<and> (e', s') = (task_numa_assign e (Some cur) imp, s))
          \<or> balance_move n A K e (Some cur) imp ?m s = Some (e', s')"
        by (metis option.inject)
      moreover have "search_ok T e0 (task_numa_assign e (Some cur) imp)" if "sint imp > sint (best_imp e)"
        using assign_ok [OF e, of imp "Some cur"] pos that dst allowed by simp
      ultimately show ?thesis using balance_move_ok [OF _ T e dst, of n A K "Some cur"] e T allowed by blast
    qed
  qed
qed

lemma find_cpu_loop_ok:
  "find_cpu_loop n A K N ti gi us e s = Some (e', s') \<Longrightarrow> task_at (ks (nb s)) = T \<Longrightarrow> search_ok T e0 e \<Longrightarrow>
     search_ok T e0 e' \<and> task_at (ks (nb s')) = T"
proof (induction us arbitrary: e s)
  case (Cons u us)
  show ?case
  proof (cases "cpus_allowed (task_at (ks (nb s)) (env_p e)) u")
    case True
    then obtain e1 s1 where 1: "task_numa_compare n A K N ti gi (e\<lparr>env_dst_cpu := u\<rparr>) s = Some (e1, s1)"
      and 2: "find_cpu_loop n A K N ti gi us e1 s1 = Some (e', s')"
      using Cons.prems(1) by (auto split: bind_splits)
    have "search_ok T e0 (e\<lparr>env_dst_cpu := u\<rparr>)" "env_p e = env_p e0" using Cons.prems(3) by (simp_all add: search_ok_def)
    then have "search_ok T e0 e1 \<and> task_at (ks (nb s1)) = T"
      using task_numa_compare_ok [OF 1 Cons.prems(2)] True Cons.prems(2) by simp
    then show ?thesis using Cons.IH [OF 2] by blast
  next
    case False
    then show ?thesis using Cons by simp
  qed
qed simp

lemma bind_Some_E:
  assumes "Option.bind x f = Some y"
  obtains a where "x = Some a" and "f a = Some y"
  using assms by (auto split: bind_splits)

lemma consider_node_ok:
  assumes "consider_node n A K N nid w e s = Some (w', e', s')" and "task_at (ks (nb s)) = T" and "search_ok T e0 e"
  shows "search_ok T e0 e' \<and> task_at (ks (nb s')) = T"
proof -
  obtain tw gw where w: "w = (tw, gw)" by (cases w)
  have keep: "search_ok T e0 (e\<lparr>env_dist := d, env_dst_nid := i, dst_stats := st\<rparr>)" for d i st
    using assms(3) by (simp add: search_ok_def)
  show ?thesis
  proof (cases "nid = env_src_nid e \<or> numa_preferred_nid (nt s (env_p e)) = Some nid")
    case True
    then show ?thesis using assms by (simp add: consider_node_def)
  next
    case False
    let ?dist = "node_distance N (env_src_nid e) (env_dst_nid e)"
    obtain tw' gw' t g where
      "(if sint (t - tw') < 0 \<and> sint (g - gw') < 0 then Some ((tw', gw'), e, s)
        else do {
          stats \<leftarrow> update_numa_stats N nid (ks (nb s));
          let e = e\<lparr>env_dist := ?dist, env_dst_nid := nid, dst_stats := stats\<rparr>;
          (e, s) \<leftarrow> (if numa_has_capacity e then task_numa_find_cpu n A K N (t - tw') (g - gw') e s else Some (e, s));
          Some ((tw', gw'), e, s)
        }) = Some (w', e', s')"
      using assms(1) False unfolding consider_node_def Let_def if_not_P [OF False]
      by (elim bind_Some_E) (clarify, elim bind_Some_E, blast)
    then consider "(e', s') = (e, s)"
      | st e1 where "e1 = e\<lparr>env_dist := ?dist, env_dst_nid := nid, dst_stats := st\<rparr>"
          "(e', s') = (e1, s) \<or> task_numa_find_cpu n A K N (t - tw') (g - gw') e1 s = Some (e', s')"
      by (simp only: Let_def split: if_splits) (auto split: bind_splits if_splits)
    then show ?thesis
    proof cases
      case 1
      then show ?thesis using assms by simp
    next
      case (2 st e1)
      then have "search_ok T e0 e1" using keep by simp
      then show ?thesis using 2(2) find_cpu_loop_ok [OF _ assms(2)] assms(2) by (auto simp: task_numa_find_cpu_def)
    qed
  qed
qed

lemma other_nodes_ok:
  "other_nodes n A K N ns w e s = Some (e', s') \<Longrightarrow> task_at (ks (nb s)) = T \<Longrightarrow> search_ok T e0 e \<Longrightarrow> search_ok T e0 e' \<and> task_at (ks (nb s')) = T"
proof (induction ns arbitrary: w e s)
  case (Cons nid ns)
  obtain w1 e1 s1 where 1: "consider_node n A K N nid w e s = Some (w1, e1, s1)" and 2: "other_nodes n A K N ns w1 e1 s1 = Some (e', s')"
    using Cons.prems(1) by (auto split: bind_splits)
  show ?case using consider_node_ok [OF 1 Cons.prems(2,3)] Cons.IH [OF 2] by blast
qed simp

text \<open>C22: the search of NUMA balancing proposes only cpus the task is allowed on (or its own), proposes an exchange only with a
  task that is allowed on the cpu left, and never at a loss.\<close>

theorem numa_target_allowed:
  assumes "numa_search n A K N p pct s = Some (e, s')"
  shows "0 \<le> sint (best_imp e)
    \<and> (\<forall>u. best_cpu e = Some u \<longrightarrow> cpus_allowed (task_at (ks (nb s)) p) u \<or> u = task_cpu (task_at (ks (nb s)) p))
    \<and> (\<forall>q. best_task e = Some q \<longrightarrow> best_cpu e \<noteq> None \<and> cpus_allowed (task_at (ks (nb s)) q) (task_cpu (task_at (ks (nb s)) p)))"
proof -
  let ?T = "task_at (ks (nb s))"
  obtain w t g e0 G e1 s1 where e0: "preferred_env N p pct s = Some (w, t, g, e0)" and "group_of p s = Some G"
    and 1: "(if numa_has_capacity e0 then task_numa_find_cpu n A K N t g e0 s else Some (e0, s)) = Some (e1, s1)"
    and 2: "(if best_cpu e1 = None \<or> (case G of None \<Rightarrow> False | Some G \<Rightarrow> sint (active_nodes G) > 1)
        then other_nodes n A K N (online_nodes N) w e1 s1 else Some (e1, s1)) = Some (e, s')"
    using assms unfolding numa_search_def by (auto simp del: split_paired_Ex split: bind_splits)
  have env: "env_p e0 = p" "env_src_cpu e0 = task_cpu (?T p)" "best_imp e0 = 0" "best_cpu e0 = None" "best_task e0 = None"
    using e0 by (auto simp: preferred_env_def Let_def split: bind_splits)
  have "search_ok ?T e0 e0" by (simp add: search_ok_def env)
  then have "search_ok ?T e0 e1 \<and> task_at (ks (nb s1)) = ?T"
    using 1 find_cpu_loop_ok [of n A K N t g _ e0 s e1 s1 ?T e0] by (auto simp: task_numa_find_cpu_def split: if_splits)
  then have "search_ok ?T e0 e" using 2 other_nodes_ok [of n A K N _ w e1 s1 e s' ?T e0] by (auto split: if_splits)
  then show ?thesis by (simp add: search_ok_def env)
qed

theorem numa_target_allowed_witness:
  "\<exists>e s'. numa_search 2 plain_core plain_api plain_numa 7 112 two_nodes = Some (e, s') \<and> best_cpu e = Some 0 \<and> best_task e = Some 3
     \<and> 0 \<le> sint (best_imp e) \<and> (cpus_allowed (task_at (ks (nb two_nodes)) 7) 0 \<or> 0 = task_cpu (task_at (ks (nb two_nodes)) 7))
     \<and> cpus_allowed (task_at (ks (nb two_nodes)) 3) (task_cpu (task_at (ks (nb two_nodes)) 7))"
proof -
  obtain e s' where e: "numa_search 2 plain_core plain_api plain_numa 7 112 two_nodes = Some (e, s')" "best_cpu e = Some 0" "best_task e = Some 3"
    using two_nodes_search by auto
  then show ?thesis using numa_target_allowed [OF e(1)] by blast
qed

end
