(* ===== verification/Numa_Scan.thy ===== *)
theory Numa_Scan
  imports Two_Nodes
begin

text \<open>
  How the scan period follows the locality of the faults, for the periods and counts at which its arithmetic does not wrap.
\<close>

section \<open>The scan period\<close>

text \<open>The words of \<open>period_change\<close> as integers: the share of local accesses in tenths, and that of private ones.\<close>

lemma sint_word_of_int_s32: "- 2147483648 \<le> k \<Longrightarrow> k < 2147483648 \<Longrightarrow> sint (word_of_int k :: s32) = k"
  by (simp add: sint_sbintrunc' signed_take_bit_int_eq_self)

lemma u64_of_int: "0 \<le> k \<Longrightarrow> k < 18446744073709551616 \<Longrightarrow> uint (word_of_int k :: ulong) = k"
  by (simp add: uint_word_of_int)

lemma u32_of_int: "0 \<le> k \<Longrightarrow> k < 4294967296 \<Longrightarrow> uint (word_of_int k :: u32) = k"
  by (simp add: uint_word_of_int)

lemma ratio_of_hits:
  fixes hits misses :: ulong
  assumes "uint hits + uint misses < 2 ^ 60"
  shows "(ucast (hits * 10 div (hits + misses)) :: s32) = word_of_int (uint hits * 10 div (uint hits + uint misses))"
proof -
  have "uint hits + uint misses < 1152921504606846976" using assms by simp
  moreover have "0 \<le> uint misses" by (rule uint_ge_0)
  ultimately have "uint hits + uint misses < 18446744073709551616" and "uint hits * 10 < 18446744073709551616" by linarith+
  then have "uint (hits + misses) = uint hits + uint misses" and "uint (hits * 10) = uint hits * 10"
    by (simp_all add: uint_word_ariths)
  then have "uint (hits * 10 div (hits + misses)) = uint hits * 10 div (uint hits + uint misses)" by (simp add: uint_div_distrib)
  then show ?thesis by (metis ucast_eq)
qed

lemma int_div_less:
  fixes x c k :: int
  assumes "0 < c"
  shows "x div c < k \<longleftrightarrow> x < k * c"
proof
  assume "x div c < k"
  then have "(x div c + 1) * c \<le> k * c" using assms by (intro mult_right_mono) simp_all
  moreover have "x < (x div c + 1) * c" using div_mult_mod_eq [of x c] pos_mod_bound [OF assms, of x] unfolding distrib_right by linarith
  ultimately show "x < k * c" by simp
next
  assume x: "x < k * c"
  show "x div c < k"
  proof (rule ccontr)
    assume "\<not> x div c < k"
    then have "k * c \<le> (x div c) * c" using assms by (intro mult_right_mono) simp_all
    moreover have "(x div c) * c \<le> x" using assms div_mult_mod_eq [of x c] pos_mod_sign [of c x] by linarith
    ultimately show False using x by simp
  qed
qed

lemma tenths:
  fixes a b :: int
  assumes "0 \<le> a" "0 \<le> b" "0 < a + b"
  shows "0 \<le> a * 10 div (a + b)" and "a * 10 div (a + b) \<le> 10" and "7 \<le> a * 10 div (a + b) \<longleftrightarrow> 7 * (a + b) \<le> 10 * a"
proof -
  show "0 \<le> a * 10 div (a + b)" using assms by (simp add: pos_imp_zdiv_nonneg_iff)
  have "a * 10 div (a + b) \<le> 10 * (a + b) div (a + b)" by (rule zdiv_mono1) (use assms in simp_all)
  also have "\<dots> = 10" by (rule nonzero_mult_div_cancel_right) (use assms in simp)
  finally show "a * 10 div (a + b) \<le> 10" .
  show "7 \<le> a * 10 div (a + b) \<longleftrightarrow> 7 * (a + b) \<le> 10 * a"
    using int_div_less [of "a + b" "a * 10" 7] assms(3) by linarith
qed

lemma private_share:
  fixes priv shared :: ulong
  assumes "uint priv + uint shared < 2 ^ 58" and "div_round_up (priv * 10) (priv + shared + 1) = Some r"
  shows "uint r \<le> 10"
proof -
  let ?p = "uint priv" and ?s = "uint shared"
  have e: "priv + shared + 1 = word_of_int (?p + ?s + 1)" "priv * 10 + (priv + shared + 1) - 1 = word_of_int (?p * 10 + ?p + ?s)"
    by (simp_all flip: wi_hom_add wi_hom_mult add: algebra_simps)
  have "?p + ?s < 288230376151711744" using assms(1) by simp
  moreover have "0 \<le> ?p" and "0 \<le> ?s" by (rule uint_ge_0)+
  ultimately have "?p + ?s + 1 < 18446744073709551616" "?p * 10 + ?p + ?s < 18446744073709551616" by linarith+
  then have "uint (priv + shared + 1) = ?p + ?s + 1" and "uint (priv * 10 + (priv + shared + 1) - 1) = ?p * 10 + ?p + ?s"
    by (subst e, intro u64_of_int; simp)+
  then have "uint r = (?p * 10 + ?p + ?s) div (?p + ?s + 1)"
    using assms(2) by (auto simp: div_round_up_def uint_div_distrib split: if_splits)
  also have "\<dots> < 11"
  proof (subst int_div_less)
    show "0 < ?p + ?s + 1" using \<open>0 \<le> ?p\<close> \<open>0 \<le> ?s\<close> by linarith
    show "?p * 10 + ?p + ?s < 11 * (?p + ?s + 1)" using \<open>0 \<le> ?s\<close> unfolding distrib_left by linarith
  qed
  finally show ?thesis by simp
qed

lemma period_slot_uint:
  fixes per :: u32
  assumes "uint per \<le> 2 ^ 25"
  shows "uint ((per + 10 - 1) div 10) = (uint per + 9) div 10"
proof -
  have "uint (per + 10 - 1) = uint per + 9" using assms by (simp add: uint_word_ariths)
  then show ?thesis by (simp add: uint_div_distrib)
qed

text \<open>With seven tenths of the accesses local the change is one to three tenths of the period, rounded up.\<close>

lemma period_grows:
  assumes change: "period_change per misses hits shared priv = Some d" and small: "uint hits + uint misses < 2 ^ 60" "uint per \<le> 2 ^ 25"
    and hits: "7 * (uint hits + uint misses) \<le> 10 * uint hits"
  shows "uint per + (uint per + 9) div 10 \<le> uint (per + d)" and "uint (per + d) \<le> uint per + 3 * ((uint per + 9) div 10)"
proof -
  define q where "q = uint hits * 10 div (uint hits + uint misses)"
  define slot where "slot = (uint per + 9) div 10"
  have ne: "hits + misses \<noteq> 0" using change by (auto simp: period_change_def split: if_splits)
  have pos: "0 < uint hits + uint misses" using ne by (metis add_nonneg_eq_0_iff add_nonneg_nonneg add.right_neutral less_le uint_0_iff uint_ge_0)
  have q: "7 \<le> q" "q \<le> 10" using tenths [of "uint hits" "uint misses"] pos hits by (simp_all add: q_def)
  have r: "(ucast (hits * 10 div (hits + misses)) :: s32) = word_of_int q" using ratio_of_hits [OF small(1)] by (simp add: q_def)
  have sq: "sint (word_of_int q :: s32) = q" using q by (simp add: sint_word_of_int_s32)
  have ps: "(per + 10 - 1) div 10 = word_of_int slot" using period_slot_uint [OF small(2)] by (metis slot_def word_of_int_uint)
  have ps: "(9 + per) div 10 = word_of_int slot" using ps by simp
  define k where "k = (if q = 7 then 1 else q - 7)"
  have q7: "((word_of_int q :: s32) - 7 = 0) = (q = 7)" using q sq using sq by (auto simp: sint_word_of_int_s32 dest: arg_cong [of _ _ sint])
  have d: "d = word_of_int (k * slot)"
    using change ne q q7 by (simp add: period_change_def Let_def r sq ps k_def wi_hom_sub split: if_splits)
  have k: "1 \<le> k" "k \<le> 3" using q by (auto simp: k_def)
  have "0 \<le> uint per" by (rule uint_ge_0)
  then have slot0: "0 \<le> slot" "slot \<le> 2 ^ 25" using small(2) unfolding slot_def by (simp_all add: pos_imp_zdiv_nonneg_iff)
  then have ks: "slot \<le> k * slot" "k * slot \<le> 3 * slot" using k by (simp_all add: mult_right_mono mult_le_cancel_right1)
  have "per + d = word_of_int (uint per + k * slot)" by (simp add: d flip: wi_hom_add)
  then have "uint (per + d) = uint per + k * slot"
    by (simp only:) (intro u32_of_int; use ks slot0 small(2) in simp)
  then show "uint per + (uint per + 9) div 10 \<le> uint (per + d)" and "uint (per + d) \<le> uint per + 3 * ((uint per + 9) div 10)"
    using ks by (simp_all add: slot_def)
qed

text \<open>Below that the change is negative, and the period can take it.\<close>

lemma period_shrinks:
  assumes change: "period_change per misses hits shared priv = Some d" and small: "uint hits + uint misses < 2 ^ 60" "uint per \<le> 2 ^ 25"
    and share: "uint priv + uint shared < 2 ^ 58" and per: "21 \<le> uint per"
    and hits: "10 * uint hits < 7 * (uint hits + uint misses)"
  shows "uint (per + d) \<le> uint per"
proof -
  define q where "q = uint hits * 10 div (uint hits + uint misses)"
  define slot where "slot = (uint per + 9) div 10"
  have ne: "hits + misses \<noteq> 0" using change by (auto simp: period_change_def split: if_splits)
  have pos: "0 < uint hits + uint misses" using ne by (metis add_nonneg_eq_0_iff add_nonneg_nonneg add.right_neutral less_le uint_0_iff uint_ge_0)
  have q: "0 \<le> q" "q \<le> 10" "\<not> 7 \<le> q" using tenths [of "uint hits" "uint misses"] pos hits by (simp_all add: q_def)
  have r: "(ucast (hits * 10 div (hits + misses)) :: s32) = word_of_int q" using ratio_of_hits [OF small(1)] by (simp add: q_def)
  have sq: "sint (word_of_int q :: s32) = q" using q by (simp add: sint_word_of_int_s32)
  have ps: "(per + 10 - 1) div 10 = word_of_int slot" using period_slot_uint [OF small(2)] by (metis slot_def word_of_int_uint)
  have ps: "(9 + per) div 10 = word_of_int slot" using ps by simp
  obtain r2 where r2: "div_round_up (priv * 10) (priv + shared + 1) = Some r2"
    and d: "d = word_of_int (sint (- (7 - word_of_int q) * word_of_int slot * ucast r2 :: s32) sdiv 10)"
    using change ne q by (auto simp: period_change_def Let_def r sq ps split: if_splits bind_splits)
  define x where "x = (7 - q) * slot * uint r2"
  have ur: "0 \<le> uint r2" "uint r2 \<le> 10" using private_share [OF share r2] by simp_all
  have slot0: "0 \<le> slot" "10 * slot \<le> uint per + 9" "slot \<le> 2 ^ 25" using small(2) per unfolding slot_def by (simp_all add: pos_imp_zdiv_nonneg_iff)
  have "x \<le> 7 * slot * 10" unfolding x_def using q ur slot0 by (intro mult_mono mult_nonneg_nonneg) simp_all
  moreover have x0: "0 \<le> x" unfolding x_def using q ur slot0 by simp
  ultimately have x: "0 \<le> x" "x div 10 \<le> uint per" "x < 2147483648" using slot0 per small(2) by simp_all
  have "- (7 - word_of_int q) * word_of_int slot * ucast r2 = (word_of_int (- x) :: s32)"
    by (simp only: x_def ucast_eq wi_hom_syms minus_mult_left) simp
  then have "d = word_of_int (- x sdiv 10)" using d x sint_word_of_int_s32 [of "- x"] by simp
  then have "d = word_of_int (- (x div 10))" using x by (simp add: signed_divide_int_def sgn_if)
  then have "per + d = word_of_int (uint per - x div 10)" by (simp flip: wi_hom_sub)
  moreover have "0 \<le> uint per - x div 10" "uint per - x div 10 \<le> uint per" using x by simp_all
  ultimately show ?thesis using small(2) u32_of_int [of "uint per - x div 10"] by simp
qed

lemma scan_bounds_ordered:
  assumes "task_scan_min N m = Some lo" and "task_scan_max N m = Some hi"
  shows "lo \<le> hi"
  using assms by (auto simp: task_scan_max_def split: bind_splits)

text \<open>C34: after a scan with shared or local faults and no failed migration, the new period is between the bounds for the task; it is
  longer, or at the upper bound, when at least seven tenths of the accesses were local, and not longer, or at the lower
  bound, when fewer were. At exactly seven tenths it gets longer too, against the first line of the comment in the code, which
  says that the period then stays the same (its third line says that it increases). This needs a period of at least 21 ms, so that the subtraction does not wrap,
  and of at most \<open>2 ^ 25\<close> ms, and counts of faults below \<open>2 ^ 58\<close>.\<close>

theorem scan_period_adapts:
  assumes "update_task_scan_period N A p shared priv s = Some s'" and "task_mm (nt s p) = Some m"
    and "task_scan_min N (nmm s m) = Some lo" and "task_scan_max N (nmm s m) = Some hi"
    and "locality_local (nt s p) + shared \<noteq> 0" and "locality_failed (nt s p) = 0"
    and "uint (locality_local (nt s p)) + uint (locality_remote (nt s p)) < 2 ^ 60" and "uint priv + uint shared < 2 ^ 58"
    and "21 \<le> numa_scan_period (nt s p)" and "numa_scan_period (nt s p) \<le> 2 ^ 25"
  shows "lo \<le> numa_scan_period (nt s' p) \<and> numa_scan_period (nt s' p) \<le> hi
    \<and> (if 7 * (uint (locality_local (nt s p)) + uint (locality_remote (nt s p))) \<le> 10 * uint (locality_local (nt s p))
       then numa_scan_period (nt s' p) = hi \<or> numa_scan_period (nt s p) < numa_scan_period (nt s' p)
       else numa_scan_period (nt s' p) = lo \<or> numa_scan_period (nt s' p) \<le> numa_scan_period (nt s p))"
proof -
  let ?t = "nt s p"
  let ?per = "numa_scan_period ?t" and ?l = "locality_local ?t" and ?r = "locality_remote ?t"
  obtain d where d: "period_change ?per ?r ?l shared priv = Some d" and s': "numa_scan_period (nt s' p) = min (max (?per + d) lo) hi"
    using assms(1-6) by (auto simp: update_task_scan_period_def Let_def upd_nt_def split: bind_splits)
  have "lo \<le> hi" using scan_bounds_ordered assms(3,4) by blast
  moreover have per: "21 \<le> uint ?per" "uint ?per \<le> 2 ^ 25" using assms(9,10) by (simp_all add: word_le_def)
  moreover have "?per < ?per + d" if "7 * (uint ?l + uint ?r) \<le> 10 * uint ?l"
    using period_grows(1) [OF d assms(7) per(2) that] per by (simp add: word_less_def)
  moreover have "?per + d \<le> ?per" if "\<not> 7 * (uint ?l + uint ?r) \<le> 10 * uint ?l"
    using period_shrinks [OF d assms(7) per(2) assms(8) per(1)] that by (simp add: word_le_def)
  ultimately show ?thesis by (auto simp: s' min_def max_def)
qed

theorem scan_period_adapts_witness:
  "\<exists>s'. update_task_scan_period plain_numa plain_core 7 0 10 two_nodes = Some s' \<and> 1000 \<le> numa_scan_period (nt s' 7) \<and> numa_scan_period (nt s' 7) \<le> 60000
     \<and> (numa_scan_period (nt s' 7) = 60000 \<or> 1000 < numa_scan_period (nt s' 7))"
proof -
  obtain s' where s': "update_task_scan_period plain_numa plain_core 7 0 10 two_nodes = Some s'" using two_nodes_scan by auto
  have t: "task_mm (nt two_nodes 7) = Some 0" "locality_local (nt two_nodes 7) = 9" "locality_remote (nt two_nodes 7) = 1"
    "locality_failed (nt two_nodes 7) = 0" "numa_scan_period (nt two_nodes 7) = 1000"
    by (simp_all add: two_nodes_def plain_numa_task_def)
  show ?thesis
    using scan_period_adapts [of plain_numa plain_core 7 0 10 two_nodes s' 0 1000 60000] s' t two_nodes_bounds by simp
qed

end
