(* ===== verification/Numa_Work.thy ===== *)
theory Numa_Work
  imports Numa_Migrate Balance_Stats
begin

text \<open>
  The scan that unmaps pages so that their next access faults, \<open>task_numa_work\<close> of \<open>kernel/sched/fair.c\<close>, and what
  load balancing asks of NUMA balancing when \<open>CONFIG_NUMA_BALANCING\<close> is on. The address space is a parameter: the
  mappings of an address space in the order of their addresses, and \<open>change_prot_numa\<close>, which unmaps a range and counts
  the entries it changed. Pages have 4 KB and huge pages 2 MB, and the semaphore of the address space keeps its mappings.
\<close>

section \<open>The address space\<close>

text \<open>The flags of a mapping that the scan reads; \<open>vm_file\<close> says whether a file is mapped.\<close>

record vma =
  vm_start :: ulong
  vm_end :: ulong
  vm_read :: bool
  vm_write :: bool
  vm_exec :: bool
  vm_mixedmap :: bool
  vm_has_mm :: bool
  vm_file :: bool
  vma_migratable :: bool
  vma_policy_mof :: bool
  is_vm_hugetlb_page :: bool

text \<open>
  \<open>find_vma\<close> gives the mappings from the one found on. \<open>racing_scan\<close> is the time that another task of the address space has
  written between the reading of the time of the next scan and the \<open>cmpxchg\<close> on it, if one has.
\<close>

record numa_vm =
  mm_mmap :: "nat \<Rightarrow> vma list"
  find_vma :: "nat \<Rightarrow> ulong \<Rightarrow> vma list"
  down_read_trylock :: "nat \<Rightarrow> bool"
  change_prot_numa :: "vma \<Rightarrow> ulong \<Rightarrow> ulong \<Rightarrow> numa_state \<Rightarrow> ulong \<times> numa_state"
  cond_resched :: "numa_state \<Rightarrow> numa_state"
  racing_scan :: "numa_state \<Rightarrow> ulong option"
  tick_nsec :: u64
  sysctl_numa_balancing_scan_delay :: u32

definition HPAGE_SIZE :: ulong where "HPAGE_SIZE = 2097152"

definition align_up :: "ulong \<Rightarrow> ulong \<Rightarrow> ulong" where
  "align_up x a = (x + (a - 1)) AND NOT (a - 1)"

text \<open>Mappings whose pages do not move, shared libraries and inaccessible ranges are left out.\<close>

definition vma_skipped :: "vma \<Rightarrow> bool" where
  "vma_skipped v \<longleftrightarrow>
     \<not> vma_migratable v \<or> \<not> vma_policy_mof v \<or> is_vm_hugetlb_page v \<or> vm_mixedmap v
     \<or> \<not> vm_has_mm v \<or> vm_file v \<and> vm_read v \<and> \<not> vm_write v
     \<or> \<not> (vm_read v \<or> vm_exec v \<or> vm_write v)"

section \<open>The scan\<close>

text \<open>
  The state of the loops: where the scan is, and the present and the virtual pages it may still look at. The inner loop
  takes fuel, a unit per round, and says whether it left for \<open>out\<close>.
\<close>

type_synonym scan = "ulong \<times> s64 \<times> s64 \<times> numa_state"

fun scan_vma :: "nat \<Rightarrow> numa_vm \<Rightarrow> vma \<Rightarrow> scan \<Rightarrow> (bool \<times> scan) option" where
  "scan_vma 0 V v c = None"
| "scan_vma (Suc n) V v (start, pages, virtpages, s) =
     (let start = max start (vm_start v);
          stop = min (align_up (start + push_bit 12 pages) HPAGE_SIZE) (vm_end v);
          (nr_pte_updates, s) = change_prot_numa V v start stop s;
          pages = (if nr_pte_updates \<noteq> 0 then pages - drop_bit 12 (stop - start) else pages);
          virtpages = virtpages - drop_bit 12 (stop - start)
      in if sint pages \<le> 0 \<or> sint virtpages \<le> 0 then Some (True, stop, pages, virtpages, s)
         else let s = cond_resched V s
              in if stop \<noteq> vm_end v then scan_vma n V v (stop, pages, virtpages, s)
                 else Some (False, stop, pages, virtpages, s))"

fun scan_vmas :: "nat \<Rightarrow> numa_vm \<Rightarrow> vma list \<Rightarrow> scan \<Rightarrow> (bool \<times> scan) option" where
  "scan_vmas n V [] c = Some (False, c)"
| "scan_vmas n V (v # vs) c =
     (if vma_skipped v then scan_vmas n V vs c
      else do {
        (out, c) \<leftarrow> scan_vma n V v c;
        if out then Some (True, c) else scan_vmas n V vs c
      })"

text \<open>Behind the lock: from the mapping found on, or from the first; then where the next scan starts.\<close>

definition scan_pages :: "nat \<Rightarrow> numa_vm \<Rightarrow> numa_api \<Rightarrow> nat \<Rightarrow> numa_state \<Rightarrow> numa_state option" where
  "scan_pages n V N m s =
     (let start = numa_scan_offset (nmm s m);
          pages = push_bit 8 (ucast (sysctl_numa_balancing_scan_size N)) :: s64;
          virtpages = pages * 8;
          vmas = find_vma V m start;
          (start, vmas, s) = (if vmas = [] then (0, mm_mmap V m, upd_mm m reset_ptenuma_scan s) else (start, vmas, s))
      in do {
        (out, start, _, _, s) \<leftarrow> scan_vmas n V vmas (start, pages, virtpages, s);
        Some (upd_mm m (if out then (\<lambda>x. x\<lparr>numa_scan_offset := start\<rparr>) else reset_ptenuma_scan) s)
      })"

text \<open>Once the scan is due and this task has won it.\<close>

definition numa_work_scan :: "nat \<Rightarrow> numa_vm \<Rightarrow> numa_api \<Rightarrow> se_id \<Rightarrow> nat \<Rightarrow> u64 \<Rightarrow> numa_state \<Rightarrow> numa_state option" where
  "numa_work_scan n V N p m run s =
     (let s = upd_nt p (\<lambda>t. t\<lparr>node_stamp := node_stamp t + 2 * tick_nsec V\<rparr>) s in
      if push_bit 8 (ucast (sysctl_numa_balancing_scan_size N)) = (0 :: s64) \<or> \<not> down_read_trylock V m then Some s
      else do {
        s \<leftarrow> scan_pages n V N m s;
        let r = sum_exec_runtime (se_at (ks (nb s)) p);
        Some (if r \<noteq> run then upd_nt p (\<lambda>t. t\<lparr>node_stamp := node_stamp t + 32 * (r - run)\<rparr>) s else s)
      })"

definition task_numa_work :: "nat \<Rightarrow> numa_vm \<Rightarrow> numa_api \<Rightarrow> lb_api \<Rightarrow> se_id \<Rightarrow> numa_state \<Rightarrow> numa_state option" where
  "task_numa_work n V N A p s =
     (let run = sum_exec_runtime (se_at (ks (nb s)) p); now = jiffies (ks (nb s));
          s = s\<lparr>numa_works := removeAll p (numa_works s)\<rparr>
      in if exiting (nt s p) then Some s
         else do {
           m \<leftarrow> task_mm (nt s p);
           let s = (if numa_next_scan (nmm s m) = 0
             then upd_mm m (\<lambda>x. x\<lparr>numa_next_scan := now + msecs_to_jiffies A (ucast (sysctl_numa_balancing_scan_delay V))\<rparr>) s else s);
           let migrate = numa_next_scan (nmm s m);
           if time_after migrate now then Some s
           else do {
             s \<leftarrow> (if numa_scan_period (nt s p) = 0
               then do { hi \<leftarrow> task_scan_max N (nmm s m); lo \<leftarrow> task_scan_min N (nmm s m);
                         Some (upd_nt p (\<lambda>t. t\<lparr>numa_scan_period_max := hi, numa_scan_period := lo\<rparr>) s) }
               else Some s);
             let next_scan = now + msecs_to_jiffies A (ucast (numa_scan_period (nt s p)));
             let found = (case racing_scan V s of None \<Rightarrow> migrate | Some v \<Rightarrow> v);
             if found \<noteq> migrate then Some (upd_mm m (\<lambda>x. x\<lparr>numa_next_scan := found\<rparr>) s)
             else numa_work_scan n V N p m run (upd_mm m (\<lambda>x. x\<lparr>numa_next_scan := next_scan\<rparr>) s)
           }
         })"

section \<open>What load balancing asks\<close>

text \<open>\<open>1\<close>: the move degrades the locality; \<open>0\<close>: it improves it; \<open>- 1\<close>: it does not matter.\<close>

definition numa_migrate_degrades_locality :: "numa_api \<Rightarrow> se_id \<Rightarrow> lb_env \<Rightarrow> numa_state \<Rightarrow> int option" where
  "numa_migrate_degrades_locality N p e s =
     (let t = nt s p; src = cpu_to_node N (src_cpu e); dst = cpu_to_node N (dst_cpu e) in
      if \<not> sched_numa_balancing s then Some (- 1)
      else if numa_faults t = None \<or> \<not> has_flag SD_NUMA (sd_of e (nb s)) then Some (- 1)
      else if src = dst then Some (- 1)
      else if Some src = numa_preferred_nid t
      then Some (if rq_nr_running (rq_at (ks (nb s)) (src_cpu e)) > nr_preferred_running (nrq s (src_cpu e)) then 1 else - 1)
      else if Some dst = numa_preferred_nid t then Some 0
      else do {
        G \<leftarrow> group_of p s;
        let flt = (if G \<noteq> None then group_faults N G else task_faults N t);
        Some (of_bool (flt dst < flt src))
      })"

definition numa_fbq_classify_group :: "u32 \<Rightarrow> u32 \<Rightarrow> u32 \<Rightarrow> fbq_type" where
  "numa_fbq_classify_group sum_running numa_running preferred_running =
     (if sum_running > numa_running then regular else if sum_running > preferred_running then remote else all)"

definition numa_fbq_classify_rq :: "cpu \<Rightarrow> numa_state \<Rightarrow> fbq_type" where
  "numa_fbq_classify_rq u s =
     (if rq_nr_running (rq_at (ks (nb s)) u) > nr_numa_running (nrq s u) then regular
      else if rq_nr_running (rq_at (ks (nb s)) u) > nr_preferred_running (nrq s u) then remote else all)"

end
