(* ===== verification/Numa_Work_Props.thy ===== *)
theory Numa_Work_Props
  imports Numa_Work Two_Nodes
begin

text \<open>The scan returns, unmaps only ranges of mappings it may unmap, and looks at a bounded number of pages.\<close>

section \<open>One round\<close>

lemma align_up_uint:
  assumes "uint x + 2097151 < 2 ^ 64"
  shows "uint (align_up x HPAGE_SIZE) = (uint x + 2097151) div 2097152 * 2097152"
proof -
  have m: "(HPAGE_SIZE - 1 :: ulong) = mask 21" by (simp add: HPAGE_SIZE_def mask_eq_decr_exp)
  have "w AND NOT (mask 21) = push_bit 21 (drop_bit 21 w)" for w :: ulong
    by (rule bit_eqI) (auto simp: bit_simps)
  then have "align_up x HPAGE_SIZE = push_bit 21 (drop_bit 21 (x + 2097151))"
    by (simp only: align_up_def m) (simp add: mask_eq_decr_exp)
  moreover have "uint (x + 2097151) = uint x + 2097151" using assms uint_ge_0 [of x] by (simp add: uint_word_ariths)
  moreover have "uint (push_bit 21 (drop_bit 21 w)) = take_bit 64 (uint w div 2097152 * 2097152)" for w :: ulong
  proof -
    have "take_bit 64 (uint w) = uint w" by (rule take_bit_int_eq_self) (use uint_bounded [of w] in simp_all)
    then show ?thesis by (subst unsigned_push_bit_eq, subst unsigned_drop_bit_eq) (simp add: push_bit_eq_mult drop_bit_eq_div)
  qed
  ultimately have "uint (align_up x HPAGE_SIZE) = take_bit 64 ((uint x + 2097151) div 2097152 * 2097152)" by metis
  moreover have "(uint x + 2097151) div 2097152 * 2097152 < 2 ^ 64" "0 \<le> (uint x + 2097151) div 2097152 * 2097152"
    using assms uint_ge_0 [of x] div_mult_mod_eq [of "uint x + 2097151" 2097152] pos_mod_sign [of 2097152 "uint x + 2097151"] by linarith+
  ultimately show ?thesis by (simp add: take_bit_int_eq_self)
qed

text \<open>Addresses are multiples of the page size, and mappings are not empty.\<close>

definition page_aligned :: "ulong \<Rightarrow> bool" where
  "page_aligned a \<longleftrightarrow> uint a mod 4096 = 0"

definition vma_ok :: "vma \<Rightarrow> bool" where
  "vma_ok v \<longleftrightarrow> vm_start v < vm_end v \<and> page_aligned (vm_start v) \<and> page_aligned (vm_end v) \<and> vm_end v \<le> 2 ^ 47"

text \<open>A round advances by at least a page and by at most the pages left and a huge page.\<close>

lemma round_advances:
  fixes pages :: s64 and v :: vma and start :: ulong
  defines "a \<equiv> max start (vm_start v)"
  defines "stop \<equiv> min (align_up (a + push_bit 12 pages) HPAGE_SIZE) (vm_end v)"
  assumes v: "vma_ok v" and start: "start < vm_end v" "page_aligned start" and pages: "0 < sint pages" "sint pages \<le> 2 ^ 30"
  shows "a < stop" and "stop \<le> vm_end v" and "page_aligned stop" and "vm_start v \<le> a"
    and "1 \<le> uint (drop_bit 12 (stop - a))" and "uint (drop_bit 12 (stop - a)) \<le> sint pages + 511"
proof -
  define x where "x = uint a + 4096 * sint pages"
  have a: "a < vm_end v" "page_aligned a" "uint a < 2 ^ 47"
    using v start unfolding a_def vma_ok_def by (auto simp: max_def word_less_def word_le_def)
  have p: "sint pages = uint pages" using sint_nonneg_uint [of pages] pages by simp
  have "uint (push_bit 12 pages) = 4096 * sint pages"
    using pages by (simp add: p push_bit_eq_mult uint_word_ariths)
  then have x: "uint (a + push_bit 12 pages) = x" using a(3) pages by (simp add: x_def uint_word_ariths)
  define e where "e = (x + 2097151) div 2097152 * 2097152"
  have e: "uint (align_up (a + push_bit 12 pages) HPAGE_SIZE) = e"
    unfolding e_def x [symmetric] by (rule align_up_uint) (use x x_def a(3) pages in simp)
  have ex: "x \<le> e" "e \<le> x + 2097151"
    using div_mult_mod_eq [of "x + 2097151" 2097152] pos_mod_sign [of 2097152 "x + 2097151"] pos_mod_bound [of 2097152 "x + 2097151"]
    unfolding e_def by linarith+
  have em: "e mod 4096 = 0" unfolding e_def mod_eq_0_iff_dvd by (rule dvd_mult) simp
  have us: "uint stop = min e (uint (vm_end v))" by (simp add: stop_def e [symmetric] min_def word_le_def)
  show "vm_start v \<le> a" by (simp add: a_def)
  show stop: "a < stop" using us ex a pages unfolding word_less_def x_def by auto
  show "stop \<le> vm_end v" by (simp add: stop_def)
  show al: "page_aligned stop" using v em us by (auto simp: page_aligned_def vma_ok_def min_def)
  have d: "uint (stop - a) = uint stop - uint a" using stop by (simp add: uint_sub_if_size word_less_def)
  have "uint (drop_bit 12 (stop - a)) = (uint stop - uint a) div 4096" by (simp add: drop_bit_eq_div uint_div_distrib d)
  moreover have "4096 dvd uint stop - uint a" using al a(2) by (simp add: page_aligned_def mod_eq_0_iff_dvd)
  ultimately have k: "uint stop - uint a = 4096 * uint (drop_bit 12 (stop - a))" by simp
  show "1 \<le> uint (drop_bit 12 (stop - a))" using k stop by (simp add: word_less_def)
  have "uint stop - uint a \<le> 4096 * sint pages + 2097151" using us ex by (simp add: x_def)
  then show "uint (drop_bit 12 (stop - a)) \<le> sint pages + 511" using k by linarith
qed

section \<open>The loops\<close>

text \<open>\<open>Q\<close> is kept by unmapping a range of a mapping that is not skipped, and by giving way to other tasks.\<close>

definition keeps_allowed :: "numa_vm \<Rightarrow> vma set \<Rightarrow> (numa_state \<Rightarrow> bool) \<Rightarrow> bool" where
  "keeps_allowed V M Q \<longleftrightarrow>
     (\<forall>s. Q s \<longrightarrow> Q (cond_resched V s))
     \<and> (\<forall>v\<in>M. \<forall>a b s. \<not> vma_skipped v \<longrightarrow> vm_start v \<le> a \<longrightarrow> a < b \<longrightarrow> b \<le> vm_end v \<longrightarrow> Q s \<longrightarrow> Q (snd (change_prot_numa V v a b s)))"

text \<open>Where the loops are, and the budget of pages they have left.\<close>

definition budget_ok :: "int \<Rightarrow> s64 \<Rightarrow> s64 \<Rightarrow> bool" where
  "budget_ok P pages virtpages \<longleftrightarrow> 0 < sint pages \<and> sint pages \<le> P \<and> P \<le> 2 ^ 30 \<and> 0 < sint virtpages \<and> sint virtpages \<le> 8 * P"

definition scanned_ok :: "int \<Rightarrow> s64 \<Rightarrow> ulong \<Rightarrow> bool \<Rightarrow> ulong \<Rightarrow> s64 \<Rightarrow> s64 \<Rightarrow> bool" where
  "scanned_ok P virtpages limit out start' pages' virtpages' \<longleftrightarrow>
     page_aligned start' \<and> sint virtpages' \<le> sint virtpages \<and> - P - 511 < sint virtpages'
     \<and> (\<not> out \<longrightarrow> start' = limit \<and> budget_ok P pages' virtpages')"

lemma scan_vma_returns:
  assumes "vma_ok v" "\<not> vma_skipped v" "v \<in> M" "keeps_allowed V M Q"
  shows "start < vm_end v \<Longrightarrow> page_aligned start \<Longrightarrow> budget_ok P pages virtpages \<Longrightarrow> nat (sint virtpages) \<le> n \<Longrightarrow> Q s \<Longrightarrow>
    \<exists>out start' pages' virtpages' s'. scan_vma n V v (start, pages, virtpages, s) = Some (out, start', pages', virtpages', s') \<and> Q s'
      \<and> scanned_ok P virtpages (vm_end v) out start' pages' virtpages'"
proof (induction n arbitrary: start pages virtpages s)
  case 0
  then show ?case by (simp add: budget_ok_def)
next
  case (Suc n)
  let ?a = "max start (vm_start v)"
  let ?e = "min (align_up (?a + push_bit 12 pages) HPAGE_SIZE) (vm_end v)"
  let ?d = "drop_bit 12 (?e - ?a)"
  obtain nr s1 where cp: "change_prot_numa V v ?a ?e s = (nr, s1)" by fastforce
  define pages1 where "pages1 = (if nr \<noteq> 0 then pages - ?d else pages)"
  define virt1 where "virt1 = virtpages - ?d"
  have b: "0 < sint pages" "sint pages \<le> P" "P \<le> 2 ^ 30" "0 < sint virtpages" "sint virtpages \<le> 8 * P"
    using Suc.prems(3) by (simp_all add: budget_ok_def)
  then have small: "sint pages \<le> 2 ^ 30" by simp
  note r = round_advances [OF assms(1) Suc.prems(1,2) b(1) small]
  have Q1: "Q s1" using assms(2-4) r(1,2,4) Suc.prems(5) cp unfolding keeps_allowed_def by (metis snd_conv)
  have v1: "sint virt1 = sint virtpages - uint ?d" unfolding virt1_def by (rule sint_minus_uint) (use r(6) b in simp)
  have p1: "sint pages1 \<le> sint pages" unfolding pages1_def using r(5,6) b sint_minus_uint [of pages ?d] by auto
  have d: "1 \<le> uint ?d" "uint ?d \<le> P + 511" using r(5,6) b(2) by simp_all
  have step: "scan_vma (Suc n) V v (start, pages, virtpages, s) =
    (if sint pages1 \<le> 0 \<or> sint virt1 \<le> 0 then Some (True, ?e, pages1, virt1, s1)
     else if ?e \<noteq> vm_end v then scan_vma n V v (?e, pages1, virt1, cond_resched V s1) else Some (False, ?e, pages1, virt1, cond_resched V s1))"
    by (simp only: scan_vma.simps Let_def cp case_prod_conv flip: virt1_def pages1_def)
  have lower: "- P - 511 < sint virt1" using v1 d b by simp
  show ?case
  proof (cases "sint pages1 \<le> 0 \<or> sint virt1 \<le> 0")
    case True
    then show ?thesis using step r(3) v1 d lower Q1 by (auto simp: scanned_ok_def simp del: scan_vma.simps)
  next
    case False
    then have b1: "budget_ok P pages1 virt1" using b p1 v1 d by (simp add: budget_ok_def)
    have Q2: "Q (cond_resched V s1)" using Q1 assms(4) by (simp add: keeps_allowed_def)
    show ?thesis
    proof (cases "?e = vm_end v")
      case True
      then show ?thesis using step False r(3) v1 d lower Q2 b1 by (auto simp: scanned_ok_def simp del: scan_vma.simps)
    next
      case ne: False
      have "sint virt1 \<le> sint virtpages - 1" using v1 d by simp
      then have "nat (sint virt1) \<le> n" using Suc.prems(4) by linarith
      then obtain out start' pages' virtpages' s' where
        "scan_vma n V v (?e, pages1, virt1, cond_resched V s1) = Some (out, start', pages', virtpages', s')" "Q s'"
        "scanned_ok P virt1 (vm_end v) out start' pages' virtpages'"
        using Suc.IH [OF _ r(3) b1 _ Q2] r(2) ne by (metis order_le_less)
      then show ?thesis using step False ne v1 d by (auto simp: scanned_ok_def simp del: scan_vma.simps)
    qed
  qed
qed

text \<open>In the order of their addresses, no mapping starts before the end of the one before it.\<close>

definition vmas_ok :: "vma list \<Rightarrow> bool" where
  "vmas_ok vs \<longleftrightarrow> (\<forall>v\<in>set vs. vma_ok v) \<and> sorted_wrt (\<lambda>v w. vm_end v \<le> vm_start w) vs"

lemma scan_vmas_returns:
  assumes "keeps_allowed V M Q"
  shows "vmas_ok vs \<Longrightarrow> set vs \<subseteq> M \<Longrightarrow> \<forall>v\<in>set vs. start < vm_end v \<Longrightarrow> page_aligned start \<Longrightarrow> budget_ok P pages virtpages \<Longrightarrow>
     nat (sint virtpages) \<le> n \<Longrightarrow> Q s \<Longrightarrow>
    \<exists>out start' pages' virtpages' s'. scan_vmas n V vs (start, pages, virtpages, s) = Some (out, start', pages', virtpages', s') \<and> Q s'
      \<and> page_aligned start' \<and> - P - 511 < sint virtpages'"
proof (induction vs arbitrary: start pages virtpages s)
  case Nil
  then show ?case by (auto simp: budget_ok_def)
next
  case (Cons v vs)
  have vs: "vmas_ok vs" "set vs \<subseteq> M" "\<forall>w\<in>set vs. start < vm_end w" using Cons.prems by (auto simp: vmas_ok_def)
  show ?case
  proof (cases "vma_skipped v")
    case True
    then show ?thesis using Cons.IH [OF vs Cons.prems(4-7)] by simp
  next
    case False
    have v: "vma_ok v" "v \<in> M" "start < vm_end v" using Cons.prems by (auto simp: vmas_ok_def)
    obtain out start1 pages1 virt1 s1 where 1: "scan_vma n V v (start, pages, virtpages, s) = Some (out, start1, pages1, virt1, s1)" and Q: "Q s1"
      and ok: "scanned_ok P virtpages (vm_end v) out start1 pages1 virt1"
      using scan_vma_returns [OF v(1) False v(2) assms v(3) Cons.prems(4-7)] by blast
    show ?thesis
    proof (cases out)
      case True
      then show ?thesis using 1 Q ok False by (auto simp: scanned_ok_def)
    next
      case False': False
      then have s1: "start1 = vm_end v" "page_aligned start1" "budget_ok P pages1 virt1" and "sint virt1 \<le> sint virtpages"
        using ok unfolding scanned_ok_def by blast+
      then have n: "nat (sint virt1) \<le> n" using Cons.prems(6) nat_mono le_trans by blast
      have "start1 < vm_end w" if "w \<in> set vs" for w
        using Cons.prems(1) that s1(1) unfolding vmas_ok_def vma_ok_def by (auto intro: order_le_less_trans)
      then show ?thesis using Cons.IH [OF vs(1,2) _ s1(2,3) n Q] 1 False False' by simp
    qed
  qed
qed

lemma sorted_dropWhile: "vmas_ok vs \<Longrightarrow> vmas_ok (dropWhile p vs)"
  unfolding vmas_ok_def by (metis dropWhile_eq_drop set_dropWhileD sorted_wrt_drop)

text \<open>The first mapping beyond an address is the first of all that are.\<close>

lemma beyond_start:
  assumes "vmas_ok vs"
  shows "\<forall>v\<in>set (dropWhile (\<lambda>v. vm_end v \<le> a) vs). a < vm_end v"
  using assms
proof (induction vs)
  case (Cons v vs)
  have "a < vm_end w" if "a < vm_end v" "w \<in> set vs" for w
  proof -
    have "vm_end v \<le> vm_start w" "vm_start w < vm_end w" using Cons.prems that(2) by (auto simp: vmas_ok_def vma_ok_def)
    then show ?thesis using that(1) by order
  qed
  moreover have vs: "vmas_ok vs" using Cons.prems by (simp add: vmas_ok_def)
  ultimately show ?case
  proof (cases "vm_end v \<le> a")
    case True
    then show ?thesis using Cons.IH [OF vs] by (simp only: dropWhile.simps if_True)
  next
    case False
    then have "a < vm_end v" by simp
    moreover assume "\<And>w. a < vm_end v \<Longrightarrow> w \<in> set vs \<Longrightarrow> a < vm_end w"
    ultimately show ?thesis using False by (simp only: dropWhile.simps if_False) simp
  qed
qed simp

lemma scan_from:
  assumes ok: "vmas_ok ms" and offset: "page_aligned a"
    and src: "(start, vs) = (0, ms) \<or> (start, vs) = (a, dropWhile (\<lambda>v. vm_end v \<le> a) ms)"
  shows "vmas_ok vs" and "set vs \<subseteq> set ms" and "\<forall>v\<in>set vs. start < vm_end v" and "page_aligned start"
proof -
  have "0 < vm_end v" if "v \<in> set ms" for v
  proof -
    have "vm_start v < vm_end v" using ok that by (simp add: vmas_ok_def vma_ok_def)
    then show ?thesis by (rule le_less_trans [OF word_zero_le])
  qed
  moreover have "page_aligned 0" by (simp add: page_aligned_def)
  moreover have "set (dropWhile (\<lambda>v. vm_end v \<le> a) ms) \<subseteq> set ms" using set_dropWhileD by fast
  ultimately show "vmas_ok vs" "set vs \<subseteq> set ms" "\<forall>v\<in>set vs. start < vm_end v" "page_aligned start"
    using src ok offset sorted_dropWhile [OF ok] beyond_start [OF ok] by auto
qed

lemma scan_budget:
  fixes size :: u32
  defines "pages \<equiv> push_bit 8 (ucast size) :: s64"
  assumes "0 < size" and "size \<le> 2 ^ 22"
  shows "budget_ok (256 * uint size) pages (pages * 8)" and "nat (sint (pages * 8)) = 2048 * unat size"
proof -
  have size: "0 < uint size" "uint size \<le> 4194304" using assms(2,3) by (simp_all add: word_less_def word_le_def)
  have p: "pages = word_of_int (256 * uint size)" by (simp add: pages_def push_bit_eq_mult mult.commute)
  have p8: "pages * 8 = word_of_int (2048 * uint size)" by (simp add: p)
  have s: "sint pages = 256 * uint size" unfolding p by (rule sint_word_of_int_small) (use size in simp_all)
  have s8: "sint (pages * 8) = 2048 * uint size" unfolding p8 by (rule sint_word_of_int_small) (use size in simp_all)
  show "budget_ok (256 * uint size) pages (pages * 8)" using size by (simp add: budget_ok_def s s8)
  show "nat (sint (pages * 8)) = 2048 * unat size" unfolding s8 uint_nat by (simp only: nat_mult_distrib nat_int of_nat_0_le_iff zero_le_numeral nat_numeral)
qed

text \<open>C35: given the ordered mappings of the address space, \<open>find_vma\<close> returning those that end beyond the offset, an aligned offset and
  a scan size below 4 TB, a scan returns after at most 2048 rounds per MB of that size in each mapping; it leaves an aligned
  offset for the next one, and it unmaps only non-empty ranges inside mappings that are not skipped: whatever those keep holds afterwards.\<close>


theorem scan_returns:
  assumes "vmas_ok (mm_mmap V m)" and "\<And>a. find_vma V m a = dropWhile (\<lambda>v. vm_end v \<le> a) (mm_mmap V m)"
    and "page_aligned (numa_scan_offset (nmm s m))" and "0 < sysctl_numa_balancing_scan_size N" "sysctl_numa_balancing_scan_size N \<le> 2 ^ 22"
    and "2048 * unat (sysctl_numa_balancing_scan_size N) \<le> n"
    and "keeps_allowed V (set (mm_mmap V m)) Q" and "\<And>s f. Q (upd_mm m f s) = Q s" and "Q s"
  shows "\<exists>s'. scan_pages n V N m s = Some s' \<and> Q s' \<and> page_aligned (numa_scan_offset (nmm s' m))"
proof -
  define pages where "pages = (push_bit 8 (ucast (sysctl_numa_balancing_scan_size N)) :: s64)"
  define c where "c = (if find_vma V m (numa_scan_offset (nmm s m)) = [] then (0, mm_mmap V m, upd_mm m reset_ptenuma_scan s)
    else (numa_scan_offset (nmm s m), find_vma V m (numa_scan_offset (nmm s m)), s))"
  obtain start vs s1 where st: "c = (start, vs, s1)" by (metis prod_cases3)
  have "(start, vs) = (0, mm_mmap V m) \<or> (start, vs) = (numa_scan_offset (nmm s m), dropWhile (\<lambda>v. vm_end v \<le> numa_scan_offset (nmm s m)) (mm_mmap V m))"
    using st unfolding c_def assms(2) by (auto split: if_splits)
  note start = scan_from [OF assms(1,3) this]
  have "s1 = s \<or> s1 = upd_mm m reset_ptenuma_scan s" using st unfolding c_def by (auto split: if_splits)
  then have Q1: "Q s1" using assms(8,9) by metis
  note budget = scan_budget [OF assms(4,5), folded pages_def]
  obtain out start' pages' virt' s' where run: "scan_vmas n V vs (start, pages, pages * 8, s1) = Some (out, start', pages', virt', s')"
      and Q: "Q s'" and al: "page_aligned start'"
    using scan_vmas_returns [OF assms(7) start budget(1) _ Q1, of n] budget(2) assms(6) by (simp only:) blast
  let ?stop = "upd_mm m (if out then (\<lambda>x. x\<lparr>numa_scan_offset := start'\<rparr>) else reset_ptenuma_scan) s'"
  have "scan_pages n V N m s = Some ?stop"
    unfolding scan_pages_def Let_def pages_def [symmetric] c_def [symmetric] st by (simp only: prod.case run bind.simps)
  moreover have "page_aligned (numa_scan_offset (nmm ?stop m))"
    using al by (simp add: upd_mm_def reset_ptenuma_scan_def page_aligned_def)
  moreover have "Q ?stop" using Q by (simp only: assms(8))
  ultimately show ?thesis by (intro exI conjI)
qed

section \<open>A scan of two mappings\<close>

text \<open>A read-only file, which is skipped, and a writable range of 16 MB; the pages unmapped are counted at task 7, those of the file at task 3.\<close>

definition plain_vma :: vma where
  "plain_vma = \<lparr>vm_start = 4096, vm_end = 8192, vm_read = True, vm_write = False, vm_exec = False, vm_mixedmap = False, vm_has_mm = True,
     vm_file = True, vma_migratable = True, vma_policy_mof = True, is_vm_hugetlb_page = False\<rparr>"

definition plain_vm :: numa_vm where
  "plain_vm = \<lparr>mm_mmap = (\<lambda>_. [plain_vma, plain_vma\<lparr>vm_start := 16777216, vm_end := 33554432, vm_write := True, vm_file := False\<rparr>]),
     find_vma = (\<lambda>_ a. dropWhile (\<lambda>v. vm_end v \<le> a) [plain_vma, plain_vma\<lparr>vm_start := 16777216, vm_end := 33554432, vm_write := True, vm_file := False\<rparr>]),
     down_read_trylock = (\<lambda>_. True),
     change_prot_numa = (\<lambda>v a b s. (1, upd_nt (if vm_write v then 7 else 3) (\<lambda>t. t\<lparr>numa_pages_migrated := numa_pages_migrated t + 1\<rparr>) s)),
     cond_resched = id, racing_scan = (\<lambda>_. None), tick_nsec = 4000000, sysctl_numa_balancing_scan_delay = 1000\<rparr>"

lemma plain_vm_scan:
  "map_option (\<lambda>s. (numa_scan_offset (nmm s 0), mm_scan_seq (nmm s 0), numa_pages_migrated (nt s 7))) (scan_pages 3 plain_vm (plain_numa\<lparr>sysctl_numa_balancing_scan_size := 8\<rparr>) 0 two_nodes)
     = Some (25165824, 0, 1)"
  by code_simp

theorem scan_returns_witness:
  "\<exists>s'. scan_pages 524288 plain_vm plain_numa 0 two_nodes = Some s' \<and> numa_pages_migrated (nt s' 3) = 0 \<and> page_aligned (numa_scan_offset (nmm s' 0))"
proof -
  have ok: "vmas_ok (mm_mmap plain_vm 0)" by (simp add: plain_vm_def plain_vma_def vmas_ok_def vma_ok_def page_aligned_def)
  have keeps: "keeps_allowed plain_vm (set (mm_mmap plain_vm 0)) (\<lambda>s. numa_pages_migrated (nt s 3) = 0)"
    by (simp add: keeps_allowed_def plain_vm_def plain_vma_def vma_skipped_def upd_nt_def)
  have "page_aligned (numa_scan_offset (nmm two_nodes 0))" "numa_pages_migrated (nt two_nodes 3) = 0"
    by (simp_all add: two_nodes_def plain_numa_task_def page_aligned_def)
  then show ?thesis
    by (intro scan_returns [where Q = "\<lambda>s. numa_pages_migrated (nt s 3) = 0"] ok keeps)
      (simp_all add: plain_vm_def plain_numa_def upd_mm_def)
qed

end
