(* ===== verification/Spec2Isabelle.thy ===== *)
theory Spec2Isabelle
  imports Pmu Pelt_State Governor Governor_Life Modules Load_Weight Load_Tracking_Props Bandwidth_Props Task_Groups Runqueue_Spec Picking
    Cpu_Load_Props H_Load Balance_Props Imbalance_Props Domain_Props Target_Props
    Numa_Target Numa_Scan Numa_Work_Props
begin

text \<open>
  Verification of the memory-aware \<open>schedutil\<close> of \<open>src/mSchedutil\<close>: the load tracking of the Linux 4.9
  fair scheduling class, extended with core and memory shares measured by performance counters, and the
  frequency governor that uses them.

  The parts and how they interact. Every task and every runqueue carries load signals
  (\<open>struct sched_avg\<close>), decaying sums that \<open>__update_load_avg\<close> of \<open>kernel/sched/fair.c\<close> brings up to
  date; while a task runs, \<open>pkshin_pmu_get\<close> reads five counters and estimates which share of the
  cycles waits for memory. Entities attach their signals to runqueues and group entities propagate
  them upwards. Each change of a root runqueue calls the hook of the governor
  (\<open>kernel/sched/cpufreq_schedutil.c\<close>), which turns core and memory time into a utilisation, the
  utilisation into a frequency, and hands the frequency to a kernel thread that calls the driver. Six
  small modules switch the extensions on and off.

  Theories, in the order of the code they model:
  \<^item> \<open>Prelude\<close>: machine words, signed readings, the multiply-and-shift helper.
  \<^item> \<open>Sched_Types\<close>: the records of \<open>include/linux/sched.h\<close> and \<open>kernel/sched/sched.h\<close>; pointers are
    identifiers into the stores of \<open>kstate\<close>, what lies outside the repository is a field of \<open>kapi\<close>.
  \<^item> \<open>Pmu\<close>: \<open>pkshin_pmu_update\<close>, \<open>pkshin_pmu_get\<close> and \<open>pemt_module.c\<close>; assembly statements are events
    of a trace per cpu. Properties: exactness of a reading across counter wrap-around, when it divides by
    zero, what loading the module programs.
  \<^item> \<open>Pelt_Series\<close>, \<open>Pelt_Update\<close>: the decay tables, the contribution of whole periods, and
    \<open>__update_load_avg\<close> (here \<open>raw_update_load_avg\<close>) in the steps of its source; \<open>Pelt_Bounds\<close>,
    \<open>Pelt_State\<close>: bounds of every sum and average, the core share below the utilisation while tracking is on, and that an
    update of a group entity is weighed by the ratio of the task that runs below it.
  \<^item> \<open>Load_Weight\<close>: weights, cached inverses, \<open>__calc_delta\<close>, slices, scaling of the tunables.
  \<^item> \<open>Load_Tracking\<close>, \<open>Load_Tracking_Props\<close>: attach, detach, removal, propagation, the load of a group;
    attaching and detaching cancel, and propagation keeps what a runqueue holds besides the group entity.
  \<^item> \<open>Timeline\<close>: the tree of waiting entities by virtual time and \<open>min_vruntime\<close>; it sorts, over \<open>rb_ok\<close>, the
    contract of the tree library. \<open>Leaf_List\<close>: the list of leaf runqueues, children before parents, and
    \<open>find_matching_se\<close>.
  \<^item> \<open>Bandwidth\<close>, \<open>Bandwidth_Props\<close>: runtime pools, slices, expiry, throttled clocks; nobody runs beyond the
    quota, proved in the locale \<open>budget\<close> for any pool with bounded refills.
  \<^item> \<open>Entity\<close>, \<open>Throttle\<close>, \<open>Tasks\<close>, \<open>Task_Groups\<close>: new entities, \<open>update_curr\<close>, shares, placement, enqueueing,
    dequeueing, the tick, the choice of the next entity; throttling and its timers; the methods of
    \<open>fair_sched_class\<close>; groups.
  \<^item> \<open>Queue_Shape\<close>, \<open>Runqueue\<close>, \<open>Runqueue_Steps\<close>, \<open>Runqueue_Spec\<close>: what each operation leaves alone, the invariant
    that ties tree, flags, weights and counts of a runqueue together, the transition system \<open>rq_step\<close> of the
    operations, and that it refines runqueues that are sets. \<open>Picking\<close>: fairness of \<open>pick_next_entity\<close>.
  \<^item> \<open>Capacity\<close>, \<open>Cpu_Load\<close>: capacity and utilisation of a cpu, \<open>cpu_load[]\<close> and missed ticks, \<open>wake_affine\<close>,
    hierarchical and blocked load. \<open>Cpu_Load_Props\<close>: the averages reach a constant load and never exceed what
    they average; \<open>H_Load\<close>: the walk of \<open>update_cfs_rq_h_load\<close> comes back.
  \<^item> \<open>Domains\<close>, \<open>Balance_Stats\<close>, \<open>Balance_Find\<close>, \<open>Balance_Move\<close>, \<open>Load_Balance\<close>, \<open>Domain_Balance\<close>: load balancing
    between cpus, from the statistics of groups to the tick that triggers it, on \<open>lb_state\<close>, which is \<open>kstate\<close>
    with scheduling domains; the core's functions are the record \<open>lb_api\<close>. \<open>Balance_Props\<close>: which tasks and how much load \<open>detach_tasks\<close>
    takes and what it leaves, over \<open>core_contract\<close>; \<open>Imbalance_Props\<close>: the amount to move, the busiest queue, the capacity
    of overlapping groups; \<open>Domain_Props\<close>: the backoff of a domain and the accounts of tickless cpus.
  \<^item> \<open>Energy\<close>, \<open>Wakeup\<close>, \<open>Select_Cpu\<close>: the energy of a change of utilisation, the searches for a cpu by load, idleness,
    capacity and energy, and \<open>select_task_rq_fair\<close>. \<open>Wakeup_Props\<close>: where the chosen cpu comes from, and that leaving the
    previous cpu for energy is justified; \<open>Target_Props\<close>: which cpu \<open>find_best_target\<close> prefers, and that the energy
    computation and the descent through the domains return. \<open>Big_Little\<close>: a system of two unequal cpus for concrete runs.
  \<^item> \<open>Numa\<close>, \<open>Numa_Migrate\<close>, \<open>Numa_Work\<close>: NUMA balancing, from the faults of a task and its groups to the search for a
    cpu on a better node and the scan that unmaps pages, on \<open>numa_state\<close>; the core, the topology and the address space
    are the records \<open>numa_core\<close>, \<open>numa_api\<close> and \<open>numa_vm\<close>. \<open>Numa_Props\<close>: a group counts what its tasks count, through
    the transition system \<open>numa_step\<close>; \<open>Numa_Target\<close>: tasks are sent where they may run; \<open>Numa_Scan\<close>: the scan period
    follows the locality; \<open>Numa_Work_Props\<close>: a scan returns and unmaps only what it may. \<open>Two_Nodes\<close>: an example.
  \<^item> \<open>Schedutil\<close>, \<open>Schedutil_Props\<close>, \<open>Governor\<close>: decisions of the governor and the hand-over to the thread,
    as functions and as the transition system \<open>gov_step\<close>; the model behind the utilisation, with the performance mode.
  \<^item> \<open>Sysfs\<close>, \<open>Lifecycle\<close>, \<open>Lifecycle_Props\<close>, \<open>Governor_Life\<close>: the attributes, allocation, thread,
    \<open>sugov_init\<close> with its error paths, exit, start and stop; the transition system \<open>life\<close>, the
    invariant of its objects, and which calls are defined.
  \<^item> \<open>Modules\<close>: the five switch modules, with the locale \<open>switch_module\<close> as their contract.

  Conventions. The configuration is that of the target: arm64 (64-bit \<open>long\<close>), SMP, group scheduling,
  bandwidth control, task weights; no WALT, no statistics. Machine integers are words, so
  wrap-around is part of the model; a division by zero, an access out of bounds, a \<open>NULL\<close> pointer,
  freeing twice or releasing a mutex that is not held is \<open>None\<close>. Code outside the repository is an
  argument (\<open>kapi\<close>, \<open>gapi\<close>, \<open>gov_env\<close>, the parsers), and the properties name what they assume of it:
  \<open>mul_shr_ok\<close>, \<open>kstr_ok\<close>, \<open>env_ok\<close>, \<open>driver_keeps_mode\<close>, each with an instance. Walks up the group
  hierarchy take fuel; as much as the hierarchy is deep is enough, and running out is \<open>None\<close>, never a
  result. The energy of a group visits at most one cpu more than the group has (\<open>group_energy_returns\<close>), and
  the descent passes at most \<open>(weight + 1) * (depth + 1)\<close> domains (\<open>descent_ends\<close>). A scan of mappings takes
  2048 rounds per MB of its size at most (\<open>scan_returns\<close>).

  Not modelled: concurrency between cpus (operations are atomic steps), trace statements except where
  they divide, schedule statistics, the accounting of NUMA balancing within the other components (they are the code without
  \<open>CONFIG_NUMA_BALANCING\<close>; what balancing asks of it is in \<open>Numa_Work\<close>), SMT siblings, SchedTune, and the workload generators. The jumps back of
  \<open>load_balance\<close> take fuel; no property rests on their number.
\<close>

end
